(* ===== verification/Prelude.thy ===== *)
theory Prelude
  imports Main "HOL-Library.Word"
begin

text \<open>
  What every component theory shares: bytes, the result type of C code that can go wrong,
  the memory operations \<^verbatim>\<open>memcpy\<close> and array indexing stand for, mutexes, the outcome of
  allocations, and the list lemmas on circular buffers the ring buffer rests on.

  Conventions of the model.
  \<^item> A pointer that may be NULL is an \<open>option\<close>; a buffer behind a pointer is the list of
    its bytes, whose length is the extent that was allocated for it.
  \<^item> C code whose behaviour is undefined or fatal (reading past an allocation, using NULL,
    shifting by more than the width, locking a mutex twice) yields a \<open>fault\<close>, the left
    side of a sum; everything else is the right side.
  \<^item> \<^verbatim>\<open>size_t\<close> is \<open>nat\<close>: sums of sizes of existing objects never reach 2^64. A
    difference of sizes can go below zero, and \<open>size_sub\<close> writes its wrap-around out.
  \<^item> The outcome of each \<^verbatim>\<open>X_MALLOC\<close>, \<^verbatim>\<open>X_REALLOC\<close> and \<^verbatim>\<open>X_STRDUP\<close> of a call is given by a
    function from allocation sites to bool, so that the out-of-memory branches of the code
    are branches of the model. \<open>Iter i\<close> tells the iterations of a loop apart.
\<close>

unbundle bit_operations_syntax

named_theorems result_simps \<open>rewriting of results and of the memory operations\<close>

section \<open>Bytes, faults and results\<close>

type_synonym byte = "8 word"
type_synonym bytes = "byte list"

datatype fault =
    NullDeref       \<comment> \<open>a NULL pointer is used\<close>
  | OutOfBounds     \<comment> \<open>an access past the extent of an allocation\<close>
  | BadShift        \<comment> \<open>a shift by at least the width of the promoted operand\<close>
  | DivByZero
  | Deadlock        \<comment> \<open>a thread locks a mutex it holds\<close>
  | UnlockNotHeld   \<comment> \<open>a mutex is unlocked that is not locked\<close>
  | UseAfterFree    \<comment> \<open>an access to memory that was freed\<close>
  | BadFree         \<comment> \<open>\<^verbatim>\<open>free\<close> of something that was not allocated\<close>

type_synonym 'a result = "fault + 'a"

primrec bindr :: "'a result \<Rightarrow> ('a \<Rightarrow> 'b result) \<Rightarrow> 'b result" where
  "bindr (Inl e) f = Inl e"
| "bindr (Inr x) f = f x"

lemma bindr_eq_Inr [result_simps]: "bindr m f = Inr y \<longleftrightarrow> (\<exists>x. m = Inr x \<and> f x = Inr y)"
  by (cases m) auto

lemma bindr_eq_Inl [result_simps]:
  "bindr m f = Inl e \<longleftrightarrow> m = Inl e \<or> (\<exists>x. m = Inr x \<and> f x = Inl e)"
  by (cases m) auto

lemma bindr_assoc: "bindr (bindr m f) g = bindr m (\<lambda>x. bindr (f x) g)"
  by (cases m) auto

lemma bindr_Inr_right [simp]: "bindr m Inr = m"
  by (cases m) auto

lemma bindr_cong [fundef_cong]:
  "m = m' \<Longrightarrow> (\<And>x. m' = Inr x \<Longrightarrow> f x = f' x) \<Longrightarrow> bindr m f = bindr m' f'"
  by (cases m') auto

lemma bindr_if: "bindr (if b then x else y) f = (if b then bindr x f else bindr y f)"
  by simp

text \<open>Using a pointer that may be NULL.\<close>

primrec deref :: "'a option \<Rightarrow> 'a result" where
  "deref None = Inl NullDeref"
| "deref (Some x) = Inr x"

lemma deref_eq_Inr [result_simps]: "deref p = Inr x \<longleftrightarrow> p = Some x"
  by (cases p) auto

section \<open>Memory\<close>

text \<open>\<open>mem_read m off n\<close> is what \<^verbatim>\<open>memcpy( dest, m + off, n )\<close> reads, \<open>mem_write m off xs\<close>
  what \<^verbatim>\<open>memcpy( m + off, xs, n )\<close> leaves in \<open>m\<close>, \<open>mem_get\<close> is \<^verbatim>\<open>m[i]\<close>.\<close>

definition mem_read :: "'a list \<Rightarrow> nat \<Rightarrow> nat \<Rightarrow> 'a list result" where
  "mem_read m off n = (if off + n \<le> length m then Inr (take n (drop off m)) else Inl OutOfBounds)"

definition mem_write :: "'a list \<Rightarrow> nat \<Rightarrow> 'a list \<Rightarrow> 'a list result" where
  "mem_write m off xs =
     (if off + length xs \<le> length m
      then Inr (take off m @ xs @ drop (off + length xs) m) else Inl OutOfBounds)"

definition mem_get :: "'a list \<Rightarrow> nat \<Rightarrow> 'a result" where
  "mem_get m i = (if i < length m then Inr (m ! i) else Inl OutOfBounds)"

lemma mem_read_ok [simp]: "off + n \<le> length m \<Longrightarrow> mem_read m off n = Inr (take n (drop off m))"
  by (simp add: mem_read_def)

lemma mem_read_fault [simp]: "length m < off + n \<Longrightarrow> mem_read m off n = Inl OutOfBounds"
  by (simp add: mem_read_def)

lemma mem_write_ok [simp]:
  "off + length xs \<le> length m \<Longrightarrow>
     mem_write m off xs = Inr (take off m @ xs @ drop (off + length xs) m)"
  by (simp add: mem_write_def)

lemma mem_write_fault [simp]:
  "length m < off + length xs \<Longrightarrow> mem_write m off xs = Inl OutOfBounds"
  by (simp add: mem_write_def)

lemma mem_get_ok [simp]: "i < length m \<Longrightarrow> mem_get m i = Inr (m ! i)"
  by (simp add: mem_get_def)

lemma mem_get_fault [simp]: "length m \<le> i \<Longrightarrow> mem_get m i = Inl OutOfBounds"
  by (simp add: mem_get_def)

lemma mem_get_eq_Inr [result_simps]: "mem_get m i = Inr x \<longleftrightarrow> i < length m \<and> x = m ! i"
  by (auto simp: mem_get_def)

lemma mem_write_length: "mem_write m off xs = Inr m' \<Longrightarrow> length m' = length m"
  by (auto simp: mem_write_def split: if_splits)

text \<open>\<^verbatim>\<open>size_t\<close> subtraction wraps around.\<close>

definition size_sub :: "nat \<Rightarrow> nat \<Rightarrow> nat" where
  "size_sub a b = (if b \<le> a then a - b else a + 2 ^ 64 - b)"

lemma size_sub_le [simp]: "b \<le> a \<Longrightarrow> size_sub a b = a - b"
  by (simp add: size_sub_def)

text \<open>\<^verbatim>\<open>strlen\<close> reads up to the terminator, which has to lie inside the allocation.\<close>

fun c_strlen :: "bytes \<Rightarrow> nat result" where
  "c_strlen [] = Inl OutOfBounds"
| "c_strlen (b # bs) = (if b = 0 then Inr 0 else bindr (c_strlen bs) (\<lambda>n. Inr (Suc n)))"

definition c_string :: "bytes \<Rightarrow> bytes" where
  "c_string d = takeWhile (\<lambda>b. b \<noteq> 0) d"

lemma c_strlen_ok [simp]: "0 \<in> set d \<Longrightarrow> c_strlen d = Inr (length (c_string d))"
  by (induction d) (auto simp: c_string_def)

lemma c_strlen_fault: "0 \<notin> set d \<Longrightarrow> c_strlen d = Inl OutOfBounds"
  by (induction d) auto

lemma length_c_string: "0 \<in> set d \<Longrightarrow> length (c_string d) < length d"
  unfolding c_string_def by (induction d) auto

lemma take_c_string: "0 \<in> set d \<Longrightarrow> take (length (c_string d)) d = c_string d"
  unfolding c_string_def by (metis takeWhile_eq_take)

lemma take_Suc_c_string: "0 \<in> set d \<Longrightarrow> take (Suc (length (c_string d))) d = c_string d @ [0]"
  unfolding c_string_def by (induction d) auto

lemma c_string_append: "0 \<notin> set xs \<Longrightarrow> c_string (xs @ 0 # ys) = xs"
  unfolding c_string_def by (induction xs) auto

lemma c_string_no_0: "0 \<notin> set (c_string d)"
  unfolding c_string_def by (auto dest: set_takeWhileD)

lemma unat_of_nat_less: "n < 2 ^ LENGTH('a::len) \<Longrightarrow> unat (of_nat n :: 'a word) = n"
  by (simp add: unat_of_nat)

lemma one_bit: "f < (2 :: byte) \<Longrightarrow> f = 0 \<or> f = 1"
proof -
  assume "f < 2"
  then have "unat f < 2" by (simp add: word_less_nat_alt)
  then have "unat f = 0 \<or> unat f = 1" by linarith
  then show "f = 0 \<or> f = 1" by (metis unat_eq_zero unat_1 word_unat_eq_iff)
qed

lemma unat_plus_one_less:
  "unat (w :: 'a::len word) < n \<Longrightarrow> n < 2 ^ LENGTH('a) \<Longrightarrow> unat (w + 1) = unat w + 1"
proof -
  assume a: "unat w < n" "n < 2 ^ LENGTH('a)"
  have "w + 1 = of_nat (unat w + 1)" by simp
  then show "unat (w + 1) = unat w + 1"
    using a unat_of_nat_less [of "unat w + 1", where 'a = 'a] by (simp add: add.commute)
qed

section \<open>Allocation outcomes and mutexes\<close>

datatype site = Site string | Iter nat site

type_synonym alloc = "site \<Rightarrow> bool"

text \<open>When every allocation succeeds.\<close>

abbreviation mem_ok :: alloc where
  "mem_ok \<equiv> \<lambda>_. True"

lemma alloc_all: "\<forall>s. A s \<Longrightarrow> A = mem_ok"
  by (rule ext) simp

text \<open>A mutex is true while it is held.\<close>

definition mutex_lock :: "bool \<Rightarrow> bool result" where
  "mutex_lock held = (if held then Inl Deadlock else Inr True)"

definition mutex_unlock :: "bool \<Rightarrow> bool result" where
  "mutex_unlock held = (if held then Inr False else Inl UnlockNotHeld)"

lemma mutex_simps [simp]:
  "mutex_lock False = Inr True" "mutex_lock True = Inl Deadlock"
  "mutex_unlock True = Inr False" "mutex_unlock False = Inl UnlockNotHeld"
  by (simp_all add: mutex_lock_def mutex_unlock_def)

section \<open>Circular views of a list\<close>

text \<open>\<open>circ d s n\<close> are the \<open>n\<close> elements of \<open>d\<close> from position \<open>s\<close> on, wrapping at the end.\<close>

definition circ :: "'a list \<Rightarrow> nat \<Rightarrow> nat \<Rightarrow> 'a list" where
  "circ d s n = map (\<lambda>i. d ! ((s + i) mod length d)) [0..<n]"

lemma length_circ [simp]: "length (circ d s n) = n"
  by (simp add: circ_def)

lemma circ_0 [simp]: "circ d s 0 = []"
  by (simp add: circ_def)

lemma nth_circ [simp]: "i < n \<Longrightarrow> circ d s n ! i = d ! ((s + i) mod length d)"
  by (simp add: circ_def)

lemma circ_contiguous: "s + n \<le> length d \<Longrightarrow> circ d s n = take n (drop s d)"
  by (rule nth_equalityI) auto

lemma circ_wrapped:
  assumes "s < length d" "length d \<le> s + n" "s + n \<le> 2 * length d"
  shows "circ d s n = drop s d @ take (s + n - length d) d"
proof (rule nth_equalityI)
  show "length (circ d s n) = length (drop s d @ take (s + n - length d) d)"
    using assms by simp
  fix i assume i: "i < length (circ d s n)"
  show "circ d s n ! i = (drop s d @ take (s + n - length d) d) ! i"
  proof (cases "s + i < length d")
    case True
    with i assms show ?thesis by (simp add: nth_append less_diff_conv add.commute)
  next
    case False
    with i assms have "(s + i) mod length d = s + i - length d"
      by (simp add: mod_if)
    with False i assms show ?thesis by (simp add: nth_append less_diff_conv add.commute)
  qed
qed

lemma circ_mod: "circ d (s mod length d) n = circ d s n"
  by (simp add: circ_def mod_add_left_eq)

lemma take_circ: "k \<le> n \<Longrightarrow> take k (circ d s n) = circ d s k"
  by (rule nth_equalityI) auto

lemma drop_circ: "k \<le> n \<Longrightarrow> drop k (circ d s n) = circ d (s + k) (n - k)"
  by (rule nth_equalityI) (auto simp: add.assoc)

lemma circ_Suc: "circ d s (Suc n) = d ! (s mod length d) # circ d (Suc s) n"
  by (rule nth_equalityI) (auto simp: nth_Cons split: nat.splits)

text \<open>\<open>circ_put d e xs\<close> stores \<open>xs\<close> from position \<open>e\<close> on, wrapping at the end.\<close>

definition circ_put :: "'a list \<Rightarrow> nat \<Rightarrow> 'a list \<Rightarrow> 'a list" where
  "circ_put d e xs =
     (let f = length d - e in
      if length xs \<le> f then take e d @ xs @ drop (e + length xs) d
      else drop f xs @ drop (length xs - f) (take e d) @ take f xs)"

lemma length_circ_put:
  "e \<le> length d \<Longrightarrow> length xs \<le> length d \<Longrightarrow> length (circ_put d e xs) = length d"
  by (auto simp: circ_put_def Let_def)

lemma nth_circ_put_new:
  assumes "e \<le> length d" "length xs \<le> length d" "j < length xs"
  shows "circ_put d e xs ! ((e + j) mod length d) = xs ! j"
proof -
  from assms(1) obtain f where L: "length d = e + f" by (auto simp: le_iff_add)
  show ?thesis
  proof (cases "j < f")
    case True
    have "(drop f xs @ drop (length xs - f) (take e d) @ take f xs) ! (e + j) = xs ! j"
      if "f < length xs"
      using that L assms True
        nth_append_length_plus [of "drop f xs @ drop (length xs - f) (take e d)" "take f xs" j]
      by simp
    with True L assms show ?thesis by (auto simp: circ_put_def nth_append)
  next
    case False
    with L assms have "(e + j) mod length d = j - f" by (simp add: mod_if)
    moreover have "j - f < length xs - f" using False assms by simp
    ultimately show ?thesis using False L assms by (simp add: circ_put_def nth_append)
  qed
qed

lemma nth_circ_put_old:
  assumes "e \<le> length d" "length xs \<le> j" "j < length d"
  shows "circ_put d e xs ! ((e + j) mod length d) = d ! ((e + j) mod length d)"
proof -
  from assms(1) obtain f where L: "length d = e + f" by (auto simp: le_iff_add)
  show ?thesis
  proof (cases "j < f")
    case True
    with L assms show ?thesis by (simp add: circ_put_def nth_append)
  next
    case False
    then obtain i where j: "j = f + i" by (auto simp: not_less le_iff_add)
    with L assms have p: "(e + j) mod length d = i" and i: "i < e" by (simp_all add: mod_if)
    have "(drop f xs @ drop (length xs - f) (take e d) @ take f xs) ! i = d ! i"
      if "f < length xs"
    proof -
      have "(drop (length xs - f) (take e d) @ take f xs) ! (i - (length xs - f)) = d ! i"
        using that L j assms i by (subst nth_append) auto
      then show ?thesis using that L j assms i by (subst nth_append) auto
    qed
    with p i L show ?thesis by (auto simp: circ_put_def nth_append)
  qed
qed

text \<open>Storing behind the \<open>n\<close> elements in use appends to the view, if there is room.\<close>

lemma circ_circ_put:
  assumes e: "e \<le> length d" and room: "n + length xs \<le> length d" and pos: "0 < length d"
    and end_: "e mod length d = (s + n) mod length d"
  shows "circ (circ_put d e xs) s (n + length xs) = circ d s n @ xs"
proof (rule nth_equalityI)
  show "length (circ (circ_put d e xs) s (n + length xs)) = length (circ d s n @ xs)"
    by simp
  fix i assume i: "i < length (circ (circ_put d e xs) s (n + length xs))"
  have len: "length (circ_put d e xs) = length d"
    using e room by (simp add: length_circ_put)
  show "circ (circ_put d e xs) s (n + length xs) ! i = (circ d s n @ xs) ! i"
  proof (cases "i < n")
    case True
    let ?j = "length d - n + i"
    have "(e + ?j) mod length d = (s + n + ?j) mod length d"
      using end_ by (metis mod_add_left_eq)
    also have "s + n + ?j = s + i + length d"
      using True room by simp
    finally have pos_eq: "(e + ?j) mod length d = (s + i) mod length d" by simp
    have "circ_put d e xs ! ((e + ?j) mod length d) = d ! ((e + ?j) mod length d)"
      by (rule nth_circ_put_old) (use e room True in auto)
    with True i len pos_eq show ?thesis by (simp add: nth_append)
  next
    case False
    let ?j = "i - n"
    have "(e + ?j) mod length d = (s + n + ?j) mod length d"
      using end_ by (metis mod_add_left_eq)
    with False have pos_eq: "(e + ?j) mod length d = (s + i) mod length d" by simp
    have "circ_put d e xs ! ((e + ?j) mod length d) = xs ! ?j"
      by (rule nth_circ_put_new) (use e room i False in auto)
    with False i len pos_eq show ?thesis by (simp add: nth_append)
  qed
qed

end
