(* ===== verification/Net_Bytes.thy ===== *)
theory Net_Bytes
  imports Prelude
begin

text \<open>
  Integers on the wire: \<^verbatim>\<open>ntohll\<close> and the cursor functions \<^verbatim>\<open>put_uintN\<close> and \<^verbatim>\<open>get_uintN\<close> of
  \<^verbatim>\<open>utils.c\<close>. A cursor is the buffer with the offset the C pointer has reached, or NULL. The
  host's byte order is a parameter of the code; the properties show that the bytes written
  do not depend on it. The contract \<open>wire_format\<close> is what the packers and unpackers of the
  packet formats use; it is interpreted for the three widths.
\<close>

unbundle bit_operations_syntax

section \<open>Representations of words in memory\<close>

fun le_bytes :: "nat \<Rightarrow> 'a::len word \<Rightarrow> bytes" where
  "le_bytes 0 w = []"
| "le_bytes (Suc n) w = ucast w # le_bytes n (drop_bit 8 w)"

fun le_word :: "bytes \<Rightarrow> 'a::len word" where
  "le_word [] = 0"
| "le_word (b # bs) = ucast b OR push_bit 8 (le_word bs)"

definition be_bytes :: "nat \<Rightarrow> 'a::len word \<Rightarrow> bytes" where
  "be_bytes n w = rev (le_bytes n w)"

lemma length_le_bytes [simp]: "length (le_bytes n w) = n"
  by (induction n arbitrary: w) simp_all

lemma length_be_bytes [simp]: "length (be_bytes n w) = n"
  by (simp add: be_bytes_def)

lemma le_word_bytes_take: "le_word (le_bytes n w) = take_bit (8 * n) w"
proof (induction n arbitrary: w)
  case 0
  show ?case by simp
next
  case (Suc n)
  show ?case
    by (rule bit_word_eqI)
      (auto simp: Suc.IH bit_or_iff bit_push_bit_iff bit_take_bit_iff bit_drop_bit_eq bit_ucast_iff
        dest: bit_imp_le_length)
qed

lemma le_word_bytes: "8 * n = LENGTH('a) \<Longrightarrow> le_word (le_bytes n (w :: 'a::len word)) = w"
  by (simp add: le_word_bytes_take)

lemma bit_le_word: "bit (le_word bs :: 'a::len word) i \<Longrightarrow> i < 8 * length bs"
proof (induction bs arbitrary: i)
  case Nil
  then show ?case by simp
next
  case (Cons b bs)
  then consider "bit (ucast b :: 'a word) i" | "8 \<le> i" "bit (le_word bs :: 'a word) (i - 8)"
    by (auto simp: bit_or_iff bit_push_bit_iff)
  then show ?case
  proof cases
    case 1
    then have "i < 8" by (auto simp: bit_ucast_iff dest: bit_imp_le_length)
    then show ?thesis by simp
  next
    case 2
    with Cons.IH [of "i - 8"] show ?thesis by simp
  qed
qed

lemma le_bytes_word:
  "8 * length bs \<le> LENGTH('a::len) \<Longrightarrow> le_bytes (length bs) (le_word bs :: 'a word) = bs"
proof (induction bs)
  case Nil
  show ?case by simp
next
  case (Cons b bs)
  let ?x = "le_word bs :: 'a word"
  have b: "ucast (ucast b OR push_bit 8 ?x) = b"
    by (rule bit_word_eqI)
      (use Cons.prems in \<open>auto simp: bit_or_iff bit_push_bit_iff bit_ucast_iff dest: bit_imp_le_length\<close>)
  have "drop_bit 8 (ucast b OR push_bit 8 ?x) = ?x"
    by (rule bit_word_eqI)
      (use Cons.prems in \<open>auto simp: bit_or_iff bit_push_bit_iff bit_drop_bit_eq bit_ucast_iff
        dest: bit_imp_le_length bit_le_word\<close>)
  with b Cons show ?case by simp
qed

definition be_word :: "bytes \<Rightarrow> 'a::len word" where
  "be_word bs = le_word (rev bs)"

lemma be_word_bytes [simp]: "8 * n = LENGTH('a) \<Longrightarrow> be_word (be_bytes n (w :: 'a::len word)) = w"
  by (simp add: be_word_def be_bytes_def le_word_bytes)

lemma be_bytes_word: "8 * length bs \<le> LENGTH('a::len) \<Longrightarrow> be_bytes (length bs) (be_word bs :: 'a word) = bs"
  using le_bytes_word [of "rev bs", where 'a = 'a] by (simp add: be_word_def be_bytes_def)

text \<open>The object representation of an integer on the host, and the integer of a representation.\<close>

datatype endian = LE | BE

fun host_bytes :: "endian \<Rightarrow> nat \<Rightarrow> 'a::len word \<Rightarrow> bytes" where
  "host_bytes LE n w = le_bytes n w"
| "host_bytes BE n w = be_bytes n w"

fun host_word :: "endian \<Rightarrow> bytes \<Rightarrow> 'a::len word" where
  "host_word LE bs = le_word bs"
| "host_word BE bs = be_word bs"

lemma length_host_bytes [simp]: "length (host_bytes h n w) = n"
  by (cases h) simp_all

lemma host_word_bytes [simp]: "8 * n = LENGTH('a) \<Longrightarrow> host_word h (host_bytes h n (w :: 'a::len word)) = w"
  by (cases h) (simp_all add: le_word_bytes)

lemma host_bytes_word: "8 * length bs \<le> LENGTH('a::len) \<Longrightarrow>
    host_bytes h (length bs) (host_word h bs :: 'a word) = bs"
  by (cases h) (simp_all add: le_bytes_word be_bytes_word)

section \<open>Byte order conversion\<close>

text \<open>\<^verbatim>\<open>htons\<close>, \<^verbatim>\<open>ntohs\<close>, \<^verbatim>\<open>htonl\<close> and \<^verbatim>\<open>ntohl\<close> of the C library: the value in memory is in
  network byte order.\<close>

definition hton :: "endian \<Rightarrow> nat \<Rightarrow> 'a::len word \<Rightarrow> 'a word" where
  "hton h n w = host_word h (be_bytes n w)"

definition ntoh :: "endian \<Rightarrow> nat \<Rightarrow> 'a::len word \<Rightarrow> 'a word" where
  "ntoh h n w = be_word (host_bytes h n w)"

text \<open>The 64-bit conversion is the program's: it looks at the representation of 1 to find the
  host's byte order, and exchanges the bytes of the union when it is little endian.\<close>

definition swap_bytes :: "nat \<Rightarrow> nat \<Rightarrow> bytes \<Rightarrow> bytes" where
  "swap_bytes i j c = (let x = c ! i in c[i := c ! j, j := x])"

definition ntohll :: "endian \<Rightarrow> 64 word \<Rightarrow> 64 word" where
  "ntohll h value =
     (let c = host_bytes h 8 (1 :: 64 word) in
      if c ! 7 = 1 then value
      else let c = host_bytes h 8 value;
               c = swap_bytes 0 7 c; c = swap_bytes 1 6 c;
               c = swap_bytes 2 5 c; c = swap_bytes 3 4 c
           in host_word h c)"

definition htonll :: "endian \<Rightarrow> 64 word \<Rightarrow> 64 word" where
  "htonll h value = ntohll h value"

lemma list8E:
  assumes "length xs = 8"
  obtains a b c d e f g i where "xs = [a, b, c, d, e, f, g, i]"
  using assms by (auto simp: length_Suc_conv numeral_eq_Suc)

lemma ntohll_is_hton: "ntohll h v = hton h 8 v"
proof (cases h)
  case BE
  have "be_bytes 8 (1 :: 64 word) ! 7 = 1" by code_simp
  with BE show ?thesis by (simp add: ntohll_def hton_def)
next
  case LE
  obtain a b c d e f g i where v: "le_bytes 8 v = [a, b, c, d, e, f, g, i]"
    by (rule list8E [of "le_bytes 8 v"]) simp
  have one: "le_bytes 8 (1 :: 64 word) ! 7 = 0" by code_simp
  show ?thesis
    using LE v one by (simp add: ntohll_def hton_def be_bytes_def swap_bytes_def Let_def)
qed

lemma ntohll_is_ntoh: "ntohll h v = ntoh h 8 v"
proof -
  have "ntoh h 8 v = hton h 8 v"
    by (cases h) (simp_all add: ntoh_def hton_def be_word_def be_bytes_def le_word_bytes)
  then show ?thesis by (simp add: ntohll_is_hton)
qed

section \<open>Cursors\<close>

type_synonym cursor = "(bytes \<times> nat) option"

definition put_uint16 :: "endian \<Rightarrow> cursor \<Rightarrow> 16 word \<Rightarrow> nat \<Rightarrow> (cursor \<times> nat) result" where
  "put_uint16 h dest src len =
     (case dest of None \<Rightarrow> Inr (None, len)
      | Some (m, p) \<Rightarrow>
          bindr (mem_write m p (host_bytes h 2 (hton h 2 src))) (\<lambda>m. Inr (Some (m, p + 2), len + 2)))"

definition put_uint32 :: "endian \<Rightarrow> cursor \<Rightarrow> 32 word \<Rightarrow> nat \<Rightarrow> (cursor \<times> nat) result" where
  "put_uint32 h dest src len =
     (case dest of None \<Rightarrow> Inr (None, len)
      | Some (m, p) \<Rightarrow>
          bindr (mem_write m p (host_bytes h 4 (hton h 4 src))) (\<lambda>m. Inr (Some (m, p + 4), len + 4)))"

definition put_uint64 :: "endian \<Rightarrow> cursor \<Rightarrow> 64 word \<Rightarrow> nat \<Rightarrow> (cursor \<times> nat) result" where
  "put_uint64 h dest src len =
     (case dest of None \<Rightarrow> Inr (None, len)
      | Some (m, p) \<Rightarrow>
          bindr (mem_write m p (host_bytes h 8 (htonll h src))) (\<lambda>m. Inr (Some (m, p + 8), len + 8)))"

text \<open>The getters leave the destination (\<open>old\<close>) as it is when the source is NULL; the callers
  pass the address of a variable as destination, and the length wraps around.\<close>

definition get_uint16 :: "endian \<Rightarrow> 16 word \<Rightarrow> cursor \<Rightarrow> nat \<Rightarrow> (16 word \<times> cursor \<times> nat) result" where
  "get_uint16 h old src len =
     (case src of None \<Rightarrow> Inr (old, None, len)
      | Some (m, p) \<Rightarrow>
          bindr (mem_read m p 2) (\<lambda>bs.
          Inr (ntoh h 2 (host_word h bs), Some (m, p + 2), size_sub len 2)))"

definition get_uint32 :: "endian \<Rightarrow> 32 word \<Rightarrow> cursor \<Rightarrow> nat \<Rightarrow> (32 word \<times> cursor \<times> nat) result" where
  "get_uint32 h old src len =
     (case src of None \<Rightarrow> Inr (old, None, len)
      | Some (m, p) \<Rightarrow>
          bindr (mem_read m p 4) (\<lambda>bs.
          Inr (ntoh h 4 (host_word h bs), Some (m, p + 4), size_sub len 4)))"

definition get_uint64 :: "endian \<Rightarrow> 64 word \<Rightarrow> cursor \<Rightarrow> nat \<Rightarrow> (64 word \<times> cursor \<times> nat) result" where
  "get_uint64 h old src len =
     (case src of None \<Rightarrow> Inr (old, None, len)
      | Some (m, p) \<Rightarrow>
          bindr (mem_read m p 8) (\<lambda>bs.
          Inr (ntohll h (host_word h bs), Some (m, p + 8), size_sub len 8)))"

section \<open>What they do, on either host\<close>

lemma host_bytes_hton [simp]:
  "8 * n = LENGTH('a::len) \<Longrightarrow> host_bytes h n (hton h n (w :: 'a word)) = be_bytes n w"
  using host_bytes_word [of "be_bytes n w", where 'a = 'a] by (simp add: hton_def)

lemma ntoh_host_word:
  "8 * length bs = LENGTH('a::len) \<Longrightarrow> ntoh h (length bs) (host_word h bs :: 'a word) = be_word bs"
  using host_bytes_word [of bs h, where 'a = 'a] by (simp add: ntoh_def)

lemma put_uint_NULL [simp]:
  "put_uint16 h None w n = Inr (None, n)" "put_uint32 h None w' n = Inr (None, n)"
  "put_uint64 h None w'' n = Inr (None, n)"
  by (simp_all add: put_uint16_def put_uint32_def put_uint64_def)

lemma put_uint16_some [simp]:
  "put_uint16 h (Some (m, p)) w n =
     bindr (mem_write m p (be_bytes 2 w)) (\<lambda>m. Inr (Some (m, p + 2), n + 2))"
  by (simp add: put_uint16_def)

lemma put_uint32_some [simp]:
  "put_uint32 h (Some (m, p)) w n =
     bindr (mem_write m p (be_bytes 4 w)) (\<lambda>m. Inr (Some (m, p + 4), n + 4))"
  by (simp add: put_uint32_def)

lemma put_uint64_some [simp]:
  "put_uint64 h (Some (m, p)) w n =
     bindr (mem_write m p (be_bytes 8 w)) (\<lambda>m. Inr (Some (m, p + 8), n + 8))"
  by (simp add: put_uint64_def htonll_def ntohll_is_hton)

lemma get_uint_some [simp]:
  "get_uint16 h old (Some (m, p)) n =
     bindr (mem_read m p 2) (\<lambda>bs. Inr (be_word bs, Some (m, p + 2), size_sub n 2))"
  "get_uint32 h old' (Some (m, p)) n =
     bindr (mem_read m p 4) (\<lambda>bs. Inr (be_word bs, Some (m, p + 4), size_sub n 4))"
  "get_uint64 h old'' (Some (m, p)) n =
     bindr (mem_read m p 8) (\<lambda>bs. Inr (be_word bs, Some (m, p + 8), size_sub n 8))"
proof -
  have cv: "ntoh h n (host_word h bs :: 'a word) = be_word bs"
    if "mem_read m p n = Inr bs" "8 * n = LENGTH('a::len)" for n bs
  proof -
    have "length bs = n" using that(1) by (auto simp: mem_read_def split: if_splits)
    with ntoh_host_word [of bs h, where 'a = 'a] that(2) show ?thesis by simp
  qed
  show "get_uint16 h old (Some (m, p)) n =
     bindr (mem_read m p 2) (\<lambda>bs. Inr (be_word bs, Some (m, p + 2), size_sub n 2))"
    by (cases "mem_read m p 2") (simp_all add: get_uint16_def cv)
  show "get_uint32 h old' (Some (m, p)) n =
     bindr (mem_read m p 4) (\<lambda>bs. Inr (be_word bs, Some (m, p + 4), size_sub n 4))"
    by (cases "mem_read m p 4") (simp_all add: get_uint32_def cv)
  show "get_uint64 h old'' (Some (m, p)) n =
     bindr (mem_read m p 8) (\<lambda>bs. Inr (be_word bs, Some (m, p + 8), size_sub n 8))"
    by (cases "mem_read m p 8") (simp_all add: get_uint64_def ntohll_is_ntoh cv)
qed

section \<open>The contract of a fixed-width field\<close>

locale wire_format =
  fixes width :: nat and enc :: "'a \<Rightarrow> bytes"
    and put :: "cursor \<Rightarrow> 'a \<Rightarrow> nat \<Rightarrow> (cursor \<times> nat) result"
    and get :: "cursor \<Rightarrow> nat \<Rightarrow> ('a \<times> cursor \<times> nat) result"
  assumes enc_length: "length (enc v) = width"
    and put_room: "p + width \<le> length m \<Longrightarrow>
      put (Some (m, p)) v n = Inr (Some (take p m @ enc v @ drop (p + width) m, p + width), n + width)"
    and put_overrun: "length m < p + width \<Longrightarrow> put (Some (m, p)) v n = Inl OutOfBounds"
    and get_field: "p + width \<le> length m \<Longrightarrow> take width (drop p m) = enc v \<Longrightarrow>
      get (Some (m, p)) n = Inr (v, Some (m, p + width), size_sub n width)"
    and get_overrun: "length m < p + width \<Longrightarrow> get (Some (m, p)) n = Inl OutOfBounds"
begin

lemma get_put:
  assumes "put (Some (m, p)) v n = Inr (Some (m', p'), n')"
  shows "get (Some (m', p)) k = Inr (v, Some (m', p'), size_sub k width) \<and> length m' = length m"
proof (cases "p + width \<le> length m")
  case True
  then have m': "m' = take p m @ enc v @ drop (p + width) m" "p' = p + width"
    using assms put_room [OF True, of v n] by auto
  with True enc_length [of v] have "length m' = length m" by simp
  moreover have "take width (drop p m') = enc v"
    using True m' enc_length [of v] by simp
  ultimately show ?thesis using True m' get_field [of p m' v k] by simp
next
  case False
  with assms put_overrun [of m p v n] show ?thesis by simp
qed

lemma put_total_iff: "(\<exists>r. put (Some (m, p)) v n = Inr r) \<longleftrightarrow> p + width \<le> length m"
  using put_room [of p m v n] put_overrun [of m p v n] by (cases "p + width \<le> length m") auto

end

interpretation wire16: wire_format 2 "be_bytes 2 :: 16 word \<Rightarrow> bytes" "put_uint16 h" "get_uint16 h old"
  by unfold_locales (simp_all add: ac_simps)

interpretation wire32: wire_format 4 "be_bytes 4 :: 32 word \<Rightarrow> bytes" "put_uint32 h" "get_uint32 h old"
  by unfold_locales (simp_all add: ac_simps)

interpretation wire64: wire_format 8 "be_bytes 8 :: 64 word \<Rightarrow> bytes" "put_uint64 h" "get_uint64 h old"
  by unfold_locales (simp_all add: ac_simps)

section \<open>Properties\<close>

text \<open>C33: What one host writes every host reads back: putting an integer of any of the three
  widths on a host of either byte order and getting it on another gives the same integer,
  and the two cursors end at the same place.\<close>

theorem uint_put_get:
  "(put_uint16 h (Some (m, p)) w n = Inr (Some (m', p'), n') \<longrightarrow>
     get_uint16 h' old (Some (m', p)) k = Inr (w, Some (m', p'), size_sub k 2)) \<and>
   (put_uint32 h (Some (m, p)) x n = Inr (Some (m', p'), n') \<longrightarrow>
     get_uint32 h' old' (Some (m', p)) k = Inr (x, Some (m', p'), size_sub k 4)) \<and>
   (put_uint64 h (Some (m, p)) y n = Inr (Some (m', p'), n') \<longrightarrow>
     get_uint64 h' old'' (Some (m', p)) k = Inr (y, Some (m', p'), size_sub k 8))"
proof (intro conjI impI)
  assume "put_uint16 h (Some (m, p)) w n = Inr (Some (m', p'), n')"
  then have "put_uint16 h' (Some (m, p)) w n = Inr (Some (m', p'), n')" by simp
  then show "get_uint16 h' old (Some (m', p)) k = Inr (w, Some (m', p'), size_sub k 2)"
    using wire16.get_put by blast
next
  assume "put_uint32 h (Some (m, p)) x n = Inr (Some (m', p'), n')"
  then have "put_uint32 h' (Some (m, p)) x n = Inr (Some (m', p'), n')" by simp
  then show "get_uint32 h' old' (Some (m', p)) k = Inr (x, Some (m', p'), size_sub k 4)"
    using wire32.get_put by blast
next
  assume "put_uint64 h (Some (m, p)) y n = Inr (Some (m', p'), n')"
  then have "put_uint64 h' (Some (m, p)) y n = Inr (Some (m', p'), n')" by simp
  then show "get_uint64 h' old'' (Some (m', p)) k = Inr (y, Some (m', p'), size_sub k 8)"
    using wire64.get_put by blast
qed

theorem uint_put_get_witness:
  "get_uint32 LE 0 (Some ([9, 0, 0, 1, 2], 1)) 4 = Inr (258, Some ([9, 0, 0, 1, 2], 5), 0)"
proof -
  have "put_uint32 BE (Some ([9, 0, 0, 0, 0], 1)) 258 0 = Inr (Some ([9, 0, 0, 1, 2], 5), 4)"
    by code_simp
  then show ?thesis
    using uint_put_get [of BE "[9, 0, 0, 0, 0]" 1 0 0 "[9, 0, 0, 1, 2]" 5 4 LE 0 4 258 0 0 0] by simp
qed

text \<open>The program's own 64-bit conversion puts the bytes of a number in network order on a
  host of either byte order, as its test of the representation of 1 means it to.\<close>
theorem htonll_network_order: "host_bytes h 8 (htonll h v) = be_bytes 8 v \<and> ntohll h (htonll h v) = v"
proof
  show *: "host_bytes h 8 (htonll h v) = be_bytes 8 v"
    by (simp add: htonll_def ntohll_is_hton)
  show "ntohll h (htonll h v) = v"
    using * by (simp add: ntohll_is_ntoh [of h "htonll h v"] ntoh_def)
qed

end
