(* ===== verification/Midi_Command.thy ===== *)
theory Midi_Command
  imports Prelude
begin

text \<open>
  MIDI commands (\<^verbatim>\<open>midi_command.c\<close>): the record, the table of messages, and its functions.
  The union of \<^verbatim>\<open>status\<close> with the bit fields \<^verbatim>\<open>channel:4\<close> and \<^verbatim>\<open>message:4\<close> is the status
  byte with its low and high nibble.
\<close>

unbundle bit_operations_syntax

section \<open>Data\<close>

datatype midi_message_type_t =
    MIDI_NULL | MIDI_NOTE_OFF | MIDI_NOTE_ON | MIDI_POLY_PRESSURE | MIDI_CONTROL_CHANGE
  | MIDI_PROGRAM_CHANGE | MIDI_CHANNEL_PRESSURE | MIDI_PITCH_BEND | MIDI_SYSEX
  | MIDI_TIME_CODE_QF | MIDI_SONG_POSITION | MIDI_SONG_SELECT | MIDI_TUNE_REQUEST
  | MIDI_END_SYSEX | MIDI_TIMING_CLOCK | MIDI_START | MIDI_CONTINUE | MIDI_STOP
  | MIDI_ACTIVE_SENSING | MIDI_RESET

text \<open>The numbers of the enumeration: from \<open>MIDI_NULL\<close> on one after the other, and again from
  \<open>MIDI_TIMING_CLOCK\<close> on, which is 0xf8. Only the constants from there on are status bytes; \<open>MIDI_END_SYSEX\<close>
  is 13, not 0xf7.\<close>

primrec midi_message_type_value :: "midi_message_type_t \<Rightarrow> byte" where
  "midi_message_type_value MIDI_NULL = 0"
| "midi_message_type_value MIDI_NOTE_OFF = 1"
| "midi_message_type_value MIDI_NOTE_ON = 2"
| "midi_message_type_value MIDI_POLY_PRESSURE = 3"
| "midi_message_type_value MIDI_CONTROL_CHANGE = 4"
| "midi_message_type_value MIDI_PROGRAM_CHANGE = 5"
| "midi_message_type_value MIDI_CHANNEL_PRESSURE = 6"
| "midi_message_type_value MIDI_PITCH_BEND = 7"
| "midi_message_type_value MIDI_SYSEX = 8"
| "midi_message_type_value MIDI_TIME_CODE_QF = 9"
| "midi_message_type_value MIDI_SONG_POSITION = 10"
| "midi_message_type_value MIDI_SONG_SELECT = 11"
| "midi_message_type_value MIDI_TUNE_REQUEST = 12"
| "midi_message_type_value MIDI_END_SYSEX = 13"
| "midi_message_type_value MIDI_TIMING_CLOCK = 0xf8"
| "midi_message_type_value MIDI_START = 0xf9"
| "midi_message_type_value MIDI_CONTINUE = 0xfa"
| "midi_message_type_value MIDI_STOP = 0xfb"
| "midi_message_type_value MIDI_ACTIVE_SENSING = 0xfc"
| "midi_message_type_value MIDI_RESET = 0xfd"

record midi_message =
  mm_message :: byte
  mm_type :: midi_message_type_t
  mm_description :: string
  mm_len :: byte

record midi_command =
  mc_delta :: "64 word"
  mc_status :: byte
  mc_data_len :: nat
  mc_data :: "bytes option"

definition midi_command_channel :: "midi_command \<Rightarrow> byte" where
  "midi_command_channel c = mc_status c AND 0x0F"

definition midi_command_message :: "midi_command \<Rightarrow> byte" where
  "midi_command_message c = drop_bit 4 (mc_status c)"

definition mmsg :: "byte \<Rightarrow> midi_message_type_t \<Rightarrow> string \<Rightarrow> byte \<Rightarrow> midi_message" where
  "mmsg m t d l = \<lparr>mm_message = m, mm_type = t, mm_description = d, mm_len = l\<rparr>"

text \<open>The table; its last row, with message 0, ends the searches.\<close>

definition midi_message_map :: "midi_message list" where
  "midi_message_map =
    [mmsg 0x8 MIDI_NOTE_OFF ''Note Off'' 2,
     mmsg 0x9 MIDI_NOTE_ON ''Note On'' 2,
     mmsg 0xa MIDI_POLY_PRESSURE ''Polyphonic Key Pressure (Aftertouch)'' 2,
     mmsg 0xb MIDI_CONTROL_CHANGE ''Control Change'' 2,
     mmsg 0xc MIDI_PROGRAM_CHANGE ''Program Change'' 1,
     mmsg 0xd MIDI_CHANNEL_PRESSURE ''Channel Pressure (Aftertouch)'' 1,
     mmsg 0xe MIDI_PITCH_BEND ''Pitch Bend Change'' 2,
     mmsg 0xf0 MIDI_SYSEX ''System Exclusive'' 0,
     mmsg 0xf1 MIDI_TIME_CODE_QF ''Midi Time Code QF'' 1,
     mmsg 0xf2 MIDI_SONG_POSITION ''Song Position'' 2,
     mmsg 0xf3 MIDI_SONG_SELECT ''Song Select'' 1,
     mmsg 0xf4 MIDI_NULL ''Reserved'' 0,
     mmsg 0xf5 MIDI_NULL ''Reserved'' 0,
     mmsg 0xf6 MIDI_TUNE_REQUEST ''Tune Request'' 0,
     mmsg 0xf7 MIDI_END_SYSEX ''End SysEx'' 0,
     mmsg 0xf8 MIDI_TIMING_CLOCK ''Timing Clock'' 0,
     mmsg 0xf9 MIDI_NULL ''Reserved'' 0,
     mmsg 0xfa MIDI_START ''Start'' 0,
     mmsg 0xfb MIDI_CONTINUE ''Continue'' 0,
     mmsg 0xfc MIDI_STOP ''Stop'' 0,
     mmsg 0xfd MIDI_NULL ''Reserved'' 0,
     mmsg 0xfe MIDI_ACTIVE_SENSING ''Active Sensing'' 0,
     mmsg 0xff MIDI_RESET ''RESET'' 0,
     mmsg 0x00 MIDI_NULL ''NULL'' 0]"

section \<open>Operations\<close>

text \<open>\<^verbatim>\<open>midi_command_create\<close> leaves \<^verbatim>\<open>data_len\<close> as \<^verbatim>\<open>malloc\<close> returned it (\<open>junk\<close>).\<close>

definition midi_command_create :: "alloc \<Rightarrow> nat \<Rightarrow> midi_command option" where
  "midi_command_create A junk =
     (if A (Site ''midi_command_create:new_command'')
      then Some \<lparr>mc_delta = 0, mc_status = 0, mc_data_len = junk, mc_data = None\<rparr> else None)"

definition midi_command_destroy :: "midi_command option option \<Rightarrow> midi_command option option" where
  "midi_command_destroy data =
     (case data of None \<Rightarrow> None | Some None \<Rightarrow> Some None | Some (Some c) \<Rightarrow> Some None)"

definition midi_command_reset :: "midi_command option \<Rightarrow> midi_command option" where
  "midi_command_reset command =
     (case command of None \<Rightarrow> None
      | Some c \<Rightarrow> Some (c\<lparr>mc_delta := 0, mc_status := 0, mc_data := None\<rparr>))"

fun midi_command_map_search :: "byte \<Rightarrow> midi_message list \<Rightarrow> midi_message option" where
  "midi_command_map_search st [] = None"
| "midi_command_map_search st (m # ms) =
     (if mm_message m = 0 then None
      else if st \<ge> 0xf0 then
        (if mm_message m = st then Some m else midi_command_map_search st ms)
      else let status = drop_bit 4 (st AND 0xf0) in
        if status = mm_message m then Some m else midi_command_map_search st ms)"

definition midi_command_map :: "midi_command \<Rightarrow> string \<times> midi_message_type_t" where
  "midi_command_map command =
     (case midi_command_map_search (mc_status command) midi_message_map of
        None \<Rightarrow> (''Unknown'', MIDI_NULL)
      | Some m \<Rightarrow> (mm_description m, mm_type m))"

fun midi_command_bytes_search :: "byte \<Rightarrow> midi_message list \<Rightarrow> byte" where
  "midi_command_bytes_search command [] = 0"
| "midi_command_bytes_search command (m # ms) =
     (if mm_message m = 0 then 0
      else if mm_message m = command then mm_len m
      else midi_command_bytes_search command ms)"

definition midi_command_bytes_needed :: "byte \<Rightarrow> byte" where
  "midi_command_bytes_needed command =
     (let command = (if command < 0xF0 then drop_bit 4 (command AND 0xF0) else command)
      in midi_command_bytes_search command midi_message_map)"

definition midi_command_set ::
    "alloc \<Rightarrow> midi_command option \<Rightarrow> 64 word \<Rightarrow> byte \<Rightarrow> bytes option \<Rightarrow> nat \<Rightarrow>
     midi_command option result" where
  "midi_command_set A command delta status data data_len =
     (case command of None \<Rightarrow> Inr None
      | Some c \<Rightarrow>
          let c = c\<lparr>mc_delta := delta, mc_status := status, mc_data := None, mc_data_len := 0\<rparr> in
          (case data of None \<Rightarrow> Inr (Some c)
           | Some d \<Rightarrow>
               if \<not> A (Site ''midi_command_set:data'') then Inr (Some c)
               else bindr (mem_read d 0 data_len) (\<lambda>xs.
                    Inr (Some (c\<lparr>mc_data := Some xs, mc_data_len := data_len\<rparr>)))))"

section \<open>Facts\<close>

lemma midi_command_set_ok [simp]:
  "data_len \<le> length d \<Longrightarrow> A (Site ''midi_command_set:data'') \<Longrightarrow>
   midi_command_set A (Some c) delta status (Some d) data_len =
     Inr (Some \<lparr>mc_delta = delta, mc_status = status, mc_data_len = data_len,
                mc_data = Some (take data_len d)\<rparr>)"
  by (cases c) (simp add: midi_command_set_def)

text \<open>The number of data bytes the MIDI standard gives a status byte.\<close>

definition midi_data_bytes :: "byte \<Rightarrow> nat" where
  "midi_data_bytes st =
     (if 0x80 \<le> st \<and> st < 0xC0 then 2 else if 0xC0 \<le> st \<and> st < 0xE0 then 1
      else if 0xE0 \<le> st \<and> st < 0xF0 then 2
      else if st = 0xF1 \<or> st = 0xF3 then 1 else if st = 0xF2 then 2 else 0)"

lemma bytes_search_nibbles:
  "list_all (\<lambda>h. unat (midi_command_bytes_search (word_of_nat h) midi_message_map) =
     [0, 0, 0, 0, 0, 0, 0, 0, 2, 2, 2, 2, 1, 1, 2] ! h) [0..<15]"
  by code_simp

lemma bytes_search_system:
  "list_all (\<lambda>h. unat (midi_command_bytes_search (word_of_nat (240 + h)) midi_message_map) =
     [0, 1, 2, 1, 0, 0, 0, 0, 0, 0, 0, 0, 0, 0, 0, 0] ! h) [0..<16]"
  by code_simp

lemma high_nibble: "drop_bit 4 (st AND 0xF0) = drop_bit 4 (st :: byte)"
proof -
  have m: "0xF0 = (push_bit 4 (mask 4) :: byte)" by code_simp
  show ?thesis unfolding m
    by (rule bit_word_eqI)
      (auto simp: bit_drop_bit_eq bit_and_iff bit_push_bit_iff bit_mask_iff simp del: push_bit_numeral
        dest: bit_imp_le_length)
qed

lemma unat_nibble: "unat (drop_bit 4 (st :: byte)) = unat st div 16"
  by (simp add: drop_bit_eq_div unat_div)

lemma list_all_upt: "list_all P [0..<n] \<Longrightarrow> i < n \<Longrightarrow> P i"
  by (simp add: list_all_iff)

lemma less_15_cases:
  "h < (15 :: nat) \<Longrightarrow> h \<in> {0, 1, 2, 3, 4, 5, 6, 7, 8, 9, 10, 11, 12, 13, 14}"
  by (simp add: eval_nat_numeral less_Suc_eq)

text \<open>The search as a function of ranges.\<close>

lemma midi_command_bytes_needed_eq:
  "unat (midi_command_bytes_needed st) = midi_data_bytes st"
proof (cases "st < 0xF0")
  case True
  let ?h = "unat st div 16"
  have h: "?h < 15" using True by (simp add: word_less_nat_alt)
  have "word_of_nat ?h = drop_bit 4 st" using unat_nibble [of st] by (metis of_nat_unat ucast_id)
  then have "unat (midi_command_bytes_needed st) = [0, 0, 0, 0, 0, 0, 0, 0, 2, 2, 2, 2, 1, 1, 2] ! ?h"
    using list_all_upt [OF bytes_search_nibbles h] True
    unfolding midi_command_bytes_needed_def high_nibble by simp
  also have "\<dots> = midi_data_bytes st"
    using less_15_cases [OF h] True
    by (auto simp: midi_data_bytes_def word_less_nat_alt word_le_nat_alt word_unat_eq_iff)
  finally show ?thesis .
next
  case False
  let ?h = "unat st - 240"
  have h: "?h < 16" and st: "st = word_of_nat (240 + ?h)"
    using False unsigned_less [of st, where 'a = nat] by (simp_all add: word_less_nat_alt)
  have "unat (midi_command_bytes_needed st) = [0, 1, 2, 1, 0, 0, 0, 0, 0, 0, 0, 0, 0, 0, 0, 0] ! ?h"
    using list_all_upt [OF bytes_search_system h] False st
    by (simp add: midi_command_bytes_needed_def)
  also have "\<dots> = midi_data_bytes st"
    using h False
    by (auto simp: midi_data_bytes_def word_less_nat_alt word_le_nat_alt word_unat_eq_iff nth_Cons'
        split: nat.splits)
  finally show ?thesis .
qed

section \<open>Properties\<close>

text \<open>For each of the 256 values of a byte, the table search gives the number of data bytes
  the MIDI standard prescribes for that status.\<close>
theorem midi_command_bytes_needed_standard:
  "unat (midi_command_bytes_needed st) = midi_data_bytes st"
  by (rule midi_command_bytes_needed_eq)

end
