(* ===== verification/Midi_Events.thy ===== *)
theory Midi_Events
  imports Midi_Command
begin

text \<open>
  The channel events the journal records: \<^verbatim>\<open>midi_note.c\<close>, \<^verbatim>\<open>midi_control.c\<close> and
  \<^verbatim>\<open>midi_program.c\<close>. A bit field of w bits is a word of that width. The \<^verbatim>\<open>char\<close> fields only
  ever hold seven bits and are bytes here. The results of a function that allocates its
  answer are its return value and the pointer it stores.
\<close>

unbundle bit_operations_syntax

section \<open>Notes\<close>

record midi_note =
  mn_channel :: "4 word"
  mn_command :: "4 word"
  mn_note :: byte
  mn_velocity :: byte

definition PACKED_MIDI_NOTE_SIZE :: nat where "PACKED_MIDI_NOTE_SIZE = 3"

definition midi_note_create :: "alloc \<Rightarrow> midi_note option" where
  "midi_note_create A =
     (if A (Site ''midi_note_create:new_note'')
      then Some \<lparr>mn_channel = 0, mn_command = 0, mn_note = 0, mn_velocity = 0\<rparr> else None)"

definition midi_note_unpack :: "alloc \<Rightarrow> bytes option \<Rightarrow> nat \<Rightarrow> (int \<times> midi_note option) result" where
  "midi_note_unpack A buffer buffer_len =
     (case buffer of None \<Rightarrow> Inr (-1, None)
      | Some b \<Rightarrow>
          if buffer_len \<noteq> 3 then Inr (-1, None)
          else (case midi_note_create A of None \<Rightarrow> Inr (-1, None)
                | Some n \<Rightarrow>
                    bindr (mem_get b 0) (\<lambda>b0. bindr (mem_get b 1) (\<lambda>b1. bindr (mem_get b 2) (\<lambda>b2.
                    Inr (0, Some (n\<lparr>mn_command := ucast (drop_bit 4 (b0 AND 0xf0)),
                                   mn_channel := ucast (b0 AND 0x0f),
                                   mn_note := b1 AND 0x7f, mn_velocity := b2 AND 0x7f\<rparr>)))))))"

definition midi_note_pack :: "alloc \<Rightarrow> midi_note option \<Rightarrow> int \<times> bytes option \<times> nat" where
  "midi_note_pack A midi_note =
     (case midi_note of None \<Rightarrow> (-1, None, 0)
      | Some n \<Rightarrow>
          if \<not> A (Site ''midi_note_pack:buffer'') then (-1, None, 0)
          else (0, Some [push_bit 4 (ucast (mn_command n)) + (ucast (mn_channel n) AND 0x0f),
                         mn_note n AND 0x7f, mn_velocity n AND 0x7f], PACKED_MIDI_NOTE_SIZE))"

text \<open>The second data byte is read whenever there is a first one.\<close>

definition midi_note_from_command ::
    "alloc \<Rightarrow> midi_command option \<Rightarrow> (int \<times> midi_note option) result" where
  "midi_note_from_command A command =
     (case command of None \<Rightarrow> Inr (-1, None)
      | Some c \<Rightarrow>
          (case midi_note_create A of None \<Rightarrow> Inr (-1, None)
           | Some n \<Rightarrow>
               let n = n\<lparr>mn_command := ucast (midi_command_message c),
                         mn_channel := ucast (midi_command_channel c)\<rparr> in
               if mc_data_len c > 0 then
                 bindr (deref (mc_data c)) (\<lambda>d.
                 bindr (mem_get d 0) (\<lambda>d0. bindr (mem_get d 1) (\<lambda>d1.
                 Inr (0, Some (n\<lparr>mn_note := d0 AND 0x7f, mn_velocity := d1 AND 0x7f\<rparr>)))))
               else Inr (0, Some n)))"

definition midi_note_destroy :: "midi_note option option \<Rightarrow> midi_note option option" where
  "midi_note_destroy p = (case p of None \<Rightarrow> None | Some _ \<Rightarrow> Some None)"

section \<open>Controllers\<close>

record midi_control =
  mk_channel :: "4 word"
  mk_command :: "4 word"
  mk_controller_number :: byte
  mk_controller_value :: byte

definition PACKED_MIDI_CONTROL_SIZE :: nat where "PACKED_MIDI_CONTROL_SIZE = 3"

definition midi_control_create :: "alloc \<Rightarrow> midi_control option" where
  "midi_control_create A =
     (if A (Site ''midi_control_create:new_control'')
      then Some \<lparr>mk_channel = 0, mk_command = 0, mk_controller_number = 0, mk_controller_value = 0\<rparr>
      else None)"

definition midi_control_unpack :: "alloc \<Rightarrow> bytes option \<Rightarrow> nat \<Rightarrow> (int \<times> midi_control option) result" where
  "midi_control_unpack A buffer buffer_len =
     (case buffer of None \<Rightarrow> Inr (-1, None)
      | Some b \<Rightarrow>
          if buffer_len \<noteq> 3 then Inr (-1, None)
          else (case midi_control_create A of None \<Rightarrow> Inr (-1, None)
                | Some n \<Rightarrow>
                    bindr (mem_get b 0) (\<lambda>b0. bindr (mem_get b 1) (\<lambda>b1. bindr (mem_get b 2) (\<lambda>b2.
                    Inr (0, Some (n\<lparr>mk_command := ucast (drop_bit 4 (b0 AND 0xf0)),
                                   mk_channel := ucast (b0 AND 0x0f),
                                   mk_controller_number := b1 AND 0x7f,
                                   mk_controller_value := b2 AND 0x7f\<rparr>)))))))"

definition midi_control_pack :: "alloc \<Rightarrow> midi_control option \<Rightarrow> int \<times> bytes option \<times> nat" where
  "midi_control_pack A midi_control =
     (case midi_control of None \<Rightarrow> (-1, None, 0)
      | Some n \<Rightarrow>
          if \<not> A (Site ''midi_control_pack:buffer'') then (-1, None, 0)
          else (0, Some [push_bit 4 (ucast (mk_command n)) + (ucast (mk_channel n) AND 0x0f),
                         mk_controller_number n AND 0x7f, mk_controller_value n AND 0x7f],
                PACKED_MIDI_CONTROL_SIZE))"

definition midi_control_from_command ::
    "alloc \<Rightarrow> midi_command option \<Rightarrow> (int \<times> midi_control option) result" where
  "midi_control_from_command A command =
     (case command of None \<Rightarrow> Inr (-1, None)
      | Some c \<Rightarrow>
          (case midi_control_create A of None \<Rightarrow> Inr (-1, None)
           | Some n \<Rightarrow>
               let n = n\<lparr>mk_command := ucast (midi_command_message c),
                         mk_channel := ucast (midi_command_channel c)\<rparr> in
               if mc_data_len c > 0 then
                 bindr (deref (mc_data c)) (\<lambda>d.
                 bindr (mem_get d 0) (\<lambda>d0. bindr (mem_get d 1) (\<lambda>d1.
                 Inr (0, Some (n\<lparr>mk_controller_number := d0 AND 0x7f,
                                mk_controller_value := d1 AND 0x7f\<rparr>)))))
               else Inr (0, Some n)))"

definition midi_control_destroy :: "midi_control option option \<Rightarrow> midi_control option option" where
  "midi_control_destroy p = (case p of None \<Rightarrow> None | Some _ \<Rightarrow> Some None)"

section \<open>Programs\<close>

record midi_program =
  mp_channel :: "4 word"
  mp_command :: "4 word"
  mp_S :: "1 word"
  mp_B :: "1 word"
  mp_X :: "1 word"
  mp_program :: byte
  mp_bank_msb :: byte
  mp_bank_lsb :: byte

definition PACKED_MIDI_PROGRAM_SIZE :: nat where "PACKED_MIDI_PROGRAM_SIZE = 3"

definition midi_program_create :: "alloc \<Rightarrow> midi_program option" where
  "midi_program_create A =
     (if A (Site ''midi_program_create:new_program'')
      then Some \<lparr>mp_channel = 0, mp_command = 0, mp_S = 0, mp_B = 0, mp_X = 0, mp_program = 0,
                 mp_bank_msb = 0, mp_bank_lsb = 0\<rparr> else None)"

text \<open>Neither of these two carries the program number.\<close>

definition midi_program_unpack :: "alloc \<Rightarrow> bytes option \<Rightarrow> nat \<Rightarrow> (int \<times> midi_program option) result" where
  "midi_program_unpack A buffer buffer_len =
     (case buffer of None \<Rightarrow> Inr (-1, None)
      | Some b \<Rightarrow>
          if buffer_len < PACKED_MIDI_PROGRAM_SIZE then Inr (-1, None)
          else (case midi_program_create A of None \<Rightarrow> Inr (-1, None)
                | Some n \<Rightarrow>
                    bindr (mem_get b 0) (\<lambda>b0. bindr (mem_get b 1) (\<lambda>b1. bindr (mem_get b 2) (\<lambda>b2.
                    Inr (0, Some (n\<lparr>mp_command := ucast (drop_bit 4 (b0 AND 0xf0)),
                                   mp_channel := ucast (b0 AND 0x0f),
                                   mp_B := ucast (drop_bit 7 (b1 AND 0x80)), mp_bank_msb := b1 AND 0x7f,
                                   mp_X := ucast (drop_bit 7 (b2 AND 0x80)), mp_bank_lsb := b2 AND 0x7f\<rparr>)))))))"

definition midi_program_pack :: "alloc \<Rightarrow> midi_program option \<Rightarrow> int \<times> bytes option \<times> nat" where
  "midi_program_pack A midi_program =
     (case midi_program of None \<Rightarrow> (-1, None, 0)
      | Some n \<Rightarrow>
          if \<not> A (Site ''midi_program_pack:buffer'') then (-1, None, 0)
          else (0, Some [push_bit 4 (ucast (mp_command n)) + (ucast (mp_channel n) AND 0x0f),
                         push_bit 7 (ucast (mp_B n)) + (mp_bank_msb n AND 0x7f),
                         push_bit 7 (ucast (mp_X n)) + (mp_bank_lsb n AND 0x7f)],
                PACKED_MIDI_PROGRAM_SIZE))"

definition midi_program_from_command ::
    "alloc \<Rightarrow> midi_command option \<Rightarrow> (int \<times> midi_program option) result" where
  "midi_program_from_command A command =
     (case command of None \<Rightarrow> Inr (-1, None)
      | Some c \<Rightarrow>
          (case midi_program_create A of None \<Rightarrow> Inr (-1, None)
           | Some n \<Rightarrow>
               let n = n\<lparr>mp_command := ucast (midi_command_message c),
                         mp_channel := ucast (midi_command_channel c)\<rparr> in
               if mc_data_len c > 0 then
                 bindr (deref (mc_data c)) (\<lambda>d. bindr (mem_get d 0) (\<lambda>d0.
                 Inr (0, Some (n\<lparr>mp_program := d0 AND 0x7f\<rparr>))))
               else Inr (0, Some n)))"

definition midi_program_destroy :: "midi_program option option \<Rightarrow> midi_program option option" where
  "midi_program_destroy p = (case p of None \<Rightarrow> None | Some _ \<Rightarrow> Some None)"

section \<open>Packed bits\<close>

lemma nibbles:
  "ucast (drop_bit 4 ((push_bit 4 (ucast (c :: 4 word)) + (ucast (k :: 4 word) AND 0x0f)) AND 0xf0 :: byte)) = c"
  "ucast ((push_bit 4 (ucast c) + (ucast k AND 0x0f)) AND 0x0f :: byte) = k"
proof -
  have m: "0x0f = (mask 4 :: byte)" "0xf0 = (push_bit 4 (mask 4) :: byte)" by (simp_all add: mask_numeral)
  have or: "push_bit 4 (ucast c) + (ucast k AND 0x0f) = push_bit 4 (ucast c) OR (ucast k AND 0x0f :: byte)"
    unfolding m by (rule disjunctive_add) (auto simp: bit_push_bit_iff bit_and_iff bit_mask_iff)
  show "ucast (drop_bit 4 ((push_bit 4 (ucast c) + (ucast k AND 0x0f)) AND 0xf0 :: byte)) = c"
    unfolding or unfolding m
    by (rule bit_word_eqI) (auto simp: bit_simps)
  show "ucast ((push_bit 4 (ucast c) + (ucast k AND 0x0f)) AND 0x0f :: byte) = k"
    unfolding or unfolding m
    by (rule bit_word_eqI) (auto simp: bit_simps)
qed

lemma flag_and_seven:
  "ucast (drop_bit 7 ((push_bit 7 (ucast (f :: 1 word)) + (v AND 0x7f)) AND 0x80 :: byte)) = f"
  "(push_bit 7 (ucast f) + (v AND 0x7f)) AND 0x7f = (v AND 0x7f :: byte)"
proof -
  have m: "0x7f = (mask 7 :: byte)" "0x80 = (push_bit 7 (mask 1) :: byte)" by (simp_all add: mask_numeral)
  have or: "push_bit 7 (ucast f) + (v AND 0x7f) = push_bit 7 (ucast f) OR (v AND 0x7f :: byte)"
    unfolding m by (rule disjunctive_add) (auto simp: bit_push_bit_iff bit_and_iff bit_mask_iff)
  show "ucast (drop_bit 7 ((push_bit 7 (ucast f) + (v AND 0x7f)) AND 0x80 :: byte)) = f"
    unfolding or unfolding m
    by (rule bit_word_eqI) (auto simp: bit_simps)
  show "(push_bit 7 (ucast f) + (v AND 0x7f)) AND 0x7f = (v AND 0x7f :: byte)"
    unfolding or unfolding m
    by (rule bit_word_eqI) (auto simp: bit_simps)
qed

lemma seven_bits:
  assumes "x < (0x80 :: byte)"
  shows "x AND 0x7f = x"
proof -
  have m: "0x7f = (mask 7 :: byte)" by (simp add: mask_numeral)
  have "unat (take_bit 7 x) = unat x"
    using assms by (simp add: unsigned_take_bit_eq take_bit_nat_def word_less_nat_alt)
  then show ?thesis unfolding m take_bit_eq_mask [symmetric] by (simp add: word_unat_eq_iff)
qed

lemma seven_bits_below: "x AND 0x7f < (0x80 :: byte)"
proof -
  have m: "0x7f = (mask 7 :: byte)" by (simp add: mask_numeral)
  show ?thesis unfolding m take_bit_eq_mask [symmetric]
    by (simp add: word_less_nat_alt unsigned_take_bit_eq take_bit_nat_def)
qed

lemma flag_and_value:
  assumes "v < (0x80 :: byte)"
  shows "ucast (drop_bit 7 ((push_bit 7 (ucast (f :: 1 word)) + v) AND 0x80)) = f"
    "(push_bit 7 (ucast f) + v) AND 0x7f = v"
  using flag_and_seven [of f v] seven_bits [OF assms] by simp_all

section \<open>Properties\<close>

text \<open>C35: Unpacking what was packed gives the event back: notes and controller changes entirely
  (for fields of seven bits), program changes except the program number and the S bit, which
  the packed form, the bank select bytes behind the status, does not hold.\<close>

theorem event_pack_unpack:
  assumes "mn_note n < 0x80" "mn_velocity n < 0x80" "mk_controller_number k < 0x80" "mk_controller_value k < 0x80"
    and "mp_bank_msb p < 0x80" "mp_bank_lsb p < 0x80" and mem: "\<forall>s. A s"
  shows "(\<exists>b. midi_note_pack A (Some n) = (0, Some b, 3) \<and> midi_note_unpack A (Some b) 3 = Inr (0, Some n)) \<and>
    (\<exists>b. midi_control_pack A (Some k) = (0, Some b, 3) \<and> midi_control_unpack A (Some b) 3 = Inr (0, Some k)) \<and>
    (\<exists>b. midi_program_pack A (Some p) = (0, Some b, 3) \<and>
         midi_program_unpack A (Some b) 3 = Inr (0, Some (p\<lparr>mp_program := 0, mp_S := 0\<rparr>)))"
  using assms nibbles flag_and_value [OF assms(5)] flag_and_value [OF assms(6)]
  by (cases p) (simp add: midi_note_pack_def midi_note_unpack_def midi_note_create_def PACKED_MIDI_NOTE_SIZE_def
      midi_control_pack_def midi_control_unpack_def midi_control_create_def PACKED_MIDI_CONTROL_SIZE_def
      midi_program_pack_def midi_program_unpack_def midi_program_create_def PACKED_MIDI_PROGRAM_SIZE_def
      seven_bits)

theorem event_pack_unpack_witness:
  "\<exists>b. midi_note_pack (\<lambda>_. True) (Some \<lparr>mn_channel = 3, mn_command = 9, mn_note = 60, mn_velocity = 100\<rparr>) = (0, Some b, 3) \<and>
    midi_note_unpack (\<lambda>_. True) (Some b) 3 =
      Inr (0, Some \<lparr>mn_channel = 3, mn_command = 9, mn_note = 60, mn_velocity = 100\<rparr>)"
  using event_pack_unpack [of "\<lparr>mn_channel = 3, mn_command = 9, mn_note = 60, mn_velocity = 100\<rparr>"
      "\<lparr>mk_channel = 0, mk_command = 11, mk_controller_number = 7, mk_controller_value = 1\<rparr>"
      "\<lparr>mp_channel = 0, mp_command = 12, mp_S = 0, mp_B = 0, mp_X = 0, mp_program = 5, mp_bank_msb = 1, mp_bank_lsb = 2\<rparr>"
      "\<lambda>_. True"] by simp

end
