(* ===== verification/Chapter_P.thy ===== *)
theory Chapter_P
  imports Midi_Events
begin

text \<open>Chapter P of the recovery journal (\<^verbatim>\<open>chapter_p.c\<close>): the last program change of a channel.\<close>

unbundle bit_operations_syntax

section \<open>State and operations\<close>

record chapter_p =
  cp_S :: byte
  cp_program :: byte
  cp_B :: byte
  cp_bank_msb :: byte
  cp_X :: byte
  cp_bank_lsb :: byte

definition chapter_p_zero :: chapter_p where
  "chapter_p_zero = \<lparr>cp_S = 0, cp_program = 0, cp_B = 0, cp_bank_msb = 0, cp_X = 0, cp_bank_lsb = 0\<rparr>"

definition chapter_p_create :: "alloc \<Rightarrow> chapter_p option" where
  "chapter_p_create A = (if A (Site ''chapter_p_create:new_chapter_p'') then Some chapter_p_zero else None)"

text \<open>The results: the packed bytes and their number, which stays as it was (\<open>old\<close>) for NULL.\<close>

definition chapter_p_pack ::
    "alloc \<Rightarrow> chapter_p option \<Rightarrow> bytes option \<times> nat \<Rightarrow> bytes option \<times> nat" where
  "chapter_p_pack A chapter_p old =
     (case chapter_p of None \<Rightarrow> old
      | Some c \<Rightarrow>
          if \<not> A (Site ''chapter_p_pack:packed'') then (None, 0)
          else (Some [push_bit 7 (cp_S c AND 0x01) OR (cp_program c AND 0x7f),
                      push_bit 7 (cp_B c AND 0x01) OR (cp_bank_msb c AND 0x7f),
                      push_bit 7 (cp_X c AND 0x01) OR (cp_bank_lsb c AND 0x7f)], 3))"

definition chapter_p_unpack :: "alloc \<Rightarrow> bytes option \<Rightarrow> nat \<Rightarrow> chapter_p option result" where
  "chapter_p_unpack A packed sz =
     (case packed of None \<Rightarrow> Inr None
      | Some b \<Rightarrow>
          if sz < 3 then Inr None
          else (case chapter_p_create A of None \<Rightarrow> Inr None
                | Some c \<Rightarrow>
                    bindr (mem_get b 0) (\<lambda>b0. bindr (mem_get b 1) (\<lambda>b1. bindr (mem_get b 2) (\<lambda>b2.
                    Inr (Some (c\<lparr>cp_S := drop_bit 7 (b0 AND 0x80), cp_program := b0 AND 0x7f,
                                cp_B := drop_bit 7 (b1 AND 0x80), cp_bank_msb := b1 AND 0x7f,
                                cp_X := drop_bit 7 (b2 AND 0x80), cp_bank_lsb := b2 AND 0x7f\<rparr>)))))))"

definition chapter_p_destroy :: "chapter_p option option \<Rightarrow> chapter_p option option" where
  "chapter_p_destroy chapter_p =
     (case chapter_p of None \<Rightarrow> None | Some None \<Rightarrow> Some None | Some (Some _) \<Rightarrow> Some None)"

definition chapter_p_reset :: "chapter_p option \<Rightarrow> chapter_p option" where
  "chapter_p_reset chapter_p =
     (case chapter_p of None \<Rightarrow> None
      | Some c \<Rightarrow> Some (c\<lparr>cp_S := 0, cp_program := 0, cp_B := 0, cp_bank_msb := 0, cp_X := 0,
                         cp_bank_lsb := 0\<rparr>))"

section \<open>Facts\<close>

definition chapter_p_wf :: "chapter_p \<Rightarrow> bool" where
  "chapter_p_wf c \<longleftrightarrow> cp_S c < 2 \<and> cp_B c < 2 \<and> cp_X c < 2 \<and>
     cp_program c < 0x80 \<and> cp_bank_msb c < 0x80 \<and> cp_bank_lsb c < 0x80"

lemma flag_byte:
  assumes "f < (2 :: byte)" "v < 0x80"
  shows "drop_bit 7 ((push_bit 7 (f AND 0x01) OR (v AND 0x7f)) AND 0x80) = f"
    "(push_bit 7 (f AND 0x01) OR (v AND 0x7f)) AND 0x7f = v"
proof -
  have m: "0x7f = (mask 7 :: byte)" "0x80 = (push_bit 7 (mask 1) :: byte)" by (simp_all add: mask_numeral)
  have f: "f AND 0x01 = f" using one_bit [OF assms(1)] by auto
  have v: "v AND mask 7 = v" using seven_bits [OF assms(2)] by (simp add: mask_numeral)
  have bf: "bit f n \<longleftrightarrow> n = 0 \<and> f = 1" for n
    using one_bit [OF assms(1)] by (auto simp: bit_1_iff)
  have bv: "bit v n \<Longrightarrow> n < 7" for n
    by (subst (asm) v [symmetric]) (simp add: bit_and_iff bit_mask_iff)
  show "drop_bit 7 ((push_bit 7 (f AND 0x01) OR (v AND 0x7f)) AND 0x80) = f"
    unfolding f unfolding m v
    by (rule bit_word_eqI) (auto simp: bit_drop_bit_eq bit_and_iff bit_or_iff bit_push_bit_iff bit_mask_iff bf
        dest: bv)
  show "(push_bit 7 (f AND 0x01) OR (v AND 0x7f)) AND 0x7f = v"
    unfolding f unfolding m v
    by (rule bit_word_eqI) (auto simp: bit_and_iff bit_or_iff bit_push_bit_iff bit_mask_iff dest: bv)
qed

section \<open>Properties\<close>

text \<open>A chapter P with flags of one bit and values of seven survives packing and unpacking.\<close>
theorem chapter_p_pack_unpack:
  assumes "chapter_p_wf c" "\<forall>s. A s"
  shows "\<exists>b. chapter_p_pack A (Some c) old = (Some b, 3) \<and> length b = 3 \<and>
    chapter_p_unpack A (Some b) 3 = Inr (Some c)"
  using assms
  by (cases c) (simp add: chapter_p_pack_def chapter_p_unpack_def chapter_p_create_def chapter_p_zero_def chapter_p_wf_def
      flag_byte del: drop_bit_and push_bit_and)

theorem chapter_p_pack_unpack_witness:
  "\<exists>b. chapter_p_pack (\<lambda>_. True) (Some (chapter_p_zero\<lparr>cp_S := 1, cp_program := 77\<rparr>)) (None, 0) = (Some b, 3) \<and>
    chapter_p_unpack (\<lambda>_. True) (Some b) 3 = Inr (Some (chapter_p_zero\<lparr>cp_S := 1, cp_program := 77\<rparr>))"
  using chapter_p_pack_unpack [of "chapter_p_zero\<lparr>cp_S := 1, cp_program := 77\<rparr>" "\<lambda>_. True" "(None, 0)"]
  by (auto simp: chapter_p_wf_def chapter_p_zero_def)

end
