(* ===== verification/Chapter_C.thy ===== *)
theory Chapter_C
  imports Chapter_P
begin

text \<open>
  Chapter C of the recovery journal (\<^verbatim>\<open>chapter_c.c\<close>): one log per controller, active when its
  \<^verbatim>\<open>number\<close> is its index. The array has 128 logs. The 8-bit \<^verbatim>\<open>current_size\<close> of the packer
  is kept at its width.
\<close>

unbundle bit_operations_syntax

section \<open>State and operations\<close>

record controller_log =
  cl_S :: byte
  cl_number :: byte
  cl_A :: byte
  cl_T :: byte
  cl_value :: byte

record chapter_c =
  cc_S :: byte
  cc_len :: byte
  cc_log :: "controller_log list"

definition MAX_CHAPTER_C_CONTROLLERS :: nat where "MAX_CHAPTER_C_CONTROLLERS = 128"

definition controller_log_zero :: controller_log where
  "controller_log_zero = \<lparr>cl_S = 0, cl_number = 0, cl_A = 0, cl_T = 0, cl_value = 0\<rparr>"

definition chapter_c_create :: "alloc \<Rightarrow> chapter_c option" where
  "chapter_c_create A =
     (if A (Site ''chapter_c_create:new_chapter_c'')
      then Some \<lparr>cc_S = 1, cc_len = 0,
                 cc_log = replicate MAX_CHAPTER_C_CONTROLLERS (controller_log_zero\<lparr>cl_number := 255\<rparr>)\<rparr>
      else None)"

text \<open>The loop over the logs of a buffer: the cursor starts at the chapter's first byte.\<close>

fun chapter_c_unpack_loop :: "bytes \<Rightarrow> nat \<Rightarrow> nat \<Rightarrow> chapter_c \<Rightarrow> chapter_c result" where
  "chapter_c_unpack_loop b p current_size c =
     (if current_size < 2 then Inr c
      else bindr (mem_get b p) (\<lambda>b0. bindr (mem_get b (p + 1)) (\<lambda>b1.
           let index = unat (b0 AND 0x7f);
               A = drop_bit 7 (b1 AND 0x80);
               old = cc_log c ! index;
               l = old\<lparr>cl_S := drop_bit 7 (b0 AND 0x80), cl_number := of_nat index, cl_A := A,
                      cl_T := (if A = 1 then drop_bit 6 (b1 AND 0x40) else 0),
                      cl_value := (if A = 1 then b1 AND 0x3f else b1 AND 0x7f)\<rparr>
           in chapter_c_unpack_loop b (p + 2) (current_size - 2) (c\<lparr>cc_log := (cc_log c)[index := l]\<rparr>))))"

declare chapter_c_unpack_loop.simps [simp del]

definition chapter_c_unpack :: "alloc \<Rightarrow> bytes option \<Rightarrow> nat \<Rightarrow> chapter_c option result" where
  "chapter_c_unpack A packed sz =
     (case packed of None \<Rightarrow> Inr None
      | Some b \<Rightarrow>
          if sz = 0 then Inr None
          else (case chapter_c_create A of None \<Rightarrow> Inr None
                | Some c \<Rightarrow>
                    bindr (mem_get b 0) (\<lambda>b0.
                    bindr (chapter_c_unpack_loop b 0 sz
                             (c\<lparr>cc_S := drop_bit 7 (b0 AND 0x80), cc_len := b0 AND 0x7f\<rparr>)) (\<lambda>c.
                    Inr (Some c)))))"

text \<open>The active logs, with the index of the first log of the list.\<close>

fun chapter_c_count :: "nat \<Rightarrow> controller_log list \<Rightarrow> byte" where
  "chapter_c_count index [] = 0"
| "chapter_c_count index (l # ls) =
     (if unat (cl_number l) = index then 1 else 0) + chapter_c_count (Suc index) ls"

definition controller_log_bytes :: "controller_log \<Rightarrow> bytes" where
  "controller_log_bytes l =
     [push_bit 7 (cl_S l) OR (cl_number l AND 0x7f),
      if cl_A l = 1 then (push_bit 7 (cl_A l) OR push_bit 6 (cl_T l)) OR (cl_value l AND 0x3f)
      else push_bit 7 (cl_A l) OR (cl_value l AND 0x7f)]"

fun chapter_c_pack_loop :: "nat \<Rightarrow> controller_log list \<Rightarrow> byte \<Rightarrow> nat \<Rightarrow> bytes \<Rightarrow> bytes result" where
  "chapter_c_pack_loop index [] current_size p m = Inr m"
| "chapter_c_pack_loop index (l # ls) current_size p m =
     (if \<not> current_size \<ge> 2 then Inr m
      else if unat (cl_number l) = index then
        bindr (mem_write m p (controller_log_bytes l)) (\<lambda>m.
        chapter_c_pack_loop (Suc index) ls (current_size - 2) (p + 2) m)
      else chapter_c_pack_loop (Suc index) ls current_size p m)"

text \<open>The results: the packed bytes, their number, and the chapter with its length updated.\<close>

definition chapter_c_pack ::
    "alloc \<Rightarrow> chapter_c option \<Rightarrow> (bytes option \<times> nat \<times> chapter_c option) result" where
  "chapter_c_pack A chapter_c =
     (case chapter_c of None \<Rightarrow> Inr (None, 0, None)
      | Some c \<Rightarrow>
          let len = chapter_c_count 0 (cc_log c);
              c = c\<lparr>cc_len := len\<rparr> in
          if len = 0 then Inr (None, 0, Some c)
          else let sz = 1 + unat len * 2 in
            if \<not> A (Site ''chapter_c_pack:packed'') then Inr (None, 0, Some c)
            else let current_size = of_nat sz - 1 in
              bindr (mem_write (replicate sz 0) 0 [push_bit 7 (cc_S c) OR ((len - 1) AND 0x7f)]) (\<lambda>m.
              bindr (chapter_c_pack_loop 0 (cc_log c) current_size 1 m) (\<lambda>m.
              Inr (Some m, sz, Some c))))"

definition chapter_c_destroy :: "chapter_c option option \<Rightarrow> chapter_c option option" where
  "chapter_c_destroy chapter_c =
     (case chapter_c of None \<Rightarrow> None | Some None \<Rightarrow> Some None | Some (Some _) \<Rightarrow> Some None)"

definition chapter_c_reset :: "chapter_c option \<Rightarrow> chapter_c option" where
  "chapter_c_reset chapter_c =
     (case chapter_c of None \<Rightarrow> None
      | Some c \<Rightarrow> Some \<lparr>cc_S = 1, cc_len = 0, cc_log = replicate MAX_CHAPTER_C_CONTROLLERS
                          (controller_log_zero\<lparr>cl_S := 1, cl_number := 255\<rparr>)\<rparr>)"

definition controller_log_create :: "alloc \<Rightarrow> controller_log option" where
  "controller_log_create A =
     (if A (Site ''controller_log_create:new_controller_log'')
      then Some (controller_log_zero\<lparr>cl_S := 1, cl_number := 255\<rparr>) else None)"

definition controller_log_destroy :: "controller_log option option \<Rightarrow> controller_log option option" where
  "controller_log_destroy l =
     (case l of None \<Rightarrow> None | Some None \<Rightarrow> Some None | Some (Some _) \<Rightarrow> Some None)"

definition controller_log_reset :: "controller_log option \<Rightarrow> controller_log option" where
  "controller_log_reset l =
     (case l of None \<Rightarrow> None | Some _ \<Rightarrow> Some (controller_log_zero\<lparr>cl_S := 1, cl_number := 255\<rparr>))"

section \<open>Facts\<close>

definition chapter_c_wf :: "chapter_c \<Rightarrow> bool" where
  "chapter_c_wf c \<longleftrightarrow> length (cc_log c) = MAX_CHAPTER_C_CONTROLLERS"

text \<open>The logs of the active controllers, in the order of their numbers.\<close>

fun active_logs :: "nat \<Rightarrow> controller_log list \<Rightarrow> controller_log list" where
  "active_logs index [] = []"
| "active_logs index (l # ls) =
     (if unat (cl_number l) = index then l # active_logs (Suc index) ls else active_logs (Suc index) ls)"

lemma length_active_logs: "length (active_logs i ls) \<le> length ls"
  by (induction i ls rule: active_logs.induct) auto

lemma chapter_c_count_active: "chapter_c_count i ls = of_nat (length (active_logs i ls))"
  by (induction i ls rule: chapter_c_count.induct) auto

lemma length_controller_log_bytes [simp]: "length (controller_log_bytes l) = 2"
  by (simp add: controller_log_bytes_def)

lemma length_logs_bytes [simp]: "length (concat (map controller_log_bytes ls)) = 2 * length ls"
  by (induction ls) auto

text \<open>With room for all of them the loop writes the active logs one after the other.\<close>

lemma chapter_c_pack_loop_all:
  assumes "length (active_logs i ls) < 128" "cs = of_nat (2 * length (active_logs i ls))"
    and "length m = p + 2 * length (active_logs i ls)"
  shows "chapter_c_pack_loop i ls cs p m =
    Inr (take p m @ concat (map controller_log_bytes (active_logs i ls)))"
  using assms
proof (induction i ls arbitrary: cs p m rule: active_logs.induct)
  case (1 i)
  then show ?case by simp
next
  case (2 i l ls)
  let ?n = "length (active_logs (Suc i) ls)"
  show ?case
  proof (cases "unat (cl_number l) = i")
    case True
    let ?m = "take p m @ controller_log_bytes l @ drop (p + 2) m"
    from True "2.prems" have n: "?n < 128" "length m = p + 2 + 2 * ?n" and cs: "cs = of_nat (2 * ?n + 2)"
      by (simp_all add: algebra_simps)
    have "unat cs = 2 * ?n + 2"
      unfolding cs using "2.prems"(1) True by (intro unat_of_nat_less) simp
    then have ge: "cs \<ge> 2" by (simp add: word_le_nat_alt)
    have "chapter_c_pack_loop (Suc i) ls (cs - 2) (p + 2) ?m =
        Inr (take (p + 2) ?m @ concat (map controller_log_bytes (active_logs (Suc i) ls)))"
      using n cs by (intro "2.IH"(1) [OF True]) (simp_all add: algebra_simps)
    with True ge n show ?thesis by simp
  next
    case False
    with "2.prems" have n: "?n < 128" "length m = p + 2 * ?n" and cs: "cs = of_nat (2 * ?n)" by simp_all
    have ucs: "unat cs = 2 * ?n" unfolding cs using n by (intro unat_of_nat_less) simp
    show ?thesis
    proof (cases "cs \<ge> 2")
      case True
      with False "2.IH"(2) [OF False n(1) cs n(2)] show ?thesis by simp
    next
      case low: False
      then have "active_logs (Suc i) ls = []" using ucs by (cases "active_logs (Suc i) ls") (simp_all add: word_le_nat_alt)
      with False low n show ?thesis by simp
    qed
  qed
qed

text \<open>With too little room for a log it stops at once: every log has an even number of bytes.\<close>

lemma chapter_c_pack_loop_none: "\<not> cs \<ge> 2 \<Longrightarrow> chapter_c_pack_loop i ls cs p m = Inr m"
  by (cases ls) simp_all

definition chapter_c_bytes :: "chapter_c \<Rightarrow> bytes" where
  "chapter_c_bytes c =
     (let ls = active_logs 0 (cc_log c) in
      (push_bit 7 (cc_S c) OR ((of_nat (length ls) - 1) AND 0x7f)) #
      (if length ls < 128 then concat (map controller_log_bytes ls) else replicate 256 0))"

lemma active_logs_le: "chapter_c_wf c \<Longrightarrow> length (active_logs 0 (cc_log c)) \<le> 128"
  using length_active_logs [of 0 "cc_log c"] by (simp add: chapter_c_wf_def MAX_CHAPTER_C_CONTROLLERS_def)

lemma chapter_c_len:
  assumes "chapter_c_wf c"
  shows "unat (chapter_c_count 0 (cc_log c)) = length (active_logs 0 (cc_log c))"
  unfolding chapter_c_count_active
  by (rule unat_of_nat_less) (use active_logs_le [OF assms] in simp)

lemma chapter_c_pack_ok:
  assumes wf: "chapter_c_wf c" and mem: "\<forall>s. A s"
  shows "\<exists>c'. chapter_c_pack A (Some c) =
      Inr (if active_logs 0 (cc_log c) = [] then (None, 0, Some c')
           else (Some (chapter_c_bytes c), length (chapter_c_bytes c), Some c')) \<and>
    cc_log c' = cc_log c \<and> cc_S c' = cc_S c"
proof -
  let ?ls = "active_logs 0 (cc_log c)"
  let ?n = "length ?ls"
  let ?len = "chapter_c_count 0 (cc_log c)"
  let ?h = "push_bit 7 (cc_S c) OR ((?len - 1) AND 0x7f)"
  have n: "?n \<le> 128" by (rule active_logs_le [OF wf])
  have len: "unat ?len = ?n" by (rule chapter_c_len [OF wf])
  then have z: "?len = 0 \<longleftrightarrow> ?ls = []" by (metis length_0_conv unat_eq_zero)
  have cnt: "?len = of_nat ?n" by (rule chapter_c_count_active)
  show ?thesis
  proof (cases "?ls = []")
    case True
    with z show ?thesis by (simp add: chapter_c_pack_def)
  next
    case False
    consider "?n < 128" | "?n = 128" using n by linarith
    then show ?thesis
    proof cases
      case 1
      have "chapter_c_pack_loop 0 (cc_log c) (of_nat (1 + ?n * 2) - 1) 1 (?h # replicate (?n * 2) 0) =
          Inr (take 1 (?h # replicate (?n * 2) 0) @ concat (map controller_log_bytes ?ls))"
        by (rule chapter_c_pack_loop_all) (use 1 in \<open>simp_all add: mult.commute\<close>)
      with False z len 1 mem cnt show ?thesis
        by (simp add: chapter_c_pack_def chapter_c_bytes_def Let_def mult.commute)
    next
      case 2
      have "chapter_c_pack_loop 0 (cc_log c) (of_nat (1 + ?n * 2) - 1) 1 (?h # replicate (?n * 2) 0) =
          Inr (?h # replicate (?n * 2) 0)"
        unfolding 2 by (rule chapter_c_pack_loop_none) simp
      with False z len 2 mem cnt show ?thesis
        by (simp add: chapter_c_pack_def chapter_c_bytes_def Let_def)
    qed
  qed
qed

lemma length_chapter_c_bytes:
  "chapter_c_wf c \<Longrightarrow> length (chapter_c_bytes c) = 1 + 2 * length (active_logs 0 (cc_log c))"
  using active_logs_le [of c] by (auto simp: chapter_c_bytes_def Let_def)

section \<open>Properties\<close>

text \<open>Packing a chapter C gives nothing when no controller is active, and otherwise a header with
  the number of active controllers less one, followed by the two bytes of each active
  controller in the order of the controllers, unless all 128 are active: then the 8-bit count
  of the remaining bytes wraps to 0 and all of the controllers' bytes are left 0.\<close>
theorem chapter_c_pack_bytes:
  assumes "chapter_c_wf c" "\<forall>s. A s" "ls = active_logs 0 (cc_log c)"
  shows "\<exists>c'. (ls = [] \<longrightarrow> chapter_c_pack A (Some c) = Inr (None, 0, Some c')) \<and>
    (0 < length ls \<and> length ls < 128 \<longrightarrow>
      chapter_c_pack A (Some c) =
        Inr (Some ((push_bit 7 (cc_S c) OR ((of_nat (length ls) - 1) AND 0x7f)) # concat (map controller_log_bytes ls)),
             1 + 2 * length ls, Some c')) \<and>
    (length ls = 128 \<longrightarrow>
      chapter_c_pack A (Some c) =
        Inr (Some ((push_bit 7 (cc_S c) OR 0x7f) # replicate 256 0), 257, Some c'))"
proof -
  from chapter_c_pack_ok [OF assms(1,2)] obtain c' where
    "chapter_c_pack A (Some c) = Inr (if ls = [] then (None, 0, Some c')
       else (Some (chapter_c_bytes c), length (chapter_c_bytes c), Some c'))"
    using assms(3) by blast
  then show ?thesis using length_chapter_c_bytes [OF assms(1)] assms(3)
    by (intro exI [of _ c']) (auto simp: chapter_c_bytes_def Let_def)
qed

text \<open>A chapter with one active controller.\<close>

definition chapter_c_one :: "nat \<Rightarrow> byte \<Rightarrow> chapter_c" where
  "chapter_c_one k v =
     \<lparr>cc_S = 1, cc_len = 0,
      cc_log = (replicate 128 (controller_log_zero\<lparr>cl_number := 255\<rparr>))
        [k := \<lparr>cl_S = 1, cl_number = of_nat k, cl_A = 0, cl_T = 0, cl_value = v\<rparr>]\<rparr>"

theorem chapter_c_pack_bytes_witness:
  "\<exists>c'. chapter_c_pack (\<lambda>_. True) (Some (chapter_c_one 7 100)) = Inr (Some [0x80, 0x87, 100], 3, Some c')"
proof -
  have a: "active_logs 0 (cc_log (chapter_c_one 7 100)) =
      [\<lparr>cl_S = 1, cl_number = 7, cl_A = 0, cl_T = 0, cl_value = 100\<rparr>]" by code_simp
  show ?thesis
    using chapter_c_pack_bytes [of "chapter_c_one 7 100" "\<lambda>_. True", OF _ _ refl] a
    by (simp add: chapter_c_wf_def MAX_CHAPTER_C_CONTROLLERS_def chapter_c_one_def controller_log_bytes_def)
qed

lemma active_logs_append:
  "active_logs i (xs @ ys) = active_logs i xs @ active_logs (i + length xs) ys"
  by (induction i xs rule: active_logs.induct) auto

lemma active_logs_none:
  "unat (cl_number z) \<ge> i + n \<Longrightarrow> active_logs i (replicate n z) = []"
  by (induction n arbitrary: i) auto

lemma chapter_c_one_log:
  assumes "k < 128"
  shows "cc_log (chapter_c_one k v) = replicate k (controller_log_zero\<lparr>cl_number := 255\<rparr>) @
    \<lparr>cl_S = 1, cl_number = of_nat k, cl_A = 0, cl_T = 0, cl_value = v\<rparr> #
    replicate (127 - k) (controller_log_zero\<lparr>cl_number := 255\<rparr>)"
  using assms by (simp add: chapter_c_one_def upd_conv_take_nth_drop)

lemma chapter_c_one_active:
  assumes "k < 128"
  shows "active_logs 0 (cc_log (chapter_c_one k v)) =
    [\<lparr>cl_S = 1, cl_number = of_nat k, cl_A = 0, cl_T = 0, cl_value = v\<rparr>]"
  using assms
  by (simp add: chapter_c_one_log active_logs_append active_logs_none unat_of_nat_less)

lemma chapter_c_one_wf: "k < 128 \<Longrightarrow> chapter_c_wf (chapter_c_one k v)"
  by (simp add: chapter_c_wf_def chapter_c_one_def MAX_CHAPTER_C_CONTROLLERS_def)

text \<open>The unpacker reads the header of the chapter as if it were the first controller, so a
  chapter with one active controller does not come back: the controller with the number of
  the header's length, 0, is set instead, and the controller itself is not.\<close>
theorem chapter_c_unpack_misreads:
  assumes "0 < k" "k < 128" "\<forall>s. A s"
  shows "\<exists>b c' c''. chapter_c_pack A (Some (chapter_c_one k v)) = Inr (Some b, 3, Some c') \<and>
    chapter_c_unpack A (Some b) 3 = Inr (Some c'') \<and>
    cl_number (cc_log c'' ! 0) = 0 \<and> cl_number (cc_log c'' ! k) = 255"
proof -
  from chapter_c_pack_ok [OF chapter_c_one_wf [OF assms(2)] assms(3), of v] obtain c' where
    "chapter_c_pack A (Some (chapter_c_one k v)) = Inr (Some (chapter_c_bytes (chapter_c_one k v)),
       length (chapter_c_bytes (chapter_c_one k v)), Some c')"
    by (auto simp: chapter_c_one_active [OF assms(2)])
  moreover obtain x y where "chapter_c_bytes (chapter_c_one k v) = [0x80, x, y]"
    by (simp add: chapter_c_bytes_def chapter_c_one_active [OF assms(2)] controller_log_bytes_def)
      (simp add: chapter_c_one_def)
  ultimately show ?thesis
    using assms by (simp add: chapter_c_unpack_def chapter_c_create_def chapter_c_unpack_loop.simps Let_def
        controller_log_zero_def MAX_CHAPTER_C_CONTROLLERS_def)
qed

theorem chapter_c_unpack_misreads_witness:
  "\<exists>b c' c''. chapter_c_pack (\<lambda>_. True) (Some (chapter_c_one 7 100)) = Inr (Some b, 3, Some c') \<and>
    chapter_c_unpack (\<lambda>_. True) (Some b) 3 = Inr (Some c'') \<and> cl_number (cc_log c'' ! 7) = 255"
  using chapter_c_unpack_misreads [of 7 "\<lambda>_. True" 100] by auto

end
