(* ===== verification/Chapter_N.thy ===== *)
theory Chapter_N
  imports Chapter_P
begin

text \<open>
  Chapter N of the recovery journal (\<^verbatim>\<open>chapter_n.c\<close>): the notes switched on and a bit for each
  note switched off. \<^verbatim>\<open>notes\<close> is an array of 127 pointers, the first \<^verbatim>\<open>num_notes\<close> of them in
  use; \<^verbatim>\<open>offbits\<close> is an allocation of 16 bytes, of which those from \<^verbatim>\<open>low\<close> to \<^verbatim>\<open>high\<close> are
  packed.
\<close>

unbundle bit_operations_syntax

section \<open>State and operations\<close>

record chapter_n_note =
  nn_S :: "1 word"
  nn_num :: "7 word"
  nn_Y :: "1 word"
  nn_velocity :: "7 word"

record chapter_n_header =
  nh_B :: "1 word"
  nh_len :: "7 word"
  nh_low :: "4 word"
  nh_high :: "4 word"

record chapter_n =
  cn_header :: "chapter_n_header option"
  cn_num_notes :: "16 word"
  cn_notes :: "chapter_n_note option list"
  cn_offbits :: "bytes option"

definition MAX_CHAPTER_N_NOTES :: nat where "MAX_CHAPTER_N_NOTES = 127"
definition MAX_OFFBITS :: nat where "MAX_OFFBITS = 16"

definition chapter_n_header_pack :: "alloc \<Rightarrow> chapter_n_header option \<Rightarrow> bytes option \<times> nat" where
  "chapter_n_header_pack A header =
     (case header of None \<Rightarrow> (None, 0)
      | Some h \<Rightarrow>
          if \<not> A (Site ''chapter_n_header_pack:packed'') then (None, 0)
          else (Some [push_bit 7 (ucast (nh_B h)) OR ucast (nh_len h),
                      push_bit 4 (ucast (nh_low h)) OR ucast (nh_high h)], 2))"

definition chapter_n_header_create :: "alloc \<Rightarrow> chapter_n_header option" where
  "chapter_n_header_create A =
     (if A (Site ''chapter_n_header_create:header'')
      then Some \<lparr>nh_B = 0, nh_len = 0, nh_low = 0x0f, nh_high = 0\<rparr> else None)"

definition chapter_n_header_destroy :: "chapter_n_header option option \<Rightarrow> chapter_n_header option option" where
  "chapter_n_header_destroy h = (case h of None \<Rightarrow> None | Some _ \<Rightarrow> Some None)"

definition chapter_n_note_pack :: "alloc \<Rightarrow> chapter_n_note option \<Rightarrow> bytes option \<times> nat" where
  "chapter_n_note_pack A note =
     (case note of None \<Rightarrow> (None, 0)
      | Some n \<Rightarrow>
          if \<not> A (Site ''chapter_n_note_pack:packed'') then (None, 0)
          else (Some [push_bit 7 (ucast (nn_S n)) OR ucast (nn_num n),
                      push_bit 7 (ucast (nn_Y n)) OR ucast (nn_velocity n)], 2))"

definition chapter_n_note_create :: "alloc \<Rightarrow> chapter_n_note option" where
  "chapter_n_note_create A =
     (if A (Site ''chapter_n_note_create:note'')
      then Some \<lparr>nn_S = 0, nn_num = 0, nn_Y = 0, nn_velocity = 0\<rparr> else None)"

definition chapter_n_note_destroy :: "chapter_n_note option option \<Rightarrow> chapter_n_note option option" where
  "chapter_n_note_destroy n = (case n of None \<Rightarrow> None | Some _ \<Rightarrow> Some None)"

text \<open>The argument is a \<^verbatim>\<open>chapter_n_note_t **\<close>; the note is cleared and freed.\<close>

definition chapter_n_note_reset ::
    "chapter_n_note option option \<Rightarrow> chapter_n_note option option result" where
  "chapter_n_note_reset note =
     (case note of None \<Rightarrow> Inr None
      | Some n \<Rightarrow> bindr (deref n) (\<lambda>n.
          Inr (chapter_n_note_destroy
                 (Some (Some (n\<lparr>nn_S := 0, nn_num := 0, nn_Y := 0, nn_velocity := 0\<rparr>))))))"

definition chapter_n_create :: "alloc \<Rightarrow> chapter_n option" where
  "chapter_n_create A =
     (if \<not> A (Site ''chapter_n_create:chapter_n'') then None
      else case chapter_n_header_create A of None \<Rightarrow> None
        | Some header \<Rightarrow>
            if \<not> A (Site ''chapter_n_create:offbits'') then None
            else Some \<lparr>cn_header = Some header, cn_num_notes = 0,
                       cn_notes = replicate MAX_CHAPTER_N_NOTES None,
                       cn_offbits = Some (replicate MAX_OFFBITS 0)\<rparr>)"

definition chapter_n_destroy :: "chapter_n option option \<Rightarrow> chapter_n option option" where
  "chapter_n_destroy chapter_n =
     (case chapter_n of None \<Rightarrow> None | Some None \<Rightarrow> Some None | Some (Some _) \<Rightarrow> Some None)"

definition chapter_n_header_reset :: "chapter_n_header option \<Rightarrow> chapter_n_header option" where
  "chapter_n_header_reset header =
     (case header of None \<Rightarrow> None
      | Some h \<Rightarrow> Some (h\<lparr>nh_B := 0, nh_len := 0, nh_high := 0, nh_low := 0\<rparr>))"

text \<open>The loops over the first \<^verbatim>\<open>num_notes\<close> notes: \<open>left\<close> iterations are left, from \<open>i\<close> on. An
  index past the array is a fault.\<close>

fun chapter_n_reset_notes :: "chapter_n_note option list \<Rightarrow> nat \<Rightarrow> nat \<Rightarrow> chapter_n_note option list result" where
  "chapter_n_reset_notes notes i 0 = Inr notes"
| "chapter_n_reset_notes notes i (Suc left) =
     bindr (mem_get notes i) (\<lambda>n.
     bindr (chapter_n_note_reset (Some n)) (\<lambda>n.
     bindr (deref n) (\<lambda>n.
     chapter_n_reset_notes (notes[i := n]) (Suc i) left)))"

definition chapter_n_reset :: "chapter_n option \<Rightarrow> chapter_n option result" where
  "chapter_n_reset chapter_n =
     (case chapter_n of None \<Rightarrow> Inr None
      | Some c \<Rightarrow>
          bindr (chapter_n_reset_notes (cn_notes c) 0 (unat (cn_num_notes c))) (\<lambda>notes.
          bindr (deref (cn_offbits c)) (\<lambda>offbits.
          bindr (mem_write offbits 0 (replicate MAX_OFFBITS 0)) (\<lambda>offbits.
          Inr (Some (c\<lparr>cn_notes := notes, cn_num_notes := 0, cn_offbits := Some offbits,
                       cn_header := chapter_n_header_reset (cn_header c)\<rparr>))))))"

text \<open>Packs the notes into \<open>m\<close> from \<open>p\<close> on; \<open>sz\<close> is \<^verbatim>\<open>*size\<close>.\<close>

fun chapter_n_pack_notes ::
    "alloc \<Rightarrow> chapter_n_note option list \<Rightarrow> nat \<Rightarrow> nat \<Rightarrow> nat \<Rightarrow> nat \<Rightarrow> bytes \<Rightarrow> (nat \<times> bytes) result" where
  "chapter_n_pack_notes A notes i 0 p sz m = Inr (sz, m)"
| "chapter_n_pack_notes A notes i (Suc left) p sz m =
     bindr (mem_get notes i) (\<lambda>note.
     let (packed_note, note_size) = chapter_n_note_pack (\<lambda>s. A (Iter i s)) note in
     bindr (if note_size = 0 then Inr []
            else bindr (deref packed_note) (\<lambda>b. mem_read b 0 note_size)) (\<lambda>xs.
     bindr (mem_write m p xs) (\<lambda>m.
     chapter_n_pack_notes A notes (Suc i) left (p + note_size) (sz + note_size) m)))"

text \<open>The three parts of the packer: the buffer of notes with the size so far, the buffer of off
  bits, and the joined buffer. None stands for a jump to the cleanup because a buffer could not
  be allocated; the size already summed up stays then, with no buffer.\<close>

definition chapter_n_note_buffer ::
    "alloc \<Rightarrow> chapter_n \<Rightarrow> nat \<Rightarrow> (bytes \<times> nat) option result" where
  "chapter_n_note_buffer A c sz =
     (let n = unat (cn_num_notes c) in
      if n = 0 then Inr (Some ([], sz))
      else if \<not> A (Site ''chapter_n_pack:note_buffer'') then Inr None
      else bindr (chapter_n_pack_notes A (cn_notes c) 0 n 0 sz (replicate (2 * n) 0)) (\<lambda>(sz, m).
           Inr (Some (m, sz))))"

definition chapter_n_offbits_buffer ::
    "alloc \<Rightarrow> chapter_n_header \<Rightarrow> bytes option \<Rightarrow> bytes option result" where
  "chapter_n_offbits_buffer A h offbits =
     (let offbits_size = uint (nh_high h) - uint (nh_low h) + 1 in
      if offbits_size \<le> 0 then Inr (Some [])
      else if \<not> A (Site ''chapter_n_pack:offbits_buffer'') then Inr None
      else bindr (deref offbits) (\<lambda>offbits.
           bindr (mem_read offbits (unat (nh_low h)) (nat offbits_size)) (\<lambda>xs. Inr (Some xs))))"

definition chapter_n_join :: "nat \<Rightarrow> bytes \<Rightarrow> bytes \<Rightarrow> bytes \<Rightarrow> bytes result" where
  "chapter_n_join sz header_bytes note_bytes offbits_bytes =
     bindr (mem_write (replicate sz 0) 0 header_bytes) (\<lambda>m.
     bindr (mem_write m (length header_bytes) note_bytes) (\<lambda>m.
     mem_write m (length header_bytes + length note_bytes) offbits_bytes))"

definition chapter_n_pack ::
    "alloc \<Rightarrow> chapter_n option \<Rightarrow> (bytes option \<times> nat \<times> chapter_n option) result" where
  "chapter_n_pack A chapter_n =
     (case chapter_n of None \<Rightarrow> Inr (None, 0, None)
      | Some c \<Rightarrow>
          bindr (deref (cn_header c)) (\<lambda>h.
          let h = h\<lparr>nh_len := ucast (cn_num_notes c)\<rparr>;
              c = c\<lparr>cn_header := Some h\<rparr>;
              (packed_header, header_size) = chapter_n_header_pack A (Some h) in
          bindr (chapter_n_note_buffer A c header_size) (\<lambda>notes.
          case notes of
            None \<Rightarrow> Inr (None, header_size, Some c)
          | Some (note_buffer, sz) \<Rightarrow>
              bindr (chapter_n_offbits_buffer A h (cn_offbits c)) (\<lambda>offs.
              case offs of
                None \<Rightarrow> Inr (None, sz, Some c)
              | Some offbits_buffer \<Rightarrow>
                  let sz = sz + length offbits_buffer in
                  if \<not> A (Site ''chapter_n_pack:packed'') then Inr (None, sz, Some c)
                  else bindr (chapter_n_join sz (case packed_header of None \<Rightarrow> [] | Some b \<Rightarrow> b)
                                note_buffer offbits_buffer) (\<lambda>m.
                       Inr (Some m, sz, Some c))))))"

section \<open>Invariant\<close>

text \<open>The notes in use come first and are not NULL; the header and the off bits are allocated.\<close>

definition chapter_n_wf :: "chapter_n \<Rightarrow> bool" where
  "chapter_n_wf c \<longleftrightarrow> cn_header c \<noteq> None \<and> length (cn_notes c) = MAX_CHAPTER_N_NOTES \<and>
     unat (cn_num_notes c) \<le> MAX_CHAPTER_N_NOTES \<and>
     (\<forall>i<unat (cn_num_notes c). cn_notes c ! i \<noteq> None) \<and>
     (case cn_offbits c of None \<Rightarrow> False | Some b \<Rightarrow> length b = MAX_OFFBITS)"

definition note_bytes :: "chapter_n_note \<Rightarrow> bytes" where
  "note_bytes n = [push_bit 7 (ucast (nn_S n)) OR ucast (nn_num n),
                   push_bit 7 (ucast (nn_Y n)) OR ucast (nn_velocity n)]"

definition chapter_n_played :: "chapter_n \<Rightarrow> chapter_n_note list" where
  "chapter_n_played c = map the (take (unat (cn_num_notes c)) (cn_notes c))"

lemma length_note_bytes_1 [simp]: "length (note_bytes n) = 2"
  by (simp add: note_bytes_def)

lemma length_note_bytes [simp]: "length (concat (map note_bytes ns)) = 2 * length ns"
  by (induction ns) simp_all

lemma chapter_n_create_wf:
  "\<forall>s. A s \<Longrightarrow> \<exists>c. chapter_n_create A = Some c \<and> chapter_n_wf c \<and> chapter_n_played c = []"
  by (simp add: chapter_n_create_def chapter_n_header_create_def chapter_n_wf_def chapter_n_played_def
      MAX_OFFBITS_def)

lemma chapter_n_wfE:
  assumes "chapter_n_wf c"
  obtains h b where "cn_header c = Some h" "cn_offbits c = Some b" "length b = MAX_OFFBITS"
    "length (cn_notes c) = MAX_CHAPTER_N_NOTES" "unat (cn_num_notes c) \<le> MAX_CHAPTER_N_NOTES"
    "\<forall>i<unat (cn_num_notes c). cn_notes c ! i \<noteq> None"
  using assms by (auto simp: chapter_n_wf_def split: option.splits)

lemma length_chapter_n_played: "chapter_n_wf c \<Longrightarrow> length (chapter_n_played c) = unat (cn_num_notes c)"
  by (erule chapter_n_wfE) (simp add: chapter_n_played_def)

text \<open>The loop of the packer over notes that are there writes them one after the other.\<close>

lemma chapter_n_pack_notes_ok:
  assumes "i + n \<le> length notes" "\<forall>j<n. notes ! (i + j) \<noteq> None" "length m = p + 2 * n"
  shows "chapter_n_pack_notes (\<lambda>_. True) notes i n p sz m =
    Inr (sz + 2 * n, take p m @ concat (map (note_bytes \<circ> the) (take n (drop i notes))))"
  using assms
proof (induction n arbitrary: i p sz m)
  case 0
  then show ?case by simp
next
  case (Suc n)
  from Suc.prems obtain x where x: "notes ! i = Some x" by (auto dest: spec [of _ 0])
  have "\<forall>j<n. notes ! (Suc i + j) \<noteq> None"
    using Suc.prems(2) by (metis Suc_less_eq add_Suc_shift)
  with Suc.prems have "chapter_n_pack_notes (\<lambda>_. True) notes (Suc i) n (p + 2) (sz + 2)
      (take p m @ note_bytes x @ drop (p + 2) m) =
    Inr (sz + 2 + 2 * n, take (p + 2) (take p m @ note_bytes x @ drop (p + 2) m) @
      concat (map (note_bytes \<circ> the) (take n (drop (Suc i) notes))))"
    by (intro Suc.IH) simp_all
  moreover have "take (Suc n) (drop i notes) = Some x # take n (drop (Suc i) notes)"
    using Suc.prems(1) x by (simp add: Cons_nth_drop_Suc [symmetric])
  ultimately show ?case
    using Suc.prems x by (simp add: chapter_n_note_pack_def comp_def flip: note_bytes_def)
qed

text \<open>What is packed: the header with the number of notes, the notes, the off bits in use.\<close>

definition chapter_n_bytes :: "chapter_n \<Rightarrow> bytes" where
  "chapter_n_bytes c =
     (let h = the (cn_header c); offbits = the (cn_offbits c) in
      [push_bit 7 (ucast (nh_B h)) OR ucast (ucast (cn_num_notes c) :: 7 word),
       push_bit 4 (ucast (nh_low h)) OR ucast (nh_high h)] @
      concat (map note_bytes (chapter_n_played c)) @
      take (unat (nh_high h) + 1 - unat (nh_low h)) (drop (unat (nh_low h)) offbits))"

lemma length_chapter_n_bytes:
  assumes "chapter_n_wf c"
  shows "length (chapter_n_bytes c) \<le> 2 + 2 * 127 + 16"
proof -
  from assms obtain h b where hb: "cn_header c = Some h" "cn_offbits c = Some b" "length b = MAX_OFFBITS"
    "unat (cn_num_notes c) \<le> MAX_CHAPTER_N_NOTES" by (elim chapter_n_wfE)
  have "unat (nh_high h) < 16" using unsigned_less [of "nh_high h", where 'a = nat] by simp
  with hb length_chapter_n_played [OF assms] show ?thesis
    by (simp add: chapter_n_bytes_def Let_def MAX_OFFBITS_def MAX_CHAPTER_N_NOTES_def)
qed

lemma chapter_n_pack_ok:
  assumes wf: "chapter_n_wf c" and mem: "\<forall>s. A s" and h: "cn_header c = Some h"
  shows "chapter_n_pack A (Some c) =
    Inr (Some (chapter_n_bytes c), length (chapter_n_bytes c),
         Some (c\<lparr>cn_header := Some (h\<lparr>nh_len := ucast (cn_num_notes c)\<rparr>)\<rparr>))"
proof -
  from wf obtain b where b: "cn_offbits c = Some b" "length b = MAX_OFFBITS"
    and ns: "length (cn_notes c) = MAX_CHAPTER_N_NOTES" "unat (cn_num_notes c) \<le> MAX_CHAPTER_N_NOTES"
      "\<forall>i<unat (cn_num_notes c). cn_notes c ! i \<noteq> None"
    by (elim chapter_n_wfE)
  let ?n = "unat (cn_num_notes c)"
  define hb where "hb = ([push_bit 7 (ucast (nh_B h)) OR ucast (ucast (cn_num_notes c) :: 7 word),
       push_bit 4 (ucast (nh_low h)) OR ucast (nh_high h)] :: bytes)"
  define nb where "nb = concat (map note_bytes (chapter_n_played c))"
  let ?k = "unat (nh_high h) + 1 - unat (nh_low h)"
  define ob where "ob = take ?k (drop (unat (nh_low h)) b)"
  have bytes: "chapter_n_bytes c = hb @ nb @ ob"
    using h b by (simp add: chapter_n_bytes_def Let_def hb_def nb_def ob_def)
  have hi: "unat (nh_high h) < 16" using unsigned_less [of "nh_high h", where 'a = nat] by simp
  have lo: "unat (nh_low h) < 16" using unsigned_less [of "nh_low h", where 'a = nat] by simp
  have k: "uint (nh_high h) - uint (nh_low h) + 1 = int (unat (nh_high h)) + 1 - int (unat (nh_low h))"
    by simp
  have lob: "length ob = ?k" using hi lo b by (simp add: MAX_OFFBITS_def ob_def)
  have rd: "mem_read b (unat (nh_low h)) ?k = Inr ob" if "0 < ?k"
    unfolding ob_def using that hi lo b by (intro mem_read_ok) (simp add: MAX_OFFBITS_def)
  have "nb = concat (map (note_bytes \<circ> the) (take ?n (drop 0 (cn_notes c))))"
    by (simp add: chapter_n_played_def nb_def)
  then have pk: "chapter_n_pack_notes (\<lambda>_. True) (cn_notes c) 0 ?n 0 2 (replicate (2 * ?n) 0) =
      Inr (2 + 2 * ?n, nb)"
    using ns by (subst chapter_n_pack_notes_ok) simp_all
  have ln: "length nb = 2 * ?n" "length hb = 2"
    using length_chapter_n_played [OF wf] by (simp_all add: nb_def hb_def)
  have hp: "chapter_n_header_pack (\<lambda>_. True) (Some (h\<lparr>nh_len := ucast (cn_num_notes c)\<rparr>)) = (Some hb, 2)"
    by (simp add: chapter_n_header_pack_def hb_def)
  have nbuf: "chapter_n_note_buffer (\<lambda>_. True) (c\<lparr>cn_header := h'\<rparr>) 2 = Inr (Some (nb, 2 + 2 * ?n))" for h'
    using pk ln by (auto simp: chapter_n_note_buffer_def Let_def)
  have obuf: "chapter_n_offbits_buffer (\<lambda>_. True) (h\<lparr>nh_len := l\<rparr>) (Some b) = Inr (Some ob)" for l
  proof (cases "0 < ?k")
    case True
    then have "nat (uint (nh_high h) - uint (nh_low h) + 1) = ?k" "\<not> uint (nh_high h) - uint (nh_low h) + 1 \<le> 0"
      unfolding k by linarith+
    with rd [OF True] show ?thesis by (simp add: chapter_n_offbits_buffer_def Let_def)
  next
    case False
    then have "uint (nh_high h) - uint (nh_low h) + 1 \<le> 0" unfolding k by linarith
    with False lob show ?thesis by (simp add: chapter_n_offbits_buffer_def Let_def)
  qed
  have join: "chapter_n_join (2 + 2 * ?n + length ob) hb nb ob = Inr (hb @ nb @ ob)"
    using ln by (simp add: chapter_n_join_def)
  show ?thesis
    unfolding alloc_all [OF mem] chapter_n_pack_def
    using h b ln hp nbuf obuf join bytes by (simp add: Let_def)
qed

lemma chapter_n_reset_notes_ok:
  assumes "i + n \<le> length ns" "\<forall>j<n. ns ! (i + j) \<noteq> None"
  shows "\<exists>ns'. chapter_n_reset_notes ns i n = Inr ns' \<and> length ns' = length ns"
  using assms
proof (induction n arbitrary: i ns)
  case 0
  then show ?case by simp
next
  case (Suc n)
  from Suc.prems obtain x where x: "ns ! i = Some x" by (auto dest: spec [of _ 0])
  have "\<forall>j<n. ns[i := None] ! (Suc i + j) \<noteq> None"
    using Suc.prems(2) by (metis Suc_less_eq add_Suc_shift nth_list_update_neq add_eq_self_zero nat.distinct(1))
  with Suc.IH [of "Suc i" "ns[i := None]"] Suc.prems(1) x show ?case
    by (simp add: chapter_n_note_reset_def chapter_n_note_destroy_def)
qed

lemma chapter_n_reset_ok:
  assumes "chapter_n_wf c"
  shows "\<exists>c'. chapter_n_reset (Some c) = Inr (Some c') \<and> chapter_n_wf c' \<and> chapter_n_played c' = [] \<and>
    cn_offbits c' = Some (replicate MAX_OFFBITS 0) \<and>
    (\<exists>h. cn_header c' = Some h \<and> nh_low h = 0 \<and> nh_high h = 0 \<and> nh_B h = 0)"
proof -
  from assms obtain h b where hb: "cn_header c = Some h" "cn_offbits c = Some b" "length b = MAX_OFFBITS"
    and ns: "length (cn_notes c) = MAX_CHAPTER_N_NOTES" "unat (cn_num_notes c) \<le> MAX_CHAPTER_N_NOTES"
      "\<forall>i<unat (cn_num_notes c). cn_notes c ! i \<noteq> None"
    by (elim chapter_n_wfE)
  from chapter_n_reset_notes_ok [of 0 "unat (cn_num_notes c)" "cn_notes c"] ns obtain notes' where
    "chapter_n_reset_notes (cn_notes c) 0 (unat (cn_num_notes c)) = Inr notes'" "length notes' = length (cn_notes c)"
    by auto
  with hb ns show ?thesis
    by (simp add: chapter_n_reset_def chapter_n_header_reset_def chapter_n_wf_def chapter_n_played_def)
qed

section \<open>Properties\<close>

text \<open>Packing a well-formed chapter N has no fault and gives the header with the number of notes,
  two bytes for each note in the order they were added, and the off bits from the low to the
  high octet; the size returned is the number of bytes.\<close>

theorem chapter_n_pack_bytes:
  assumes "chapter_n_wf c" "\<forall>s. A s" "cn_header c = Some h" "cn_offbits c = Some offbits"
  shows "\<exists>b c'. chapter_n_pack A (Some c) = Inr (Some b, length b, Some c') \<and> chapter_n_wf c' \<and>
    b = [push_bit 7 (ucast (nh_B h)) OR ucast (ucast (cn_num_notes c) :: 7 word),
         push_bit 4 (ucast (nh_low h)) OR ucast (nh_high h)] @
        concat (map note_bytes (chapter_n_played c)) @
        take (unat (nh_high h) + 1 - unat (nh_low h)) (drop (unat (nh_low h)) offbits)"
proof -
  let ?c' = "c\<lparr>cn_header := Some (h\<lparr>nh_len := ucast (cn_num_notes c)\<rparr>)\<rparr>"
  have "chapter_n_wf ?c'" using assms(1) by (simp add: chapter_n_wf_def)
  moreover have "chapter_n_pack A (Some c) = Inr (Some (chapter_n_bytes c), length (chapter_n_bytes c), Some ?c')"
    by (rule chapter_n_pack_ok [OF assms(1-3)])
  ultimately show ?thesis using assms(3,4) unfolding chapter_n_bytes_def Let_def by auto
qed

text \<open>A chapter with the note 60 switched on and the bit of octet 7 set.\<close>

definition chapter_n_example :: chapter_n where
  "chapter_n_example =
     \<lparr>cn_header = Some \<lparr>nh_B = 1, nh_len = 0, nh_low = 7, nh_high = 7\<rparr>, cn_num_notes = 1,
      cn_notes = Some \<lparr>nn_S = 0, nn_num = 60, nn_Y = 0, nn_velocity = 100\<rparr> # replicate 126 None,
      cn_offbits = Some (replicate 7 0 @ [8] @ replicate 8 0)\<rparr>"

theorem chapter_n_pack_bytes_witness:
  "\<exists>c'. chapter_n_pack (\<lambda>_. True) (Some chapter_n_example) = Inr (Some [0x81, 0x77, 60, 100, 8], 5, Some c')"
proof -
  have wf: "chapter_n_wf chapter_n_example"
    by (simp add: chapter_n_wf_def chapter_n_example_def MAX_CHAPTER_N_NOTES_def MAX_OFFBITS_def)
  have "chapter_n_played chapter_n_example = [\<lparr>nn_S = 0, nn_num = 60, nn_Y = 0, nn_velocity = 100\<rparr>]"
    by (simp add: chapter_n_played_def chapter_n_example_def)
  then show ?thesis
    using chapter_n_pack_bytes [OF wf, of "\<lambda>_. True" "\<lparr>nh_B = 1, nh_len = 0, nh_low = 7, nh_high = 7\<rparr>"
        "replicate 7 0 @ [8] @ replicate 8 0"]
    by (auto simp: chapter_n_example_def note_bytes_def)
qed

end
