(* ===== verification/Midi_Journal.thy ===== *)
theory Midi_Journal
  imports Net_Bytes Chapter_C Chapter_N
begin

text \<open>
  The recovery journal (\<^verbatim>\<open>midi_journal.c\<close>): a header, and for each of the 16 channels an
  optional channel journal with a header and the chapters P, C and N. The numbers of the bit
  fields are words of their width; the packed forms are in network byte order.
\<close>

unbundle bit_operations_syntax

section \<open>State\<close>

record journal_header =
  jh_bitfield :: byte
  jh_totchan :: byte
  jh_seq :: "16 word"

record channel_header =
  ch_S :: "1 word"
  ch_chan :: "4 word"
  ch_H :: "1 word"
  ch_len :: "10 word"
  ch_bitfield :: byte

record channel =
  cj_header :: "channel_header option"
  cj_chapter_p :: "chapter_p option"
  cj_chapter_n :: "chapter_n option"
  cj_chapter_c :: "chapter_c option"

record journal =
  jn_header :: "journal_header option"
  jn_channels :: "channel option list"

definition MAX_MIDI_CHANNELS :: nat where "MAX_MIDI_CHANNELS = 16"

definition CHAPTER_P :: byte where "CHAPTER_P = 0x80"
definition CHAPTER_C :: byte where "CHAPTER_C = 0x40"
definition CHAPTER_N :: byte where "CHAPTER_N = 0x08"

definition JOURNAL_HEADER_S_FLAG :: byte where "JOURNAL_HEADER_S_FLAG = 0x08"
definition JOURNAL_HEADER_A_FLAG :: byte where "JOURNAL_HEADER_A_FLAG = 0x02"

section \<open>Headers\<close>

definition journal_header_pack :: "alloc \<Rightarrow> journal_header option \<Rightarrow> (bytes option \<times> nat) result" where
  "journal_header_pack A header =
     (case header of None \<Rightarrow> Inr (None, 0)
      | Some h \<Rightarrow>
          if \<not> A (Site ''journal_header_pack:packed'') then Inr (None, 0)
          else
            let b = push_bit 4 (jh_bitfield h AND 0x0f) OR
                    ((if jh_totchan h = 0 then 0 else jh_totchan h - 1) AND 0x0f) in
            bindr (mem_write (replicate 3 0) 0 [b]) (\<lambda>m.
            bindr (put_uint16 LE (Some (m, 1)) (jh_seq h) 1) (\<lambda>(p, sz).
            bindr (deref p) (\<lambda>(m, _). Inr (Some m, sz)))))"

definition journal_header_create :: "alloc \<Rightarrow> journal_header option" where
  "journal_header_create A =
     (if A (Site ''journal_header_create:journal_header'')
      then Some \<lparr>jh_bitfield = JOURNAL_HEADER_S_FLAG, jh_totchan = 0, jh_seq = 0\<rparr> else None)"

definition journal_header_destroy :: "journal_header option option \<Rightarrow> journal_header option option" where
  "journal_header_destroy h = (case h of None \<Rightarrow> None | Some _ \<Rightarrow> Some None)"

definition journal_header_reset :: "journal_header option \<Rightarrow> journal_header option" where
  "journal_header_reset header =
     (case header of None \<Rightarrow> None
      | Some h \<Rightarrow> Some (h\<lparr>jh_bitfield := JOURNAL_HEADER_S_FLAG, jh_totchan := 0, jh_seq := 0\<rparr>))"

definition channel_header_pack :: "alloc \<Rightarrow> channel_header option \<Rightarrow> (bytes option \<times> nat) result" where
  "channel_header_pack A header =
     (case header of None \<Rightarrow> Inr (None, 0)
      | Some h \<Rightarrow>
          if \<not> A (Site ''channel_header_pack:packed'') then Inr (None, 0)
          else
            let temp_header = (push_bit 15 (ucast (ch_S h)) :: 16 word)
                  OR push_bit 11 (ucast (if ch_chan h = 0 then 0 else ch_chan h - 1))
                  OR push_bit 10 (ucast (ch_H h)) OR ucast (ch_len h) in
            bindr (put_uint16 LE (Some (replicate 3 0, 0)) temp_header 0) (\<lambda>(p, sz).
            bindr (deref p) (\<lambda>(m, i).
            bindr (mem_write m i [ch_bitfield h]) (\<lambda>m. Inr (Some m, sz + 1)))))"

definition channel_header_destroy :: "channel_header option option \<Rightarrow> channel_header option option" where
  "channel_header_destroy h = (case h of None \<Rightarrow> None | Some _ \<Rightarrow> Some None)"

definition channel_header_create :: "alloc \<Rightarrow> channel_header option" where
  "channel_header_create A =
     (if A (Site ''channel_header_create:header'')
      then Some \<lparr>ch_S = 1, ch_chan = 0, ch_H = 0, ch_len = 0, ch_bitfield = 0\<rparr> else None)"

definition channel_header_reset :: "channel_header option \<Rightarrow> channel_header option" where
  "channel_header_reset header =
     (case header of None \<Rightarrow> None
      | Some h \<Rightarrow> Some (h\<lparr>ch_chan := 0, ch_S := 1, ch_H := 0, ch_bitfield := 0\<rparr>))"

section \<open>Channel journals\<close>

text \<open>Copying \<open>sz\<close> bytes of a packed chapter behind a pointer that may be NULL.\<close>

definition packed_part :: "bytes option \<Rightarrow> nat \<Rightarrow> bytes result" where
  "packed_part packed sz = (if sz = 0 then Inr [] else bindr (deref packed) (\<lambda>b. mem_read b 0 sz))"

definition channel_pack :: "alloc \<Rightarrow> channel option \<Rightarrow> (bytes option \<times> nat \<times> channel option) result" where
  "channel_pack A channel =
     (case channel of None \<Rightarrow> Inr (None, 0, None)
      | Some c \<Rightarrow>
          bindr (deref (cj_header c)) (\<lambda>h.
          let (packed_p, p_size) = chapter_p_pack A (cj_chapter_p c) (None, 0) in
          bindr (chapter_c_pack A (cj_chapter_c c)) (\<lambda>(packed_c, c_size, chapter_c).
          bindr (chapter_n_pack A (cj_chapter_n c)) (\<lambda>(packed_n, n_size, chapter_n).
          let h = h\<lparr>ch_len := 3 + of_nat p_size + of_nat c_size + of_nat n_size\<rparr>;
              c = c\<lparr>cj_header := Some h, cj_chapter_c := chapter_c, cj_chapter_n := chapter_n\<rparr> in
          bindr (channel_header_pack A (Some h)) (\<lambda>(packed_h, h_size).
          if \<not> A (Site ''channel_pack:packed'') then Inr (None, 0, Some c)
          else
            let m = replicate (h_size + n_size + c_size + p_size) 0 in
            bindr (bindr (packed_part packed_h h_size) (mem_write m 0)) (\<lambda>m.
            bindr (bindr (packed_part packed_p p_size) (mem_write m h_size)) (\<lambda>m.
            bindr (bindr (packed_part packed_c c_size) (mem_write m (h_size + p_size))) (\<lambda>m.
            bindr (bindr (packed_part packed_n n_size) (mem_write m (h_size + p_size + c_size))) (\<lambda>m.
            Inr (Some m, h_size + p_size + c_size + n_size, Some c))))))))))"

definition channel_destroy :: "channel option option \<Rightarrow> channel option option" where
  "channel_destroy channel =
     (case channel of None \<Rightarrow> None | Some None \<Rightarrow> Some None | Some (Some _) \<Rightarrow> Some None)"

text \<open>Without memory for the header, \<^verbatim>\<open>channel_destroy\<close> is called for a channel none of whose pointers has been
  set: it hands what they happen to be to the functions that free.\<close>

definition channel_create :: "alloc \<Rightarrow> channel option result" where
  "channel_create A =
     (if \<not> A (Site ''channel_create:new_channel'') then Inr None
      else case channel_header_create A of None \<Rightarrow> Inl BadFree
        | Some h \<Rightarrow> Inr (Some \<lparr>cj_header = Some h, cj_chapter_p = None, cj_chapter_n = None, cj_chapter_c = None\<rparr>))"

text \<open>Chapter P is not touched here, and no chapter is dropped.\<close>

definition channel_journal_reset :: "channel option \<Rightarrow> channel option result" where
  "channel_journal_reset channel =
     (case channel of None \<Rightarrow> Inr None
      | Some c \<Rightarrow>
          bindr (chapter_n_reset (cj_chapter_n c)) (\<lambda>chapter_n.
          Inr (Some (c\<lparr>cj_chapter_n := chapter_n, cj_chapter_c := chapter_c_reset (cj_chapter_c c),
                       cj_header := channel_header_reset (cj_header c)\<rparr>))))"

section \<open>The journal\<close>

definition journal_init :: "alloc \<Rightarrow> int \<times> journal option" where
  "journal_init A =
     (if \<not> A (Site ''journal_init:journal'') then (-1, None)
      else case journal_header_create A of None \<Rightarrow> (-1, None)
        | Some h \<Rightarrow> (0, Some \<lparr>jn_header = Some h, jn_channels = replicate MAX_MIDI_CHANNELS None\<rparr>))"

definition journal_destroy :: "journal option option \<Rightarrow> journal option option" where
  "journal_destroy journal =
     (case journal of None \<Rightarrow> None | Some None \<Rightarrow> Some None | Some (Some _) \<Rightarrow> Some None)"

definition journal_has_data :: "journal option \<Rightarrow> bool" where
  "journal_has_data journal =
     (case journal of None \<Rightarrow> False
      | Some j \<Rightarrow> (case jn_header j of None \<Rightarrow> False | Some h \<Rightarrow> jh_totchan h > 0))"

text \<open>Packs the channels and appends them to the buffer; None is the jump to the cleanup when the
  buffer cannot grow.\<close>

fun journal_pack_channels ::
    "alloc \<Rightarrow> nat \<Rightarrow> channel option list \<Rightarrow> bytes \<Rightarrow> (bytes option \<times> channel option list) result" where
  "journal_pack_channels A i [] buffer = Inr (Some buffer, [])"
| "journal_pack_channels A i (None # chs) buffer =
     bindr (journal_pack_channels A (Suc i) chs buffer) (\<lambda>(res, chs). Inr (res, None # chs))"
| "journal_pack_channels A i (Some c # chs) buffer =
     bindr (channel_pack (\<lambda>s. A (Iter i s)) (Some c)) (\<lambda>(packed_channel, sz, c).
     if \<not> A (Iter i (Site ''journal_pack:packed_channel_buffer'')) then Inr (None, c # chs)
     else bindr (packed_part packed_channel sz) (\<lambda>xs.
          bindr (journal_pack_channels A (Suc i) chs (buffer @ xs)) (\<lambda>(res, chs). Inr (res, c # chs))))"

definition journal_pack :: "alloc \<Rightarrow> journal option \<Rightarrow> (bytes option \<times> nat \<times> journal option) result" where
  "journal_pack A journal =
     (case journal of None \<Rightarrow> Inr (None, 0, None)
      | Some j \<Rightarrow>
          if \<not> journal_has_data journal then Inr (None, 0, Some j)
          else
            bindr (journal_header_pack A (jn_header j)) (\<lambda>(packed_header, h_size).
            bindr (journal_pack_channels A 0 (jn_channels j) []) (\<lambda>(res, channels).
            let j = j\<lparr>jn_channels := channels\<rparr> in
            case res of
              None \<Rightarrow> Inr (None, 0, Some j)
            | Some buffer \<Rightarrow>
                if \<not> A (Site ''journal_pack:packed'') then Inl NullDeref
                else
                  let m = replicate (h_size + length buffer) 0 in
                  bindr (bindr (packed_part packed_header h_size) (mem_write m 0)) (\<lambda>m.
                  bindr (mem_write m h_size buffer) (\<lambda>m.
                  Inr (Some m, h_size + length buffer, Some j))))))"

fun journal_reset_channels :: "channel option list \<Rightarrow> channel option list result" where
  "journal_reset_channels [] = Inr []"
| "journal_reset_channels (c # chs) =
     bindr (channel_journal_reset c) (\<lambda>c. bindr (journal_reset_channels chs) (\<lambda>chs. Inr (c # chs)))"

definition journal_reset :: "journal option \<Rightarrow> journal option result" where
  "journal_reset journal =
     (case journal of None \<Rightarrow> Inr None
      | Some j \<Rightarrow>
          bindr (journal_reset_channels (jn_channels j)) (\<lambda>channels.
          Inr (Some (j\<lparr>jn_channels := channels, jn_header := journal_header_reset (jn_header j)\<rparr>))))"

text \<open>
  The three functions that record an event share their beginning (the journal's flags, and the
  channel journal, created if it is not there) and the numbering of the channel. \<^verbatim>\<open>chan\<close> has four
  bits and is compared with channel + 1 as an \<^verbatim>\<open>int\<close>.
\<close>

definition journal_open :: "alloc \<Rightarrow> nat \<Rightarrow> journal \<Rightarrow> (channel option \<times> journal) result" where
  "journal_open A k j =
     bindr (deref (jn_header j)) (\<lambda>h.
     let h = h\<lparr>jh_bitfield := jh_bitfield h OR (JOURNAL_HEADER_A_FLAG OR JOURNAL_HEADER_S_FLAG)\<rparr>;
         j = j\<lparr>jn_header := Some h\<rparr> in
     bindr (mem_get (jn_channels j) k) (\<lambda>ch.
     bindr (case ch of None \<Rightarrow> channel_create A | Some c \<Rightarrow> Inr (Some c)) (\<lambda>ch. Inr (ch, j))))"

definition journal_number :: "byte \<Rightarrow> nat \<Rightarrow> 32 word \<Rightarrow> channel_header \<Rightarrow> journal \<Rightarrow>
    (channel_header \<times> journal) result" where
  "journal_number flag k seq ch j =
     (let ch = ch\<lparr>ch_bitfield := ch_bitfield ch OR flag\<rparr> in
      bindr (deref (jn_header j)) (\<lambda>h.
      let (ch, h) = (if unat (ch_chan ch) \<noteq> k + 1
                     then (ch\<lparr>ch_chan := of_nat (k + 1)\<rparr>, h\<lparr>jh_totchan := jh_totchan h + 1\<rparr>)
                     else (ch, h))
      in Inr (ch, j\<lparr>jn_header := Some (h\<lparr>jh_seq := ucast seq\<rparr>)\<rparr>)))"

definition journal_set :: "nat \<Rightarrow> channel \<Rightarrow> journal \<Rightarrow> journal" where
  "journal_set k c j = j\<lparr>jn_channels := (jn_channels j)[k := Some c]\<rparr>"

text \<open>A note switched off sets its bit, with the shift computed in eight bits.\<close>

definition chapter_n_note_off :: "byte \<Rightarrow> chapter_n \<Rightarrow> chapter_n result" where
  "chapter_n_note_off note c =
     bindr (deref (cn_header c)) (\<lambda>h.
     let offset = note div 8;
         shift = note - offset * 8 - 1;
         h = h\<lparr>nh_high := ucast (max offset (ucast (nh_high h)))\<rparr>;
         h = h\<lparr>nh_low := ucast (min offset (ucast (nh_low h)))\<rparr> in
     bindr (deref (cn_offbits c)) (\<lambda>offbits.
     bindr (mem_get offbits (unat offset)) (\<lambda>b.
     if unat shift \<ge> 32 then Inl BadShift
     else Inr (c\<lparr>cn_header := Some h,
                 cn_offbits := Some (offbits[unat offset := b OR push_bit (unat shift) 1])\<rparr>))))"

definition chapter_n_note_on :: "alloc \<Rightarrow> midi_note \<Rightarrow> chapter_n \<Rightarrow> chapter_n result" where
  "chapter_n_note_on A n c =
     (if unat (cn_num_notes c) = MAX_CHAPTER_N_NOTES then Inr c
      else case chapter_n_note_create A of None \<Rightarrow> Inr c
        | Some new_note \<Rightarrow>
            let note_slot = unat (cn_num_notes c);
                new_note = new_note\<lparr>nn_num := ucast (mn_note n), nn_velocity := ucast (mn_velocity n)\<rparr> in
            bindr (mem_write (cn_notes c) note_slot [Some new_note]) (\<lambda>ns.
            Inr (c\<lparr>cn_notes := ns, cn_num_notes := cn_num_notes c + 1\<rparr>)))"

definition midi_journal_add_note ::
    "alloc \<Rightarrow> journal option \<Rightarrow> 32 word \<Rightarrow> midi_note option \<Rightarrow> journal option result" where
  "midi_journal_add_note A journal seq midi_note =
     (case journal of None \<Rightarrow> Inr None
      | Some j \<Rightarrow>
     (case midi_note of None \<Rightarrow> Inr (Some j)
      | Some n \<Rightarrow>
          let k = unat (mn_channel n) in
          if k \<ge> MAX_MIDI_CHANNELS then Inr (Some j)
          else
            bindr (journal_open A k j) (\<lambda>(ch, j).
            case ch of None \<Rightarrow> Inr (Some j)
            | Some c \<Rightarrow>
                let chapter = (case cj_chapter_n c of None \<Rightarrow> chapter_n_create A | Some x \<Rightarrow> Some x) in
                bindr (deref (cj_header c)) (\<lambda>h.
                bindr (deref chapter) (\<lambda>x.
                bindr (deref (cn_header x)) (\<lambda>xh.
                let x = x\<lparr>cn_header := Some (xh\<lparr>nh_B := 1\<rparr>)\<rparr> in
                bindr (journal_number CHAPTER_N k seq h j) (\<lambda>(h, j).
                bindr (if mn_command n = 8 then chapter_n_note_off (mn_note n) x
                       else chapter_n_note_on A n x) (\<lambda>x.
                Inr (Some (journal_set k (c\<lparr>cj_header := Some h, cj_chapter_n := Some x\<rparr>) j)))))))))) "

definition midi_journal_add_control ::
    "alloc \<Rightarrow> journal option \<Rightarrow> 32 word \<Rightarrow> midi_control option \<Rightarrow> journal option result" where
  "midi_journal_add_control A journal seq midi_control =
     (case journal of None \<Rightarrow> Inr None
      | Some j \<Rightarrow>
     (case midi_control of None \<Rightarrow> Inr (Some j)
      | Some n \<Rightarrow>
          let k = unat (mk_channel n); controller = unat (mk_controller_number n) in
          if k \<ge> MAX_MIDI_CHANNELS then Inr (Some j)
          else if controller > MAX_CHAPTER_C_CONTROLLERS - 1 then Inr (Some j)
          else
            bindr (journal_open A k j) (\<lambda>(ch, j).
            case ch of None \<Rightarrow> Inr (Some j)
            | Some c \<Rightarrow>
                let chapter = (case cj_chapter_c c of None \<Rightarrow> chapter_c_create A | Some x \<Rightarrow> Some x) in
                bindr (deref (cj_header c)) (\<lambda>h.
                bindr (journal_number CHAPTER_C k seq h j) (\<lambda>(h, j).
                bindr (deref chapter) (\<lambda>x.
                bindr (mem_get (cc_log x) controller) (\<lambda>l.
                let l = l\<lparr>cl_S := 1, cl_number := of_nat controller, cl_value := mk_controller_value n\<rparr>;
                    x = x\<lparr>cc_log := (cc_log x)[controller := l]\<rparr> in
                Inr (Some (journal_set k (c\<lparr>cj_header := Some h, cj_chapter_c := Some x\<rparr>) j)))))))))"

definition midi_journal_add_program ::
    "alloc \<Rightarrow> journal option \<Rightarrow> 32 word \<Rightarrow> midi_program option \<Rightarrow> journal option result" where
  "midi_journal_add_program A journal seq midi_program =
     (case journal of None \<Rightarrow> Inr None
      | Some j \<Rightarrow>
     (case midi_program of None \<Rightarrow> Inr (Some j)
      | Some n \<Rightarrow>
          let k = unat (mp_channel n) in
          if k \<ge> MAX_MIDI_CHANNELS then Inr (Some j)
          else
            bindr (journal_open A k j) (\<lambda>(ch, j).
            case ch of None \<Rightarrow> Inr (Some j)
            | Some c \<Rightarrow>
                let chapter = (case cj_chapter_p c of None \<Rightarrow> chapter_p_create A | Some x \<Rightarrow> Some x) in
                bindr (deref (cj_header c)) (\<lambda>h.
                bindr (journal_number CHAPTER_P k seq h j) (\<lambda>(h, j).
                bindr (deref chapter) (\<lambda>x.
                let x = x\<lparr>cp_S := 1, cp_B := 0, cp_program := mp_program n, cp_X := 0,
                          cp_bank_msb := 0, cp_bank_lsb := 0\<rparr> in
                Inr (Some (journal_set k (c\<lparr>cj_header := Some h, cj_chapter_p := Some x\<rparr>) j))))))))"

section \<open>Invariant\<close>

definition channel_wf :: "channel \<Rightarrow> bool" where
  "channel_wf c \<longleftrightarrow> cj_header c \<noteq> None \<and>
     (case cj_chapter_n c of None \<Rightarrow> True | Some x \<Rightarrow> chapter_n_wf x) \<and>
     (case cj_chapter_c c of None \<Rightarrow> True | Some x \<Rightarrow> chapter_c_wf x)"

definition journal_wf :: "journal \<Rightarrow> bool" where
  "journal_wf j \<longleftrightarrow> jn_header j \<noteq> None \<and> length (jn_channels j) = MAX_MIDI_CHANNELS \<and>
     (\<forall>c. Some c \<in> set (jn_channels j) \<longrightarrow> channel_wf c)"

lemma journal_init_ok:
  "\<forall>s. A s \<Longrightarrow> \<exists>j. journal_init A = (0, Some j) \<and> journal_wf j \<and> jn_channels j = replicate 16 None \<and>
    (\<exists>h. jn_header j = Some h \<and> jh_totchan h = 0)"
  by (simp add: journal_init_def journal_header_create_def journal_wf_def MAX_MIDI_CHANNELS_def)

text \<open>The header of the channel journal at \<open>k\<close>, and a new one where there is none.\<close>

definition channel_chan :: "journal \<Rightarrow> nat \<Rightarrow> 4 word" where
  "channel_chan j k = (case jn_channels j ! k of None \<Rightarrow> 0
     | Some c \<Rightarrow> (case cj_header c of None \<Rightarrow> 0 | Some h \<Rightarrow> ch_chan h))"

lemma journal_open_ok:
  assumes "journal_wf j" "k < 16" "jn_header j = Some jh"
  shows "\<exists>c h. journal_open mem_ok k j = Inr (Some c,
      j\<lparr>jn_header := Some (jh\<lparr>jh_bitfield := jh_bitfield jh OR 0x0A\<rparr>)\<rparr>) \<and>
    channel_wf c \<and> cj_header c = Some h \<and> ch_chan h = channel_chan j k \<and>
    (case jn_channels j ! k of None \<Rightarrow> cj_chapter_n c = None \<and> cj_chapter_c c = None \<and> cj_chapter_p c = None
     | Some c0 \<Rightarrow> c = c0)"
proof (cases "jn_channels j ! k")
  case None
  with assms show ?thesis
    by (simp add: journal_open_def channel_create_def channel_header_create_def journal_wf_def
        MAX_MIDI_CHANNELS_def channel_wf_def channel_chan_def JOURNAL_HEADER_A_FLAG_def JOURNAL_HEADER_S_FLAG_def)
next
  case (Some c)
  with assms(1,2) have "Some c \<in> set (jn_channels j)"
    by (metis MAX_MIDI_CHANNELS_def journal_wf_def nth_mem)
  with assms(1) have "channel_wf c" by (simp add: journal_wf_def)
  then obtain h where "cj_header c = Some h" by (auto simp: channel_wf_def)
  with Some assms \<open>channel_wf c\<close> show ?thesis
    by (simp add: journal_open_def journal_wf_def MAX_MIDI_CHANNELS_def channel_chan_def
        JOURNAL_HEADER_A_FLAG_def JOURNAL_HEADER_S_FLAG_def)
qed

lemma journal_number_ok:
  assumes "jn_header j = Some jh"
  shows "\<exists>h' jh'. journal_number flag k seq h j = Inr (h', j\<lparr>jn_header := Some jh'\<rparr>) \<and>
    ch_chan h' = (if unat (ch_chan h) \<noteq> k + 1 then of_nat (k + 1) else ch_chan h) \<and>
    ch_bitfield h' = ch_bitfield h OR flag \<and>
    jh_totchan jh' = (if unat (ch_chan h) \<noteq> k + 1 then jh_totchan jh + 1 else jh_totchan jh) \<and>
    jh_seq jh' = ucast seq \<and> jh_bitfield jh' = jh_bitfield jh"
proof (cases "unat (ch_chan h) = k + 1")
  case True
  with assms show ?thesis
    by (intro exI [of _ "jh\<lparr>jh_seq := ucast seq\<rparr>"] exI [of _ "h\<lparr>ch_bitfield := ch_bitfield h OR flag\<rparr>"])
      (simp add: journal_number_def Let_def)
next
  case False
  with assms show ?thesis
    by (intro exI [of _ "jh\<lparr>jh_totchan := jh_totchan jh + 1, jh_seq := ucast seq\<rparr>"]
        exI [of _ "h\<lparr>ch_bitfield := ch_bitfield h OR flag, ch_chan := of_nat (k + 1)\<rparr>"])
      (simp add: journal_number_def Let_def)
qed

text \<open>What each of the three functions does to a well-formed journal, apart from the chapter.\<close>

definition journal_recorded :: "byte \<Rightarrow> nat \<Rightarrow> 32 word \<Rightarrow> channel \<Rightarrow> journal \<Rightarrow> journal \<Rightarrow> bool" where
  "journal_recorded flag k seq c j j' \<longleftrightarrow>
     journal_wf j' \<and> jn_channels j' = (jn_channels j)[k := Some c] \<and>
     (\<exists>h jh jh'. cj_header c = Some h \<and> jn_header j = Some jh \<and> jn_header j' = Some jh' \<and>
        ch_chan h = (if unat (channel_chan j k) \<noteq> k + 1 then of_nat (k + 1) else channel_chan j k) \<and>
        ch_bitfield h AND flag = flag \<and>
        jh_totchan jh' = (if unat (channel_chan j k) \<noteq> k + 1 then jh_totchan jh + 1 else jh_totchan jh) \<and>
        jh_seq jh' = ucast seq)"

lemma or_and_flag: "(a OR flag) AND flag = (flag :: byte)"
  by (rule bit_word_eqI) (auto simp: bit_simps)

text \<open>The three functions as: open the channel journal, number it, change one chapter.\<close>

lemma journal_record:
  assumes wf: "journal_wf j" and k: "k < 16" and jh: "jn_header j = Some jh"
    and step: "\<And>c h j1 h' j2. journal_open mem_ok k j = Inr (Some c, j1) \<Longrightarrow> channel_wf c \<Longrightarrow> cj_header c = Some h \<Longrightarrow>
      (case jn_channels j ! k of None \<Rightarrow> cj_chapter_n c = None \<and> cj_chapter_c c = None \<and> cj_chapter_p c = None
       | Some c0 \<Rightarrow> c = c0) \<Longrightarrow>
      journal_number flag k seq h j1 = Inr (h', j2) \<Longrightarrow>
      \<exists>c'. r = Inr (Some (journal_set k c' j2)) \<and> cj_header c' = Some h' \<and> channel_wf c' \<and> P c c'"
  shows "\<exists>c c' j'. r = Inr (Some j') \<and> journal_recorded flag k seq c' j j' \<and> P c c' \<and>
    (case jn_channels j ! k of None \<Rightarrow> cj_chapter_n c = None \<and> cj_chapter_c c = None \<and> cj_chapter_p c = None
     | Some c0 \<Rightarrow> c = c0)"
proof -
  from journal_open_ok [OF wf k jh] obtain c h where
    o: "journal_open mem_ok k j = Inr (Some c, j\<lparr>jn_header := Some (jh\<lparr>jh_bitfield := jh_bitfield jh OR 0x0A\<rparr>)\<rparr>)"
    and c: "channel_wf c" "cj_header c = Some h" "ch_chan h = channel_chan j k"
    and new: "case jn_channels j ! k of None \<Rightarrow> cj_chapter_n c = None \<and> cj_chapter_c c = None \<and> cj_chapter_p c = None
     | Some c0 \<Rightarrow> c = c0" by blast
  let ?j1 = "j\<lparr>jn_header := Some (jh\<lparr>jh_bitfield := jh_bitfield jh OR 0x0A\<rparr>)\<rparr>"
  from journal_number_ok [of ?j1 _ flag k seq h] obtain h' jh' where
    n: "journal_number flag k seq h ?j1 = Inr (h', ?j1\<lparr>jn_header := Some jh'\<rparr>)"
      "ch_chan h' = (if unat (ch_chan h) \<noteq> k + 1 then of_nat (k + 1) else ch_chan h)"
      "ch_bitfield h' = ch_bitfield h OR flag"
      "jh_totchan jh' = (if unat (ch_chan h) \<noteq> k + 1 then jh_totchan jh + 1 else jh_totchan jh)"
      "jh_seq jh' = ucast seq" by auto
  from step [OF o c(1,2) new n(1)] obtain c' where
    r: "r = Inr (Some (journal_set k c' (?j1\<lparr>jn_header := Some jh'\<rparr>)))" "cj_header c' = Some h'"
      "channel_wf c'" "P c c'" by blast
  have "journal_recorded flag k seq c' j (journal_set k c' (?j1\<lparr>jn_header := Some jh'\<rparr>))"
    using wf r(2,3) n c(3) jh
    by (auto simp: journal_recorded_def journal_set_def journal_wf_def or_and_flag dest!: set_update_subset_insert [THEN subsetD])
  with r new show ?thesis by blast
qed

text \<open>The chapters a channel journal had before: those of the entry, none where there is none.\<close>

definition channel_before :: "journal \<Rightarrow> nat \<Rightarrow> channel \<Rightarrow> bool" where
  "channel_before j k c \<longleftrightarrow>
     (case jn_channels j ! k of
        None \<Rightarrow> cj_chapter_n c = None \<and> cj_chapter_c c = None \<and> cj_chapter_p c = None
      | Some c0 \<Rightarrow> c = c0)"

lemmas journal_record' = journal_record [folded channel_before_def]

lemma chapter_p_overwrite [simp]:
  "x\<lparr>cp_S := a, cp_B := b, cp_program := c, cp_X := d, cp_bank_msb := e, cp_bank_lsb := f\<rparr> =
   \<lparr>cp_S = a, cp_program = c, cp_B = b, cp_bank_msb = e, cp_X = d, cp_bank_lsb = f\<rparr>"
  by (cases x) simp

lemma journal_add_program_ok:
  assumes "journal_wf j"
  shows "\<exists>c c' j'. midi_journal_add_program mem_ok (Some j) seq (Some n) = Inr (Some j') \<and>
    journal_recorded CHAPTER_P (unat (mp_channel n)) seq c' j j' \<and>
    (cj_chapter_p c' = Some \<lparr>cp_S = 1, cp_program = mp_program n, cp_B = 0, cp_bank_msb = 0, cp_X = 0, cp_bank_lsb = 0\<rparr> \<and>
     cj_chapter_n c' = cj_chapter_n c \<and> cj_chapter_c c' = cj_chapter_c c) \<and>
    channel_before j (unat (mp_channel n)) c"
proof -
  from assms(1) obtain jh where jh: "jn_header j = Some jh" by (auto simp: journal_wf_def)
  have k: "unat (mp_channel n) < 16" using unsigned_less [of "mp_channel n", where 'a = nat] by simp
  let ?x = "\<lparr>cp_S = 1, cp_program = mp_program n, cp_B = 0, cp_bank_msb = 0, cp_X = 0, cp_bank_lsb = 0\<rparr>"
  show ?thesis
  proof (rule journal_record' [OF assms(1) k jh])
    fix c h j1 h' j2
    assume "journal_open mem_ok (unat (mp_channel n)) j = Inr (Some c, j1)" "channel_wf c" "cj_header c = Some h"
      "journal_number CHAPTER_P (unat (mp_channel n)) seq h j1 = Inr (h', j2)"
    with k show "\<exists>c'. midi_journal_add_program mem_ok (Some j) seq (Some n) =
        Inr (Some (journal_set (unat (mp_channel n)) c' j2)) \<and>
      cj_header c' = Some h' \<and> channel_wf c' \<and>
      (cj_chapter_p c' = Some ?x \<and> cj_chapter_n c' = cj_chapter_n c \<and> cj_chapter_c c' = cj_chapter_c c)"
      by (intro exI [of _ "c\<lparr>cj_header := Some h', cj_chapter_p := Some ?x\<rparr>"])
        (cases "cj_chapter_p c"; simp add: midi_journal_add_program_def MAX_MIDI_CHANNELS_def channel_wf_def
          chapter_p_create_def chapter_p_zero_def Let_def)
  qed
qed

lemma journal_add_control_ok:
  assumes "journal_wf j" and ctl: "mk_controller_number n < 0x80"
  shows "\<exists>c c' j'. midi_journal_add_control mem_ok (Some j) seq (Some n) = Inr (Some j') \<and>
    journal_recorded CHAPTER_C (unat (mk_channel n)) seq c' j j' \<and>
    (cj_chapter_p c' = cj_chapter_p c \<and> cj_chapter_n c' = cj_chapter_n c \<and>
     (\<exists>x x'. cj_chapter_c c' = Some x' \<and>
        (case cj_chapter_c c of None \<Rightarrow> chapter_c_create mem_ok = Some x | Some y \<Rightarrow> x = y) \<and>
        x' = x\<lparr>cc_log := (cc_log x)[unat (mk_controller_number n) :=
          (cc_log x ! unat (mk_controller_number n))
            \<lparr>cl_S := 1, cl_number := mk_controller_number n, cl_value := mk_controller_value n\<rparr>]\<rparr>)) \<and>
    channel_before j (unat (mk_channel n)) c"
proof -
  from assms(1) obtain jh where jh: "jn_header j = Some jh" by (auto simp: journal_wf_def)
  have k: "unat (mk_channel n) < 16" using unsigned_less [of "mk_channel n", where 'a = nat] by simp
  let ?i = "unat (mk_controller_number n)"
  have i: "?i < 128" using ctl by (simp add: word_less_nat_alt)
  show ?thesis
  proof (rule journal_record' [OF assms(1) k jh])
    fix c h j1 h' j2
    assume c: "journal_open mem_ok (unat (mk_channel n)) j = Inr (Some c, j1)" "channel_wf c" "cj_header c = Some h"
      "journal_number CHAPTER_C (unat (mk_channel n)) seq h j1 = Inr (h', j2)"
    obtain x where x: "case cj_chapter_c c of None \<Rightarrow> chapter_c_create mem_ok = Some x | Some y \<Rightarrow> x = y"
      "chapter_c_wf x"
      using c(2) by (cases "cj_chapter_c c") (auto simp: channel_wf_def chapter_c_create_def chapter_c_wf_def)
    then have ch: "(case cj_chapter_c c of None \<Rightarrow> chapter_c_create mem_ok | Some x \<Rightarrow> Some x) = Some x"
      by (cases "cj_chapter_c c") simp_all
    let ?x = "x\<lparr>cc_log := (cc_log x)[?i := (cc_log x ! ?i)
            \<lparr>cl_S := 1, cl_number := mk_controller_number n, cl_value := mk_controller_value n\<rparr>]\<rparr>"
    let ?c = "c\<lparr>cj_header := Some h', cj_chapter_c := Some ?x\<rparr>"
    have "midi_journal_add_control mem_ok (Some j) seq (Some n) = Inr (Some (journal_set (unat (mk_channel n)) ?c j2))"
      using c k i ch x(2)
      by (simp add: midi_journal_add_control_def MAX_MIDI_CHANNELS_def MAX_CHAPTER_C_CONTROLLERS_def
          chapter_c_wf_def Let_def)
    moreover have "channel_wf ?c" using c(2) x(2) by (simp add: channel_wf_def chapter_c_wf_def)
    ultimately show "\<exists>c'. midi_journal_add_control mem_ok (Some j) seq (Some n) =
        Inr (Some (journal_set (unat (mk_channel n)) c' j2)) \<and> cj_header c' = Some h' \<and> channel_wf c' \<and>
      (cj_chapter_p c' = cj_chapter_p c \<and> cj_chapter_n c' = cj_chapter_n c \<and>
       (\<exists>x x'. cj_chapter_c c' = Some x' \<and>
          (case cj_chapter_c c of None \<Rightarrow> chapter_c_create mem_ok = Some x | Some y \<Rightarrow> x = y) \<and>
          x' = x\<lparr>cc_log := (cc_log x)[?i := (cc_log x ! ?i)
            \<lparr>cl_S := 1, cl_number := mk_controller_number n, cl_value := mk_controller_value n\<rparr>]\<rparr>))"
      using x(1) by (intro exI [of _ ?c]) auto
  qed
qed

text \<open>A note switched on is appended while there is room for it.\<close>

lemma chapter_n_note_on_ok:
  assumes wf: "chapter_n_wf x"
  shows "\<exists>x'. chapter_n_note_on mem_ok n x = Inr x' \<and> chapter_n_wf x' \<and> cn_header x' = cn_header x \<and>
    cn_offbits x' = cn_offbits x \<and>
    chapter_n_played x' = (if length (chapter_n_played x) = 127 then chapter_n_played x
      else chapter_n_played x @ [\<lparr>nn_S = 0, nn_num = ucast (mn_note n), nn_Y = 0, nn_velocity = ucast (mn_velocity n)\<rparr>])"
proof -
  have len: "length (chapter_n_played x) = unat (cn_num_notes x)" by (rule length_chapter_n_played [OF wf])
  from wf obtain h b where hb: "cn_header x = Some h" "cn_offbits x = Some b" "length b = MAX_OFFBITS"
    and ns: "length (cn_notes x) = 127" "unat (cn_num_notes x) \<le> 127"
      "\<forall>i<unat (cn_num_notes x). cn_notes x ! i \<noteq> None"
    by (elim chapter_n_wfE) (simp add: MAX_CHAPTER_N_NOTES_def)
  show ?thesis
  proof (cases "unat (cn_num_notes x) = 127")
    case True
    with wf len show ?thesis by (simp add: chapter_n_note_on_def MAX_CHAPTER_N_NOTES_def)
  next
    case False
    let ?n = "unat (cn_num_notes x)"
    let ?new = "\<lparr>nn_S = 0, nn_num = ucast (mn_note n), nn_Y = 0, nn_velocity = ucast (mn_velocity n)\<rparr> :: chapter_n_note"
    let ?ns = "take ?n (cn_notes x) @ Some ?new # drop (?n + 1) (cn_notes x)"
    let ?x = "x\<lparr>cn_notes := ?ns, cn_num_notes := cn_num_notes x + 1\<rparr>"
    have lt: "?n < 127" using False ns by simp
    then have n1: "unat (cn_num_notes x + 1) = ?n + 1"
      using unat_plus_one_less [of "cn_num_notes x" 127] by simp
    have "chapter_n_note_on mem_ok n x = Inr ?x"
      using False lt ns by (simp add: chapter_n_note_on_def chapter_n_note_create_def MAX_CHAPTER_N_NOTES_def)
    moreover have "chapter_n_wf ?x"
      using hb ns lt n1 by (auto simp: chapter_n_wf_def MAX_CHAPTER_N_NOTES_def nth_append less_Suc_eq)
    moreover have "chapter_n_played ?x = chapter_n_played x @ [?new]"
      using ns lt n1 by (simp add: chapter_n_played_def)
    ultimately show ?thesis using len False by auto
  qed
qed

text \<open>A note switched off: which bit is set, and the notes for which the shift is out of range.\<close>

lemma note_off_position:
  fixes nt :: byte
  assumes "nt < 0x80"
  shows "unat (nt div 8) = unat nt div 8" "unat nt div 8 < 16"
    "unat (nt - (nt div 8) * 8 - 1) = (if unat nt mod 8 = 0 then 255 else unat nt mod 8 - 1)"
proof -
  show "unat (nt div 8) = unat nt div 8" by (simp add: unat_div)
  show "unat nt div 8 < 16" using assms by (simp add: word_less_nat_alt)
  have m: "nt - (nt div 8) * 8 = nt mod 8" by (rule minus_div_mult_eq_mod)
  have u: "unat (nt mod 8) = unat nt mod 8" by (simp add: unat_mod)
  show "unat (nt - (nt div 8) * 8 - 1) = (if unat nt mod 8 = 0 then 255 else unat nt mod 8 - 1)"
  proof (cases "unat nt mod 8 = 0")
    case True
    then have "nt mod 8 = 0" using u by (simp add: word_unat_eq_iff)
    moreover have "unat (- 1 :: byte) = 255" by code_simp
    ultimately show ?thesis using True unfolding m by simp
  next
    case False
    then have "nt mod 8 \<noteq> 0" using u by (metis unat_0)
    then have "unat (nt mod 8 - 1) = unat nt mod 8 - 1" unfolding u [symmetric] by (rule unat_minus_one)
    with False show ?thesis unfolding m by simp
  qed
qed

lemma chapter_n_note_off_fault:
  assumes "chapter_n_wf x" "nt < 0x80" "unat nt mod 8 = 0"
  shows "chapter_n_note_off nt x = Inl BadShift"
  using assms(1)
proof (rule chapter_n_wfE)
  fix h b assume "cn_header x = Some h" "cn_offbits x = Some b" "length b = MAX_OFFBITS"
  with note_off_position [OF assms(2)] assms(3) show ?thesis
    by (simp add: chapter_n_note_off_def Let_def MAX_OFFBITS_def)
qed

lemma chapter_n_note_off_ok:
  assumes "chapter_n_wf x" "nt < 0x80" "unat nt mod 8 \<noteq> 0"
  shows "\<exists>x'. chapter_n_note_off nt x = Inr x' \<and> chapter_n_wf x' \<and> chapter_n_played x' = chapter_n_played x \<and>
    (\<forall>b. cn_offbits x = Some b \<longrightarrow> cn_offbits x' = Some (b[unat nt div 8 :=
        b ! (unat nt div 8) OR push_bit (unat nt mod 8 - 1) 1])) \<and>
    (\<forall>h. cn_header x = Some h \<longrightarrow> (\<exists>h'. cn_header x' = Some h' \<and>
        unat (nh_high h') = max (unat nt div 8) (unat (nh_high h)) \<and>
        unat (nh_low h') = min (unat nt div 8) (unat (nh_low h))))"
  using assms(1)
proof (rule chapter_n_wfE)
  note pos = note_off_position [OF assms(2)]
  fix h b assume x: "cn_header x = Some h" "cn_offbits x = Some b" "length b = MAX_OFFBITS"
  have hi: "unat (nh_high h) < 16" using unsigned_less [of "nh_high h", where 'a = nat] by simp
  have lo: "unat (nh_low h) < 16" using unsigned_less [of "nh_low h", where 'a = nat] by simp
  have cast: "unat (ucast (w :: byte) :: 4 word) = unat w" if "unat w < 16" for w
    using that by (simp add: unsigned_ucast_eq take_bit_nat_eq_self)
  have up: "unat (ucast (w :: 4 word) :: byte) = unat w" for w
    using unsigned_less [of w, where 'a = nat] by (simp add: unsigned_ucast_eq take_bit_nat_eq_self)
  have mx: "unat (max v w) = max (unat v) (unat w)" "unat (min v w) = min (unat v) (unat w)" for v w :: byte
    by (auto simp: max_def min_def word_le_nat_alt)
  let ?h = "h\<lparr>nh_high := ucast (max (nt div 8) (ucast (nh_high h))),
    nh_low := ucast (min (nt div 8) (ucast (nh_low h)))\<rparr>"
  have h: "unat (nh_high ?h) = max (unat nt div 8) (unat (nh_high h))"
    "unat (nh_low ?h) = min (unat nt div 8) (unat (nh_low h))"
    using pos hi lo by (simp_all add: cast mx up)
  let ?x = "x\<lparr>cn_header := Some ?h, cn_offbits := Some (b[unat nt div 8 :=
        b ! (unat nt div 8) OR push_bit (unat nt mod 8 - 1) 1])\<rparr>"
  have "chapter_n_note_off nt x = Inr ?x"
    using x pos assms(3) by (simp add: chapter_n_note_off_def Let_def MAX_OFFBITS_def)
  moreover have "chapter_n_wf ?x" using assms(1) x by (simp add: chapter_n_wf_def)
  moreover have "chapter_n_played ?x = chapter_n_played x" by (simp add: chapter_n_played_def)
  ultimately show ?thesis using x h by auto
qed

end
