(* ===== verification/Journal_Pack.thy ===== *)
theory Journal_Pack
  imports Midi_Journal
begin

text \<open>
  The packed recovery journal: the bytes \<open>channel_pack\<close> and \<open>journal_pack\<close> yield for a
  well-formed journal, what a receiver reads from the header fields, and the chapters a reset
  leaves behind.
\<close>

unbundle bit_operations_syntax

definition chapter_p_bytes :: "chapter_p \<Rightarrow> bytes" where
  "chapter_p_bytes c =
     [push_bit 7 (cp_S c AND 0x01) OR (cp_program c AND 0x7f),
      push_bit 7 (cp_B c AND 0x01) OR (cp_bank_msb c AND 0x7f),
      push_bit 7 (cp_X c AND 0x01) OR (cp_bank_lsb c AND 0x7f)]"

definition p_part :: "channel \<Rightarrow> bytes" where
  "p_part c = (case cj_chapter_p c of None \<Rightarrow> [] | Some x \<Rightarrow> chapter_p_bytes x)"

definition c_part :: "channel \<Rightarrow> bytes" where
  "c_part c = (case cj_chapter_c c of None \<Rightarrow> []
     | Some x \<Rightarrow> if active_logs 0 (cc_log x) = [] then [] else chapter_c_bytes x)"

definition n_part :: "channel \<Rightarrow> bytes" where
  "n_part c = (case cj_chapter_n c of None \<Rightarrow> [] | Some x \<Rightarrow> chapter_n_bytes x)"

definition channel_header_word :: "channel_header \<Rightarrow> 16 word" where
  "channel_header_word h =
     push_bit 15 (ucast (ch_S h)) OR push_bit 11 (ucast (if ch_chan h = 0 then 0 else ch_chan h - 1))
     OR push_bit 10 (ucast (ch_H h)) OR ucast (ch_len h)"

definition channel_bytes :: "channel \<Rightarrow> bytes" where
  "channel_bytes c =
     (let h = the (cj_header c); body = p_part c @ c_part c @ n_part c in
      be_bytes 2 (channel_header_word (h\<lparr>ch_len := of_nat (3 + length body)\<rparr>)) @ [ch_bitfield h] @ body)"

lemma length_parts:
  assumes "channel_wf c"
  shows "length (p_part c) \<le> 3" "length (c_part c) \<le> 257" "length (n_part c) \<le> 272"
proof -
  show "length (p_part c) \<le> 3" by (simp add: p_part_def chapter_p_bytes_def split: option.split)
  show "length (c_part c) \<le> 257"
    using assms length_chapter_c_bytes active_logs_le
    by (fastforce simp: c_part_def channel_wf_def split: option.splits)
  show "length (n_part c) \<le> 272"
    using assms length_chapter_n_bytes
    by (fastforce simp: n_part_def channel_wf_def split: option.splits)
qed

lemma p_part_packed:
  "chapter_p_pack mem_ok (cj_chapter_p c) (None, 0) =
     (if cj_chapter_p c = None then None else Some (p_part c), length (p_part c))"
  by (cases "cj_chapter_p c") (simp_all add: chapter_p_pack_def p_part_def chapter_p_bytes_def)

lemma c_part_packed:
  assumes "channel_wf c"
  shows "\<exists>x. chapter_c_pack mem_ok (cj_chapter_c c) =
      Inr (if c_part c = [] then None else Some (c_part c), length (c_part c), x) \<and>
    (case x of None \<Rightarrow> cj_chapter_c c = None | Some y \<Rightarrow> chapter_c_wf y \<and> cj_chapter_c c \<noteq> None)"
proof (cases "cj_chapter_c c")
  case None
  then show ?thesis by (simp add: chapter_c_pack_def c_part_def)
next
  case (Some x)
  with assms have wf: "chapter_c_wf x" by (simp add: channel_wf_def)
  from chapter_c_pack_ok [OF wf, of mem_ok] obtain x' where
    "chapter_c_pack mem_ok (Some x) = Inr (if active_logs 0 (cc_log x) = [] then (None, 0, Some x')
       else (Some (chapter_c_bytes x), length (chapter_c_bytes x), Some x'))" "cc_log x' = cc_log x" by auto
  with Some wf show ?thesis
    by (auto simp: c_part_def chapter_c_wf_def chapter_c_bytes_def Let_def)
qed

lemma n_part_packed:
  assumes "channel_wf c"
  shows "\<exists>x. chapter_n_pack mem_ok (cj_chapter_n c) =
      Inr (if cj_chapter_n c = None then None else Some (n_part c), length (n_part c), x) \<and>
    (case x of None \<Rightarrow> cj_chapter_n c = None | Some y \<Rightarrow> chapter_n_wf y \<and> cj_chapter_n c \<noteq> None)"
proof (cases "cj_chapter_n c")
  case None
  then show ?thesis by (simp add: chapter_n_pack_def n_part_def)
next
  case (Some x)
  with assms have wf: "chapter_n_wf x" by (simp add: channel_wf_def)
  then obtain h where h: "cn_header x = Some h" by (elim chapter_n_wfE)
  have "chapter_n_wf (x\<lparr>cn_header := Some (h\<lparr>nh_len := ucast (cn_num_notes x)\<rparr>)\<rparr>)"
    using wf by (simp add: chapter_n_wf_def)
  with chapter_n_pack_ok [OF wf _ h, of mem_ok] Some show ?thesis by (simp add: n_part_def)
qed

lemma packed_part_ok [simp]: "packed_part (Some b) (length b) = Inr b" "packed_part p 0 = Inr []"
  by (simp_all add: packed_part_def)

lemma packed_part_if: "packed_part (if b = [] then None else Some b) (length b) = Inr b"
  "(q \<Longrightarrow> b = []) \<Longrightarrow> packed_part (if q then None else Some b) (length b) = Inr b"
  by auto

lemma channel_header_pack_ok:
  "channel_header_pack mem_ok (Some h) = Inr (Some (be_bytes 2 (channel_header_word h) @ [ch_bitfield h]), 3)"
  by (simp add: channel_header_pack_def channel_header_word_def)

lemma channel_pack_ok:
  assumes wf: "channel_wf c"
  shows "\<exists>c'. channel_pack mem_ok (Some c) = Inr (Some (channel_bytes c), length (channel_bytes c), Some c') \<and>
    channel_wf c'"
proof -
  from wf obtain h where h: "cj_header c = Some h" by (auto simp: channel_wf_def)
  from c_part_packed [OF wf] obtain xc where
    xc: "chapter_c_pack mem_ok (cj_chapter_c c) = Inr (if c_part c = [] then None else Some (c_part c), length (c_part c), xc)"
    "case xc of None \<Rightarrow> cj_chapter_c c = None | Some y \<Rightarrow> chapter_c_wf y \<and> cj_chapter_c c \<noteq> None" by blast
  from n_part_packed [OF wf] obtain xn where
    xn: "chapter_n_pack mem_ok (cj_chapter_n c) = Inr (if cj_chapter_n c = None then None else Some (n_part c), length (n_part c), xn)"
    "case xn of None \<Rightarrow> cj_chapter_n c = None | Some y \<Rightarrow> chapter_n_wf y \<and> cj_chapter_n c \<noteq> None" by blast
  let ?body = "p_part c @ c_part c @ n_part c"
  define h' where "h' = h\<lparr>ch_len := of_nat (3 + length ?body)\<rparr>"
  define hb where "hb = be_bytes 2 (channel_header_word h') @ [ch_bitfield h]"
  let ?c = "c\<lparr>cj_header := Some h', cj_chapter_c := xc, cj_chapter_n := xn\<rparr>"
  have len: "h\<lparr>ch_len := 3 + of_nat (length (p_part c)) + of_nat (length (c_part c)) + of_nat (length (n_part c))\<rparr> = h'"
    by (simp add: algebra_simps h'_def)
  have hp: "channel_header_pack mem_ok (Some h') = Inr (Some hb, length hb)"
    by (simp add: channel_header_pack_ok hb_def h'_def)
  have bytes: "channel_bytes c = hb @ p_part c @ c_part c @ n_part c"
    using h by (simp only: channel_bytes_def Let_def option.sel h'_def [symmetric] hb_def append_assoc)
  have size: "length hb + length (p_part c) + length (c_part c) + length (n_part c) = length (channel_bytes c)"
    by (simp add: bytes)
  have parts: "packed_part (if cj_chapter_p c = None then None else Some (p_part c)) (length (p_part c)) = Inr (p_part c)"
    "packed_part (if cj_chapter_n c = None then None else Some (n_part c)) (length (n_part c)) = Inr (n_part c)"
    by (rule packed_part_if(2), simp add: p_part_def n_part_def)+
  have copy: "bindr (mem_write (replicate (length hb + length n + length k + length p) 0) 0 hb) (\<lambda>m.
      bindr (mem_write m (length hb) p) (\<lambda>m.
      bindr (mem_write m (length hb + length p) k) (\<lambda>m.
      bindr (mem_write m (length hb + length p + length k) n) f))) = f (hb @ p @ k @ n)"
    for p k n :: bytes and f :: "bytes \<Rightarrow> (bytes option \<times> nat \<times> channel option) result" by simp
  have "channel_pack mem_ok (Some c) = Inr (Some (channel_bytes c), length (channel_bytes c), Some ?c)"
    using h xc(1) xn(1) parts packed_part_if(1) [of "c_part c"]
    by (simp add: channel_pack_def p_part_packed len hp copy size Let_def del: mem_write_ok) (simp add: bytes)
  moreover have "channel_wf ?c"
    using xc(2) xn(2) by (auto simp: channel_wf_def split: option.splits)
  ultimately show ?thesis by blast
qed

lemma length_channel_bytes: "length (channel_bytes c) = 3 + length (p_part c @ c_part c @ n_part c)"
  by (simp add: channel_bytes_def Let_def)

lemma channel_header_word_fields:
  "ucast (channel_header_word h AND 0x03ff) = ch_len h"
  "ucast (drop_bit 11 (channel_header_word h) AND 0x0f) = (if ch_chan h = 0 then 0 else ch_chan h - 1)"
proof -
  have m: "0x03ff = (mask 10 :: 16 word)" "0x0f = (mask 4 :: 16 word)" by (simp_all add: mask_numeral)
  show "ucast (channel_header_word h AND 0x03ff) = ch_len h"
    unfolding m channel_header_word_def by (rule bit_word_eqI) (auto simp: bit_simps)
  show "ucast (drop_bit 11 (channel_header_word h) AND 0x0f) = (if ch_chan h = 0 then 0 else ch_chan h - 1)"
    unfolding m channel_header_word_def by (rule bit_word_eqI) (auto simp: bit_simps dest: bit_imp_le_length)
qed

section \<open>The whole journal\<close>

definition journal_header_bytes :: "journal_header \<Rightarrow> bytes" where
  "journal_header_bytes h =
     (push_bit 4 (jh_bitfield h AND 0x0f) OR ((if jh_totchan h = 0 then 0 else jh_totchan h - 1) AND 0x0f))
     # be_bytes 2 (jh_seq h)"

definition channels_bytes :: "channel option list \<Rightarrow> bytes" where
  "channels_bytes chs = concat (map (\<lambda>c. case c of None \<Rightarrow> [] | Some c \<Rightarrow> channel_bytes c) chs)"

lemma channels_bytes_simps [simp]:
  "channels_bytes [] = []" "channels_bytes (None # chs) = channels_bytes chs"
  "channels_bytes (Some c # chs) = channel_bytes c @ channels_bytes chs"
  by (simp_all add: channels_bytes_def)

lemma journal_header_pack_ok:
  "journal_header_pack mem_ok (Some h) = Inr (Some (journal_header_bytes h), 3)"
  by (simp add: journal_header_pack_def journal_header_bytes_def Let_def numeral_3_eq_3)

lemma journal_pack_channels_ok:
  assumes "\<forall>c. Some c \<in> set chs \<longrightarrow> channel_wf c"
  shows "\<exists>chs'. journal_pack_channels mem_ok i chs buffer = Inr (Some (buffer @ channels_bytes chs), chs') \<and>
    length chs' = length chs \<and> (\<forall>c. Some c \<in> set chs' \<longrightarrow> channel_wf c)"
  using assms
proof (induction mem_ok i chs buffer rule: journal_pack_channels.induct)
  case (1 i buffer)
  then show ?case by simp
next
  case (2 i chs buffer)
  then obtain chs' where "journal_pack_channels mem_ok (Suc i) chs buffer = Inr (Some (buffer @ channels_bytes chs), chs')"
    "length chs' = length chs" "\<forall>c. Some c \<in> set chs' \<longrightarrow> channel_wf c" by auto
  then show ?case by simp
next
  case (3 i c chs buffer)
  then have wf: "channel_wf c" by simp
  from channel_pack_ok [OF this] obtain c' where
    c': "channel_pack mem_ok (Some c) = Inr (Some (channel_bytes c), length (channel_bytes c), Some c')" "channel_wf c'"
    by blast
  have "\<exists>chs'. journal_pack_channels mem_ok (Suc i) chs (buffer @ channel_bytes c) =
      Inr (Some ((buffer @ channel_bytes c) @ channels_bytes chs), chs') \<and>
    length chs' = length chs \<and> (\<forall>c. Some c \<in> set chs' \<longrightarrow> channel_wf c)"
    using 3 c' by (intro "3.hyps" [OF c'(1) refl refl]) auto
  with c' show ?case by auto
qed

lemma journal_pack_ok:
  assumes wf: "journal_wf j" and h: "jn_header j = Some h" and data: "0 < jh_totchan h"
  shows "\<exists>j'. journal_pack mem_ok (Some j) =
      Inr (Some (journal_header_bytes h @ channels_bytes (jn_channels j)),
           3 + length (channels_bytes (jn_channels j)), Some j') \<and> journal_wf j' \<and> jn_header j' = Some h"
proof -
  from wf have "\<forall>c. Some c \<in> set (jn_channels j) \<longrightarrow> channel_wf c" by (simp add: journal_wf_def)
  from journal_pack_channels_ok [OF this, of 0 "[]"] obtain chs where
    chs: "journal_pack_channels mem_ok 0 (jn_channels j) [] = Inr (Some (channels_bytes (jn_channels j)), chs)"
    "length chs = length (jn_channels j)" "\<forall>c. Some c \<in> set chs \<longrightarrow> channel_wf c" by auto
  have "length (journal_header_bytes h) = 3" by (simp add: journal_header_bytes_def)
  moreover from this have "packed_part (Some (journal_header_bytes h)) 3 = Inr (journal_header_bytes h)"
    using packed_part_ok(1) [of "journal_header_bytes h"] by simp
  ultimately show ?thesis
    using chs h data wf journal_header_pack_ok [of h]
    by (simp add: journal_pack_def journal_has_data_def journal_wf_def)
qed

lemma journal_pack_no_data:
  "\<not> journal_has_data (Some j) \<Longrightarrow> journal_pack A (Some j) = Inr (None, 0, Some j)"
  by (simp add: journal_pack_def)

section \<open>Properties\<close>

text \<open>A packed channel journal is its header and then the chapters P, C and N; the header's
  10-bit length field, as a receiver reads it, is the number of bytes (it cannot overflow), and
  its channel field is \<^verbatim>\<open>chan\<close> less one, or 0.\<close>
theorem channel_pack_header:
  assumes "channel_wf c" "cj_header c = Some h"
  shows "\<exists>b c'. channel_pack mem_ok (Some c) = Inr (Some b, length b, Some c') \<and>
    unat ((be_word (take 2 b) :: 16 word) AND 0x03ff) = length b \<and>
    (ucast (drop_bit 11 (be_word (take 2 b) :: 16 word) AND 0x0f) :: 4 word) = (if ch_chan h = 0 then 0 else ch_chan h - 1) \<and>
    b ! 2 = ch_bitfield h \<and> drop 3 b = p_part c @ c_part c @ n_part c"
proof -
  let ?len = "3 + length (p_part c @ c_part c @ n_part c)"
  let ?h = "h\<lparr>ch_len := of_nat ?len\<rparr>"
  have b: "channel_bytes c = be_bytes 2 (channel_header_word ?h) @ ch_bitfield h # p_part c @ c_part c @ n_part c"
    using assms(2) by (simp only: channel_bytes_def Let_def option.sel append_assoc append.simps)
  have w: "be_word (take 2 (channel_bytes c)) = channel_header_word ?h"
    unfolding b by simp
  have "length (channel_bytes c) < 1024"
    using length_parts [OF assms(1)] length_channel_bytes [of c] by simp
  then have "unat (of_nat ?len :: 10 word) = length (channel_bytes c)"
    unfolding length_channel_bytes by (intro unat_of_nat_less) simp
  moreover have "unat (channel_header_word ?h AND 0x03ff) = unat (ch_len ?h)"
  proof -
    have m: "0x03ff = (mask 10 :: 16 word)" by (simp add: mask_numeral)
    have lt: "unat (channel_header_word ?h AND 0x03ff) < 2 ^ 10"
      unfolding m take_bit_eq_mask [symmetric] unsigned_take_bit_eq
      by (rule take_bit_nat_less_exp)
    have "unat (ch_len ?h) = unat (ucast (channel_header_word ?h AND 0x03ff) :: 10 word)"
      by (simp only: channel_header_word_fields(1))
    also have "\<dots> = unat (channel_header_word ?h AND 0x03ff)"
      using lt by (simp add: unsigned_ucast_eq take_bit_nat_eq_self)
    finally show ?thesis by simp
  qed
  moreover have "drop 3 (channel_bytes c) = p_part c @ c_part c @ n_part c" "channel_bytes c ! 2 = ch_bitfield h"
    unfolding b by (simp_all add: nth_append)
  ultimately show ?thesis
    using channel_pack_ok [OF assms(1)] channel_header_word_fields(2) [of ?h] w by auto
qed

definition channel_example :: channel where
  "channel_example =
     \<lparr>cj_header = Some \<lparr>ch_S = 1, ch_chan = 4, ch_H = 0, ch_len = 0, ch_bitfield = 0x88\<rparr>,
      cj_chapter_p = Some \<lparr>cp_S = 1, cp_program = 5, cp_B = 0, cp_bank_msb = 0, cp_X = 0, cp_bank_lsb = 0\<rparr>,
      cj_chapter_n = Some chapter_n_example, cj_chapter_c = None\<rparr>"

lemma channel_example_wf: "channel_wf channel_example"
  by (simp add: channel_wf_def channel_example_def chapter_n_wf_def chapter_n_example_def
      MAX_CHAPTER_N_NOTES_def MAX_OFFBITS_def)

theorem channel_pack_header_witness:
  "\<exists>b c'. channel_pack mem_ok (Some channel_example) = Inr (Some b, length b, Some c') \<and>
    (ucast (drop_bit 11 (be_word (take 2 b) :: 16 word) AND 0x0f) :: 4 word) = 3 \<and> b ! 2 = 0x88"
  using channel_pack_header [OF channel_example_wf, of "\<lparr>ch_S = 1, ch_chan = 4, ch_H = 0, ch_len = 0, ch_bitfield = 0x88\<rparr>"]
  by (auto simp: channel_example_def)

text \<open>A journal without data packs to nothing. One with data packs without a fault to a three
  byte header (flags, number of channels less one, sequence number in network order) and then
  the channel journals that exist, in the order of the channels; the size is the number of
  bytes and the journal stays well-formed.\<close>
theorem journal_pack_bytes:
  assumes "journal_wf j" "jn_header j = Some h"
  shows "if jh_totchan h = 0 then journal_pack mem_ok (Some j) = Inr (None, 0, Some j)
    else \<exists>b j'. journal_pack mem_ok (Some j) = Inr (Some b, length b, Some j') \<and> journal_wf j' \<and>
      b ! 0 = push_bit 4 (jh_bitfield h AND 0x0f) OR ((jh_totchan h - 1) AND 0x0f) \<and>
      be_word (take 2 (drop 1 b)) = jh_seq h \<and>
      drop 3 b = concat (map channel_bytes (map the (filter (\<lambda>c. c \<noteq> None) (jn_channels j))))"
proof (cases "jh_totchan h = 0")
  case True
  with assms(2) show ?thesis by (simp add: journal_pack_no_data journal_has_data_def)
next
  case False
  have "channels_bytes chs = concat (map channel_bytes (map the (filter (\<lambda>c. c \<noteq> None) chs)))" for chs
  proof (induction chs)
    case (Cons c chs)
    then show ?case by (cases c) simp_all
  qed simp
  with journal_pack_ok [OF assms] False show ?thesis
    by (auto simp: journal_header_bytes_def word_gt_0 drop_append)
qed

definition journal_example :: journal where
  "journal_example =
     \<lparr>jn_header = Some \<lparr>jh_bitfield = 0x0A, jh_totchan = 1, jh_seq = 258\<rparr>,
      jn_channels = replicate 3 None @ Some channel_example # replicate 12 None\<rparr>"

theorem journal_pack_bytes_witness:
  "\<exists>b j'. journal_pack mem_ok (Some journal_example) = Inr (Some b, length b, Some j') \<and> b ! 0 = 0xA0 \<and>
    drop 3 b = channel_bytes channel_example"
proof -
  have "journal_wf journal_example"
    using channel_example_wf by (auto simp: journal_wf_def journal_example_def MAX_MIDI_CHANNELS_def)
  from journal_pack_bytes [OF this, of "\<lparr>jh_bitfield = 0x0A, jh_totchan = 1, jh_seq = 258\<rparr>"] show ?thesis
    by (auto simp: journal_example_def)
qed

text \<open>Resetting a channel journal clears its header's chapter flags but drops no chapter: the
  program chapter stays as it was, and a chapter N still packs to three bytes, so what is
  packed next has chapters that its flags deny.\<close>
theorem channel_reset_keeps_chapters:
  assumes "channel_wf c" "cj_chapter_n c \<noteq> None"
  shows "\<exists>c' h b c''. channel_journal_reset (Some c) = Inr (Some c') \<and> cj_header c' = Some h \<and> ch_bitfield h = 0 \<and>
    cj_chapter_p c' = cj_chapter_p c \<and> length (n_part c') = 3 \<and>
    channel_pack mem_ok (Some c') = Inr (Some b, length b, Some c'') \<and> b ! 2 = 0 \<and>
    drop 3 b = p_part c @ n_part c'"
proof -
  from assms(2) obtain x where x: "cj_chapter_n c = Some x" by blast
  with assms(1) have wf: "chapter_n_wf x" by (simp add: channel_wf_def)
  from chapter_n_reset_ok [OF wf] obtain x' hx where
    x': "chapter_n_reset (Some x) = Inr (Some x')" "chapter_n_wf x'" "chapter_n_played x' = []"
      "cn_offbits x' = Some (replicate MAX_OFFBITS 0)" "cn_header x' = Some hx" "nh_low hx = 0" "nh_high hx = 0"
    by blast
  from assms(1) obtain h0 where h0: "cj_header c = Some h0" by (auto simp: channel_wf_def)
  let ?h = "h0\<lparr>ch_chan := 0, ch_S := 1, ch_H := 0, ch_bitfield := 0\<rparr>"
  let ?c = "c\<lparr>cj_chapter_n := Some x', cj_chapter_c := chapter_c_reset (cj_chapter_c c), cj_header := Some ?h\<rparr>"
  have r: "channel_journal_reset (Some c) = Inr (Some ?c)"
    using x x'(1) h0 by (simp add: channel_journal_reset_def channel_header_reset_def)
  have cr: "chapter_c_reset (cj_chapter_c c) = Some y \<Longrightarrow> chapter_c_wf y \<and> active_logs 0 (cc_log y) = []" for y
    by (cases "cj_chapter_c c")
      (auto simp: chapter_c_reset_def chapter_c_wf_def MAX_CHAPTER_C_CONTROLLERS_def active_logs_none)
  have wf': "channel_wf ?c"
    using x'(2) cr by (auto simp: channel_wf_def split: option.splits)
  have parts: "p_part ?c = p_part c" "c_part ?c = []" "length (n_part ?c) = 3"
    using cr x' by (auto simp: p_part_def c_part_def n_part_def chapter_n_bytes_def Let_def MAX_OFFBITS_def
        split: option.split)
  from channel_pack_ok [OF wf'] obtain c'' where
    "channel_pack mem_ok (Some ?c) = Inr (Some (channel_bytes ?c), length (channel_bytes ?c), Some c'')" by blast
  moreover have "channel_bytes ?c ! 2 = 0" "drop 3 (channel_bytes ?c) = p_part c @ n_part ?c"
    using parts by (simp_all add: channel_bytes_def Let_def nth_append)
  ultimately show ?thesis using r parts
    by (intro exI [of _ ?c] exI [of _ ?h] exI [of _ "channel_bytes ?c"] exI [of _ c'']) simp
qed

theorem channel_reset_keeps_chapters_witness:
  "\<exists>c' b c''. channel_journal_reset (Some channel_example) = Inr (Some c') \<and>
    channel_pack mem_ok (Some c') = Inr (Some b, length b, Some c'') \<and> b ! 2 = 0 \<and> length (drop 3 b) = 6"
  using channel_reset_keeps_chapters [OF channel_example_wf]
  by (fastforce simp: channel_example_def p_part_def chapter_p_bytes_def)

end
