(* ===== verification/Journal_Events.thy ===== *)
theory Journal_Events
  imports Midi_Journal
begin

text \<open>
  Sequences of events recorded in a journal: what each does to the channel journals, the
  number of channels in the header, and the channel that does not fit its four bits.
\<close>

unbundle bit_operations_syntax

text \<open>The chapter N an event finds: that of the channel journal, or a new one.\<close>

definition chapter_n_before :: "channel \<Rightarrow> chapter_n \<Rightarrow> bool" where
  "chapter_n_before c x \<longleftrightarrow>
     (case cj_chapter_n c of None \<Rightarrow> chapter_n_create mem_ok = Some x | Some y \<Rightarrow> x = y)"

lemma chapter_n_before_ex:
  assumes "channel_wf c"
  obtains x where "chapter_n_before c x" "chapter_n_wf x"
    "(case cj_chapter_n c of None \<Rightarrow> chapter_n_create mem_ok | Some y \<Rightarrow> Some y) = Some x"
proof (cases "cj_chapter_n c")
  case None
  obtain x where "chapter_n_create mem_ok = Some x" "chapter_n_wf x"
    using chapter_n_create_wf [of mem_ok] by auto
  with None that show ?thesis by (simp add: chapter_n_before_def)
next
  case (Some x)
  with assms that show ?thesis by (simp add: chapter_n_before_def channel_wf_def)
qed

text \<open>The body of \<^verbatim>\<open>midi_journal_add_note\<close> once the channel journal is open.\<close>

lemma add_note_body:
  assumes "journal_open mem_ok (unat (mn_channel n)) j = Inr (Some c, j1)" "channel_wf c" "cj_header c = Some h"
    and "journal_number CHAPTER_N (unat (mn_channel n)) seq h j1 = Inr (h', j2)"
    and x: "chapter_n_before c x" "cn_header x = Some xh"
  shows "midi_journal_add_note mem_ok (Some j) seq (Some n) =
    bindr (if mn_command n = 8 then chapter_n_note_off (mn_note n) (x\<lparr>cn_header := Some (xh\<lparr>nh_B := 1\<rparr>)\<rparr>)
           else chapter_n_note_on mem_ok n (x\<lparr>cn_header := Some (xh\<lparr>nh_B := 1\<rparr>)\<rparr>)) (\<lambda>x.
    Inr (Some (journal_set (unat (mn_channel n)) (c\<lparr>cj_header := Some h', cj_chapter_n := Some x\<rparr>) j2)))"
proof -
  have k: "\<not> MAX_MIDI_CHANNELS \<le> unat (mn_channel n)"
    using unsigned_less [of "mn_channel n", where 'a = nat] by (simp add: MAX_MIDI_CHANNELS_def)
  have "(case cj_chapter_n c of None \<Rightarrow> chapter_n_create mem_ok | Some y \<Rightarrow> Some y) = Some x"
    using x(1) by (cases "cj_chapter_n c") (simp_all add: chapter_n_before_def)
  with assms k show ?thesis
    by (simp add: midi_journal_add_note_def Let_def)
qed

definition note_fits :: "midi_note \<Rightarrow> bool" where
  "note_fits n \<longleftrightarrow> mn_note n < 0x80 \<and> (mn_command n = 8 \<longrightarrow> unat (mn_note n) mod 8 \<noteq> 0)"

text \<open>The chapter N after an event on it.\<close>

definition chapter_n_after :: "midi_note \<Rightarrow> chapter_n \<Rightarrow> chapter_n \<Rightarrow> bool" where
  "chapter_n_after n x x' \<longleftrightarrow>
     (if mn_command n = 8 then
        chapter_n_played x' = chapter_n_played x \<and>
        (\<forall>b. cn_offbits x = Some b \<longrightarrow> cn_offbits x' = Some (b[unat (mn_note n) div 8 :=
           b ! (unat (mn_note n) div 8) OR push_bit (unat (mn_note n) mod 8 - 1) 1]))
      else
        cn_offbits x' = cn_offbits x \<and>
        chapter_n_played x' = (if length (chapter_n_played x) = 127 then chapter_n_played x
          else chapter_n_played x @
            [\<lparr>nn_S = 0, nn_num = ucast (mn_note n), nn_Y = 0, nn_velocity = ucast (mn_velocity n)\<rparr>]))"

lemma note_chapter_ok:
  assumes "chapter_n_wf x" "cn_header x = Some xh" "note_fits n"
  shows "\<exists>x'. (if mn_command n = 8 then chapter_n_note_off (mn_note n) (x\<lparr>cn_header := Some (xh\<lparr>nh_B := 1\<rparr>)\<rparr>)
      else chapter_n_note_on mem_ok n (x\<lparr>cn_header := Some (xh\<lparr>nh_B := 1\<rparr>)\<rparr>)) = Inr x' \<and> chapter_n_wf x' \<and>
    chapter_n_after n x x'"
proof -
  let ?x = "x\<lparr>cn_header := Some (xh\<lparr>nh_B := 1\<rparr>)\<rparr>"
  have wf: "chapter_n_wf ?x" using assms(1) by (simp add: chapter_n_wf_def)
  have pl: "chapter_n_played ?x = chapter_n_played x" by (simp add: chapter_n_played_def)
  show ?thesis
  proof (cases "mn_command n = 8")
    case True
    with assms(3) have "mn_note n < 0x80" "unat (mn_note n) mod 8 \<noteq> 0" by (simp_all add: note_fits_def)
    from chapter_n_note_off_ok [OF wf this] True pl show ?thesis
      by (auto simp: chapter_n_after_def)
  next
    case False
    with chapter_n_note_on_ok [OF wf, of n] pl show ?thesis by (auto simp: chapter_n_after_def)
  qed
qed

lemma journal_add_note_ok:
  assumes wf: "journal_wf j" and n: "note_fits n"
  shows "\<exists>c c' j'. midi_journal_add_note mem_ok (Some j) seq (Some n) = Inr (Some j') \<and>
    journal_recorded CHAPTER_N (unat (mn_channel n)) seq c' j j' \<and>
    (cj_chapter_p c' = cj_chapter_p c \<and> cj_chapter_c c' = cj_chapter_c c \<and>
     (\<exists>x x'. cj_chapter_n c' = Some x' \<and> chapter_n_before c x \<and> chapter_n_after n x x')) \<and>
    channel_before j (unat (mn_channel n)) c"
proof -
  from wf obtain jh where jh: "jn_header j = Some jh" by (auto simp: journal_wf_def)
  have k: "unat (mn_channel n) < 16" using unsigned_less [of "mn_channel n", where 'a = nat] by simp
  show ?thesis
  proof (rule journal_record' [OF wf k jh])
    fix c h j1 h' j2
    assume c: "journal_open mem_ok (unat (mn_channel n)) j = Inr (Some c, j1)" "channel_wf c" "cj_header c = Some h"
      "journal_number CHAPTER_N (unat (mn_channel n)) seq h j1 = Inr (h', j2)"
    from chapter_n_before_ex [OF c(2)] obtain x where x: "chapter_n_before c x" "chapter_n_wf x" by blast
    from x(2) obtain xh where xh: "cn_header x = Some xh" by (elim chapter_n_wfE)
    from note_chapter_ok [OF x(2) xh n] obtain x' where
      x': "(if mn_command n = 8 then chapter_n_note_off (mn_note n) (x\<lparr>cn_header := Some (xh\<lparr>nh_B := 1\<rparr>)\<rparr>)
        else chapter_n_note_on mem_ok n (x\<lparr>cn_header := Some (xh\<lparr>nh_B := 1\<rparr>)\<rparr>)) = Inr x'"
        "chapter_n_wf x'" "chapter_n_after n x x'" by blast
    let ?c = "c\<lparr>cj_header := Some h', cj_chapter_n := Some x'\<rparr>"
    have "midi_journal_add_note mem_ok (Some j) seq (Some n) = Inr (Some (journal_set (unat (mn_channel n)) ?c j2))"
      unfolding add_note_body [OF c x(1) xh] x'(1) by simp
    moreover have "channel_wf ?c" using c(2) x'(2) by (simp add: channel_wf_def)
    ultimately show "\<exists>c'. midi_journal_add_note mem_ok (Some j) seq (Some n) =
        Inr (Some (journal_set (unat (mn_channel n)) c' j2)) \<and> cj_header c' = Some h' \<and> channel_wf c' \<and>
      (cj_chapter_p c' = cj_chapter_p c \<and> cj_chapter_c c' = cj_chapter_c c \<and>
       (\<exists>x x'. cj_chapter_n c' = Some x' \<and> chapter_n_before c x \<and> chapter_n_after n x x'))"
      using x(1) x'(3) by (intro exI [of _ ?c]) auto
  qed
qed

lemma journal_add_note_fault:
  assumes wf: "journal_wf j" and n: "mn_note n < 0x80" "mn_command n = 8" "unat (mn_note n) mod 8 = 0"
  shows "midi_journal_add_note mem_ok (Some j) seq (Some n) = Inl BadShift"
proof -
  from wf obtain jh where jh: "jn_header j = Some jh" by (auto simp: journal_wf_def)
  have k: "unat (mn_channel n) < 16" using unsigned_less [of "mn_channel n", where 'a = nat] by simp
  from journal_open_ok [OF wf k jh] obtain c h j1 where
    c: "journal_open mem_ok (unat (mn_channel n)) j = Inr (Some c, j1)" "channel_wf c" "cj_header c = Some h"
      "j1 = j\<lparr>jn_header := Some (jh\<lparr>jh_bitfield := jh_bitfield jh OR 0x0A\<rparr>)\<rparr>" by blast
  from journal_number_ok [of j1 _ CHAPTER_N "unat (mn_channel n)" seq h] c(4) obtain h' j2 where
    num: "journal_number CHAPTER_N (unat (mn_channel n)) seq h j1 = Inr (h', j2)" by auto
  from chapter_n_before_ex [OF c(2)] obtain x where x: "chapter_n_before c x" "chapter_n_wf x" by blast
  from x(2) obtain xh where xh: "cn_header x = Some xh" by (elim chapter_n_wfE)
  have "chapter_n_wf (x\<lparr>cn_header := Some (xh\<lparr>nh_B := 1\<rparr>)\<rparr>)" using x(2) by (simp add: chapter_n_wf_def)
  from chapter_n_note_off_fault [OF this n(1,3)] show ?thesis
    unfolding add_note_body [OF c(1-3) num x(1) xh] using n(2) by simp
qed

section \<open>Event sequences\<close>

datatype channel_event = Note_event midi_note | Control_event midi_control | Program_event midi_program

fun event_channel :: "channel_event \<Rightarrow> nat" where
  "event_channel (Note_event n) = unat (mn_channel n)"
| "event_channel (Control_event n) = unat (mk_channel n)"
| "event_channel (Program_event n) = unat (mp_channel n)"

fun event_fits :: "channel_event \<Rightarrow> bool" where
  "event_fits (Note_event n) = note_fits n"
| "event_fits (Control_event n) = (mk_controller_number n < 0x80)"
| "event_fits (Program_event n) = True"

fun journal_event :: "32 word \<Rightarrow> channel_event \<Rightarrow> journal option \<Rightarrow> journal option result" where
  "journal_event seq (Note_event n) j = midi_journal_add_note mem_ok j seq (Some n)"
| "journal_event seq (Control_event n) j = midi_journal_add_control mem_ok j seq (Some n)"
| "journal_event seq (Program_event n) j = midi_journal_add_program mem_ok j seq (Some n)"

fun journal_events :: "(32 word \<times> channel_event) list \<Rightarrow> journal option \<Rightarrow> journal option result" where
  "journal_events [] j = Inr j"
| "journal_events ((seq, e) # es) j = bindr (journal_event seq e j) (journal_events es)"

lemma event_channel_less: "event_channel e < 16"
proof (cases e)
  case (Note_event n)
  then show ?thesis using unsigned_less [of "mn_channel n", where 'a = nat] by simp
next
  case (Control_event n)
  then show ?thesis using unsigned_less [of "mk_channel n", where 'a = nat] by simp
next
  case (Program_event n)
  then show ?thesis using unsigned_less [of "mp_channel n", where 'a = nat] by simp
qed

lemma journal_event_ok:
  assumes "journal_wf j" "event_fits e"
  shows "\<exists>flag c j'. journal_event seq e (Some j) = Inr (Some j') \<and> journal_recorded flag (event_channel e) seq c j j'"
proof (cases e)
  case (Note_event n)
  with assms journal_add_note_ok [of j n seq] show ?thesis by auto
next
  case (Control_event n)
  with assms journal_add_control_ok [of j n seq] show ?thesis by auto
next
  case (Program_event n)
  with assms journal_add_program_ok [of j seq n] show ?thesis by auto
qed

text \<open>Below channel 15 the header counts the channels with an event, and each channel journal has
  its number.\<close>

definition journal_counts :: "nat set \<Rightarrow> journal \<Rightarrow> bool" where
  "journal_counts ks j \<longleftrightarrow> (\<exists>jh. jn_header j = Some jh \<and> unat (jh_totchan jh) = card ks) \<and>
     ks \<subseteq> {..<15} \<and> (\<forall>k<16. unat (channel_chan j k) = (if k \<in> ks then k + 1 else 0))"

lemma channel_chan_recorded:
  assumes "journal_recorded flag k seq c j j'" "k < 16" "journal_wf j" "i < 16"
  shows "channel_chan j' i =
    (if i = k then (if unat (channel_chan j k) \<noteq> k + 1 then of_nat (k + 1) else channel_chan j k) else channel_chan j i)"
  using assms by (auto simp: journal_recorded_def channel_chan_def journal_wf_def MAX_MIDI_CHANNELS_def)

lemma journal_counts_step:
  assumes wf: "journal_wf j" and r: "journal_recorded flag k seq c j j'" and k: "k < 15" and ks: "journal_counts ks j"
  shows "journal_counts (insert k ks) j'"
proof -
  from ks obtain jh where jh: "jn_header j = Some jh" "unat (jh_totchan jh) = card ks" and sub: "ks \<subseteq> {..<15}"
    and chan: "\<And>i. i < 16 \<Longrightarrow> unat (channel_chan j i) = (if i \<in> ks then i + 1 else 0)"
    by (auto simp: journal_counts_def)
  have fin: "finite ks" using sub finite_subset by blast
  have card: "card ks \<le> 15" using card_mono [OF _ sub] by simp
  from r jh(1) obtain jh' where jh': "jn_header j' = Some jh'"
    "jh_totchan jh' = (if unat (channel_chan j k) \<noteq> k + 1 then jh_totchan jh + 1 else jh_totchan jh)"
    by (auto simp: journal_recorded_def)
  have up: "unat (jh_totchan jh + 1) = card ks + 1"
    using unat_plus_one_less [of "jh_totchan jh" 16] jh(2) card by simp
  have "unat (jh_totchan jh') = card (insert k ks)"
    using jh'(2) jh(2) up chan [of k] k fin by (auto simp: insert_absorb)
  moreover have "unat (channel_chan j' i) = (if i \<in> insert k ks then i + 1 else 0)" if "i < 16" for i
    using channel_chan_recorded [OF r _ wf that] chan [OF that] chan [of k] k
      unat_of_nat_less [of "k + 1", where 'a = 4] by auto
  ultimately show ?thesis using jh'(1) sub k by (auto simp: journal_counts_def)
qed

lemma journal_events_count:
  assumes "journal_wf j" "journal_counts ks j" "\<forall>(seq, e)\<in>set es. event_fits e \<and> event_channel e < 15"
  shows "\<exists>j'. journal_events es (Some j) = Inr (Some j') \<and> journal_wf j' \<and>
    journal_counts (ks \<union> (event_channel \<circ> snd) ` set es) j'"
  using assms
proof (induction es arbitrary: j ks)
  case Nil
  then show ?case by simp
next
  case (Cons se es)
  obtain seq e where se: "se = (seq, e)" by (cases se)
  from Cons.prems se have e: "event_fits e" "event_channel e < 15" by auto
  from journal_event_ok [OF Cons.prems(1) e(1)] obtain flag c j1 where
    j1: "journal_event seq e (Some j) = Inr (Some j1)" "journal_recorded flag (event_channel e) seq c j j1" by blast
  have wf: "journal_wf j1" using j1(2) by (simp add: journal_recorded_def)
  from Cons.IH [OF wf journal_counts_step [OF Cons.prems(1) j1(2) e(2) Cons.prems(2)]] Cons.prems(3) j1(1) se
  show ?case by (auto simp: insert_absorb)
qed

section \<open>Properties\<close>

text \<open>C36: Recording any sequence of events on the channels below 15 in a new journal has no fault
  (note-off events for the notes divisible by 8 apart); the header counts exactly the channels
  that had an event, and the channel journals carry their channel's number plus one.\<close>

theorem journal_events_channels:
  assumes "\<forall>(seq, e)\<in>set es. event_fits e \<and> event_channel e < 15"
  shows "\<exists>j0 j jh. journal_init mem_ok = (0, Some j0) \<and> journal_events es (Some j0) = Inr (Some j) \<and>
    journal_wf j \<and> jn_header j = Some jh \<and> unat (jh_totchan jh) = card ((event_channel \<circ> snd) ` set es) \<and>
    (\<forall>k<16. unat (channel_chan j k) = (if k \<in> (event_channel \<circ> snd) ` set es then k + 1 else 0))"
proof -
  from journal_init_ok [of mem_ok] obtain j0 h where
    j0: "journal_init mem_ok = (0, Some j0)" "journal_wf j0" "jn_channels j0 = replicate 16 None"
      "jn_header j0 = Some h" "jh_totchan h = 0" by auto
  then have "journal_counts {} j0"
    by (simp add: journal_counts_def channel_chan_def)
  from journal_events_count [OF j0(2) this assms] j0(1) show ?thesis
    by (auto simp: journal_counts_def)
qed

theorem journal_events_channels_witness:
  "\<exists>j0 j jh. journal_init mem_ok = (0, Some j0) \<and>
    journal_events
      [(1, Note_event \<lparr>mn_channel = 3, mn_command = 9, mn_note = 60, mn_velocity = 100\<rparr>),
       (2, Program_event \<lparr>mp_channel = 7, mp_command = 12, mp_S = 0, mp_B = 0, mp_X = 0, mp_program = 5,
                          mp_bank_msb = 0, mp_bank_lsb = 0\<rparr>)] (Some j0) = Inr (Some j) \<and>
    jn_header j = Some jh \<and> jh_totchan jh = 2 \<and> channel_chan j 7 = 8"
proof -
  let ?es = "[(1, Note_event \<lparr>mn_channel = 3, mn_command = 9, mn_note = 60, mn_velocity = 100\<rparr>),
       (2, Program_event \<lparr>mp_channel = 7, mp_command = 12, mp_S = 0, mp_B = 0, mp_X = 0, mp_program = 5,
                          mp_bank_msb = 0, mp_bank_lsb = 0\<rparr>)] :: (32 word \<times> channel_event) list"
  have "\<forall>(seq, e)\<in>set ?es. event_fits e \<and> event_channel e < 15"
    by (simp add: note_fits_def)
  from journal_events_channels [OF this] obtain j0 j jh where
    "journal_init mem_ok = (0, Some j0)" "journal_events ?es (Some j0) = Inr (Some j)" "jn_header j = Some jh"
    "unat (jh_totchan jh) = 2" "unat (channel_chan j 7) = 8" by auto
  then show ?thesis
    by (intro exI [of _ j0] exI [of _ j] exI [of _ jh]) (auto simp: word_unat_eq_iff simp del: journal_events.simps)
qed

text \<open>An event on channel 15 always adds one to the number of channels, however many there were
  before, and leaves the channel journal with the number 0: 16 does not fit the four bits of
  \<^verbatim>\<open>chan\<close>. The packer then writes it as channel 0.\<close>
theorem journal_event_channel_15:
  assumes "journal_wf j" "event_fits e" "event_channel e = 15" "jn_header j = Some jh"
  shows "\<exists>j' jh'. journal_event seq e (Some j) = Inr (Some j') \<and> journal_wf j' \<and>
    jn_header j' = Some jh' \<and> jh_totchan jh' = jh_totchan jh + 1 \<and> channel_chan j' 15 = 0"
proof -
  from journal_event_ok [OF assms(1,2), of seq] assms(3) obtain flag c j' where
    j': "journal_event seq e (Some j) = Inr (Some j')" "journal_recorded flag 15 seq c j j'" by auto
  have ne: "unat (channel_chan j 15) \<noteq> 15 + 1"
    using unsigned_less [of "channel_chan j 15", where 'a = nat] by simp
  have "channel_chan j' 15 = 0"
    using channel_chan_recorded [OF j'(2) _ assms(1), of 15] ne by simp
  with j' ne assms(4) show ?thesis by (auto simp: journal_recorded_def)
qed

theorem journal_event_channel_15_witness:
  "\<exists>j0 j1 j2 jh. journal_init mem_ok = (0, Some j0) \<and>
    journal_event 1 (Control_event \<lparr>mk_channel = 15, mk_command = 11, mk_controller_number = 7, mk_controller_value = 1\<rparr>)
      (Some j0) = Inr (Some j1) \<and>
    journal_event 2 (Control_event \<lparr>mk_channel = 15, mk_command = 11, mk_controller_number = 7, mk_controller_value = 2\<rparr>)
      (Some j1) = Inr (Some j2) \<and>
    jn_header j2 = Some jh \<and> jh_totchan jh = 2"
proof -
  from journal_init_ok [of mem_ok] obtain j0 h where
    j0: "journal_init mem_ok = (0, Some j0)" "journal_wf j0" "jn_header j0 = Some h" "jh_totchan h = 0" by auto
  let ?e = "\<lambda>v. Control_event \<lparr>mk_channel = 15, mk_command = 11, mk_controller_number = 7, mk_controller_value = v\<rparr>"
  from journal_event_channel_15 [OF j0(2) _ _ j0(3), of "?e 1" 1] obtain j1 jh1 where
    j1: "journal_event 1 (?e 1) (Some j0) = Inr (Some j1)" "journal_wf j1" "jn_header j1 = Some jh1"
      "jh_totchan jh1 = jh_totchan h + 1" by auto
  from journal_event_channel_15 [OF j1(2) _ _ j1(3), of "?e 2" 2] obtain j2 jh2 where
    "journal_event 2 (?e 2) (Some j1) = Inr (Some j2)" "jn_header j2 = Some jh2"
      "jh_totchan jh2 = jh_totchan jh1 + 1" by auto
  with j0 j1 show ?thesis by (auto simp del: journal_event.simps)
qed

text \<open>A note switched off sets one bit of the octet note div 8, the bit with the place value
  2 to the (note mod 8 - 1), and for the notes divisible by 8 shifts by 255, which C leaves
  undefined.\<close>
theorem journal_note_off:
  assumes "journal_wf j" "mn_command n = 8" "mn_note n < 0x80"
  shows "if unat (mn_note n) mod 8 = 0
    then midi_journal_add_note mem_ok (Some j) seq (Some n) = Inl BadShift
    else \<exists>j' c x. midi_journal_add_note mem_ok (Some j) seq (Some n) = Inr (Some j') \<and> journal_wf j' \<and>
      jn_channels j' ! unat (mn_channel n) = Some c \<and> cj_chapter_n c = Some x \<and>
      (\<exists>b. cn_offbits x = Some b \<and>
        b ! (unat (mn_note n) div 8) AND push_bit (unat (mn_note n) mod 8 - 1) 1 = push_bit (unat (mn_note n) mod 8 - 1) 1)"
proof (cases "unat (mn_note n) mod 8 = 0")
  case True
  with journal_add_note_fault [OF assms(1,3,2) True] show ?thesis by simp
next
  case False
  let ?k = "unat (mn_channel n)" and ?i = "unat (mn_note n) div 8"
  let ?bit = "push_bit (unat (mn_note n) mod 8 - 1) 1 :: byte"
  have k: "?k < 16" using unsigned_less [of "mn_channel n", where 'a = nat] by simp
  have i: "?i < 16" using assms(3) by (simp add: word_less_nat_alt)
  from False assms have "note_fits n" by (simp add: note_fits_def)
  from journal_add_note_ok [OF assms(1) this, of seq] obtain c c' j' x x' where
    j': "midi_journal_add_note mem_ok (Some j) seq (Some n) = Inr (Some j')"
      "journal_recorded CHAPTER_N ?k seq c' j j'" "cj_chapter_n c' = Some x'" "chapter_n_before c x"
      "chapter_n_after n x x'" "channel_before j ?k c" by blast
  have wf: "journal_wf j'" "jn_channels j' ! ?k = Some c'"
    using j'(2) k assms(1) by (simp_all add: journal_recorded_def journal_wf_def MAX_MIDI_CHANNELS_def)
  have "chapter_n_wf x"
  proof (cases "jn_channels j ! ?k")
    case None
    with j'(4,6) chapter_n_create_wf [of mem_ok] show ?thesis
      by (auto simp: channel_before_def chapter_n_before_def)
  next
    case (Some c0)
    have "Some c0 \<in> set (jn_channels j)"
      using Some k assms(1) by (metis MAX_MIDI_CHANNELS_def journal_wf_def nth_mem)
    with assms(1) have "channel_wf c0" by (simp add: journal_wf_def)
    with Some j'(4,6) chapter_n_create_wf [of mem_ok] show ?thesis
      by (cases "cj_chapter_n c0") (auto simp: channel_before_def chapter_n_before_def channel_wf_def)
  qed
  then obtain b where b: "cn_offbits x = Some b" "length b = 16"
    by (elim chapter_n_wfE) (simp add: MAX_OFFBITS_def)
  have "cn_offbits x' = Some (b[?i := b ! ?i OR ?bit])"
    using j'(5) b(1) assms(2) by (simp add: chapter_n_after_def)
  with False j' wf b i show ?thesis by (auto simp: or_and_flag)
qed

theorem journal_note_off_witness:
  "\<exists>j0. journal_init mem_ok = (0, Some j0) \<and>
    midi_journal_add_note mem_ok (Some j0) 1 (Some \<lparr>mn_channel = 0, mn_command = 8, mn_note = 64, mn_velocity = 0\<rparr>) =
      Inl BadShift \<and>
    (\<exists>j'. midi_journal_add_note mem_ok (Some j0) 1 (Some \<lparr>mn_channel = 0, mn_command = 8, mn_note = 65, mn_velocity = 0\<rparr>) =
      Inr (Some j') \<and> journal_wf j')"
proof -
  from journal_init_ok [of mem_ok] obtain j0 where j0: "journal_init mem_ok = (0, Some j0)" "journal_wf j0" by auto
  with journal_note_off [OF j0(2), of "\<lparr>mn_channel = 0, mn_command = 8, mn_note = 64, mn_velocity = 0\<rparr>" 1]
    journal_note_off [OF j0(2), of "\<lparr>mn_channel = 0, mn_command = 8, mn_note = 65, mn_velocity = 0\<rparr>" 1]
  show ?thesis by auto
qed

end
