(* ===== verification/Ring_Buffer.thy ===== *)
theory Ring_Buffer
  imports Prelude
begin

text \<open>
  The byte ring buffer of \<^verbatim>\<open>ring_buffer.c\<close>: its record, one definition per function with the
  code's branches, the invariant \<open>ring_wf\<close>, the abstraction \<open>ring_contents\<close> to the list of
  unread bytes, and the contract \<open>byte_fifo\<close> the MIDI parser relies on, interpreted here.
  A mutex is part of the record, so an unbalanced lock or unlock is a fault. A parameter the
  callers pass the address of a variable for (\<^verbatim>\<open>return_byte\<close>, \<^verbatim>\<open>len\<close>) is a component of
  the result.
\<close>

section \<open>State and operations\<close>

record ring_buffer =
  rb_start :: nat
  rb_end :: nat
  rb_size :: nat
  rb_used :: nat
  rb_data :: "bytes option"
  rb_held :: bool

definition ring_buffer_lock :: "ring_buffer \<Rightarrow> ring_buffer result" where
  "ring_buffer_lock r = bindr (mutex_lock (rb_held r)) (\<lambda>h. Inr (r\<lparr>rb_held := h\<rparr>))"

definition ring_buffer_unlock :: "ring_buffer \<Rightarrow> ring_buffer result" where
  "ring_buffer_unlock r = bindr (mutex_unlock (rb_held r)) (\<lambda>h. Inr (r\<lparr>rb_held := h\<rparr>))"

definition ring_buffer_data_index :: "ring_buffer \<Rightarrow> nat \<Rightarrow> nat result" where
  "ring_buffer_data_index r offset =
     (if rb_size r = 0 then Inl DivByZero else Inr ((rb_start r + offset) mod rb_size r))"

fun ring_buffer_used :: "ring_buffer option \<Rightarrow> (nat \<times> ring_buffer option) result" where
  "ring_buffer_used None = Inr (0, None)"
| "ring_buffer_used (Some r) =
     (if rb_data r = None then Inr (0, Some r)
      else bindr (ring_buffer_lock r) (\<lambda>r.
           let ret = rb_used r in
           bindr (ring_buffer_unlock r) (\<lambda>r. Inr (ret, Some r))))"

fun ring_buffer_reset :: "alloc \<Rightarrow> ring_buffer option \<Rightarrow> nat \<Rightarrow> ring_buffer option result" where
  "ring_buffer_reset A None sz = Inr None"
| "ring_buffer_reset A (Some r) sz =
     bindr (ring_buffer_lock r) (\<lambda>r.
     let r = r\<lparr>rb_size := sz, rb_start := 0, rb_end := 0, rb_used := 0\<rparr>;
         r = (if rb_data r = None then r
              else r\<lparr>rb_data := (if A (Site ''ring_buffer_reset:data'')
                                 then Some (replicate sz 0) else None)\<rparr>)
     in bindr (ring_buffer_unlock r) (\<lambda>r. Inr (Some r)))"

definition ring_buffer_create :: "alloc \<Rightarrow> nat \<Rightarrow> ring_buffer option result" where
  "ring_buffer_create A sz =
     (if sz = 0 then Inr None
      else if \<not> A (Site ''ring_buffer_create:new_buffer'') then Inr None
      else if \<not> A (Site ''ring_buffer_create:data'') then Inr None
      else ring_buffer_reset A
             (Some \<lparr>rb_start = 0, rb_end = 0, rb_size = 0, rb_used = 0,
                    rb_data = Some (replicate sz 0), rb_held = False\<rparr>) sz)"

fun ring_buffer_destroy :: "ring_buffer option \<Rightarrow> ring_buffer option result" where
  "ring_buffer_destroy None = Inr None"
| "ring_buffer_destroy (Some r) =
     bindr (ring_buffer_lock r) (\<lambda>r.
     let r = r\<lparr>rb_size := 0, rb_start := 0, rb_end := 0, rb_data := None\<rparr> in
     bindr (ring_buffer_unlock r) (\<lambda>r. Inr None))"

fun ring_buffer_write ::
    "ring_buffer option \<Rightarrow> bytes option \<Rightarrow> nat \<Rightarrow> (nat \<times> ring_buffer option) result" where
  "ring_buffer_write None data len = Inr (0, None)"
| "ring_buffer_write (Some r) None len = Inr (0, Some r)"
| "ring_buffer_write (Some r) (Some data) len =
     (if len = 0 then Inr (0, Some r) else
      bindr (ring_buffer_lock r) (\<lambda>r.
      bindr
       (if rb_used r + len > rb_size r then Inr (0, r)
        else if rb_start r \<le> rb_end r then
          (if rb_end r + len \<le> rb_size r then
             bindr (deref (rb_data r)) (\<lambda>d.
             bindr (mem_read data 0 len) (\<lambda>xs.
             bindr (mem_write d (rb_end r) xs) (\<lambda>d.
             Inr (len, r\<lparr>rb_data := Some d, rb_used := rb_used r + len,
                          rb_end := rb_end r + len\<rparr>))))
           else
             let first_part = size_sub (rb_size r) (rb_end r);
                 second_part = size_sub len first_part in
             bindr (deref (rb_data r)) (\<lambda>d.
             bindr (mem_read data 0 first_part) (\<lambda>xs.
             bindr (mem_write d (rb_end r) xs) (\<lambda>d.
             bindr (mem_read data first_part second_part) (\<lambda>ys.
             bindr (mem_write d 0 ys) (\<lambda>d.
             Inr (len, r\<lparr>rb_data := Some d, rb_end := second_part,
                          rb_used := rb_used r + len\<rparr>)))))))
        else
          bindr (deref (rb_data r)) (\<lambda>d.
          bindr (mem_read data 0 len) (\<lambda>xs.
          bindr (mem_write d (rb_end r) xs) (\<lambda>d.
          Inr (len, r\<lparr>rb_data := Some d, rb_end := rb_end r + len,
                       rb_used := rb_used r + len\<rparr>)))))
       (\<lambda>(ret, r). bindr (ring_buffer_unlock r) (\<lambda>r. Inr (ret, Some r)))))"

fun ring_buffer_read ::
    "alloc \<Rightarrow> ring_buffer option \<Rightarrow> nat \<Rightarrow> bool \<Rightarrow> (bytes option \<times> ring_buffer option) result"
where
  "ring_buffer_read A None len advance = Inr (None, None)"
| "ring_buffer_read A (Some r) len advance =
     (if len = 0 then bindr (ring_buffer_unlock r) (\<lambda>r. Inr (None, Some r)) else
      bindr (ring_buffer_lock r) (\<lambda>r.
      bindr
       (case rb_data r of
          None \<Rightarrow> Inr (None, r)
        | Some d \<Rightarrow>
          if rb_used r = 0 then Inr (None, r)
          else if len > rb_used r then Inr (None, r)
          else if \<not> A (Site ''ring_buffer_read:dest'') then Inr (None, r)
          else let dest = replicate len 0 in
          (if rb_start r < rb_end r then
             bindr (mem_read d (rb_start r) len) (\<lambda>xs.
             bindr (mem_write dest 0 xs) (\<lambda>dest.
             let r = (if advance
                      then let r = r\<lparr>rb_start := rb_start r + len,
                                     rb_used := size_sub (rb_used r) len\<rparr>
                           in if rb_start r \<ge> rb_size r then r\<lparr>rb_start := 0\<rparr> else r
                      else r)
             in Inr (Some dest, r)))
           else
             let first_part = size_sub (rb_size r) (rb_start r);
                 second_part = size_sub len first_part in
             bindr (mem_read d (rb_start r) first_part) (\<lambda>xs.
             bindr (mem_write dest 0 xs) (\<lambda>dest.
             bindr (mem_read d 0 second_part) (\<lambda>ys.
             bindr (mem_write dest first_part ys) (\<lambda>dest.
             let r = (if advance
                      then r\<lparr>rb_used := size_sub (rb_used r) len, rb_start := second_part\<rparr>
                      else r)
             in Inr (Some dest, r)))))))
       (\<lambda>(dest, r). bindr (ring_buffer_unlock r) (\<lambda>r. Inr (dest, Some r)))))"

fun ring_buffer_read_byte ::
    "ring_buffer option \<Rightarrow> bool \<Rightarrow> (int \<times> byte \<times> ring_buffer option) result" where
  "ring_buffer_read_byte None advance = Inr (-1, 0, None)"
| "ring_buffer_read_byte (Some r) advance =
     bindr (ring_buffer_lock r) (\<lambda>r.
     bindr
      (if rb_used r = 0 then Inr (-1, 0, r)
       else bindr (deref (rb_data r)) (\<lambda>d.
            bindr (mem_get d (rb_start r)) (\<lambda>b.
            let r = (if advance
                     then let r = r\<lparr>rb_start := rb_start r + 1, rb_used := rb_used r - 1\<rparr>
                          in if rb_start r \<ge> rb_size r then r\<lparr>rb_start := 0\<rparr> else r
                     else r)
            in Inr (0, b, r))))
      (\<lambda>(status, b, r). bindr (ring_buffer_unlock r) (\<lambda>r. Inr (status, b, Some r))))"

fun ring_buffer_resize ::
    "alloc \<Rightarrow> ring_buffer option \<Rightarrow> nat \<Rightarrow> (int \<times> ring_buffer option) result" where
  "ring_buffer_resize A None new_size = Inr (0, None)"
| "ring_buffer_resize A (Some r) new_size =
     (if \<not> A (Site ''ring_buffer_resize:new_data'') then Inr (0, Some r)
      else let new_data = replicate new_size 0 in
      bindr (ring_buffer_used (Some r)) (\<lambda>(bytes_used, ring).
      bindr (ring_buffer_read A ring bytes_used False) (\<lambda>(old_data, ring).
      case old_data of
        Some old \<Rightarrow>
          bindr (mem_read old 0 bytes_used) (\<lambda>xs.
          bindr (mem_write new_data 0 xs) (\<lambda>new_data.
          bindr (deref ring) (\<lambda>r.
          bindr (ring_buffer_lock r) (\<lambda>r.
          bindr (ring_buffer_unlock
                  (r\<lparr>rb_data := Some new_data, rb_start := 0, rb_end := bytes_used,
                     rb_size := new_size, rb_used := bytes_used\<rparr>)) (\<lambda>r.
          Inr (1, Some r))))))
      | None \<Rightarrow>
          bindr (ring_buffer_reset A ring new_size) (\<lambda>ring. Inr (1, ring)))))"

fun ring_buffer_drain ::
    "alloc \<Rightarrow> ring_buffer option \<Rightarrow> (bytes option \<times> nat \<times> ring_buffer option) result" where
  "ring_buffer_drain A None = Inr (None, 0, None)"
| "ring_buffer_drain A (Some r) =
     bindr (ring_buffer_used (Some r)) (\<lambda>(len, ring).
     bindr (ring_buffer_read A ring len True) (\<lambda>(data, ring).
     Inr (data, len, ring)))"

fun ring_buffer_available :: "ring_buffer option \<Rightarrow> nat \<Rightarrow> bool" where
  "ring_buffer_available None requested = False"
| "ring_buffer_available (Some r) requested = (if requested = 0 then False else requested \<le> rb_used r)"

text \<open>The comparison loop: \<open>i\<close> is the loop's index, the last argument the iterations left.\<close>

fun ring_buffer_compare_loop ::
    "ring_buffer \<Rightarrow> bytes \<Rightarrow> bytes \<Rightarrow> nat \<Rightarrow> nat \<Rightarrow> int result" where
  "ring_buffer_compare_loop r d compare i 0 = Inr 0"
| "ring_buffer_compare_loop r d compare i (Suc left) =
     (if i \<ge> rb_used r then Inr (-1)
      else bindr (bindr (ring_buffer_data_index r i) (mem_get d)) (\<lambda>ring_byte.
           bindr (mem_get compare i) (\<lambda>compare_byte.
           if ring_byte \<noteq> compare_byte then Inr (uint ring_byte - uint compare_byte)
           else ring_buffer_compare_loop r d compare (Suc i) left)))"

fun ring_buffer_compare ::
    "ring_buffer option \<Rightarrow> bytes option \<Rightarrow> nat \<Rightarrow> (int \<times> ring_buffer option) result" where
  "ring_buffer_compare None compare compare_len = Inr (-1, None)"
| "ring_buffer_compare (Some r) None compare_len = Inr (-1, Some r)"
| "ring_buffer_compare (Some r) (Some compare) compare_len =
     bindr (ring_buffer_lock r) (\<lambda>r.
     bindr
      (case rb_data r of
         None \<Rightarrow> Inr (-1)
       | Some d \<Rightarrow>
           bindr (if compare_len > 0 then Inr compare_len
                  else bindr (c_strlen compare) (\<lambda>n. Inr (n + 1))) (\<lambda>real_compare_len.
           ring_buffer_compare_loop r d compare 0 real_compare_len))
      (\<lambda>ret. bindr (ring_buffer_unlock r) (\<lambda>r. Inr (ret, Some r))))"

fun ring_buffer_char_compare ::
    "ring_buffer option \<Rightarrow> byte \<Rightarrow> nat \<Rightarrow> (int \<times> ring_buffer option) result" where
  "ring_buffer_char_compare None compare index = Inr (0, None)"
| "ring_buffer_char_compare (Some r) compare index =
     bindr (ring_buffer_lock r) (\<lambda>r.
     bindr
      (case rb_data r of
         None \<Rightarrow> Inr 0
       | Some d \<Rightarrow>
           if index \<ge> rb_used r then Inr 0
           else bindr (ring_buffer_data_index r index) (\<lambda>real_index.
                bindr (mem_get d real_index) (\<lambda>b. Inr (if b = compare then 1 else 0))))
      (\<lambda>ret. bindr (ring_buffer_unlock r) (\<lambda>r. Inr (ret, Some r))))"

fun ring_buffer_advance :: "ring_buffer option \<Rightarrow> nat \<Rightarrow> ring_buffer option result" where
  "ring_buffer_advance None steps = Inr None"
| "ring_buffer_advance (Some r) steps =
     (if steps = 0 then Inr (Some r) else
      bindr (ring_buffer_lock r) (\<lambda>r.
      let real_steps = min steps (rb_used r) in
      bindr (ring_buffer_data_index r real_steps) (\<lambda>start.
      let r = r\<lparr>rb_start := start, rb_used := rb_used r - real_steps\<rparr>;
          r = (if rb_used r = 0 then r\<lparr>rb_end := rb_start r\<rparr> else r)
      in bindr (ring_buffer_unlock r) (\<lambda>r. Inr (Some r)))))"

fun ring_buffer_get_size :: "ring_buffer option \<Rightarrow> (nat \<times> ring_buffer option) result" where
  "ring_buffer_get_size None = Inr (0, None)"
| "ring_buffer_get_size (Some r) =
     bindr (ring_buffer_lock r) (\<lambda>r.
     let sz = rb_size r in
     bindr (ring_buffer_unlock r) (\<lambda>r. Inr (sz, Some r)))"

lemmas ring_lock_simps [simp] = ring_buffer_lock_def ring_buffer_unlock_def

section \<open>Invariant and abstraction\<close>

text \<open>
  The mutex is free, the array has the recorded size, and \<open>end\<close> is \<open>used\<close> bytes behind
  \<open>start\<close> modulo the size. (\<open>end = size\<close> and \<open>end = 0\<close> both occur.)
\<close>

fun ring_wf :: "ring_buffer option \<Rightarrow> bool" where
  "ring_wf None = False"
| "ring_wf (Some r) =
     (\<not> rb_held r \<and>
      (case rb_data r of None \<Rightarrow> False | Some d \<Rightarrow> length d = rb_size r) \<and>
      rb_start r < rb_size r \<and> rb_end r \<le> rb_size r \<and> rb_used r \<le> rb_size r \<and>
      rb_end r mod rb_size r = (rb_start r + rb_used r) mod rb_size r)"

fun ring_contents :: "ring_buffer option \<Rightarrow> bytes" where
  "ring_contents None = []"
| "ring_contents (Some r) =
     (case rb_data r of None \<Rightarrow> [] | Some d \<Rightarrow> circ d (rb_start r) (rb_used r))"

fun ring_capacity :: "ring_buffer option \<Rightarrow> nat" where
  "ring_capacity None = 0"
| "ring_capacity (Some r) = rb_size r"

lemma ring_wfE:
  assumes "ring_wf p"
  obtains r d where "p = Some r" "rb_data r = Some d" "length d = rb_size r" "\<not> rb_held r"
    "rb_start r < rb_size r" "rb_end r \<le> rb_size r" "rb_used r \<le> rb_size r"
    "rb_end r mod rb_size r = (rb_start r + rb_used r) mod rb_size r"
  using assms by (cases p) (auto split: option.splits)

text \<open>Where \<open>end\<close> is, from the invariant: contiguous or wrapped.\<close>

lemma ring_end_contiguous:
  assumes "start < sz" "e \<le> sz" "(used::nat) \<le> sz" "e mod sz = (start + used) mod sz"
    and "start < e" "0 < used"
  shows "e = start + used"
proof (cases "start + used < sz")
  case True
  with assms show ?thesis by (cases "e = sz") auto
next
  case False
  with assms have "(start + used) mod sz = start + used - sz"
    by (cases "start + used = 2 * sz") (auto simp: mod_if)
  with False assms show ?thesis by (cases "e = sz") (auto simp: mod_if)
qed

lemma ring_end_wrapped:
  assumes "start < sz" "e \<le> sz" "(used::nat) \<le> sz" "e mod sz = (start + used) mod sz"
    and "e \<le> start" "0 < used"
  shows "e + sz = start + used"
proof -
  have ge: "sz \<le> start + used" using assms by (auto simp: not_less [symmetric])
  have "(start + used) mod sz = (start + used - sz) mod sz" using ge by (rule le_mod_geq)
  also have "\<dots> = start + used - sz" using assms by simp
  finally show ?thesis using assms ge by simp
qed

section \<open>The operations on a well-formed ring\<close>

lemma ring_buffer_create_ok:
  assumes "0 < sz" "\<And>s. A s"
  shows "\<exists>p. ring_buffer_create A sz = Inr p \<and> ring_wf p \<and> ring_contents p = [] \<and> ring_capacity p = sz"
  using assms by (auto simp: ring_buffer_create_def)

lemma ring_buffer_used_ok:
  "ring_wf p \<Longrightarrow> ring_buffer_used p = Inr (length (ring_contents p), p)"
  by (erule ring_wfE) simp

lemma ring_buffer_reset_ok:
  "ring_wf p \<Longrightarrow> 0 < sz \<Longrightarrow> A (Site ''ring_buffer_reset:data'') \<Longrightarrow>
   \<exists>p'. ring_buffer_reset A p sz = Inr p' \<and> ring_wf p' \<and> ring_contents p' = [] \<and> ring_capacity p' = sz"
  by (erule ring_wfE) (simp add: Let_def)

lemma ring_buffer_get_size_ok: "ring_wf p \<Longrightarrow> ring_buffer_get_size p = Inr (ring_capacity p, p)"
  by (erule ring_wfE) simp

lemma ring_length_le: "ring_wf p \<Longrightarrow> length (ring_contents p) \<le> ring_capacity p"
  by (erule ring_wfE) simp

text \<open>Each of the three copies of a write stores circularly from \<open>end\<close> on.\<close>

lemma ring_write_some:
  assumes wf: "ring_wf (Some r)" and d: "rb_data r = Some d"
    and n: "0 < n" "n \<le> length data" and room: "rb_used r + n \<le> rb_size r"
  shows "\<exists>e. ring_buffer_write (Some r) (Some data) n =
           Inr (n, Some (r\<lparr>rb_data := Some (circ_put d (rb_end r) (take n data)),
                           rb_used := rb_used r + n, rb_end := e\<rparr>)) \<and>
           e \<le> rb_size r \<and> e mod rb_size r = (rb_end r + n) mod rb_size r"
proof -
  from wf d have L: "length d = rb_size r" and h: "rb_held r = False"
    and bounds: "rb_start r < rb_size r" "rb_end r \<le> rb_size r" "rb_used r \<le> rb_size r"
    and em: "rb_end r mod rb_size r = (rb_start r + rb_used r) mod rb_size r"
    by simp_all
  obtain st en sz us da he where r: "r = \<lparr>rb_start = st, rb_end = en, rb_size = sz, rb_used = us,
      rb_data = da, rb_held = he\<rparr>" by (cases r)
  consider (contig) "rb_start r \<le> rb_end r" "rb_end r + n \<le> rb_size r"
    | (split) "rb_start r \<le> rb_end r" "rb_size r < rb_end r + n"
    | (wrapped) "rb_end r < rb_start r" by linarith
  then show ?thesis
  proof cases
    case contig
    then show ?thesis using n room L d h bounds
      by (intro exI [of _ "rb_end r + n"]) (auto simp: r circ_put_def Let_def min_absorb2)
  next
    case split
    from bounds obtain f where f: "rb_size r = rb_end r + f" by (auto simp: le_iff_add)
    with split obtain m where m: "n = f + m" by (auto simp: less_iff_Suc_add)
    have le: "m \<le> rb_end r" using room f m by simp
    have mod: "m mod (rb_end r + f) = (rb_end r + n) mod (rb_end r + f)"
      by (simp add: m flip: add.assoc)
    show ?thesis
    proof (cases "m = 0")
      case True
      with split f m show ?thesis by simp
    next
      case False
      with split n room L d h f m le mod show ?thesis
        by (intro exI [of _ m]) (simp add: r circ_put_def Let_def drop_take min_absorb2)
    qed
  next
    case wrapped
    then have "0 < rb_used r" using em bounds by (cases "rb_used r") auto
    then have "rb_end r + rb_size r = rb_start r + rb_used r"
      using ring_end_wrapped [of "rb_start r" "rb_size r" "rb_end r" "rb_used r"] wrapped bounds em
      by simp
    with wrapped show ?thesis using n room L d h bounds
      by (intro exI [of _ "rb_end r + n"]) (auto simp: r circ_put_def Let_def min_absorb2)
  qed
qed

lemma ring_buffer_write_ok:
  assumes wf: "ring_wf p" and n: "0 < n" "n \<le> length data"
    and room: "length (ring_contents p) + n \<le> ring_capacity p"
  shows "\<exists>p'. ring_buffer_write p (Some data) n = Inr (n, p') \<and> ring_wf p' \<and>
    ring_contents p' = ring_contents p @ take n data \<and> ring_capacity p' = ring_capacity p"
proof -
  from wf obtain r d where p: "p = Some r" and d: "rb_data r = Some d" and L: "length d = rb_size r"
    and b: "rb_start r < rb_size r" "rb_end r \<le> rb_size r"
    and em: "rb_end r mod rb_size r = (rb_start r + rb_used r) mod rb_size r"
    by (elim ring_wfE)
  from p d room have room': "rb_used r + n \<le> rb_size r" by simp
  from ring_write_some [OF wf [unfolded p] d n room'] obtain e where
    w: "ring_buffer_write (Some r) (Some data) n =
        Inr (n, Some (r\<lparr>rb_data := Some (circ_put d (rb_end r) (take n data)),
                        rb_used := rb_used r + n, rb_end := e\<rparr>))"
    and e: "e \<le> rb_size r" "e mod rb_size r = (rb_end r + n) mod rb_size r" by blast
  have "e mod rb_size r = (rb_start r + rb_used r + n) mod rb_size r"
    using e(2) em by (metis mod_add_left_eq)
  moreover have "circ (circ_put d (rb_end r) (take n data)) (rb_start r) (rb_used r + n)
      = circ d (rb_start r) (rb_used r) @ take n data"
    using circ_circ_put [of "rb_end r" d "rb_used r" "take n data" "rb_start r"] L b em room' n
    by simp
  ultimately show ?thesis
    using wf p d L b w e room' n by (simp add: length_circ_put add.assoc)
qed

lemma ring_buffer_write_full:
  assumes "ring_wf p" "0 < n" "ring_capacity p < length (ring_contents p) + n"
  shows "ring_buffer_write p (Some data) n = Inr (0, p)"
  using assms by (elim ring_wfE) simp

lemma ring_buffer_write_nothing:
  "ring_wf p \<Longrightarrow> ring_buffer_write p (Some data) 0 = Inr (0, p)"
  by (elim ring_wfE) simp

lemma ring_buffer_read_byte_empty:
  "ring_wf p \<Longrightarrow> ring_contents p = [] \<Longrightarrow> ring_buffer_read_byte p advance = Inr (-1, 0, p)"
  by (elim ring_wfE) (auto simp: circ_def)

lemma ring_buffer_read_byte_ok:
  assumes wf: "ring_wf p" and c: "ring_contents p = b # bs"
  shows "\<exists>p'. ring_buffer_read_byte p True = Inr (0, b, p') \<and> ring_wf p' \<and>
    ring_contents p' = bs \<and> ring_capacity p' = ring_capacity p"
proof -
  from wf obtain r d where p: "p = Some r" and d: "rb_data r = Some d" and L: "length d = rb_size r"
    and h: "\<not> rb_held r" and b: "rb_start r < rb_size r" "rb_end r \<le> rb_size r" "rb_used r \<le> rb_size r"
    and em: "rb_end r mod rb_size r = (rb_start r + rb_used r) mod rb_size r"
    by (elim ring_wfE)
  from c p d obtain n where n: "rb_used r = Suc n" by (cases "rb_used r") auto
  have bs: "b = d ! rb_start r" "bs = circ d (Suc (rb_start r)) n"
    using c p d n b L by (simp_all add: circ_Suc)
  show ?thesis
  proof (cases "Suc (rb_start r) < rb_size r")
    case True
    then show ?thesis using p d L h b em n bs by simp
  next
    case False
    then have s: "Suc (rb_start r) = rb_size r" using b by simp
    have "circ d 0 n = circ d (Suc (rb_start r)) n"
      using circ_mod [of d "Suc (rb_start r)" n] s L by simp
    moreover have "(rb_start r + rb_used r) mod rb_size r = n mod rb_size r"
      using s n by (metis add_Suc_shift mod_add_self1)
    ultimately show ?thesis using p d L h b em n bs s by simp
  qed
qed

text \<open>
  A read of \<open>n\<close> bytes is right when the unread bytes are contiguous, or when it takes at least
  everything up to the end of the array. Otherwise the first copy is longer than the
  destination.
\<close>

fun ring_read_fits :: "ring_buffer option \<Rightarrow> nat \<Rightarrow> bool" where
  "ring_read_fits None n = True"
| "ring_read_fits (Some r) n = (rb_start r < rb_end r \<or> rb_size r - rb_start r \<le> n)"

lemma ring_buffer_read_ok:
  assumes wf: "ring_wf p" and n: "0 < n" "n \<le> length (ring_contents p)"
    and fits: "ring_read_fits p n" and mem: "A (Site ''ring_buffer_read:dest'')"
  shows "\<exists>p'. ring_buffer_read A p n advance = Inr (Some (take n (ring_contents p)), p') \<and> ring_wf p' \<and>
    ring_contents p' = (if advance then drop n (ring_contents p) else ring_contents p) \<and>
    ring_capacity p' = ring_capacity p"
proof -
  from wf obtain r d where p: "p = Some r" and d: "rb_data r = Some d" and L: "length d = rb_size r"
    and h: "\<not> rb_held r" and b: "rb_start r < rb_size r" "rb_end r \<le> rb_size r" "rb_used r \<le> rb_size r"
    and em: "rb_end r mod rb_size r = (rb_start r + rb_used r) mod rb_size r"
    by (elim ring_wfE)
  obtain st en sz us da he where r: "r = \<lparr>rb_start = st, rb_end = en, rb_size = sz, rb_used = us,
      rb_data = da, rb_held = he\<rparr>" by (cases r)
  from n p d have nu: "n \<le> us" and us: "0 < us" by (simp_all add: r)
  show ?thesis
  proof (cases "st < en")
    case True
    then have en: "en = st + us"
      using ring_end_contiguous [of st sz en us] b em us by (simp add: r)
    have tk: "take n (circ d st us) = take n (drop st d)"
      using nu en L b by (simp add: take_circ circ_contiguous r)
    have dr: "drop n (circ d st us) = circ d (st + n) (us - n)"
      using nu by (rule drop_circ)
    have full: "st + us = sz \<and> us - n = 0" if "sz \<le> st + n"
      using that nu en b by (simp add: r)
    show ?thesis
      using p d L h b em n nu us True en tk dr full mem
      by (cases "sz \<le> st + n") (auto simp: r Let_def)
  next
    case False
    then have en: "en + sz = st + us"
      using ring_end_wrapped [of st sz en us] b em us by (simp add: r)
    with fits False p have f: "sz - st \<le> n" by (simp add: r)
    from b have "st \<le> sz" by (simp add: r)
    then obtain f where sz: "sz = st + f" by (auto simp: le_iff_add)
    with f obtain m where m: "n = f + m" by (auto simp: le_iff_add)
    have me: "m \<le> en" using nu en sz m by simp
    have msz: "m < sz" using me False b by (simp add: r)
    have tk: "take n (circ d st us) = drop st d @ take m d"
      using L nu b sz m n us me en False
      by (simp add: take_circ r) (subst circ_wrapped, auto simp: r)
    have dr: "drop n (circ d st us) = circ d m (us - n)"
      using nu sz m L circ_mod [of d "st + n" "us - n"] circ_mod [of d m "us - n"]
      by (simp add: drop_circ r flip: add.assoc)
    have "m + (us - n) = en"
      using en nu sz m by linarith
    then have em': "en mod sz = (m + (us - n)) mod sz" by simp
    show ?thesis
      using p d L h b em em' n nu us False sz m me msz tk dr mem
      by (auto simp: r Let_def min_absorb2)
  qed
qed

lemma ring_buffer_read_overflow:
  assumes wf: "ring_wf p" and n: "0 < n" "n \<le> length (ring_contents p)"
    and fits: "\<not> ring_read_fits p n" and mem: "A (Site ''ring_buffer_read:dest'')"
  shows "ring_buffer_read A p n advance = Inl OutOfBounds"
  using assms by (elim ring_wfE) (simp add: Let_def)

lemma ring_buffer_read_short:
  assumes "ring_wf p" "length (ring_contents p) < n"
  shows "ring_buffer_read A p n advance = Inr (None, p)"
  using assms by (elim ring_wfE) (simp add: Let_def)

lemma ring_read_fits_all:
  assumes wf: "ring_wf p" and ne: "ring_contents p \<noteq> []"
  shows "ring_read_fits p (length (ring_contents p))"
proof -
  from wf obtain r d where p: "p = Some r" "rb_data r = Some d"
    "rb_start r < rb_size r" "rb_end r \<le> rb_size r" "rb_used r \<le> rb_size r"
    "rb_end r mod rb_size r = (rb_start r + rb_used r) mod rb_size r"
    by (elim ring_wfE)
  from ne p have "0 < rb_used r" by (cases "rb_used r") auto
  then show ?thesis
    using ring_end_wrapped [of "rb_start r" "rb_size r" "rb_end r" "rb_used r"] p
    by (cases "rb_start r < rb_end r") auto
qed

lemma ring_buffer_drain_ok:
  assumes wf: "ring_wf p" and ne: "ring_contents p \<noteq> []" and mem: "A (Site ''ring_buffer_read:dest'')"
  shows "\<exists>p'. ring_buffer_drain A p = Inr (Some (ring_contents p), length (ring_contents p), p') \<and>
    ring_wf p' \<and> ring_contents p' = [] \<and> ring_capacity p' = ring_capacity p"
proof -
  let ?n = "length (ring_contents p)"
  have "\<exists>p'. ring_buffer_read A p ?n True = Inr (Some (take ?n (ring_contents p)), p') \<and> ring_wf p' \<and>
    ring_contents p' = (if True then drop ?n (ring_contents p) else ring_contents p) \<and>
    ring_capacity p' = ring_capacity p"
    by (rule ring_buffer_read_ok) (use assms ring_read_fits_all in auto)
  moreover from wf obtain r where "p = Some r" by (elim ring_wfE)
  ultimately show ?thesis
    using ring_buffer_used_ok [OF wf] by auto
qed

lemma ring_buffer_drain_empty:
  "ring_wf p \<Longrightarrow> ring_contents p = [] \<Longrightarrow> ring_buffer_drain A p = Inl UnlockNotHeld"
  by (elim ring_wfE) (auto simp: circ_def)

lemma ring_buffer_advance_ok:
  assumes wf: "ring_wf p"
  shows "\<exists>p'. ring_buffer_advance p n = Inr p' \<and> ring_wf p' \<and>
    ring_contents p' = drop n (ring_contents p) \<and> ring_capacity p' = ring_capacity p"
proof (cases "n = 0")
  case True
  with wf show ?thesis by (cases p) auto
next
  case False
  from wf obtain r d where p: "p = Some r" and d: "rb_data r = Some d" and L: "length d = rb_size r"
    and h: "\<not> rb_held r" and b: "rb_start r < rb_size r" "rb_end r \<le> rb_size r" "rb_used r \<le> rb_size r"
    and em: "rb_end r mod rb_size r = (rb_start r + rb_used r) mod rb_size r"
    by (elim ring_wfE)
  let ?k = "min n (rb_used r)"
  have "drop n (circ d (rb_start r) (rb_used r)) = drop ?k (circ d (rb_start r) (rb_used r))"
    by (simp add: min_def)
  also have "\<dots> = circ d (rb_start r + ?k) (rb_used r - ?k)" by (simp add: drop_circ)
  also have "\<dots> = circ d ((rb_start r + ?k) mod rb_size r) (rb_used r - ?k)"
    using circ_mod [of d] L by metis
  finally have c: "drop n (circ d (rb_start r) (rb_used r)) =
      circ d ((rb_start r + ?k) mod rb_size r) (rb_used r - ?k)" .
  have "((rb_start r + ?k) mod rb_size r + (rb_used r - ?k)) mod rb_size r = rb_end r mod rb_size r"
    unfolding em mod_add_left_eq by (simp add: add.assoc)
  with False p d L h b c show ?thesis
    by (auto simp: Let_def ring_buffer_data_index_def)
qed

text \<open>Comparing with the unread bytes.\<close>

lemma ring_index: "ring_wf (Some r) \<Longrightarrow> rb_data r = Some d \<Longrightarrow> i < rb_used r \<Longrightarrow>
  bindr (ring_buffer_data_index r i) (mem_get d) = Inr (ring_contents (Some r) ! i)"
  by (auto simp: ring_buffer_data_index_def)

lemma ring_held_same [simp]: "\<not> rb_held r \<Longrightarrow> r\<lparr>rb_held := False\<rparr> = r"
  by (cases r) simp

lemma ring_index_held [simp]:
  "ring_buffer_data_index (r\<lparr>rb_held := h\<rparr>) i = ring_buffer_data_index r i"
  by (simp add: ring_buffer_data_index_def)

lemma ring_compare_loop_held [simp]:
  "ring_buffer_compare_loop (r\<lparr>rb_held := h\<rparr>) d compare i n = ring_buffer_compare_loop r d compare i n"
  by (induction n arbitrary: i) (simp_all cong: bindr_cong if_cong)

lemma ring_compare_loop_zero:
  assumes "ring_wf (Some r)" "rb_data r = Some d" "i + n \<le> length compare"
  shows "ring_buffer_compare_loop r d compare i n = Inr 0 \<longleftrightarrow>
         (\<forall>j<n. i + j < rb_used r \<and> ring_contents (Some r) ! (i + j) = compare ! (i + j))"
  using assms(3)
proof (induction n arbitrary: i)
  case 0
  then show ?case by simp
next
  case (Suc n)
  show ?case
  proof (cases "i < rb_used r")
    case False
    then show ?thesis by (auto intro!: exI [of _ 0])
  next
    case True
    have "ring_buffer_compare_loop r d compare i (Suc n) = Inr 0 \<longleftrightarrow>
        ring_contents (Some r) ! i = compare ! i \<and>
        ring_buffer_compare_loop r d compare (Suc i) n = Inr 0"
      using True Suc.prems ring_index [OF assms(1,2) True]
      by (auto simp: word_uint_eq_iff simp del: ring_contents.simps)
    also have "\<dots> \<longleftrightarrow> (\<forall>j<Suc n. i + j < rb_used r \<and> ring_contents (Some r) ! (i + j) = compare ! (i + j))"
      using Suc.IH [of "Suc i"] Suc.prems True by (simp add: All_less_Suc2 del: ring_contents.simps)
    finally show ?thesis .
  qed
qed

text \<open>\<^verbatim>\<open>ring_buffer_compare\<close> with a length is a prefix test on the unread bytes.\<close>

lemma ring_buffer_compare_zero:
  assumes wf: "ring_wf p" and n: "0 < n" "n \<le> length compare"
  shows "ring_buffer_compare p (Some compare) n = Inr (0, p) \<longleftrightarrow>
         take n compare = take n (ring_contents p) \<and> n \<le> length (ring_contents p)"
proof -
  from wf obtain r d where p: "p = Some r" "rb_data r = Some d" "\<not> rb_held r"
    by (elim ring_wfE)
  let ?c = "ring_contents p"
  have "ring_buffer_compare p (Some compare) n = Inr (0, p) \<longleftrightarrow>
      ring_buffer_compare_loop r d compare 0 n = Inr 0"
    using p n by (cases "ring_buffer_compare_loop r d compare 0 n") simp_all
  also have "\<dots> \<longleftrightarrow> (\<forall>j<n. j < length ?c \<and> ?c ! j = compare ! j)"
    using ring_compare_loop_zero [of r d 0 n compare] wf p n by simp
  also have "\<dots> \<longleftrightarrow> take n compare = take n ?c \<and> n \<le> length ?c"
  proof
    assume all: "\<forall>j<n. j < length ?c \<and> ?c ! j = compare ! j"
    then have "n \<le> length ?c" using n by (cases n) (auto dest: spec [of _ "n - 1"])
    with all n show "take n compare = take n ?c \<and> n \<le> length ?c"
      by (auto intro!: nth_equalityI)
  next
    assume eq: "take n compare = take n ?c \<and> n \<le> length ?c"
    then have "\<And>j. j < n \<Longrightarrow> compare ! j = ?c ! j" by (metis nth_take)
    with eq show "\<forall>j<n. j < length ?c \<and> ?c ! j = compare ! j" by auto
  qed
  finally show ?thesis .
qed

lemma ring_buffer_char_compare_ok:
  assumes wf: "ring_wf p"
  shows "ring_buffer_char_compare p c i =
    Inr (if i < length (ring_contents p) \<and> ring_contents p ! i = c then 1 else 0, p)"
proof -
  from wf obtain r d where p: "p = Some r" "rb_data r = Some d" "\<not> rb_held r"
    by (elim ring_wfE)
  with ring_index [of r d i] wf show ?thesis
    by (cases "i < rb_used r"; cases "ring_buffer_data_index r i") (auto split: if_splits)
qed

lemma ring_buffer_resize_ok:
  assumes wf: "ring_wf p" and ne: "ring_contents p \<noteq> []" and fit: "length (ring_contents p) \<le> n"
    and mem: "\<And>s. A s"
  shows "\<exists>p'. ring_buffer_resize A p n = Inr (1, p') \<and> ring_wf p' \<and>
    ring_contents p' = ring_contents p \<and> ring_capacity p' = n"
proof -
  let ?n = "length (ring_contents p)"
  have "\<exists>p'. ring_buffer_read A p ?n False = Inr (Some (take ?n (ring_contents p)), p') \<and> ring_wf p' \<and>
    ring_contents p' = (if False then drop ?n (ring_contents p) else ring_contents p) \<and>
    ring_capacity p' = ring_capacity p"
    by (rule ring_buffer_read_ok) (use assms ring_read_fits_all in auto)
  then obtain p' where rd: "ring_buffer_read A p ?n False = Inr (Some (ring_contents p), p')"
    and wf': "ring_wf p'" by auto
  from wf' obtain r' where p': "p' = Some r'" "\<not> rb_held r'" by (elim ring_wfE)
  obtain r where p: "p = Some r" using wf by (elim ring_wfE)
  let ?new = "Some (r'\<lparr>rb_data := Some (ring_contents p @ replicate (n - ?n) 0),
    rb_start := 0, rb_end := ?n, rb_size := n, rb_used := ?n\<rparr>)"
  have n: "0 < n" "0 < ?n" using ne fit by (cases "ring_contents p"; simp)+
  have "ring_buffer_resize A p n = Inr (1, ?new)"
    using rd p' p fit mem ring_buffer_used_ok [OF wf]
    by (simp add: Let_def del: ring_contents.simps(2) ring_buffer_read.simps(2) ring_buffer_used.simps(2))
  moreover have "ring_wf ?new \<and> ring_contents ?new = ring_contents p"
    using n(1) fit p' by (simp add: circ_contiguous)
  ultimately show ?thesis by simp
qed

lemma ring_buffer_resize_empty:
  "ring_wf p \<Longrightarrow> ring_contents p = [] \<Longrightarrow> A (Site ''ring_buffer_resize:new_data'') \<Longrightarrow>
   ring_buffer_resize A p n = Inl UnlockNotHeld"
  by (elim ring_wfE) (auto simp: circ_def Let_def)

section \<open>The contract of a bounded byte queue\<close>

text \<open>
  What the clients of the ring use: an operation that appends \<open>n\<close> bytes of a buffer or refuses
  all of them, one that removes and one that only looks at the oldest byte, one that drops
  bytes, and the number of bytes in the queue.
\<close>

locale byte_fifo =
  fixes wf :: "'s \<Rightarrow> bool" and view :: "'s \<Rightarrow> bytes" and cap :: "'s \<Rightarrow> nat"
    and used :: "'s \<Rightarrow> (nat \<times> 's) result"
    and put :: "'s \<Rightarrow> bytes option \<Rightarrow> nat \<Rightarrow> (nat \<times> 's) result"
    and get :: "'s \<Rightarrow> bool \<Rightarrow> (int \<times> byte \<times> 's) result"
    and skip :: "'s \<Rightarrow> nat \<Rightarrow> 's result"
  assumes bounded: "wf s \<Longrightarrow> length (view s) \<le> cap s"
    and used: "wf s \<Longrightarrow> used s = Inr (length (view s), s)"
    and put_room: "wf s \<Longrightarrow> 0 < n \<Longrightarrow> n \<le> length xs \<Longrightarrow> length (view s) + n \<le> cap s \<Longrightarrow>
      \<exists>s'. put s (Some xs) n = Inr (n, s') \<and> wf s' \<and> view s' = view s @ take n xs \<and> cap s' = cap s"
    and put_full: "wf s \<Longrightarrow> 0 < n \<Longrightarrow> cap s < length (view s) + n \<Longrightarrow> put s (Some xs) n = Inr (0, s)"
    and put_nothing: "wf s \<Longrightarrow> put s (Some xs) 0 = Inr (0, s)"
    and get_empty: "wf s \<Longrightarrow> view s = [] \<Longrightarrow> get s advance = Inr (-1, 0, s)"
    and get_first: "wf s \<Longrightarrow> view s = b # bs \<Longrightarrow>
      \<exists>s'. get s True = Inr (0, b, s') \<and> wf s' \<and> view s' = bs \<and> cap s' = cap s"
    and peek_first: "wf s \<Longrightarrow> view s = b # bs \<Longrightarrow> get s False = Inr (0, b, s)"
    and skip: "wf s \<Longrightarrow> \<exists>s'. skip s n = Inr s' \<and> wf s' \<and> view s' = drop n (view s) \<and> cap s' = cap s"

text \<open>A client: any sequence of calls, with what each of them answers.\<close>

datatype fifo_op = Put bytes | Get | Peek | Skip nat | Used

datatype fifo_answer = Wrote nat | Byte byte | Empty | Skipped | Level nat

fun fifo_step ::
    "('s \<Rightarrow> (nat \<times> 's) result) \<Rightarrow> ('s \<Rightarrow> bytes option \<Rightarrow> nat \<Rightarrow> (nat \<times> 's) result) \<Rightarrow>
     ('s \<Rightarrow> bool \<Rightarrow> (int \<times> byte \<times> 's) result) \<Rightarrow> ('s \<Rightarrow> nat \<Rightarrow> 's result) \<Rightarrow>
     fifo_op \<Rightarrow> 's \<Rightarrow> (fifo_answer \<times> 's) result" where
  "fifo_step used put get skip (Put xs) s =
     bindr (put s (Some xs) (length xs)) (\<lambda>(n, s). Inr (Wrote n, s))"
| "fifo_step used put get skip Get s =
     bindr (get s True) (\<lambda>(ret, b, s). Inr (if ret = 0 then Byte b else Empty, s))"
| "fifo_step used put get skip Peek s =
     bindr (get s False) (\<lambda>(ret, b, s). Inr (if ret = 0 then Byte b else Empty, s))"
| "fifo_step used put get skip (Skip n) s = bindr (skip s n) (\<lambda>s. Inr (Skipped, s))"
| "fifo_step used put get skip Used s = bindr (used s) (\<lambda>(n, s). Inr (Level n, s))"

fun fifo_run :: "('op \<Rightarrow> 's \<Rightarrow> ('a \<times> 's) result) \<Rightarrow> 'op list \<Rightarrow> 's \<Rightarrow> ('a list \<times> 's) result" where
  "fifo_run step [] s = Inr ([], s)"
| "fifo_run step (op # ops) s =
     bindr (step op s) (\<lambda>(a, s). bindr (fifo_run step ops s) (\<lambda>(as, s). Inr (a # as, s)))"

text \<open>The specification: a list of bytes that never grows past its capacity.\<close>

fun fifo_spec_step :: "nat \<Rightarrow> fifo_op \<Rightarrow> bytes \<Rightarrow> fifo_answer \<times> bytes" where
  "fifo_spec_step c (Put xs) q =
     (if length q + length xs \<le> c then (Wrote (length xs), q @ xs) else (Wrote 0, q))"
| "fifo_spec_step c Get q = (case q of [] \<Rightarrow> (Empty, []) | b # bs \<Rightarrow> (Byte b, bs))"
| "fifo_spec_step c Peek q = (case q of [] \<Rightarrow> (Empty, []) | b # bs \<Rightarrow> (Byte b, q))"
| "fifo_spec_step c (Skip n) q = (Skipped, drop n q)"
| "fifo_spec_step c Used q = (Level (length q), q)"

fun fifo_spec_run :: "nat \<Rightarrow> fifo_op list \<Rightarrow> bytes \<Rightarrow> fifo_answer list \<times> bytes" where
  "fifo_spec_run c [] q = ([], q)"
| "fifo_spec_run c (op # ops) q =
     (let (a, q) = fifo_spec_step c op q; (as, q) = fifo_spec_run c ops q in (a # as, q))"

context byte_fifo
begin

lemma step_refines:
  assumes "wf s"
  shows "\<exists>s'. fifo_step used put get skip op s = Inr (fst (fifo_spec_step (cap s) op (view s)), s') \<and>
    wf s' \<and> view s' = snd (fifo_spec_step (cap s) op (view s)) \<and> cap s' = cap s"
proof (cases op)
  case (Put xs)
  with assms put_room [of s "length xs" xs] put_full [of s "length xs" xs] put_nothing [of s "[]"]
  show ?thesis by (cases "xs = []"; cases "length (view s) + length xs \<le> cap s") (auto dest: bounded)
next
  case Get
  with assms show ?thesis
    by (cases "view s") (use get_empty [of s True] get_first [of s] in fastforce)+
next
  case Peek
  with assms show ?thesis
    by (cases "view s") (use get_empty [of s False] peek_first [of s] in fastforce)+
next
  case (Skip n)
  with assms skip [of s n] show ?thesis by auto
next
  case Used
  with assms used [of s] show ?thesis by simp
qed

lemma run_refines:
  assumes "wf s"
  shows "\<exists>s'. fifo_run (fifo_step used put get skip) ops s =
      Inr (fst (fifo_spec_run (cap s) ops (view s)), s') \<and> wf s' \<and>
    view s' = snd (fifo_spec_run (cap s) ops (view s)) \<and> cap s' = cap s"
  using assms
proof (induction ops arbitrary: s)
  case Nil
  then show ?case by simp
next
  case (Cons op ops)
  from step_refines [OF Cons.prems, of op] obtain s' where
    s': "fifo_step used put get skip op s = Inr (fst (fifo_spec_step (cap s) op (view s)), s')"
      "wf s'" "view s' = snd (fifo_spec_step (cap s) op (view s))" "cap s' = cap s" by blast
  from Cons.IH [OF s'(2)] s' show ?case by (auto simp: split_beta)
qed

end

lemma ring_buffer_peek_ok:
  "ring_wf p \<Longrightarrow> ring_contents p = b # bs \<Longrightarrow> ring_buffer_read_byte p False = Inr (0, b, p)"
  by (elim ring_wfE) (auto simp: circ_def upt_rec split: if_splits)

interpretation ring: byte_fifo ring_wf ring_contents ring_capacity ring_buffer_used
  ring_buffer_write ring_buffer_read_byte ring_buffer_advance
  by unfold_locales
    (fact ring_length_le ring_buffer_used_ok ring_buffer_write_ok ring_buffer_write_full
      ring_buffer_write_nothing ring_buffer_read_byte_empty ring_buffer_read_byte_ok
      ring_buffer_peek_ok ring_buffer_advance_ok)+

abbreviation ring_step :: "fifo_op \<Rightarrow> ring_buffer option \<Rightarrow> (fifo_answer \<times> ring_buffer option) result" where
  "ring_step \<equiv> fifo_step ring_buffer_used ring_buffer_write ring_buffer_read_byte ring_buffer_advance"

section \<open>Properties\<close>

text \<open>C19: From its creation on, any sequence of writes, byte reads, peeks, skips and level queries
  answers what a list of bytes with a maximal length answers: the ring is a bounded FIFO, with
  no fault and no lost or reordered byte whatever the wrap-around.\<close>

theorem ring_buffer_refines_fifo:
  assumes "0 < sz" "\<forall>s. A s"
  shows "\<exists>r r'. ring_buffer_create A sz = Inr r \<and>
    fifo_run ring_step ops r = Inr (fst (fifo_spec_run sz ops []), r') \<and>
    ring_contents r' = snd (fifo_spec_run sz ops []) \<and> ring_wf r'"
proof -
  from ring_buffer_create_ok [of sz A] assms obtain r where
    r: "ring_buffer_create A sz = Inr r" "ring_wf r" "ring_contents r = []" "ring_capacity r = sz"
    by blast
  with ring.run_refines [OF r(2), of ops] show ?thesis by auto
qed

theorem ring_buffer_refines_fifo_witness:
  "\<exists>r r'. ring_buffer_create (\<lambda>_. True) 3 = Inr r \<and>
    fifo_run ring_step [Put [1, 2], Get, Put [3, 4], Put [5], Peek, Skip 2, Get, Get] r =
      Inr ([Wrote 2, Byte 1, Wrote 2, Wrote 0, Byte 2, Skipped, Byte 4, Empty], r')"
  using ring_buffer_refines_fifo
    [of 3 "\<lambda>_. True" "[Put [1, 2], Get, Put [3, 4], Put [5], Peek, Skip 2, Get, Get]"]
  by (auto simp: Let_def)

text \<open>\<^verbatim>\<open>ring_buffer_read\<close> of some of the unread bytes succeeds exactly when they do not end
  before the end of the array in a wrapped ring: then it returns the oldest bytes and removes
  them when asked to. In the other case its first copy, up to the end of the array, is longer
  than the allocated destination.\<close>

theorem ring_buffer_read_exact:
  assumes "ring_wf p" "0 < n" "n \<le> length (ring_contents p)" "A (Site ''ring_buffer_read:dest'')"
  shows "(ring_read_fits p n \<longrightarrow>
      (\<exists>p'. ring_buffer_read A p n advance = Inr (Some (take n (ring_contents p)), p') \<and> ring_wf p' \<and>
        ring_contents p' = (if advance then drop n (ring_contents p) else ring_contents p))) \<and>
    (\<not> ring_read_fits p n \<longrightarrow> ring_buffer_read A p n advance = Inl OutOfBounds)"
  using ring_buffer_read_ok [of p n A advance] ring_buffer_read_overflow [of p n A advance] assms
  by blast

text \<open>A ring of four bytes that holds the bytes 3, 4 and 5 around the end of its array.\<close>

definition ring_example :: "ring_buffer option" where
  "ring_example = Some \<lparr>rb_start = 2, rb_end = 1, rb_size = 4, rb_used = 3,
                        rb_data = Some [5, 0, 3, 4], rb_held = False\<rparr>"

lemma ring_example_simps [simp]:
  "ring_wf ring_example" "ring_contents ring_example = [3, 4, 5]"
  "ring_read_fits ring_example n \<longleftrightarrow> 2 \<le> n"
  by (simp_all add: ring_example_def circ_def upt_rec)

theorem ring_buffer_read_exact_witness:
  "ring_buffer_read (\<lambda>_. True) ring_example 1 True = Inl OutOfBounds \<and>
   (\<exists>p'. ring_buffer_read (\<lambda>_. True) ring_example 2 True = Inr (Some [3, 4], p') \<and>
         ring_contents p' = [5])"
  using ring_buffer_read_exact [of ring_example 1 "\<lambda>_. True" True]
    ring_buffer_read_exact [of ring_example 2 "\<lambda>_. True" True]
  by auto

text \<open>Comparing a given number of bytes with the ring answers 0 exactly when the ring starts
  with those bytes; the ring is left as it is.\<close>
theorem ring_buffer_compare_prefix:
  assumes "ring_wf p" "0 < n" "n \<le> length bs"
  shows "ring_buffer_compare p (Some bs) n = Inr (0, p) \<longleftrightarrow>
    (\<exists>rest. ring_contents p = take n bs @ rest)"
proof -
  have "take n bs = take n (ring_contents p) \<and> n \<le> length (ring_contents p) \<longleftrightarrow>
    (\<exists>rest. ring_contents p = take n bs @ rest)"
  proof
    assume "take n bs = take n (ring_contents p) \<and> n \<le> length (ring_contents p)"
    then have "ring_contents p = take n bs @ drop n (ring_contents p)" by simp
    then show "\<exists>rest. ring_contents p = take n bs @ rest" ..
  qed (use assms in auto)
  with ring_buffer_compare_zero [OF assms] show ?thesis by simp
qed

theorem ring_buffer_compare_prefix_witness:
  "ring_buffer_compare ring_example (Some [3, 4, 7]) 2 = Inr (0, ring_example) \<and>
   ring_buffer_compare ring_example (Some [3, 4, 7]) 3 \<noteq> Inr (0, ring_example)"
  using ring_buffer_compare_prefix [of ring_example 2 "[3, 4, 7]"]
    ring_buffer_compare_prefix [of ring_example 3 "[3, 4, 7]"]
  by simp

end
