(* ===== verification/Byte_Buffers.thy ===== *)
theory Byte_Buffers
  imports Prelude
begin

text \<open>
  The growing buffers: \<^verbatim>\<open>dbuffer.c\<close> (bytes) and \<^verbatim>\<open>dstring.c\<close> (NUL-terminated strings). Both
  grow in blocks. Their mutexes are locked and unlocked within each function on every path
  and are not part of the records. The contract \<open>append_buffer\<close> of what both promise is
  interpreted for the two. A copy of zero bytes from NULL copies nothing.

  A string that has to grow is read once more through the old pointer, after \<^verbatim>\<open>X_REALLOC\<close> may have
  freed what it points to: \<open>dstring_append\<close> is without fault only if the block has room or is extended
  where it lies.
\<close>

section \<open>\<^verbatim>\<open>dbuffer.c\<close>\<close>

record dbuffer =
  db_len :: nat
  db_block_size :: nat
  db_num_blocks :: nat
  db_data :: "bytes option"

definition DBUFFER_DEFAULT_BLOCK_SIZE :: nat where
  "DBUFFER_DEFAULT_BLOCK_SIZE = 512"

definition dbuffer_create :: "alloc \<Rightarrow> nat \<Rightarrow> dbuffer option" where
  "dbuffer_create A block_size =
     (if block_size = 0 then None
      else if \<not> A (Site ''dbuffer_create:new_buffer'') then None
      else Some \<lparr>db_len = 0, db_block_size = block_size, db_num_blocks = 0, db_data = None\<rparr>)"

definition dbuffer_reset :: "dbuffer option \<Rightarrow> int \<times> dbuffer option" where
  "dbuffer_reset dbuffer =
     (case dbuffer of None \<Rightarrow> (0, None)
      | Some b \<Rightarrow> (1, Some (b\<lparr>db_data := None, db_len := 0, db_num_blocks := 0\<rparr>)))"

text \<open>The argument is a \<^verbatim>\<open>dbuffer_t **\<close>; the inner pointer is used without a check.\<close>

definition dbuffer_destroy :: "dbuffer option option \<Rightarrow> dbuffer option option result" where
  "dbuffer_destroy dbuffer =
     (case dbuffer of None \<Rightarrow> Inr None
      | Some b \<Rightarrow> bindr (deref (snd (dbuffer_reset b))) (\<lambda>_. Inr (Some None)))"

definition dbuffer_length :: "dbuffer option \<Rightarrow> nat" where
  "dbuffer_length dbuffer =
     (case dbuffer of None \<Rightarrow> 0
      | Some b \<Rightarrow> (case db_data b of None \<Rightarrow> 0 | Some _ \<Rightarrow> db_len b))"

fun dbuffer_write ::
    "alloc \<Rightarrow> dbuffer option \<Rightarrow> bytes option \<Rightarrow> nat \<Rightarrow> (nat \<times> dbuffer option) result" where
  "dbuffer_write A None in_buffer in_buffer_len = Inr (0, None)"
| "dbuffer_write A (Some b) None in_buffer_len = Inr (0, Some b)"
| "dbuffer_write A (Some b) (Some inb) in_buffer_len =
     (let required_len = db_len b + in_buffer_len + 1;
          allocated_len = db_num_blocks b * db_block_size b;
          copy = (\<lambda>b. bindr (deref (db_data b)) (\<lambda>d.
                 bindr (mem_read inb 0 in_buffer_len) (\<lambda>xs.
                 bindr (mem_write d (db_len b) xs) (\<lambda>d.
                 Inr (in_buffer_len,
                      Some (b\<lparr>db_data := Some d, db_len := db_len b + in_buffer_len\<rparr>))))))
      in if allocated_len < required_len then
           if db_block_size b = 0 then Inl DivByZero
           else let new_block_count = required_len div db_block_size b + 1;
                    new_allocated_len = new_block_count * db_block_size b
                in if \<not> A (Site ''dbuffer_write:new_dbuffer_data'') then Inr (0, Some b)
                   else let old = (case db_data b of None \<Rightarrow> [] | Some d \<Rightarrow> take allocated_len d)
                        in copy (b\<lparr>db_num_blocks := new_block_count,
                                   db_data := Some (old @ replicate (new_allocated_len - length old) 0)\<rparr>)
         else copy b)"

text \<open>\<^verbatim>\<open>memset\<close> runs on the result of the allocation before it is looked at.\<close>

fun dbuffer_read :: "alloc \<Rightarrow> dbuffer option \<Rightarrow> (nat \<times> bytes option) result" where
  "dbuffer_read A None = Inr (0, None)"
| "dbuffer_read A (Some b) =
     (if \<not> A (Site ''dbuffer_read:out_buffer'') then Inl NullDeref
      else bindr (if db_len b = 0 then Inr []
                  else bindr (deref (db_data b)) (\<lambda>d. mem_read d 0 (db_len b))) (\<lambda>xs.
           Inr (db_len b, Some xs)))"

fun dbuffer_wf :: "dbuffer option \<Rightarrow> bool" where
  "dbuffer_wf None = False"
| "dbuffer_wf (Some b) =
     (0 < db_block_size b \<and>
      (case db_data b of None \<Rightarrow> db_len b = 0 \<and> db_num_blocks b = 0
       | Some d \<Rightarrow> length d = db_num_blocks b * db_block_size b \<and> db_len b < length d))"

fun dbuffer_view :: "dbuffer option \<Rightarrow> bytes" where
  "dbuffer_view None = []"
| "dbuffer_view (Some b) = (case db_data b of None \<Rightarrow> [] | Some d \<Rightarrow> take (db_len b) d)"

lemma dbuffer_wfE:
  assumes "dbuffer_wf p"
  obtains (empty) b where "p = Some b" "db_data b = None" "db_len b = 0" "db_num_blocks b = 0"
      "0 < db_block_size b"
    | (data) b d where "p = Some b" "db_data b = Some d" "length d = db_num_blocks b * db_block_size b"
      "db_len b < length d" "0 < db_block_size b"
  using assms by (cases p) (auto split: option.splits)

lemma dbuffer_create_ok:
  "0 < n \<Longrightarrow> A (Site ''dbuffer_create:new_buffer'') \<Longrightarrow>
   dbuffer_wf (dbuffer_create A n) \<and> dbuffer_view (dbuffer_create A n) = []"
  by (simp add: dbuffer_create_def)

lemma dbuffer_reset_ok:
  "dbuffer_wf p \<Longrightarrow> fst (dbuffer_reset p) = 1 \<and> dbuffer_wf (snd (dbuffer_reset p)) \<and>
    dbuffer_view (snd (dbuffer_reset p)) = []"
  by (elim dbuffer_wfE) (simp_all add: dbuffer_reset_def)

lemma dbuffer_length_ok: "dbuffer_wf p \<Longrightarrow> dbuffer_length p = length (dbuffer_view p)"
  by (elim dbuffer_wfE) (simp_all add: dbuffer_length_def)

lemma dbuffer_read_ok:
  "dbuffer_wf p \<Longrightarrow> A (Site ''dbuffer_read:out_buffer'') \<Longrightarrow>
   dbuffer_read A p = Inr (length (dbuffer_view p), Some (dbuffer_view p))"
  by (elim dbuffer_wfE) auto

lemma block_count_enough: "0 < bs \<Longrightarrow> n < (n div bs + 1) * (bs :: nat)"
  by (metis Suc_eq_plus1 dividend_less_div_times mult.commute mult_Suc_right add.commute)

lemma dbuffer_write_ok:
  assumes wf: "dbuffer_wf p" and n: "n \<le> length xs" and mem: "A (Site ''dbuffer_write:new_dbuffer_data'')"
  shows "\<exists>p'. dbuffer_write A p (Some xs) n = Inr (n, p') \<and> dbuffer_wf p' \<and>
    dbuffer_view p' = dbuffer_view p @ take n xs"
  using wf
proof (cases rule: dbuffer_wfE)
  case (empty b)
  let ?c = "(n + 1) div db_block_size b + 1"
  have c: "n + 1 < ?c * db_block_size b" using empty by (intro block_count_enough)
  then have "n < ?c * db_block_size b" by simp
  with c empty n mem show ?thesis by (simp add: Let_def min_absorb2)
next
  case (data b d)
  let ?r = "db_len b + n + 1"
  let ?c = "?r div db_block_size b + 1"
  have c: "?r < ?c * db_block_size b" using data by (intro block_count_enough)
  show ?thesis
  proof (cases "length d < ?r")
    case True
    with c data n mem show ?thesis by (simp add: Let_def min_absorb2)
  next
    case False
    with data n show ?thesis by (simp add: Let_def min_absorb2)
  qed
qed

section \<open>\<^verbatim>\<open>dstring.c\<close>\<close>

text \<open>Fresh memory that is not cleared holds the bytes of the parameter \<open>junk\<close>. The
  functions use \<^verbatim>\<open>strlen\<close> and \<^verbatim>\<open>strcat\<close> on the block. \<open>stays n\<close> says whether \<^verbatim>\<open>X_REALLOC\<close> to \<open>n\<close> octets
  extends the block where it lies. Otherwise the block moves and the old one is freed; the code
  then takes \<^verbatim>\<open>strlen( dstring->data )\<close> of the old one, as \<^verbatim>\<open>dstring->data\<close> is set only after that.\<close>

record dstring =
  ds_block_size :: nat
  ds_num_blocks :: nat
  ds_data :: "bytes option"

definition dstring_create :: "alloc \<Rightarrow> nat \<Rightarrow> dstring option result" where
  "dstring_create A block_size =
     (if block_size = 0 then Inr None
      else if \<not> A (Site ''dstring_create:new_string'') then Inr None
      else if \<not> A (Site ''dstring_create:data'') then Inl NullDeref
      else Inr (Some \<lparr>ds_block_size = block_size, ds_num_blocks = 1,
                      ds_data = Some (replicate block_size 0)\<rparr>))"

definition dstring_reset :: "alloc \<Rightarrow> (nat \<Rightarrow> byte) \<Rightarrow> dstring option \<Rightarrow> int \<times> dstring option" where
  "dstring_reset A junk dstring =
     (case dstring of None \<Rightarrow> (0, None)
      | Some s \<Rightarrow> (1, Some (s\<lparr>ds_num_blocks := 1,
          ds_data := (if A (Site ''dstring_reset:data'') then Some (map junk [0..<ds_block_size s]) else None)\<rparr>)))"

definition dstring_destroy :: "alloc \<Rightarrow> (nat \<Rightarrow> byte) \<Rightarrow> dstring option option \<Rightarrow> dstring option option result" where
  "dstring_destroy A junk dstring =
     (case dstring of None \<Rightarrow> Inr None
      | Some s \<Rightarrow> bindr (deref (snd (dstring_reset A junk s))) (\<lambda>_. Inr (Some None)))"

fun dstring_append ::
    "alloc \<Rightarrow> (nat \<Rightarrow> bool) \<Rightarrow> (nat \<Rightarrow> byte) \<Rightarrow> dstring option \<Rightarrow> bytes option \<Rightarrow> (nat \<times> dstring option) result" where
  "dstring_append A stays junk None in_string = Inr (0, None)"
| "dstring_append A stays junk (Some s) None = Inr (0, Some s)"
| "dstring_append A stays junk (Some s) (Some str) =
     bindr (deref (ds_data s)) (\<lambda>d.
     bindr (c_strlen d) (\<lambda>dlen.
     bindr (c_strlen str) (\<lambda>slen.
     let current_alloc = ds_num_blocks s * ds_block_size s;
         strcat = (\<lambda>s d. bindr (mem_write d dlen (take (slen + 1) str)) (\<lambda>d.
                         Inr (0, Some (s\<lparr>ds_data := Some d\<rparr>))))
     in if dlen + slen \<ge> current_alloc then
          let new_alloc = dlen + slen + 1 in
          if ds_block_size s = 0 then Inl DivByZero
          else let new_block_count = new_alloc div ds_block_size s + 1
               in if \<not> A (Site ''dstring_append:new_dstring_data'') then Inr (0, Some s)
                  else if \<not> stays (new_block_count * ds_block_size s) then Inl UseAfterFree
                  else let new_data = d @ map junk [length d..<new_block_count * ds_block_size s]
                       in bindr (mem_write new_data dlen (replicate (slen + 1) 0)) (\<lambda>new_data.
                          strcat (s\<lparr>ds_num_blocks := new_block_count\<rparr>) new_data)
        else strcat s d)))"

definition dstring_value :: "dstring option \<Rightarrow> bytes option" where
  "dstring_value dstring = (case dstring of None \<Rightarrow> None | Some s \<Rightarrow> ds_data s)"

fun dstring_wf :: "dstring option \<Rightarrow> bool" where
  "dstring_wf None = False"
| "dstring_wf (Some s) =
     (0 < ds_block_size s \<and>
      (case ds_data s of None \<Rightarrow> False
       | Some d \<Rightarrow> length d = ds_num_blocks s * ds_block_size s \<and> 0 \<in> set d))"

fun dstring_view :: "dstring option \<Rightarrow> bytes" where
  "dstring_view None = []"
| "dstring_view (Some s) = (case ds_data s of None \<Rightarrow> [] | Some d \<Rightarrow> c_string d)"

lemma dstring_create_ok:
  "0 < n \<Longrightarrow> \<forall>s. A s \<Longrightarrow> \<exists>p. dstring_create A n = Inr p \<and> dstring_wf p \<and> dstring_view p = []"
  by (cases n) (simp_all add: dstring_create_def c_string_def)

text \<open>The size of the block. A string of \<open>n\<close> characters can be built up if it fits or can always be extended.\<close>

definition dstring_capacity :: "dstring option \<Rightarrow> nat" where
  "dstring_capacity p = (case p of None \<Rightarrow> 0 | Some s \<Rightarrow> ds_num_blocks s * ds_block_size s)"

definition dstring_room :: "(nat \<Rightarrow> bool) \<Rightarrow> nat \<Rightarrow> dstring option \<Rightarrow> bool" where
  "dstring_room stays n p \<longleftrightarrow> (\<forall>k. stays k) \<or> n < dstring_capacity p"

lemma dstring_create_capacity:
  "0 < n \<Longrightarrow> \<forall>s. A s \<Longrightarrow> dstring_create A n = Inr p \<Longrightarrow> dstring_capacity p = n"
  by (auto simp: dstring_create_def dstring_capacity_def)

lemma dstring_append_fits:
  assumes wf: "dstring_wf p" and str: "0 \<in> set str" and fits: "length (dstring_view p) + length (c_string str) < dstring_capacity p"
  shows "\<exists>p'. dstring_append A stays junk p (Some str) = Inr (0, p') \<and> dstring_wf p' \<and>
    dstring_view p' = dstring_view p @ c_string str \<and> dstring_capacity p' = dstring_capacity p"
proof -
  from wf obtain s d where p: "p = Some s" and d: "ds_data s = Some d" and bs: "0 < ds_block_size s"
    and L: "length d = ds_num_blocks s * ds_block_size s" and z: "0 \<in> set d"
    by (cases p) (auto split: option.splits)
  let ?v = "c_string d" and ?w = "c_string str"
  have "0 \<notin> set (?v @ ?w)" using c_string_no_0 by simp
  then have "c_string (?v @ ?w @ 0 # drop (Suc (length ?v + length ?w)) d) = ?v @ ?w"
    using c_string_append [of "?v @ ?w"] by simp
  with fits p d bs L z str show ?thesis
    by (simp add: Let_def take_c_string take_Suc_c_string dstring_capacity_def)
qed

lemma dstring_append_moved:
  assumes wf: "dstring_wf p" and str: "0 \<in> set str" and mem: "\<forall>s. A s" and moves: "\<forall>k. \<not> stays k"
    and full: "dstring_capacity p \<le> length (dstring_view p) + length (c_string str)"
  shows "dstring_append A stays junk p (Some str) = Inl UseAfterFree"
  using assms by (cases p) (auto simp: dstring_capacity_def Let_def split: option.splits)

lemma dstring_append_ok:
  assumes wf: "dstring_wf p" and str: "0 \<in> set str" and mem: "\<forall>s. A s"
    and room: "dstring_room stays n p" "length (dstring_view p) + length (c_string str) \<le> n"
  shows "\<exists>p'. dstring_append A stays junk p (Some str) = Inr (0, p') \<and> dstring_wf p' \<and>
    dstring_view p' = dstring_view p @ c_string str \<and> dstring_room stays n p' \<and>
    (n < dstring_capacity p \<longrightarrow> dstring_capacity p' = dstring_capacity p)"
proof (cases "length (dstring_view p) + length (c_string str) < dstring_capacity p")
  case True
  from dstring_append_fits [OF wf str True, of A stays junk] room(1) show ?thesis by (auto simp: dstring_room_def)
next
  case full: False
  from wf obtain s d where p: "p = Some s" and d: "ds_data s = Some d" and bs: "0 < ds_block_size s"
    and L: "length d = ds_num_blocks s * ds_block_size s" and z: "0 \<in> set d"
    by (cases p) (auto split: option.splits)
  let ?v = "c_string d" and ?w = "c_string str"
  have no0: "0 \<notin> set (?v @ ?w)" using c_string_no_0 by simp
  have grows: "\<not> length ?v + length ?w < length d" using full p d L by (simp add: dstring_capacity_def)
  have stays: "\<forall>k. stays k" "\<not> n < dstring_capacity p" using room full by (auto simp: dstring_room_def)
  let ?c = "(length ?v + length ?w + 1) div ds_block_size s + 1"
  let ?n = "d @ map junk [length d..<?c * ds_block_size s]"
  have c: "length ?v + length ?w + 1 < ?c * ds_block_size s"
    using bs by (intro block_count_enough)
  have n: "length ?n = ?c * ds_block_size s" using grows c by simp
  have tk: "take (length ?v) ?n = ?v"
    using length_c_string [OF z] z by (simp add: take_c_string)
  let ?m = "?v @ replicate (Suc (length ?w)) 0 @ drop (Suc (length ?v + length ?w)) ?n"
  have m1: "mem_write ?n (length ?v) (replicate (Suc (length ?w)) 0) = Inr ?m"
    using n c tk by simp
  have m2: "mem_write ?m (length ?v) (?w @ [0]) =
      Inr (?v @ ?w @ 0 # drop (Suc (length ?v + length ?w)) ?n)"
    using n c by (simp del: replicate_Suc)
  have "c_string (?v @ ?w @ 0 # drop (Suc (length ?v + length ?w)) ?n) = ?v @ ?w"
    using c_string_append [OF no0] by simp
  moreover have "length (?v @ ?w @ 0 # drop (Suc (length ?v + length ?w)) ?n) = ?c * ds_block_size s"
    using n c by simp
  ultimately show ?thesis
    using grows p d bs L z str mem m1 m2 stays
    by (simp add: Let_def take_Suc_c_string dstring_room_def del: mem_write_ok replicate_Suc map_append)
qed

section \<open>The contract of a buffer that is appended to\<close>

locale append_buffer =
  fixes wf :: "'s \<Rightarrow> bool" and view :: "'s \<Rightarrow> bytes" and ok :: "bytes \<Rightarrow> bool" and val :: "bytes \<Rightarrow> bytes"
    and put :: "'s \<Rightarrow> bytes \<Rightarrow> (nat \<times> 's) result"
  assumes put: "wf s \<Longrightarrow> ok xs \<Longrightarrow> \<exists>n s'. put s xs = Inr (n, s') \<and> wf s' \<and> view s' = view s @ val xs"

text \<open>A client writes several pieces one after the other.\<close>

fun put_all :: "('s \<Rightarrow> bytes \<Rightarrow> (nat \<times> 's) result) \<Rightarrow> bytes list \<Rightarrow> 's \<Rightarrow> 's result" where
  "put_all put [] s = Inr s"
| "put_all put (xs # xss) s = bindr (put s xs) (\<lambda>(n, s). put_all put xss s)"

context append_buffer
begin

lemma put_all:
  assumes "wf s" "\<forall>xs\<in>set xss. ok xs"
  shows "\<exists>s'. put_all put xss s = Inr s' \<and> wf s' \<and> view s' = view s @ concat (map val xss)"
  using assms
proof (induction xss arbitrary: s)
  case Nil
  then show ?case by simp
next
  case (Cons xs xss)
  from put [of s xs] Cons.prems obtain n s' where
    "put s xs = Inr (n, s')" "wf s'" "view s' = view s @ val xs" by auto
  with Cons.IH [of s'] Cons.prems show ?case by auto
qed

end

abbreviation dbuffer_put :: "dbuffer option \<Rightarrow> bytes \<Rightarrow> (nat \<times> dbuffer option) result" where
  "dbuffer_put b xs \<equiv> dbuffer_write (\<lambda>_. True) b (Some xs) (length xs)"

abbreviation dstring_put :: "(nat \<Rightarrow> byte) \<Rightarrow> dstring option \<Rightarrow> bytes \<Rightarrow> (nat \<times> dstring option) result" where
  "dstring_put junk s xs \<equiv> dstring_append (\<lambda>_. True) (\<lambda>_. True) junk s (Some xs)"

interpretation dbuf: append_buffer dbuffer_wf dbuffer_view "\<lambda>_. True" "\<lambda>xs. xs" dbuffer_put
proof unfold_locales
  fix s xs assume "dbuffer_wf s"
  with dbuffer_write_ok [of s "length xs" xs "\<lambda>_. True"]
  show "\<exists>n s'. dbuffer_put s xs = Inr (n, s') \<and> dbuffer_wf s' \<and> dbuffer_view s' = dbuffer_view s @ xs"
    by auto
qed

interpretation dstr: append_buffer dstring_wf dstring_view "\<lambda>xs. 0 \<in> set xs" c_string "dstring_put junk"
proof unfold_locales
  fix s xs assume "dstring_wf s" "(0 :: byte) \<in> set xs"
  with dstring_append_ok [of s xs "\<lambda>_. True" "\<lambda>_. True" "length (dstring_view s) + length (c_string xs)" junk]
  show "\<exists>n s'. dstring_put junk s xs = Inr (n, s') \<and> dstring_wf s' \<and>
      dstring_view s' = dstring_view s @ c_string xs"
    by (auto simp: dstring_room_def)
qed

section \<open>Properties\<close>

text \<open>Whatever pieces are written to a new byte buffer, in whatever block size, reading it
  gives the pieces in order and their total length.\<close>
theorem dbuffer_read_back:
  assumes "0 < block_size"
  shows "\<exists>b. put_all dbuffer_put xss (dbuffer_create (\<lambda>_. True) block_size) = Inr b \<and>
    dbuffer_read (\<lambda>_. True) b = Inr (length (concat xss), Some (concat xss))"
proof -
  have "dbuffer_wf (dbuffer_create (\<lambda>_. True) block_size)"
    "dbuffer_view (dbuffer_create (\<lambda>_. True) block_size) = []"
    using dbuffer_create_ok [of block_size "\<lambda>_. True"] assms by simp_all
  with dbuf.put_all [of _ xss] obtain b where
    "put_all dbuffer_put xss (dbuffer_create (\<lambda>_. True) block_size) = Inr b" "dbuffer_wf b"
    "dbuffer_view b = concat xss" by fastforce
  with dbuffer_read_ok [of b "\<lambda>_. True"] show ?thesis by auto
qed

theorem dbuffer_read_back_witness:
  "\<exists>b. put_all dbuffer_put [[1, 2], [3, 4, 5], []] (dbuffer_create (\<lambda>_. True) 2) = Inr b \<and>
    dbuffer_read (\<lambda>_. True) b = Inr (5, Some [1, 2, 3, 4, 5])"
  using dbuffer_read_back [of 2 "[[1, 2], [3, 4, 5], []]"] by (simp add: numeral_eq_Suc)

end
