(* ===== verification/Midi_State.thy ===== *)
theory Midi_State
  imports Ring_Buffer Byte_Buffers Midi_Command
begin

text \<open>
  The MIDI parser (\<^verbatim>\<open>midi_state.c\<close>): a ring of unread bytes, a hold buffer with the command
  being assembled, and a state machine that turns bytes into commands. \<open>midi_state_send\<close>
  yields the commands in the order in which the code passes them to \<^verbatim>\<open>midi_sender_add\<close>; the
  context it passes along is not looked at. \<open>midi_parse\<close> is the same machine over a list of
  bytes and a list of held bytes; \<open>midi_state_send_refines\<close> relates the two.
\<close>

unbundle bit_operations_syntax

section \<open>State and operations\<close>

datatype midi_state_status_t =
    MIDI_STATE_INIT | MIDI_STATE_WAIT_DELTA | MIDI_STATE_WAIT_COMMAND | MIDI_STATE_WAIT_BYTE_1
  | MIDI_STATE_WAIT_BYTE_2 | MIDI_STATE_WAIT_END_SYSEX | MIDI_STATE_COMMAND_RECEIVED

datatype midi_parse_mode = MIDI_PARSE_MODE_SIMPLE | MIDI_PARSE_MODE_RTP

record midi_state =
  ms_status :: midi_state_status_t
  ms_running_status :: byte
  ms_ring :: "ring_buffer option"
  ms_hold :: "dbuffer option"
  ms_held :: bool
  ms_current_delta :: "64 word"
  ms_partial_sysex :: byte

definition midi_state_lock :: "midi_state \<Rightarrow> midi_state result" where
  "midi_state_lock state = bindr (mutex_lock (ms_held state)) (\<lambda>h. Inr (state\<lparr>ms_held := h\<rparr>))"

definition midi_state_unlock :: "midi_state \<Rightarrow> midi_state result" where
  "midi_state_unlock state = bindr (mutex_unlock (ms_held state)) (\<lambda>h. Inr (state\<lparr>ms_held := h\<rparr>))"

text \<open>\<^verbatim>\<open>current_delta\<close> is not set by the constructor: it is the parameter \<open>junk\<close>.\<close>

definition midi_state_create :: "alloc \<Rightarrow> 64 word \<Rightarrow> nat \<Rightarrow> midi_state option result" where
  "midi_state_create A junk buffer_size =
     (if \<not> A (Site ''midi_state_create:new_midi_state'') then Inr None
      else bindr (ring_buffer_create A buffer_size) (\<lambda>ring.
           Inr (Some \<lparr>ms_status = MIDI_STATE_INIT, ms_running_status = 0, ms_ring = ring,
                      ms_hold = dbuffer_create A DBUFFER_DEFAULT_BLOCK_SIZE, ms_held = False,
                      ms_current_delta = junk, ms_partial_sysex = 0\<rparr>)))"

definition midi_state_reset :: "alloc \<Rightarrow> midi_state option \<Rightarrow> midi_state option result" where
  "midi_state_reset A state =
     (case state of None \<Rightarrow> Inr None
      | Some st \<Rightarrow>
          bindr (midi_state_lock st) (\<lambda>st.
          let st = st\<lparr>ms_status := MIDI_STATE_INIT, ms_running_status := 0,
                      ms_hold := snd (dbuffer_reset (ms_hold st))\<rparr> in
          bindr (case ms_ring st of None \<Rightarrow> Inr None
                 | Some _ \<Rightarrow> bindr (ring_buffer_get_size (ms_ring st)) (\<lambda>(ring_buffer_size, ring).
                             ring_buffer_reset A ring ring_buffer_size)) (\<lambda>ring.
          bindr (midi_state_unlock (st\<lparr>ms_ring := ring\<rparr>)) (\<lambda>st. Inr (Some st)))))"

definition midi_state_write ::
    "midi_state option \<Rightarrow> bytes option \<Rightarrow> nat \<Rightarrow> (int \<times> midi_state option) result" where
  "midi_state_write state in_buffer in_buffer_len =
     (case state of None \<Rightarrow> Inr (0, None)
      | Some st \<Rightarrow>
          if ms_ring st = None \<or> in_buffer = None \<or> in_buffer_len = 0 then Inr (0, Some st)
          else bindr (midi_state_lock st) (\<lambda>st.
               bindr (ring_buffer_write (ms_ring st) in_buffer in_buffer_len) (\<lambda>(_, ring).
               bindr (midi_state_unlock (st\<lparr>ms_ring := ring\<rparr>)) (\<lambda>st. Inr (1, Some st)))))"

definition midi_state_destroy :: "midi_state option option \<Rightarrow> midi_state option option result" where
  "midi_state_destroy state =
     (case state of None \<Rightarrow> Inr None | Some None \<Rightarrow> Inr (Some None)
      | Some (Some st) \<Rightarrow>
          bindr (midi_state_lock st) (\<lambda>st.
          bindr (case ms_ring st of None \<Rightarrow> Inr None
                 | Some r \<Rightarrow> ring_buffer_destroy (Some r)) (\<lambda>_.
          bindr (case ms_hold st of None \<Rightarrow> Inr None
                 | Some b \<Rightarrow> dbuffer_destroy (Some (Some b))) (\<lambda>_.
          bindr (midi_state_unlock st) (\<lambda>_. Inr (Some None))))))"

definition midi_state_compare ::
    "midi_state option \<Rightarrow> bytes option \<Rightarrow> nat \<Rightarrow> (int \<times> midi_state option) result" where
  "midi_state_compare state compare compare_len =
     (case state of None \<Rightarrow> Inr (-1, None)
      | Some st \<Rightarrow>
          if ms_ring st = None then Inr (-1, Some st)
          else bindr (ring_buffer_compare (ms_ring st) compare compare_len) (\<lambda>(ret, ring).
               Inr (ret, Some (st\<lparr>ms_ring := ring\<rparr>))))"

definition midi_state_char_compare ::
    "midi_state option \<Rightarrow> byte \<Rightarrow> nat \<Rightarrow> (int \<times> midi_state option) result" where
  "midi_state_char_compare state compare index =
     (case state of None \<Rightarrow> Inr (-1, None)
      | Some st \<Rightarrow>
          if ms_ring st = None then Inr (-1, Some st)
          else bindr (ring_buffer_char_compare (ms_ring st) compare index) (\<lambda>(ret, ring).
               Inr (ret, Some (st\<lparr>ms_ring := ring\<rparr>))))"

definition midi_state_drain ::
    "alloc \<Rightarrow> midi_state option \<Rightarrow> (bytes option \<times> nat \<times> midi_state option) result" where
  "midi_state_drain A state =
     (case state of None \<Rightarrow> Inr (None, 0, None)
      | Some st \<Rightarrow>
          bindr (midi_state_lock st) (\<lambda>st.
          bindr (case ms_ring st of None \<Rightarrow> Inr (None, 0, None)
                 | Some _ \<Rightarrow> ring_buffer_drain A (ms_ring st)) (\<lambda>(buffer, len, ring).
          bindr (midi_state_unlock (st\<lparr>ms_ring := ring\<rparr>)) (\<lambda>st. Inr (buffer, len, Some st)))))"

definition midi_state_advance :: "midi_state option \<Rightarrow> nat \<Rightarrow> midi_state option result" where
  "midi_state_advance state steps =
     (case state of None \<Rightarrow> Inr None
      | Some st \<Rightarrow>
          bindr (midi_state_lock st) (\<lambda>st.
          bindr (case ms_ring st of None \<Rightarrow> Inr None
                 | Some _ \<Rightarrow> ring_buffer_advance (ms_ring st) steps) (\<lambda>ring.
          bindr (midi_state_unlock (st\<lparr>ms_ring := ring\<rparr>)) (\<lambda>st. Inr (Some st)))))"

definition midi_state_read_byte ::
    "midi_state option \<Rightarrow> (int \<times> byte \<times> midi_state option) result" where
  "midi_state_read_byte state =
     (case state of None \<Rightarrow> Inr (-1, 0, None)
      | Some st \<Rightarrow>
          if ms_ring st = None then Inr (-1, 0, Some st)
          else bindr (ring_buffer_read_byte (ms_ring st) True) (\<lambda>(ret, b, ring).
               Inr (ret, b, Some (st\<lparr>ms_ring := ring\<rparr>))))"

definition midi_status_to_string :: "midi_state_status_t \<Rightarrow> string" where
  "midi_status_to_string status =
     (case status of
        MIDI_STATE_INIT \<Rightarrow> ''MIDI_STATE_INIT''
      | MIDI_STATE_WAIT_DELTA \<Rightarrow> ''MIDI_STATE_WAIT_DELTA''
      | MIDI_STATE_WAIT_COMMAND \<Rightarrow> ''MIDI_STATE_WAIT_COMMAND''
      | MIDI_STATE_WAIT_BYTE_1 \<Rightarrow> ''MIDI_STATE_WAIT_BYTE_1''
      | MIDI_STATE_WAIT_BYTE_2 \<Rightarrow> ''MIDI_STATE_WAIT_BYTE_2''
      | MIDI_STATE_WAIT_END_SYSEX \<Rightarrow> ''MIDI_STATE_WAIT_END_SYSEX''
      | MIDI_STATE_COMMAND_RECEIVED \<Rightarrow> ''MIDI_STATE_COMMAND_RECEIVED'')"

section \<open>The parser\<close>

text \<open>A byte that opens a command is compared with \<^verbatim>\<open>MIDI_END_SYSEX\<close>, which is 13: as the byte is not below
  0x80, that branch is never taken, and 0xF7 outside of a system exclusive message opens a command like any
  other system message and becomes the running status.

  One iteration of the loop is cut at the code's own label \<^verbatim>\<open>midi_state_send_end\<close>: what is
  before it decides on the status (\<open>midi_state_command\<close> for \<^verbatim>\<open>MIDI_STATE_WAIT_COMMAND\<close>,
  \<open>midi_state_data\<close> for the three states that collect data), what is after it sends the held
  command. \<open>hold_put\<close> is \<^verbatim>\<open>dbuffer_write( state->hold, &b, 1 )\<close>, whose result the code ignores;
  \<open>i\<close> numbers the writes of an iteration.\<close>

definition hold_put :: "alloc \<Rightarrow> nat \<Rightarrow> byte \<Rightarrow> midi_state \<Rightarrow> midi_state result" where
  "hold_put A i b st =
     bindr (dbuffer_write (\<lambda>s. A (Iter i s)) (ms_hold st) (Some [b]) 1) (\<lambda>(_, hold).
     Inr (st\<lparr>ms_hold := hold\<rparr>))"

definition midi_state_command :: "alloc \<Rightarrow> byte \<Rightarrow> midi_state \<Rightarrow> midi_state result" where
  "midi_state_command A byte st =
     (if byte < 0x80 then
        let bytes_needed = midi_command_bytes_needed (ms_running_status st) in
        bindr (hold_put A 0 (ms_running_status st) st) (\<lambda>st.
        bindr (hold_put A 1 byte st) (\<lambda>st.
        Inr (if bytes_needed = 1 then st\<lparr>ms_status := MIDI_STATE_COMMAND_RECEIVED\<rparr>
             else if bytes_needed = 2 then st\<lparr>ms_status := MIDI_STATE_WAIT_BYTE_1\<rparr>
             else st)))
      else
        bindr (hold_put A 0 byte st) (\<lambda>st.
        Inr (if byte = 0xF0 \<or> (ms_partial_sysex st \<noteq> 0 \<and> byte = 0xF7)
             then st\<lparr>ms_status := MIDI_STATE_WAIT_END_SYSEX, ms_running_status := 0\<rparr>
             else if byte = midi_message_type_value MIDI_END_SYSEX
             then st\<lparr>ms_status := MIDI_STATE_COMMAND_RECEIVED, ms_running_status := 0\<rparr>
             else let bytes_needed = midi_command_bytes_needed (byte AND 0xF0) in
               st\<lparr>ms_status := (if bytes_needed = 1 then MIDI_STATE_WAIT_BYTE_1
                                else if bytes_needed = 2 then MIDI_STATE_WAIT_BYTE_2
                                else MIDI_STATE_COMMAND_RECEIVED),
                  ms_running_status := byte\<rparr>)))"

definition midi_state_data :: "alloc \<Rightarrow> byte \<Rightarrow> midi_state \<Rightarrow> midi_state result" where
  "midi_state_data A byte st =
     (case ms_status st of
        MIDI_STATE_WAIT_BYTE_2 \<Rightarrow>
          bindr (hold_put A 0 byte st) (\<lambda>st. Inr (st\<lparr>ms_status := MIDI_STATE_WAIT_BYTE_1\<rparr>))
      | MIDI_STATE_WAIT_BYTE_1 \<Rightarrow>
          bindr (hold_put A 0 byte st) (\<lambda>st. Inr (st\<lparr>ms_status := MIDI_STATE_COMMAND_RECEIVED\<rparr>))
      | MIDI_STATE_WAIT_END_SYSEX \<Rightarrow>
          bindr (hold_put A 0 byte st) (\<lambda>st.
          let st = (if byte = 0xF7 \<or> (ms_partial_sysex st = 1 \<and> byte = 0xF4)
                    then st\<lparr>ms_status := MIDI_STATE_COMMAND_RECEIVED, ms_partial_sysex := 0\<rparr> else st);
              st = (if byte = 0xF0
                    then st\<lparr>ms_status := MIDI_STATE_COMMAND_RECEIVED, ms_partial_sysex := 1\<rparr> else st)
          in Inr (st\<lparr>ms_running_status := 0\<rparr>))
      | _ \<Rightarrow> Inr st)"

text \<open>After the label: the held bytes become a command. Its first byte is used without a look at
  the number of bytes read.\<close>

definition midi_state_flush ::
    "alloc \<Rightarrow> midi_parse_mode \<Rightarrow> bool \<Rightarrow> midi_state \<Rightarrow> (midi_command list \<times> midi_state \<times> bool) result" where
  "midi_state_flush A mode get_delta st =
     (if ms_status st \<noteq> MIDI_STATE_COMMAND_RECEIVED then Inr ([], st, get_delta)
      else
        bindr (dbuffer_read A (ms_hold st)) (\<lambda>(buffer_len, buffer_value).
        let st = st\<lparr>ms_hold := snd (dbuffer_reset (ms_hold st))\<rparr> in
        bindr (case midi_command_create A 0 of None \<Rightarrow> Inr []
               | Some new_command \<Rightarrow>
                   bindr (deref buffer_value) (\<lambda>buffer_value.
                   bindr (mem_get buffer_value 0) (\<lambda>status.
                   bindr (midi_command_set A (Some new_command) (ms_current_delta st) status
                            (Some (drop 1 buffer_value)) (size_sub buffer_len 1)) (\<lambda>new_command.
                   bindr (deref new_command) (\<lambda>new_command. Inr [new_command]))))) (\<lambda>sent.
        Inr (sent, st\<lparr>ms_status := MIDI_STATE_INIT\<rparr>,
             if mode = MIDI_PARSE_MODE_RTP then True else get_delta))))"

definition midi_state_realtime :: "alloc \<Rightarrow> byte \<Rightarrow> midi_state \<Rightarrow> midi_command list result" where
  "midi_state_realtime A byte st =
     (case midi_command_create A 0 of None \<Rightarrow> Inr []
      | Some new_command \<Rightarrow>
          bindr (midi_command_set A (Some new_command) (ms_current_delta st) byte None 0) (\<lambda>new_command.
          bindr (deref new_command) (\<lambda>new_command. Inr [new_command])))"

definition midi_state_send_byte ::
    "alloc \<Rightarrow> midi_parse_mode \<Rightarrow> byte \<Rightarrow> bool \<Rightarrow> midi_state \<Rightarrow>
     (midi_command list \<times> midi_state \<times> bool) result" where
  "midi_state_send_byte A mode byte get_delta st =
     (let st = (if ms_status st = MIDI_STATE_INIT
                then st\<lparr>ms_status := (if get_delta then MIDI_STATE_WAIT_DELTA else MIDI_STATE_WAIT_COMMAND),
                        ms_current_delta := 0\<rparr>
                else st) in
      if ms_status st = MIDI_STATE_WAIT_DELTA then
        let st = st\<lparr>ms_current_delta := push_bit 8 (ms_current_delta st) + ucast (byte AND 0x7f)\<rparr>;
            st = (if byte AND 0x80 = 0 then st\<lparr>ms_status := MIDI_STATE_WAIT_COMMAND\<rparr> else st)
        in Inr ([], st, get_delta)
      else if byte \<ge> midi_message_type_value MIDI_TIMING_CLOCK then
        bindr (midi_state_realtime A byte st) (\<lambda>sent. Inr (sent, st, get_delta))
      else if ms_status st = MIDI_STATE_WAIT_COMMAND then
        if byte < 0x80 \<and> ms_running_status st = 0 then Inr ([], st, get_delta)
        else bindr (midi_state_command A byte st) (midi_state_flush A mode get_delta)
      else bindr (midi_state_data A byte st) (midi_state_flush A mode get_delta))"

text \<open>The number of unread bytes, which every iteration that goes on decreases.\<close>

definition ms_unread :: "midi_state \<Rightarrow> nat" where
  "ms_unread st = (case ms_ring st of None \<Rightarrow> 0 | Some r \<Rightarrow> rb_used r)"

lemma ring_read_byte_used:
  assumes "ring_buffer_read_byte (Some r) True = Inr (0, b, p)"
  shows "\<exists>r'. p = Some r' \<and> rb_used r' < rb_used r"
proof -
  from assms have h: "\<not> rb_held r" by (cases "rb_held r") simp_all
  with assms have u: "0 < rb_used r" by (cases "rb_used r") simp_all
  with h assms obtain d where "rb_data r = Some d" by (cases "rb_data r") simp_all
  with h u assms show ?thesis
    by (cases "rb_start r < length d"; cases "rb_start r + 1 < rb_size r") (auto simp: Let_def)
qed

lemma read_byte_unread:
  "midi_state_read_byte (Some st) = Inr (0, b, Some st') \<Longrightarrow> ms_unread st' < ms_unread st"
  by (cases "ms_ring st")
    (auto simp: midi_state_read_byte_def ms_unread_def result_simps
      simp del: ring_buffer_read_byte.simps dest!: ring_read_byte_used)

lemma read_byte_some:
  "midi_state_read_byte (Some st) = Inr (r, b, p) \<Longrightarrow> p \<noteq> None"
  by (auto simp: midi_state_read_byte_def result_simps split: if_splits)

lemma hold_put_ring: "hold_put A i b st = Inr st' \<Longrightarrow> ms_ring st' = ms_ring st"
  by (auto simp: hold_put_def result_simps)

lemma command_ring: "midi_state_command A b st = Inr st' \<Longrightarrow> ms_ring st' = ms_ring st"
  by (auto simp: midi_state_command_def result_simps Let_def dest!: hold_put_ring split: if_splits)

lemma data_ring: "midi_state_data A b st = Inr st' \<Longrightarrow> ms_ring st' = ms_ring st"
  by (cases "ms_status st")
    (auto simp: midi_state_data_def result_simps Let_def dest!: hold_put_ring)

lemma flush_ring: "midi_state_flush A mode gd st = Inr (cs, st', gd') \<Longrightarrow> ms_ring st' = ms_ring st"
  by (auto simp: midi_state_flush_def result_simps Let_def split: if_splits)

lemma send_byte_ring:
  "midi_state_send_byte A mode b gd st = Inr (cs, st', gd') \<Longrightarrow> ms_ring st' = ms_ring st"
  by (auto simp: midi_state_send_byte_def result_simps Let_def
      dest!: command_ring data_ring flush_ring split: if_splits)

function (sequential) midi_state_send_loop ::
    "alloc \<Rightarrow> nat \<Rightarrow> midi_parse_mode \<Rightarrow> bool \<Rightarrow> midi_state \<Rightarrow> (midi_command list \<times> midi_state) result" where
  "midi_state_send_loop A i mode get_delta st =
     bindr (midi_state_read_byte (Some st)) (\<lambda>(read_status, byte, p).
     bindr (deref p) (\<lambda>st1.
     if read_status \<noteq> 0
     then Inr ([], if mode = MIDI_PARSE_MODE_RTP then st1\<lparr>ms_status := MIDI_STATE_INIT\<rparr> else st1)
     else bindr (midi_state_send_byte (\<lambda>s. A (Iter i s)) mode byte get_delta st1) (\<lambda>(sent, st2, get_delta).
          bindr (midi_state_send_loop A (Suc i) mode get_delta st2) (\<lambda>(rest, st3).
          Inr (sent @ rest, st3)))))"
  by pat_completeness auto

termination
proof (relation "measure (\<lambda>(A, i, mode, gd, st). ms_unread st)", goal_cases)
  case 1
  show ?case by simp
next
  case (2 A i mode gd st rd rs q b p st1 x sent q' st2 gd2)
  then have "midi_state_read_byte (Some st) = Inr (0, b, Some st1)" by (auto simp: result_simps)
  then have "ms_unread st1 < ms_unread st" by (rule read_byte_unread)
  moreover have "ms_ring st2 = ms_ring st1" using 2 by (auto dest: send_byte_ring)
  ultimately show ?case by (simp add: ms_unread_def)
qed

declare midi_state_send_loop.simps [simp del]

definition midi_state_send ::
    "alloc \<Rightarrow> midi_state option \<Rightarrow> midi_parse_mode \<Rightarrow> bool \<Rightarrow>
     (midi_command list \<times> midi_state option) result" where
  "midi_state_send A state mode z_flag =
     (case state of None \<Rightarrow> Inr ([], None)
      | Some st \<Rightarrow> bindr (midi_state_send_loop A 0 mode z_flag st) (\<lambda>(sent, st). Inr (sent, Some st)))"

section \<open>The same machine over lists\<close>

record parser =
  pa_status :: midi_state_status_t
  pa_running :: byte
  pa_hold :: bytes
  pa_delta :: "64 word"
  pa_partial :: byte
  pa_timed :: bool

definition cmd :: "64 word \<Rightarrow> byte \<Rightarrow> bytes option \<Rightarrow> midi_command" where
  "cmd delta st data =
     \<lparr>mc_delta = delta, mc_status = st, mc_data_len = (case data of None \<Rightarrow> 0 | Some d \<Rightarrow> length d),
      mc_data = data\<rparr>"

lemma cmd_simps [simp]:
  "mc_delta (cmd t s d) = t" "mc_status (cmd t s d) = s" "mc_data (cmd t s d) = d"
  "mc_data_len (cmd t s d) = (case d of None \<Rightarrow> 0 | Some xs \<Rightarrow> length xs)"
  by (simp_all add: cmd_def)

text \<open>What a byte that opens or continues a command does to status, running status and hold. There is no
  case of its own for 0xF7 outside of a system exclusive message, as the code has none that is reached.\<close>

definition parse_command :: "byte \<Rightarrow> parser \<Rightarrow> parser" where
  "parse_command b p =
     (if b < 0x80 then
        p\<lparr>pa_hold := pa_hold p @ [pa_running p, b],
          pa_status := (if midi_data_bytes (pa_running p) = 1 then MIDI_STATE_COMMAND_RECEIVED
                        else if midi_data_bytes (pa_running p) = 2 then MIDI_STATE_WAIT_BYTE_1
                        else pa_status p)\<rparr>
      else if b = 0xF0 \<or> (pa_partial p \<noteq> 0 \<and> b = 0xF7) then
        p\<lparr>pa_hold := pa_hold p @ [b], pa_status := MIDI_STATE_WAIT_END_SYSEX, pa_running := 0\<rparr>
      else
        p\<lparr>pa_hold := pa_hold p @ [b], pa_running := b,
          pa_status := (if midi_data_bytes (b AND 0xF0) = 1 then MIDI_STATE_WAIT_BYTE_1
                        else if midi_data_bytes (b AND 0xF0) = 2 then MIDI_STATE_WAIT_BYTE_2
                        else MIDI_STATE_COMMAND_RECEIVED)\<rparr>)"

fun parse_data :: "byte \<Rightarrow> parser \<Rightarrow> parser" where
  "parse_data b p =
     (case pa_status p of
        MIDI_STATE_WAIT_BYTE_2 \<Rightarrow> p\<lparr>pa_hold := pa_hold p @ [b], pa_status := MIDI_STATE_WAIT_BYTE_1\<rparr>
      | MIDI_STATE_WAIT_BYTE_1 \<Rightarrow> p\<lparr>pa_hold := pa_hold p @ [b], pa_status := MIDI_STATE_COMMAND_RECEIVED\<rparr>
      | MIDI_STATE_WAIT_END_SYSEX \<Rightarrow>
          if b = 0xF0 then
            p\<lparr>pa_hold := pa_hold p @ [b], pa_status := MIDI_STATE_COMMAND_RECEIVED, pa_partial := 1, pa_running := 0\<rparr>
          else if b = 0xF7 \<or> (pa_partial p = 1 \<and> b = 0xF4) then
            p\<lparr>pa_hold := pa_hold p @ [b], pa_status := MIDI_STATE_COMMAND_RECEIVED, pa_partial := 0, pa_running := 0\<rparr>
          else p\<lparr>pa_hold := pa_hold p @ [b], pa_running := 0\<rparr>
      | _ \<Rightarrow> p)"

definition parse_flush :: "midi_parse_mode \<Rightarrow> parser \<Rightarrow> midi_command list \<times> parser" where
  "parse_flush mode p =
     (if pa_status p \<noteq> MIDI_STATE_COMMAND_RECEIVED then ([], p)
      else ([cmd (pa_delta p) (hd (pa_hold p)) (Some (tl (pa_hold p)))],
            p\<lparr>pa_hold := [], pa_status := MIDI_STATE_INIT,
              pa_timed := (mode = MIDI_PARSE_MODE_RTP \<or> pa_timed p)\<rparr>))"

definition parse_start :: "parser \<Rightarrow> parser" where
  "parse_start p =
     (if pa_status p = MIDI_STATE_INIT
      then p\<lparr>pa_status := (if pa_timed p then MIDI_STATE_WAIT_DELTA else MIDI_STATE_WAIT_COMMAND),
             pa_delta := 0\<rparr>
      else p)"

definition parse_byte :: "midi_parse_mode \<Rightarrow> byte \<Rightarrow> parser \<Rightarrow> midi_command list \<times> parser" where
  "parse_byte mode b p0 =
     (let p = parse_start p0 in
      if pa_status p = MIDI_STATE_WAIT_DELTA then
        ([], p\<lparr>pa_delta := push_bit 8 (pa_delta p) + ucast (b AND 0x7f),
               pa_status := (if b AND 0x80 = 0 then MIDI_STATE_WAIT_COMMAND else MIDI_STATE_WAIT_DELTA)\<rparr>)
      else if b \<ge> 0xf8 then ([cmd (pa_delta p) b None], p)
      else if pa_status p = MIDI_STATE_WAIT_COMMAND then
        if b < 0x80 \<and> pa_running p = 0 then ([], p) else parse_flush mode (parse_command b p)
      else parse_flush mode (parse_data b p))"

fun midi_parse :: "midi_parse_mode \<Rightarrow> bytes \<Rightarrow> parser \<Rightarrow> midi_command list \<times> parser" where
  "midi_parse mode [] p = ([], p)"
| "midi_parse mode (b # bs) p =
     (let (cs, p) = parse_byte mode b p; (cs', p) = midi_parse mode bs p in (cs @ cs', p))"

definition parser_of :: "bool \<Rightarrow> midi_state \<Rightarrow> parser" where
  "parser_of get_delta st =
     \<lparr>pa_status = ms_status st, pa_running = ms_running_status st, pa_hold = dbuffer_view (ms_hold st),
      pa_delta = ms_current_delta st, pa_partial = ms_partial_sysex st, pa_timed = get_delta\<rparr>"

text \<open>What is held begins with a status byte, and the running status is one or not set. While data
  is waited for a command is held.\<close>

definition parser_marked :: "parser \<Rightarrow> bool" where
  "parser_marked p \<longleftrightarrow> (pa_running p = 0 \<or> 0x80 \<le> pa_running p) \<and> 
     (if pa_hold p = [] then pa_status p \<in> {MIDI_STATE_INIT, MIDI_STATE_WAIT_DELTA, MIDI_STATE_WAIT_COMMAND}
      else 0x80 \<le> hd (pa_hold p))"

definition parser_wf :: "midi_state \<Rightarrow> bool" where
  "parser_wf st \<longleftrightarrow> ring_wf (ms_ring st) \<and> dbuffer_wf (ms_hold st) \<and> \<not> ms_held st \<and>
     ms_status st \<noteq> MIDI_STATE_COMMAND_RECEIVED \<and> parser_marked (parser_of False st)"

section \<open>Status bytes\<close>

definition command_marked :: "midi_command \<Rightarrow> bool" where
  "command_marked c \<longleftrightarrow> 0x80 \<le> mc_status c \<and> mc_data_len c = (case mc_data c of None \<Rightarrow> 0 | Some d \<Rightarrow> length d)"

lemma parse_command_marked:
  assumes "parser_marked p" "\<not> (b < 0x80 \<and> pa_running p = 0)"
  shows "parser_marked (parse_command b p)"
  using assms by (cases "pa_hold p") (auto simp: parser_marked_def parse_command_def not_less)

lemma parse_data_marked: "parser_marked p \<Longrightarrow> parser_marked (parse_data b p)"
  by (cases "pa_status p"; cases "pa_hold p") (auto simp: parser_marked_def)

lemma parse_flush_marked:
  assumes "parser_marked p"
  shows "parser_marked (snd (parse_flush mode p)) \<and> (\<forall>c\<in>set (fst (parse_flush mode p)). command_marked c)"
  using assms by (auto simp: parser_marked_def parse_flush_def command_marked_def split: if_splits)

lemma parse_byte_marked:
  assumes "parser_marked p"
  shows "parser_marked (snd (parse_byte mode b p)) \<and> (\<forall>c\<in>set (fst (parse_byte mode b p)). command_marked c)"
proof -
  have p: "parser_marked (parse_start p)" using assms by (auto simp: parser_marked_def parse_start_def)
  let ?p = "parse_start p"
  have delta: "parser_marked (?p\<lparr>pa_delta := d, pa_status := (if x then MIDI_STATE_WAIT_COMMAND else MIDI_STATE_WAIT_DELTA)\<rparr>)" for d x
    using p by (auto simp: parser_marked_def)
  have high: "command_marked (cmd d b None)" if "b \<ge> 0xf8" for d
    using order.trans [OF _ that, of "0x80"] by (simp add: command_marked_def)
  show ?thesis
    using p delta high parse_flush_marked [OF parse_command_marked [OF p]] parse_flush_marked [OF parse_data_marked [OF p]]
    by (simp add: parse_byte_def Let_def)
qed

lemma midi_parse_marked:
  assumes "parser_marked p"
  shows "parser_marked (snd (midi_parse mode bs p)) \<and> (\<forall>c\<in>set (fst (midi_parse mode bs p)). command_marked c)"
  using assms
proof (induction bs arbitrary: p)
  case (Cons b bs)
  from parse_byte_marked [OF Cons.prems] have b: "parser_marked (snd (parse_byte mode b p))"
    "\<forall>c\<in>set (fst (parse_byte mode b p)). command_marked c" by blast+
  with Cons.IH [OF b(1)] show ?case by (auto simp: split_beta Let_def)
qed simp

lemma parser_marked_state: "parser_marked (parser_of gd st) \<Longrightarrow> parser_marked (parser_of gd' st)"
  by (auto simp: parser_marked_def parser_of_def split: if_splits)

lemma parser_of_ring [simp]:
  "parser_of gd (ms_ring_update f st) = parser_of gd st" "parser_of gd (ms_held_update g st) = parser_of gd st"
  by (simp_all add: parser_of_def)

section \<open>Refinement\<close>

lemma bytes_needed_iff [simp]:
  "midi_command_bytes_needed b = 1 \<longleftrightarrow> midi_data_bytes b = 1"
  "midi_command_bytes_needed b = 2 \<longleftrightarrow> midi_data_bytes b = 2"
  by (simp_all add: word_unat_eq_iff flip: midi_command_bytes_needed_eq)

lemma hold_put_ok:
  assumes "dbuffer_wf (ms_hold st)" "\<forall>s. A s"
  shows "\<exists>h. hold_put A i b st = Inr (st\<lparr>ms_hold := h\<rparr>) \<and> dbuffer_wf h \<and>
    dbuffer_view h = dbuffer_view (ms_hold st) @ [b]"
  using dbuffer_write_ok [of "ms_hold st" 1 "[b]" "\<lambda>s. A (Iter i s)"] assms
  by (auto simp: hold_put_def)

lemma not_end_sysex: "\<not> b < (0x80 :: byte) \<Longrightarrow> b \<noteq> 13"
  by auto

lemma command_refines:
  assumes "dbuffer_wf (ms_hold st)" "\<forall>s. A s"
  shows "\<exists>st'. midi_state_command A b st = Inr st' \<and> dbuffer_wf (ms_hold st') \<and>
    ms_ring st' = ms_ring st \<and> ms_held st' = ms_held st \<and>
    parser_of gd st' = parse_command b (parser_of gd st)"
proof (cases "b < 0x80")
  case True
  from hold_put_ok [OF assms, of 0 "ms_running_status st"] obtain h where
    h: "hold_put A 0 (ms_running_status st) st = Inr (st\<lparr>ms_hold := h\<rparr>)" "dbuffer_wf h"
      "dbuffer_view h = dbuffer_view (ms_hold st) @ [ms_running_status st]" by blast
  with hold_put_ok [of "st\<lparr>ms_hold := h\<rparr>" A 1 b] assms obtain h' where
    "hold_put A 1 b (st\<lparr>ms_hold := h\<rparr>) = Inr (st\<lparr>ms_hold := h'\<rparr>)" "dbuffer_wf h'"
      "dbuffer_view h' = dbuffer_view h @ [b]" by auto
  with h True show ?thesis
    by (auto simp: midi_state_command_def parse_command_def parser_of_def Let_def)
next
  case False
  with hold_put_ok [OF assms, of 0 b] not_end_sysex [OF False] show ?thesis
    by (auto simp: midi_state_command_def parse_command_def parser_of_def Let_def)
qed

lemma data_refines:
  assumes "dbuffer_wf (ms_hold st)" "\<forall>s. A s"
  shows "\<exists>st'. midi_state_data A b st = Inr st' \<and> dbuffer_wf (ms_hold st') \<and>
    ms_ring st' = ms_ring st \<and> ms_held st' = ms_held st \<and>
    parser_of gd st' = parse_data b (parser_of gd st)"
  using hold_put_ok [OF assms, of 0 b] assms(1)
  by (cases "ms_status st") (auto simp: midi_state_data_def parser_of_def Let_def)

lemma flush_refines:
  assumes "dbuffer_wf (ms_hold st)" "\<forall>s. A s"
    and "ms_status st = MIDI_STATE_COMMAND_RECEIVED \<Longrightarrow> dbuffer_view (ms_hold st) \<noteq> []"
  shows "\<exists>st' gd'. midi_state_flush A mode gd st = Inr (fst (parse_flush mode (parser_of gd st)), st', gd') \<and>
    dbuffer_wf (ms_hold st') \<and> ms_ring st' = ms_ring st \<and> ms_held st' = ms_held st \<and>
    ms_status st' \<noteq> MIDI_STATE_COMMAND_RECEIVED \<and>
    parser_of gd' st' = snd (parse_flush mode (parser_of gd st))"
proof (cases "ms_status st = MIDI_STATE_COMMAND_RECEIVED")
  case True
  with assms obtain c cs where c: "dbuffer_view (ms_hold st) = c # cs"
    by (cases "dbuffer_view (ms_hold st)") auto
  with True assms dbuffer_read_ok [of "ms_hold st" A] dbuffer_reset_ok [of "ms_hold st"]
  show ?thesis
    by (simp add: midi_state_flush_def midi_command_create_def parse_flush_def parser_of_def Let_def cmd_def)
next
  case False
  with assms show ?thesis
    by (simp add: midi_state_flush_def parse_flush_def parser_of_def)
qed

lemma parse_command_hold: "pa_hold (parse_command b p) \<noteq> []"
  by (simp add: parse_command_def)

lemma parse_data_hold:
  "pa_status p \<noteq> MIDI_STATE_COMMAND_RECEIVED \<Longrightarrow>
   pa_status (parse_data b p) = MIDI_STATE_COMMAND_RECEIVED \<Longrightarrow> pa_hold (parse_data b p) \<noteq> []"
  by (cases "pa_status p") auto

lemma parser_of_simps [simp]:
  "pa_status (parser_of gd st) = ms_status st" "pa_running (parser_of gd st) = ms_running_status st"
  "pa_hold (parser_of gd st) = dbuffer_view (ms_hold st)" "pa_delta (parser_of gd st) = ms_current_delta st"
  "pa_partial (parser_of gd st) = ms_partial_sysex st" "pa_timed (parser_of gd st) = gd"
  by (simp_all add: parser_of_def)

text \<open>Both halves of an iteration together: a refining step on the state, then the flush.\<close>

lemma step_flush_refines:
  assumes step: "\<exists>st'. f st = Inr st' \<and> dbuffer_wf (ms_hold st') \<and> ms_ring st' = ms_ring st \<and>
      ms_held st' = ms_held st \<and> parser_of gd st' = p'"
    and hold: "pa_status p' = MIDI_STATE_COMMAND_RECEIVED \<Longrightarrow> pa_hold p' \<noteq> []" and mem: "\<forall>s. A s"
  shows "\<exists>st' gd'. bindr (f st) (midi_state_flush A mode gd) = Inr (fst (parse_flush mode p'), st', gd') \<and>
    dbuffer_wf (ms_hold st') \<and> ms_ring st' = ms_ring st \<and> ms_held st' = ms_held st \<and>
    ms_status st' \<noteq> MIDI_STATE_COMMAND_RECEIVED \<and> parser_of gd' st' = snd (parse_flush mode p')"
proof -
  from step obtain st' where st': "f st = Inr st'" "dbuffer_wf (ms_hold st')" "ms_ring st' = ms_ring st"
    "ms_held st' = ms_held st" "parser_of gd st' = p'" by blast
  have "ms_status st' = MIDI_STATE_COMMAND_RECEIVED \<Longrightarrow> dbuffer_view (ms_hold st') \<noteq> []"
    using hold st'(5) by (metis parser_of_simps(1,3))
  from flush_refines [OF st'(2) mem this, where mode = mode and gd = gd] st' show ?thesis by auto
qed

lemma send_byte_refines:
  assumes hold: "dbuffer_wf (ms_hold st)" and mem: "\<forall>s. A s"
    and status: "ms_status st \<noteq> MIDI_STATE_COMMAND_RECEIVED"
  shows "\<exists>st' gd'. midi_state_send_byte A mode b gd st =
      Inr (fst (parse_byte mode b (parser_of gd st)), st', gd') \<and>
    dbuffer_wf (ms_hold st') \<and> ms_ring st' = ms_ring st \<and> ms_held st' = ms_held st \<and>
    ms_status st' \<noteq> MIDI_STATE_COMMAND_RECEIVED \<and>
    parser_of gd' st' = snd (parse_byte mode b (parser_of gd st))"
proof -
  define st1 where "st1 = (if ms_status st = MIDI_STATE_INIT
    then st\<lparr>ms_status := (if gd then MIDI_STATE_WAIT_DELTA else MIDI_STATE_WAIT_COMMAND),
            ms_current_delta := 0\<rparr> else st)"
  have start: "parse_start (parser_of gd st) = parser_of gd st1"
    by (simp add: parse_start_def st1_def parser_of_def)
  have st1: "dbuffer_wf (ms_hold st1)" "ms_ring st1 = ms_ring st" "ms_held st1 = ms_held st"
    "ms_status st1 \<noteq> MIDI_STATE_COMMAND_RECEIVED"
    using hold status by (simp_all add: st1_def)
  note code = midi_state_send_byte_def [of A mode b gd st, folded st1_def]
  note spec = parse_byte_def [of mode b "parser_of gd st", unfolded start Let_def]
  consider (delta) "ms_status st1 = MIDI_STATE_WAIT_DELTA"
    | (realtime) "ms_status st1 \<noteq> MIDI_STATE_WAIT_DELTA" "b \<ge> 0xf8"
    | (skip) "ms_status st1 = MIDI_STATE_WAIT_COMMAND" "\<not> b \<ge> 0xf8" "b < 0x80" "ms_running_status st1 = 0"
    | (command) "ms_status st1 = MIDI_STATE_WAIT_COMMAND" "\<not> b \<ge> 0xf8"
        "\<not> (b < 0x80 \<and> ms_running_status st1 = 0)"
    | (data) "ms_status st1 \<noteq> MIDI_STATE_WAIT_COMMAND" "ms_status st1 \<noteq> MIDI_STATE_WAIT_DELTA"
        "\<not> b \<ge> 0xf8" by metis
  then show ?thesis
  proof cases
    case delta
    with st1 show ?thesis by (simp add: code spec Let_def)
  next
    case realtime
    with st1 mem show ?thesis
      by (simp add: code spec Let_def midi_state_realtime_def midi_command_create_def midi_command_set_def cmd_def)
  next
    case skip
    with st1 show ?thesis by (simp add: code spec Let_def)
  next
    case command
    have "\<exists>st' gd'. bindr (midi_state_command A b st1) (midi_state_flush A mode gd) =
        Inr (fst (parse_flush mode (parse_command b (parser_of gd st1))), st', gd') \<and>
      dbuffer_wf (ms_hold st') \<and> ms_ring st' = ms_ring st1 \<and> ms_held st' = ms_held st1 \<and>
      ms_status st' \<noteq> MIDI_STATE_COMMAND_RECEIVED \<and>
      parser_of gd' st' = snd (parse_flush mode (parse_command b (parser_of gd st1)))"
      by (rule step_flush_refines [where f = "midi_state_command A b"])
        (use command_refines [OF st1(1) mem] parse_command_hold mem in blast)+
    with command st1 show ?thesis by (auto simp: code spec Let_def)
  next
    case data
    have "\<exists>st' gd'. bindr (midi_state_data A b st1) (midi_state_flush A mode gd) =
        Inr (fst (parse_flush mode (parse_data b (parser_of gd st1))), st', gd') \<and>
      dbuffer_wf (ms_hold st') \<and> ms_ring st' = ms_ring st1 \<and> ms_held st' = ms_held st1 \<and>
      ms_status st' \<noteq> MIDI_STATE_COMMAND_RECEIVED \<and>
      parser_of gd' st' = snd (parse_flush mode (parse_data b (parser_of gd st1)))"
      by (rule step_flush_refines [where f = "midi_state_data A b"])
        (use data_refines [OF st1(1) mem] parse_data_hold [of "parser_of gd st1" b] mem st1(4)
           parser_of_simps(1) in metis)+
    with data st1 show ?thesis by (simp add: code spec Let_def)
  qed
qed

text \<open>The end of the input: in RTP mode the status goes back to the initial one, nothing else.\<close>

definition parse_end :: "midi_parse_mode \<Rightarrow> parser \<Rightarrow> parser" where
  "parse_end mode p = (if mode = MIDI_PARSE_MODE_RTP then p\<lparr>pa_status := MIDI_STATE_INIT\<rparr> else p)"

lemma send_loop_refines:
  assumes "parser_wf st" "\<forall>s. A s"
  shows "\<exists>st' gd'. midi_state_send_loop A i mode gd st =
      Inr (fst (midi_parse mode (ring_contents (ms_ring st)) (parser_of gd st)), st') \<and>
    parser_wf st' \<and> ring_contents (ms_ring st') = [] \<and>
    ring_capacity (ms_ring st') = ring_capacity (ms_ring st) \<and>
    parser_of gd' st' = parse_end mode (snd (midi_parse mode (ring_contents (ms_ring st)) (parser_of gd st)))"
  using assms
proof (induction "ring_contents (ms_ring st)" arbitrary: st i gd A)
  case Nil
  then have r: "ring_wf (ms_ring st)" "ring_contents (ms_ring st) = []"
    by (simp_all add: parser_wf_def)
  then have "midi_state_read_byte (Some st) = Inr (-1, 0, Some st)"
    using ring.get_empty [OF r] by (cases "ms_ring st") (auto simp: midi_state_read_byte_def)
  then show ?case
    using Nil by (subst midi_state_send_loop.simps)
      (auto simp: parse_end_def parser_wf_def parser_of_def parser_marked_def)
next
  case (Cons b bs)
  then have r: "ring_wf (ms_ring st)" "ring_contents (ms_ring st) = b # bs"
    and wf: "dbuffer_wf (ms_hold st)" "\<not> ms_held st" "ms_status st \<noteq> MIDI_STATE_COMMAND_RECEIVED"
    by (simp_all add: parser_wf_def)
  from ring.get_first [OF r] obtain p where p: "ring_buffer_read_byte (ms_ring st) True = Inr (0, b, p)"
    "ring_wf p" "ring_contents p = bs" "ring_capacity p = ring_capacity (ms_ring st)" by blast
  let ?st = "st\<lparr>ms_ring := p\<rparr>"
  have rd: "midi_state_read_byte (Some st) = Inr (0, b, Some ?st)"
    using p r by (cases "ms_ring st") (auto simp: midi_state_read_byte_def)
  have pst: "parser_of gd ?st = parser_of gd st" by (simp add: parser_of_def)
  have "dbuffer_wf (ms_hold ?st)" "\<forall>s. A (Iter i s)" "ms_status ?st \<noteq> MIDI_STATE_COMMAND_RECEIVED"
    using wf Cons.prems(2) by simp_all
  from send_byte_refines [OF this, where mode = mode and gd = gd and b = b] obtain st2 gd2 where
    sb: "midi_state_send_byte (\<lambda>s. A (Iter i s)) mode b gd ?st =
      Inr (fst (parse_byte mode b (parser_of gd st)), st2, gd2)"
    and st2: "dbuffer_wf (ms_hold st2)" "ms_ring st2 = p" "\<not> ms_held st2"
      "ms_status st2 \<noteq> MIDI_STATE_COMMAND_RECEIVED"
      "parser_of gd2 st2 = snd (parse_byte mode b (parser_of gd st))"
    using wf by (auto simp: pst)
  have "parser_marked (parser_of False st)" using Cons.prems(1) by (simp add: parser_wf_def)
  then have "parser_marked (parser_of gd st)" by (rule parser_marked_state)
  then have "parser_marked (parser_of gd2 st2)" unfolding st2(5) by (rule parse_byte_marked [THEN conjunct1])
  then have "parser_marked (parser_of False st2)" by (rule parser_marked_state)
  then have "parser_wf st2" using st2 p by (simp add: parser_wf_def)
  from Cons.hyps(1) [of st2 A "Suc i" gd2, OF _ this Cons.prems(2)] p st2 obtain st3 gd3 where
    lp: "midi_state_send_loop A (Suc i) mode gd2 st2 =
      Inr (fst (midi_parse mode bs (parser_of gd2 st2)), st3)"
    and st3: "parser_wf st3" "ring_contents (ms_ring st3) = []"
      "ring_capacity (ms_ring st3) = ring_capacity p"
      "parser_of gd3 st3 = parse_end mode (snd (midi_parse mode bs (parser_of gd2 st2)))" by auto
  show ?case
    using rd sb lp st3 p st2(5) r(2)
    by (subst midi_state_send_loop.simps) (auto simp: split_beta Let_def)
qed

lemma midi_state_send_refines:
  assumes "parser_wf st" "\<forall>s. A s"
  shows "\<exists>st' gd'. midi_state_send A (Some st) mode z =
      Inr (fst (midi_parse mode (ring_contents (ms_ring st)) (parser_of z st)), Some st') \<and>
    parser_wf st' \<and> ring_contents (ms_ring st') = [] \<and>
    ring_capacity (ms_ring st') = ring_capacity (ms_ring st) \<and>
    parser_of gd' st' = parse_end mode (snd (midi_parse mode (ring_contents (ms_ring st)) (parser_of z st)))"
  using send_loop_refines [OF assms, of 0 mode z] by (auto simp: midi_state_send_def)

lemma midi_state_create_ok:
  assumes "0 < n" "\<forall>s. A s"
  shows "\<exists>st. midi_state_create A junk n = Inr (Some st) \<and> parser_wf st \<and>
    ring_contents (ms_ring st) = [] \<and> ring_capacity (ms_ring st) = n \<and>
    parser_of gd st = \<lparr>pa_status = MIDI_STATE_INIT, pa_running = 0, pa_hold = [], pa_delta = junk,
      pa_partial = 0, pa_timed = gd\<rparr>"
proof -
  from ring_buffer_create_ok [of n A] assms obtain r where
    "ring_buffer_create A n = Inr r" "ring_wf r" "ring_contents r = []" "ring_capacity r = n" by auto
  moreover from dbuffer_create_ok [of DBUFFER_DEFAULT_BLOCK_SIZE A] assms
  have "dbuffer_wf (dbuffer_create A DBUFFER_DEFAULT_BLOCK_SIZE)"
    "dbuffer_view (dbuffer_create A DBUFFER_DEFAULT_BLOCK_SIZE) = []"
    by (simp_all add: DBUFFER_DEFAULT_BLOCK_SIZE_def)
  ultimately show ?thesis
    using assms by (simp add: midi_state_create_def parser_wf_def parser_of_def parser_marked_def)
qed

lemma midi_state_write_ok:
  assumes wf: "parser_wf st" and n: "xs \<noteq> []"
    and room: "length (ring_contents (ms_ring st)) + length xs \<le> ring_capacity (ms_ring st)"
  shows "\<exists>st'. midi_state_write (Some st) (Some xs) (length xs) = Inr (1, Some st') \<and> parser_wf st' \<and>
    ring_contents (ms_ring st') = ring_contents (ms_ring st) @ xs \<and>
    ring_capacity (ms_ring st') = ring_capacity (ms_ring st) \<and> parser_of gd st' = parser_of gd st"
proof -
  from wf have r: "ring_wf (ms_ring st)" "\<not> ms_held st" 
    by (auto simp: parser_wf_def)
  from r(1) have ne: "ms_ring st \<noteq> None" by (cases "ms_ring st") simp_all
  from ring.put_room [OF r(1) _ order.refl room] n obtain p where
    "ring_buffer_write (ms_ring st) (Some xs) (length xs) = Inr (length xs, p)" "ring_wf p"
    "ring_contents p = ring_contents (ms_ring st) @ xs" "ring_capacity p = ring_capacity (ms_ring st)"
    by auto
  with wf r ne n show ?thesis
    by (cases st) (auto simp: midi_state_write_def midi_state_lock_def midi_state_unlock_def parser_wf_def
        parser_of_def)
qed

end
