(* ===== verification/Midi_Stream.thy ===== *)
theory Midi_Stream
  imports Midi_State
begin

text \<open>
  What the parser of \<open>Midi_State\<close> does with whole byte streams: cutting the input anywhere,
  real-time bytes in between, running status, the lengths of the commands it sends, delta
  times, and the input that ends within a command. The lemmas are about \<open>midi_parse\<close>; the
  properties are about \<open>midi_feed\<close>, a write to the ring followed by \<open>midi_state_send\<close>, as the
  socket handlers call them.
\<close>

unbundle bit_operations_syntax

lemma midi_parse_append:
  "midi_parse mode (xs @ ys) p =
     (fst (midi_parse mode xs p) @ fst (midi_parse mode ys (snd (midi_parse mode xs p))),
      snd (midi_parse mode ys (snd (midi_parse mode xs p))))"
  by (induction xs arbitrary: p) (simp_all add: split_beta Let_def)

lemmas parse_defs = parse_byte_def parse_start_def parse_flush_def parse_command_def Let_def

lemma parse_byte_start: "parse_byte mode b (parse_start p) = parse_byte mode b p"
  by (simp add: parse_byte_def parse_start_def)

lemma midi_parse_start: "fst (midi_parse mode bs (parse_start p)) = fst (midi_parse mode bs p)"
  by (cases bs) (simp_all add: parse_byte_start)

section \<open>The invariant of the parser without delta times\<close>

text \<open>The held bytes start with a status byte that wants at least one byte more, or with a
  system status, and there is no real-time byte among them.\<close>

definition held_ok :: "midi_state_status_t \<Rightarrow> bytes \<Rightarrow> bool" where
  "held_ok st h =
     (case st of
        MIDI_STATE_INIT \<Rightarrow> h = []
      | MIDI_STATE_WAIT_DELTA \<Rightarrow> False
      | MIDI_STATE_WAIT_COMMAND \<Rightarrow> h = [] \<or> 0xF0 \<le> hd h
      | MIDI_STATE_WAIT_BYTE_1 \<Rightarrow>
          h \<noteq> [] \<and> (0xF0 \<le> hd h \<or> (0x80 \<le> hd h \<and> length h = midi_data_bytes (hd h)))
      | MIDI_STATE_WAIT_BYTE_2 \<Rightarrow>
          h \<noteq> [] \<and> (0xF0 \<le> hd h \<or> (0x80 \<le> hd h \<and> length h + 1 = midi_data_bytes (hd h)))
      | MIDI_STATE_WAIT_END_SYSEX \<Rightarrow> h \<noteq> [] \<and> 0xF0 \<le> hd h
      | MIDI_STATE_COMMAND_RECEIVED \<Rightarrow>
          h \<noteq> [] \<and> (0xF0 \<le> hd h \<or> (0x80 \<le> hd h \<and> length h = midi_data_bytes (hd h) + 1)))"

definition parser_inv :: "parser \<Rightarrow> bool" where
  "parser_inv p \<longleftrightarrow> held_ok (pa_status p) (pa_hold p) \<and> \<not> pa_timed p \<and>
     (pa_running p = 0 \<or> 0x80 \<le> pa_running p) \<and> pa_running p < 0xF8 \<and> (\<forall>b\<in>set (pa_hold p). b < 0xF8)"

definition command_ok :: "midi_command \<Rightarrow> bool" where
  "command_ok c \<longleftrightarrow> 0x80 \<le> mc_status c \<and>
     (mc_status c < 0xF0 \<longrightarrow> mc_data_len c = midi_data_bytes (mc_status c) \<and>
        (\<exists>d. mc_data c = Some d \<and> length d = mc_data_len c))"

lemma held_ok_simps [simp]:
  "held_ok MIDI_STATE_INIT h \<longleftrightarrow> h = []"
  "held_ok MIDI_STATE_WAIT_DELTA h \<longleftrightarrow> False"
  "held_ok MIDI_STATE_WAIT_COMMAND h \<longleftrightarrow> h = [] \<or> 0xF0 \<le> hd h"
  "held_ok MIDI_STATE_WAIT_BYTE_1 h \<longleftrightarrow>
     h \<noteq> [] \<and> (0xF0 \<le> hd h \<or> (0x80 \<le> hd h \<and> length h = midi_data_bytes (hd h)))"
  "held_ok MIDI_STATE_WAIT_BYTE_2 h \<longleftrightarrow>
     h \<noteq> [] \<and> (0xF0 \<le> hd h \<or> (0x80 \<le> hd h \<and> length h + 1 = midi_data_bytes (hd h)))"
  "held_ok MIDI_STATE_WAIT_END_SYSEX h \<longleftrightarrow> h \<noteq> [] \<and> 0xF0 \<le> hd h"
  "held_ok MIDI_STATE_COMMAND_RECEIVED h \<longleftrightarrow>
     h \<noteq> [] \<and> (0xF0 \<le> hd h \<or> (0x80 \<le> hd h \<and> length h = midi_data_bytes (hd h) + 1))"
  by (simp_all add: held_ok_def)

lemma parse_start_inv:
  "parser_inv p \<Longrightarrow> parser_inv (parse_start p) \<and> pa_status (parse_start p) \<noteq> MIDI_STATE_INIT"
  by (auto simp: parser_inv_def parse_start_def)

lemma data_bytes_high:
  assumes "0x80 \<le> b" "b < 0xF0"
  shows "midi_data_bytes (b AND 0xF0) = midi_data_bytes b \<and> midi_data_bytes b \<in> {1, 2}"
proof -
  have "b AND 0xF0 < 0xF0" 
    using assms(2) AND_upper1 [of "uint b" "uint (0xF0 :: byte)"] by (simp add: word_less_def uint_and)
  then have "midi_command_bytes_needed (b AND 0xF0) = midi_command_bytes_needed b"
    using assms by (simp add: midi_command_bytes_needed_def and.assoc)
  then have "midi_data_bytes (b AND 0xF0) = midi_data_bytes b"
    by (metis midi_command_bytes_needed_eq)
  then show ?thesis using assms by (auto simp: midi_data_bytes_def)
qed

lemma parse_command_inv:
  assumes "parser_inv p" "pa_status p = MIDI_STATE_WAIT_COMMAND" "b < 0xF8"
    and "\<not> (b < 0x80 \<and> pa_running p = 0)"
  shows "parser_inv (parse_command b p)"
proof (cases "b < 0x80")
  case True
  with assms have run: "0x80 \<le> pa_running p" "pa_running p < 0xF8" by (auto simp: parser_inv_def)
  show ?thesis
  proof (cases "pa_running p < 0xF0")
    case run_channel: True
    with data_bytes_high [OF run(1)] have "midi_data_bytes (pa_running p) \<in> {1, 2}" by simp
    with True run assms show ?thesis by (auto simp: parser_inv_def parse_command_def hd_append)
  next
    case False
    with True run assms show ?thesis
      by (auto simp: parser_inv_def parse_command_def hd_append not_less)
  qed
next
  case False
  then have b: "0x80 \<le> b" by simp
  show ?thesis
  proof (cases "b < 0xF0")
    case True
    with data_bytes_high [OF b] b assms show ?thesis
      by (auto simp: parser_inv_def parse_command_def hd_append)
  next
    case False
    with b assms show ?thesis by (auto simp: parser_inv_def parse_command_def hd_append not_less)
  qed
qed

lemma parse_data_inv:
  assumes "parser_inv p" "b < 0xF8"
  shows "parser_inv (parse_data b p)"
  using assms by (cases "pa_status p") (auto simp: parser_inv_def hd_append)

lemma high_status: "0xF0 \<le> b \<Longrightarrow> 0x80 \<le> (b :: byte)"
  by (rule order.trans [of _ "0xF0"]) simp_all

lemma parse_flush_inv:
  assumes "parser_inv p"
  shows "parser_inv (snd (parse_flush MIDI_PARSE_MODE_SIMPLE p))"
    and "\<forall>c\<in>set (fst (parse_flush MIDI_PARSE_MODE_SIMPLE p)). command_ok c \<and> mc_status c < 0xF8"
proof -
  show "parser_inv (snd (parse_flush MIDI_PARSE_MODE_SIMPLE p))"
    using assms by (auto simp: parser_inv_def parse_flush_def)
  show "\<forall>c\<in>set (fst (parse_flush MIDI_PARSE_MODE_SIMPLE p)). command_ok c \<and> mc_status c < 0xF8"
    using assms by (auto simp: parser_inv_def parse_flush_def command_ok_def high_status)
qed

lemma low_not_high: "b < 0x80 \<Longrightarrow> \<not> 0xF8 \<le> (b :: byte)"
  by (auto simp: not_le intro: order.strict_trans)

lemma parse_flush_status:
  "pa_status (snd (parse_flush mode p)) \<noteq> MIDI_STATE_COMMAND_RECEIVED"
  by (simp add: parse_flush_def)

text \<open>One byte without delta times, by cases on what it is.\<close>

lemma simple_byte_cases:
  assumes p: "parser_inv p"
  obtains (realtime) "0xF8 \<le> b"
      "parse_byte MIDI_PARSE_MODE_SIMPLE b p = ([cmd (pa_delta (parse_start p)) b None], parse_start p)"
    | (skip) "b < 0x80" "parse_byte MIDI_PARSE_MODE_SIMPLE b p = ([], parse_start p)"
    | (flush) p' where "b < 0xF8" "parser_inv p'"
      "parse_byte MIDI_PARSE_MODE_SIMPLE b p = parse_flush MIDI_PARSE_MODE_SIMPLE p'"
proof -
  from parse_start_inv [OF p] have q: "parser_inv (parse_start p)" ..
  then have nd: "pa_status (parse_start p) \<noteq> MIDI_STATE_WAIT_DELTA"
    by (auto simp: parser_inv_def)
  consider "0xF8 \<le> b" | "b < 0xF8" "pa_status (parse_start p) = MIDI_STATE_WAIT_COMMAND"
      "b < 0x80 \<and> pa_running (parse_start p) = 0"
    | "b < 0xF8" "pa_status (parse_start p) = MIDI_STATE_WAIT_COMMAND"
      "\<not> (b < 0x80 \<and> pa_running (parse_start p) = 0)"
    | "b < 0xF8" "pa_status (parse_start p) \<noteq> MIDI_STATE_WAIT_COMMAND"
    using not_less by blast
  then show thesis
  proof cases
    case 1
    with nd show ?thesis by (intro realtime) (simp_all add: parse_byte_def Let_def)
  next
    case 2
    then have "\<not> 0xF8 \<le> b" by (simp add: not_le)
    with 2 show ?thesis by (intro skip) (simp_all add: parse_byte_def Let_def)
  next
    case 3
    then have "\<not> 0xF8 \<le> b" by (simp add: not_le)
    with 3 q show ?thesis
      by (intro flush [of "parse_command b (parse_start p)"] parse_command_inv)
        (auto simp: parse_byte_def Let_def)
  next
    case 4
    then have "\<not> 0xF8 \<le> b" by (simp add: not_le)
    with 4 q nd show ?thesis
      by (intro flush [of "parse_data b (parse_start p)"] parse_data_inv)
        (auto simp: parse_byte_def Let_def)
  qed
qed

lemma parse_byte_inv:
  assumes p: "parser_inv p" and st: "pa_status p \<noteq> MIDI_STATE_COMMAND_RECEIVED"
  shows "parser_inv (snd (parse_byte MIDI_PARSE_MODE_SIMPLE b p))"
    and "c \<in> set (fst (parse_byte MIDI_PARSE_MODE_SIMPLE b p)) \<Longrightarrow>
           command_ok c \<and> (mc_status c < 0xF8 \<longleftrightarrow> b < 0xF8)"
    and "pa_status (snd (parse_byte MIDI_PARSE_MODE_SIMPLE b p)) \<noteq> MIDI_STATE_COMMAND_RECEIVED"
proof -
  note q = parse_start_inv [OF p]
  have qs: "pa_status (parse_start p) \<noteq> MIDI_STATE_COMMAND_RECEIVED"
    using st by (simp add: parse_start_def)
  have high: "\<not> b < 0xF0 \<and> 0x80 \<le> b" if "0xF8 \<le> b"
    using that by (auto simp: not_less intro: order.trans [rotated])
  from p show "parser_inv (snd (parse_byte MIDI_PARSE_MODE_SIMPLE b p))"
    by (rule simple_byte_cases [of p b]) (use q parse_flush_inv(1) in auto)
  from p show "pa_status (snd (parse_byte MIDI_PARSE_MODE_SIMPLE b p)) \<noteq> MIDI_STATE_COMMAND_RECEIVED"
    by (rule simple_byte_cases [of p b]) (use qs parse_flush_status in auto)
  assume c: "c \<in> set (fst (parse_byte MIDI_PARSE_MODE_SIMPLE b p))"
  from p show "command_ok c \<and> (mc_status c < 0xF8 \<longleftrightarrow> b < 0xF8)"
  proof (rule simple_byte_cases [of p b])
    fix p' assume "b < 0xF8" "parser_inv p'"
      "parse_byte MIDI_PARSE_MODE_SIMPLE b p = parse_flush MIDI_PARSE_MODE_SIMPLE p'"
    with c parse_flush_inv(2) show ?thesis by auto
  qed (use c high in \<open>auto simp: command_ok_def not_less\<close>)
qed

lemma midi_parse_inv:
  assumes "parser_inv p" "pa_status p \<noteq> MIDI_STATE_COMMAND_RECEIVED"
  shows "parser_inv (snd (midi_parse MIDI_PARSE_MODE_SIMPLE bs p)) \<and>
    (\<forall>c\<in>set (fst (midi_parse MIDI_PARSE_MODE_SIMPLE bs p)). command_ok c)"
  using assms
proof (induction bs arbitrary: p)
  case Nil
  then show ?case by simp
next
  case (Cons b bs)
  note b = parse_byte_inv [OF Cons.prems, where b = b]
  from Cons.IH [OF b(1,3)] b(2) show ?case by (auto simp: split_beta Let_def)
qed

section \<open>Real-time bytes\<close>

lemma midi_parse_realtime:
  assumes "parser_inv p" "pa_status p \<noteq> MIDI_STATE_COMMAND_RECEIVED"
  shows "filter (\<lambda>c. mc_status c < 0xF8) (fst (midi_parse MIDI_PARSE_MODE_SIMPLE bs p)) =
    fst (midi_parse MIDI_PARSE_MODE_SIMPLE (filter (\<lambda>b. b < 0xF8) bs) p)"
  using assms
proof (induction bs arbitrary: p)
  case Nil
  then show ?case by simp
next
  case (Cons b bs)
  note inv = parse_byte_inv [OF Cons.prems, where b = b]
  note IH = Cons.IH [OF inv(1,3)]
  show ?case
  proof (cases "b < 0xF8")
    case True
    then have "filter (\<lambda>c. mc_status c < 0xF8) (fst (parse_byte MIDI_PARSE_MODE_SIMPLE b p)) =
        fst (parse_byte MIDI_PARSE_MODE_SIMPLE b p)"
      using inv(2) by (auto intro: filter_True)
    with IH True show ?thesis by (simp add: split_beta Let_def)
  next
    case False
    from Cons.prems(1) have rt: "parse_byte MIDI_PARSE_MODE_SIMPLE b p =
        ([cmd (pa_delta (parse_start p)) b None], parse_start p)"
      by (rule simple_byte_cases [of p b]) (use False low_not_high in \<open>auto simp: not_less\<close>)
    with IH False show ?thesis by (simp add: midi_parse_start split_beta)
  qed
qed

section \<open>Channel messages and running status\<close>

text \<open>A sender may omit the status of a channel message when it is that of the one before.\<close>

fun wire_messages :: "byte \<Rightarrow> (bool \<times> byte \<times> bytes) list \<Rightarrow> bytes" where
  "wire_messages run [] = []"
| "wire_messages run ((omit, st, d) # ms) =
     (if omit \<and> st = run then d else st # d) @ wire_messages st ms"

definition channel_message :: "byte \<times> bytes \<Rightarrow> bool" where
  "channel_message m \<longleftrightarrow> 0x80 \<le> fst m \<and> fst m < 0xF0 \<and> length (snd m) = midi_data_bytes (fst m) \<and>
     (\<forall>b\<in>set (snd m). b < 0x80)"

definition idle :: "byte \<Rightarrow> parser \<Rightarrow> bool" where
  "idle run p \<longleftrightarrow> pa_status p = MIDI_STATE_INIT \<and> pa_hold p = [] \<and> \<not> pa_timed p \<and> pa_running p = run"

lemma parse_message:
  assumes p: "idle run p" and m: "channel_message (st, d)"
  shows "fst (midi_parse MIDI_PARSE_MODE_SIMPLE (if omit \<and> st = run then d else st # d) p) =
      [cmd 0 st (Some d)] \<and>
    idle st (snd (midi_parse MIDI_PARSE_MODE_SIMPLE (if omit \<and> st = run then d else st # d) p))"
proof -
  from m have st: "0x80 \<le> st" "st < 0xF0" and len: "length d = midi_data_bytes st"
    and low: "\<forall>b\<in>set d. b < 0x80" by (simp_all add: channel_message_def)
  from data_bytes_high [OF st] have db: "midi_data_bytes (st AND 0xF0) = midi_data_bytes st"
    "midi_data_bytes st \<in> {1, 2}" by simp_all
  have nst: "\<not> 0xF8 \<le> st" "\<not> st < 0x80" "st \<noteq> 0xF0" "st \<noteq> 0xF7" "st \<noteq> 0"
    using st by (auto simp: not_le not_less intro: order.strict_trans)
  from db(2) consider "midi_data_bytes st = 1" | "midi_data_bytes st = 2" by auto
  then show ?thesis
  proof cases
    case 1
    with len obtain x where "d = [x]" by (cases d) auto
    moreover from this low have "x < 0x80" "\<not> 0xF8 \<le> x" by (auto simp: not_le intro: order.strict_trans)
    ultimately show ?thesis using p 1 db nst by (auto simp: idle_def parse_defs)
  next
    case 2
    with len obtain x y where "d = [x, y]" by (cases d; cases "tl d") auto
    moreover from this low have "x < 0x80" "y < 0x80" "\<not> 0xF8 \<le> x" "\<not> 0xF8 \<le> y"
      by (auto simp: not_le intro: order.strict_trans)
    ultimately show ?thesis using p 2 db nst by (auto simp: idle_def parse_defs)
  qed
qed

lemma parse_messages:
  assumes "idle run p" "\<forall>(omit, m)\<in>set ms. channel_message m"
  shows "fst (midi_parse MIDI_PARSE_MODE_SIMPLE (wire_messages run ms) p) =
      map (\<lambda>(omit, st, d). cmd 0 st (Some d)) ms"
  using assms
proof (induction run ms arbitrary: p rule: wire_messages.induct)
  case (1 run)
  then show ?case by simp
next
  case (2 run omit st d ms)
  from parse_message [OF "2.prems"(1), of st d omit] "2.prems"(2)
  have m: "fst (midi_parse MIDI_PARSE_MODE_SIMPLE (if omit \<and> st = run then d else st # d) p) =
      [cmd 0 st (Some d)]"
    "idle st (snd (midi_parse MIDI_PARSE_MODE_SIMPLE (if omit \<and> st = run then d else st # d) p))"
    by auto
  have "\<forall>(omit, m)\<in>set ms. channel_message m" using "2.prems"(2) by simp
  from "2.IH" [OF m(2) this] m(1) show ?case by (simp add: midi_parse_append)
qed

section \<open>System exclusive messages\<close>

lemma parse_sysex_body:
  assumes "pa_status p = MIDI_STATE_WAIT_END_SYSEX" "pa_partial p = 0" "\<forall>b\<in>set d. b < 0x80"
  shows "midi_parse mode d p = ([], p\<lparr>pa_hold := pa_hold p @ d, pa_running := (if d = [] then pa_running p else 0)\<rparr>)"
  using assms
proof (induction d arbitrary: p)
  case Nil
  then show ?case by simp
next
  case (Cons b bs)
  then have b: "b < 0x80" by simp
  then have "\<not> 0xF8 \<le> b" "b \<noteq> 0xF0" "b \<noteq> 0xF7" by (auto simp: not_le intro: order.strict_trans)
  with Cons.prems have "parse_byte mode b p = ([], p\<lparr>pa_hold := pa_hold p @ [b], pa_running := 0\<rparr>)"
    by (simp add: parse_byte_def parse_start_def parse_flush_def)
  with Cons.IH [of "p\<lparr>pa_hold := pa_hold p @ [b], pa_running := 0\<rparr>"] Cons.prems show ?case by simp
qed

lemma parse_sysex:
  assumes "idle run p" "pa_partial p = 0" "\<forall>b\<in>set d. b < 0x80"
  shows "fst (midi_parse MIDI_PARSE_MODE_SIMPLE (0xF0 # d @ [0xF7]) p) = [cmd 0 0xF0 (Some (d @ [0xF7]))]"
proof -
  let ?p = "p\<lparr>pa_status := MIDI_STATE_WAIT_END_SYSEX, pa_delta := 0, pa_hold := [0xF0], pa_running := 0\<rparr>"
  have "parse_byte MIDI_PARSE_MODE_SIMPLE 0xF0 p = ([], ?p)"
    using assms by (simp add: idle_def parse_defs)
  moreover have "midi_parse MIDI_PARSE_MODE_SIMPLE d ?p = ([], ?p\<lparr>pa_hold := 0xF0 # d\<rparr>)"
    using parse_sysex_body [of ?p d MIDI_PARSE_MODE_SIMPLE] assms by simp
  ultimately show ?thesis
    by (simp add: midi_parse_append parse_byte_def parse_start_def parse_flush_def Let_def)
qed

text \<open>Outside of a system exclusive message 0xF7 is a command without data, and stays as the running status:
  the data byte after it is held without an end, and the next message is taken for more of it.\<close>

lemma parse_unpaired_end:
  assumes p: "idle run p" "pa_partial p = 0" and x: "x < 0x80" and m: "channel_message (st, d)"
  shows "fst (midi_parse MIDI_PARSE_MODE_SIMPLE (0xF7 # x # st # d) p) =
    [cmd 0 0xF7 (Some []), cmd 0 0xF7 (Some (x # st # d))]"
proof -
  from m have st: "0x80 \<le> st" "st < 0xF0" and len: "length d = midi_data_bytes st"
    and low: "\<forall>b\<in>set d. b < 0x80" by (simp_all add: channel_message_def)
  from data_bytes_high [OF st] have db: "midi_data_bytes (st AND 0xF0) = midi_data_bytes st"
    "midi_data_bytes st \<in> {1, 2}" by simp_all
  have nst: "\<not> 0xF8 \<le> st" "\<not> st < 0x80" "st \<noteq> 0xF0" "st \<noteq> 0xF7" "\<not> 0xF8 \<le> x"
    using st x by (auto simp: not_le not_less intro: order.strict_trans)
  have end_bytes: "midi_data_bytes (0xF7 :: byte) = 0" "midi_data_bytes (0xF0 :: byte) = 0"
    by (simp_all add: midi_data_bytes_def)
  from db(2) consider "midi_data_bytes st = 1" | "midi_data_bytes st = 2" by auto
  then show ?thesis
  proof cases
    case 1
    with len obtain y where "d = [y]" by (cases d) auto
    moreover from this low have "y < 0x80" "\<not> 0xF8 \<le> y" by (auto simp: not_le intro: order.strict_trans)
    ultimately show ?thesis using p x 1 db nst end_bytes by (auto simp: idle_def parse_defs)
  next
    case 2
    with len obtain y z where "d = [y, z]" by (cases d; cases "tl d") auto
    moreover from this low have "y < 0x80" "z < 0x80" "\<not> 0xF8 \<le> y" "\<not> 0xF8 \<le> z"
      by (auto simp: not_le intro: order.strict_trans)
    ultimately show ?thesis using p x 2 db nst end_bytes by (auto simp: idle_def parse_defs)
  qed
qed

section \<open>Delta times\<close>

text \<open>The value the code gives a delta time: its octets as digits to the base 256.\<close>

definition delta_value :: "64 word \<Rightarrow> bytes \<Rightarrow> 64 word" where
  "delta_value n ds = fold (\<lambda>b t. 256 * t + ucast (b AND 0x7f)) ds n"

lemma parse_delta_more:
  assumes "pa_status p = MIDI_STATE_WAIT_DELTA" "\<forall>b\<in>set ds. b AND 0x80 \<noteq> 0"
  shows "midi_parse mode ds p = ([], p\<lparr>pa_delta := delta_value (pa_delta p) ds\<rparr>)"
  using assms
proof (induction ds arbitrary: p)
  case Nil
  then show ?case by (simp add: delta_value_def)
next
  case (Cons b bs)
  then have "parse_byte mode b p = ([], p\<lparr>pa_delta := 256 * pa_delta p + ucast (b AND 0x7f)\<rparr>)"
    by (simp add: parse_byte_def parse_start_def push_bit_eq_mult mult.commute)
  with Cons.IH [of "p\<lparr>pa_delta := 256 * pa_delta p + ucast (b AND 0x7f)\<rparr>"] Cons.prems show ?case
    by (simp add: delta_value_def)
qed

lemma parse_delta:
  assumes "pa_status p = MIDI_STATE_INIT" "pa_timed p"
    and "\<forall>b\<in>set ds. b AND 0x80 \<noteq> 0" "d AND 0x80 = 0"
  shows "midi_parse mode (ds @ [d]) p =
    ([], p\<lparr>pa_status := MIDI_STATE_WAIT_COMMAND, pa_delta := delta_value 0 (ds @ [d])\<rparr>)"
proof -
  have "midi_parse mode (ds @ [d]) p = midi_parse mode (ds @ [d]) (parse_start p)"
    by (cases ds) (simp_all add: parse_byte_start)
  also have "parse_start p = p\<lparr>pa_status := MIDI_STATE_WAIT_DELTA, pa_delta := 0\<rparr>"
    using assms by (simp add: parse_start_def)
  finally show ?thesis
    using parse_delta_more [of "p\<lparr>pa_status := MIDI_STATE_WAIT_DELTA, pa_delta := 0\<rparr>" ds mode] assms
    by (simp add: midi_parse_append delta_value_def parse_byte_def parse_start_def push_bit_eq_mult mult.commute)
qed

section \<open>Properties\<close>

text \<open>A parser that has nothing unread: the state in which the handlers call it.\<close>

definition midi_ready :: "nat \<Rightarrow> midi_state \<Rightarrow> bool" where
  "midi_ready n st \<longleftrightarrow> parser_wf st \<and> ring_contents (ms_ring st) = [] \<and> ring_capacity (ms_ring st) = n"

definition midi_feed ::
    "midi_parse_mode \<Rightarrow> bool \<Rightarrow> bytes \<Rightarrow> midi_state \<Rightarrow> (midi_command list \<times> midi_state option) result" where
  "midi_feed mode z bs st =
     bindr (midi_state_write (Some st) (Some bs) (length bs)) (\<lambda>(_, state).
     midi_state_send (\<lambda>_. True) state mode z)"

definition midi_new :: "nat \<Rightarrow> midi_state" where
  "midi_new n = (case midi_state_create (\<lambda>_. True) 0 n of
     Inr (Some st) \<Rightarrow> st | _ \<Rightarrow> undefined)"

lemma midi_new_ready:
  assumes "0 < n"
  shows "midi_ready n (midi_new n)"
    "parser_of z (midi_new n) = \<lparr>pa_status = MIDI_STATE_INIT, pa_running = 0, pa_hold = [], pa_delta = 0,
      pa_partial = 0, pa_timed = z\<rparr>"
  using midi_state_create_ok [of n "\<lambda>_. True" 0 z] assms by (auto simp: midi_new_def midi_ready_def)

lemma midi_feed_ok:
  assumes "midi_ready n st" "length bs \<le> n"
  shows "\<exists>st' z'. midi_feed mode z bs st = Inr (fst (midi_parse mode bs (parser_of z st)), Some st') \<and>
    midi_ready n st' \<and> parser_of z' st' = parse_end mode (snd (midi_parse mode bs (parser_of z st)))"
proof -
  have "\<exists>k st1. midi_state_write (Some st) (Some bs) (length bs) = Inr (k, Some st1) \<and> parser_wf st1 \<and>
      ring_contents (ms_ring st1) = bs \<and> ring_capacity (ms_ring st1) = n \<and> parser_of z st1 = parser_of z st"
  proof (cases "bs = []")
    case True
    with assms show ?thesis by (auto simp: midi_state_write_def midi_ready_def)
  next
    case False
    with midi_state_write_ok [of st bs z] assms show ?thesis by (auto simp: midi_ready_def)
  qed
  then obtain k st1 where st1: "midi_state_write (Some st) (Some bs) (length bs) = Inr (k, Some st1)"
    "parser_wf st1" "ring_contents (ms_ring st1) = bs" "ring_capacity (ms_ring st1) = n"
    "parser_of z st1 = parser_of z st" by blast
  from midi_state_send_refines [OF st1(2), of "\<lambda>_. True" mode z] st1 show ?thesis
    by (auto simp: midi_feed_def midi_ready_def)
qed

text \<open>The parsers without delta times: the invariant carries over from one call to the next.\<close>

definition midi_simple :: "nat \<Rightarrow> midi_state \<Rightarrow> bool" where
  "midi_simple n st \<longleftrightarrow> midi_ready n st \<and> parser_inv (parser_of False st)"

lemma midi_new_simple: "0 < n \<Longrightarrow> midi_simple n (midi_new n)"
  using midi_new_ready(1) [of n] midi_new_ready(2) [of n False] by (simp add: midi_simple_def parser_inv_def)

lemma midi_feed_simple:
  assumes "midi_simple n st" "length bs \<le> n"
  shows "\<exists>st'. midi_feed MIDI_PARSE_MODE_SIMPLE False bs st =
      Inr (fst (midi_parse MIDI_PARSE_MODE_SIMPLE bs (parser_of False st)), Some st') \<and> midi_simple n st' \<and>
    parser_of False st' = snd (midi_parse MIDI_PARSE_MODE_SIMPLE bs (parser_of False st))"
proof -
  from assms have r: "midi_ready n st" and inv: "parser_inv (parser_of False st)"
    and status: "pa_status (parser_of False st) \<noteq> MIDI_STATE_COMMAND_RECEIVED"
    by (simp_all add: midi_simple_def midi_ready_def parser_wf_def)
  from midi_feed_ok [OF r assms(2), of MIDI_PARSE_MODE_SIMPLE False] obtain st' z' where
    st': "midi_feed MIDI_PARSE_MODE_SIMPLE False bs st =
      Inr (fst (midi_parse MIDI_PARSE_MODE_SIMPLE bs (parser_of False st)), Some st')" "midi_ready n st'"
    "parser_of z' st' = snd (midi_parse MIDI_PARSE_MODE_SIMPLE bs (parser_of False st))"
    by (auto simp: parse_end_def)
  have i: "parser_inv (parser_of z' st')" using midi_parse_inv [OF inv status] st'(3) by simp
  then have "\<not> z'" by (simp add: parser_inv_def)
  with st' i show ?thesis by (auto simp: midi_simple_def)
qed

text \<open>C15: On a ring and hold buffer in good order the parser has no fault for any bytes whatever, in
  either mode, with or without delta times; it returns (each iteration consumes a byte), leaves
  nothing unread, and sends what the machine over lists sends. The machine gives 0xF7 outside of a system
  exclusive message no case of its own, as the code's is never reached (\<open>midi_feed_unpaired_end\<close>).\<close>

theorem midi_state_send_total:
  assumes "parser_wf st" "\<forall>s. A s"
  shows "\<exists>st'. midi_state_send A (Some st) mode z =
      Inr (fst (midi_parse mode (ring_contents (ms_ring st)) (parser_of z st)), Some st') \<and>
    parser_wf st' \<and> ring_contents (ms_ring st') = []"
  using midi_state_send_refines [OF assms, of mode z] by blast

theorem midi_state_send_total_witness:
  "\<exists>st'. midi_state_send (\<lambda>_. True) (Some (midi_new 8)) MIDI_PARSE_MODE_RTP True = Inr ([], Some st')"
proof -
  have "parser_wf (midi_new 8)" "ring_contents (ms_ring (midi_new 8)) = []"
    using midi_new_ready(1) [of 8] by (simp_all add: midi_ready_def)
  then show ?thesis
    using midi_state_send_total [where st = "midi_new 8" and A = "\<lambda>_. True" and z = True] by auto
qed

text \<open>C34: Where a byte stream without delta times is cut makes no difference: feeding two pieces one
  after the other sends the commands that feeding them together sends, and leaves the parser
  in the same state.\<close>

theorem midi_feed_chunks:
  assumes "midi_simple n st" "length (xs @ ys) \<le> n"
  shows "\<exists>cs cs' st1 st2 st3.
    midi_feed MIDI_PARSE_MODE_SIMPLE False xs st = Inr (cs, Some st1) \<and>
    midi_feed MIDI_PARSE_MODE_SIMPLE False ys st1 = Inr (cs', Some st2) \<and>
    midi_feed MIDI_PARSE_MODE_SIMPLE False (xs @ ys) st = Inr (cs @ cs', Some st3) \<and>
    parser_of False st2 = parser_of False st3"
proof -
  from midi_feed_simple [OF assms(1), of xs] assms(2) obtain st1 where
    st1: "midi_feed MIDI_PARSE_MODE_SIMPLE False xs st =
      Inr (fst (midi_parse MIDI_PARSE_MODE_SIMPLE xs (parser_of False st)), Some st1)" "midi_simple n st1"
    "parser_of False st1 = snd (midi_parse MIDI_PARSE_MODE_SIMPLE xs (parser_of False st))" by auto
  from midi_feed_simple [OF st1(2), of ys] assms(2) obtain st2 where
    st2: "midi_feed MIDI_PARSE_MODE_SIMPLE False ys st1 =
      Inr (fst (midi_parse MIDI_PARSE_MODE_SIMPLE ys (parser_of False st1)), Some st2)"
    "parser_of False st2 = snd (midi_parse MIDI_PARSE_MODE_SIMPLE ys (parser_of False st1))" by auto
  from midi_feed_simple [OF assms] obtain st3 where
    st3: "midi_feed MIDI_PARSE_MODE_SIMPLE False (xs @ ys) st =
      Inr (fst (midi_parse MIDI_PARSE_MODE_SIMPLE (xs @ ys) (parser_of False st)), Some st3)"
    "parser_of False st3 = snd (midi_parse MIDI_PARSE_MODE_SIMPLE (xs @ ys) (parser_of False st))" by auto
  show ?thesis using st1 st2 st3 by (auto simp: midi_parse_append)
qed

theorem midi_feed_chunks_witness:
  "\<exists>cs cs' st1 st2 st3.
    midi_feed MIDI_PARSE_MODE_SIMPLE False [0x90, 60] (midi_new 8) = Inr (cs, Some st1) \<and>
    midi_feed MIDI_PARSE_MODE_SIMPLE False [100] st1 = Inr (cs', Some st2) \<and>
    midi_feed MIDI_PARSE_MODE_SIMPLE False [0x90, 60, 100] (midi_new 8) = Inr (cs @ cs', Some st3)"
  using midi_feed_chunks [of 8 "midi_new 8" "[0x90, 60]" "[100]"] midi_new_simple [of 8] by auto

text \<open>C27: Channel messages survive the wire: whatever messages a sender writes, omitting the status
  byte of any of them that repeats the one before (running status), the parser sends exactly
  those messages, with their data bytes and delta 0, in order.\<close>

theorem midi_feed_channel_messages:
  assumes "midi_ready n st" "idle run (parser_of False st)"
    and "\<forall>(omit, m)\<in>set ms. channel_message m" "length (wire_messages run ms) \<le> n"
  shows "\<exists>st'. midi_feed MIDI_PARSE_MODE_SIMPLE False (wire_messages run ms) st =
    Inr (map (\<lambda>(omit, status, d). cmd 0 status (Some d)) ms, Some st')"
  using midi_feed_ok [OF assms(1,4), of MIDI_PARSE_MODE_SIMPLE False] parse_messages [OF assms(2,3)] by auto

theorem midi_feed_channel_messages_witness:
  "\<exists>st'. midi_feed MIDI_PARSE_MODE_SIMPLE False [0x90, 60, 100, 62, 90, 0xC1, 5] (midi_new 16) =
    Inr ([cmd 0 0x90 (Some [60, 100]), cmd 0 0x90 (Some [62, 90]), cmd 0 0xC1 (Some [5])], Some st')"
  using midi_feed_channel_messages [of 16 "midi_new 16" 0
      "[(False, 0x90, [60, 100]), (True, 0x90, [62, 90]), (True, 0xC1, [5])]"] midi_new_ready(1) [of 16] midi_new_ready(2) [of 16 False]
  by (simp add: idle_def channel_message_def midi_data_bytes_def)

text \<open>An end of a system exclusive message that none was begun for does not cancel running status, as it should:
  it becomes the running status, and a data byte after it swallows the message that follows.\<close>

theorem midi_feed_unpaired_end:
  assumes "midi_ready n s" "idle run (parser_of False s)" "ms_partial_sysex s = 0"
    and "x < 0x80" "channel_message (st, d)" "length d + 3 \<le> n"
  shows "\<exists>s'. midi_feed MIDI_PARSE_MODE_SIMPLE False (0xF7 # x # st # d) s =
    Inr ([cmd 0 0xF7 (Some []), cmd 0 0xF7 (Some (x # st # d))], Some s')"
  using midi_feed_ok [OF assms(1), of "0xF7 # x # st # d" MIDI_PARSE_MODE_SIMPLE False]
    parse_unpaired_end [OF assms(2) _ assms(4,5)] assms(3,6) by auto

theorem midi_feed_unpaired_end_witness:
  "\<exists>s'. midi_feed MIDI_PARSE_MODE_SIMPLE False [0xF7, 0x10, 0x90, 0x3C, 0x40] (midi_new 8) =
    Inr ([cmd 0 0xF7 (Some []), cmd 0 0xF7 (Some [0x10, 0x90, 0x3C, 0x40])], Some s')"
proof -
  have new: "parser_of False (midi_new 8) = \<lparr>pa_status = MIDI_STATE_INIT, pa_running = 0, pa_hold = [], pa_delta = 0,
      pa_partial = 0, pa_timed = False\<rparr>" by (rule midi_new_ready(2)) simp
  have "ms_partial_sysex (midi_new 8) = 0" using arg_cong [OF new, of pa_partial] by simp
  then show ?thesis
    using midi_feed_unpaired_end [of 8 "midi_new 8" 0 "0x10" "0x90" "[0x3C, 0x40]"] midi_new_ready(1) [of 8] new
    by (simp add: idle_def channel_message_def midi_data_bytes_def)
qed

text \<open>Without delta times every channel command the parser ever sends has exactly the number
  of data bytes its status calls for, and what is not a channel command has a status byte of
  a system message: whatever came before, malformed bytes included.\<close>
theorem midi_feed_complete_commands:
  assumes "midi_simple n st" "length bs \<le> n"
  shows "\<exists>cs st'. midi_feed MIDI_PARSE_MODE_SIMPLE False bs st = Inr (cs, Some st') \<and>
    midi_simple n st' \<and> (\<forall>c\<in>set cs. command_ok c)"
proof -
  from assms have "parser_inv (parser_of False st)" "pa_status (parser_of False st) \<noteq> MIDI_STATE_COMMAND_RECEIVED"
    by (simp_all add: midi_simple_def midi_ready_def parser_wf_def)
  from midi_feed_simple [OF assms] midi_parse_inv [OF this, of bs] show ?thesis by blast
qed

theorem midi_feed_complete_commands_witness:
  "\<exists>cs st'. midi_feed MIDI_PARSE_MODE_SIMPLE False [0xF6, 7, 0x90, 0x91, 3, 0xF7] (midi_new 8) = Inr (cs, Some st') \<and>
    (\<forall>c\<in>set cs. command_ok c)"
  using midi_feed_complete_commands [of 8 "midi_new 8" "[0xF6, 7, 0x90, 0x91, 3, 0xF7]"] midi_new_simple [of 8]
  by auto

text \<open>Real-time bytes (0xF8 to 0xFF) may stand anywhere, within a message too: the other
  commands sent are those of the stream without them.\<close>

theorem midi_feed_realtime_transparent:
  assumes "midi_simple n st" "length bs \<le> n"
  shows "\<exists>cs st1 st2. midi_feed MIDI_PARSE_MODE_SIMPLE False bs st = Inr (cs, Some st1) \<and>
    midi_feed MIDI_PARSE_MODE_SIMPLE False (filter (\<lambda>b. b < 0xF8) bs) st =
      Inr (filter (\<lambda>c. mc_status c < 0xF8) cs, Some st2)"
proof -
  from assms have "parser_inv (parser_of False st)" "pa_status (parser_of False st) \<noteq> MIDI_STATE_COMMAND_RECEIVED"
    by (simp_all add: midi_simple_def midi_ready_def parser_wf_def)
  note rt = midi_parse_realtime [OF this, of bs]
  have "length (filter (\<lambda>b. b < 0xF8) bs) \<le> n"
    using assms(2) length_filter_le order.trans by blast
  from midi_feed_simple [OF assms] midi_feed_simple [OF assms(1) this] show ?thesis
    unfolding rt [symmetric] by blast
qed

theorem midi_feed_realtime_transparent_witness:
  "\<exists>cs st1 st2. midi_feed MIDI_PARSE_MODE_SIMPLE False [0xF8, 0x90, 0xFE, 60, 0xF8, 100] (midi_new 8) = Inr (cs, Some st1) \<and>
    midi_feed MIDI_PARSE_MODE_SIMPLE False [0x90, 60, 100] (midi_new 8) =
      Inr (filter (\<lambda>c. mc_status c < 0xF8) cs, Some st2)"
  using midi_feed_realtime_transparent [of 8 "midi_new 8" "[0xF8, 0x90, 0xFE, 60, 0xF8, 100]"] midi_new_simple [of 8]
  by simp

text \<open>The value RFC 6295 gives a delta time: seven bits from each octet.\<close>

definition rfc_delta_value :: "64 word \<Rightarrow> bytes \<Rightarrow> 64 word" where
  "rfc_delta_value n ds = fold (\<lambda>b t. 128 * t + ucast (b AND 0x7f)) ds n"

lemma parse_message_at:
  assumes p: "pa_status p = MIDI_STATE_WAIT_COMMAND" "pa_hold p = []" and m: "channel_message (st, xs)"
  shows "fst (midi_parse mode (st # xs) p) = [cmd (pa_delta p) st (Some xs)]"
proof -
  from m have st: "0x80 \<le> st" "st < 0xF0" and len: "length xs = midi_data_bytes st"
    and low: "\<forall>b\<in>set xs. \<not> 0xF8 \<le> b" by (simp_all add: channel_message_def low_not_high)
  from data_bytes_high [OF st] have db: "midi_data_bytes (st AND 0xF0) = midi_data_bytes st"
    "midi_data_bytes st \<in> {1, 2}" by simp_all
  have nst: "\<not> 0xF8 \<le> st" "\<not> st < 0x80" "st \<noteq> 0xF0" "st \<noteq> 0xF7"
    using st by (auto simp: not_le not_less intro: order.strict_trans)
  let ?p = "\<lambda>w h. p\<lparr>pa_status := w, pa_hold := h, pa_running := st\<rparr>"
  from db(2) consider "midi_data_bytes st = 1" | "midi_data_bytes st = 2" by auto
  then show ?thesis
  proof cases
    case 1
    with len obtain x where x: "xs = [x]" by (cases xs) auto
    have "parse_byte mode st p = ([], ?p MIDI_STATE_WAIT_BYTE_1 [st])"
      using p 1 db nst by (simp add: parse_defs)
    moreover have "fst (parse_byte mode x (?p MIDI_STATE_WAIT_BYTE_1 [st])) = [cmd (pa_delta p) st (Some [x])]"
      using x low by (simp add: parse_byte_def parse_start_def parse_flush_def)
    ultimately show ?thesis using x by (simp add: split_beta)
  next
    case 2
    with len obtain x y where x: "xs = [x, y]" by (cases xs; cases "tl xs") auto
    have "parse_byte mode st p = ([], ?p MIDI_STATE_WAIT_BYTE_2 [st])"
      using p 2 db nst by (simp add: parse_defs)
    moreover have "parse_byte mode x (?p MIDI_STATE_WAIT_BYTE_2 [st]) = ([], ?p MIDI_STATE_WAIT_BYTE_1 [st, x])"
      using x low by (simp add: parse_byte_def parse_start_def parse_flush_def)
    moreover have "fst (parse_byte mode y (?p MIDI_STATE_WAIT_BYTE_1 [st, x])) = [cmd (pa_delta p) st (Some [x, y])]"
      using x low by (simp add: parse_byte_def parse_start_def parse_flush_def)
    ultimately show ?thesis using x by (simp add: split_beta)
  qed
qed

lemma parse_timed_message:
  assumes p: "pa_status p = MIDI_STATE_INIT" "pa_timed p" "pa_hold p = []"
    and ds: "\<forall>b\<in>set ds. b AND 0x80 \<noteq> 0" "d AND 0x80 = 0" and m: "channel_message (st, xs)"
  shows "fst (midi_parse mode (ds @ d # st # xs) p) = [cmd (delta_value 0 (ds @ [d])) st (Some xs)]"
proof -
  let ?p = "p\<lparr>pa_status := MIDI_STATE_WAIT_COMMAND, pa_delta := delta_value 0 (ds @ [d])\<rparr>"
  have "fst (midi_parse mode ((ds @ [d]) @ st # xs) p) = fst (midi_parse mode (st # xs) ?p)"
    unfolding midi_parse_append [of mode "ds @ [d]"] parse_delta [OF p(1,2) ds, of mode] by simp
  also have "\<dots> = [cmd (delta_value 0 (ds @ [d])) st (Some xs)]"
    using parse_message_at [OF _ _ m, of ?p mode] p(3) by simp
  finally show ?thesis by simp
qed

text \<open>A channel message after a delta time is sent with the value of the delta's octets to the
  base 256 (the shift is by 8). For one octet that is the value of RFC 6295, which the code
  cites; for two octets it is too large by 128 times the first octet's seven bits.\<close>
theorem midi_feed_delta_time:
  assumes "midi_ready n st" "pa_status (parser_of True st) = MIDI_STATE_INIT" "pa_hold (parser_of True st) = []"
    and "\<forall>b\<in>set ds. b AND 0x80 \<noteq> 0" "d AND 0x80 = 0" "channel_message (status, xs)"
    and "length (ds @ d # status # xs) \<le> n"
  shows "\<exists>delta st'. midi_feed mode True (ds @ d # status # xs) st = Inr ([cmd delta status (Some xs)], Some st') \<and>
    (ds = [] \<longrightarrow> delta = rfc_delta_value 0 [d]) \<and>
    (\<forall>b. ds = [b] \<longrightarrow> delta = rfc_delta_value 0 [b, d] + 128 * ucast (b AND 0x7f))"
proof -
  have "pa_timed (parser_of True st)" by simp
  from parse_timed_message [OF assms(2) this assms(3-6), of mode]
    midi_feed_ok [OF assms(1,7), of mode True] obtain st' where
    "midi_feed mode True (ds @ d # status # xs) st =
      Inr ([cmd (delta_value 0 (ds @ [d])) status (Some xs)], Some st')" by auto
  moreover have "delta_value 0 [d] = rfc_delta_value 0 [d]"
    by (simp add: delta_value_def rfc_delta_value_def)
  moreover have "delta_value 0 [b, d] = rfc_delta_value 0 [b, d] + 128 * ucast (b AND 0x7f)" for b
    by (simp add: delta_value_def rfc_delta_value_def)
  ultimately show ?thesis by fastforce
qed

theorem midi_feed_delta_time_witness:
  "\<exists>st'. midi_feed MIDI_PARSE_MODE_RTP True [0x81, 0x00, 0xC0, 5] (midi_new 8) =
      Inr ([cmd 256 0xC0 (Some [5])], Some st') \<and> rfc_delta_value 0 [0x81, 0x00] = 128"
proof -
  have "rfc_delta_value 0 [0x81, 0x00] = 128" by (simp add: rfc_delta_value_def)
  then show ?thesis
    using midi_feed_delta_time [where n = 8 and st = "midi_new 8" and ds = "[0x81]" and d = 0
        and status = "0xC0" and xs = "[5]" and mode = MIDI_PARSE_MODE_RTP]
      midi_new_ready(1) [of 8] midi_new_ready(2) [of 8 True]
    by (auto simp: channel_message_def midi_data_bytes_def)
qed

text \<open>In RTP mode the end of a payload puts the parser back to its initial status but keeps the
  held bytes: a payload cut after the status byte of a message with two data bytes, followed
  by a payload with an end-of-SysEx byte, sends that status with one data byte, 0xF7.\<close>
theorem midi_feed_rtp_stale_hold:
  assumes st: "midi_ready n st" "idle run (parser_of False st)" "pa_partial (parser_of False st) = 0" "1 \<le> n"
    and status: "0x80 \<le> status" "status < 0xF0" "midi_data_bytes status = 2"
  shows "\<exists>st1 st2. midi_feed MIDI_PARSE_MODE_RTP False [status] st = Inr ([], Some st1) \<and>
    midi_feed MIDI_PARSE_MODE_RTP False [0xF7] st1 = Inr ([cmd 0 status (Some [0xF7])], Some st2)"
proof -
  have nst: "\<not> 0xF8 \<le> status" "\<not> status < 0x80" "status \<noteq> 0xF0" "status \<noteq> 0xF7"
    "midi_data_bytes (status AND 0xF0) = 2"
    using status data_bytes_high [of status] by (auto simp: not_le not_less intro: order.strict_trans)
  have p1: "midi_parse MIDI_PARSE_MODE_RTP [status] (parser_of False st) =
      ([], parser_of False st\<lparr>pa_status := MIDI_STATE_WAIT_BYTE_2, pa_delta := 0, pa_hold := [status],
                              pa_running := status\<rparr>)"
    using st(2,3) nst by (simp add: idle_def parse_defs)
  from midi_feed_ok [OF st(1), where bs = "[status]" and mode = MIDI_PARSE_MODE_RTP and z = False] st(4)
  obtain st1 z' where
    st1: "midi_feed MIDI_PARSE_MODE_RTP False [status] st = Inr ([], Some st1)" "midi_ready n st1"
    "parser_of z' st1 = parser_of False st\<lparr>pa_delta := 0, pa_hold := [status], pa_running := status,
       pa_status := MIDI_STATE_INIT\<rparr>" unfolding p1 parse_end_def by auto
  have "pa_timed (parser_of z' st1) = pa_timed (parser_of False st)" unfolding st1(3) by simp
  then have "\<not> z'" by simp
  with st1 have q: "parser_of False st1 = parser_of False st\<lparr>pa_status := MIDI_STATE_INIT, pa_delta := 0,
       pa_hold := [status], pa_running := status\<rparr>" by simp
  have "fst (midi_parse MIDI_PARSE_MODE_RTP [0xF7] (parser_of False st1)) = [cmd 0 status (Some [0xF7])]"
    unfolding q using st(3) by (simp add: parse_defs midi_data_bytes_def parser_of_def)
  with midi_feed_ok [OF st1(2), of "[0xF7]" MIDI_PARSE_MODE_RTP False] st(4) st1(1) show ?thesis by auto
qed

theorem midi_feed_rtp_stale_hold_witness:
  "\<exists>st1 st2. midi_feed MIDI_PARSE_MODE_RTP False [0x90] (midi_new 8) = Inr ([], Some st1) \<and>
    midi_feed MIDI_PARSE_MODE_RTP False [0xF7] st1 = Inr ([cmd 0 0x90 (Some [0xF7])], Some st2)"
  using midi_feed_rtp_stale_hold [where n = 8 and st = "midi_new 8" and run = 0 and status = "0x90"] midi_new_ready(1) [of 8] midi_new_ready(2) [of 8 False]
  by (simp add: idle_def midi_data_bytes_def)

end
