(* ===== verification/Midi_Payload.thy ===== *)
theory Midi_Payload
  imports Midi_Command
begin

text \<open>
  The MIDI command section of an RTP packet (\<^verbatim>\<open>midi_payload.c\<close>): a header with the flags B, J, Z
  and P and a length of four or twelve bits, and the MIDI list. What a command becomes on its way
  out, what a receiver reads of it, and the safety of the unpacker.
\<close>

unbundle bit_operations_syntax

section \<open>State and operations\<close>

record midi_payload_header =
  ph_B :: byte
  ph_J :: byte
  ph_Z :: byte
  ph_P :: byte
  ph_len :: "16 word"

record midi_payload =
  pl_header :: "midi_payload_header option"
  pl_buffer :: "bytes option"

definition PAYLOAD_HEADER_B :: byte where "PAYLOAD_HEADER_B = 0x80"
definition PAYLOAD_HEADER_J :: byte where "PAYLOAD_HEADER_J = 0x40"
definition PAYLOAD_HEADER_Z :: byte where "PAYLOAD_HEADER_Z = 0x20"
definition PAYLOAD_HEADER_P :: byte where "PAYLOAD_HEADER_P = 0x10"

text \<open>The static variable of the file, which no function changes.\<close>

definition running_status :: byte where "running_status = 0"

definition midi_payload_destroy :: "midi_payload option option \<Rightarrow> midi_payload option option" where
  "midi_payload_destroy payload =
     (case payload of None \<Rightarrow> None | Some None \<Rightarrow> Some None | Some (Some _) \<Rightarrow> Some None)"

definition midi_payload_reset :: "midi_payload option \<Rightarrow> midi_payload option" where
  "midi_payload_reset payload =
     (case payload of None \<Rightarrow> None
      | Some pl \<Rightarrow>
          let pl = pl\<lparr>pl_buffer := None\<rparr> in
          Some (case pl_header pl of None \<Rightarrow> pl
                | Some h \<Rightarrow> pl\<lparr>pl_header := Some (h\<lparr>ph_B := 0, ph_J := 0, ph_Z := 0, ph_P := 0, ph_len := 0\<rparr>)\<rparr>))"

text \<open>The new header's fields are those \<^verbatim>\<open>malloc\<close> returned (\<open>junk\<close>) until the reset.\<close>

definition midi_payload_create :: "alloc \<Rightarrow> midi_payload_header \<Rightarrow> midi_payload option" where
  "midi_payload_create A junk =
     (if \<not> A (Site ''midi_payload_create:payload'') then None
      else if \<not> A (Site ''midi_payload_create:header'') then None
      else midi_payload_reset (Some \<lparr>pl_header = Some junk, pl_buffer = None\<rparr>))"

definition with_header :: "(midi_payload_header \<Rightarrow> midi_payload_header) \<Rightarrow> midi_payload option \<Rightarrow> midi_payload option" where
  "with_header f payload =
     (case payload of None \<Rightarrow> None
      | Some pl \<Rightarrow> (case pl_header pl of None \<Rightarrow> Some pl
                   | Some h \<Rightarrow> Some (pl\<lparr>pl_header := Some (f h)\<rparr>)))"

definition midi_payload_set_b :: "midi_payload option \<Rightarrow> midi_payload option" where
  "midi_payload_set_b = with_header (\<lambda>h. h\<lparr>ph_B := 1\<rparr>)"

definition midi_payload_set_j :: "midi_payload option \<Rightarrow> midi_payload option" where
  "midi_payload_set_j = with_header (\<lambda>h. h\<lparr>ph_J := 1\<rparr>)"

definition midi_payload_set_z :: "midi_payload option \<Rightarrow> midi_payload option" where
  "midi_payload_set_z = with_header (\<lambda>h. h\<lparr>ph_Z := 1\<rparr>)"

definition midi_payload_set_p :: "midi_payload option \<Rightarrow> midi_payload option" where
  "midi_payload_set_p = with_header (\<lambda>h. h\<lparr>ph_P := 1\<rparr>)"

definition midi_payload_unset_b :: "midi_payload option \<Rightarrow> midi_payload option" where
  "midi_payload_unset_b = with_header (\<lambda>h. h\<lparr>ph_B := 0\<rparr>)"

definition midi_payload_unset_j :: "midi_payload option \<Rightarrow> midi_payload option" where
  "midi_payload_unset_j = with_header (\<lambda>h. h\<lparr>ph_J := 0\<rparr>)"

definition midi_payload_unset_z :: "midi_payload option \<Rightarrow> midi_payload option" where
  "midi_payload_unset_z = with_header (\<lambda>h. h\<lparr>ph_Z := 0\<rparr>)"

definition midi_payload_unset_p :: "midi_payload option \<Rightarrow> midi_payload option" where
  "midi_payload_unset_p = with_header (\<lambda>h. h\<lparr>ph_P := 0\<rparr>)"

text \<open>The results: the payload and \<^verbatim>\<open>*buffer_size\<close>, behind a pointer that may be NULL.\<close>

definition midi_payload_set_buffer ::
    "alloc \<Rightarrow> midi_payload option \<Rightarrow> bytes option \<Rightarrow> nat option \<Rightarrow>
     (midi_payload option \<times> nat option) result" where
  "midi_payload_set_buffer A payload buffer buffer_size =
     (case buffer_size of None \<Rightarrow> Inr (payload, None)
      | Some sz \<Rightarrow>
     (case payload of None \<Rightarrow> Inr (None, Some sz)
      | Some pl \<Rightarrow>
     (case buffer of None \<Rightarrow> Inr (Some pl, Some sz)
      | Some b \<Rightarrow>
          bindr (mem_get b 0) (\<lambda>b0.
          let status_present = (b0 AND 0x80 \<noteq> 0);
              sz = (if status_present then sz else sz + 1) in
          bindr (deref (pl_header pl)) (\<lambda>h.
          if \<not> A (Site ''midi_payload_set_buffer:buffer'')
          then Inr (Some (pl\<lparr>pl_header := Some (h\<lparr>ph_len := 0\<rparr>), pl_buffer := None\<rparr>), Some sz)
          else
            let pl = pl\<lparr>pl_header := Some (h\<lparr>ph_len := of_nat sz\<rparr>)\<rparr> in
            bindr (if status_present then mem_read b 0 sz
                   else bindr (mem_read b 0 (sz - 1)) (\<lambda>xs. Inr (running_status # xs))) (\<lambda>xs.
            Inr (Some (pl\<lparr>pl_buffer := Some xs\<rparr>), Some sz)))))))"

definition payload_flags :: "midi_payload_header \<Rightarrow> byte" where
  "payload_flags h =
     (if ph_B h \<noteq> 0 then PAYLOAD_HEADER_B else 0) OR (if ph_J h \<noteq> 0 then PAYLOAD_HEADER_J else 0) OR
     (if ph_Z h \<noteq> 0 then PAYLOAD_HEADER_Z else 0) OR (if ph_P h \<noteq> 0 then PAYLOAD_HEADER_P else 0)"

text \<open>The one or two octets in front of the MIDI list.\<close>

definition payload_header_bytes :: "midi_payload_header \<Rightarrow> bytes" where
  "payload_header_bytes h =
     (if ph_len h \<le> 15 then [payload_flags h OR ucast (ph_len h AND 0x0f)]
      else [payload_flags h OR ucast (drop_bit 8 (ph_len h AND 0x0f00)), ucast (ph_len h AND 0x00ff)])"

definition midi_payload_pack :: "alloc \<Rightarrow> midi_payload option \<Rightarrow> (bytes option \<times> nat) result" where
  "midi_payload_pack A payload =
     (case payload of None \<Rightarrow> Inr (None, 0)
      | Some pl \<Rightarrow>
     (case pl_buffer pl of None \<Rightarrow> Inr (None, 0)
      | Some b \<Rightarrow>
     (case pl_header pl of None \<Rightarrow> Inr (None, 0)
      | Some h \<Rightarrow>
          let len = unat (ph_len h);
              buffer_size = 1 + len + (if ph_len h > 15 then 1 else 0) in
          if \<not> A (Site ''midi_payload_pack:buffer'') then Inr (None, buffer_size)
          else bindr (mem_write (replicate buffer_size 0) 0 (payload_header_bytes h)) (\<lambda>m.
               bindr (mem_read b 0 len) (\<lambda>xs.
               bindr (mem_write m (length (payload_header_bytes h)) xs) (\<lambda>m.
               Inr (Some m, buffer_size)))))))"

text \<open>What \<^verbatim>\<open>*payload\<close> is afterwards; \<open>old\<close> is what it was. A jump to the error label is None.\<close>

definition midi_payload_unpack ::
    "alloc \<Rightarrow> midi_payload_header \<Rightarrow> midi_payload option \<Rightarrow> bytes option \<Rightarrow> nat \<Rightarrow> midi_payload option result" where
  "midi_payload_unpack A junk old buffer buffer_len =
     (case buffer of None \<Rightarrow> Inr old
      | Some b \<Rightarrow>
          if buffer_len = 0 then Inr old
          else (case midi_payload_create A junk of None \<Rightarrow> Inr None
                | Some pl \<Rightarrow>
          bindr (mem_get b 0) (\<lambda>b0.
          let pl = Some pl;
              pl = (if b0 AND PAYLOAD_HEADER_B \<noteq> 0 then midi_payload_set_b pl else pl);
              pl = (if b0 AND PAYLOAD_HEADER_J \<noteq> 0 then midi_payload_set_j pl else pl);
              pl = (if b0 AND PAYLOAD_HEADER_Z \<noteq> 0 then midi_payload_set_z pl else pl);
              pl = (if b0 AND PAYLOAD_HEADER_P \<noteq> 0 then midi_payload_set_p pl else pl) in
          bindr (deref pl) (\<lambda>pl.
          bindr (deref (pl_header pl)) (\<lambda>h.
          if ph_B h \<noteq> 0 \<and> buffer_len = 1 then Inr None
          else
            let temp_len = ucast (b0 AND 0x0f) :: 16 word; current_len = size_sub buffer_len 1 in
            bindr (if ph_B h \<noteq> 0
                   then bindr (mem_get b 1) (\<lambda>b1. Inr (push_bit 8 temp_len + ucast b1, size_sub current_len 1, 2))
                   else Inr (temp_len, current_len, 1)) (\<lambda>(temp_len, current_len, p).
            if current_len < unat temp_len then Inr None
            else if \<not> A (Site ''midi_payload_unpack:buffer'') then Inr None
            else bindr (mem_read b p (unat temp_len)) (\<lambda>xs.
                 Inr (Some (pl\<lparr>pl_header := Some (h\<lparr>ph_len := temp_len\<rparr>), pl_buffer := Some xs\<rparr>)))))))))"

text \<open>What \<^verbatim>\<open>*payload\<close> is set to. The payload without a buffer that is left when the copy in
  \<^verbatim>\<open>midi_payload_set_buffer\<close> could not be allocated is a payload all the same.\<close>

definition midi_command_to_payload ::
    "alloc \<Rightarrow> midi_payload_header \<Rightarrow> midi_command option \<Rightarrow> midi_payload option result" where
  "midi_command_to_payload A junk command =
     (case command of None \<Rightarrow> Inr None
      | Some c \<Rightarrow>
     (case midi_payload_create A junk of None \<Rightarrow> Inr None
      | Some pl \<Rightarrow>
          let new_payload_size = mc_data_len c + 1 in
          if \<not> A (Site ''midi_command_to_payload:new_payload_buffer'') then Inr None
          else bindr (if mc_data_len c = 0 then Inr []
                      else bindr (deref (mc_data c)) (\<lambda>d. mem_read d 0 (mc_data_len c))) (\<lambda>xs.
               bindr (midi_payload_set_buffer A (Some pl) (Some (mc_status c # xs)) (Some new_payload_size))
                 (\<lambda>(pl, _). Inr pl))))"

section \<open>What a receiver reads\<close>

text \<open>The grammar of the section, over lists: flags and length, then as many octets of MIDI list.\<close>

definition one_if :: "bool \<Rightarrow> byte" where
  "one_if b = (if b then 1 else 0)"

definition payload_of :: "byte \<Rightarrow> nat \<Rightarrow> bytes \<Rightarrow> midi_payload" where
  "payload_of b0 n xs =
     \<lparr>pl_header = Some \<lparr>ph_B = one_if (bit b0 7), ph_J = one_if (bit b0 6), ph_Z = one_if (bit b0 5),
        ph_P = one_if (bit b0 4), ph_len = of_nat n\<rparr>, pl_buffer = Some xs\<rparr>"

definition payload_take :: "byte \<Rightarrow> nat \<Rightarrow> bytes \<Rightarrow> midi_payload option" where
  "payload_take b0 n xs = (if length xs < n then None else Some (payload_of b0 n (take n xs)))"

fun payload_parse :: "bytes \<Rightarrow> midi_payload option" where
  "payload_parse [] = None"
| "payload_parse (b0 # bs) =
     (if bit b0 7
      then (case bs of [] \<Rightarrow> None | b1 # xs \<Rightarrow> payload_take b0 (256 * unat (b0 AND 0x0f) + unat b1) xs)
      else payload_take b0 (unat (b0 AND 0x0f)) bs)"

lemma flag_bits:
  "b AND PAYLOAD_HEADER_B = 0 \<longleftrightarrow> \<not> bit b 7" "b AND PAYLOAD_HEADER_J = 0 \<longleftrightarrow> \<not> bit b 6"
  "b AND PAYLOAD_HEADER_Z = 0 \<longleftrightarrow> \<not> bit b 5" "b AND PAYLOAD_HEADER_P = 0 \<longleftrightarrow> \<not> bit b 4"
  using and_exp_eq_0_iff_not_bit [of b 7] and_exp_eq_0_iff_not_bit [of b 6]
    and_exp_eq_0_iff_not_bit [of b 5] and_exp_eq_0_iff_not_bit [of b 4]
  by (simp_all add: PAYLOAD_HEADER_B_def PAYLOAD_HEADER_J_def PAYLOAD_HEADER_Z_def PAYLOAD_HEADER_P_def)

lemma low4_less: "unat (b AND 0x0f :: byte) < 16"
proof -
  have "b AND 0x0f = take_bit 4 b" by (simp add: take_bit_eq_mask mask_numeral)
  then show ?thesis using take_bit_nat_less_exp [of 4 "unat b"] by (simp add: unsigned_take_bit_eq)
qed

lemma len12:
  obtains n where "n = 256 * unat (b0 AND 0x0f :: byte) + unat (b1 :: byte)"
    "push_bit 8 (ucast (b0 AND 0x0f)) + ucast b1 = (of_nat n :: 16 word)" "unat (of_nat n :: 16 word) = n"
proof
  let ?n = "256 * unat (b0 AND 0x0f) + unat b1"
  show "push_bit 8 (ucast (b0 AND 0x0f)) + ucast b1 = (of_nat ?n :: 16 word)"
    by (simp add: push_bit_eq_mult mult.commute)
  have "?n < 2 ^ 16" using low4_less [of b0] unsigned_less [of b1, where 'a = nat] by simp
  then show "unat (of_nat ?n :: 16 word) = ?n" by (intro unat_of_nat_less) simp
qed simp

lemma len4:
  obtains n where "n = unat (b0 AND 0x0f :: byte)" "ucast (b0 AND 0x0f) = (of_nat n :: 16 word)"
    "unat (of_nat n :: 16 word) = n"
  using low4_less [of b0] by (auto simp: unsigned_ucast_eq take_bit_nat_eq_self)

lemma created [simp]: "midi_payload_create mem_ok junk =
  Some \<lparr>pl_header = Some (junk\<lparr>ph_B := 0, ph_J := 0, ph_Z := 0, ph_P := 0, ph_len := 0\<rparr>), pl_buffer = None\<rparr>"
  by (simp add: midi_payload_create_def midi_payload_reset_def)

lemma midi_payload_unpack_parse:
  "midi_payload_unpack mem_ok junk old (Some b) (length b) =
     Inr (if b = [] then old else payload_parse b)"
proof (cases b)
  case Nil
  then show ?thesis by (simp add: midi_payload_unpack_def)
next
  case (Cons b0 bs)
  define pl0 where "pl0 = \<lparr>pl_header = Some (junk\<lparr>ph_B := 0, ph_J := 0, ph_Z := 0, ph_P := 0, ph_len := 0\<rparr>), pl_buffer = None\<rparr>"
  define h where "h = \<lparr>ph_B = one_if (bit b0 7), ph_J = one_if (bit b0 6), ph_Z = one_if (bit b0 5),
        ph_P = one_if (bit b0 4), ph_len = 0\<rparr>"
  let ?b = "\<lambda>p. if bit b0 7 then midi_payload_set_b p else p"
  let ?j = "\<lambda>p. if bit b0 6 then midi_payload_set_j p else p"
  let ?z = "\<lambda>p. if bit b0 5 then midi_payload_set_z p else p"
  let ?p = "\<lambda>p. if bit b0 4 then midi_payload_set_p p else p"
  have flags: "?p (?z (?j (?b (Some pl0)))) = Some \<lparr>pl_header = Some h, pl_buffer = None\<rparr>"
    by (simp add: pl0_def h_def one_if_def midi_payload_set_b_def midi_payload_set_j_def
        midi_payload_set_z_def midi_payload_set_p_def with_header_def)
  have B: "ph_B h \<noteq> 0 \<longleftrightarrow> bit b0 7" by (simp add: h_def one_if_def)
  have len: "Some \<lparr>pl_header = Some (h\<lparr>ph_len := of_nat n\<rparr>), pl_buffer = Some xs\<rparr> = Some (payload_of b0 n xs)" for n xs
    by (simp add: h_def payload_of_def)
  show ?thesis
  proof (cases "bit b0 7")
    case True
    show ?thesis
    proof (cases bs)
      case Nil
      with True Cons flags B show ?thesis
        by (simp add: midi_payload_unpack_def flag_bits pl0_def [symmetric] Let_def)
    next
      case (Cons b1 xs)
      from len12 [of b0 b1] obtain n where n: "n = 256 * unat (b0 AND 0x0f) + unat b1"
        "push_bit 8 (ucast (b0 AND 0x0f)) + ucast b1 = (of_nat n :: 16 word)" "unat (of_nat n :: 16 word) = n" .
      from True flags B n(2,3) Cons \<open>b = b0 # bs\<close> show ?thesis
        by (simp add: midi_payload_unpack_def flag_bits pl0_def [symmetric] Let_def payload_take_def
            n(1) [symmetric] len)
    qed
  next
    case False
    from len4 [of b0] obtain n where n: "n = unat (b0 AND 0x0f)"
      "ucast (b0 AND 0x0f) = (of_nat n :: 16 word)" "unat (of_nat n :: 16 word) = n" .
    from False flags B n(2,3) Cons show ?thesis
      by (simp add: midi_payload_unpack_def flag_bits pl0_def [symmetric] Let_def payload_take_def
          n(1) [symmetric] len)
  qed
qed

section \<open>What the packer writes\<close>

definition payload_wf :: "midi_payload \<Rightarrow> bool" where
  "payload_wf pl \<longleftrightarrow> (case (pl_header pl, pl_buffer pl) of
     (Some h, Some b) \<Rightarrow> length b = unat (ph_len h) \<and> length b < 4096 \<and>
        ph_B h < 2 \<and> ph_J h < 2 \<and> ph_Z h < 2 \<and> ph_P h < 2
   | _ \<Rightarrow> False)"

lemma payload_wfE:
  assumes "payload_wf pl"
  obtains h b where "pl = \<lparr>pl_header = Some h, pl_buffer = Some b\<rparr>" "length b = unat (ph_len h)"
    "length b < 4096" "ph_B h \<in> {0, 1}" "ph_J h \<in> {0, 1}" "ph_Z h \<in> {0, 1}" "ph_P h \<in> {0, 1}"
  using assms one_bit
  by (cases pl; cases "pl_header pl"; cases "pl_buffer pl") (auto simp: payload_wf_def intro: that)

lemma midi_payload_pack_bytes:
  assumes "length b = unat (ph_len h)"
  shows "midi_payload_pack mem_ok (Some \<lparr>pl_header = Some h, pl_buffer = Some b\<rparr>) =
    Inr (Some (payload_header_bytes h @ b), length (payload_header_bytes h @ b))"
  using assms by (auto simp: midi_payload_pack_def payload_header_bytes_def Let_def not_le)

lemma payload_flags_bits:
  "bit (payload_flags h) 7 = (ph_B h \<noteq> 0)" "bit (payload_flags h) 6 = (ph_J h \<noteq> 0)"
  "bit (payload_flags h) 5 = (ph_Z h \<noteq> 0)" "bit (payload_flags h) 4 = (ph_P h \<noteq> 0)"
  "payload_flags h AND 0x0f = 0"
  by (simp_all add: payload_flags_def PAYLOAD_HEADER_B_def PAYLOAD_HEADER_J_def PAYLOAD_HEADER_Z_def
      PAYLOAD_HEADER_P_def bit_or_iff)

text \<open>Putting a number of four bits behind the flags.\<close>

lemma flags_with_low:
  fixes h defines "f \<equiv> payload_flags h"
  assumes "n < 16"
  shows "bit (f OR of_nat n) 7 = (ph_B h \<noteq> 0)" "bit (f OR of_nat n) 6 = (ph_J h \<noteq> 0)"
    "bit (f OR of_nat n) 5 = (ph_Z h \<noteq> 0)" "bit (f OR of_nat n) 4 = (ph_P h \<noteq> 0)"
    "unat ((f OR of_nat n) AND 0x0f) = n"
proof -
  from assms(2) have t: "of_nat n = (take_bit 4 (of_nat n) :: byte)"
    by (simp add: take_bit_of_nat take_bit_nat_eq_self)
  then have n: "\<not> bit (of_nat n :: byte) 7" "\<not> bit (of_nat n :: byte) 6" "\<not> bit (of_nat n :: byte) 5"
    "\<not> bit (of_nat n :: byte) 4"
    by (metis bit_take_bit_iff less_irrefl numeral_less_iff semiring_norm(75-81))+
  have "of_nat n AND 0x0f = (of_nat n :: byte)"
    using t by (simp add: take_bit_eq_mask mask_numeral)
  with assms(2) have low: "unat (of_nat n AND 0x0f :: byte) = n" by (simp add: unat_of_nat_less)
  show "bit (f OR of_nat n) 7 = (ph_B h \<noteq> 0)" "bit (f OR of_nat n) 6 = (ph_J h \<noteq> 0)"
    "bit (f OR of_nat n) 5 = (ph_Z h \<noteq> 0)" "bit (f OR of_nat n) 4 = (ph_P h \<noteq> 0)"
    using n by (simp_all add: f_def bit_or_iff payload_flags_bits)
  have "(f OR of_nat n) AND 0x0f = (f AND 0x0f) OR (of_nat n AND 0x0f)" by (rule bit.conj_disj_distrib2)
  then show "unat ((f OR of_nat n) AND 0x0f) = n" using low by (simp add: f_def payload_flags_bits)
qed

lemma payload_header_bytes_eq:
  assumes "unat (ph_len h) = n" "n < 4096"
  shows "payload_header_bytes h =
    (if n \<le> 15 then [payload_flags h OR of_nat n] else [payload_flags h OR of_nat (n div 256), of_nat (n mod 256)])"
proof -
  let ?w = "ph_len h"
  have w: "?w = of_nat n" using assms(1) by (metis of_nat_unat ucast_id)
  have m: "(0x0f :: 16 word) = mask 4" "(0x00ff :: 16 word) = mask 8" by (simp_all add: mask_numeral)
  have le: "?w \<le> 15 \<longleftrightarrow> n \<le> 15" using assms(1) by (simp add: word_le_nat_alt)
  have low: "ucast (?w AND 0x0f) = (of_nat n :: byte)" if "n \<le> 15"
    unfolding m take_bit_eq_mask [symmetric] w using that
    by (simp add: take_bit_of_nat take_bit_nat_eq_self unsigned_of_nat)
  have "unat (drop_bit 8 (?w AND 0x0f00)) = n div 256"
  proof -
    have "drop_bit 8 (?w AND 0x0f00) = drop_bit 8 ?w AND mask 4" by (simp add: drop_bit_and mask_numeral)
    also have "\<dots> = take_bit 4 (drop_bit 8 ?w)" by (simp add: take_bit_eq_mask)
    finally have "unat (drop_bit 8 (?w AND 0x0f00)) = take_bit 4 (drop_bit 8 (take_bit 16 n))"
      using assms(1) by (simp only: unsigned_take_bit_eq unsigned_drop_bit_eq) simp
    then show ?thesis
      using assms(2) by (simp add: take_bit_nat_eq_self drop_bit_eq_div)
  qed
  then have high: "ucast (drop_bit 8 (?w AND 0x0f00)) = (of_nat (n div 256) :: byte)"
    by (metis of_nat_unat)
  have "unat (?w AND 0x00ff) = n mod 256"
    unfolding m take_bit_eq_mask [symmetric] using assms(1) by (simp only: unsigned_take_bit_eq) (simp add: take_bit_eq_mod)
  then have "ucast (?w AND 0x00ff) = (of_nat (n mod 256) :: byte)"
    by (metis of_nat_unat)
  with le low high show ?thesis by (simp add: payload_header_bytes_def)
qed

text \<open>The reader takes the list back when the flag B tells the width of the length; a length of two
  octets without the flag makes it read the second octet as the first of the list.\<close>

lemma payload_parse_packed:
  assumes "length b = unat (ph_len h)" "length b < 4096"
  shows "payload_parse (payload_header_bytes h @ b) =
    (let n = length b; b0 = payload_header_bytes h ! 0 in
     if n \<le> 15 then if ph_B h = 0 then Some (payload_of b0 n b) else payload_parse (b0 # b)
     else if ph_B h = 0
     then let k = n div 256 in Some (payload_of b0 k (take k (of_nat (n mod 256) # b)))
     else Some (payload_of b0 n b))"
proof -
  let ?n = "length b"
  have hb: "payload_header_bytes h = (if ?n \<le> 15 then [payload_flags h OR of_nat ?n]
      else [payload_flags h OR of_nat (?n div 256), of_nat (?n mod 256)])"
    by (rule payload_header_bytes_eq) (use assms in auto)
  show ?thesis
  proof (cases "?n \<le> 15")
    case True
    then have "?n < 16" by simp
    from flags_with_low [OF this, of h] True show ?thesis
      by (auto simp: hb Let_def payload_take_def)
  next
    case False
    have lt: "?n div 256 < 16" using assms(2) by simp
    have "unat (of_nat (?n mod 256) :: byte) = ?n mod 256" by (rule unat_of_nat_less) simp
    moreover have "\<not> Suc ?n < ?n div 256" using div_le_dividend [of ?n 256] by linarith
    ultimately show ?thesis using flags_with_low [OF lt, of h] False
      by (simp add: hb Let_def payload_take_def)
  qed
qed

text \<open>A short list is taken from whatever follows the header.\<close>

lemma payload_parse_short:
  assumes "length b = unat (ph_len h)" "length b \<le> 15" "ph_B h = 0"
  shows "payload_parse (payload_header_bytes h @ b @ rest) =
    Some \<lparr>pl_header = Some \<lparr>ph_B = 0, ph_J = one_if (ph_J h \<noteq> 0), ph_Z = one_if (ph_Z h \<noteq> 0), ph_P = one_if (ph_P h \<noteq> 0),
      ph_len = ph_len h\<rparr>, pl_buffer = Some b\<rparr>"
proof -
  have n: "length b < 16" "length b < 4096" using assms(2) by simp_all
  have "payload_header_bytes h = [payload_flags h OR of_nat (length b)]"
    using payload_header_bytes_eq [of h "length b"] assms(1,2) by simp
  moreover have "of_nat (length b) = ph_len h" using assms(1) by (metis of_nat_unat ucast_id)
  ultimately show ?thesis
    using flags_with_low [OF n(1), of h] assms(3) by (simp add: payload_take_def payload_of_def one_if_def)
qed

lemma payload_of_flags:
  assumes "payload_wf \<lparr>pl_header = Some h, pl_buffer = Some b\<rparr>" "length b = n"
  shows "payload_of (payload_header_bytes h ! 0) n b = \<lparr>pl_header = Some h, pl_buffer = Some b\<rparr>"
proof -
  from assms have n: "unat (ph_len h) = n" "n < 4096" by (auto simp: payload_wf_def)
  then have l: "of_nat n = ph_len h" by (metis of_nat_unat ucast_id)
  let ?k = "if n \<le> 15 then n else n div 256"
  have "payload_header_bytes h ! 0 = payload_flags h OR of_nat ?k" and "?k < 16"
    using n(2) by (auto simp: payload_header_bytes_eq [OF n])
  moreover have "one_if (f \<noteq> 0) = f" if "f \<in> {0, 1}" for f using that by (auto simp: one_if_def)
  ultimately show ?thesis
    using assms(1) flags_with_low [of ?k h] l by (elim payload_wfE) (simp add: payload_of_def)
qed

section \<open>Properties\<close>

text \<open>On any bytes whatever the unpacker stays within them: it has no fault, and yields what the
  grammar of RFC 6295 reads, or NULL if the bytes end before the list they announce.\<close>
theorem midi_payload_unpack_safe:
  assumes "\<forall>s. A s" "b \<noteq> []"
  shows "midi_payload_unpack A junk old (Some b) (length b) = Inr (payload_parse b)"
  using assms(2) unfolding alloc_all [OF assms(1)] by (simp add: midi_payload_unpack_parse)

theorem midi_payload_unpack_safe_witness:
  "midi_payload_unpack mem_ok \<lparr>ph_B = 9, ph_J = 9, ph_Z = 9, ph_P = 9, ph_len = 9\<rparr> None (Some [0x83]) (length [0x83 :: byte]) = Inr None"
proof -
  have "bit (0x83 :: byte) 7" by simp
  then show ?thesis by (subst midi_payload_unpack_safe) simp_all
qed

text \<open>C37: A payload of up to 4095 octets whose flag B says whether its length needs twelve bits is
  packed without a fault, and unpacking the bytes gives the same flags, length and list.\<close>

theorem midi_payload_pack_unpack:
  assumes "payload_wf pl" "pl_header pl = Some h" "ph_B h = 1 \<longleftrightarrow> unat (ph_len h) > 15" "\<forall>s. A s"
  shows "\<exists>bs. midi_payload_pack A (Some pl) = Inr (Some bs, length bs) \<and>
    midi_payload_unpack A junk old (Some bs) (length bs) = Inr (Some pl)"
proof -
  note A = alloc_all [OF assms(4)]
  from assms(1,2) obtain b where pl: "pl = \<lparr>pl_header = Some h, pl_buffer = Some b\<rparr>"
    "length b = unat (ph_len h)" "length b < 4096" "ph_B h \<in> {0, 1}"
    by (elim payload_wfE) auto
  have "payload_parse (payload_header_bytes h @ b) = Some pl"
    using assms(1,3) pl payload_of_flags [of h b] by (auto simp: payload_parse_packed Let_def)
  moreover have "payload_header_bytes h @ b \<noteq> []" by (simp add: payload_header_bytes_def)
  ultimately show ?thesis
    using pl midi_payload_pack_bytes [OF pl(2)] midi_payload_unpack_parse unfolding A by auto
qed

theorem midi_payload_pack_unpack_witness:
  "\<exists>bs. midi_payload_pack mem_ok (Some \<lparr>pl_header = Some \<lparr>ph_B = 0, ph_J = 1, ph_Z = 0, ph_P = 0, ph_len = 3\<rparr>,
       pl_buffer = Some [0x90, 60, 64]\<rparr>) = Inr (Some bs, length bs) \<and>
    midi_payload_unpack mem_ok \<lparr>ph_B = 9, ph_J = 9, ph_Z = 9, ph_P = 9, ph_len = 9\<rparr> None (Some bs) (length bs) =
      Inr (Some \<lparr>pl_header = Some \<lparr>ph_B = 0, ph_J = 1, ph_Z = 0, ph_P = 0, ph_len = 3\<rparr>, pl_buffer = Some [0x90, 60, 64]\<rparr>)"
  by (rule midi_payload_pack_unpack [where h = "\<lparr>ph_B = 0, ph_J = 1, ph_Z = 0, ph_P = 0, ph_len = 3\<rparr>"])
    (simp_all add: payload_wf_def)

text \<open>C31: What a peer reads of a sent command of fewer than 4095 data bytes. Up to 14 data bytes it is the command's status and data.
  From 15 on, with a length of two octets but the flag B never set, it is a list of only
  length div 256 octets, which begins with the low octet of the length: nothing of the command
  below 256 octets, and never the command.\<close>

theorem midi_command_payload_received:
  assumes "bit (mc_status c) 7" "mc_data c = Some d" "mc_data_len c = length d" "length d < 4095" "\<forall>s. A s"
  shows "\<exists>pl bs pl'. midi_command_to_payload A junk (Some c) = Inr (Some pl) \<and>
    midi_payload_pack A (Some pl) = Inr (Some bs, length bs) \<and>
    midi_payload_unpack A junk' None (Some bs) (length bs) = Inr (Some pl') \<and>
    pl_buffer pl' = Some (if length d < 15 then mc_status c # d
      else take ((length d + 1) div 256) (of_nat ((length d + 1) mod 256) # mc_status c # d))"
proof -
  note A = alloc_all [OF assms(5)]
  let ?b = "mc_status c # d" and ?n = "length d + 1"
  define h where "h = junk\<lparr>ph_B := 0, ph_J := 0, ph_Z := 0, ph_P := 0, ph_len := of_nat ?n\<rparr>"
  let ?pl = "\<lparr>pl_header = Some h, pl_buffer = Some ?b\<rparr>"
  have B: "ph_B h = 0" by (simp add: h_def)
  have len: "length ?b = unat (ph_len h)" "length ?b < 4096"
    using assms(4) unat_of_nat_less [of ?n, where 'a = 16] by (simp_all add: h_def)
  have "mc_status c AND 0x80 \<noteq> 0" using flag_bits(1) [of "mc_status c"] assms(1) by (simp add: PAYLOAD_HEADER_B_def)
  then have "midi_command_to_payload mem_ok junk (Some c) = Inr (Some ?pl)"
    using assms(2,3) by (simp add: midi_command_to_payload_def midi_payload_set_buffer_def Let_def h_def)
  moreover have "midi_payload_unpack mem_ok junk' None (Some (payload_header_bytes h @ ?b)) (length (payload_header_bytes h @ ?b)) =
      Inr (payload_parse (payload_header_bytes h @ ?b))"
    unfolding midi_payload_unpack_parse by (simp add: payload_header_bytes_def)
  moreover have "\<exists>pl'. payload_parse (payload_header_bytes h @ ?b) = Some pl' \<and>
      pl_buffer pl' = Some (if length d < 15 then mc_status c # d
        else take ((length d + 1) div 256) (of_nat ((length d + 1) mod 256) # mc_status c # d))"
    unfolding payload_parse_packed [OF len] Let_def
    by (cases "length d < 15") (simp_all add: B payload_of_def del: of_nat_Suc)
  ultimately show ?thesis
    using midi_payload_pack_bytes [OF len(1)] unfolding A
    by (elim exE conjE) (intro exI conjI, assumption, assumption, simp, assumption)
qed

theorem midi_command_payload_received_witness:
  "\<exists>pl bs pl'. midi_command_to_payload mem_ok \<lparr>ph_B = 9, ph_J = 9, ph_Z = 9, ph_P = 9, ph_len = 9\<rparr>
      (Some \<lparr>mc_delta = 0, mc_status = 0xF0, mc_data_len = 20, mc_data = Some (replicate 20 1)\<rparr>) = Inr (Some pl) \<and>
    midi_payload_pack mem_ok (Some pl) = Inr (Some bs, length bs) \<and>
    midi_payload_unpack mem_ok \<lparr>ph_B = 9, ph_J = 9, ph_Z = 9, ph_P = 9, ph_len = 9\<rparr> None (Some bs) (length bs) = Inr (Some pl') \<and>
    pl_buffer pl' = Some []"
proof -
  have "bit (0xF0 :: byte) 7" by simp
  then show ?thesis
    using midi_command_payload_received [of "\<lparr>mc_delta = 0, mc_status = 0xF0, mc_data_len = 20, mc_data = Some (replicate 20 1)\<rparr>"
        "replicate 20 1" mem_ok] by simp
qed

end
