(* ===== verification/Rtp_Packet.thy ===== *)
theory Rtp_Packet
  imports Net_Bytes
begin

text \<open>
  RTP packets (\<^verbatim>\<open>rtp_packet.c\<close>): the fixed header of twelve octets and the payload behind it. The
  bit fields of the header are words of their width. Integers pass through the cursors of
  \<^verbatim>\<open>utils.c\<close> on a little-endian host; by the properties of those the host makes no difference.
\<close>

unbundle bit_operations_syntax

section \<open>State and operations\<close>

record rtp_packet_header =
  rh_v :: "2 word"
  rh_p :: "1 word"
  rh_x :: "1 word"
  rh_cc :: "4 word"
  rh_m :: "1 word"
  rh_pt :: "7 word"
  rh_seq :: "16 word"
  rh_timestamp :: "32 word"
  rh_ssrc :: "32 word"

record rtp_packet =
  rp_header :: rtp_packet_header
  rp_payload_len :: nat
  rp_payload :: "bytes option"

definition RTP_VERSION :: "2 word" where "RTP_VERSION = 2"
definition RTP_DYNAMIC_PAYLOAD_97 :: "7 word" where "RTP_DYNAMIC_PAYLOAD_97 = 97"

definition rtp_packet_zero :: rtp_packet where
  "rtp_packet_zero =
     \<lparr>rp_header = \<lparr>rh_v = 0, rh_p = 0, rh_x = 0, rh_cc = 0, rh_m = 0, rh_pt = 0, rh_seq = 0,
        rh_timestamp = 0, rh_ssrc = 0\<rparr>, rp_payload_len = 0, rp_payload = None\<rparr>"

definition rtp_packet_create :: "alloc \<Rightarrow> rtp_packet option" where
  "rtp_packet_create A =
     (if A (Site ''rtp_packet_create:new'')
      then Some (rtp_packet_zero\<lparr>rp_payload := None, rp_payload_len := 0,
             rp_header := (rp_header rtp_packet_zero)\<lparr>rh_v := RTP_VERSION, rh_p := 0, rh_x := 0, rh_cc := 0,
               rh_m := 0, rh_pt := RTP_DYNAMIC_PAYLOAD_97\<rparr>\<rparr>)
      else None)"

definition rtp_packet_destroy :: "rtp_packet option option \<Rightarrow> rtp_packet option option" where
  "rtp_packet_destroy packet =
     (case packet of None \<Rightarrow> None | Some None \<Rightarrow> Some None | Some (Some _) \<Rightarrow> Some None)"

text \<open>The first two octets of the header as a number.\<close>

definition rtp_header_word :: "rtp_packet_header \<Rightarrow> 16 word" where
  "rtp_header_word h =
     push_bit 8 (push_bit 6 (ucast (rh_v h))) OR push_bit 8 (push_bit 5 (ucast (rh_p h))) OR
     push_bit 8 (push_bit 4 (ucast (rh_x h))) OR push_bit 8 (ucast (rh_cc h AND 0x0f)) OR
     push_bit 7 (ucast (rh_m h)) OR ucast (rh_pt h AND 0x7f)"

text \<open>The header through the cursors, into a buffer at a position, with the length so far.\<close>

definition rtp_put_header :: "rtp_packet_header \<Rightarrow> cursor \<Rightarrow> nat \<Rightarrow> (cursor \<times> nat) result" where
  "rtp_put_header h p len =
     bindr (put_uint16 LE p (rtp_header_word h) len) (\<lambda>(p, len).
     bindr (put_uint16 LE p (rh_seq h) len) (\<lambda>(p, len).
     bindr (put_uint32 LE p (rh_timestamp h) len) (\<lambda>(p, len).
     put_uint32 LE p (rh_ssrc h) len)))"

text \<open>The results: the return value, \<^verbatim>\<open>*out_buffer\<close> and \<^verbatim>\<open>*out_buffer_len\<close>.\<close>

definition rtp_packet_pack :: "alloc \<Rightarrow> rtp_packet option \<Rightarrow> (int \<times> bytes option \<times> nat) result" where
  "rtp_packet_pack A packet =
     (case packet of None \<Rightarrow> Inr (1, None, 0)
      | Some pkt \<Rightarrow>
          if \<not> A (Site ''rtp_packet_pack:out_buffer'') then Inr (1, None, 0)
          else bindr (rtp_put_header (rp_header pkt) (Some (replicate 12 0, 0)) 0) (\<lambda>(p, len).
               bindr (deref p) (\<lambda>(m, _).
               case rp_payload pkt of None \<Rightarrow> Inr (0, Some m, len)
               | Some payload \<Rightarrow>
                   if \<not> rp_payload_len pkt > 0 then Inr (0, Some m, len)
                   else if \<not> A (Site ''rtp_packet_pack:realloc'') then Inr (0, None, len)
                   else bindr (mem_read payload 0 (rp_payload_len pkt)) (\<lambda>xs.
                        bindr (mem_write (m @ replicate (rp_payload_len pkt) 0) len xs) (\<lambda>m.
                        Inr (0, Some m, len + rp_payload_len pkt))))))"

text \<open>Reading keeps no account of how many octets are left but the wrapping difference. When the
  payload cannot be allocated it is copied to NULL.\<close>

definition rtp_packet_unpack ::
    "alloc \<Rightarrow> bytes option \<Rightarrow> nat \<Rightarrow> rtp_packet option \<Rightarrow> rtp_packet option result" where
  "rtp_packet_unpack A buffer buffer_len rtp_packet =
     (case buffer of None \<Rightarrow> Inr rtp_packet
      | Some b \<Rightarrow>
     (case rtp_packet of None \<Rightarrow> Inr None
      | Some _ \<Rightarrow>
          let pkt = rtp_packet_zero in
          bindr (get_uint16 LE 0 (Some (b, 0)) buffer_len) (\<lambda>(temp_header, p, len).
          let w = drop_bit 8 temp_header;
              h = (rp_header pkt)\<lparr>rh_v := ucast (drop_bit 6 w), rh_p := ucast (drop_bit 5 w),
                    rh_x := ucast (drop_bit 4 w), rh_cc := ucast (w AND 0x0f),
                    rh_m := ucast (drop_bit 7 (temp_header AND 0x80)), rh_pt := ucast (temp_header AND 0x7f)\<rparr> in
          bindr (get_uint16 LE (rh_seq h) p len) (\<lambda>(seq, p, len).
          bindr (get_uint32 LE (rh_timestamp h) p len) (\<lambda>(timestamp, p, len).
          bindr (get_uint32 LE (rh_ssrc h) p len) (\<lambda>(ssrc, p, len).
          let pkt = pkt\<lparr>rp_header := h\<lparr>rh_seq := seq, rh_timestamp := timestamp, rh_ssrc := ssrc\<rparr>\<rparr> in
          bindr (deref p) (\<lambda>(m, off).
          if len > 0 then
            if \<not> A (Site ''rtp_packet_unpack:payload'') then Inl NullDeref
            else bindr (mem_read m off len) (\<lambda>xs.
                 Inr (Some (pkt\<lparr>rp_payload := Some xs, rp_payload_len := len\<rparr>)))
          else Inr (Some pkt))))))))"

section \<open>The header\<close>

definition rtp_header_bytes :: "rtp_packet_header \<Rightarrow> bytes" where
  "rtp_header_bytes h =
     be_bytes 2 (rtp_header_word h) @ be_bytes 2 (rh_seq h) @ be_bytes 4 (rh_timestamp h) @ be_bytes 4 (rh_ssrc h)"

lemma length_rtp_header_bytes [simp]: "length (rtp_header_bytes h) = 12"
  by (simp add: rtp_header_bytes_def)

lemma rtp_put_header_ok:
  "12 \<le> length m \<Longrightarrow>
   rtp_put_header h (Some (m, 0)) n = Inr (Some (rtp_header_bytes h @ drop 12 m, 12), n + 12)"
  by (simp add: rtp_put_header_def rtp_header_bytes_def)

lemma rtp_header_word_fields:
  fixes h defines "t \<equiv> rtp_header_word h"
  shows "ucast (drop_bit 6 (drop_bit 8 t)) = rh_v h" "ucast (drop_bit 5 (drop_bit 8 t)) = rh_p h"
    "ucast (drop_bit 4 (drop_bit 8 t)) = rh_x h" "ucast (drop_bit 8 t AND 0x0f) = rh_cc h"
    "ucast (drop_bit 7 (t AND 0x80)) = rh_m h" "ucast (t AND 0x7f) = rh_pt h"
proof -
  have m: "(0x0f :: 16 word) = mask 4" "(0x80 :: 16 word) = push_bit 7 1" "(0x7f :: 16 word) = mask 7"
    "(0x0f :: 4 word) = mask 4" "(0x7f :: 7 word) = mask 7"
    by (simp_all add: mask_numeral)
  show "ucast (drop_bit 6 (drop_bit 8 t)) = rh_v h"
    unfolding t_def rtp_header_word_def m by (rule bit_word_eqI) (auto simp: bit_simps dest: bit_imp_le_length)
  show "ucast (drop_bit 5 (drop_bit 8 t)) = rh_p h"
    unfolding t_def rtp_header_word_def m by (rule bit_word_eqI) (auto simp: bit_simps dest: bit_imp_le_length)
  show "ucast (drop_bit 4 (drop_bit 8 t)) = rh_x h"
    unfolding t_def rtp_header_word_def m by (rule bit_word_eqI) (auto simp: bit_simps dest: bit_imp_le_length)
  show "ucast (drop_bit 8 t AND 0x0f) = rh_cc h"
    unfolding t_def rtp_header_word_def m by (rule bit_word_eqI) (auto simp: bit_simps dest: bit_imp_le_length)
  show "ucast (drop_bit 7 (t AND 0x80)) = rh_m h"
    unfolding t_def rtp_header_word_def m by (rule bit_word_eqI) (auto simp: bit_simps dest: bit_imp_le_length)
  show "ucast (t AND 0x7f) = rh_pt h"
    unfolding t_def rtp_header_word_def m by (rule bit_word_eqI) (auto simp: bit_simps dest: bit_imp_le_length)
qed

section \<open>Reading\<close>

text \<open>What an RTP packet of at least twelve octets says.\<close>

definition rtp_parse :: "bytes \<Rightarrow> rtp_packet" where
  "rtp_parse b =
     (let t = be_word (take 2 b) :: 16 word in
      \<lparr>rp_header = \<lparr>rh_v = ucast (drop_bit 6 (drop_bit 8 t)), rh_p = ucast (drop_bit 5 (drop_bit 8 t)),
         rh_x = ucast (drop_bit 4 (drop_bit 8 t)), rh_cc = ucast (drop_bit 8 t AND 0x0f),
         rh_m = ucast (drop_bit 7 (t AND 0x80)), rh_pt = ucast (t AND 0x7f),
         rh_seq = be_word (take 2 (drop 2 b)), rh_timestamp = be_word (take 4 (drop 4 b)),
         rh_ssrc = be_word (take 4 (drop 8 b))\<rparr>,
       rp_payload_len = length b - 12, rp_payload = (if length b = 12 then None else Some (drop 12 b))\<rparr>)"

lemma rtp_packet_unpack_ok:
  assumes "12 \<le> n" "n \<le> length b"
  shows "rtp_packet_unpack mem_ok (Some b) n (Some q) = Inr (Some (rtp_parse (take n b)))"
  using assms
  by (simp add: rtp_packet_unpack_def rtp_parse_def rtp_packet_zero_def Let_def drop_take min_absorb1
      del: add_2_eq_Suc add_2_eq_Suc')

text \<open>The header of a packet and what follows are what was put there.\<close>

lemma rtp_parse_bytes:
  "rtp_parse (rtp_header_bytes h @ x) =
     \<lparr>rp_header = h, rp_payload_len = length x, rp_payload = (if x = [] then None else Some x)\<rparr>"
  using rtp_header_word_fields [of h] by (simp add: rtp_parse_def rtp_header_bytes_def Let_def)

lemma rtp_packet_unpack_short:
  assumes "n < 12" "n \<le> length b" "length b < 2 ^ 63"
  shows "rtp_packet_unpack A (Some b) n (Some q) \<noteq> Inr r"
proof (cases "length b < 12")
  case True
  then consider "length b < 2" | "2 \<le> length b" "length b < 4" | "4 \<le> length b" "length b < 8" | "8 \<le> length b" "length b < 12"
    by linarith
  then show ?thesis
    by cases (simp_all add: rtp_packet_unpack_def Let_def)
next
  case False
  have wrap: "size_sub (size_sub (size_sub (size_sub n 2) 2) 4) 4 = n + 2 ^ 64 - 12"
    using assms(1) by (auto simp: size_sub_def)
  have "length b < n + 2 ^ 64 - 12 + 12" using assms by simp
  with False wrap show ?thesis
    by (simp add: rtp_packet_unpack_def Let_def)
qed

section \<open>Properties\<close>

text \<open>C29: An RTP packet whose payload length is that of its payload is packed into twelve octets of
  header and the payload, and unpacking them gives the same header, bit fields included, and
  the same payload (an empty payload comes back as none).\<close>

theorem rtp_packet_pack_unpack:
  assumes "rp_payload_len pkt = length (case rp_payload pkt of None \<Rightarrow> [] | Some x \<Rightarrow> x)" "\<forall>s. A s"
  shows "\<exists>bs. rtp_packet_pack A (Some pkt) = Inr (0, Some bs, length bs) \<and> length bs = 12 + rp_payload_len pkt \<and>
    rtp_packet_unpack A (Some bs) (length bs) (Some q) =
      Inr (Some (pkt\<lparr>rp_payload := if rp_payload_len pkt = 0 then None else rp_payload pkt\<rparr>))"
proof -
  let ?x = "case rp_payload pkt of None \<Rightarrow> [] | Some x \<Rightarrow> x"
  let ?b = "rtp_header_bytes (rp_header pkt) @ ?x"
  note A = alloc_all [OF assms(2)]
  have pack: "rtp_packet_pack mem_ok (Some pkt) = Inr (0, Some ?b, length ?b)"
    using assms(1)
    by (cases "rp_payload pkt") (simp_all add: rtp_packet_pack_def rtp_put_header_ok)
  have pay: "rp_payload_len pkt = 0 \<longleftrightarrow> ?x = []" "rp_payload_len pkt \<noteq> 0 \<Longrightarrow> rp_payload pkt = Some ?x"
    using assms(1) by (auto split: option.splits)
  have "rtp_parse ?b = pkt\<lparr>rp_payload := if rp_payload_len pkt = 0 then None else rp_payload pkt\<rparr>"
    using assms(1) pay by (simp add: rtp_parse_bytes)
  then have "rtp_packet_unpack mem_ok (Some ?b) (length ?b) (Some q) =
      Inr (Some (pkt\<lparr>rp_payload := if rp_payload_len pkt = 0 then None else rp_payload pkt\<rparr>))"
    using rtp_packet_unpack_ok [of "length ?b" ?b q] by simp
  with pack assms(1) show ?thesis unfolding A by (intro exI [of _ ?b]) simp
qed

definition rtp_example :: rtp_packet where
  "rtp_example =
     \<lparr>rp_header = \<lparr>rh_v = 2, rh_p = 0, rh_x = 1, rh_cc = 5, rh_m = 1, rh_pt = 97, rh_seq = 258, rh_timestamp = 7,
        rh_ssrc = 0xDEADBEEF\<rparr>, rp_payload_len = 3, rp_payload = Some [1, 2, 3]\<rparr>"

theorem rtp_packet_pack_unpack_witness:
  "\<exists>bs. rtp_packet_pack mem_ok (Some rtp_example) = Inr (0, Some bs, length bs) \<and> length bs = 15 \<and>
    rtp_packet_unpack mem_ok (Some bs) (length bs) (Some rtp_packet_zero) = Inr (Some rtp_example)"
  using rtp_packet_pack_unpack [of rtp_example mem_ok rtp_packet_zero] by (simp add: rtp_example_def)

text \<open>Unpacking needs the twelve octets of the header: with at least that many it reads them and
  no octet beyond the length it is given; with fewer, which it does not look for, it runs past
  the end of the buffer, if not in the header then because the number of octets left has
  wrapped around.\<close>
theorem rtp_packet_unpack_safe_iff:
  assumes "n \<le> length b" "length b < 2 ^ 63" "\<forall>s. A s"
  shows "(\<exists>r. rtp_packet_unpack A (Some b) n (Some q) = Inr r) \<longleftrightarrow> 12 \<le> n \<and>
    rtp_packet_unpack A (Some b) n (Some q) = rtp_packet_unpack A (Some (take n b)) n (Some q)"
proof (cases "12 \<le> n")
  case True
  with assms(1) show ?thesis
    using rtp_packet_unpack_ok [of n b q] rtp_packet_unpack_ok [of n "take n b" q]
    unfolding alloc_all [OF assms(3)] by simp
next
  case False
  with assms(1,2) rtp_packet_unpack_short [of n b A q] show ?thesis by auto
qed

theorem rtp_packet_unpack_safe_iff_witness:
  "\<not> (\<exists>r. rtp_packet_unpack mem_ok (Some (replicate 1500 0)) 11 (Some rtp_packet_zero) = Inr r)"
  using rtp_packet_unpack_safe_iff [of 11 "replicate 1500 0" mem_ok rtp_packet_zero] by simp

end
