(* ===== verification/Net_Applemidi.thy ===== *)
theory Net_Applemidi
  imports Net_Bytes
begin

text \<open>
  The packets of the AppleMIDI session protocol (\<^verbatim>\<open>net_applemidi.c\<close>): invitations and their
  answers, clock synchronisation, receiver feedback and bit rate limits, with the packer, the
  unpacker and the destructor. A name is the allocation that holds it, terminator included. The
  size of a pointer of the host, which the unpacker subtracts, is a parameter.
\<close>

unbundle bit_operations_syntax

section \<open>Data\<close>

record net_applemidi_inv =
  inv_ssrc :: "32 word"
  inv_version :: "32 word"
  inv_initiator :: "32 word"
  inv_name :: "bytes option"

record net_applemidi_sync =
  sy_ssrc :: "32 word"
  sy_count :: byte
  sy_padding :: bytes
  sy_timestamp1 :: "64 word"
  sy_timestamp2 :: "64 word"
  sy_timestamp3 :: "64 word"

text \<open>The two 16-bit halves \<^verbatim>\<open>rtp_seq\<close> share their memory with \<^verbatim>\<open>apple_seq\<close>.\<close>

record net_applemidi_feedback =
  fb_ssrc :: "32 word"
  fb_apple_seq :: "32 word"

record net_applemidi_bitrate =
  br_ssrc :: "32 word"
  br_limit :: "32 word"

text \<open>What \<^verbatim>\<open>data\<close> points to; \<open>WildData\<close> is a pointer that was never set.\<close>

datatype command_data =
    NullData
  | WildData
  | InvData net_applemidi_inv
  | SyncData net_applemidi_sync
  | FeedbackData net_applemidi_feedback
  | BitrateData net_applemidi_bitrate

record net_applemidi_command =
  ac_signature :: "16 word"
  ac_command :: "16 word"
  ac_data :: command_data

definition NET_APPLEMIDI_DONE :: int where "NET_APPLEMIDI_DONE = 0"
definition NET_APPLEMIDI_NEED_DATA :: int where "NET_APPLEMIDI_NEED_DATA = 1"
definition NET_APPLEMIDI_NO_MEMORY :: int where "NET_APPLEMIDI_NO_MEMORY = 2"

definition NET_APPLEMIDI_CMD_INV :: "16 word" where "NET_APPLEMIDI_CMD_INV = 0x494e"
definition NET_APPLEMIDI_CMD_SYNC :: "16 word" where "NET_APPLEMIDI_CMD_SYNC = 0x434b"
definition NET_APPLEMIDI_CMD_ACCEPT :: "16 word" where "NET_APPLEMIDI_CMD_ACCEPT = 0x4f4b"
definition NET_APPLEMIDI_CMD_REJECT :: "16 word" where "NET_APPLEMIDI_CMD_REJECT = 0x4e4f"
definition NET_APPLEMIDI_CMD_END :: "16 word" where "NET_APPLEMIDI_CMD_END = 0x4259"
definition NET_APPLEMIDI_CMD_FEEDBACK :: "16 word" where "NET_APPLEMIDI_CMD_FEEDBACK = 0x5253"
definition NET_APPLEMIDI_CMD_BITRATE :: "16 word" where "NET_APPLEMIDI_CMD_BITRATE = 0x524c"

lemmas applemidi_codes =
  NET_APPLEMIDI_DONE_def NET_APPLEMIDI_NEED_DATA_def NET_APPLEMIDI_NO_MEMORY_def
  NET_APPLEMIDI_CMD_INV_def NET_APPLEMIDI_CMD_SYNC_def NET_APPLEMIDI_CMD_ACCEPT_def
  NET_APPLEMIDI_CMD_REJECT_def NET_APPLEMIDI_CMD_END_def NET_APPLEMIDI_CMD_FEEDBACK_def
  NET_APPLEMIDI_CMD_BITRATE_def

text \<open>The commands whose data is an invitation.\<close>

definition inv_command :: "16 word \<Rightarrow> bool" where
  "inv_command c \<longleftrightarrow> c = NET_APPLEMIDI_CMD_INV \<or> c = NET_APPLEMIDI_CMD_ACCEPT \<or>
     c = NET_APPLEMIDI_CMD_REJECT \<or> c = NET_APPLEMIDI_CMD_END"

section \<open>Creating and destroying\<close>

definition net_applemidi_inv_create :: "alloc \<Rightarrow> net_applemidi_inv option" where
  "net_applemidi_inv_create A =
     (if A (Site ''net_applemidi_inv_create:inv'')
      then Some \<lparr>inv_ssrc = 0, inv_version = 0, inv_initiator = 0, inv_name = None\<rparr> else None)"

definition net_applemidi_inv_destroy :: "net_applemidi_inv option option \<Rightarrow> net_applemidi_inv option option" where
  "net_applemidi_inv_destroy iv =
     (case iv of None \<Rightarrow> None | Some None \<Rightarrow> Some None | Some (Some _) \<Rightarrow> Some None)"

definition net_applemidi_sync_create :: "alloc \<Rightarrow> net_applemidi_sync option" where
  "net_applemidi_sync_create A =
     (if A (Site ''net_applemidi_sync_create:sync'')
      then Some \<lparr>sy_ssrc = 0, sy_count = 0, sy_padding = [0, 0, 0], sy_timestamp1 = 0, sy_timestamp2 = 0,
             sy_timestamp3 = 0\<rparr> else None)"

definition net_applemidi_sync_destroy :: "net_applemidi_sync option option \<Rightarrow> net_applemidi_sync option option" where
  "net_applemidi_sync_destroy sync =
     (case sync of None \<Rightarrow> None | Some None \<Rightarrow> Some None | Some (Some _) \<Rightarrow> Some None)"

definition net_applemidi_feedback_create :: "alloc \<Rightarrow> net_applemidi_feedback option" where
  "net_applemidi_feedback_create A =
     (if A (Site ''net_applemidi_feedback_create:feedback'')
      then Some \<lparr>fb_ssrc = 0, fb_apple_seq = 0\<rparr> else None)"

definition net_applemidi_cmd_create :: "alloc \<Rightarrow> 16 word \<Rightarrow> net_applemidi_command option" where
  "net_applemidi_cmd_create A command =
     (if A (Site ''net_applemidi_cmd_create:new_command'')
      then Some \<lparr>ac_signature = 0xffff, ac_command = command, ac_data = NullData\<rparr> else None)"

text \<open>Data used as an invitation, or as another kind; anything else behind the pointer is not there.\<close>

definition as_inv :: "command_data \<Rightarrow> net_applemidi_inv option result" where
  "as_inv d = (case d of NullData \<Rightarrow> Inr None | InvData i \<Rightarrow> Inr (Some i) | _ \<Rightarrow> Inl OutOfBounds)"

definition as_sync :: "command_data \<Rightarrow> net_applemidi_sync option result" where
  "as_sync d = (case d of NullData \<Rightarrow> Inr None | SyncData s \<Rightarrow> Inr (Some s) | _ \<Rightarrow> Inl OutOfBounds)"

definition as_feedback :: "command_data \<Rightarrow> net_applemidi_feedback option result" where
  "as_feedback d = (case d of NullData \<Rightarrow> Inr None | FeedbackData f \<Rightarrow> Inr (Some f) | _ \<Rightarrow> Inl OutOfBounds)"

definition as_bitrate :: "command_data \<Rightarrow> net_applemidi_bitrate option result" where
  "as_bitrate d = (case d of NullData \<Rightarrow> Inr None | BitrateData b \<Rightarrow> Inr (Some b) | _ \<Rightarrow> Inl OutOfBounds)"

text \<open>What \<^verbatim>\<open>*command\<close> is afterwards; a pointer that was never set cannot be freed.\<close>

definition net_applemidi_cmd_destroy :: "net_applemidi_command option \<Rightarrow> (int \<times> net_applemidi_command option) result" where
  "net_applemidi_cmd_destroy command =
     (case command of None \<Rightarrow> Inr (NET_APPLEMIDI_DONE, None)
      | Some c \<Rightarrow>
          bindr (if inv_command (ac_command c) then bindr (as_inv (ac_data c)) (\<lambda>_. Inr ()) else Inr ()) (\<lambda>_.
          if ac_data c = WildData then Inl BadFree else Inr (NET_APPLEMIDI_DONE, None)))"

section \<open>Unpacking\<close>

definition NET_APPLEMIDI_COMMAND_SIZE :: nat where "NET_APPLEMIDI_COMMAND_SIZE = 4"
definition NET_APPLEMIDI_INV_STATIC_SIZE :: nat where "NET_APPLEMIDI_INV_STATIC_SIZE = 16"
definition NET_APPLEMIDI_SYNC_SIZE :: nat where "NET_APPLEMIDI_SYNC_SIZE = 36"
definition NET_APPLEMIDI_FEEDBACK_SIZE :: nat where "NET_APPLEMIDI_FEEDBACK_SIZE = 8"
definition NET_APPLEMIDI_BITRATE_SIZE :: nat where "NET_APPLEMIDI_BITRATE_SIZE = 8"

lemmas applemidi_sizes [simp] =
  NET_APPLEMIDI_COMMAND_SIZE_def NET_APPLEMIDI_INV_STATIC_SIZE_def NET_APPLEMIDI_SYNC_SIZE_def
  NET_APPLEMIDI_FEEDBACK_SIZE_def NET_APPLEMIDI_BITRATE_SIZE_def

text \<open>The fields of each kind. A string that follows the fixed part of an invitation is duplicated
  from where it begins to its terminator, wherever that is.\<close>

definition unpack_inv :: "alloc \<Rightarrow> cursor \<Rightarrow> nat \<Rightarrow> net_applemidi_inv \<Rightarrow> net_applemidi_inv result" where
  "unpack_inv A p len iv =
     bindr (get_uint32 LE (inv_version iv) p len) (\<lambda>(version, p, len).
     bindr (get_uint32 LE (inv_initiator iv) p len) (\<lambda>(initiator, p, len).
     bindr (get_uint32 LE (inv_ssrc iv) p len) (\<lambda>(ssrc, p, len).
     let iv = iv\<lparr>inv_version := version, inv_initiator := initiator, inv_ssrc := ssrc\<rparr> in
     if len > 0 then
       (case p of None \<Rightarrow> Inr iv
        | Some (m, off) \<Rightarrow>
            bindr (c_strlen (drop off m)) (\<lambda>_.
            Inr (iv\<lparr>inv_name := if A (Site ''net_applemidi_unpack:name'')
                                then Some (c_string (drop off m) @ [0]) else None\<rparr>)))
     else Inr (iv\<lparr>inv_name := None\<rparr>))))"

definition unpack_sync :: "cursor \<Rightarrow> nat \<Rightarrow> net_applemidi_sync result" where
  "unpack_sync p len =
     bindr (get_uint32 LE 0 p len) (\<lambda>(ssrc, p, len).
     bindr (deref p) (\<lambda>(m, off).
     bindr (mem_get m off) (\<lambda>count.
     bindr (mem_read m (off + 1) 3) (\<lambda>padding.
     bindr (get_uint64 LE 0 (Some (m, off + 4)) (size_sub (size_sub len 1) 3)) (\<lambda>(t1, p, len).
     bindr (get_uint64 LE 0 p len) (\<lambda>(t2, p, len).
     bindr (get_uint64 LE 0 p len) (\<lambda>(t3, p, len).
     Inr \<lparr>sy_ssrc = ssrc, sy_count = count, sy_padding = padding, sy_timestamp1 = t1, sy_timestamp2 = t2,
          sy_timestamp3 = t3\<rparr>)))))))"

definition unpack_feedback :: "cursor \<Rightarrow> nat \<Rightarrow> net_applemidi_feedback result" where
  "unpack_feedback p len =
     bindr (get_uint32 LE 0 p len) (\<lambda>(ssrc, p, len).
     bindr (get_uint32 LE 0 p len) (\<lambda>(apple_seq, p, len).
     Inr \<lparr>fb_ssrc = ssrc, fb_apple_seq = apple_seq\<rparr>))"

definition unpack_bitrate :: "cursor \<Rightarrow> nat \<Rightarrow> net_applemidi_bitrate result" where
  "unpack_bitrate p len =
     bindr (get_uint32 LE 0 p len) (\<lambda>(ssrc, p, len).
     bindr (get_uint32 LE 0 p len) (\<lambda>(limit, p, len).
     Inr \<lparr>br_ssrc = ssrc, br_limit = limit\<rparr>))"

text \<open>The results: the return value and \<^verbatim>\<open>*command_buffer\<close>. The new command's data pointer is
  whatever \<^verbatim>\<open>malloc\<close> returned (\<open>junk\<close>) until it is set; \<open>ptr\<close> is \<^verbatim>\<open>sizeof( char * )\<close>.\<close>

definition net_applemidi_unpack ::
    "alloc \<Rightarrow> nat \<Rightarrow> command_data \<Rightarrow> bytes option \<Rightarrow> nat \<Rightarrow> (int \<times> net_applemidi_command option) result" where
  "net_applemidi_unpack A ptr junk in_buffer buffer_len =
     (case in_buffer of None \<Rightarrow> Inr (NET_APPLEMIDI_NEED_DATA, None)
      | Some b \<Rightarrow>
          if buffer_len < NET_APPLEMIDI_COMMAND_SIZE then Inr (NET_APPLEMIDI_NEED_DATA, None)
          else if \<not> A (Site ''net_applemidi_unpack:command_buffer'') then Inr (NET_APPLEMIDI_NO_MEMORY, None)
          else
            bindr (get_uint16 LE 0 (Some (b, 0)) buffer_len) (\<lambda>(signature, p, len).
            bindr (get_uint16 LE 0 p len) (\<lambda>(command, p, len).
            let c = \<lparr>ac_signature = signature, ac_command = command, ac_data = junk\<rparr> in
            if inv_command command then
              if len < NET_APPLEMIDI_INV_STATIC_SIZE - ptr then Inr (NET_APPLEMIDI_NEED_DATA, None)
              else (case net_applemidi_inv_create A of None \<Rightarrow> Inr (NET_APPLEMIDI_NO_MEMORY, None)
                    | Some iv \<Rightarrow> bindr (unpack_inv A p len iv) (\<lambda>iv.
                        Inr (NET_APPLEMIDI_DONE, Some (c\<lparr>ac_data := InvData iv\<rparr>))))
            else if command = NET_APPLEMIDI_CMD_FEEDBACK then
              if len < 8 then Inr (NET_APPLEMIDI_NEED_DATA, None)
              else if \<not> A (Site ''net_applemidi_unpack:feedback'') then Inr (NET_APPLEMIDI_NO_MEMORY, None)
              else bindr (unpack_feedback p len) (\<lambda>f.
                   Inr (NET_APPLEMIDI_DONE, Some (c\<lparr>ac_data := FeedbackData f\<rparr>)))
            else if command = NET_APPLEMIDI_CMD_BITRATE then
              if len < 8 then Inr (NET_APPLEMIDI_NEED_DATA, None)
              else if \<not> A (Site ''net_applemidi_unpack:bitrate'') then Inr (NET_APPLEMIDI_NO_MEMORY, None)
              else bindr (unpack_bitrate p len) (\<lambda>r.
                   Inr (NET_APPLEMIDI_DONE, Some (c\<lparr>ac_data := BitrateData r\<rparr>)))
            else if command = NET_APPLEMIDI_CMD_SYNC then
              if len < 32 then Inr (NET_APPLEMIDI_NEED_DATA, None)
              else if \<not> A (Site ''net_applemidi_unpack:sync'') then Inr (NET_APPLEMIDI_NO_MEMORY, None)
              else bindr (unpack_sync p len) (\<lambda>s.
                   Inr (NET_APPLEMIDI_DONE, Some (c\<lparr>ac_data := SyncData s\<rparr>)))
            else Inr (NET_APPLEMIDI_DONE, Some c))))"

section \<open>Packing\<close>

text \<open>\<^verbatim>\<open>realloc\<close> keeps what fits; the bytes behind it are unset.\<close>

definition mem_resize :: "bytes \<Rightarrow> nat \<Rightarrow> bytes" where
  "mem_resize m n = take n m @ replicate (n - length m) 0"

text \<open>Each part gets the buffer with the number of bytes so far. Only the reallocation for a name and
  that for a synchronisation are looked at; after the others a NULL is written through.\<close>

definition pack_inv :: "alloc \<Rightarrow> net_applemidi_inv \<Rightarrow> bytes \<Rightarrow> nat \<Rightarrow> (int \<times> bytes option \<times> nat) result" where
  "pack_inv A iv m len =
     (if \<not> A (Site ''net_applemidi_pack:inv'') then Inl NullDeref
      else
        bindr (put_uint32 LE (Some (mem_resize m (NET_APPLEMIDI_COMMAND_SIZE + NET_APPLEMIDI_INV_STATIC_SIZE), len))
                 (inv_version iv) len) (\<lambda>(p, len).
        bindr (put_uint32 LE p (inv_initiator iv) len) (\<lambda>(p, len).
        bindr (put_uint32 LE p (inv_ssrc iv) len) (\<lambda>(p, len).
        bindr (deref p) (\<lambda>(m, _).
        case inv_name iv of None \<Rightarrow> Inr (NET_APPLEMIDI_DONE, Some m, len)
        | Some nm \<Rightarrow>
            bindr (c_strlen nm) (\<lambda>k.
            if \<not> A (Site ''net_applemidi_pack:name'') then Inr (NET_APPLEMIDI_NO_MEMORY, None, 0)
            else bindr (mem_read nm 0 k) (\<lambda>xs.
                 bindr (mem_write (mem_resize m (len + k + 1)) len xs) (\<lambda>m.
                 bindr (mem_write m (len + k) [0]) (\<lambda>m.
                 Inr (NET_APPLEMIDI_DONE, Some m, len + k + 1))))))))))"

definition pack_words :: "bool \<Rightarrow> nat \<Rightarrow> 32 word \<Rightarrow> 32 word \<Rightarrow> bytes \<Rightarrow> nat \<Rightarrow> (int \<times> bytes option \<times> nat) result" where
  "pack_words ok sz w1 w2 m len =
     (if \<not> ok then Inl NullDeref
      else bindr (put_uint32 LE (Some (mem_resize m (NET_APPLEMIDI_COMMAND_SIZE + sz), len)) w1 len) (\<lambda>(p, len).
           bindr (put_uint32 LE p w2 len) (\<lambda>(p, len).
           bindr (deref p) (\<lambda>(m, _). Inr (NET_APPLEMIDI_DONE, Some m, len)))))"

definition pack_sync :: "alloc \<Rightarrow> net_applemidi_sync option \<Rightarrow> bytes \<Rightarrow> nat \<Rightarrow> (int \<times> bytes option \<times> nat) result" where
  "pack_sync A sync m len =
     (if \<not> A (Site ''net_applemidi_pack:sync'') then Inr (NET_APPLEMIDI_NO_MEMORY, None, 0)
      else
        bindr (deref sync) (\<lambda>s.
        bindr (put_uint32 LE (Some (mem_resize m (NET_APPLEMIDI_COMMAND_SIZE + NET_APPLEMIDI_SYNC_SIZE), len))
                 (sy_ssrc s) len) (\<lambda>(p, len).
        bindr (deref p) (\<lambda>(m, off).
        bindr (mem_write m off [sy_count s]) (\<lambda>m.
        bindr (mem_write m (off + 1) (sy_padding s)) (\<lambda>m.
        bindr (put_uint64 LE (Some (m, off + 4)) (sy_timestamp1 s) (len + 4)) (\<lambda>(p, len).
        bindr (put_uint64 LE p (sy_timestamp2 s) len) (\<lambda>(p, len).
        bindr (put_uint64 LE p (sy_timestamp3 s) len) (\<lambda>(p, len).
        bindr (deref p) (\<lambda>(m, _). Inr (NET_APPLEMIDI_DONE, Some m, len)))))))))))"

text \<open>The results: the return value, \<^verbatim>\<open>*out_buffer\<close> (\<open>old\<close> before) and \<^verbatim>\<open>*out_buffer_len\<close>.\<close>

definition net_applemidi_pack ::
    "alloc \<Rightarrow> net_applemidi_command option \<Rightarrow> bytes option \<Rightarrow> (int \<times> bytes option \<times> nat) result" where
  "net_applemidi_pack A command_buffer old =
     (case command_buffer of None \<Rightarrow> Inr (NET_APPLEMIDI_NEED_DATA, old, 0)
      | Some c \<Rightarrow>
          if \<not> A (Site ''net_applemidi_pack:out_buffer'') then Inr (NET_APPLEMIDI_NO_MEMORY, None, 0)
          else
            bindr (put_uint16 LE (Some (replicate NET_APPLEMIDI_COMMAND_SIZE 0, 0)) (ac_signature c) 0) (\<lambda>(p, len).
            bindr (put_uint16 LE p (ac_command c) len) (\<lambda>(p, len).
            bindr (deref p) (\<lambda>(m, _).
            if inv_command (ac_command c) then
              bindr (as_inv (ac_data c)) (\<lambda>d. case d of None \<Rightarrow> Inr (NET_APPLEMIDI_NEED_DATA, None, 0)
              | Some iv \<Rightarrow> pack_inv A iv m len)
            else if ac_command c = NET_APPLEMIDI_CMD_FEEDBACK then
              bindr (as_feedback (ac_data c)) (\<lambda>d. case d of None \<Rightarrow> Inr (NET_APPLEMIDI_NEED_DATA, None, 0)
              | Some f \<Rightarrow> pack_words (A (Site ''net_applemidi_pack:feedback'')) NET_APPLEMIDI_FEEDBACK_SIZE
                           (fb_ssrc f) (fb_apple_seq f) m len)
            else if ac_command c = NET_APPLEMIDI_CMD_BITRATE then
              bindr (as_bitrate (ac_data c)) (\<lambda>d. case d of None \<Rightarrow> Inr (NET_APPLEMIDI_NEED_DATA, None, 0)
              | Some r \<Rightarrow> pack_words (A (Site ''net_applemidi_pack:bitrate'')) NET_APPLEMIDI_BITRATE_SIZE
                           (br_ssrc r) (br_limit r) m len)
            else if ac_command c = NET_APPLEMIDI_CMD_SYNC then
              bindr (as_sync (ac_data c)) (\<lambda>d. pack_sync A d m len)
            else Inr (NET_APPLEMIDI_DONE, Some m, len)))))"

section \<open>The packets\<close>

fun data_bytes :: "command_data \<Rightarrow> bytes" where
  "data_bytes (InvData i) = be_bytes 4 (inv_version i) @ be_bytes 4 (inv_initiator i) @ be_bytes 4 (inv_ssrc i) @
     (case inv_name i of None \<Rightarrow> [] | Some nm \<Rightarrow> nm)"
| "data_bytes (SyncData s) = be_bytes 4 (sy_ssrc s) @ sy_count s # sy_padding s @
     be_bytes 8 (sy_timestamp1 s) @ be_bytes 8 (sy_timestamp2 s) @ be_bytes 8 (sy_timestamp3 s)"
| "data_bytes (FeedbackData f) = be_bytes 4 (fb_ssrc f) @ be_bytes 4 (fb_apple_seq f)"
| "data_bytes (BitrateData r) = be_bytes 4 (br_ssrc r) @ be_bytes 4 (br_limit r)"
| "data_bytes _ = []"

definition command_bytes :: "net_applemidi_command \<Rightarrow> bytes" where
  "command_bytes c = be_bytes 2 (ac_signature c) @ be_bytes 2 (ac_command c) @ data_bytes (ac_data c)"

text \<open>A command whose data is what its code calls for; names are terminated where they end.\<close>

fun data_fits :: "16 word \<Rightarrow> command_data \<Rightarrow> bool" where
  "data_fits c (InvData i) \<longleftrightarrow> inv_command c \<and> (case inv_name i of None \<Rightarrow> True
     | Some nm \<Rightarrow> nm \<noteq> [] \<and> last nm = 0 \<and> 0 \<notin> set (butlast nm))"
| "data_fits c (SyncData s) \<longleftrightarrow> c = NET_APPLEMIDI_CMD_SYNC \<and> length (sy_padding s) = 3"
| "data_fits c (FeedbackData f) \<longleftrightarrow> c = NET_APPLEMIDI_CMD_FEEDBACK"
| "data_fits c (BitrateData r) \<longleftrightarrow> c = NET_APPLEMIDI_CMD_BITRATE"
| "data_fits c _ \<longleftrightarrow> False"

lemma command_codes_distinct [simp]:
  "\<not> inv_command NET_APPLEMIDI_CMD_SYNC" "\<not> inv_command NET_APPLEMIDI_CMD_FEEDBACK"
  "\<not> inv_command NET_APPLEMIDI_CMD_BITRATE" "NET_APPLEMIDI_CMD_SYNC \<noteq> NET_APPLEMIDI_CMD_FEEDBACK"
  "NET_APPLEMIDI_CMD_SYNC \<noteq> NET_APPLEMIDI_CMD_BITRATE" "NET_APPLEMIDI_CMD_FEEDBACK \<noteq> NET_APPLEMIDI_CMD_BITRATE"
  "NET_APPLEMIDI_CMD_BITRATE \<noteq> NET_APPLEMIDI_CMD_FEEDBACK"
  by (simp_all add: inv_command_def applemidi_codes)

lemma c_name:
  assumes "nm \<noteq> []" "last nm = 0" "0 \<notin> set (butlast nm)"
  obtains x where "nm = x @ [0]" "0 \<notin> set x" "c_string nm = x" "c_strlen nm = Inr (length x)"
proof -
  from assms(1,2) have nm: "nm = butlast nm @ [0]" by (metis append_butlast_last_id)
  have z: "0 \<in> set nm" by (subst nm) simp
  have "c_string nm = butlast nm" by (subst nm) (simp add: c_string_append assms(3))
  with that [of "butlast nm"] nm z assms(3) show thesis by simp
qed

lemma net_applemidi_pack_bytes:
  assumes "data_fits (ac_command c) (ac_data c)"
  shows "\<exists>m. net_applemidi_pack mem_ok (Some c) old = Inr (NET_APPLEMIDI_DONE, Some m, length (command_bytes c)) \<and>
    take (length (command_bytes c)) m = command_bytes c"
proof (cases "ac_data c")
  case (InvData i)
  show ?thesis
  proof (cases "inv_name i")
    case None
    with InvData assms show ?thesis
      by (simp add: net_applemidi_pack_def pack_inv_def as_inv_def mem_resize_def command_bytes_def)
  next
    case (Some nm)
    with InvData assms have "nm \<noteq> []" "last nm = 0" "0 \<notin> set (butlast nm)" by simp_all
    then obtain x where "nm = x @ [0]" "c_strlen nm = Inr (length x)" by (rule c_name)
    with Some InvData assms show ?thesis
      by (simp add: net_applemidi_pack_def pack_inv_def as_inv_def mem_resize_def command_bytes_def)
  qed
next
  case (SyncData s)
  with assms show ?thesis
    by (simp add: net_applemidi_pack_def pack_sync_def as_sync_def mem_resize_def command_bytes_def)
next
  case (FeedbackData f)
  with assms show ?thesis
    by (simp add: net_applemidi_pack_def pack_words_def as_feedback_def mem_resize_def command_bytes_def)
next
  case (BitrateData r)
  with assms show ?thesis
    by (simp add: net_applemidi_pack_def pack_words_def as_bitrate_def mem_resize_def command_bytes_def)
qed (use assms in simp_all)

lemma net_applemidi_unpack_bytes:
  assumes fits: "data_fits (ac_command c) (ac_data c)" and ptr: "4 \<le> ptr"
  shows "net_applemidi_unpack mem_ok ptr junk (Some (command_bytes c @ rest)) (length (command_bytes c)) =
    Inr (NET_APPLEMIDI_DONE, Some c)"
proof (cases "ac_data c")
  case (InvData i)
  have i: "\<lparr>inv_ssrc = inv_ssrc i, inv_version = inv_version i, inv_initiator = inv_initiator i, inv_name = inv_name i\<rparr> = i"
    by simp
  have "\<not> 12 < 16 - ptr" using ptr by simp
  moreover have "\<not> 13 + n < 16 - ptr" for n using ptr by simp
  ultimately show ?thesis
  proof (cases "inv_name i")
    case None
    with InvData fits \<open>\<not> 12 < 16 - ptr\<close> show ?thesis
      by (simp add: net_applemidi_unpack_def net_applemidi_inv_create_def unpack_inv_def command_bytes_def Let_def)
  next
    case (Some nm)
    with InvData fits have "nm \<noteq> []" "last nm = 0" "0 \<notin> set (butlast nm)" by simp_all
    then obtain x where "nm = x @ [0]" "0 \<notin> set x" "c_strlen nm = Inr (length x)" by (rule c_name)
    with Some InvData fits \<open>\<And>n. \<not> 13 + n < 16 - ptr\<close> show ?thesis
      by (simp add: net_applemidi_unpack_def net_applemidi_inv_create_def unpack_inv_def command_bytes_def Let_def
          c_string_append)
  qed
next
  case (SyncData s)
  with fits show ?thesis
    by (simp add: net_applemidi_unpack_def unpack_sync_def command_bytes_def Let_def nth_append)
next
  case (FeedbackData f)
  with fits show ?thesis
    by (simp add: net_applemidi_unpack_def unpack_feedback_def command_bytes_def Let_def)
next
  case (BitrateData r)
  with fits show ?thesis
    by (simp add: net_applemidi_unpack_def unpack_bitrate_def command_bytes_def Let_def)
qed (use fits in simp_all)

section \<open>Properties\<close>

text \<open>C30: A session command of any kind, whose data is what its code calls for, is packed without a
  fault, and unpacking the bytes gives the same command: signature, code, every field, and the
  name.\<close>

theorem net_applemidi_pack_unpack:
  assumes "data_fits (ac_command c) (ac_data c)" "4 \<le> ptr" "\<forall>s. A s"
  shows "\<exists>m n. net_applemidi_pack A (Some c) old = Inr (NET_APPLEMIDI_DONE, Some m, n) \<and> n \<le> length m \<and>
    net_applemidi_unpack A ptr junk (Some m) n = Inr (NET_APPLEMIDI_DONE, Some c)"
proof -
  note A = alloc_all [OF assms(3)]
  from net_applemidi_pack_bytes [OF assms(1)] obtain m where
    m: "net_applemidi_pack mem_ok (Some c) old = Inr (NET_APPLEMIDI_DONE, Some m, length (command_bytes c))"
    "take (length (command_bytes c)) m = command_bytes c" by blast
  from m(2) have "m = command_bytes c @ drop (length (command_bytes c)) m"
    by (metis append_take_drop_id)
  with net_applemidi_unpack_bytes [OF assms(1,2)] m show ?thesis
    unfolding A by (metis length_append le_add1)
qed

definition invitation_example :: net_applemidi_command where
  "invitation_example = \<lparr>ac_signature = 0xffff, ac_command = NET_APPLEMIDI_CMD_INV,
     ac_data = InvData \<lparr>inv_ssrc = 77, inv_version = 2, inv_initiator = 0x12345678, inv_name = Some [80, 105, 0]\<rparr>\<rparr>"

theorem net_applemidi_pack_unpack_witness:
  "\<exists>m n. net_applemidi_pack mem_ok (Some invitation_example) None = Inr (NET_APPLEMIDI_DONE, Some m, n) \<and> n \<le> length m \<and>
    net_applemidi_unpack mem_ok 8 WildData (Some m) n = Inr (NET_APPLEMIDI_DONE, Some invitation_example)"
  by (rule net_applemidi_pack_unpack) (simp_all add: invitation_example_def inv_command_def)

text \<open>C38: Unpacking a received buffer of any bytes is safe except for the commands that carry an
  invitation: with 64-bit pointers (size 8) the check lets through 12 to 15 octets where the
  three fixed fields need 16, and a name without a terminator is read past the end of the
  buffer. With 32-bit pointers only the second remains.\<close>

theorem net_applemidi_unpack_safe_iff:
  assumes "ptr = 4 \<or> ptr = 8" "\<forall>s. A s"
  shows "(\<exists>r. net_applemidi_unpack A ptr junk (Some b) (length b) = Inr r) \<longleftrightarrow>
    \<not> (inv_command (be_word (take 2 (drop 2 b))) \<and>
       (20 - ptr \<le> length b \<and> length b < 16 \<or> 16 < length b \<and> 0 \<notin> set (drop 16 b)))"
proof (cases "length b < 4")
  case True
  with assms(1) show ?thesis by (auto simp: net_applemidi_unpack_def)
next
  case False
  note A = alloc_all [OF assms(2)]
  let ?c = "be_word (take 2 (drop 2 b)) :: 16 word"
  show ?thesis
  proof (cases "inv_command ?c")
    case True
    consider "length b < 20 - ptr" | "20 - ptr \<le> length b" "length b < 16" | "length b = 16" | "16 < length b"
      using assms(1) by linarith
    then show ?thesis
    proof cases
      case 1
      with False True assms(1) show ?thesis unfolding A
        by (auto simp: net_applemidi_unpack_def Let_def eval_nat_numeral)
    next
      case 2
      then have "ptr = 8" using assms(1) by auto
      with 2 False True show ?thesis unfolding A
        by (auto simp: net_applemidi_unpack_def net_applemidi_inv_create_def unpack_inv_def Let_def
            simp del: add_2_eq_Suc add_2_eq_Suc')
    next
      case 3
      with False True assms(1) show ?thesis unfolding A
        by (auto simp: net_applemidi_unpack_def net_applemidi_inv_create_def unpack_inv_def Let_def
            simp del: add_2_eq_Suc add_2_eq_Suc')
    next
      case 4
      with False True assms(1) show ?thesis unfolding A
        by (cases "0 \<in> set (drop 16 b)")
          (auto simp: net_applemidi_unpack_def net_applemidi_inv_create_def unpack_inv_def Let_def c_strlen_fault
            simp del: add_2_eq_Suc add_2_eq_Suc')
    qed
  next
    case other: False
    have "\<exists>r. net_applemidi_unpack mem_ok ptr junk (Some b) (length b) = Inr r"
      using other False
      by (auto simp: net_applemidi_unpack_def Let_def unpack_feedback_def unpack_bitrate_def unpack_sync_def
          simp del: add_2_eq_Suc add_2_eq_Suc')
    with other show ?thesis unfolding A by simp
  qed
qed

theorem net_applemidi_unpack_safe_iff_witness:
  "\<not> (\<exists>r. net_applemidi_unpack mem_ok 8 NullData (Some [0xff, 0xff, 0x49, 0x4e, 0, 0, 0, 2, 0, 0, 0, 1])
     (length [0xff, 0xff, 0x49, 0x4e, 0, 0, 0, 2, 0, 0, 0, 1 :: byte]) = Inr r)"
  using net_applemidi_unpack_safe_iff [of 8 mem_ok NullData "[0xff, 0xff, 0x49, 0x4e, 0, 0, 0, 2, 0, 0, 0, 1]"]
  by (simp add: inv_command_def NET_APPLEMIDI_CMD_INV_def be_word_def)

text \<open>A packet of at least four octets with a code the unpacker does not know is taken for a
  command whose data pointer is left as \<^verbatim>\<open>malloc\<close> returned it; when that is not NULL, destroying
  the command, which every caller does, frees a pointer that was never allocated.\<close>
theorem net_applemidi_unknown_command:
  assumes "4 \<le> length b" "\<forall>s. A s" "be_word (take 2 (drop 2 b)) = code" "\<not> inv_command code"
    "code \<notin> {NET_APPLEMIDI_CMD_FEEDBACK, NET_APPLEMIDI_CMD_BITRATE, NET_APPLEMIDI_CMD_SYNC}"
  shows "\<exists>c. net_applemidi_unpack A ptr WildData (Some b) (length b) = Inr (NET_APPLEMIDI_DONE, Some c) \<and>
    ac_command c = code \<and> net_applemidi_cmd_destroy (Some c) = Inl BadFree"
  using assms unfolding alloc_all [OF assms(2)]
  by (auto simp: net_applemidi_unpack_def Let_def net_applemidi_cmd_destroy_def simp del: add_2_eq_Suc add_2_eq_Suc')

theorem net_applemidi_unknown_command_witness:
  "\<exists>c. net_applemidi_unpack mem_ok 8 WildData (Some [0xff, 0xff, 0, 1]) (length [0xff, 0xff, 0, 1 :: byte]) = Inr (NET_APPLEMIDI_DONE, Some c) \<and>
    ac_command c = 1 \<and> net_applemidi_cmd_destroy (Some c) = Inl BadFree"
  by (rule net_applemidi_unknown_command) (simp_all add: inv_command_def applemidi_codes be_word_def)

end
