(* ===== verification/Kv_Table.thy ===== *)
theory Kv_Table
  imports Prelude
begin

text \<open>
  The key/value table of the configuration (\<^verbatim>\<open>kv_table.c\<close>): a growing array of items whose keys are
  compared without regard to case. A C string is the list of its characters up to the
  terminator. The table promises what a partial map from folded keys promises.
\<close>

section \<open>Characters\<close>

text \<open>\<^verbatim>\<open>strcasecmp\<close> in the C locale.\<close>

definition lower :: "char \<Rightarrow> char" where
  "lower c = (let n = (of_char c :: nat) in if 65 \<le> n \<and> n \<le> 90 then char_of (n + 32) else c)"

definition fold_case :: "string \<Rightarrow> string" where
  "fold_case s = map lower s"

definition strcasecmp_equal :: "string \<Rightarrow> string \<Rightarrow> bool" where
  "strcasecmp_equal s t \<longleftrightarrow> fold_case s = fold_case t"

section \<open>State and operations\<close>

record kv_item =
  ki_key :: "string option"
  ki_value :: "string option"

text \<open>No item pointer in use is ever NULL, so the array holds the items themselves.\<close>

record kv_table =
  kt_name :: "string option"
  kt_count :: nat
  kt_items :: "kv_item list option"
  kt_held :: bool

definition kv_table_lock :: "kv_table option \<Rightarrow> kv_table option result" where
  "kv_table_lock table =
     (case table of None \<Rightarrow> Inr None
      | Some t \<Rightarrow> bindr (mutex_lock (kt_held t)) (\<lambda>h. Inr (Some (t\<lparr>kt_held := h\<rparr>))))"

definition kv_table_unlock :: "kv_table option \<Rightarrow> kv_table option result" where
  "kv_table_unlock table =
     (case table of None \<Rightarrow> Inr None
      | Some t \<Rightarrow> bindr (mutex_unlock (kt_held t)) (\<lambda>h. Inr (Some (t\<lparr>kt_held := h\<rparr>))))"

text \<open>Without a name the field stays as \<^verbatim>\<open>malloc\<close> returned it (\<open>junk\<close>).\<close>

definition kv_table_create :: "alloc \<Rightarrow> string option \<Rightarrow> string option \<Rightarrow> kv_table option" where
  "kv_table_create A junk name =
     (if \<not> A (Site ''kv_table_create:new_table'') then None
      else Some \<lparr>kt_name = (case name of None \<Rightarrow> junk
                             | Some n \<Rightarrow> if A (Site ''kv_table_create:name'') then Some n else None),
                kt_count = 0, kt_items = None, kt_held = False\<rparr>)"

definition kv_table_destroy :: "kv_table option option \<Rightarrow> kv_table option option result" where
  "kv_table_destroy table =
     (case table of None \<Rightarrow> Inr None
      | Some None \<Rightarrow> Inr (Some None)
      | Some (Some t) \<Rightarrow>
          bindr (kv_table_lock (Some t)) (\<lambda>t. bindr (kv_table_unlock t) (\<lambda>_. Inr (Some None))))"

text \<open>The index of the item found. The count is that of the array as far as it is used.\<close>

fun kv_find_from :: "kv_item list \<Rightarrow> nat \<Rightarrow> nat \<Rightarrow> string \<Rightarrow> nat option result" where
  "kv_find_from items i 0 key = Inr None"
| "kv_find_from items i (Suc left) key =
     bindr (mem_get items i) (\<lambda>item.
     bindr (deref (ki_key item)) (\<lambda>k.
     if strcasecmp_equal key k then Inr (Some i) else kv_find_from items (Suc i) left key))"

definition kv_find_item :: "kv_table option \<Rightarrow> string option \<Rightarrow> nat option result" where
  "kv_find_item table key =
     (case table of None \<Rightarrow> Inr None
      | Some t \<Rightarrow>
     (case key of None \<Rightarrow> Inr None
      | Some k \<Rightarrow>
     (case kt_items t of None \<Rightarrow> Inr None
      | Some items \<Rightarrow> if kt_count t = 0 then Inr None else kv_find_from items 0 (kt_count t) k)))"

definition kv_get_value :: "kv_table option \<Rightarrow> string option \<Rightarrow> string option result" where
  "kv_get_value table key =
     bindr (kv_find_item table key) (\<lambda>item.
     case item of None \<Rightarrow> Inr None
     | Some i \<Rightarrow>
         bindr (deref table) (\<lambda>t. bindr (deref (kt_items t)) (\<lambda>items.
         bindr (mem_get items i) (\<lambda>item. Inr (ki_value item)))))"

definition strdup_option :: "bool \<Rightarrow> string option \<Rightarrow> string option" where
  "strdup_option ok s = (case s of None \<Rightarrow> None | Some x \<Rightarrow> if ok then Some x else None)"

definition kv_add_item ::
    "alloc \<Rightarrow> kv_table option \<Rightarrow> string option \<Rightarrow> string option \<Rightarrow> kv_table option result" where
  "kv_add_item A table key value =
     (case table of None \<Rightarrow> Inr None
      | Some t \<Rightarrow>
     (case key of None \<Rightarrow> Inr (Some t)
      | Some k \<Rightarrow>
          if k = [] then Inr (Some t)
          else bindr (kv_find_item (Some t) (Some k)) (\<lambda>item.
          case item of
            None \<Rightarrow>
              if \<not> A (Site ''kv_add_item:new_item'') then Inr (Some t)
              else
                let new_item = \<lparr>ki_key = strdup_option (A (Site ''kv_add_item:key'')) (Some k),
                                ki_value = strdup_option (A (Site ''kv_add_item:value'')) value\<rparr> in
                if \<not> A (Site ''kv_add_item:new_item_list'') then Inr (Some t)
                else
                  let list = (case kt_items t of None \<Rightarrow> [] | Some items \<Rightarrow> take (kt_count t) items) in
                  Inr (Some (t\<lparr>kt_items := Some (list @ [new_item]), kt_count := kt_count t + 1\<rparr>))
          | Some i \<Rightarrow>
              bindr (deref (kt_items t)) (\<lambda>items.
              bindr (mem_get items i) (\<lambda>item.
              Inr (Some (t\<lparr>kt_items := Some (items[i := item\<lparr>ki_value :=
                      strdup_option (A (Site ''kv_add_item:new_value'')) value\<rparr>])\<rparr>)))))))"

definition kv_item_count :: "kv_table option \<Rightarrow> (nat \<times> kv_table option) result" where
  "kv_item_count table =
     (case table of None \<Rightarrow> Inr (0, None)
      | Some t \<Rightarrow> bindr (kv_table_lock (Some t)) (\<lambda>p. bindr (kv_table_unlock p) (\<lambda>p. Inr (kt_count t, p))))"

text \<open>The results: \<^verbatim>\<open>*key\<close> and \<^verbatim>\<open>*value\<close>. The index may be the count.\<close>

definition kv_get_item_by_index ::
    "kv_table option \<Rightarrow> nat \<Rightarrow> (string option \<times> string option \<times> kv_table option) result" where
  "kv_get_item_by_index table index =
     (case table of None \<Rightarrow> Inr (None, None, None)
      | Some _ \<Rightarrow>
          bindr (kv_table_lock table) (\<lambda>p.
          bindr (deref p) (\<lambda>t.
          bindr (if index > kt_count t then Inr (None, None)
                 else bindr (deref (kt_items t)) (\<lambda>items.
                      bindr (mem_get items index) (\<lambda>item. Inr (ki_key item, ki_value item)))) (\<lambda>(k, v).
          bindr (kv_table_unlock p) (\<lambda>p. Inr (k, v, p))))))"

section \<open>The map behind the table\<close>

definition kv_wf :: "kv_table \<Rightarrow> bool" where
  "kv_wf t \<longleftrightarrow> \<not> kt_held t \<and>
     (case kt_items t of None \<Rightarrow> kt_count t = 0
      | Some items \<Rightarrow> length items = kt_count t \<and> (\<forall>item\<in>set items. ki_key item \<noteq> None) \<and>
          distinct (map (\<lambda>item. fold_case (the (ki_key item))) items))"

definition kv_list :: "kv_table \<Rightarrow> kv_item list" where
  "kv_list t = (case kt_items t of None \<Rightarrow> [] | Some items \<Rightarrow> items)"

definition kv_map :: "kv_table \<Rightarrow> string \<Rightarrow> string option" where
  "kv_map t k = (case map_of (map (\<lambda>item. (fold_case (the (ki_key item)), ki_value item)) (kv_list t)) (fold_case k) of
     None \<Rightarrow> None | Some v \<Rightarrow> v)"

definition matches :: "string \<Rightarrow> kv_item \<Rightarrow> bool" where
  "matches key item \<longleftrightarrow> fold_case key = fold_case (the (ki_key item))"

lemma kv_find_from_cases:
  assumes "i + n = length items" "\<forall>item\<in>set items. ki_key item \<noteq> None"
  shows "(kv_find_from items i n key = Inr None \<and> (\<forall>j<length items. i \<le> j \<longrightarrow> \<not> matches key (items ! j))) \<or>
    (\<exists>j<length items. kv_find_from items i n key = Inr (Some j) \<and> matches key (items ! j))"
  using assms
proof (induction items i n key rule: kv_find_from.induct)
  case (1 items i key)
  then show ?case by simp
next
  case (2 items i left key)
  then have i: "i < length items" by simp
  then obtain k where k: "ki_key (items ! i) = Some k" using 2 by fastforce
  show ?case
  proof (cases "strcasecmp_equal key k")
    case True
    with i k show ?thesis by (auto simp: matches_def strcasecmp_equal_def)
  next
    case False
    then have "\<not> matches key (items ! i)" using k by (simp add: matches_def strcasecmp_equal_def)
    moreover have "(kv_find_from items (Suc i) left key = Inr None \<and>
        (\<forall>j<length items. Suc i \<le> j \<longrightarrow> \<not> matches key (items ! j))) \<or>
      (\<exists>j<length items. kv_find_from items (Suc i) left key = Inr (Some j) \<and> matches key (items ! j))"
      using 2 i k False by simp
    ultimately show ?thesis using i k False by (auto simp: le_Suc_eq not_less_eq_eq)
  qed
qed

lemma map_of_update_nth:
  assumes "distinct (map fst l)" "j < length l" "fst (l ! j) = k"
  shows "map_of (l[j := (k, v)]) = (map_of l)(k \<mapsto> v)"
  using assms
proof (induction l arbitrary: j)
  case (Cons x l)
  then show ?case
    by (cases j) (auto simp: fun_eq_iff image_iff, metis nth_mem)
qed simp

text \<open>Finding, on a well-formed table.\<close>

lemma kv_find_item_cases:
  assumes "kv_wf t"
  obtains (absent) "kv_find_item (Some t) (Some key) = Inr None" "\<forall>item\<in>set (kv_list t). \<not> matches key item"
  | (found) items j where "kv_find_item (Some t) (Some key) = Inr (Some j)" "kt_items t = Some items"
      "j < length items" "matches key (items ! j)"
proof (cases "kt_items t")
  case None
  then show ?thesis by (intro absent) (simp_all add: kv_find_item_def kv_list_def)
next
  case (Some items)
  with assms have wf: "length items = kt_count t" "\<forall>item\<in>set items. ki_key item \<noteq> None" by (auto simp: kv_wf_def)
  show ?thesis
  proof (cases "kt_count t = 0")
    case True
    with Some wf show ?thesis by (intro absent) (simp_all add: kv_find_item_def kv_list_def)
  next
    case False
    with Some have eq: "kv_find_item (Some t) (Some key) = kv_find_from items 0 (kt_count t) key"
      by (simp add: kv_find_item_def)
    from kv_find_from_cases [of 0 "kt_count t" items key] wf
    consider "kv_find_from items 0 (kt_count t) key = Inr None" "\<forall>j<length items. \<not> matches key (items ! j)"
      | j where "j < length items" "kv_find_from items 0 (kt_count t) key = Inr (Some j)" "matches key (items ! j)"
      by auto
    then show ?thesis
    proof cases
      case 1
      with eq Some show ?thesis by (intro absent) (auto simp: kv_list_def in_set_conv_nth)
    next
      case (2 j)
      with eq Some show ?thesis by (intro found [of j items]) auto
    qed
  qed
qed

lemma kv_pairs_distinct:
  "kv_wf t \<Longrightarrow> distinct (map fst (map (\<lambda>item. (fold_case (the (ki_key item)), ki_value item)) (kv_list t)))"
  by (auto simp: kv_wf_def kv_list_def comp_def split: option.splits)

lemma kv_get_value_map:
  assumes "kv_wf t"
  shows "kv_get_value (Some t) (Some key) = Inr (kv_map t key)"
proof (cases rule: kv_find_item_cases [OF assms, of key, case_names absent found])
  case absent
  then have "map_of (map (\<lambda>item. (fold_case (the (ki_key item)), ki_value item)) (kv_list t)) (fold_case key) = None"
    by (auto simp: map_of_eq_None_iff matches_def)
  with absent show ?thesis by (simp add: kv_get_value_def kv_map_def)
next
  case (found items j)
  let ?l = "map (\<lambda>item. (fold_case (the (ki_key item)), ki_value item)) items"
  have "distinct (map fst ?l)" using kv_pairs_distinct [OF assms] found by (simp add: kv_list_def)
  moreover have "(fold_case key, ki_value (items ! j)) \<in> set ?l"
    using found by (auto simp: matches_def in_set_conv_nth intro!: exI [of _ j])
  ultimately have "map_of ?l (fold_case key) = Some (ki_value (items ! j))" by simp
  with found show ?thesis by (simp add: kv_get_value_def kv_map_def kv_list_def)
qed

lemma kv_add_item_map:
  assumes wf: "kv_wf t" and key: "key \<noteq> []"
  shows "\<exists>t'. kv_add_item mem_ok (Some t) (Some key) value = Inr (Some t') \<and> kv_wf t' \<and>
    (\<forall>k. kv_map t' k = (if fold_case k = fold_case key then value else kv_map t k))"
proof (cases rule: kv_find_item_cases [OF wf, of key, case_names absent found])
  case absent
  let ?new = "\<lparr>ki_key = Some key, ki_value = value\<rparr>"
  have len: "take (kt_count t) (kv_list t) = kv_list t"
    using wf by (auto simp: kv_wf_def kv_list_def split: option.splits)
  let ?t = "t\<lparr>kt_items := Some (kv_list t @ [?new]), kt_count := kt_count t + 1\<rparr>"
  have "kv_add_item mem_ok (Some t) (Some key) value = Inr (Some ?t)"
    using absent key len
    by (cases "kt_items t") (auto simp: kv_add_item_def strdup_option_def kv_list_def split: option.split)
  moreover have "kv_wf ?t"
    using wf absent by (auto simp: kv_wf_def kv_list_def matches_def split: option.splits)
  moreover have none: "map_of (map (\<lambda>item. (fold_case (the (ki_key item)), ki_value item)) (kv_list t)) (fold_case key) = None"
    using absent by (auto simp: map_of_eq_None_iff matches_def)
  moreover have list: "kv_list ?t = kv_list t @ [?new]" by (simp add: kv_list_def)
  have "kv_map ?t k = (if fold_case k = fold_case key then value else kv_map t k)" for k
    unfolding kv_map_def list using none by (auto split: option.splits)
  ultimately show ?thesis by blast
next
  case (found items j)
  let ?item = "(items ! j)\<lparr>ki_value := value\<rparr>"
  let ?t = "t\<lparr>kt_items := Some (items[j := ?item])\<rparr>"
  let ?f = "\<lambda>item. (fold_case (the (ki_key item)), ki_value item)"
  have add: "kv_add_item mem_ok (Some t) (Some key) value = Inr (Some ?t)"
    using found key by (simp add: kv_add_item_def strdup_option_def split: option.split)
  have keys: "map (\<lambda>item. fold_case (the (ki_key item))) (items[j := ?item]) = map (\<lambda>item. fold_case (the (ki_key item))) items"
    using found by (auto intro!: nth_equalityI simp: nth_list_update)
  have wf': "kv_wf ?t"
  proof -
    from wf found have "\<forall>item\<in>set items. ki_key item \<noteq> None" by (simp add: kv_wf_def)
    with found(3) have "\<forall>item\<in>set (items[j := ?item]). ki_key item \<noteq> None"
      using set_update_subset_insert [of items j ?item] nth_mem [of j items] by auto
    with wf found keys show ?thesis by (simp add: kv_wf_def)
  qed
  have d: "distinct (map fst (map ?f items))" using kv_pairs_distinct [OF wf] found by (simp add: kv_list_def)
  have "map_of ((map ?f items)[j := (fold_case key, value)]) = (map_of (map ?f items))(fold_case key \<mapsto> value)"
    using d found by (intro map_of_update_nth) (simp_all add: matches_def)
  moreover have "map ?f (items[j := ?item]) = (map ?f items)[j := (fold_case key, value)]"
    using found by (simp add: map_update matches_def)
  ultimately have "kv_map ?t k = (if fold_case k = fold_case key then value else kv_map t k)" for k
    using found by (simp add: kv_map_def kv_list_def)
  with add wf' show ?thesis by blast
qed

section \<open>The contract\<close>

text \<open>Reading gives the view; storing under a non-empty key changes the view at the keys that equal
  it but for case, and nowhere else.\<close>

fun add_all :: "(string \<Rightarrow> string option \<Rightarrow> 't \<Rightarrow> 't result) \<Rightarrow> (string \<times> string option) list \<Rightarrow> 't \<Rightarrow> 't result" where
  "add_all put [] t = Inr t"
| "add_all put ((k, v) # kvs) t = bindr (put k v t) (add_all put kvs)"

fun last_value :: "(string \<times> string option) list \<Rightarrow> string \<Rightarrow> string option \<Rightarrow> string option" where
  "last_value [] k d = d"
| "last_value ((k', v) # kvs) k d = last_value kvs k (if fold_case k = fold_case k' then v else d)"

locale string_store =
  fixes wf :: "'t \<Rightarrow> bool" and view :: "'t \<Rightarrow> string \<Rightarrow> string option"
    and get :: "'t \<Rightarrow> string \<Rightarrow> string option result"
    and put :: "string \<Rightarrow> string option \<Rightarrow> 't \<Rightarrow> 't result"
  assumes get_view: "wf t \<Longrightarrow> get t k = Inr (view t k)"
    and put_view: "wf t \<Longrightarrow> k \<noteq> [] \<Longrightarrow> \<exists>t'. put k v t = Inr t' \<and> wf t' \<and>
      (\<forall>k'. view t' k' = (if fold_case k' = fold_case k then v else view t k'))"
begin

lemma add_all_get:
  "wf t \<Longrightarrow> \<forall>(k, v)\<in>set kvs. k \<noteq> [] \<Longrightarrow>
   \<exists>t'. add_all put kvs t = Inr t' \<and> wf t' \<and> (\<forall>k. get t' k = Inr (last_value kvs k (view t k)))"
proof (induction kvs arbitrary: t)
  case Nil
  then show ?case by (simp add: get_view)
next
  case (Cons kv kvs)
  obtain k v where kv: "kv = (k, v)" by fastforce
  with Cons.prems put_view [of t k v] obtain t1 where
    t1: "put k v t = Inr t1" "wf t1" "\<forall>k'. view t1 k' = (if fold_case k' = fold_case k then v else view t k')" by auto
  from Cons.IH [OF t1(2)] Cons.prems show ?case using kv t1 by auto
qed

lemma add_twice: "wf t \<Longrightarrow> k \<noteq> [] \<Longrightarrow>
   \<exists>t' t''. add_all put [(k, v), (k, w)] t = Inr t' \<and> add_all put [(k, w)] t = Inr t'' \<and> (\<forall>k. get t' k = get t'' k)"
  using add_all_get [of t "[(k, v), (k, w)]"] add_all_get [of t "[(k, w)]"] by auto

end

definition kv_put :: "string \<Rightarrow> string option \<Rightarrow> kv_table \<Rightarrow> kv_table result" where
  "kv_put k v t = bindr (kv_add_item mem_ok (Some t) (Some k) v) deref"

interpretation kv: string_store kv_wf kv_map "\<lambda>t k. kv_get_value (Some t) (Some k)" kv_put
proof unfold_locales
  fix t k assume "kv_wf t"
  then show "kv_get_value (Some t) (Some k) = Inr (kv_map t k)" by (rule kv_get_value_map)
next
  fix t v and k :: string assume "kv_wf t" "k \<noteq> []"
  then obtain t' where "kv_add_item mem_ok (Some t) (Some k) v = Inr (Some t')" "kv_wf t'"
    "\<forall>k'. kv_map t' k' = (if fold_case k' = fold_case k then v else kv_map t k')"
    using kv_add_item_map by blast
  then show "\<exists>t'. kv_put k v t = Inr t' \<and> kv_wf t' \<and>
      (\<forall>k'. kv_map t' k' = (if fold_case k' = fold_case k then v else kv_map t k'))"
    by (intro exI [of _ t']) (simp add: kv_put_def)
qed

section \<open>Properties\<close>

text \<open>C32: Whatever items are added to a new table, in whatever order and case, the table has no fault
  and each key's value is that of the last item added under it, case ignored, or NULL.\<close>

theorem kv_table_refines_map:
  assumes "\<forall>(k, v)\<in>set kvs. k \<noteq> []" "kv_table_create mem_ok junk name = Some t"
  shows "\<exists>t'. add_all kv_put kvs t = Inr t' \<and>
    (\<forall>k. kv_get_value (Some t') (Some k) = Inr (last_value kvs k None))"
proof -
  have "kv_wf t" "kv_map t k = None" for k
    using assms(2) by (auto simp: kv_table_create_def kv_wf_def kv_map_def kv_list_def)
  with kv.add_all_get [of t kvs] assms(1) show ?thesis by auto
qed

lemma lower_A: "char_of (97 :: nat) = CHR ''a''"
  by (simp add: char_of_eq_iff)

theorem kv_table_refines_map_witness:
  "\<exists>t'. add_all kv_put [(''A'', Some ''x''), (''a'', Some ''y''), (''b'', None)]
      \<lparr>kt_name = None, kt_count = 0, kt_items = None, kt_held = False\<rparr> = Inr t' \<and>
    kv_get_value (Some t') (Some ''A'') = Inr (Some ''y'')"
  using kv_table_refines_map [of "[(''A'', Some ''x''), (''a'', Some ''y''), (''b'', None)]" None None]
  by (auto simp: kv_table_create_def fold_case_def lower_def lower_A)

text \<open>Reading an item by its index gives it when the index is below the count and nothing when it is
  above. The index equal to the count, which the test lets through, is read past the array, or
  through the NULL of a table without items.\<close>
theorem kv_get_item_by_index_bound:
  assumes "kv_wf t"
  shows "kv_get_item_by_index (Some t) i =
    (if i < kt_count t then Inr (ki_key (kv_list t ! i), ki_value (kv_list t ! i), Some t)
     else if i > kt_count t then Inr (None, None, Some t)
     else Inl (if kt_items t = None then NullDeref else OutOfBounds))"
  using assms
  by (cases t; cases "kt_items t")
    (auto simp: kv_get_item_by_index_def kv_table_lock_def kv_table_unlock_def kv_wf_def kv_list_def)

theorem kv_get_item_by_index_bound_witness:
  "kv_get_item_by_index (Some \<lparr>kt_name = None, kt_count = 0, kt_items = None, kt_held = False\<rparr>) 0 = Inl NullDeref"
  by (subst kv_get_item_by_index_bound) (simp_all add: kv_wf_def)

end
