(* ===== verification/Config.thy ===== *)
theory Config
  imports Kv_Table
begin

text \<open>
  The configuration (\<^verbatim>\<open>raveloxmidi_config.c\<close>, \<^verbatim>\<open>is_yes\<close> and \<^verbatim>\<open>is_no\<close> of \<^verbatim>\<open>utils.c\<close>): defaults, the
  reading of a configuration file line by line in a buffer that is edited in place, typed access,
  and the iterator over numbered keys. The global table is the argument \<open>items\<close>. Opening and
  reading the file are the system's: a file is its contents.
\<close>

section \<open>Yes and no\<close>

definition is_yes :: "string option \<Rightarrow> bool" where
  "is_yes value =
     (case value of None \<Rightarrow> False
      | Some v \<Rightarrow> strcasecmp_equal v ''yes'' \<or> strcasecmp_equal v ''y'' \<or> strcasecmp_equal v ''1'')"

definition is_no :: "string option \<Rightarrow> bool" where
  "is_no value =
     (case value of None \<Rightarrow> False
      | Some v \<Rightarrow> strcasecmp_equal v ''no'' \<or> strcasecmp_equal v ''n'' \<or> strcasecmp_equal v ''0'')"

section \<open>Access\<close>

definition config_add_item :: "alloc \<Rightarrow> kv_table option \<Rightarrow> string option \<Rightarrow> string option \<Rightarrow> kv_table option result" where
  "config_add_item A items key value = kv_add_item A items key value"

definition config_string_get :: "kv_table option \<Rightarrow> string option \<Rightarrow> string option result" where
  "config_string_get items key = kv_get_value items key"

text \<open>\<^verbatim>\<open>isspace\<close> in the C locale, and \<^verbatim>\<open>atoi\<close> where the number fits.\<close>

definition isspace :: "char \<Rightarrow> bool" where
  "isspace c \<longleftrightarrow> c = CHR '' '' \<or> (9 \<le> (of_char c :: nat) \<and> (of_char c :: nat) \<le> 13)"

fun atoi_digits :: "int \<Rightarrow> string \<Rightarrow> int" where
  "atoi_digits n [] = n"
| "atoi_digits n (c # cs) =
     (if 48 \<le> (of_char c :: int) \<and> (of_char c :: int) \<le> 57 then atoi_digits (10 * n + (of_char c - 48)) cs else n)"

definition atoi :: "string \<Rightarrow> int" where
  "atoi s =
     (case dropWhile isspace s of [] \<Rightarrow> 0
      | c # cs \<Rightarrow> if c = CHR ''-'' then - atoi_digits 0 cs else if c = CHR ''+'' then atoi_digits 0 cs
                 else atoi_digits 0 (c # cs))"

definition config_int_get :: "kv_table option \<Rightarrow> string option \<Rightarrow> int result" where
  "config_int_get items key =
     bindr (config_string_get items key) (\<lambda>item_string.
     Inr (case item_string of None \<Rightarrow> 0 | Some s \<Rightarrow> if s = [] then 0 else atoi s))"

definition config_long_get :: "kv_table option \<Rightarrow> string option \<Rightarrow> int result" where
  "config_long_get items key =
     bindr (config_string_get items key) (\<lambda>item_string.
     Inr (case item_string of None \<Rightarrow> 0 | Some s \<Rightarrow> if s = [] then 0 else atoi s))"

definition config_is_set :: "kv_table option \<Rightarrow> string option \<Rightarrow> bool result" where
  "config_is_set items key =
     bindr (kv_find_item items key) (\<lambda>item.
     case item of None \<Rightarrow> Inr False
     | Some i \<Rightarrow>
         bindr (deref items) (\<lambda>t. bindr (deref (kt_items t)) (\<lambda>l. bindr (mem_get l i) (\<lambda>item.
         Inr (case ki_value item of None \<Rightarrow> False | Some v \<Rightarrow> v \<noteq> []))))) "

text \<open>The defaults, in the order they are set; the last three where ALSA is compiled in.\<close>

definition config_default_items :: "bool \<Rightarrow> (string \<times> string option) list" where
  "config_default_items have_alsa =
    [(''network.control.port'', Some ''5004''), (''network.data.port'', Some ''5005''),
     (''network.local.port'', Some ''5006''), (''network.socket_timeout'', Some ''30''),
     (''service.name'', Some ''raveloxmidi''), (''service.ipv4'', Some ''yes''),
     (''service.ipv6'', Some ''no''), (''run_as_daemon'', Some ''no''),
     (''daemon.pid_file'', Some ''raveloxmidi.pid''), (''logging.enabled'', Some ''yes''),
     (''logging.log_file'', None), (''logging.log_level'', Some ''normal''),
     (''logging.hex_dump'', Some ''no''), (''security.check'', Some ''yes''),
     (''readonly'', Some ''no''), (''inbound_midi'', Some ''/dev/sequencer''),
     (''file_mode'', Some ''0640''), (''discover.timeout'', Some ''5''),
     (''sync.interval'', Some ''10''), (''network.read.blocksize'', Some ''2048''),
     (''journal.write'', Some ''no'')] @
    (if have_alsa then
       [(''alsa.input_buffer_size'', Some ''4096''), (''alsa.writeback'', Some ''no''),
        (''alsa.writeback.level'', Some ''card'')] else [])"

definition config_set_defaults :: "bool \<Rightarrow> kv_table \<Rightarrow> kv_table result" where
  "config_set_defaults have_alsa = add_all kv_put (config_default_items have_alsa)"

definition config_teardown :: "kv_table option \<Rightarrow> kv_table option result" where
  "config_teardown items =
     (case items of None \<Rightarrow> Inr None
      | Some t \<Rightarrow> bindr (kv_table_destroy (Some (Some t))) (\<lambda>p. Inr (case p of None \<Rightarrow> None | Some t \<Rightarrow> t)))"

section \<open>The file\<close>

definition MAX_CONFIG_LINE :: nat where "MAX_CONFIG_LINE = 1024"

text \<open>The successive results of \<^verbatim>\<open>fgets\<close> with a buffer of \<open>n\<close> characters.\<close>

function fgets_lines :: "nat \<Rightarrow> string \<Rightarrow> string list" where
  "fgets_lines n s =
     (if s = [] \<or> n < 2 then []
      else let k = length (takeWhile (\<lambda>c. c \<noteq> CHR 0x0A) s) + 1; l = take (min k (n - 1)) s in
           l # fgets_lines n (drop (min k (n - 1)) s))"
  by pat_completeness auto
termination by (relation "measure (\<lambda>(n, s). length s)") (auto simp: Let_def)

declare fgets_lines.simps [simp del]

text \<open>The loop that removes trailing white space, with the number of characters up to the pointer; it
  looks at the character in front of the buffer when nothing else is left.\<close>

fun trim_end :: "string \<Rightarrow> nat \<Rightarrow> string result" where
  "trim_end buf 0 = Inl OutOfBounds"
| "trim_end buf (Suc p2) =
     bindr (mem_get buf p2) (\<lambda>c.
     if c \<noteq> CHR 0x00 \<and> isspace c then trim_end (buf[p2 := CHR 0x00]) p2 else Inr buf)"

text \<open>The other loops, \<^verbatim>\<open>while( *p && P( *p ) ) p++\<close>.\<close>

function skip :: "(char \<Rightarrow> bool) \<Rightarrow> string \<Rightarrow> nat \<Rightarrow> nat result" where
  "skip P buf p =
     (if p < length buf
      then if buf ! p \<noteq> CHR 0x00 \<and> P (buf ! p) then skip P buf (Suc p) else Inr p
      else Inl OutOfBounds)"
  by pat_completeness auto
termination by (relation "measure (\<lambda>(P, buf, p). length buf - p)") auto

declare skip.simps [simp del]

definition cstr :: "string \<Rightarrow> string" where
  "cstr buf = takeWhile (\<lambda>c. c \<noteq> CHR 0x00) buf"

text \<open>One line, as \<^verbatim>\<open>fgets\<close> put it into the buffer: the key and the value to add, or None for a
  comment.\<close>

definition config_parse_line :: "string \<Rightarrow> (string \<times> string) option result" where
  "config_parse_line line =
     (let buf = line @ [CHR 0x00] in
      bindr (trim_end buf (length (cstr buf))) (\<lambda>buf.
      bindr (skip isspace buf 0) (\<lambda>p1.
      bindr (mem_get buf p1) (\<lambda>c.
      if c = CHR ''#'' then Inr None
      else
        bindr (skip (\<lambda>c. \<not> isspace c \<and> c \<noteq> CHR ''='') buf p1) (\<lambda>p2.
        bindr (mem_get buf p2) (\<lambda>c.
        let (buf, p2) = (if c \<noteq> CHR 0x00 then (buf[p2 := CHR 0x00], p2 + 1) else (buf, p2)) in
        bindr (skip (\<lambda>c. isspace c \<or> c = CHR ''='') buf p2) (\<lambda>p2.
        Inr (Some (cstr (drop p1 buf), cstr (drop p2 buf))))))))))"

fun config_load_lines :: "kv_table option \<Rightarrow> string list \<Rightarrow> kv_table option result" where
  "config_load_lines items [] = Inr items"
| "config_load_lines items (l # ls) =
     bindr (config_parse_line l) (\<lambda>kv.
     case kv of None \<Rightarrow> config_load_lines items ls
     | Some (k, v) \<Rightarrow> bindr (config_add_item mem_ok items (Some k) (Some v)) (\<lambda>items. config_load_lines items ls))"

text \<open>\<open>contents\<close> is None when the file cannot be opened.\<close>

definition config_load_file :: "kv_table option \<Rightarrow> string option \<Rightarrow> string option \<Rightarrow> kv_table option result" where
  "config_load_file items filename contents =
     (case filename of None \<Rightarrow> Inr items
      | Some _ \<Rightarrow> (case contents of None \<Rightarrow> Inr items
                  | Some s \<Rightarrow> config_load_lines items (fgets_lines MAX_CONFIG_LINE s)))"

section \<open>The iterator\<close>

record config_iter =
  it_prefix :: "string option"
  it_index :: nat

definition MAX_ITER_INDEX :: nat where "MAX_ITER_INDEX = 10000"

definition config_iter_create :: "alloc \<Rightarrow> string option \<Rightarrow> config_iter option" where
  "config_iter_create A prefix =
     (case prefix of None \<Rightarrow> None
      | Some p \<Rightarrow> if \<not> A (Site ''config_iter_create:new_iter'') then None
                 else Some \<lparr>it_prefix = strdup_option (A (Site ''config_iter_create:prefix'')) (Some p), it_index = 0\<rparr>)"

definition config_iter_destroy :: "config_iter option option \<Rightarrow> config_iter option option" where
  "config_iter_destroy iter =
     (case iter of None \<Rightarrow> None | Some None \<Rightarrow> Some None | Some (Some _) \<Rightarrow> Some None)"

definition config_iter_reset :: "config_iter option \<Rightarrow> config_iter option" where
  "config_iter_reset iter = map_option (\<lambda>i. i\<lparr>it_index := 0\<rparr>) iter"

definition config_iter_next :: "config_iter option \<Rightarrow> config_iter option" where
  "config_iter_next iter =
     map_option (\<lambda>i. if it_index i < MAX_ITER_INDEX then i\<lparr>it_index := it_index i + 1\<rparr> else i) iter"

text \<open>The decimal digits \<^verbatim>\<open>sprintf\<close> writes for \<^verbatim>\<open>%d\<close>.\<close>

fun decimal :: "nat \<Rightarrow> string" where
  "decimal n = (if n < 10 then [char_of (48 + n)] else decimal (n div 10) @ [char_of (48 + n mod 10)])"

declare decimal.simps [simp del]

definition config_make_key :: "alloc \<Rightarrow> string option \<Rightarrow> nat \<Rightarrow> string option result" where
  "config_make_key A prefix index =
     (case prefix of None \<Rightarrow> Inr None
      | Some p \<Rightarrow>
          let key_len = length p + 7; key = p @ ''.'' @ decimal index in
          if \<not> A (Site ''config_make_key:key'') then Inr None
          else if key_len < length key + 1 then Inl OutOfBounds else Inr (Some key))"

text \<open>The four getters of the iterator share their shape: \<open>none\<close> is the answer without a key.\<close>

definition config_iter_get :: "alloc \<Rightarrow> 'a \<Rightarrow> (string option \<Rightarrow> 'a result) \<Rightarrow> config_iter option \<Rightarrow> 'a result" where
  "config_iter_get A none get iter =
     (case iter of None \<Rightarrow> Inr none
      | Some i \<Rightarrow>
     (case it_prefix i of None \<Rightarrow> Inr none
      | Some p \<Rightarrow>
          bindr (config_make_key A (Some p) (it_index i)) (\<lambda>key.
          case key of None \<Rightarrow> Inr none | Some k \<Rightarrow> get (Some k))))"

definition config_iter_string_get :: "alloc \<Rightarrow> kv_table option \<Rightarrow> config_iter option \<Rightarrow> string option result" where
  "config_iter_string_get A items = config_iter_get A None (config_string_get items)"

definition config_iter_int_get :: "alloc \<Rightarrow> kv_table option \<Rightarrow> config_iter option \<Rightarrow> int result" where
  "config_iter_int_get A items = config_iter_get A 0 (config_int_get items)"

definition config_iter_long_get :: "alloc \<Rightarrow> kv_table option \<Rightarrow> config_iter option \<Rightarrow> int result" where
  "config_iter_long_get A items = config_iter_get A 0 (config_long_get items)"

definition config_iter_is_set :: "alloc \<Rightarrow> kv_table option \<Rightarrow> config_iter option \<Rightarrow> bool result" where
  "config_iter_is_set A items = config_iter_get A False (config_is_set items)"

section \<open>Answers\<close>

definition config_ok :: "kv_table option \<Rightarrow> bool" where
  "config_ok items \<longleftrightarrow> (case items of None \<Rightarrow> True | Some t \<Rightarrow> kv_wf t)"

definition config_value :: "kv_table option \<Rightarrow> string \<Rightarrow> string option" where
  "config_value items key = (case items of None \<Rightarrow> None | Some t \<Rightarrow> kv_map t key)"

lemma config_string_value: "config_ok items \<Longrightarrow> config_string_get items (Some k) = Inr (config_value items k)"
  by (cases items)
    (simp_all add: config_ok_def config_string_get_def kv_get_value_map config_value_def,
     simp add: kv_get_value_def kv_find_item_def)

lemma config_string_get_ok: "config_ok items \<Longrightarrow> \<exists>v. config_string_get items (Some k) = Inr v"
  by (simp add: config_string_value)

lemma config_int_get_ok: "config_ok items \<Longrightarrow> \<exists>v. config_int_get items (Some k) = Inr v"
  using config_string_get_ok [of items k] by (auto simp: config_int_get_def)

section \<open>Lines\<close>

definition strip_end :: "string \<Rightarrow> string" where
  "strip_end s = rev (dropWhile isspace (rev s))"

lemma strip_end_snoc: "strip_end (s @ [c]) = (if isspace c then strip_end s else s @ [c])"
  by (simp add: strip_end_def)

lemma strip_end_nil: "strip_end s = [] \<longleftrightarrow> (\<forall>c\<in>set s. isspace c)"
  by (simp add: strip_end_def dropWhile_eq_Nil_conv)

lemma NUL_not_space [simp]: "\<not> isspace (CHR 0x00)"
  by (simp add: isspace_def)

lemma trim_end_eq:
  assumes "CHR 0x00 \<notin> set s"
  shows "trim_end (s @ t) (length s) =
    (if strip_end s = [] then Inl OutOfBounds
     else Inr (strip_end s @ replicate (length s - length (strip_end s)) (CHR 0x00) @ t))"
  using assms
proof (induction s arbitrary: t rule: rev_induct)
  case Nil
  then show ?case by (simp add: strip_end_def)
next
  case (snoc c s)
  show ?case
  proof (cases "isspace c")
    case True
    have "length (strip_end s) \<le> length s"
      by (simp add: strip_end_def) (metis length_dropWhile_le length_rev)
    moreover have "trim_end (s @ CHR 0x00 # t) (length s) =
       (if strip_end s = [] then Inl OutOfBounds
        else Inr (strip_end s @ replicate (length s - length (strip_end s)) (CHR 0x00) @ CHR 0x00 # t))"
      using snoc by simp
    ultimately show ?thesis
      using True snoc.prems by (auto simp: strip_end_snoc Suc_diff_le replicate_app_Cons_same)
  next
    case False
    then show ?thesis by (simp add: strip_end_snoc)
  qed
qed

text \<open>A scan stops at the first character that is the terminator or not of its kind.\<close>

lemma skip_eq:
  assumes "\<forall>c\<in>set xs. c \<noteq> CHR 0x00 \<and> P c" "y = CHR 0x00 \<or> \<not> P y" "n = length pre"
  shows "skip P (pre @ xs @ y # zs) n = Inr (n + length xs)"
  using assms
proof (induction xs arbitrary: pre n)
  case Nil
  then show ?case by (subst skip.simps) auto
next
  case (Cons x xs)
  then have "skip P ((pre @ [x]) @ xs @ y # zs) (Suc n) = Inr (Suc n + length xs)"
    by (intro Cons.IH) auto
  with Cons.prems show ?case by (subst skip.simps) (simp add: nth_append)
qed

lemma cstr_append: "CHR 0x00 \<notin> set s \<Longrightarrow> cstr (s @ CHR 0x00 # t) = s"
  unfolding cstr_def by (induction s) auto

lemma cstr_nul [simp]: "cstr (CHR 0x00 # t) = []"
  by (simp add: cstr_def)

lemma cstr_no_nul: "CHR 0x00 \<notin> set (cstr s)"
  by (auto simp: cstr_def dest: set_takeWhileD)

lemma cstr_split: "\<exists>t. line @ [CHR 0x00] = cstr (line @ [CHR 0x00]) @ CHR 0x00 # t"
proof (induction line)
  case (Cons c line)
  then show ?case by (cases "c = CHR 0x00") (auto simp: cstr_def)
qed (simp add: cstr_def)

text \<open>A line whose characters up to the terminator are not all white space has the parts of its text,
  stripped at the end, in order: white space, key, separators, value.\<close>

lemma config_parse_line_fault:
  assumes "\<forall>c\<in>set (cstr (line @ [CHR 0x00])). isspace c"
  shows "config_parse_line line = Inl OutOfBounds"
proof -
  let ?s = "cstr (line @ [CHR 0x00])"
  from cstr_split [of line] obtain t where t: "line @ [CHR 0x00] = ?s @ CHR 0x00 # t" by blast
  have "trim_end (?s @ CHR 0x00 # t) (length ?s) = Inl OutOfBounds"
    using trim_end_eq [OF cstr_no_nul, of "line @ [CHR 0x00]" "CHR 0x00 # t"] assms
    by (simp add: strip_end_nil)
  then show ?thesis by (simp add: config_parse_line_def t [symmetric])
qed

definition key_char :: "char \<Rightarrow> bool" where "key_char c \<longleftrightarrow> \<not> isspace c \<and> c \<noteq> CHR ''=''"
definition sep_char :: "char \<Rightarrow> bool" where "sep_char c \<longleftrightarrow> isspace c \<or> c = CHR ''=''"

lemma not_key_char: "\<not> key_char c \<longleftrightarrow> sep_char c"
  by (auto simp: key_char_def sep_char_def)

definition line_parts :: "string \<Rightarrow> (string \<times> string) option" where
  "line_parts u =
     (let x = dropWhile isspace u in
      if hd x = CHR ''#'' then None else Some (takeWhile key_char x, dropWhile sep_char (dropWhile key_char x)))"

lemma scan_at:
  assumes "CHR 0x00 \<notin> set xs"
  shows "skip P (pre @ xs @ CHR 0x00 # r) (length pre) = Inr (length pre + length (takeWhile P xs))"
proof (cases "dropWhile P xs")
  case Nil
  then have "takeWhile P xs = xs" "\<forall>c\<in>set xs. P c" by (auto simp: dropWhile_eq_Nil_conv takeWhile_eq_all_conv)
  with assms have "skip P (pre @ xs @ CHR 0x00 # r) (length pre) = Inr (length pre + length xs)"
    by (intro skip_eq) auto
  moreover from \<open>takeWhile P xs = xs\<close> have "length xs = length (takeWhile P xs)" by (rule arg_cong [OF sym])
  ultimately show ?thesis by (simp only:)
next
  case (Cons y ys)
  then have xs: "xs = takeWhile P xs @ y # ys" and "\<not> P y"
    by (metis takeWhile_dropWhile_id, metis dropWhile_eq_Cons_conv)
  have "\<forall>c\<in>set (takeWhile P xs). c \<noteq> CHR 0x00 \<and> P c" using assms by (auto dest: set_takeWhileD)
  with \<open>\<not> P y\<close> have "skip P (pre @ takeWhile P xs @ y # (ys @ CHR 0x00 # r)) (length pre) = Inr (length pre + length (takeWhile P xs))"
    by (intro skip_eq) auto
  moreover have "takeWhile P xs @ y # (ys @ CHR 0x00 # r) = xs @ CHR 0x00 # r" by (subst (2) xs) simp
  ultimately show ?thesis by simp
qed

lemma config_parse_line_parts:
  assumes "strip_end (cstr (line @ [CHR 0x00])) = u" "u \<noteq> []"
  shows "config_parse_line line = Inr (line_parts u)"
proof -
  let ?s = "cstr (line @ [CHR 0x00])"
  from cstr_split [of line] obtain t where t: "line @ [CHR 0x00] = ?s @ CHR 0x00 # t" by blast
  have nul: "CHR 0x00 \<notin> set u"
    using cstr_no_nul [of "line @ [CHR 0x00]"] assms(1) set_dropWhileD [of "CHR 0x00" isspace "rev ?s"]
    by (auto simp: strip_end_def)
  obtain r where r: "replicate (length ?s - length u) (CHR 0x00) @ CHR 0x00 # t = CHR 0x00 # r"
    by (cases "length ?s - length u") auto
  have trim: "trim_end (line @ [CHR 0x00]) (length ?s) = Inr (u @ CHR 0x00 # r)"
    using trim_end_eq [OF cstr_no_nul, of "line @ [CHR 0x00]" "CHR 0x00 # t"] assms by (subst t) (simp add: r)
  define w where "w = takeWhile isspace u"
  define x where "x = dropWhile isspace u"
  have u: "u = w @ x" by (simp add: w_def x_def)
  have "\<not> isspace (last u)"
    using assms by (auto simp: strip_end_def last_rev hd_dropWhile)
  with assms(2) have x: "x \<noteq> []" by (auto simp: x_def dropWhile_eq_Nil_conv)
  have xn: "CHR 0x00 \<notin> set x" using nul by (simp add: u)
  have p1: "skip isspace (u @ CHR 0x00 # r) 0 = Inr (length w)"
    using scan_at [OF nul, of isspace "[]"] by (simp add: w_def)
  have buf: "u @ CHR 0x00 # r = w @ x @ CHR 0x00 # r" by (simp add: u)
  let ?k = "takeWhile key_char x" and ?y = "dropWhile key_char x"
  have p2: "skip (\<lambda>c. \<not> isspace c \<and> c \<noteq> CHR ''='') (w @ x @ CHR 0x00 # r) (length w) = Inr (length w + length ?k)"
    using scan_at [OF xn, of key_char w] by (simp add: key_char_def [abs_def])
  have xk: "x = ?k @ ?y" by simp
  show ?thesis
  proof (cases ?y)
    case Nil
    then have k: "?k = x" by (metis xk append_Nil2)
    have "skip (\<lambda>c. isspace c \<or> c = CHR ''='') (w @ x @ CHR 0x00 # r) (length w + length x) = Inr (length w + length x)"
      using skip_eq [of "[]" "\<lambda>c. isspace c \<or> c = CHR ''=''" "CHR 0x00" "length w + length x" "w @ x" r] by simp
    then have "config_parse_line line = Inr (if hd x = CHR ''#'' then None else Some (x, []))"
      using trim p1 p2 [unfolded k] x xn
      by (simp add: config_parse_line_def buf nth_append hd_conv_nth Let_def cstr_append)
    then show ?thesis unfolding line_parts_def Let_def x_def [symmetric] k Nil by simp
  next
    case (Cons d y)
    then have d: "sep_char d" "d \<noteq> CHR 0x00"
      using not_key_char xn by (metis dropWhile_eq_Cons_conv, metis xk in_set_conv_decomp)
    have x': "x = ?k @ d # y" using xk Cons by simp
    have yn: "CHR 0x00 \<notin> set y" and kn: "CHR 0x00 \<notin> set ?k"
      using xn by (metis x' in_set_conv_decomp set_ConsD Un_iff list.set_intros(2) set_append)+
    let ?buf = "w @ ?k @ CHR 0x00 # y @ CHR 0x00 # r"
    have upd: "(w @ x @ CHR 0x00 # r)[length w + length ?k := CHR 0x00] = ?buf"
      by (subst x') (simp add: list_update_append)
    have nth: "(w @ x @ CHR 0x00 # r) ! (length w + length ?k) = d"
      by (subst x') (simp add: nth_append)
    have lt: "length w + length ?k < length (w @ x @ CHR 0x00 # r)" by (subst x') simp
    have p3: "skip (\<lambda>c. isspace c \<or> c = CHR ''='') ?buf (length w + length ?k + 1) =
        Inr (length w + length ?k + 1 + length (takeWhile sep_char y))"
      using scan_at [OF yn, of sep_char "w @ ?k @ [CHR 0x00]" r] by (simp add: sep_char_def [abs_def])
    have key: "cstr (drop (length w) ?buf) = ?k" by (simp add: cstr_append kn)
    have "drop (length (takeWhile sep_char y)) (y @ CHR 0x00 # r) = dropWhile sep_char y @ CHR 0x00 # r"
      using length_takeWhile_le [of sep_char y] by (simp add: dropWhile_eq_drop)
    moreover have "CHR 0x00 \<notin> set (dropWhile sep_char y)" using yn by (auto dest: set_dropWhileD)
    ultimately have val: "cstr (drop (length w + length ?k + 1 + length (takeWhile sep_char y)) ?buf) = dropWhile sep_char y"
      by (simp add: cstr_append)
    have hd: "(w @ x @ CHR 0x00 # r) ! length w = hd x" "length w < length (w @ x @ CHR 0x00 # r)"
      using x by (simp_all add: nth_append hd_conv_nth)
    have "config_parse_line line = Inr (if hd x = CHR ''#'' then None else Some (?k, dropWhile sep_char y))"
      unfolding config_parse_line_def Let_def trim buf bindr.simps
      using p1 [unfolded buf] hd p2 lt nth d(2) upd p3 key val by simp
    then show ?thesis using Cons d(1) by (simp add: line_parts_def Let_def x_def [symmetric])
  qed
qed

section \<open>Properties\<close>

text \<open>A line of a configuration file is read without a fault exactly when it has a character that
  is not white space before its end: then the text in front of the trailing white space is cut
  at the first white space or equals sign, or ignored when it begins with a hash sign. On a
  blank line the loop over trailing white space runs out of the buffer at its front.\<close>

theorem config_parse_line_spec:
  "config_parse_line line =
     (let u = strip_end (cstr (line @ [CHR 0x00])) in
      if u = [] then Inl OutOfBounds else Inr (line_parts u))"
  using config_parse_line_parts [of line] config_parse_line_fault [of line]
  by (simp add: Let_def strip_end_nil)

lemma decimal_length: "length (decimal n) \<le> d" if "n < 10 ^ d" "0 < d" for n d
  using that
proof (induction n arbitrary: d rule: decimal.induct)
  case (1 n)
  show ?case
  proof (cases "n < 10")
    case False
    with "1.prems" have "1 < d" by (cases d) (auto simp: less_Suc_eq)
    with "1.prems" have "n div 10 < 10 ^ (d - 1)" by (simp add: less_mult_imp_div_less power_eq_if mult.commute)
    with "1.IH" [of "d - 1"] False \<open>1 < d\<close> show ?thesis by (subst decimal.simps) simp
  qed (use 1 in \<open>simp add: decimal.simps\<close>)
qed

text \<open>However often an iterator is advanced, the key it makes fits the buffer allocated for it, and
  what it reads is the item with the iterator's prefix and the number of advances.\<close>
theorem config_iter_reads:
  assumes "\<forall>s. A s" "kv_wf t" "n \<le> MAX_ITER_INDEX" "config_iter_create A (Some p) = Some i"
  shows "\<exists>j. (config_iter_next ^^ n) (Some i) = Some j \<and>
    config_iter_string_get A (Some t) (Some j) = Inr (kv_map t (p @ ''.'' @ decimal n))"
proof -
  have i: "i = \<lparr>it_prefix = Some p, it_index = 0\<rparr>"
    using assms(4) unfolding alloc_all [OF assms(1)] by (simp add: config_iter_create_def strdup_option_def)
  have step: "m \<le> MAX_ITER_INDEX \<Longrightarrow> (config_iter_next ^^ m) (Some i) = Some \<lparr>it_prefix = Some p, it_index = m\<rparr>" for m
    by (induction m) (simp_all add: i config_iter_next_def)
  have "length (decimal n) \<le> 5" by (rule decimal_length) (use assms(3) in \<open>simp_all add: MAX_ITER_INDEX_def\<close>)
  then have "config_make_key A (Some p) n = Inr (Some (p @ ''.'' @ decimal n))"
    unfolding alloc_all [OF assms(1)] by (simp add: config_make_key_def Let_def)
  with step [OF assms(3)] kv_get_value_map [OF assms(2)] show ?thesis
    by (simp add: config_iter_string_get_def config_iter_get_def config_string_get_def)
qed

theorem config_iter_reads_witness:
  "\<exists>j. (config_iter_next ^^ 2) (Some \<lparr>it_prefix = Some ''r'', it_index = 0\<rparr>) = Some j \<and>
    config_iter_string_get mem_ok (Some \<lparr>kt_name = None, kt_count = 1,
       kt_items = Some [\<lparr>ki_key = Some ''r.2'', ki_value = Some ''x''\<rparr>], kt_held = False\<rparr>) (Some j) = Inr (Some ''x'')"
proof -
  have "decimal 2 = ''2''" by (simp add: decimal.simps char_of_eq_iff)
  then show ?thesis
    using config_iter_reads [of mem_ok "\<lparr>kt_name = None, kt_count = 1,
       kt_items = Some [\<lparr>ki_key = Some ''r.2'', ki_value = Some ''x''\<rparr>], kt_held = False\<rparr>" 2 "''r''"
       "\<lparr>it_prefix = Some ''r'', it_index = 0\<rparr>"]
    by (simp add: kv_wf_def MAX_ITER_INDEX_def config_iter_create_def strdup_option_def kv_map_def kv_list_def
        fold_case_def lower_def char_of_eq_iff)
qed

end
