(* ===== verification/Data_Context.thy ===== *)
theory Data_Context
  imports Prelude
begin

text \<open>
  Reference-counted contexts (\<^verbatim>\<open>data_context.c\<close>), which tell the sender queue where a command came
  from. Contexts live in a store of addresses, so that an access to a context that was destroyed
  is a fault; the protocol between the socket thread, which holds a reference of its own while it
  queues commands, and the queue thread, which releases one for each command, is a step relation.
\<close>

section \<open>State and operations\<close>

record 'd data_context =
  dx_data :: "'d option"
  dx_reference :: "32 word"
  dx_held :: bool
  dx_destroy_func :: bool

type_synonym 'd store = "nat \<Rightarrow> 'd data_context option"

definition context_at :: "'d store \<Rightarrow> nat \<Rightarrow> 'd data_context result" where
  "context_at S a = (case S a of None \<Rightarrow> Inl UseAfterFree | Some c \<Rightarrow> Inr c)"

definition data_context_lock :: "nat option \<Rightarrow> 'd store \<Rightarrow> 'd store result" where
  "data_context_lock context S =
     (case context of None \<Rightarrow> Inr S
      | Some a \<Rightarrow> bindr (context_at S a) (\<lambda>c. bindr (mutex_lock (dx_held c)) (\<lambda>h.
                  Inr (S(a \<mapsto> c\<lparr>dx_held := h\<rparr>)))))"

definition data_context_unlock :: "nat option \<Rightarrow> 'd store \<Rightarrow> 'd store result" where
  "data_context_unlock context S =
     (case context of None \<Rightarrow> Inr S
      | Some a \<Rightarrow> bindr (context_at S a) (\<lambda>c. bindr (mutex_unlock (dx_held c)) (\<lambda>h.
                  Inr (S(a \<mapsto> c\<lparr>dx_held := h\<rparr>)))))"

text \<open>\<open>a\<close> is the address \<^verbatim>\<open>malloc\<close> returns.\<close>

definition data_context_create :: "alloc \<Rightarrow> nat \<Rightarrow> bool \<Rightarrow> 'd store \<Rightarrow> nat option \<times> 'd store" where
  "data_context_create A a destroy_func S =
     (if \<not> A (Site ''data_context_create:new_context'') then (None, S)
      else (Some a, S(a \<mapsto> \<lparr>dx_data = None, dx_reference = 0, dx_held = False, dx_destroy_func = destroy_func\<rparr>)))"

text \<open>The results: \<^verbatim>\<open>*context\<close> and the store, from which the context is gone.\<close>

definition data_context_destroy :: "nat option \<Rightarrow> 'd store \<Rightarrow> (nat option \<times> 'd store) result" where
  "data_context_destroy context S =
     (case context of None \<Rightarrow> Inr (None, S)
      | Some a \<Rightarrow>
          bindr (data_context_lock (Some a) S) (\<lambda>S.
          bindr (context_at S a) (\<lambda>c.
          let c = (if dx_destroy_func c then c\<lparr>dx_data := None\<rparr> else c);
              S = S(a \<mapsto> c\<lparr>dx_reference := 0\<rparr>) in
          bindr (data_context_unlock (Some a) S) (\<lambda>S. Inr (None, S(a := None))))))"

definition data_context_acquire :: "nat option \<Rightarrow> 'd store \<Rightarrow> 'd store result" where
  "data_context_acquire context S =
     (case context of None \<Rightarrow> Inr S
      | Some a \<Rightarrow>
          bindr (data_context_lock (Some a) S) (\<lambda>S.
          bindr (context_at S a) (\<lambda>c.
          data_context_unlock (Some a) (S(a \<mapsto> c\<lparr>dx_reference := dx_reference c + 1\<rparr>)))))"

definition data_context_release :: "nat option \<Rightarrow> 'd store \<Rightarrow> (nat option \<times> 'd store) result" where
  "data_context_release context S =
     (case context of None \<Rightarrow> Inr (None, S)
      | Some a \<Rightarrow>
          bindr (data_context_lock (Some a) S) (\<lambda>S.
          bindr (context_at S a) (\<lambda>c.
          let c = c\<lparr>dx_reference := dx_reference c - 1\<rparr> in
          bindr (data_context_unlock (Some a) (S(a \<mapsto> c))) (\<lambda>S.
          if dx_reference c = 0 then data_context_destroy (Some a) S else Inr (Some a, S)))))"

section \<open>One context\<close>

definition live :: "'d store \<Rightarrow> nat \<Rightarrow> nat \<Rightarrow> bool" where
  "live S a n \<longleftrightarrow> (case S a of None \<Rightarrow> False | Some c \<Rightarrow> \<not> dx_held c \<and> unat (dx_reference c) = n)"

lemma live_Some: "live S a n \<Longrightarrow> \<exists>c. S a = Some c \<and> \<not> dx_held c \<and> unat (dx_reference c) = n"
  by (simp add: live_def split: option.splits)

lemma live_created:
  "data_context_create mem_ok a d S = (Some a, S') \<Longrightarrow> live S' a 0"
  by (auto simp: data_context_create_def live_def)

lemma acquire_live:
  assumes "live S a n" "Suc n < 2 ^ 32"
  shows "\<exists>S'. data_context_acquire (Some a) S = Inr S' \<and> live S' a (Suc n) \<and> (\<forall>b. b \<noteq> a \<longrightarrow> S' b = S b)"
proof -
  from assms(1) obtain c where c: "S a = Some c" "\<not> dx_held c" "unat (dx_reference c) = n" by (blast dest: live_Some)
  have "unat (dx_reference c + 1) = Suc n"
    using unat_plus_one_less [of "dx_reference c" "Suc n"] c(3) assms(2) by simp
  with c show ?thesis
    by (simp add: data_context_acquire_def data_context_lock_def data_context_unlock_def context_at_def live_def)
qed

lemma release_live:
  assumes "live S a (Suc n)"
  shows "\<exists>S' p. data_context_release (Some a) S = Inr (p, S') \<and> (\<forall>b. b \<noteq> a \<longrightarrow> S' b = S b) \<and>
    (if n = 0 then p = None \<and> S' a = None else p = Some a \<and> live S' a n)"
proof -
  from assms obtain c where c: "S a = Some c" "\<not> dx_held c" "unat (dx_reference c) = Suc n" by (blast dest: live_Some)
  then have "dx_reference c \<noteq> 0" by auto
  with c(3) have r: "unat (dx_reference c - 1) = n" by (simp add: unat_minus_one)
  then have "dx_reference c - 1 = 0 \<longleftrightarrow> n = 0" by (metis unat_eq_zero)
  with c r show ?thesis
    by (auto simp: data_context_release_def data_context_destroy_def data_context_lock_def data_context_unlock_def
        context_at_def live_def Let_def)
qed

section \<open>The protocol\<close>

text \<open>The socket thread creates a context, takes a reference, and queues commands, each with a
  reference of its own, until it releases its reference; the queue thread releases the
  reference of each command it takes. \<open>Broken\<close> is a fault of any of the operations.\<close>

datatype 'd ctx_state =
    Sharing "'d store" nat bool   \<comment> \<open>store, references that are queued, whether the socket holds one\<close>
  | Broken fault

inductive ctx_step :: "nat \<Rightarrow> 'd ctx_state \<Rightarrow> 'd ctx_state \<Rightarrow> bool" for a where
  queue: "data_context_acquire (Some a) S = Inr S' \<Longrightarrow> Suc (Suc n) < 2 ^ 32 \<Longrightarrow>
     ctx_step a (Sharing S n True) (Sharing S' (Suc n) True)"
| queue_fault: "data_context_acquire (Some a) S = Inl e \<Longrightarrow> ctx_step a (Sharing S n True) (Broken e)"
| handle: "data_context_release (Some a) S = Inr (p, S') \<Longrightarrow>
     ctx_step a (Sharing S (Suc n) h) (Sharing S' n h)"
| handle_fault: "data_context_release (Some a) S = Inl e \<Longrightarrow> ctx_step a (Sharing S (Suc n) h) (Broken e)"
| finish: "data_context_release (Some a) S = Inr (p, S') \<Longrightarrow>
     ctx_step a (Sharing S n True) (Sharing S' n False)"
| finish_fault: "data_context_release (Some a) S = Inl e \<Longrightarrow> ctx_step a (Sharing S n True) (Broken e)"

definition holders :: "nat \<Rightarrow> bool \<Rightarrow> nat" where
  "holders n h = n + (if h then 1 else 0)"

definition ctx_inv :: "nat \<Rightarrow> 'd ctx_state \<Rightarrow> bool" where
  "ctx_inv a s \<longleftrightarrow> (case s of Broken _ \<Rightarrow> False
     | Sharing S n h \<Rightarrow> holders n h < 2 ^ 32 \<and>
         (if holders n h = 0 then S a = None else live S a (holders n h)))"

lemma ctx_inv_step:
  assumes "ctx_step a s s'" "ctx_inv a s"
  shows "ctx_inv a s'"
  using assms
proof cases
  case (queue S S' n)
  with assms(2) have "live S a (Suc n)" "Suc (Suc n) < 2 ^ 32" by (auto simp: ctx_inv_def holders_def)
  from acquire_live [OF this] queue show ?thesis by (auto simp: ctx_inv_def holders_def)
next
  case (queue_fault S e n)
  with assms(2) have "live S a (Suc n)" by (auto simp: ctx_inv_def holders_def)
  then obtain c where "S a = Some c" "\<not> dx_held c" by (blast dest: live_Some)
  with queue_fault show ?thesis
    by (simp add: data_context_acquire_def data_context_lock_def data_context_unlock_def context_at_def)
next
  case (handle S p S' n h)
  with assms(2) have "live S a (Suc (holders n h))" by (auto simp: ctx_inv_def holders_def)
  from release_live [OF this] handle assms(2) show ?thesis by (auto simp: ctx_inv_def holders_def)
next
  case (handle_fault S e n h)
  with assms(2) have "live S a (Suc (holders n h))" by (auto simp: ctx_inv_def holders_def)
  from release_live [OF this] handle_fault show ?thesis by auto
next
  case (finish S p S' n)
  with assms(2) have "live S a (Suc n)" by (auto simp: ctx_inv_def holders_def)
  from release_live [OF this] finish assms(2) show ?thesis by (auto simp: ctx_inv_def holders_def)
next
  case (finish_fault S e n)
  with assms(2) have "live S a (Suc n)" by (auto simp: ctx_inv_def holders_def)
  from release_live [OF this] finish_fault show ?thesis by auto
qed

text \<open>C26: However the socket thread and the queue thread interleave, no context is used after it was
  destroyed, and none is destroyed while a command that refers to it is queued or the socket
  still holds it: it is there, with a count equal to its holders, until the last of them
  releases it, and gone from then on (as long as fewer than 2^32 references are held).\<close>

theorem data_context_protocol:
  assumes "data_context_create mem_ok a d S0 = (Some a, S1)" "data_context_acquire (Some a) S1 = Inr S2"
    and "(ctx_step a)\<^sup>*\<^sup>* (Sharing S2 0 True) s"
  shows "\<exists>S n h. s = Sharing S n h \<and> (if n = 0 \<and> \<not> h then S a = None else live S a (holders n h))"
proof -
  from acquire_live [OF live_created [OF assms(1)]] assms(2) have "live S2 a 1" by auto
  then have "ctx_inv a (Sharing S2 0 True)" by (simp add: ctx_inv_def holders_def)
  with assms(3) have "ctx_inv a s" by induction (auto intro: ctx_inv_step)
  then show ?thesis by (cases s) (auto simp: ctx_inv_def holders_def split: if_splits)
qed

text \<open>A command is queued, the socket gives up its reference, and the context lives on in the queue.\<close>

definition context_example :: "32 word \<Rightarrow> nat store" where
  "context_example n = Map.empty(7 \<mapsto> \<lparr>dx_data = None, dx_reference = n, dx_held = False, dx_destroy_func = True\<rparr>)"

lemma context_example_steps:
  "data_context_acquire (Some 7) (context_example 0) = Inr (context_example 1)"
  "data_context_acquire (Some 7) (context_example 1) = Inr (context_example 2)"
  "data_context_release (Some 7) (context_example 2) = Inr (Some 7, context_example 1)"
  by (simp_all add: context_example_def data_context_acquire_def data_context_release_def data_context_lock_def
      data_context_unlock_def context_at_def Let_def)

theorem data_context_protocol_witness:
  "(ctx_step 7)\<^sup>*\<^sup>* (Sharing (context_example 1) 0 True) (Sharing (context_example 1) 1 False) \<and>
    live (context_example 1) 7 1"
proof
  have "ctx_step 7 (Sharing (context_example 1) 0 True) (Sharing (context_example 2) (Suc 0) True)"
    by (rule ctx_step.queue) (simp_all add: context_example_steps)
  moreover have "ctx_step 7 (Sharing (context_example 2) 1 True) (Sharing (context_example 1) 1 False)"
    by (rule ctx_step.finish [OF context_example_steps(3)])
  ultimately show run: "(ctx_step 7)\<^sup>*\<^sup>* (Sharing (context_example 1) 0 True) (Sharing (context_example 1) 1 False)"
    by (metis One_nat_def r_into_rtranclp rtranclp.rtrancl_into_rtrancl)
  have "data_context_create mem_ok 7 True Map.empty = (Some 7, context_example 0)"
    by (simp add: data_context_create_def context_example_def)
  from data_context_protocol [OF this context_example_steps(1) run] show "live (context_example 1) 7 1"
    by (auto simp: holders_def)
qed

end
