(* ===== verification/Data_Queue.thy ===== *)
theory Data_Queue
  imports Prelude
begin

text \<open>
  The queue between the threads that produce MIDI commands and the thread that sends them
  (\<^verbatim>\<open>data_queue.c\<close>). Its items are a linked list in a store of addresses, with pointers to the
  first and the last. A critical section is one step; waiting on the condition variable ends with a
  signal, or spuriously. The steps of producers and of the queue thread form a step relation, on
  which order, loss and wake-ups are proved.
\<close>

section \<open>State and operations\<close>

record ('d, 'c) queue_item =
  qi_data :: "'d option"
  qi_context :: "'c option"
  qi_next :: "nat option"

type_synonym ('d, 'c) items = "nat \<Rightarrow> ('d, 'c) queue_item option"

record data_queue =
  dq_name :: "string option"
  dq_top :: "nat option"
  dq_bottom :: "nat option"
  dq_state :: nat
  dq_shutdown :: nat
  dq_held :: bool
  dq_action :: bool
  dq_counter :: nat

definition DATA_QUEUE_EMPTY :: nat where "DATA_QUEUE_EMPTY = 0"
definition DATA_QUEUE_USED :: nat where "DATA_QUEUE_USED = 1"
definition DATA_QUEUE_CONTINUE :: nat where "DATA_QUEUE_CONTINUE = 0"
definition DATA_QUEUE_SHUTDOWN :: nat where "DATA_QUEUE_SHUTDOWN = 1"

lemmas queue_codes [simp] =
  DATA_QUEUE_EMPTY_def DATA_QUEUE_USED_def DATA_QUEUE_CONTINUE_def DATA_QUEUE_SHUTDOWN_def

definition data_queue_lock :: "data_queue option \<Rightarrow> data_queue option result" where
  "data_queue_lock queue =
     (case queue of None \<Rightarrow> Inr None
      | Some q \<Rightarrow> bindr (mutex_lock (dq_held q)) (\<lambda>h. Inr (Some (q\<lparr>dq_held := h\<rparr>))))"

definition data_queue_unlock :: "data_queue option \<Rightarrow> data_queue option result" where
  "data_queue_unlock queue =
     (case queue of None \<Rightarrow> Inr None
      | Some q \<Rightarrow> bindr (mutex_unlock (dq_held q)) (\<lambda>h. Inr (Some (q\<lparr>dq_held := h\<rparr>))))"

text \<open>\<open>a\<close> is the address \<^verbatim>\<open>malloc\<close> returns; the context stays as it was there (\<open>junk\<close>).\<close>

definition data_queue_item_create :: "alloc \<Rightarrow> nat \<Rightarrow> 'c option \<Rightarrow> ('d, 'c) items \<Rightarrow> nat option \<times> ('d, 'c) items" where
  "data_queue_item_create A a junk H =
     (if \<not> A (Site ''data_queue_item_create:new_item'') then (None, H)
      else (Some a, H(a \<mapsto> \<lparr>qi_data = None, qi_context = junk, qi_next = None\<rparr>)))"

definition data_queue_create :: "alloc \<Rightarrow> string option \<Rightarrow> bool \<Rightarrow> data_queue option result" where
  "data_queue_create A name action =
     (if \<not> A (Site ''data_queue_create:new_queue'') then Inr None
      else
        bindr (data_queue_lock (Some \<lparr>dq_name = None, dq_top = None, dq_bottom = None, dq_state = 0, dq_shutdown = 0,
                 dq_held = False, dq_action = False, dq_counter = 0\<rparr>)) (\<lambda>p.
        bindr (deref p) (\<lambda>q.
        data_queue_unlock (Some (q\<lparr>dq_state := DATA_QUEUE_EMPTY, dq_top := None, dq_bottom := None,
          dq_shutdown := DATA_QUEUE_CONTINUE, dq_counter := 0, dq_action := action,
          dq_name := (if A (Site ''data_queue_create:name'') then name else None)\<rparr>)))))"

definition data_queue_shutdown_status :: "data_queue option \<Rightarrow> (nat \<times> data_queue option) result" where
  "data_queue_shutdown_status queue =
     (case queue of None \<Rightarrow> Inr (0, None)
      | Some q \<Rightarrow> bindr (data_queue_lock (Some q)) (\<lambda>p. bindr (data_queue_unlock p) (\<lambda>p. Inr (dq_shutdown q, p))))"

definition item_at :: "('d, 'c) items \<Rightarrow> nat \<Rightarrow> ('d, 'c) queue_item result" where
  "item_at H a = (case H a of None \<Rightarrow> Inl UseAfterFree | Some i \<Rightarrow> Inr i)"

text \<open>Freeing the items from an address on; \<open>fuel\<close> bounds the number of items.\<close>

fun free_items :: "nat \<Rightarrow> nat option \<Rightarrow> ('d, 'c) items \<Rightarrow> ('d, 'c) items option result" where
  "free_items fuel None H = Inr (Some H)"
| "free_items 0 (Some a) H = Inr None"
| "free_items (Suc fuel) (Some a) H =
     bindr (item_at H a) (\<lambda>i. free_items fuel (qi_next i) (H(a := None)))"

definition data_queue_destroy ::
    "nat \<Rightarrow> data_queue option option \<Rightarrow> ('d, 'c) items \<Rightarrow> (data_queue option option \<times> ('d, 'c) items) option result" where
  "data_queue_destroy fuel queue H =
     (case queue of None \<Rightarrow> Inr (Some (None, H))
      | Some None \<Rightarrow> Inr (Some (Some None, H))
      | Some (Some q) \<Rightarrow>
          bindr (data_queue_lock (Some q)) (\<lambda>p.
          bindr (free_items fuel (dq_top q) H) (\<lambda>H.
          bindr (data_queue_unlock p) (\<lambda>_. Inr (map_option (\<lambda>H. (Some None, H)) H)))))"

text \<open>The results: the queue, the items, and whether the queue thread is signalled.\<close>

definition data_queue_add ::
    "alloc \<Rightarrow> nat \<Rightarrow> 'c option \<Rightarrow> data_queue option \<Rightarrow> 'd option \<Rightarrow> 'c option \<Rightarrow> ('d, 'c) items \<Rightarrow>
     (data_queue option \<times> ('d, 'c) items \<times> bool) result" where
  "data_queue_add A a junk queue data context H =
     (case queue of None \<Rightarrow> Inr (None, H, False)
      | Some q \<Rightarrow>
     (case data of None \<Rightarrow> Inr (Some q, H, False)
      | Some d \<Rightarrow>
     (case data_queue_item_create A a junk H of (None, H) \<Rightarrow> Inr (Some q, H, False)
      | (Some n, H) \<Rightarrow>
          bindr (item_at H n) (\<lambda>i.
          let H = H(n \<mapsto> i\<lparr>qi_data := Some d, qi_context := context\<rparr>) in
          bindr (data_queue_lock (Some q)) (\<lambda>p.
          bindr (deref p) (\<lambda>q.
          let q = (if dq_top q = None then q\<lparr>dq_top := Some n\<rparr> else q) in
          bindr (case dq_bottom q of None \<Rightarrow> Inr H
                 | Some b \<Rightarrow> bindr (item_at H b) (\<lambda>i. Inr (H(b \<mapsto> i\<lparr>qi_next := Some n\<rparr>)))) (\<lambda>H.
          let q = q\<lparr>dq_bottom := Some n\<rparr> in
          bindr (item_at H n) (\<lambda>i.
          let H = H(n \<mapsto> i\<lparr>qi_next := None\<rparr>);
              old_state = dq_state q in
          bindr (data_queue_unlock (Some (q\<lparr>dq_state := DATA_QUEUE_USED\<rparr>))) (\<lambda>p.
          Inr (p, H, old_state = DATA_QUEUE_EMPTY))))))))))"

definition data_queue_get :: "data_queue \<Rightarrow> ('d, 'c) items \<Rightarrow> (nat option \<times> data_queue) result" where
  "data_queue_get q H =
     (let item = dq_top q in
      bindr (case dq_top q of None \<Rightarrow> Inr q
             | Some a \<Rightarrow> bindr (item_at H a) (\<lambda>i. Inr (q\<lparr>dq_top := qi_next i\<rparr>))) (\<lambda>q.
      let q = (if dq_top q = None then q\<lparr>dq_bottom := None\<rparr> else q) in
      Inr (item, q\<lparr>dq_state := (if dq_top q = None then DATA_QUEUE_EMPTY else DATA_QUEUE_USED)\<rparr>)))"

definition data_queue_stop :: "data_queue option \<Rightarrow> (data_queue option \<times> bool) result" where
  "data_queue_stop queue =
     (case queue of None \<Rightarrow> Inr (None, False)
      | Some q \<Rightarrow> bindr (data_queue_lock (Some q)) (\<lambda>p.
          bindr (data_queue_unlock (map_option (\<lambda>q. q\<lparr>dq_shutdown := 1\<rparr>) p)) (\<lambda>p. Inr (p, True))))"

text \<open>One turn of the queue thread's loop up to the end of its critical section: it goes to wait, which
  gives up the mutex, or leaves the loop, or has an item to act on (None when there was none).\<close>

datatype turn = Wait | Leave | Act "nat option" bool

definition handler_turn :: "data_queue \<Rightarrow> ('d, 'c) items \<Rightarrow> (turn \<times> data_queue) result" where
  "handler_turn q H =
     bindr (data_queue_lock (Some q)) (\<lambda>p.
     bindr (deref p) (\<lambda>q.
     if dq_state q = DATA_QUEUE_EMPTY \<and> dq_shutdown q = DATA_QUEUE_CONTINUE
     then bindr (data_queue_unlock (Some q)) (\<lambda>p. bindr (deref p) (\<lambda>q. Inr (Wait, q)))
     else if dq_shutdown q \<noteq> DATA_QUEUE_CONTINUE
     then bindr (data_queue_unlock (Some q)) (\<lambda>p. bindr (deref p) (\<lambda>q. Inr (Leave, q)))
     else bindr (data_queue_get q H) (\<lambda>(item, q).
          bindr (case item of None \<Rightarrow> Inr () | Some a \<Rightarrow> bindr (item_at H a) (\<lambda>_. Inr ())) (\<lambda>_.
          bindr (data_queue_unlock (Some q)) (\<lambda>p. bindr (deref p) (\<lambda>q.
          Inr (Act item (dq_action q), q)))))))"

text \<open>Its end: the action gets the item's data and context, and the item is freed.\<close>

definition handler_act ::
    "nat option \<Rightarrow> bool \<Rightarrow> ('d, 'c) items \<Rightarrow> (('d option \<times> 'c option) list \<times> ('d, 'c) items) result" where
  "handler_act item action H =
     (case item of None \<Rightarrow> Inr ([], H)
      | Some a \<Rightarrow> bindr (item_at H a) (\<lambda>i.
          Inr (if action then [(qi_data i, qi_context i)] else [], H(a := None))))"

section \<open>The list behind the pointers\<close>

fun chain :: "('d, 'c) items \<Rightarrow> nat option \<Rightarrow> nat list \<Rightarrow> bool" where
  "chain H p [] \<longleftrightarrow> p = None"
| "chain H p (x # xs) \<longleftrightarrow> p = Some x \<and> (\<exists>i. H x = Some i \<and> chain H (qi_next i) xs)"

definition entry :: "('d, 'c) items \<Rightarrow> nat \<Rightarrow> 'd option \<times> 'c option" where
  "entry H a = (case H a of None \<Rightarrow> (None, None) | Some i \<Rightarrow> (qi_data i, qi_context i))"

definition queue_inv :: "data_queue \<Rightarrow> ('d, 'c) items \<Rightarrow> nat list \<Rightarrow> bool" where
  "queue_inv q H xs \<longleftrightarrow> \<not> dq_held q \<and> chain H (dq_top q) xs \<and> distinct xs \<and>
     dq_bottom q = (if xs = [] then None else Some (last xs)) \<and>
     dq_state q = (if xs = [] then DATA_QUEUE_EMPTY else DATA_QUEUE_USED)"

lemma chain_in: "chain H p xs \<Longrightarrow> x \<in> set xs \<Longrightarrow> \<exists>i. H x = Some i"
  by (induction xs arbitrary: p) auto

lemma chain_other: "a \<notin> set xs \<Longrightarrow> chain (H(a := v)) p xs = chain H p xs"
  by (induction xs arbitrary: p) auto

lemma entry_other: "a \<notin> set xs \<Longrightarrow> map (entry (H(a := v))) xs = map (entry H) xs"
  by (simp add: entry_def)

lemma chain_snoc:
  assumes "chain H p xs" "distinct xs" "xs \<noteq> []" "n \<notin> set xs" "H (last xs) = Some i" "H n = Some j" "qi_next j = None"
  shows "chain (H(last xs \<mapsto> i\<lparr>qi_next := Some n\<rparr>)) p (xs @ [n])"
  using assms
proof (induction xs arbitrary: p)
  case (Cons x xs)
  show ?case
  proof (cases "xs = []")
    case True
    with Cons.prems show ?thesis by auto
  next
    case False
    with Cons show ?thesis by auto
  qed
qed simp

lemma queue_add_inv:
  assumes inv: "queue_inv q H xs" and fresh: "H a = None"
  shows "\<exists>q' H'. data_queue_add mem_ok a junk (Some q) (Some d) c H = Inr (Some q', H', xs = []) \<and>
    queue_inv q' H' (xs @ [a]) \<and> map (entry H') (xs @ [a]) = map (entry H) xs @ [(Some d, c)] \<and>
    dq_shutdown q' = dq_shutdown q \<and> dq_action q' = dq_action q \<and> (\<forall>b. b \<notin> set xs \<and> b \<noteq> a \<longrightarrow> H' b = H b)"
proof (cases "xs = []")
  case True
  with inv show ?thesis
    by (simp add: queue_inv_def data_queue_add_def data_queue_item_create_def data_queue_lock_def
        data_queue_unlock_def item_at_def entry_def Let_def)
next
  case False
  let ?new = "\<lparr>qi_data = Some d, qi_context = c, qi_next = None\<rparr>"
  have a: "a \<notin> set xs" using inv fresh chain_in by (fastforce simp: queue_inv_def)
  with False have la: "last xs \<noteq> a" using last_in_set by metis
  obtain i where i: "H (last xs) = Some i"
    using inv False chain_in [of H "dq_top q" xs "last xs"] by (auto simp: queue_inv_def)
  obtain t where t: "dq_top q = Some t" using inv False by (cases xs) (auto simp: queue_inv_def)
  let ?H = "H(a \<mapsto> ?new, last xs \<mapsto> i\<lparr>qi_next := Some a\<rparr>)"
  have "chain (H(a \<mapsto> ?new)) (dq_top q) xs"
    using inv a by (simp add: queue_inv_def chain_other)
  then have "chain ?H (dq_top q) (xs @ [a])"
    using inv False a la i by (intro chain_snoc [of _ _ _ _ _ ?new]) (simp_all add: queue_inv_def)
  moreover have "map (entry ?H) xs = map (entry H) xs"
    using a i by (auto simp: entry_def)
  moreover have "entry ?H a = (Some d, c)" using la by (simp add: entry_def)
  moreover have "?H(a \<mapsto> ?new) = ?H" using la by (auto simp: fun_upd_twist)
  ultimately show ?thesis
    using inv False a la i t
    by (simp add: queue_inv_def data_queue_add_def data_queue_item_create_def data_queue_lock_def
        data_queue_unlock_def item_at_def Let_def)
qed

lemma handler_turn_inv:
  assumes "queue_inv q H xs"
  shows "if dq_shutdown q \<noteq> 0 then handler_turn q H = Inr (Leave, q)
    else if xs = [] then handler_turn q H = Inr (Wait, q)
    else \<exists>q'. handler_turn q H = Inr (Act (Some (hd xs)) (dq_action q), q') \<and> queue_inv q' H (tl xs) \<and>
      dq_shutdown q' = 0 \<and> dq_action q' = dq_action q"
proof (cases xs)
  case Nil
  with assms show ?thesis
    by (cases q) (auto simp: handler_turn_def data_queue_lock_def data_queue_unlock_def queue_inv_def)
next
  case (Cons x ys)
  with assms obtain i where "H x = Some i" "chain H (qi_next i) ys" by (auto simp: queue_inv_def)
  with Cons assms show ?thesis
    by (cases q; cases ys)
      (auto simp: handler_turn_def data_queue_lock_def data_queue_unlock_def queue_inv_def data_queue_get_def item_at_def Let_def)
qed

section \<open>The threads\<close>

text \<open>Where the queue thread is: before a turn, blocked on the condition variable, acting on an item, or
  done. The system also keeps, for the statements only, what was added and what was acted on.\<close>

datatype thread = Ready | Blocked | Acting "nat option" bool | Done

record ('d, 'c) system =
  sq_queue :: data_queue
  sq_items :: "('d, 'c) items"
  sq_thread :: thread
  sq_added :: "('d option \<times> 'c option) list"
  sq_acted :: "('d option \<times> 'c option) list"

definition wake :: "bool \<Rightarrow> thread \<Rightarrow> thread" where
  "wake signal t = (if signal \<and> t = Blocked then Ready else t)"

definition after_turn :: "turn \<Rightarrow> thread" where
  "after_turn t = (case t of Wait \<Rightarrow> Blocked | Leave \<Rightarrow> Done | Act i a \<Rightarrow> Acting i a)"

inductive handler_step :: "('d, 'c) system \<Rightarrow> ('d, 'c) system \<Rightarrow> bool" where
  turn: "sq_thread s = Ready \<Longrightarrow> handler_turn (sq_queue s) (sq_items s) = Inr (t, q) \<Longrightarrow>
     handler_step s (s\<lparr>sq_queue := q, sq_thread := after_turn t\<rparr>)"
| act: "sq_thread s = Acting i a \<Longrightarrow> handler_act i a (sq_items s) = Inr (l, H) \<Longrightarrow>
     handler_step s (s\<lparr>sq_items := H, sq_acted := sq_acted s @ l, sq_thread := Ready\<rparr>)"

inductive queue_step :: "('d, 'c) system \<Rightarrow> ('d, 'c) system \<Rightarrow> bool" where
  add: "sq_items s a = None \<Longrightarrow>
     data_queue_add mem_ok a junk (Some (sq_queue s)) (Some d) c (sq_items s) = Inr (Some q, H, signal) \<Longrightarrow>
     queue_step s (s\<lparr>sq_queue := q, sq_items := H, sq_added := sq_added s @ [(Some d, c)],
       sq_thread := wake signal (sq_thread s)\<rparr>)"
| stop: "data_queue_stop (Some (sq_queue s)) = Inr (Some q, signal) \<Longrightarrow>
     queue_step s (s\<lparr>sq_queue := q, sq_thread := wake signal (sq_thread s)\<rparr>)"
| spurious: "sq_thread s = Blocked \<Longrightarrow> queue_step s (s\<lparr>sq_thread := Ready\<rparr>)"
| handler: "handler_step s s' \<Longrightarrow> queue_step s s'"

inductive_cases ready_step: "handler_step s s'"

text \<open>What stands between being added and being acted on.\<close>

definition in_flight :: "('d, 'c) system \<Rightarrow> ('d option \<times> 'c option) list" where
  "in_flight s = (case sq_thread s of Acting (Some a) _ \<Rightarrow> [entry (sq_items s) a] | _ \<Rightarrow> [])"

definition system_inv :: "('d, 'c) system \<Rightarrow> nat list \<Rightarrow> bool" where
  "system_inv s xs \<longleftrightarrow> queue_inv (sq_queue s) (sq_items s) xs \<and> dq_action (sq_queue s) \<and>
     sq_added s = sq_acted s @ in_flight s @ map (entry (sq_items s)) xs \<and>
     (case sq_thread s of Ready \<Rightarrow> True
      | Blocked \<Rightarrow> xs = [] \<and> dq_shutdown (sq_queue s) = 0
      | Acting i a \<Rightarrow> a \<and> (\<exists>n. i = Some n \<and> n \<notin> set xs \<and> sq_items s n \<noteq> None)
      | Done \<Rightarrow> dq_shutdown (sq_queue s) \<noteq> 0)"

lemma add_keeps:
  assumes "system_inv s xs" "sq_items s a = None"
    "data_queue_add mem_ok a junk (Some (sq_queue s)) (Some d) c (sq_items s) = Inr (Some q, H, signal)"
  shows "system_inv (s\<lparr>sq_queue := q, sq_items := H, sq_added := sq_added s @ [(Some d, c)],
       sq_thread := wake signal (sq_thread s)\<rparr>) (xs @ [a])"
proof -
  from queue_add_inv [of "sq_queue s" "sq_items s" xs a junk d c] assms
  have q: "signal = (xs = [])" "queue_inv q H (xs @ [a])" "map (entry H) (xs @ [a]) = map (entry (sq_items s)) xs @ [(Some d, c)]"
    "dq_shutdown q = dq_shutdown (sq_queue s)" "dq_action q = dq_action (sq_queue s)"
    "\<forall>b. b \<notin> set xs \<and> b \<noteq> a \<longrightarrow> H b = sq_items s b" by (auto simp: system_inv_def)
  from assms(1) q show ?thesis
  proof (cases "sq_thread s")
    case (Acting i b)
    with assms(1) obtain n where n: "i = Some n" "n \<notin> set xs" "sq_items s n \<noteq> None" "b" by (auto simp: system_inv_def)
    with assms(2) have "n \<noteq> a" by auto
    with n q have "H n = sq_items s n" by blast
    with Acting n assms(1) q \<open>n \<noteq> a\<close> show ?thesis by (auto simp: system_inv_def wake_def in_flight_def entry_def)
  qed (auto simp: system_inv_def wake_def in_flight_def)
qed

lemma turn_keeps:
  assumes "system_inv s xs" "sq_thread s = Ready" "handler_turn (sq_queue s) (sq_items s) = Inr (t, q)"
  shows "\<exists>ys. system_inv (s\<lparr>sq_queue := q, sq_thread := after_turn t\<rparr>) ys"
proof -
  have inv: "queue_inv (sq_queue s) (sq_items s) xs" using assms(1) by (simp add: system_inv_def)
  consider "dq_shutdown (sq_queue s) \<noteq> 0" | "dq_shutdown (sq_queue s) = 0" "xs = []"
    | x ys where "dq_shutdown (sq_queue s) = 0" "xs = x # ys" by (cases xs) auto
  then show ?thesis
  proof cases
    case 3
    with handler_turn_inv [OF inv] assms(3) have q: "t = Act (Some x) (dq_action (sq_queue s))"
      "queue_inv q (sq_items s) ys" "dq_action q = dq_action (sq_queue s)" by auto
    from inv 3 have "x \<notin> set ys" "sq_items s x \<noteq> None" by (auto simp: queue_inv_def)
    with q assms(1,2) 3 show ?thesis
      by (intro exI [of _ ys]) (simp add: system_inv_def after_turn_def in_flight_def)
  qed (use handler_turn_inv [OF inv] assms in \<open>auto simp: system_inv_def after_turn_def in_flight_def\<close>)
qed

lemma act_keeps:
  assumes "system_inv s xs" "sq_thread s = Acting i a" "handler_act i a (sq_items s) = Inr (l, H)"
  shows "system_inv (s\<lparr>sq_items := H, sq_acted := sq_acted s @ l, sq_thread := Ready\<rparr>) xs"
proof -
  from assms(1,2) obtain n where n: "i = Some n" "n \<notin> set xs" "sq_items s n \<noteq> None" "a" by (auto simp: system_inv_def)
  with assms(3) have l: "l = [entry (sq_items s) n]" "H = (sq_items s)(n := None)"
    by (auto simp: handler_act_def item_at_def entry_def)
  with assms(1,2) n show ?thesis
    by (simp add: system_inv_def in_flight_def queue_inv_def chain_other entry_other)
qed

lemma stop_keeps:
  assumes "system_inv s xs" "data_queue_stop (Some (sq_queue s)) = Inr (Some q, signal)"
  shows "system_inv (s\<lparr>sq_queue := q, sq_thread := wake signal (sq_thread s)\<rparr>) xs"
proof -
  have "\<not> dq_held (sq_queue s)" using assms(1) by (simp add: system_inv_def queue_inv_def)
  with assms(2) have q: "q = (sq_queue s)\<lparr>dq_shutdown := 1\<rparr>" "signal"
    by (simp_all add: data_queue_stop_def data_queue_lock_def data_queue_unlock_def) (cases "sq_queue s", auto)
  have "queue_inv q (sq_items s) xs" using assms(1) by (simp add: q(1) system_inv_def queue_inv_def)
  with assms(1) q show ?thesis
    by (cases "sq_thread s") (auto simp: system_inv_def wake_def in_flight_def split: option.splits)
qed

lemma step_keeps:
  assumes "queue_step s s'" "\<exists>xs. system_inv s xs"
  shows "\<exists>xs. system_inv s' xs"
  using assms
proof cases
  case (add a junk d c q H signal)
  from assms(2) obtain xs where "system_inv s xs" by blast
  from add_keeps [OF this add(2,3)] show ?thesis unfolding add(1) by (rule exI)
next
  case (stop q signal)
  from assms(2) obtain xs where "system_inv s xs" by blast
  from stop_keeps [OF this stop(2)] show ?thesis unfolding stop(1) by (rule exI)
next
  case spurious
  with assms(2) show ?thesis by (auto simp: system_inv_def in_flight_def)
next
  case handler
  then show ?thesis
    by (cases rule: ready_step) (use assms(2) turn_keeps act_keeps in blast)+
qed

text \<open>The queue thread alone empties the queue.\<close>

lemma handler_drains:
  fixes s :: "('d, 'c) system"
  assumes "system_inv s xs" "dq_shutdown (sq_queue s) = 0"
  shows "\<exists>s'. handler_step\<^sup>*\<^sup>* s s' \<and> sq_thread s' = Blocked \<and> sq_acted s' = sq_added s \<and> sq_added s' = sq_added s"
  using assms
proof (induction xs arbitrary: s)
  case Nil
  have ready: "\<exists>s'. handler_step s s' \<and> sq_thread s' = Blocked \<and> sq_acted s' = sq_added s \<and> sq_added s' = sq_added s"
    if "system_inv s []" "dq_shutdown (sq_queue s) = 0" "sq_thread s = Ready" for s :: "('d, 'c) system"
  proof -
    from that handler_turn_inv [of "sq_queue s" "sq_items s" "[]"]
    have "handler_turn (sq_queue s) (sq_items s) = Inr (Wait, sq_queue s)" by (auto simp: system_inv_def)
    from handler_step.turn [OF that(3) this] that show ?thesis
      by (auto simp: after_turn_def system_inv_def in_flight_def)
  qed
  show ?case
  proof (cases "sq_thread s")
    case Ready
    with ready [of s] Nil show ?thesis by blast
  next
    case Blocked
    with Nil show ?thesis by (intro exI [of _ s]) (auto simp: system_inv_def in_flight_def)
  next
    case (Acting i a)
    with Nil(1) obtain n where n: "i = Some n" "sq_items s n \<noteq> None" "a" by (auto simp: system_inv_def)
    then obtain l H where lH: "handler_act i a (sq_items s) = Inr (l, H)" by (auto simp: handler_act_def item_at_def)
    let ?s = "s\<lparr>sq_items := H, sq_acted := sq_acted s @ l, sq_thread := Ready\<rparr>"
    have step: "handler_step s ?s" by (rule handler_step.act [OF Acting lH])
    have "system_inv ?s []" by (rule act_keeps [OF Nil(1) Acting lH])
    from ready [OF this] Nil(2) obtain s' where "handler_step ?s s'" "sq_thread s' = Blocked" "sq_acted s' = sq_added s"
      "sq_added s' = sq_added s" by auto
    with step show ?thesis by (meson converse_rtranclp_into_rtranclp rtranclp.rtrancl_refl)
  next
    case Done
    with Nil show ?thesis by (auto simp: system_inv_def)
  qed
next
  case (Cons x xs)
  have ready: "\<exists>s'. handler_step\<^sup>*\<^sup>* s s' \<and> sq_thread s' = Blocked \<and> sq_acted s' = sq_added s \<and> sq_added s' = sq_added s"
    if inv: "system_inv s (x # xs)" and sh: "dq_shutdown (sq_queue s) = 0" and t: "sq_thread s = Ready"
    for s :: "('d, 'c) system"
  proof -
    from inv sh handler_turn_inv [of "sq_queue s" "sq_items s" "x # xs"] obtain q where
      q: "handler_turn (sq_queue s) (sq_items s) = Inr (Act (Some x) True, q)" "queue_inv q (sq_items s) xs"
        "dq_shutdown q = 0" "dq_action q" by (auto simp: system_inv_def)
    let ?s = "s\<lparr>sq_queue := q, sq_thread := after_turn (Act (Some x) True)\<rparr>"
    have step: "handler_step s ?s" by (rule handler_step.turn [OF t q(1)])
    have "x \<notin> set xs" "sq_items s x \<noteq> None" using inv by (auto simp: system_inv_def queue_inv_def)
    with inv q t have "system_inv ?s xs" by (simp add: system_inv_def after_turn_def in_flight_def)
    from Cons.IH [OF this] q obtain s' where "handler_step\<^sup>*\<^sup>* ?s s'" "sq_thread s' = Blocked" "sq_acted s' = sq_added s"
      "sq_added s' = sq_added s" by auto
    with step show ?thesis by (meson converse_rtranclp_into_rtranclp)
  qed
  show ?case
  proof (cases "sq_thread s")
    case (Acting i a)
    with Cons.prems(1) obtain n where n: "i = Some n" "sq_items s n \<noteq> None" "a" by (auto simp: system_inv_def)
    then obtain l H where lH: "handler_act i a (sq_items s) = Inr (l, H)" by (auto simp: handler_act_def item_at_def)
    let ?s = "s\<lparr>sq_items := H, sq_acted := sq_acted s @ l, sq_thread := Ready\<rparr>"
    have step: "handler_step s ?s" by (rule handler_step.act [OF Acting lH])
    have "system_inv ?s (x # xs)" by (rule act_keeps [OF Cons.prems(1) Acting lH])
    from ready [OF this] Cons.prems(2) obtain s' where "handler_step\<^sup>*\<^sup>* ?s s'" "sq_thread s' = Blocked"
      "sq_acted s' = sq_added s" "sq_added s' = sq_added s" by auto
    with step show ?thesis by (meson converse_rtranclp_into_rtranclp)
  next
    case Ready
    with ready [of s] Cons.prems show ?thesis by blast
  qed (use Cons.prems in \<open>auto simp: system_inv_def\<close>)
qed

section \<open>Properties\<close>

definition system_start :: "data_queue \<Rightarrow> ('d, 'c) items \<Rightarrow> ('d, 'c) system" where
  "system_start q H = \<lparr>sq_queue = q, sq_items = H, sq_thread = Ready, sq_added = [], sq_acted = []\<rparr>"

lemma created_inv:
  "data_queue_create mem_ok name True = Inr (Some q) \<Longrightarrow> system_inv (system_start q H) [] \<and> dq_shutdown q = 0"
  by (auto simp: data_queue_create_def data_queue_lock_def data_queue_unlock_def system_inv_def system_start_def
      queue_inv_def in_flight_def)

lemma reachable_inv:
  assumes "data_queue_create mem_ok name True = Inr (Some q)" "queue_step\<^sup>*\<^sup>* (system_start q H) s"
  shows "\<exists>xs. system_inv s xs"
  using assms(2)
proof induction
  case base
  then show ?case using created_inv [OF assms(1)] by blast
next
  case (step s s')
  then show ?case by (blast intro: step_keeps)
qed

text \<open>C18: However producers, the queue thread, signals and spurious wake-ups interleave, the queue loses,
  repeats and reorders nothing: what was added is what was acted on, then the item in the hands
  of the queue thread, then the linked list from its first pointer. The thread blocks only when
  the list is empty and no shutdown was asked for, so no wake-up is lost, and none of its
  operations faults.\<close>

theorem data_queue_order:
  assumes "data_queue_create mem_ok name True = Inr (Some q)" "queue_step\<^sup>*\<^sup>* (system_start q H) s"
  shows "\<exists>xs. chain (sq_items s) (dq_top (sq_queue s)) xs \<and>
    sq_added s = sq_acted s @ in_flight s @ map (entry (sq_items s)) xs \<and>
    (sq_thread s = Blocked \<longrightarrow> xs = [] \<and> dq_shutdown (sq_queue s) = 0) \<and>
    (\<exists>r. handler_turn (sq_queue s) (sq_items s) = Inr r) \<and>
    (\<forall>i a. sq_thread s = Acting i a \<longrightarrow> (\<exists>r. handler_act i a (sq_items s) = Inr r)) \<and>
    (\<forall>a d c. sq_items s a = None \<longrightarrow> (\<exists>r. data_queue_add mem_ok a junk (Some (sq_queue s)) (Some d) c (sq_items s) = Inr r))"
proof -
  from reachable_inv [OF assms] obtain xs where xs: "system_inv s xs" by blast
  then have inv: "queue_inv (sq_queue s) (sq_items s) xs" by (simp add: system_inv_def)
  have "\<exists>r. handler_turn (sq_queue s) (sq_items s) = Inr r"
    using handler_turn_inv [OF inv] by (auto split: if_splits)
  moreover have "\<exists>r. handler_act i a (sq_items s) = Inr r" if "sq_thread s = Acting i a" for i a
    using that xs by (auto simp: system_inv_def handler_act_def item_at_def)
  moreover have "\<exists>r. data_queue_add mem_ok a junk (Some (sq_queue s)) (Some d) c (sq_items s) = Inr r"
    if "sq_items s a = None" for a d c
    using queue_add_inv [OF inv that, of junk d c] by auto
  moreover have "sq_thread s = Blocked \<longrightarrow> xs = [] \<and> dq_shutdown (sq_queue s) = 0"
    using xs by (auto simp: system_inv_def)
  moreover have "chain (sq_items s) (dq_top (sq_queue s)) xs" using inv by (simp add: queue_inv_def)
  moreover have "sq_added s = sq_acted s @ in_flight s @ map (entry (sq_items s)) xs"
    using xs by (simp add: system_inv_def)
  ultimately show ?thesis by blast
qed

definition queue_example :: data_queue where
  "queue_example = \<lparr>dq_name = Some ''q'', dq_top = None, dq_bottom = None, dq_state = 0, dq_shutdown = 0,
     dq_held = False, dq_action = True, dq_counter = 0\<rparr>"

lemma queue_example_created: "data_queue_create mem_ok (Some ''q'') True = Inr (Some queue_example)"
  by (simp add: data_queue_create_def data_queue_lock_def data_queue_unlock_def queue_example_def)

text \<open>Two items are added.\<close>

theorem data_queue_order_witness:
  "\<exists>s xs. queue_step\<^sup>*\<^sup>* (system_start queue_example (Map.empty :: (nat, nat) items)) s \<and> sq_acted s = [] \<and>
    sq_added s = [(Some 10, Some 11), (Some 20, Some 22)] \<and> chain (sq_items s) (dq_top (sq_queue s)) xs \<and>
    map (entry (sq_items s)) xs = [(Some 10, Some 11), (Some 20, Some 22)]"
proof -
  let ?s0 = "system_start queue_example (Map.empty :: (nat, nat) items)"
  note start = created_inv [OF queue_example_created, where H = "Map.empty :: (nat, nat) items"]
  from start have "queue_inv queue_example (Map.empty :: (nat, nat) items) []" by (simp add: system_inv_def system_start_def)
  from queue_add_inv [OF this, of 3 None 10 "Some 11"] obtain q1 H1 where
    q1: "data_queue_add mem_ok 3 None (Some queue_example) (Some 10) (Some 11) (Map.empty :: (nat, nat) items) = Inr (Some q1, H1, True)"
      "queue_inv q1 H1 [3]" "\<forall>b. b \<noteq> 3 \<longrightarrow> H1 b = None" by auto
  then have "H1 4 = None" by simp
  from queue_add_inv [OF q1(2) this, of None 20 "Some 22"] obtain q2 H2 where
    q2: "data_queue_add mem_ok 4 None (Some q1) (Some 20) (Some 22) H1 = Inr (Some q2, H2, False)" by auto
  define s1 where "s1 = ?s0\<lparr>sq_queue := q1, sq_items := H1, sq_added := sq_added ?s0 @ [(Some 10, Some 11)], sq_thread := wake True (sq_thread ?s0)\<rparr>"
  define s2 where "s2 = s1\<lparr>sq_queue := q2, sq_items := H2, sq_added := sq_added s1 @ [(Some 20, Some 22)], sq_thread := wake False (sq_thread s1)\<rparr>"
  have "queue_step ?s0 s1" unfolding s1_def by (rule queue_step.add [of _ 3 None]) (simp_all add: system_start_def q1(1))
  moreover have "queue_step s1 s2" unfolding s2_def
    by (rule queue_step.add [of _ 4 None]) (simp_all add: s1_def q2 \<open>H1 4 = None\<close>)
  ultimately have run: "queue_step\<^sup>*\<^sup>* ?s0 s2" by simp
  have s2: "sq_acted s2 = []" "sq_added s2 = [(Some 10, Some 11), (Some 20, Some 22)]" "in_flight s2 = []"
    by (simp_all add: s2_def s1_def system_start_def in_flight_def wake_def split: if_splits)
  from data_queue_order [OF queue_example_created run] s2 run show ?thesis by fastforce
qed

text \<open>Unless a shutdown was asked for, the queue thread, left alone, acts on everything that was
  added, in order, and then blocks: from every reachable state its own steps lead there.\<close>
theorem data_queue_progress:
  assumes "data_queue_create mem_ok name True = Inr (Some q)" "queue_step\<^sup>*\<^sup>* (system_start q H) s"
    "dq_shutdown (sq_queue s) = 0"
  shows "\<exists>s'. handler_step\<^sup>*\<^sup>* s s' \<and> sq_thread s' = Blocked \<and> sq_acted s' = sq_added s"
proof -
  from reachable_inv [OF assms(1,2)] obtain xs where "system_inv s xs" by blast
  from handler_drains [OF this assms(3)] show ?thesis by blast
qed

theorem data_queue_progress_witness:
  "\<exists>s'. handler_step\<^sup>*\<^sup>* (system_start queue_example (Map.empty :: (nat, nat) items)) s' \<and> sq_thread s' = Blocked \<and> sq_acted s' = []"
  using data_queue_progress [OF queue_example_created, of Map.empty "system_start queue_example (Map.empty :: (nat, nat) items)"]
  by (auto simp: system_start_def queue_example_def)

end
