(* ===== verification/Data_Table.thy ===== *)
theory Data_Table
  imports Prelude
begin

text \<open>
  The table of data pointers (\<^verbatim>\<open>data_table.c\<close>) that holds the connections and the ALSA devices: a
  growing array of slots behind a mutex. The data is what the caller stores. The table promises what
  a list promises, and the searches of its clients are proved against that promise.
\<close>

section \<open>State and operations\<close>

record 'a data_item =
  di_used :: nat
  di_data :: "'a option"

text \<open>Of the two functions given at creation, the destructor matters here as far as it is there.\<close>

record 'a data_table =
  dt_name :: "string option"
  dt_items :: "'a data_item option list option"
  dt_count :: nat
  dt_held :: bool
  dt_item_destructor :: bool

definition data_table_lock :: "'a data_table option \<Rightarrow> 'a data_table option result" where
  "data_table_lock table =
     (case table of None \<Rightarrow> Inr None
      | Some t \<Rightarrow> bindr (mutex_lock (dt_held t)) (\<lambda>h. Inr (Some (t\<lparr>dt_held := h\<rparr>))))"

definition data_table_unlock :: "'a data_table option \<Rightarrow> 'a data_table option result" where
  "data_table_unlock table =
     (case table of None \<Rightarrow> Inr None
      | Some t \<Rightarrow> bindr (mutex_unlock (dt_held t)) (\<lambda>h. Inr (Some (t\<lparr>dt_held := h\<rparr>))))"

definition data_table_create :: "alloc \<Rightarrow> string option \<Rightarrow> bool \<Rightarrow> 'a data_table option" where
  "data_table_create A name destructor =
     (if \<not> A (Site ''data_table_create:new_table'') then None
      else Some \<lparr>dt_name = (case name of None \<Rightarrow> None
                             | Some n \<Rightarrow> if A (Site ''data_table_create:name'') then Some n else None),
                dt_items = None, dt_count = 0, dt_held = False, dt_item_destructor = destructor\<rparr>)"

text \<open>The argument is the address of a table pointer, which is never NULL itself.\<close>

definition data_table_destroy :: "'a data_table option \<Rightarrow> 'a data_table option result" where
  "data_table_destroy table =
     (case table of None \<Rightarrow> Inr None
      | Some t \<Rightarrow>
          bindr (data_table_lock (Some t)) (\<lambda>p. bindr (data_table_unlock p) (\<lambda>_. Inr None)))"

definition data_table_set_item_destructor :: "'a data_table option \<Rightarrow> bool \<Rightarrow> 'a data_table option result" where
  "data_table_set_item_destructor table destructor =
     (case table of None \<Rightarrow> Inr None
      | Some t \<Rightarrow>
          if \<not> destructor then Inr (Some t)
          else bindr (data_table_lock (Some t)) (\<lambda>p.
               data_table_unlock (map_option (\<lambda>t. t\<lparr>dt_item_destructor := True\<rparr>) p)))"

text \<open>The first slot that is there and not in use.\<close>

fun find_unused_slot :: "'a data_item option list \<Rightarrow> nat \<Rightarrow> nat \<Rightarrow> nat option result" where
  "find_unused_slot items i 0 = Inr None"
| "find_unused_slot items i (Suc left) =
     bindr (mem_get items i) (\<lambda>item.
     case item of None \<Rightarrow> find_unused_slot items (Suc i) left
     | Some x \<Rightarrow> if di_used x = 1 then find_unused_slot items (Suc i) left else Inr (Some i))"

definition data_table_add_item ::
    "alloc \<Rightarrow> 'a data_table option \<Rightarrow> 'a option \<Rightarrow> (int \<times> 'a data_table option) result" where
  "data_table_add_item A table data =
     (case table of None \<Rightarrow> Inr (0, None)
      | Some t \<Rightarrow>
     (case data of None \<Rightarrow> Inr (0, Some t)
      | Some d \<Rightarrow>
          bindr (data_table_lock (Some t)) (\<lambda>p.
          bindr (deref p) (\<lambda>t.
          bindr (case dt_items t of None \<Rightarrow> Inr None | Some items \<Rightarrow> find_unused_slot items 0 (dt_count t)) (\<lambda>slot.
          let new_item = \<lparr>di_used = 1, di_data = Some d\<rparr> in
          case slot of
            Some i \<Rightarrow>
              bindr (data_table_unlock (Some (t\<lparr>dt_items :=
                map_option (\<lambda>items. items[i := Some new_item]) (dt_items t)\<rparr>))) (\<lambda>p. Inr (1, p))
          | None \<Rightarrow>
              if \<not> A (Site ''data_table_add_item:new_item'') \<or> \<not> A (Site ''data_table_add_item:new_items'')
              then bindr (data_table_unlock (Some t)) (\<lambda>p. Inr (0, p))
              else
                let list = (case dt_items t of None \<Rightarrow> [] | Some items \<Rightarrow> take (dt_count t) items) in
                bindr (data_table_unlock (Some (t\<lparr>dt_items := Some (list @ [Some new_item]),
                  dt_count := dt_count t + 1\<rparr>))) (\<lambda>p. Inr (1, p)))))))"

definition data_table_item_count :: "'a data_table option \<Rightarrow> (nat \<times> 'a data_table option) result" where
  "data_table_item_count table =
     (case table of None \<Rightarrow> Inr (0, None)
      | Some t \<Rightarrow>
          bindr (data_table_lock (Some t)) (\<lambda>p. bindr (data_table_unlock p) (\<lambda>p. Inr (dt_count t, p))))"

fun count_unused :: "'a data_item option list \<Rightarrow> nat \<Rightarrow> nat \<Rightarrow> nat result" where
  "count_unused items i 0 = Inr 0"
| "count_unused items i (Suc left) =
     bindr (mem_get items i) (\<lambda>item.
     bindr (count_unused items (Suc i) left) (\<lambda>n.
     Inr (case item of None \<Rightarrow> n | Some x \<Rightarrow> if di_used x = 0 then n + 1 else n)))"

definition data_table_unused_count :: "'a data_table option \<Rightarrow> (nat \<times> 'a data_table option) result" where
  "data_table_unused_count table =
     (case table of None \<Rightarrow> Inr (0, None)
      | Some t \<Rightarrow>
          bindr (data_table_lock (Some t)) (\<lambda>p.
          bindr (case dt_items t of None \<Rightarrow> Inr 0
                 | Some items \<Rightarrow> if dt_count t = 0 then Inr 0 else count_unused items 0 (dt_count t)) (\<lambda>n.
          bindr (data_table_unlock p) (\<lambda>p. Inr (n, p)))))"

text \<open>The item at an index, where the getters find one.\<close>

definition data_table_slot :: "'a data_table option \<Rightarrow> nat \<Rightarrow> 'a data_item option result" where
  "data_table_slot table index =
     (case table of None \<Rightarrow> Inr None
      | Some t \<Rightarrow> (case dt_items t of None \<Rightarrow> Inr None
                  | Some items \<Rightarrow> if dt_count t = 0 \<or> index \<ge> dt_count t then Inr None else mem_get items index))"

definition data_table_item_is_unused :: "'a data_table option \<Rightarrow> nat \<Rightarrow> int result" where
  "data_table_item_is_unused table index =
     bindr (data_table_slot table index) (\<lambda>item.
     Inr (case item of None \<Rightarrow> 0 | Some x \<Rightarrow> if di_used x = 0 then 1 else 0))"

definition data_table_item_get :: "'a data_table option \<Rightarrow> nat \<Rightarrow> 'a option result" where
  "data_table_item_get table index =
     bindr (data_table_slot table index) (\<lambda>item. Inr (case item of None \<Rightarrow> None | Some x \<Rightarrow> di_data x))"

text \<open>The inner lock is the second of the same thread; what would follow frees the address of a field.\<close>

definition data_table_delete_item :: "'a data_table option \<Rightarrow> nat \<Rightarrow> 'a data_table option result" where
  "data_table_delete_item table index =
     (case table of None \<Rightarrow> Inr None
      | Some _ \<Rightarrow>
          bindr (data_table_lock table) (\<lambda>p.
          bindr (data_table_slot p index) (\<lambda>item.
          case item of None \<Rightarrow> data_table_unlock p
          | Some _ \<Rightarrow>
              bindr (deref p) (\<lambda>t.
              if dt_item_destructor t then bindr (data_table_lock p) (\<lambda>_. Inl BadFree)
              else data_table_unlock p))))"

definition data_table_name :: "'a data_table option \<Rightarrow> (string option \<times> 'a data_table option) result" where
  "data_table_name table =
     (case table of None \<Rightarrow> Inr (None, None)
      | Some t \<Rightarrow>
          bindr (data_table_lock (Some t)) (\<lambda>p. bindr (data_table_unlock p) (\<lambda>p. Inr (dt_name t, p))))"

section \<open>The list behind the table\<close>

definition slot_ok :: "'a data_item option \<Rightarrow> bool" where
  "slot_ok item \<longleftrightarrow> (\<exists>d. item = Some \<lparr>di_used = 1, di_data = Some d\<rparr>)"

definition table_ok :: "'a data_table \<Rightarrow> bool" where
  "table_ok t \<longleftrightarrow>
     (case dt_items t of None \<Rightarrow> dt_count t = 0
      | Some items \<Rightarrow> length items = dt_count t \<and> (\<forall>item\<in>set items. slot_ok item))"

definition table_wf :: "'a data_table \<Rightarrow> bool" where
  "table_wf t \<longleftrightarrow> \<not> dt_held t \<and> table_ok t"

definition table_list :: "'a data_table \<Rightarrow> 'a list" where
  "table_list t = (case dt_items t of None \<Rightarrow> [] | Some items \<Rightarrow> map (\<lambda>item. the (di_data (the item))) items)"

lemma length_table_list: "table_wf t \<Longrightarrow> length (table_list t) = dt_count t"
  by (auto simp: table_wf_def table_ok_def table_list_def split: option.splits)

lemma find_unused_slot_none:
  "\<forall>item\<in>set items. slot_ok item \<Longrightarrow> i + n = length items \<Longrightarrow> find_unused_slot items i n = Inr None"
proof (induction items i n rule: find_unused_slot.induct)
  case (2 items i left)
  then have "slot_ok (items ! i)" by simp
  then obtain d where "items ! i = Some \<lparr>di_used = 1, di_data = Some d\<rparr>" by (auto simp: slot_ok_def)
  with 2 show ?case by simp
qed simp

lemma table_slot:
  assumes "table_ok t"
  shows "data_table_item_get (Some t) i = Inr (if i < length (table_list t) then Some (table_list t ! i) else None)"
proof (cases "dt_items t")
  case None
  with assms show ?thesis by (simp add: data_table_item_get_def data_table_slot_def table_list_def)
next
  case (Some items)
  with assms have "length items = dt_count t" "\<forall>item\<in>set items. slot_ok item" by (simp_all add: table_wf_def table_ok_def)
  moreover from this have "i < length items \<Longrightarrow> \<exists>d. items ! i = Some \<lparr>di_used = 1, di_data = Some d\<rparr>"
    using nth_mem [of i items] by (auto simp: slot_ok_def)
  ultimately show ?thesis
    using Some by (auto simp: data_table_item_get_def data_table_slot_def table_list_def)
qed

lemma table_add:
  assumes "table_wf t"
  shows "\<exists>t'. data_table_add_item mem_ok (Some t) (Some d) = Inr (1, Some t') \<and> table_wf t' \<and>
    table_list t' = table_list t @ [d] \<and> dt_item_destructor t' = dt_item_destructor t"
proof (cases "dt_items t")
  case None
  with assms show ?thesis
    by (auto simp: data_table_add_item_def data_table_lock_def data_table_unlock_def table_wf_def table_ok_def table_list_def slot_ok_def)
next
  case (Some items)
  with assms have "find_unused_slot items 0 (dt_count t) = Inr None"
    by (intro find_unused_slot_none) (simp_all add: table_wf_def table_ok_def)
  with Some assms show ?thesis
    by (auto simp: data_table_add_item_def data_table_lock_def data_table_unlock_def table_wf_def table_ok_def table_list_def slot_ok_def)
qed

lemma table_count:
  "table_wf t \<Longrightarrow> data_table_item_count (Some t) = Inr (length (table_list t), Some t)"
  by (simp add: data_table_item_count_def data_table_lock_def data_table_unlock_def length_table_list)
    (simp add: table_wf_def table_ok_def)

section \<open>The contract and its searches\<close>

text \<open>The loop of the clients: the first index whose data passes a test.\<close>

fun search :: "(nat \<Rightarrow> 'a option result) \<Rightarrow> ('a \<Rightarrow> bool result) \<Rightarrow> nat \<Rightarrow> nat \<Rightarrow> nat option result" where
  "search get P i 0 = Inr None"
| "search get P i (Suc left) =
     bindr (get i) (\<lambda>d.
     case d of None \<Rightarrow> search get P (Suc i) left
     | Some x \<Rightarrow> bindr (P x) (\<lambda>b. if b then Inr (Some i) else search get P (Suc i) left))"

text \<open>The same over a list, with the data instead of its index.\<close>

fun find_result :: "('a \<Rightarrow> bool result) \<Rightarrow> 'a list \<Rightarrow> 'a option result" where
  "find_result P [] = Inr None"
| "find_result P (x # xs) = bindr (P x) (\<lambda>b. if b then Inr (Some x) else find_result P xs)"

lemma find_result_find:
  "(\<And>x. x \<in> set xs \<Longrightarrow> P x = Inr (Q x)) \<Longrightarrow> find_result P xs = Inr (List.find Q xs)"
  by (induction xs) auto

locale data_list =
  fixes ok :: "'t \<Rightarrow> bool" and free :: "'t \<Rightarrow> bool" and view :: "'t \<Rightarrow> 'a list"
    and get :: "'t \<Rightarrow> nat \<Rightarrow> 'a option result"
    and count :: "'t \<Rightarrow> (nat \<times> 't option) result"
    and add :: "'t \<Rightarrow> 'a \<Rightarrow> (int \<times> 't option) result"
  assumes get_nth: "ok t \<Longrightarrow> get t i = Inr (if i < length (view t) then Some (view t ! i) else None)"
    and count_length: "ok t \<Longrightarrow> free t \<Longrightarrow> count t = Inr (length (view t), Some t)"
    and add_last: "ok t \<Longrightarrow> free t \<Longrightarrow>
      \<exists>t'. add t d = Inr (1, Some t') \<and> ok t' \<and> free t' \<and> view t' = view t @ [d]"
begin

lemma search_from:
  assumes "ok t" "i + n = length (view t)"
  shows "bindr (search (get t) P i n) (\<lambda>j. case j of None \<Rightarrow> Inr None | Some j \<Rightarrow> get t j) =
    find_result P (drop i (view t))"
  using assms(2)
proof (induction n arbitrary: i)
  case 0
  then show ?case by simp
next
  case (Suc n)
  then have i: "i < length (view t)" by simp
  then have d: "drop i (view t) = view t ! i # drop (Suc i) (view t)" by (simp add: Cons_nth_drop_Suc)
  have g: "get t i = Inr (Some (view t ! i))" using i get_nth [OF assms(1)] by simp
  show ?case
    unfolding d using Suc g by (cases "P (view t ! i)") (auto simp: bindr_assoc)
qed

lemma search_all:
  assumes "ok t"
  shows "bindr (search (get t) P 0 (length (view t))) (\<lambda>j. case j of None \<Rightarrow> Inr None | Some j \<Rightarrow> get t j) =
    find_result P (view t)"
  using search_from [OF assms, of 0 "length (view t)" P] by simp

lemma add_get:
  assumes "ok t" "free t"
  shows "\<exists>t'. add t d = Inr (1, Some t') \<and> ok t' \<and> free t' \<and> count t' = Inr (length (view t) + 1, Some t') \<and>
    (\<forall>i. get t' i = (if i = length (view t) then Inr (Some d) else get t i))"
proof -
  from add_last [OF assms, of d] obtain t' where
    t': "add t d = Inr (1, Some t')" "ok t'" "free t'" "view t' = view t @ [d]" by blast
  with count_length [of t'] get_nth [of t'] get_nth [OF assms(1)] show ?thesis
    by (intro exI [of _ t']) (auto simp: nth_append)
qed

end

interpretation tab: data_list table_ok "\<lambda>t. \<not> dt_held t" table_list "\<lambda>t. data_table_item_get (Some t)"
  "\<lambda>t. data_table_item_count (Some t)" "\<lambda>t d. data_table_add_item mem_ok (Some t) (Some d)"
proof unfold_locales
  fix t :: "'a data_table" and d i
  show "table_ok t \<Longrightarrow> data_table_item_get (Some t) i = Inr (if i < length (table_list t) then Some (table_list t ! i) else None)"
    by (rule table_slot)
  assume "table_ok t" "\<not> dt_held t"
  then have wf: "table_wf t" by (simp add: table_wf_def)
  show "data_table_item_count (Some t) = Inr (length (table_list t), Some t)" by (rule table_count [OF wf])
  from table_add [OF wf, of d] show "\<exists>t'. data_table_add_item mem_ok (Some t) (Some d) = Inr (1, Some t') \<and>
      table_ok t' \<and> \<not> dt_held t' \<and> table_list t' = table_list t @ [d]"
    unfolding table_wf_def by blast
qed

section \<open>Properties\<close>

text \<open>A table behaves as a list of what was added to it: after any additions to a new table nothing
  has failed, the count is their number, and the data at each index is what was added at that
  turn, with no data behind the last.\<close>
theorem data_table_refines_list:
  assumes "data_table_create mem_ok name d = Some t"
  shows "\<exists>t'. fold (\<lambda>x r. bindr r (\<lambda>t. bindr (data_table_add_item mem_ok t (Some x)) (\<lambda>(_, t). Inr t))) xs (Inr (Some t)) = Inr (Some t') \<and>
    data_table_item_count (Some t') = Inr (length xs, Some t') \<and>
    (\<forall>i. data_table_item_get (Some t') i = Inr (if i < length xs then Some (xs ! i) else None))"
proof -
  have "\<exists>t'. fold (\<lambda>x r. bindr r (\<lambda>t. bindr (data_table_add_item mem_ok t (Some x)) (\<lambda>(_, t). Inr t))) xs (Inr (Some t)) = Inr (Some t') \<and>
      table_wf t' \<and> table_list t' = table_list t @ xs" if "table_wf t" for t :: "'a data_table"
    using that
  proof (induction xs arbitrary: t)
    case (Cons x xs)
    from table_add [OF Cons.prems, of x] obtain t1 where
      "data_table_add_item mem_ok (Some t) (Some x) = Inr (1, Some t1)" "table_wf t1" "table_list t1 = table_list t @ [x]"
      by blast
    with Cons.IH [of t1] show ?case by simp
  qed simp
  moreover have "table_wf t" "table_list t = []"
    using assms by (auto simp: data_table_create_def table_wf_def table_ok_def table_list_def)
  ultimately obtain t' where "fold (\<lambda>x r. bindr r (\<lambda>t. bindr (data_table_add_item mem_ok t (Some x)) (\<lambda>(_, t). Inr t))) xs (Inr (Some t)) = Inr (Some t')"
    "table_wf t'" "table_list t' = xs" by fastforce
  with table_count [of t'] table_slot [of t'] show ?thesis by (auto simp: table_wf_def)
qed

theorem data_table_refines_list_witness:
  "\<exists>t'. fold (\<lambda>x r. bindr r (\<lambda>t. bindr (data_table_add_item mem_ok t (Some x)) (\<lambda>(_, t). Inr t))) [5, 7 :: nat]
      (Inr (Some \<lparr>dt_name = None, dt_items = None, dt_count = 0, dt_held = False, dt_item_destructor = True\<rparr>)) = Inr (Some t') \<and>
    data_table_item_count (Some t') = Inr (length [5, 7 :: nat], Some t') \<and>
    (\<forall>i. data_table_item_get (Some t') i = Inr (if i < length [5, 7 :: nat] then Some ([5, 7] ! i) else None))"
  by (rule data_table_refines_list [of None True]) (simp add: data_table_create_def)

text \<open>Deleting any item of a table with a destructor, such as that of the connections, does not
  return: the mutex is locked a second time by the same thread. Deleting past the end does nothing.\<close>
theorem data_table_delete_deadlock:
  assumes "table_wf t" "dt_item_destructor t"
  shows "data_table_delete_item (Some t) i = (if i < length (table_list t) then Inl Deadlock else Inr (Some t))"
proof (cases "dt_items t")
  case None
  with assms show ?thesis
    by (simp add: data_table_delete_item_def data_table_lock_def data_table_unlock_def data_table_slot_def
        table_wf_def table_list_def)
next
  case (Some items)
  with assms have it: "length items = dt_count t" "\<not> dt_held t" and "\<forall>item\<in>set items. slot_ok item"
    by (simp_all add: table_wf_def table_ok_def)
  then have "i < length items \<Longrightarrow> items ! i \<noteq> None" using nth_mem [of i items] by (auto simp: slot_ok_def)
  with Some it assms(2) length_table_list [OF assms(1)] show ?thesis
    by (auto simp: data_table_delete_item_def data_table_lock_def data_table_unlock_def data_table_slot_def)
qed

theorem data_table_delete_deadlock_witness:
  "data_table_delete_item (Some \<lparr>dt_name = None, dt_items = Some [Some \<lparr>di_used = 1, di_data = Some (5 :: nat)\<rparr>],
     dt_count = 1, dt_held = False, dt_item_destructor = True\<rparr>) 0 = Inl Deadlock"
  by (subst data_table_delete_deadlock) (simp_all add: table_wf_def table_ok_def table_list_def slot_ok_def)

end
