(* ===== verification/Net_Connection.thy ===== *)
theory Net_Connection
  imports Data_Table Config Rtp_Packet Midi_State Journal_Pack Journal_Events
begin

text \<open>
  The connections (\<^verbatim>\<open>net_connection.c\<close>, and \<^verbatim>\<open>get_sock_info\<close> of \<^verbatim>\<open>utils.c\<close>): the contexts of the
  remote peers, found by SSRC, initiator token or name, registered, reset and sent to.

  The table \<^verbatim>\<open>connections\<close> holds addresses and \<open>contexts\<close> is the store behind them, so that a
  context found by a responder is the one in the table. A function on a context is a function of
  the record it points to; \<open>on_ctx\<close> applies it through the pointer. What the code gets from
  outside in one call is the record \<open>env\<close>: allocation outcomes, the time, random numbers, the
  address of a new context, the answers of \<^verbatim>\<open>getaddrinfo\<close>, and the configuration.
\<close>

section \<open>State\<close>

datatype net_ctx_status =
    NET_CTX_STATUS_IDLE | NET_CTX_STATUS_FIRST_INV | NET_CTX_STATUS_SECOND_INV
  | NET_CTX_STATUS_REMOTE_CONNECTION | NET_CTX_STATUS_UNUSED

record net_ctx =
  nc_status :: net_ctx_status
  nc_ssrc :: "32 word"
  nc_send_ssrc :: "32 word"
  nc_initiator :: "32 word"
  nc_seq :: "32 word"
  nc_control_port :: "16 word"
  nc_data_port :: "16 word"
  nc_control_address :: bytes
  nc_control_address_len :: nat
  nc_data_address :: bytes
  nc_data_address_len :: nat
  nc_start :: "64 word"
  nc_ip_address :: "bytes option"
  nc_name :: "bytes option"
  nc_journal :: "journal option"
  nc_midi_state :: "midi_state option"
  nc_held :: bool

type_synonym contexts = "nat \<Rightarrow> net_ctx option"

record net =
  nt_connections :: "nat data_table option"
  nt_contexts :: contexts

text \<open>\<^verbatim>\<open>getaddrinfo\<close> for a numeric host and a port: the family and the address, or None for an error.\<close>

type_synonym resolver = "bytes \<Rightarrow> int \<Rightarrow> (int \<times> bytes) option"

record env =
  en_alloc :: alloc
  en_now :: "64 word"
  en_random :: "nat \<Rightarrow> 32 word"
  en_address :: nat
  en_junk :: "64 word"
  en_resolve :: resolver
  en_config :: "kv_table option"

definition SOCKADDR_STORAGE_SIZE :: nat where "SOCKADDR_STORAGE_SIZE = 128"
definition SOCKADDR_SIZE :: nat where "SOCKADDR_SIZE = 16"
definition NET_SOCKET_DEFAULT_RING_BUFFER :: nat where "NET_SOCKET_DEFAULT_RING_BUFFER = 10240"

lemmas net_sizes [simp] =
  SOCKADDR_STORAGE_SIZE_def SOCKADDR_SIZE_def NET_SOCKET_DEFAULT_RING_BUFFER_def

section \<open>Strings\<close>

text \<open>\<^verbatim>\<open>utils_strdup\<close>, \<^verbatim>\<open>strcmp( a, b ) == 0\<close>, and a string of the configuration as its bytes.\<close>

definition utils_strdup :: "bool \<Rightarrow> bytes option \<Rightarrow> bytes option result" where
  "utils_strdup ok s =
     (case s of None \<Rightarrow> Inr None
      | Some b \<Rightarrow> bindr (c_strlen b) (\<lambda>_. Inr (if ok then Some (c_string b @ [0]) else None)))"

fun strcmp_equal :: "bytes \<Rightarrow> bytes \<Rightarrow> bool result" where
  "strcmp_equal (x # xs) (y # ys) =
     (if x \<noteq> y then Inr False else if x = 0 then Inr True else strcmp_equal xs ys)"
| "strcmp_equal _ _ = Inl OutOfBounds"

definition string_bytes :: "string \<Rightarrow> bytes" where
  "string_bytes s = map of_char s @ [0]"

section \<open>One context\<close>

definition net_ctx_lock :: "net_ctx option \<Rightarrow> net_ctx option result" where
  "net_ctx_lock ctx =
     (case ctx of None \<Rightarrow> Inr None
      | Some c \<Rightarrow> bindr (mutex_lock (nc_held c)) (\<lambda>h. Inr (Some (c\<lparr>nc_held := h\<rparr>))))"

definition net_ctx_unlock :: "net_ctx option \<Rightarrow> net_ctx option result" where
  "net_ctx_unlock ctx =
     (case ctx of None \<Rightarrow> Inr None
      | Some c \<Rightarrow> bindr (mutex_unlock (nc_held c)) (\<lambda>h. Inr (Some (c\<lparr>nc_held := h\<rparr>))))"

text \<open>The functions that lock the context, work on it and unlock it.\<close>

definition locked :: "(net_ctx \<Rightarrow> ('a \<times> net_ctx) result) \<Rightarrow> net_ctx \<Rightarrow> ('a \<times> net_ctx) result" where
  "locked f c =
     bindr (net_ctx_lock (Some c)) (\<lambda>p. bindr (deref p) (\<lambda>c.
     bindr (f c) (\<lambda>(x, c).
     bindr (net_ctx_unlock (Some c)) (\<lambda>p. bindr (deref p) (\<lambda>c. Inr (x, c))))))"

definition net_ctx_destroy :: "net_ctx option option \<Rightarrow> net_ctx option option result" where
  "net_ctx_destroy data =
     (case data of None \<Rightarrow> Inr None | Some None \<Rightarrow> Inr (Some None)
      | Some (Some c) \<Rightarrow>
          let _ = journal_destroy (Some (nc_journal c)) in
          bindr (case nc_midi_state c of None \<Rightarrow> Inr None
                 | Some st \<Rightarrow> midi_state_destroy (Some (Some st))) (\<lambda>_.
          Inr (Some None)))"

text \<open>\<^verbatim>\<open>get_sock_info\<close> of \<^verbatim>\<open>utils.c\<close>: the result, and the three outputs, each None when the caller gave
  NULL. The first of the addresses found is copied.\<close>

definition get_sock_info ::
    "resolver \<Rightarrow> bytes option \<Rightarrow> int \<Rightarrow> bytes option \<Rightarrow> nat option \<Rightarrow> int option \<Rightarrow>
     (int \<times> bytes option \<times> nat option \<times> int option) result" where
  "get_sock_info resolve ip_address port sock socklen family =
     (case ip_address of None \<Rightarrow> Inr (1, sock, socklen, family)
      | Some ip \<Rightarrow>
          bindr (c_strlen ip) (\<lambda>_.
          case resolve (c_string ip) port of None \<Rightarrow> Inr (1, sock, socklen, family)
          | Some (ai_family, ai_addr) \<Rightarrow>
              bindr (case sock of None \<Rightarrow> Inr None
                     | Some m \<Rightarrow> bindr (mem_write m 0 (replicate SOCKADDR_SIZE 0)) (\<lambda>m.
                                 bindr (mem_write m 0 ai_addr) (\<lambda>m. Inr (Some m)))) (\<lambda>sock.
              Inr (0, sock, map_option (\<lambda>_. length ai_addr) socklen, map_option (\<lambda>_. ai_family) family))))"

definition net_ctx_set ::
    "env \<Rightarrow> net_ctx option \<Rightarrow> 32 word \<Rightarrow> 32 word \<Rightarrow> 32 word \<Rightarrow> 16 word \<Rightarrow> bytes option \<Rightarrow> bytes option \<Rightarrow>
     net_ctx option result" where
  "net_ctx_set E ctx ssrc initiator send_ssrc port ip_address name =
     (case ctx of None \<Rightarrow> Inr None
      | Some c \<Rightarrow>
          bindr (net_ctx_lock (Some c)) (\<lambda>p. bindr (deref p) (\<lambda>c.
          let c = c\<lparr>nc_ssrc := ssrc, nc_send_ssrc := send_ssrc, nc_initiator := initiator,
                    nc_control_port := port, nc_data_port := port + 1, nc_start := en_now E,
                    nc_control_address_len := 0, nc_data_address_len := 0,
                    nc_control_address := replicate SOCKADDR_STORAGE_SIZE 0,
                    nc_data_address := replicate SOCKADDR_STORAGE_SIZE 0\<rparr> in
          bindr (utils_strdup (en_alloc E (Site ''net_ctx_set:ip_address'')) ip_address) (\<lambda>ip.
          bindr (case ip of None \<Rightarrow> Inr c
                 | Some _ \<Rightarrow>
                     bindr (get_sock_info (en_resolve E) ip (uint (nc_control_port c)) (Some (nc_control_address c))
                              (Some (nc_control_address_len c)) None) (\<lambda>(_, addr, len, _).
                     let c = c\<lparr>nc_control_address := the addr, nc_control_address_len := the len\<rparr> in
                     bindr (get_sock_info (en_resolve E) ip (uint (nc_data_port c)) (Some (nc_data_address c))
                              (Some (nc_data_address_len c)) None) (\<lambda>(_, addr, len, _).
                     Inr (c\<lparr>nc_data_address := the addr, nc_data_address_len := the len\<rparr>)))) (\<lambda>c.
          bindr (utils_strdup (en_alloc E (Site ''net_ctx_set:name'')) name) (\<lambda>name.
          bindr (midi_state_reset (en_alloc E) (nc_midi_state c)) (\<lambda>st.
          net_ctx_unlock (Some (c\<lparr>nc_ip_address := ip, nc_name := name, nc_midi_state := st,
                                  nc_status := NET_CTX_STATUS_IDLE\<rparr>)))))))))"

text \<open>A negative number in the configuration becomes a size near 2^64.\<close>

definition net_ctx_create :: "env \<Rightarrow> net_ctx option result" where
  "net_ctx_create E =
     (if \<not> en_alloc E (Site ''net_ctx_create:new_ctx'') then Inr None
      else
        let (_, journal) = journal_init (en_alloc E) in
        bindr (config_int_get (en_config E) (Some ''read.ring_buffer_size'')) (\<lambda>v.
        bindr (midi_state_create (en_alloc E) (en_junk E)
                 (max NET_SOCKET_DEFAULT_RING_BUFFER (nat (v mod 2 ^ 64)))) (\<lambda>st.
        Inr (Some
          \<lparr>nc_status = NET_CTX_STATUS_UNUSED, nc_ssrc = 0, nc_send_ssrc = 0, nc_initiator = 0, nc_seq = 1,
           nc_control_port = 0, nc_data_port = 0, nc_control_address = replicate SOCKADDR_STORAGE_SIZE 0,
           nc_control_address_len = 0, nc_data_address = replicate SOCKADDR_STORAGE_SIZE 0,
           nc_data_address_len = 0, nc_start = 0, nc_ip_address = None, nc_name = None,
           nc_journal = journal, nc_midi_state = st, nc_held = False\<rparr>))))"

definition net_ctx_journal_reset :: "net_ctx option \<Rightarrow> net_ctx option result" where
  "net_ctx_journal_reset ctx =
     (case ctx of None \<Rightarrow> Inr None
      | Some c \<Rightarrow> bindr (locked (\<lambda>c. bindr (journal_reset (nc_journal c)) (\<lambda>j. Inr ((), c\<lparr>nc_journal := j\<rparr>))) c)
                   (\<lambda>(_, c). Inr (Some c)))"

definition net_ctx_reset :: "env \<Rightarrow> net_ctx option \<Rightarrow> net_ctx option result" where
  "net_ctx_reset E ctx =
     (case ctx of None \<Rightarrow> Inr None
      | Some c \<Rightarrow>
          bindr (net_ctx_journal_reset (Some c)) (\<lambda>p. bindr (deref p) (\<lambda>c.
          bindr (locked (\<lambda>c.
            let c = c\<lparr>nc_seq := 1, nc_status := NET_CTX_STATUS_UNUSED,
                      nc_control_address_len := 0, nc_data_address_len := 0,
                      nc_control_address := replicate SOCKADDR_STORAGE_SIZE 0,
                      nc_data_address := replicate SOCKADDR_STORAGE_SIZE 0\<rparr> in
            bindr (midi_state_reset (en_alloc E) (nc_midi_state c)) (\<lambda>st. Inr ((), c\<lparr>nc_midi_state := st\<rparr>))) c)
          (\<lambda>(_, c). Inr (Some c)))))"

definition net_ctx_add_journal_note :: "alloc \<Rightarrow> net_ctx option \<Rightarrow> midi_note option \<Rightarrow> net_ctx option result" where
  "net_ctx_add_journal_note A ctx midi_note =
     (case ctx of None \<Rightarrow> Inr None
      | Some c \<Rightarrow>
          if midi_note = None then Inr (Some c)
          else bindr (locked (\<lambda>c. bindr (midi_journal_add_note A (nc_journal c) (nc_seq c) midi_note) (\<lambda>j.
                 Inr ((), c\<lparr>nc_journal := j\<rparr>))) c) (\<lambda>(_, c). Inr (Some c)))"

definition net_ctx_add_journal_control :: "alloc \<Rightarrow> net_ctx option \<Rightarrow> midi_control option \<Rightarrow> net_ctx option result" where
  "net_ctx_add_journal_control A ctx midi_control =
     (case ctx of None \<Rightarrow> Inr None
      | Some c \<Rightarrow>
          if midi_control = None then Inr (Some c)
          else bindr (locked (\<lambda>c. bindr (midi_journal_add_control A (nc_journal c) (nc_seq c) midi_control) (\<lambda>j.
                 Inr ((), c\<lparr>nc_journal := j\<rparr>))) c) (\<lambda>(_, c). Inr (Some c)))"

definition net_ctx_add_journal_program :: "alloc \<Rightarrow> net_ctx option \<Rightarrow> midi_program option \<Rightarrow> net_ctx option result" where
  "net_ctx_add_journal_program A ctx midi_program =
     (case ctx of None \<Rightarrow> Inr None
      | Some c \<Rightarrow>
          if midi_program = None then Inr (Some c)
          else bindr (locked (\<lambda>c. bindr (midi_journal_add_program A (nc_journal c) (nc_seq c) midi_program) (\<lambda>j.
                 Inr ((), c\<lparr>nc_journal := j\<rparr>))) c) (\<lambda>(_, c). Inr (Some c)))"

definition net_ctx_journal_pack :: "alloc \<Rightarrow> net_ctx option \<Rightarrow> (bytes option \<times> nat \<times> net_ctx option) result" where
  "net_ctx_journal_pack A ctx =
     (case ctx of None \<Rightarrow> Inr (None, 0, None)
      | Some c \<Rightarrow>
          bindr (locked (\<lambda>c. bindr (journal_pack A (nc_journal c)) (\<lambda>(b, n, j). Inr ((b, n), c\<lparr>nc_journal := j\<rparr>))) c)
            (\<lambda>((b, n), c). Inr (b, n, Some c)))"

text \<open>The time since the start is cut to 32 bits, the sequence number to 16.\<close>

definition net_ctx_update_rtp_fields :: "64 word \<Rightarrow> net_ctx option \<Rightarrow> rtp_packet option \<Rightarrow> rtp_packet option" where
  "net_ctx_update_rtp_fields now ctx rtp_packet =
     (case (rtp_packet, ctx) of
        (Some pkt, Some c) \<Rightarrow>
          Some (pkt\<lparr>rp_header := (rp_header pkt)\<lparr>rh_seq := ucast (nc_seq c),
             rh_timestamp := ucast (now - nc_start c), rh_ssrc := nc_send_ssrc c\<rparr>\<rparr>)
      | _ \<Rightarrow> rtp_packet)"

definition net_ctx_increment_seq :: "net_ctx option \<Rightarrow> net_ctx option result" where
  "net_ctx_increment_seq ctx =
     (case ctx of None \<Rightarrow> Inr None
      | Some c \<Rightarrow> bindr (locked (\<lambda>c. Inr ((), c\<lparr>nc_seq := nc_seq c + 1\<rparr>)) c) (\<lambda>(_, c). Inr (Some c)))"

text \<open>What \<^verbatim>\<open>sendto\<close> is called with: which socket, the address, and the bytes.\<close>

record datagram =
  dg_control :: bool
  dg_address :: bytes
  dg_bytes :: bytes

definition net_ctx_send ::
    "net_ctx option \<Rightarrow> bytes option \<Rightarrow> nat \<Rightarrow> bool \<Rightarrow> (datagram list \<times> net_ctx option) result" where
  "net_ctx_send ctx buffer buffer_len use_control =
     (case (buffer, ctx) of
        (Some b, Some c) \<Rightarrow>
          if buffer_len = 0 then Inr ([], Some c)
          else bindr (locked (\<lambda>c.
                 let (address, len) = (if use_control then (nc_control_address c, nc_control_address_len c)
                                       else (nc_data_address c, nc_data_address_len c)) in
                 if len = 0 then Inr ([], c)
                 else bindr (mem_read b 0 buffer_len) (\<lambda>xs. bindr (mem_read address 0 len) (\<lambda>a.
                      Inr ([\<lparr>dg_control = use_control, dg_address = a, dg_bytes = xs\<rparr>], c)))) c)
               (\<lambda>(d, c). Inr (d, Some c))
      | _ \<Rightarrow> Inr ([], ctx))"

definition net_ctx_status_to_string :: "net_ctx_status \<Rightarrow> string" where
  "net_ctx_status_to_string status =
     (case status of
        NET_CTX_STATUS_IDLE \<Rightarrow> ''idle''
      | NET_CTX_STATUS_FIRST_INV \<Rightarrow> ''first_inv''
      | NET_CTX_STATUS_SECOND_INV \<Rightarrow> ''second_inv''
      | NET_CTX_STATUS_REMOTE_CONNECTION \<Rightarrow> ''remote_connection''
      | NET_CTX_STATUS_UNUSED \<Rightarrow> ''unused'')"

definition net_ctx_is_used :: "net_ctx option \<Rightarrow> int" where
  "net_ctx_is_used ctx =
     (case ctx of None \<Rightarrow> 0 | Some c \<Rightarrow> if nc_status c \<noteq> NET_CTX_STATUS_UNUSED then 1 else 0)"

section \<open>The connections\<close>

definition ctx_at :: "contexts \<Rightarrow> nat \<Rightarrow> net_ctx result" where
  "ctx_at H a = (case H a of None \<Rightarrow> Inl UseAfterFree | Some c \<Rightarrow> Inr c)"

text \<open>A function of a context, called with a pointer.\<close>

definition on_ctx :: "(net_ctx option \<Rightarrow> net_ctx option result) \<Rightarrow> nat option \<Rightarrow> net \<Rightarrow> net result" where
  "on_ctx f p N =
     (case p of None \<Rightarrow> bindr (f None) (\<lambda>_. Inr N)
      | Some a \<Rightarrow> bindr (ctx_at (nt_contexts N) a) (\<lambda>c. bindr (f (Some c)) (\<lambda>c.
                  Inr (N\<lparr>nt_contexts := (nt_contexts N)(a := c)\<rparr>))))"

definition net_connections_lock :: "net \<Rightarrow> net result" where
  "net_connections_lock N = bindr (data_table_lock (nt_connections N)) (\<lambda>t. Inr (N\<lparr>nt_connections := t\<rparr>))"

definition net_connections_unlock :: "net \<Rightarrow> net result" where
  "net_connections_unlock N = bindr (data_table_unlock (nt_connections N)) (\<lambda>t. Inr (N\<lparr>nt_connections := t\<rparr>))"

definition net_ctx_init :: "alloc \<Rightarrow> net \<Rightarrow> net" where
  "net_ctx_init A N = N\<lparr>nt_connections := data_table_create A (Some ''connections'') True\<rparr>"

text \<open>The four searches have one loop; they differ in the test of a context.\<close>

definition find_ctx :: "(net_ctx \<Rightarrow> bool result) \<Rightarrow> net \<Rightarrow> (nat option \<times> net) result" where
  "find_ctx P N =
     bindr (data_table_item_count (nt_connections N)) (\<lambda>(num_connections, t).
     let N = N\<lparr>nt_connections := t\<rparr> in
     if num_connections = 0 then Inr (None, N)
     else
       bindr (net_connections_lock N) (\<lambda>N.
       bindr (search (data_table_item_get (nt_connections N))
                (\<lambda>a. bindr (ctx_at (nt_contexts N) a) P) 0 num_connections) (\<lambda>i.
       bindr (case i of None \<Rightarrow> Inr None | Some i \<Rightarrow> data_table_item_get (nt_connections N) i) (\<lambda>ctx.
       bindr (net_connections_unlock N) (\<lambda>N. Inr (ctx, N))))))"

definition net_ctx_find_unused :: "net \<Rightarrow> (nat option \<times> net) result" where
  "net_ctx_find_unused = find_ctx (\<lambda>c. Inr (nc_status c = NET_CTX_STATUS_UNUSED))"

definition net_ctx_find_by_ssrc :: "32 word \<Rightarrow> net \<Rightarrow> (nat option \<times> net) result" where
  "net_ctx_find_by_ssrc ssrc = find_ctx (\<lambda>c. Inr (nc_status c \<noteq> NET_CTX_STATUS_UNUSED \<and> nc_ssrc c = ssrc))"

definition net_ctx_find_by_initiator :: "32 word \<Rightarrow> net \<Rightarrow> (nat option \<times> net) result" where
  "net_ctx_find_by_initiator initiator =
     find_ctx (\<lambda>c. Inr (nc_status c \<noteq> NET_CTX_STATUS_UNUSED \<and> nc_initiator c = initiator))"

definition net_ctx_find_by_name :: "bytes option \<Rightarrow> net \<Rightarrow> (nat option \<times> net) result" where
  "net_ctx_find_by_name name N =
     (case name of None \<Rightarrow> Inr (None, N)
      | Some nm \<Rightarrow>
          find_ctx (\<lambda>c. if nc_status c = NET_CTX_STATUS_UNUSED then Inr False
                        else bindr (deref (nc_name c)) (\<lambda>x. strcmp_equal x nm)) N)"

definition net_ctx_find_by_index :: "nat \<Rightarrow> net \<Rightarrow> nat option result" where
  "net_ctx_find_by_index index N = data_table_item_get (nt_connections N) index"

definition net_ctx_get_num_connections :: "net \<Rightarrow> (nat \<times> net) result" where
  "net_ctx_get_num_connections N =
     bindr (data_table_item_count (nt_connections N)) (\<lambda>(n, t). Inr (n, N\<lparr>nt_connections := t\<rparr>))"

definition net_ctx_add :: "alloc \<Rightarrow> nat option \<Rightarrow> net \<Rightarrow> net result" where
  "net_ctx_add A ctx N =
     bindr (on_ctx (\<lambda>p. bindr (net_ctx_lock p) (\<lambda>p.
       net_ctx_unlock (map_option (\<lambda>c. c\<lparr>nc_status := NET_CTX_STATUS_IDLE\<rparr>) p))) ctx N) (\<lambda>N.
     bindr (data_table_add_item A (nt_connections N) ctx) (\<lambda>(_, t). Inr (N\<lparr>nt_connections := t\<rparr>)))"

definition net_ctx_register ::
    "env \<Rightarrow> 32 word \<Rightarrow> 32 word \<Rightarrow> bytes option \<Rightarrow> 16 word \<Rightarrow> bytes option \<Rightarrow> net \<Rightarrow> (nat option \<times> net) result" where
  "net_ctx_register E ssrc initiator ip_address port name N =
     bindr (net_ctx_find_by_ssrc ssrc N) (\<lambda>(found, N).
     if found \<noteq> None then Inr (found, N)
     else
       bindr (net_ctx_find_unused N) (\<lambda>(unused, N).
       bindr (case unused of Some a \<Rightarrow> Inr (Some a, N)
              | None \<Rightarrow> bindr (net_ctx_create E) (\<lambda>c.
                  case c of None \<Rightarrow> Inr (None, N)
                  | Some c \<Rightarrow> Inr (Some (en_address E), N\<lparr>nt_contexts := (nt_contexts N)(en_address E \<mapsto> c)\<rparr>)))
         (\<lambda>(new_ctx, N).
       if new_ctx = None then Inr (None, N)
       else
         bindr (on_ctx (\<lambda>p. net_ctx_set E p ssrc initiator (en_random E 0) port ip_address name) new_ctx N) (\<lambda>N.
         bindr (if unused = None then net_ctx_add (en_alloc E) new_ctx N else Inr N) (\<lambda>N.
         Inr (new_ctx, N))))))"

text \<open>The end of the program destroys the contexts of the table one after the other.\<close>

fun destroy_contexts :: "nat \<Rightarrow> nat \<Rightarrow> net \<Rightarrow> net result" where
  "destroy_contexts i 0 N = Inr N"
| "destroy_contexts i (Suc n) N =
     bindr (data_table_item_get (nt_connections N) i) (\<lambda>p.
     bindr (case p of None \<Rightarrow> Inr N
            | Some a \<Rightarrow> on_ctx (\<lambda>c. bindr (net_ctx_destroy (Some c)) (\<lambda>q. Inr (case q of None \<Rightarrow> None | Some c \<Rightarrow> c)))
                         (Some a) N) (\<lambda>N.
     destroy_contexts (Suc i) n N))"

definition net_ctx_teardown :: "net \<Rightarrow> net result" where
  "net_ctx_teardown N =
     (case nt_connections N of None \<Rightarrow> Inr N
      | Some t \<Rightarrow>
          bindr (net_connections_lock N) (\<lambda>N.
          bindr (destroy_contexts 0 (dt_count t) N) (\<lambda>N.
          bindr (net_connections_unlock N) (\<lambda>N. Inr (N\<lparr>nt_connections := None\<rparr>)))))"

section \<open>Well-formed contexts\<close>

text \<open>The parser of a connection between two packets: nothing unread, and room for any of them.\<close>

definition parser_empty :: "midi_state option \<Rightarrow> bool" where
  "parser_empty s \<longleftrightarrow> (\<exists>st. s = Some st \<and> parser_wf st \<and> ring_contents (ms_ring st) = [] \<and>
     NET_SOCKET_DEFAULT_RING_BUFFER \<le> ring_capacity (ms_ring st))"

definition ctx_wf :: "net_ctx \<Rightarrow> bool" where
  "ctx_wf c \<longleftrightarrow> \<not> nc_held c \<and>
     (case nc_journal c of None \<Rightarrow> True | Some j \<Rightarrow> journal_wf j) \<and>
     parser_empty (nc_midi_state c) \<and>
     length (nc_control_address c) = SOCKADDR_STORAGE_SIZE \<and> nc_control_address_len c \<le> SOCKADDR_STORAGE_SIZE \<and>
     length (nc_data_address c) = SOCKADDR_STORAGE_SIZE \<and> nc_data_address_len c \<le> SOCKADDR_STORAGE_SIZE \<and>
     (case nc_name c of None \<Rightarrow> True | Some n \<Rightarrow> 0 \<in> set n)"

text \<open>What \<^verbatim>\<open>getaddrinfo\<close> promises: an address that fits \<^verbatim>\<open>struct sockaddr_storage\<close>.\<close>

definition resolver_ok :: "resolver \<Rightarrow> bool" where
  "resolver_ok resolve \<longleftrightarrow> (\<forall>ip port family addr. resolve ip port = Some (family, addr) \<longrightarrow> length addr \<le> SOCKADDR_STORAGE_SIZE)"

definition env_ok :: "env \<Rightarrow> bool" where
  "env_ok E \<longleftrightarrow> en_alloc E = mem_ok \<and> resolver_ok (en_resolve E) \<and> config_ok (en_config E)"

definition cstring_ok :: "bytes option \<Rightarrow> bool" where
  "cstring_ok s \<longleftrightarrow> (case s of None \<Rightarrow> True | Some b \<Rightarrow> 0 \<in> set b)"

lemma utils_strdup_ok:
  "cstring_ok s \<Longrightarrow> utils_strdup True s = Inr (map_option (\<lambda>b. c_string b @ [0]) s)"
  by (cases s) (auto simp: utils_strdup_def cstring_ok_def)

lemma strcmp_equal_ok:
  "0 \<in> set a \<Longrightarrow> 0 \<in> set b \<Longrightarrow> strcmp_equal a b = Inr (c_string a = c_string b)"
  by (induction a b rule: strcmp_equal.induct) (auto simp: c_string_def)

lemma midi_state_reset_ok:
  assumes "parser_wf st"
  shows "\<exists>st'. midi_state_reset mem_ok (Some st) = Inr (Some st') \<and> parser_wf st' \<and>
    ring_contents (ms_ring st') = [] \<and> ring_capacity (ms_ring st') = ring_capacity (ms_ring st) \<and> ms_status st' = MIDI_STATE_INIT"
proof -
  from assms have wf: "ring_wf (ms_ring st)" "dbuffer_wf (ms_hold st)" "\<not> ms_held st"
    by (simp_all add: parser_wf_def)
  from wf(1) obtain r where r: "ms_ring st = Some r" by (cases "ms_ring st") auto
  from wf(1) have "0 < ring_capacity (ms_ring st)" unfolding r by simp
  from ring_buffer_reset_ok [OF wf(1) this, of mem_ok] obtain p' where
    p': "ring_buffer_reset mem_ok (ms_ring st) (ring_capacity (ms_ring st)) = Inr p'" "ring_wf p'" "ring_contents p' = []"
      "ring_capacity p' = ring_capacity (ms_ring st)"
    by auto
  with r wf dbuffer_reset_ok [OF wf(2)] ring_buffer_get_size_ok [OF wf(1)] show ?thesis
    by (simp add: midi_state_reset_def midi_state_lock_def midi_state_unlock_def parser_wf_def parser_marked_def Let_def)
qed

lemma channel_journal_reset_ok:
  assumes "channel_wf c"
  shows "\<exists>c'. channel_journal_reset (Some c) = Inr (Some c') \<and> channel_wf c'"
proof -
  from assms obtain h where h: "cj_header c = Some h" by (auto simp: channel_wf_def)
  have "\<exists>n'. chapter_n_reset (cj_chapter_n c) = Inr n' \<and> (case n' of None \<Rightarrow> True | Some x \<Rightarrow> chapter_n_wf x)"
    using assms chapter_n_reset_ok by (cases "cj_chapter_n c") (fastforce simp: channel_wf_def chapter_n_reset_def)+
  moreover have "chapter_c_reset (cj_chapter_c c) = Some y \<Longrightarrow> chapter_c_wf y" for y
    by (cases "cj_chapter_c c") (auto simp: chapter_c_reset_def chapter_c_wf_def MAX_CHAPTER_C_CONTROLLERS_def)
  ultimately show ?thesis
    using h by (auto simp: channel_journal_reset_def channel_header_reset_def channel_wf_def split: option.splits)
qed

lemma journal_reset_channels_ok:
  assumes "\<forall>c. Some c \<in> set chs \<longrightarrow> channel_wf c"
  shows "\<exists>chs'. journal_reset_channels chs = Inr chs' \<and> length chs' = length chs \<and> (\<forall>c. Some c \<in> set chs' \<longrightarrow> channel_wf c)"
  using assms
proof (induction chs)
  case (Cons ch chs)
  have "\<exists>c'. channel_journal_reset ch = Inr c' \<and> (\<forall>x. c' = Some x \<longrightarrow> channel_wf x)"
    using Cons.prems channel_journal_reset_ok by (cases ch) (fastforce simp: channel_journal_reset_def)+
  with Cons show ?case by fastforce
qed simp

lemma journal_reset_ok:
  assumes "journal_wf j"
  shows "\<exists>j'. journal_reset (Some j) = Inr (Some j') \<and> journal_wf j' \<and> \<not> journal_has_data (Some j')"
proof -
  from assms have "\<forall>c. Some c \<in> set (jn_channels j) \<longrightarrow> channel_wf c" by (simp add: journal_wf_def)
  from journal_reset_channels_ok [OF this] assms show ?thesis
    by (fastforce simp: journal_reset_def journal_wf_def journal_header_reset_def journal_has_data_def)
qed

section \<open>Operations on well-formed contexts\<close>

lemma locked_ok:
  assumes "\<not> nc_held c" "f (c\<lparr>nc_held := True\<rparr>) = Inr (x, c')" "nc_held c'"
  shows "locked f c = Inr (x, c'\<lparr>nc_held := False\<rparr>)"
  using assms by (simp add: locked_def net_ctx_lock_def net_ctx_unlock_def)

lemma journal_ctx_reset_ok:
  assumes "ctx_wf c"
  shows "\<exists>j. net_ctx_journal_reset (Some c) = Inr (Some (c\<lparr>nc_journal := j\<rparr>)) \<and> ctx_wf (c\<lparr>nc_journal := j\<rparr>) \<and>
    \<not> journal_has_data j"
proof -
  have "\<exists>j. journal_reset (nc_journal c) = Inr j \<and> (case j of None \<Rightarrow> True | Some j \<Rightarrow> journal_wf j) \<and> \<not> journal_has_data j"
    using assms journal_reset_ok
    by (cases "nc_journal c") (fastforce simp: ctx_wf_def journal_reset_def journal_has_data_def)+
  then obtain j where j: "journal_reset (nc_journal c) = Inr j" "case j of None \<Rightarrow> True | Some j \<Rightarrow> journal_wf j"
    "\<not> journal_has_data j" by blast
  have "\<not> nc_held c" using assms by (simp add: ctx_wf_def)
  with j assms show ?thesis
    by (intro exI [of _ j]) (cases c, simp add: net_ctx_journal_reset_def locked_def net_ctx_lock_def net_ctx_unlock_def ctx_wf_def)
qed

lemma reset_midi_state_ok:
  assumes "ctx_wf c"
  shows "\<exists>s. midi_state_reset mem_ok (nc_midi_state c) = Inr s \<and> parser_empty s"
proof -
  from assms obtain st where st: "nc_midi_state c = Some st" "parser_wf st"
    "NET_SOCKET_DEFAULT_RING_BUFFER \<le> ring_capacity (ms_ring st)"
    by (auto simp: ctx_wf_def parser_empty_def)
  from midi_state_reset_ok [OF st(2)] st(1,3) show ?thesis by (auto simp: parser_empty_def)
qed

lemma net_ctx_reset_ok:
  assumes "ctx_wf c" "en_alloc E = mem_ok"
  shows "\<exists>c'. net_ctx_reset E (Some c) = Inr (Some c') \<and> ctx_wf c' \<and> nc_status c' = NET_CTX_STATUS_UNUSED \<and>
    nc_seq c' = 1 \<and> nc_control_address_len c' = 0 \<and> nc_data_address_len c' = 0 \<and> nc_ssrc c' = nc_ssrc c \<and>
    \<not> journal_has_data (nc_journal c')"
proof -
  from journal_ctx_reset_ok [OF assms(1)] obtain j where j: "net_ctx_journal_reset (Some c) = Inr (Some (c\<lparr>nc_journal := j\<rparr>))"
    "ctx_wf (c\<lparr>nc_journal := j\<rparr>)" "\<not> journal_has_data j" by blast
  from reset_midi_state_ok [OF j(2)] obtain st where
    "midi_state_reset mem_ok (nc_midi_state c) = Inr st" "parser_empty st" by auto
  with j assms show ?thesis
    by (auto simp: net_ctx_reset_def locked_def net_ctx_lock_def net_ctx_unlock_def ctx_wf_def Let_def)
qed

text \<open>The address of a socket after \<^verbatim>\<open>get_sock_info\<close>, and what setting a context leaves in it.\<close>

definition sock_address :: "resolver \<Rightarrow> bytes option \<Rightarrow> 16 word \<Rightarrow> bytes" where
  "sock_address resolve ip port =
     (case ip of None \<Rightarrow> [] | Some b \<Rightarrow> (case resolve (c_string b) (uint port) of None \<Rightarrow> [] | Some (_, addr) \<Rightarrow> addr))"

lemma get_sock_info_ok:
  assumes "resolver_ok resolve" "0 \<in> set b"
  shows "\<exists>r m. get_sock_info resolve (Some (c_string b @ [0])) (uint (port :: 16 word)) (Some (replicate SOCKADDR_STORAGE_SIZE 0)) (Some 0) None =
      Inr (r, Some m, Some (length (sock_address resolve (Some b) port)), None) \<and>
    length m = SOCKADDR_STORAGE_SIZE \<and> length (sock_address resolve (Some b) port) \<le> SOCKADDR_STORAGE_SIZE \<and>
    take (length (sock_address resolve (Some b) port)) m = sock_address resolve (Some b) port"
proof -
  have s: "c_string (c_string b @ [0]) = c_string b" by (rule c_string_append [OF c_string_no_0])
  show ?thesis
  proof (cases "resolve (c_string b) (uint port)")
    case None
    with s show ?thesis by (simp add: get_sock_info_def sock_address_def)
  next
    case (Some r)
    obtain fam addr where r: "r = (fam, addr)" by (cases r)
    with Some assms(1) have "length addr \<le> 128" by (auto simp: resolver_ok_def)
    with Some r s show ?thesis by (auto simp: get_sock_info_def sock_address_def)
  qed
qed

definition ctx_set_to :: "env \<Rightarrow> 32 word \<Rightarrow> 32 word \<Rightarrow> bytes option \<Rightarrow> 16 word \<Rightarrow> bytes option \<Rightarrow> net_ctx \<Rightarrow> bool" where
  "ctx_set_to E ssrc initiator ip port name c \<longleftrightarrow>
     nc_status c = NET_CTX_STATUS_IDLE \<and> nc_ssrc c = ssrc \<and> nc_initiator c = initiator \<and>
     nc_send_ssrc c = en_random E 0 \<and> nc_control_port c = port \<and> nc_data_port c = port + 1 \<and>
     nc_start c = en_now E \<and> nc_name c = map_option (\<lambda>b. c_string b @ [0]) name \<and>
     take (nc_control_address_len c) (nc_control_address c) = sock_address (en_resolve E) ip port \<and>
     take (nc_data_address_len c) (nc_data_address c) = sock_address (en_resolve E) ip (port + 1)"

lemma net_ctx_set_ok:
  assumes "ctx_wf c" "env_ok E" "cstring_ok ip" "cstring_ok name"
  shows "\<exists>c'. net_ctx_set E (Some c) ssrc initiator (en_random E 0) port ip name = Inr (Some c') \<and> ctx_wf c' \<and>
    ctx_set_to E ssrc initiator ip port name c' \<and> nc_seq c' = nc_seq c \<and> nc_journal c' = nc_journal c"
proof -
  from assms(2) have E: "en_alloc E = mem_ok" "resolver_ok (en_resolve E)" by (simp_all add: env_ok_def)
  from reset_midi_state_ok [OF assms(1)] obtain st where
    st: "midi_state_reset mem_ok (nc_midi_state c) = Inr st" "parser_empty st" by blast
  have n: "case map_option (\<lambda>b. c_string b @ [0]) name of None \<Rightarrow> True | Some n \<Rightarrow> 0 \<in> set n"
    by (cases name) simp_all
  show ?thesis
  proof (cases ip)
    case None
    with assms(1) E st n utils_strdup_ok [OF assms(4)] show ?thesis
      by (simp add: net_ctx_set_def net_ctx_lock_def net_ctx_unlock_def Let_def utils_strdup_def ctx_wf_def
          ctx_set_to_def sock_address_def)
  next
    case (Some b)
    with assms(3) have b: "0 \<in> set b" by (simp add: cstring_ok_def)
    from get_sock_info_ok [OF E(2) b, of port] obtain r m where
      m: "get_sock_info (en_resolve E) (Some (c_string b @ [0])) (uint port) (Some (replicate SOCKADDR_STORAGE_SIZE 0)) (Some 0) None =
        Inr (r, Some m, Some (length (sock_address (en_resolve E) ip port)), None)"
      "length m = SOCKADDR_STORAGE_SIZE" "length (sock_address (en_resolve E) ip port) \<le> SOCKADDR_STORAGE_SIZE"
      "take (length (sock_address (en_resolve E) ip port)) m = sock_address (en_resolve E) ip port"
      unfolding Some by blast
    from get_sock_info_ok [OF E(2) b, of "port + 1"] obtain r' m' where
      m': "get_sock_info (en_resolve E) (Some (c_string b @ [0])) (uint (port + 1)) (Some (replicate SOCKADDR_STORAGE_SIZE 0)) (Some 0) None =
        Inr (r', Some m', Some (length (sock_address (en_resolve E) ip (port + 1))), None)"
      "length m' = SOCKADDR_STORAGE_SIZE" "length (sock_address (en_resolve E) ip (port + 1)) \<le> SOCKADDR_STORAGE_SIZE"
      "take (length (sock_address (en_resolve E) ip (port + 1))) m' = sock_address (en_resolve E) ip (port + 1)"
      unfolding Some by blast
    note sizes = SOCKADDR_STORAGE_SIZE_def
    from Some b have dup: "utils_strdup True ip = Inr (Some (c_string b @ [0]))" by (simp add: utils_strdup_def)
    show ?thesis
      using assms(1) E st n m m' dup utils_strdup_ok [OF assms(4)]
      by (simp add: net_ctx_set_def net_ctx_lock_def net_ctx_unlock_def Let_def ctx_wf_def ctx_set_to_def del: sizes)
  qed
qed

lemma net_ctx_create_ok:
  assumes "env_ok E"
  shows "\<exists>c. net_ctx_create E = Inr (Some c) \<and> ctx_wf c \<and> nc_status c = NET_CTX_STATUS_UNUSED \<and> nc_seq c = 1 \<and>
    \<not> journal_has_data (nc_journal c)"
proof -
  from assms have E: "en_alloc E = mem_ok" "config_ok (en_config E)" by (simp_all add: env_ok_def)
  from config_int_get_ok [OF E(2)] obtain v where v: "config_int_get (en_config E) (Some ''read.ring_buffer_size'') = Inr v"
    by blast
  from journal_init_ok [of mem_ok] obtain j where
    j: "journal_init mem_ok = (0, Some j)" "journal_wf j" "\<not> journal_has_data (Some j)"
    by (auto simp: journal_has_data_def)
  have "0 < max NET_SOCKET_DEFAULT_RING_BUFFER (nat (v mod 2 ^ 64))" by simp
  from midi_state_create_ok [OF this, of mem_ok "en_junk E" False] obtain st where
    "midi_state_create mem_ok (en_junk E) (max NET_SOCKET_DEFAULT_RING_BUFFER (nat (v mod 2 ^ 64))) = Inr (Some st)"
    "parser_empty (Some st)" unfolding parser_empty_def by auto
  with E v j show ?thesis
    by (simp add: net_ctx_create_def ctx_wf_def del: NET_SOCKET_DEFAULT_RING_BUFFER_def)
qed

section \<open>Well-formed connections\<close>

text \<open>The addresses in the table, in order, and the context at an address of the table.\<close>

definition addresses :: "net \<Rightarrow> nat list" where
  "addresses N = (case nt_connections N of None \<Rightarrow> [] | Some t \<Rightarrow> table_list t)"

definition context_of :: "net \<Rightarrow> nat \<Rightarrow> net_ctx" where
  "context_of N a = the (nt_contexts N a)"

definition net_wf :: "net \<Rightarrow> bool" where
  "net_wf N \<longleftrightarrow> (\<exists>t. nt_connections N = Some t \<and> table_wf t) \<and> distinct (addresses N) \<and>
     dom (nt_contexts N) = set (addresses N) \<and> (\<forall>a\<in>set (addresses N). ctx_wf (context_of N a))"

lemma net_wf_context: "net_wf N \<Longrightarrow> a \<in> set (addresses N) \<Longrightarrow> nt_contexts N a = Some (context_of N a)"
  using domD [of a "nt_contexts N"] by (auto simp: net_wf_def context_of_def)

lemma net_wf_no_context: "net_wf N \<Longrightarrow> a \<notin> set (addresses N) \<Longrightarrow> nt_contexts N a = None"
  by (auto simp: net_wf_def dom_def)

lemma table_locked_ok: "table_ok t \<Longrightarrow> table_ok (t\<lparr>dt_held := b\<rparr>) \<and> table_list (t\<lparr>dt_held := b\<rparr>) = table_list t"
  by (auto simp: table_ok_def table_list_def split: option.splits)

lemma find_result_cong: "(\<And>x. x \<in> set xs \<Longrightarrow> P x = P' x) \<Longrightarrow> find_result P xs = find_result P' xs"
  by (induction xs) (auto cong: if_cong)

lemma find_ctx_result:
  assumes wf: "net_wf N"
  shows "find_ctx P N = bindr (find_result (\<lambda>a. P (context_of N a)) (addresses N)) (\<lambda>p. Inr (p, N))"
proof -
  from wf obtain t where t: "nt_connections N = Some t" "table_wf t" by (auto simp: net_wf_def)
  then have ad: "addresses N = table_list t" and free: "\<not> dt_held t" by (simp_all add: addresses_def table_wf_def)
  let ?t = "t\<lparr>dt_held := True\<rparr>"
  let ?P = "\<lambda>a. bindr (ctx_at (nt_contexts N) a) P"
  let ?s = "search (data_table_item_get (Some ?t)) ?P 0 (length (table_list t))"
  have ok: "table_ok ?t" "table_list ?t = table_list t"
    using t(2) table_locked_ok [of t True] by (simp_all add: table_wf_def)
  have "find_result ?P (table_list t) = find_result (\<lambda>a. P (context_of N a)) (addresses N)"
    unfolding ad [symmetric] by (rule find_result_cong) (simp add: ctx_at_def net_wf_context [OF wf])
  with tab.search_all [OF ok(1), of ?P] ok(2)
  have s: "bindr ?s (\<lambda>i. case i of None \<Rightarrow> Inr None | Some i \<Rightarrow> data_table_item_get (Some ?t) i) =
      find_result (\<lambda>a. P (context_of N a)) (addresses N)" by simp
  have "find_ctx P N = bindr (bindr ?s (\<lambda>i. case i of None \<Rightarrow> Inr None | Some i \<Rightarrow> data_table_item_get (Some ?t) i))
      (\<lambda>p. Inr (p, N))"
  proof (cases "table_list t = []")
    case True
    with t show ?thesis by (cases N) (simp add: find_ctx_def table_count Let_def)
  next
    case False
    with t free show ?thesis
      by (cases N; cases t) (simp add: find_ctx_def table_count net_connections_lock_def net_connections_unlock_def
          data_table_lock_def data_table_unlock_def Let_def bindr_assoc cong: option.case_cong)
  qed
  then show ?thesis unfolding s .
qed

lemma find_ctx_ok:
  assumes "net_wf N" "\<And>a. a \<in> set (addresses N) \<Longrightarrow> P (context_of N a) = Inr (Q a)"
  shows "find_ctx P N = Inr (List.find Q (addresses N), N)"
  using find_result_find [of "addresses N" "\<lambda>a. P (context_of N a)" Q] assms(2)
  by (simp add: find_ctx_result [OF assms(1)])

text \<open>What the searches promise.\<close>

definition used_with_ssrc :: "net \<Rightarrow> 32 word \<Rightarrow> nat \<Rightarrow> bool" where
  "used_with_ssrc N ssrc a \<longleftrightarrow> nc_status (context_of N a) \<noteq> NET_CTX_STATUS_UNUSED \<and> nc_ssrc (context_of N a) = ssrc"

definition peer :: "net \<Rightarrow> 32 word \<Rightarrow> nat option" where
  "peer N ssrc = List.find (used_with_ssrc N ssrc) (addresses N)"

lemma find_by_ssrc_ok: "net_wf N \<Longrightarrow> net_ctx_find_by_ssrc ssrc N = Inr (peer N ssrc, N)"
  unfolding net_ctx_find_by_ssrc_def peer_def by (rule find_ctx_ok) (simp_all add: used_with_ssrc_def)

lemma find_unused_ok: "net_wf N \<Longrightarrow> net_ctx_find_unused N =
    Inr (List.find (\<lambda>a. nc_status (context_of N a) = NET_CTX_STATUS_UNUSED) (addresses N), N)"
  unfolding net_ctx_find_unused_def by (rule find_ctx_ok) simp_all

lemma find_by_initiator_ok: "net_wf N \<Longrightarrow> net_ctx_find_by_initiator i N =
    Inr (List.find (\<lambda>a. nc_status (context_of N a) \<noteq> NET_CTX_STATUS_UNUSED \<and> nc_initiator (context_of N a) = i) (addresses N), N)"
  unfolding net_ctx_find_by_initiator_def by (rule find_ctx_ok) simp_all

text \<open>Writing a context that is in the table.\<close>

lemma context_update:
  assumes wf: "net_wf N" and a: "a \<in> set (addresses N)" and c: "ctx_wf c"
  defines "N1 \<equiv> N\<lparr>nt_contexts := (nt_contexts N)(a \<mapsto> c)\<rparr>"
  shows "net_wf N1" "addresses N1 = addresses N" "context_of N1 = (context_of N)(a := c)"
proof -
  show ad: "addresses N1 = addresses N" by (simp add: N1_def addresses_def)
  show cx: "context_of N1 = (context_of N)(a := c)" by (simp add: N1_def context_of_def fun_eq_iff)
  have "dom (nt_contexts N1) = dom (nt_contexts N)" using net_wf_context [OF wf a] by (auto simp: N1_def)
  moreover have "nt_connections N1 = nt_connections N" by (simp add: N1_def)
  ultimately show "net_wf N1" using wf c unfolding net_wf_def ad cx by simp
qed

lemma on_ctx_ok:
  assumes wf: "net_wf N" and a: "a \<in> set (addresses N)" and f: "f (Some (context_of N a)) = Inr (Some c)" "ctx_wf c"
  shows "\<exists>N'. on_ctx f (Some a) N = Inr N' \<and> net_wf N' \<and> addresses N' = addresses N \<and>
    context_of N' = (context_of N)(a := c)"
proof -
  have "on_ctx f (Some a) N = Inr (N\<lparr>nt_contexts := (nt_contexts N)(a \<mapsto> c)\<rparr>)"
    using f(1) net_wf_context [OF wf a] by (simp add: on_ctx_def ctx_at_def)
  with context_update [OF wf a f(2)] show ?thesis by blast
qed

text \<open>No two connections in use have the same SSRC.\<close>

definition ssrc_unique :: "net \<Rightarrow> bool" where
  "ssrc_unique N \<longleftrightarrow> (\<forall>a\<in>set (addresses N). \<forall>b\<in>set (addresses N).
     used_with_ssrc N (nc_ssrc (context_of N a)) a \<longrightarrow> used_with_ssrc N (nc_ssrc (context_of N a)) b \<longrightarrow> a = b)"

lemma peer_None: "peer N ssrc = None \<longleftrightarrow> (\<forall>a\<in>set (addresses N). \<not> used_with_ssrc N ssrc a)"
  by (auto simp: peer_def find_None_iff)

lemma peer_Some: "peer N ssrc = Some a \<Longrightarrow> a \<in> set (addresses N) \<and> used_with_ssrc N ssrc a"
  unfolding peer_def find_Some_iff by auto

lemma peer_unique: "ssrc_unique N \<Longrightarrow> a \<in> set (addresses N) \<Longrightarrow> used_with_ssrc N ssrc a \<Longrightarrow> peer N ssrc = Some a"
  using peer_None [of N ssrc] peer_Some [of N ssrc]
  by (cases "peer N ssrc") (fastforce simp: ssrc_unique_def used_with_ssrc_def)+

text \<open>Going through the table by index.\<close>

lemma num_connections_ok: "net_wf N \<Longrightarrow> net_ctx_get_num_connections N = Inr (length (addresses N), N)"
  by (cases N) (auto simp: net_wf_def net_ctx_get_num_connections_def table_count addresses_def)

lemma find_by_index_ok:
  "net_wf N \<Longrightarrow> net_ctx_find_by_index i N = Inr (if i < length (addresses N) then Some (addresses N ! i) else None)"
  by (auto simp: net_wf_def net_ctx_find_by_index_def table_slot table_wf_def addresses_def)

section \<open>Registering\<close>

text \<open>Appending a context to the table.\<close>

lemma net_ctx_add_ok:
  assumes wf: "net_wf N" and fresh: "a \<notin> set (addresses N)" and c: "ctx_wf c"
  shows "\<exists>N'. net_ctx_add mem_ok (Some a) (N\<lparr>nt_contexts := (nt_contexts N)(a \<mapsto> c)\<rparr>) = Inr N' \<and> net_wf N' \<and>
    addresses N' = addresses N @ [a] \<and> context_of N' = (context_of N)(a := c\<lparr>nc_status := NET_CTX_STATUS_IDLE\<rparr>)"
proof -
  from wf obtain t where t: "nt_connections N = Some t" "table_wf t" by (auto simp: net_wf_def)
  then have ad: "addresses N = table_list t" by (simp add: addresses_def)
  from table_add [OF t(2), of a] obtain t' where t': "data_table_add_item mem_ok (Some t) (Some a) = Inr (1, Some t')"
    "table_wf t'" "table_list t' = table_list t @ [a]" by blast
  let ?c = "c\<lparr>nc_status := NET_CTX_STATUS_IDLE\<rparr>"
  let ?N = "N\<lparr>nt_connections := Some t', nt_contexts := (nt_contexts N)(a \<mapsto> ?c)\<rparr>"
  have "\<not> nc_held c" using c by (simp add: ctx_wf_def)
  then have "c\<lparr>nc_held := False, nc_status := s\<rparr> = c\<lparr>nc_status := s\<rparr>" for s by (cases c) simp
  with \<open>\<not> nc_held c\<close> t t' have "net_ctx_add mem_ok (Some a) (N\<lparr>nt_contexts := (nt_contexts N)(a \<mapsto> c)\<rparr>) = Inr ?N"
    by (cases N; cases c) (simp add: net_ctx_add_def on_ctx_def ctx_at_def net_ctx_lock_def net_ctx_unlock_def)
  moreover have "addresses ?N = addresses N @ [a]" using t'(3) ad by (simp add: addresses_def)
  moreover have cx: "context_of ?N = (context_of N)(a := ?c)" by (simp add: context_of_def fun_eq_iff)
  moreover have "net_wf ?N"
  proof -
    have "dom (nt_contexts ?N) = insert a (set (addresses N))" using wf by (simp add: net_wf_def)
    moreover have "ctx_wf ?c" using c by (simp add: ctx_wf_def)
    ultimately show ?thesis
      using wf fresh t'(2) \<open>addresses ?N = addresses N @ [a]\<close> unfolding net_wf_def cx by auto
  qed
  ultimately show ?thesis by blast
qed

text \<open>A registration under a new SSRC takes an unused context if there is one, else a new one, and
  changes no other.\<close>

definition reused :: "net \<Rightarrow> nat option" where
  "reused N = List.find (\<lambda>a. nc_status (context_of N a) = NET_CTX_STATUS_UNUSED) (addresses N)"

lemma reused_Some: "reused N = Some a \<Longrightarrow> a \<in> set (addresses N) \<and> nc_status (context_of N a) = NET_CTX_STATUS_UNUSED"
  by (auto simp: reused_def find_Some_iff)

lemma net_ctx_register_ok:
  assumes wf: "net_wf N" and E: "env_ok E" and s: "cstring_ok ip" "cstring_ok name" and fresh: "en_address E \<notin> set (addresses N)"
    and new: "peer N ssrc = None"
  shows "\<exists>N' a c. net_ctx_register E ssrc initiator ip port name N = Inr (Some a, N') \<and> net_wf N' \<and>
    a = (case reused N of Some a \<Rightarrow> a | None \<Rightarrow> en_address E) \<and>
    addresses N' = (case reused N of Some _ \<Rightarrow> addresses N | None \<Rightarrow> addresses N @ [a]) \<and>
    context_of N' = (context_of N)(a := c) \<and> ctx_set_to E ssrc initiator ip port name c"
proof (cases "reused N")
  case (Some a)
  then have a: "a \<in> set (addresses N)" by (auto simp: reused_def find_Some_iff)
  with wf have "ctx_wf (context_of N a)" by (simp add: net_wf_def)
  from net_ctx_set_ok [OF this E s, of ssrc initiator port] obtain c where
    c: "net_ctx_set E (Some (context_of N a)) ssrc initiator (en_random E 0) port ip name = Inr (Some c)"
      "ctx_wf c" "ctx_set_to E ssrc initiator ip port name c" by blast
  from on_ctx_ok [where f = "\<lambda>p. net_ctx_set E p ssrc initiator (en_random E 0) port ip name", OF wf a c(1,2)]
    c(3) new Some find_unused_ok [OF wf] find_by_ssrc_ok [OF wf, of ssrc] show ?thesis
    by (auto simp: net_ctx_register_def reused_def [symmetric])
next
  case None
  from net_ctx_create_ok [OF E] obtain c0 where c0: "net_ctx_create E = Inr (Some c0)" "ctx_wf c0" by blast
  from net_ctx_set_ok [OF c0(2) E s, of ssrc initiator port] obtain c where
    c: "net_ctx_set E (Some c0) ssrc initiator (en_random E 0) port ip name = Inr (Some c)"
      "ctx_wf c" "ctx_set_to E ssrc initiator ip port name c" by blast
  let ?a = "en_address E"
  have on: "on_ctx (\<lambda>p. net_ctx_set E p ssrc initiator (en_random E 0) port ip name) (Some ?a)
      (N\<lparr>nt_contexts := (nt_contexts N)(?a \<mapsto> c0)\<rparr>) = Inr (N\<lparr>nt_contexts := (nt_contexts N)(?a \<mapsto> c)\<rparr>)"
    using c(1) by (simp add: on_ctx_def ctx_at_def)
  from c(3) have "c\<lparr>nc_status := NET_CTX_STATUS_IDLE\<rparr> = c" by (cases c) (simp add: ctx_set_to_def)
  with net_ctx_add_ok [OF wf fresh c(2)] obtain N' where
    "net_ctx_add mem_ok (Some ?a) (N\<lparr>nt_contexts := (nt_contexts N)(?a \<mapsto> c)\<rparr>) = Inr N'" "net_wf N'"
    "addresses N' = addresses N @ [?a]" "context_of N' = (context_of N)(?a := c)" by auto
  with None on c c0 new E find_unused_ok [OF wf] find_by_ssrc_ok [OF wf, of ssrc] show ?thesis
    by (auto simp: net_ctx_register_def reused_def [symmetric] env_ok_def)
qed

text \<open>A registration under an SSRC in use finds it.\<close>

lemma net_ctx_register_known:
  "net_wf N \<Longrightarrow> peer N ssrc = Some a \<Longrightarrow> net_ctx_register E ssrc initiator ip port name N = Inr (Some a, N)"
  by (simp add: net_ctx_register_def find_by_ssrc_ok)

lemma peer_iff: "ssrc_unique N \<Longrightarrow> peer N s = Some a \<longleftrightarrow> a \<in> set (addresses N) \<and> used_with_ssrc N s a"
  using peer_Some [of N s a] peer_unique [of N a s] by blast

lemma ssrc_unique_eq:
  "ssrc_unique N \<Longrightarrow> a \<in> set (addresses N) \<Longrightarrow> b \<in> set (addresses N) \<Longrightarrow> used_with_ssrc N s a \<Longrightarrow>
     used_with_ssrc N s b \<Longrightarrow> a = b"
  using peer_unique [of N a s] peer_unique [of N b s] by simp

lemma option_eqI: "(\<And>x. p = Some x \<longleftrightarrow> q = Some x) \<Longrightarrow> p = q"
  by (cases p; cases q) auto

text \<open>What a context written at an address does to the peers.\<close>

lemma peer_put:
  assumes u: "ssrc_unique N" and ad: "set (addresses N') = insert a (set (addresses N))"
    and cx: "context_of N' = (context_of N)(a := c)" and c: "nc_status c \<noteq> NET_CTX_STATUS_UNUSED"
    and free: "a \<in> set (addresses N) \<Longrightarrow> nc_status (context_of N a) = NET_CTX_STATUS_UNUSED" and new: "peer N (nc_ssrc c) = None"
  shows "ssrc_unique N'" "peer N' s = (if s = nc_ssrc c then Some a else peer N s)"
proof -
  have w: "used_with_ssrc N' s b \<longleftrightarrow> (if b = a then s = nc_ssrc c else used_with_ssrc N s b)" for s b
    using c by (auto simp: used_with_ssrc_def cx)
  have n: "\<not> used_with_ssrc N (nc_ssrc c) b" if "b \<in> set (addresses N)" for b using new that peer_None by blast
  have na: "\<not> used_with_ssrc N s a" if "a \<in> set (addresses N)" for s using free [OF that] by (simp add: used_with_ssrc_def)
  show u': "ssrc_unique N'"
    unfolding ssrc_unique_def ad
  proof (intro ballI impI)
    fix x y assume xy: "x \<in> insert a (set (addresses N))" "y \<in> insert a (set (addresses N))"
      "used_with_ssrc N' (nc_ssrc (context_of N' x)) x" "used_with_ssrc N' (nc_ssrc (context_of N' x)) y"
    show "x = y"
    proof (cases "x = a \<or> y = a")
      case True
      with xy n show ?thesis by (auto simp: w cx) (auto simp: used_with_ssrc_def split: if_splits)
    next
      case False
      with xy u show ?thesis by (auto simp: w cx ssrc_unique_def)
    qed
  qed
  show "peer N' s = (if s = nc_ssrc c then Some a else peer N s)"
    by (rule option_eqI) (use n na in \<open>auto simp: peer_iff [OF u] peer_iff [OF u'] w ad split: if_splits\<close>)
qed

lemma peer_drop:
  assumes u: "ssrc_unique N" and ad: "addresses N' = addresses N" and cx: "context_of N' = (context_of N)(a := c)"
    and c: "nc_status c = NET_CTX_STATUS_UNUSED"
  shows "ssrc_unique N'" "peer N' s = (if peer N s = Some a then None else peer N s)"
proof -
  have w: "used_with_ssrc N' s b \<longleftrightarrow> b \<noteq> a \<and> used_with_ssrc N s b" for s b
    using c by (auto simp: used_with_ssrc_def cx)
  show u': "ssrc_unique N'"
    using u unfolding ssrc_unique_def ad by (auto simp: w cx)
  show "peer N' s = (if peer N s = Some a then None else peer N s)"
    by (rule option_eqI) (use ssrc_unique_eq [OF u] in \<open>auto simp: peer_iff [OF u] peer_iff [OF u'] w ad split: if_splits\<close>)
qed

lemma register_peers:
  assumes "ssrc_unique N" "en_address E \<notin> set (addresses N)" "peer N ssrc = None"
    and a: "a = (case reused N of Some a \<Rightarrow> a | None \<Rightarrow> en_address E)"
    and ad: "addresses N' = (case reused N of Some _ \<Rightarrow> addresses N | None \<Rightarrow> addresses N @ [a])"
    and cx: "context_of N' = (context_of N)(a := c)" and set_to: "ctx_set_to E ssrc initiator ip port name c"
  shows "ssrc_unique N'" "peer N' s = (if s = ssrc then Some a else peer N s)"
proof -
  have "set (addresses N') = insert a (set (addresses N))"
    using a ad reused_Some [of N] by (auto split: option.splits)
  moreover have "a \<in> set (addresses N) \<Longrightarrow> nc_status (context_of N a) = NET_CTX_STATUS_UNUSED"
    using a assms(2) reused_Some [of N] by (auto split: option.splits)
  moreover have "nc_status c \<noteq> NET_CTX_STATUS_UNUSED" "nc_ssrc c = ssrc" using set_to by (simp_all add: ctx_set_to_def)
  ultimately show "ssrc_unique N'" "peer N' s = (if s = ssrc then Some a else peer N s)"
    using peer_put [OF assms(1) _ cx] assms(3) by auto
qed

section \<open>Properties\<close>

text \<open>C24: Registering a peer always finds it afterwards. A peer whose SSRC is in use keeps its connection,
  and nothing changes. Any other gets the first connection that is not in use, or else a new one
  at the end of the table, which then has the given tokens and ports (data after control), the
  addresses \<^verbatim>\<open>getaddrinfo\<close> has for them, and the status idle. No other connection is touched, and no
  two connections in use share an SSRC.\<close>

theorem net_ctx_register_peer:
  assumes "net_wf N" "ssrc_unique N" "env_ok E" "cstring_ok ip" "cstring_ok name" "en_address E \<notin> set (addresses N)"
  shows "\<exists>N' a. net_ctx_register E ssrc initiator ip port name N = Inr (Some a, N') \<and> net_wf N' \<and> ssrc_unique N' \<and>
    net_ctx_find_by_ssrc ssrc N' = Inr (Some a, N') \<and>
    (\<forall>b. b \<noteq> a \<longrightarrow> context_of N' b = context_of N b) \<and> (\<forall>s. s \<noteq> ssrc \<longrightarrow> peer N' s = peer N s) \<and>
    (if peer N ssrc = Some a then N' = N
     else peer N ssrc = None \<and> ctx_set_to E ssrc initiator ip port name (context_of N' a) \<and>
       (case reused N of Some r \<Rightarrow> a = r \<and> addresses N' = addresses N
        | None \<Rightarrow> a = en_address E \<and> addresses N' = addresses N @ [a]))"
proof (cases "peer N ssrc")
  case (Some a)
  with assms net_ctx_register_known [OF assms(1) Some] find_by_ssrc_ok [OF assms(1), of ssrc] show ?thesis by auto
next
  case None
  from net_ctx_register_ok [OF assms(1,3-6) None, of initiator port] obtain N' a c where
    r: "net_ctx_register E ssrc initiator ip port name N = Inr (Some a, N')" "net_wf N'"
      "a = (case reused N of Some a \<Rightarrow> a | None \<Rightarrow> en_address E)"
      "addresses N' = (case reused N of Some _ \<Rightarrow> addresses N | None \<Rightarrow> addresses N @ [a])"
      "context_of N' = (context_of N)(a := c)" "ctx_set_to E ssrc initiator ip port name c" by blast
  from register_peers [OF assms(2,6) None r(3-6)]
  have p: "ssrc_unique N'" "\<And>s. peer N' s = (if s = ssrc then Some a else peer N s)" by simp_all
  from r p None find_by_ssrc_ok [OF r(2), of ssrc] show ?thesis
    by (intro exI [of _ N'] exI [of _ a]) (auto split: option.splits)
qed

definition net_start :: net where
  "net_start = net_ctx_init mem_ok \<lparr>nt_connections = None, nt_contexts = Map.empty\<rparr>"

lemma net_start_wf: "net_wf net_start" "ssrc_unique net_start" "addresses net_start = []"
  by (simp_all add: net_start_def net_ctx_init_def data_table_create_def net_wf_def addresses_def table_wf_def table_ok_def
      table_list_def ssrc_unique_def)

definition env_example :: env where
  "env_example = \<lparr>en_alloc = mem_ok, en_now = 1000, en_random = (\<lambda>_. 77), en_address = 3, en_junk = 0,
     en_resolve = (\<lambda>_ _. Some (2, replicate 16 1)), en_config = None\<rparr>"

lemma env_example_ok: "env_ok env_example"
  by (simp add: env_ok_def env_example_def resolver_ok_def config_ok_def)

theorem net_ctx_register_peer_witness:
  "\<exists>N'. net_ctx_register env_example 5 6 (Some [49, 0]) 5004 None net_start = Inr (Some 3, N') \<and>
    nc_data_port (context_of N' 3) = 5005 \<and> addresses N' = [3]"
proof -
  have "reused net_start = None" "peer net_start 5 = None" by (simp_all add: reused_def peer_def net_start_wf(3))
  with net_ctx_register_peer [OF net_start_wf(1,2) env_example_ok, of "Some [49, 0]" None 5 6 5004] show ?thesis
    by (auto simp: cstring_ok_def net_start_wf(3) env_example_def ctx_set_to_def)
qed

text \<open>One peer, registered in the empty table.\<close>

lemma net_one_peer:
  "\<exists>N. net_ctx_register env_example 5 6 (Some [49, 0]) 5004 None net_start = Inr (Some 3, N) \<and> net_wf N \<and>
    addresses N = [3] \<and> ctx_set_to env_example 5 6 (Some [49, 0]) 5004 None (context_of N 3)"
proof -
  have "reused net_start = None" "peer net_start 5 = None" by (simp_all add: reused_def peer_def net_start_wf(3))
  with net_ctx_register_ok [OF net_start_wf(1) env_example_ok, of "Some [49, 0]" None 5 6 5004] show ?thesis
    by (auto simp: cstring_ok_def net_start_wf(3) env_example_def)
qed

lemma find_result_first:
  "find_result P xs = (case List.find (\<lambda>x. P x \<noteq> Inr False) xs of None \<Rightarrow> Inr None
     | Some x \<Rightarrow> bindr (P x) (\<lambda>_. Inr (Some x)))"
proof (induction xs)
  case (Cons x xs)
  then show ?case by (cases "P x") auto
qed simp

text \<open>The search by name stops at the first connection in use that has the name or has none. In the
  second case, a peer that was invited without a name, it hands NULL to \<^verbatim>\<open>strcmp\<close>.\<close>
theorem net_ctx_find_by_name_first:
  assumes "net_wf N" "0 \<in> set name"
  shows "net_ctx_find_by_name (Some name) N =
    (case List.find (\<lambda>a. nc_status (context_of N a) \<noteq> NET_CTX_STATUS_UNUSED \<and>
        (\<forall>n. nc_name (context_of N a) = Some n \<longrightarrow> c_string n = c_string name)) (addresses N) of
       None \<Rightarrow> Inr (None, N)
     | Some a \<Rightarrow> if nc_name (context_of N a) = None then Inl NullDeref else Inr (Some a, N))"
proof -
  let ?P = "\<lambda>c. if nc_status c = NET_CTX_STATUS_UNUSED then Inr False else bindr (deref (nc_name c)) (\<lambda>x. strcmp_equal x name)"
  let ?Q = "\<lambda>a. nc_status (context_of N a) \<noteq> NET_CTX_STATUS_UNUSED \<and>
    (\<forall>n. nc_name (context_of N a) = Some n \<longrightarrow> c_string n = c_string name)"
  have P: "(?P (context_of N a) \<noteq> Inr False) = ?Q a"
    "?Q a \<Longrightarrow> ?P (context_of N a) = (if nc_name (context_of N a) = None then Inl NullDeref else Inr True)"
    if "a \<in> set (addresses N)" for a
    using that assms strcmp_equal_ok [OF _ assms(2)]
    by (cases "nc_name (context_of N a)"; auto simp: net_wf_def ctx_wf_def)+
  have "List.find (\<lambda>a. ?P (context_of N a) \<noteq> Inr False) (addresses N) = List.find ?Q (addresses N)"
    by (rule find_cong [OF refl]) (simp only: P)
  then have f: "find_result (\<lambda>a. ?P (context_of N a)) (addresses N) = (case List.find ?Q (addresses N) of None \<Rightarrow> Inr None
      | Some a \<Rightarrow> bindr (?P (context_of N a)) (\<lambda>_. Inr (Some a)))"
    unfolding find_result_first by (simp only:)
  show ?thesis
  proof (cases "List.find ?Q (addresses N)")
    case None
    then show ?thesis
      unfolding net_ctx_find_by_name_def option.case find_ctx_result [OF assms(1)] f None by simp
  next
    case (Some a)
    then have "a \<in> set (addresses N)" "?Q a" unfolding find_Some_iff by auto
    then have p: "?P (context_of N a) = (if nc_name (context_of N a) = None then Inl NullDeref else Inr True)" by (rule P(2))
    show ?thesis
      unfolding net_ctx_find_by_name_def option.case find_ctx_result [OF assms(1)] f Some p by simp
  qed
qed

theorem net_ctx_find_by_name_first_witness:
  "net_ctx_find_by_name (Some [97, 0]) net_start = Inr (None, net_start)"
  by (subst net_ctx_find_by_name_first) (simp_all add: net_start_wf)

end
