(* ===== verification/Responders.thy ===== *)
theory Responders
  imports Net_Connection Net_Applemidi
begin

text \<open>
  The replies to session commands (\<^verbatim>\<open>net_response.c\<close>, \<^verbatim>\<open>applemidi_inv.c\<close>, \<^verbatim>\<open>applemidi_ok.c\<close>,
  \<^verbatim>\<open>applemidi_sync.c\<close>, \<^verbatim>\<open>applemidi_by.c\<close>, \<^verbatim>\<open>applemidi_feedback.c\<close>). A responder gets the data of the
  command and the connections and yields the response for its caller to send, or what it sent
  itself, and the connections. Invitations and ends are shown to keep a registry of peers.
\<close>

section \<open>Responses\<close>

record net_response =
  nr_buffer :: "bytes option"
  nr_len :: nat

definition net_response_create :: "alloc \<Rightarrow> net_response option" where
  "net_response_create A =
     (if A (Site ''net_response_create:response'') then Some \<lparr>nr_buffer = None, nr_len = 0\<rparr> else None)"

text \<open>The argument is the address of a pointer that is never NULL itself.\<close>

definition net_response_destroy :: "net_response option \<Rightarrow> net_response option" where
  "net_response_destroy response = None"

text \<open>What all that build a response do with its command: it is packed into a new response, which is
  given up when that fails, and then destroyed.\<close>

definition pack_response :: "alloc \<Rightarrow> net_applemidi_command \<Rightarrow> net_response option result" where
  "pack_response A command =
     bindr (case net_response_create A of None \<Rightarrow> Inr None
            | Some r \<Rightarrow> bindr (net_applemidi_pack A (Some command) (nr_buffer r)) (\<lambda>(ret, buffer, len).
                let r = r\<lparr>nr_buffer := buffer, nr_len := len\<rparr> in
                Inr (if ret \<noteq> NET_APPLEMIDI_DONE then net_response_destroy (Some r) else Some r))) (\<lambda>response.
     bindr (net_applemidi_cmd_destroy (Some command)) (\<lambda>_. Inr response))"

definition net_response_inv :: "alloc \<Rightarrow> 32 word \<Rightarrow> 32 word \<Rightarrow> bytes option \<Rightarrow> net_response option result" where
  "net_response_inv A ssrc initiator name =
     (case net_applemidi_inv_create A of None \<Rightarrow> Inr None
      | Some iv \<Rightarrow>
          bindr (utils_strdup (A (Site ''net_response_inv:name''))
                   (case name of Some n \<Rightarrow> Some n | None \<Rightarrow> Some (string_bytes ''RaveloxMIDIClient''))) (\<lambda>nm.
          let iv = iv\<lparr>inv_ssrc := ssrc, inv_version := 2, inv_initiator := initiator, inv_name := nm\<rparr> in
          case net_applemidi_cmd_create A NET_APPLEMIDI_CMD_INV of None \<Rightarrow> Inr None
          | Some command \<Rightarrow> pack_response A (command\<lparr>ac_data := InvData iv\<rparr>)))"

text \<open>\<^verbatim>\<open>random_number\<close> is an \<^verbatim>\<open>int\<close>, extended to 64 bits.\<close>

definition net_response_sync :: "env \<Rightarrow> 32 word \<Rightarrow> 64 word \<Rightarrow> net_response option result" where
  "net_response_sync E send_ssrc start_time =
     (case net_applemidi_sync_create (en_alloc E) of None \<Rightarrow> Inr None
      | Some sync \<Rightarrow>
          let sync = sync\<lparr>sy_ssrc := send_ssrc, sy_count := 0, sy_timestamp1 := en_now E - start_time,
                       sy_timestamp2 := scast (en_random E 0), sy_timestamp3 := scast (en_random E 1)\<rparr> in
          case net_applemidi_cmd_create (en_alloc E) NET_APPLEMIDI_CMD_SYNC of None \<Rightarrow> Inr None
          | Some command \<Rightarrow> pack_response (en_alloc E) (command\<lparr>ac_data := SyncData sync\<rparr>))"

section \<open>The responders\<close>

definition applemidi_inv_responder ::
    "env \<Rightarrow> bytes option \<Rightarrow> 16 word \<Rightarrow> net_applemidi_inv option \<Rightarrow> net \<Rightarrow> (net_response option \<times> net) result" where
  "applemidi_inv_responder E ip_address port data N =
     (case data of None \<Rightarrow> Inr (None, N)
      | Some iv \<Rightarrow>
          bindr (net_ctx_find_by_ssrc (inv_ssrc iv) N) (\<lambda>(ctx, N).
          bindr (if ctx = None
                 then net_ctx_register E (inv_ssrc iv) (inv_initiator iv) ip_address port (inv_name iv) N
                 else Inr (ctx, N)) (\<lambda>(ctx, N).
          case ctx of None \<Rightarrow> Inr (None, N)
          | Some a \<Rightarrow>
              (case (net_applemidi_cmd_create (en_alloc E) NET_APPLEMIDI_CMD_ACCEPT, net_applemidi_inv_create (en_alloc E)) of
                 (Some command, Some accept_inv) \<Rightarrow>
                   bindr (ctx_at (nt_contexts N) a) (\<lambda>c.
                   bindr (config_string_get (en_config E) (Some ''service.name'')) (\<lambda>service_name.
                   bindr (utils_strdup (en_alloc E (Site ''applemidi_inv_responder:name''))
                            (Some (string_bytes (case service_name of Some s \<Rightarrow> s | None \<Rightarrow> ''RaveloxMIDI'')))) (\<lambda>nm.
                   let accept_inv = accept_inv\<lparr>inv_ssrc := nc_send_ssrc c, inv_version := 2,
                                      inv_initiator := nc_initiator c, inv_name := nm\<rparr> in
                   bindr (pack_response (en_alloc E) (command\<lparr>ac_data := InvData accept_inv\<rparr>)) (\<lambda>response.
                   Inr (response, N)))))
               | _ \<Rightarrow> bindr (on_ctx (net_ctx_reset E) (Some a) N) (\<lambda>N. Inr (None, N))))))"

text \<open>What the second half of a handshake that this side began does: packets sent, and the start of
  the thread that goes on synchronising.\<close>

datatype effect = Sent datagram | Sync_thread_started

text \<open>The response is used without a check that there is one.\<close>

definition send_response ::
    "net_response option \<Rightarrow> nat \<Rightarrow> bool \<Rightarrow> net \<Rightarrow> (effect list \<times> net) result" where
  "send_response response a use_control N =
     bindr (deref response) (\<lambda>r.
     bindr (ctx_at (nt_contexts N) a) (\<lambda>c.
     bindr (net_ctx_send (Some c) (nr_buffer r) (nr_len r) use_control) (\<lambda>(ds, c).
     Inr (map Sent ds, N\<lparr>nt_contexts := (nt_contexts N)(a := c)\<rparr>))))"

definition ctx_modify :: "nat \<Rightarrow> (net_ctx \<Rightarrow> net_ctx) \<Rightarrow> net \<Rightarrow> net result" where
  "ctx_modify a f N = on_ctx (\<lambda>p. Inr (map_option f p)) (Some a) N"

definition applemidi_ok_responder ::
    "env \<Rightarrow> net_applemidi_inv option \<Rightarrow> net \<Rightarrow> (effect list \<times> net) result" where
  "applemidi_ok_responder E data N =
     (case data of None \<Rightarrow> Inr ([], N)
      | Some ok_packet \<Rightarrow>
          bindr (net_ctx_find_by_initiator (inv_initiator ok_packet) N) (\<lambda>(ctx, N).
          case ctx of None \<Rightarrow> Inr ([], N)
          | Some a \<Rightarrow>
              bindr (ctx_at (nt_contexts N) a) (\<lambda>c.
              if nc_status c = NET_CTX_STATUS_FIRST_INV then
                bindr (config_string_get (en_config E) (Some ''service.name'')) (\<lambda>name.
                bindr (net_response_inv (en_alloc E) (nc_send_ssrc c) (nc_initiator c) (map_option string_bytes name)) (\<lambda>response.
                bindr (ctx_modify a (\<lambda>c. c\<lparr>nc_ssrc := inv_ssrc ok_packet\<rparr>) N) (\<lambda>N.
                bindr (send_response response a False N) (\<lambda>(es, N).
                bindr (ctx_modify a (\<lambda>c. c\<lparr>nc_status := NET_CTX_STATUS_SECOND_INV\<rparr>) N) (\<lambda>N.
                Inr (es, N))))))
              else if nc_status c = NET_CTX_STATUS_SECOND_INV then
                bindr (net_response_sync E (nc_send_ssrc c) (nc_start c)) (\<lambda>response.
                bindr (send_response response a True N) (\<lambda>(es, N).
                bindr (ctx_modify a (\<lambda>c. c\<lparr>nc_status := NET_CTX_STATUS_REMOTE_CONNECTION\<rparr>) N) (\<lambda>N.
                Inr (es @ [Sync_thread_started], N))))
              else Inr ([], N))))"

text \<open>\<^verbatim>\<open>count\<close> is a \<^verbatim>\<open>char\<close>, which is signed or not depending on the machine.\<close>

definition char_value :: "bool \<Rightarrow> byte \<Rightarrow> int" where
  "char_value sgn_char c = (if sgn_char then sint c else uint c)"

definition applemidi_sync_responder ::
    "bool \<Rightarrow> env \<Rightarrow> net_applemidi_sync option \<Rightarrow> net \<Rightarrow> (net_response option \<times> net) result" where
  "applemidi_sync_responder sgn_char E data N =
     (case data of None \<Rightarrow> Inr (None, N)
      | Some sync \<Rightarrow>
          bindr (net_ctx_find_by_ssrc (sy_ssrc sync) N) (\<lambda>(ctx, N).
          case ctx of None \<Rightarrow> Inr (None, N)
          | Some a \<Rightarrow>
              bindr (ctx_at (nt_contexts N) a) (\<lambda>c.
              if char_value sgn_char (sy_count sync) = 2 then Inr (None, N)
              else
                (case (net_applemidi_cmd_create (en_alloc E) NET_APPLEMIDI_CMD_SYNC, net_applemidi_sync_create (en_alloc E)) of
                   (Some command, Some sync_resp) \<Rightarrow>
                     let count = (if char_value sgn_char (sy_count sync) < 2 then sy_count sync + 1 else 0);
                         local_timestamp = en_now E - nc_start c;
                         sync_resp = sync_resp\<lparr>sy_ssrc := nc_send_ssrc c, sy_count := count,
                           sy_timestamp1 := sy_timestamp1 sync, sy_timestamp2 := sy_timestamp2 sync,
                           sy_timestamp3 := sy_timestamp3 sync, sy_padding := sy_padding sync\<rparr>;
                         sync_resp = (if count = 2 then sync_resp\<lparr>sy_timestamp3 := local_timestamp\<rparr>
                           else if count = 1 then sync_resp\<lparr>sy_timestamp2 := local_timestamp\<rparr>
                           else if count = 0 then sync_resp\<lparr>sy_timestamp1 := local_timestamp\<rparr> else sync_resp) in
                     bindr (pack_response (en_alloc E) (command\<lparr>ac_data := SyncData sync_resp\<rparr>)) (\<lambda>response.
                     Inr (response, N))
                 | _ \<Rightarrow> Inr (None, N)))))"

definition applemidi_by_responder :: "env \<Rightarrow> net_applemidi_inv option \<Rightarrow> net \<Rightarrow> net result" where
  "applemidi_by_responder E data N =
     (case data of None \<Rightarrow> Inr N
      | Some iv \<Rightarrow>
          bindr (net_ctx_find_by_ssrc (inv_ssrc iv) N) (\<lambda>(ctx, N).
          if ctx = None then Inr N else on_ctx (net_ctx_reset E) ctx N))"

text \<open>The second half of \<^verbatim>\<open>rtp_seq\<close>, on a little-endian host the upper 16 bits of \<^verbatim>\<open>apple_seq\<close>; both sides
  of the comparison are extended to 32 bits.\<close>

definition rtp_seq_1 :: "net_applemidi_feedback \<Rightarrow> 16 word" where
  "rtp_seq_1 feedback = ucast (drop_bit 16 (fb_apple_seq feedback))"

definition applemidi_feedback_responder :: "net_applemidi_feedback option \<Rightarrow> net \<Rightarrow> net result" where
  "applemidi_feedback_responder data N =
     (case data of None \<Rightarrow> Inr N
      | Some feedback \<Rightarrow>
          bindr (net_ctx_find_by_ssrc (fb_ssrc feedback) N) (\<lambda>(ctx, N).
          case ctx of None \<Rightarrow> Inr N
          | Some a \<Rightarrow>
              bindr (on_ctx net_ctx_lock (Some a) N) (\<lambda>N.
              bindr (ctx_at (nt_contexts N) a) (\<lambda>c.
              let seq = nc_seq c in
              bindr (on_ctx net_ctx_unlock (Some a) N) (\<lambda>N.
              if ucast (rtp_seq_1 feedback) \<ge> seq then on_ctx net_ctx_journal_reset (Some a) N else Inr N)))))"

text \<open>The other half of the field stays 0; the result of packing is not looked at.\<close>

definition applemidi_feedback_create :: "alloc \<Rightarrow> 32 word \<Rightarrow> 16 word \<Rightarrow> net_response option result" where
  "applemidi_feedback_create A ssrc rtp_seq =
     (case net_applemidi_feedback_create A of None \<Rightarrow> Inr None
      | Some feedback \<Rightarrow>
          (case net_applemidi_cmd_create A NET_APPLEMIDI_CMD_FEEDBACK of None \<Rightarrow> Inr None
           | Some command \<Rightarrow>
               let command = command\<lparr>ac_data := FeedbackData (feedback\<lparr>fb_ssrc := ssrc, fb_apple_seq := push_bit 16 (ucast rtp_seq)\<rparr>)\<rparr> in
               bindr (case net_response_create A of None \<Rightarrow> Inr None
                      | Some r \<Rightarrow> bindr (net_applemidi_pack A (Some command) (nr_buffer r)) (\<lambda>(_, buffer, len).
                          Inr (Some (r\<lparr>nr_buffer := buffer, nr_len := len\<rparr>)))) (\<lambda>response.
               bindr (net_applemidi_cmd_destroy (Some command)) (\<lambda>_. Inr response))))"

section \<open>What goes on the wire\<close>

definition wire :: "net_response \<Rightarrow> bytes" where
  "wire r = take (nr_len r) (the (nr_buffer r))"

definition response_ok :: "net_response \<Rightarrow> bool" where
  "response_ok r \<longleftrightarrow> (\<exists>m. nr_buffer r = Some m \<and> nr_len r \<le> length m) \<and> nr_len r \<noteq> 0"

lemma pack_response_ok:
  assumes "data_fits (ac_command c) (ac_data c)"
  shows "\<exists>r m. pack_response mem_ok c = Inr (Some r) \<and> nr_buffer r = Some m \<and> nr_len r = length (command_bytes c) \<and>
    nr_len r \<le> length m \<and> wire r = command_bytes c \<and> response_ok r"
proof -
  from net_applemidi_pack_bytes [OF assms, of None] obtain m where
    m: "net_applemidi_pack mem_ok (Some c) None = Inr (NET_APPLEMIDI_DONE, Some m, length (command_bytes c))"
    "take (length (command_bytes c)) m = command_bytes c" by blast
  have "net_applemidi_cmd_destroy (Some c) = Inr (NET_APPLEMIDI_DONE, None)"
    using assms by (cases "ac_data c") (auto simp: net_applemidi_cmd_destroy_def as_inv_def)
  moreover have "length (command_bytes c) \<le> length m" using m(2) by (metis nat_le_linear take_all_iff order.trans le_refl)
  moreover have "length (command_bytes c) \<noteq> 0" by (simp add: command_bytes_def)
  ultimately show ?thesis using m by (simp add: pack_response_def net_response_create_def wire_def response_ok_def)
qed

lemma wire_received:
  assumes "wire r = command_bytes c" "data_fits (ac_command c) (ac_data c)" "4 \<le> ptr"
  shows "net_applemidi_unpack mem_ok ptr junk (Some (wire r)) (length (wire r)) = Inr (NET_APPLEMIDI_DONE, Some c)"
  using net_applemidi_unpack_bytes [OF assms(2,3), of junk "[]"] assms(1) by simp

lemma string_bytes_ok [simp]: "0 \<in> set (string_bytes s)"
  by (simp add: string_bytes_def)

lemma name_fits: "0 \<in> set b \<Longrightarrow> last (c_string b @ [0]) = 0 \<and> 0 \<notin> set (butlast (c_string b @ [0]))"
  by (simp add: c_string_no_0)

text \<open>The name this side goes by.\<close>

definition service_name :: "env \<Rightarrow> string \<Rightarrow> bytes" where
  "service_name E d =
     c_string (string_bytes (case config_string_get (en_config E) (Some ''service.name'') of Inr (Some s) \<Rightarrow> s | _ \<Rightarrow> d)) @ [0]"

definition inv_packet :: "16 word \<Rightarrow> net_ctx \<Rightarrow> bytes \<Rightarrow> net_applemidi_command" where
  "inv_packet code c name =
     \<lparr>ac_signature = 0xffff, ac_command = code,
      ac_data = InvData \<lparr>inv_ssrc = nc_send_ssrc c, inv_version = 2, inv_initiator = nc_initiator c, inv_name = Some name\<rparr>\<rparr>"

lemma inv_packet_fits: "inv_command code \<Longrightarrow> data_fits (ac_command (inv_packet code c (c_string b @ [0])))
    (ac_data (inv_packet code c (c_string b @ [0])))"
  by (simp add: inv_packet_def c_string_no_0)

lemma inv_codes [simp]: "inv_command NET_APPLEMIDI_CMD_INV" "inv_command NET_APPLEMIDI_CMD_ACCEPT"
  "inv_command NET_APPLEMIDI_CMD_END" "inv_command NET_APPLEMIDI_CMD_REJECT"
  by (simp_all add: inv_command_def)

lemma service_name_config:
  assumes "config_ok (en_config E)"
  obtains v where "config_string_get (en_config E) (Some ''service.name'') = Inr v"
    "service_name E d = c_string (string_bytes (case v of Some s \<Rightarrow> s | None \<Rightarrow> d)) @ [0]"
  using config_string_get_ok [OF assms, of "''service.name''"] by (auto simp: service_name_def)

section \<open>Invitations\<close>

lemma applemidi_inv_reply:
  assumes wf: "net_wf N" and E: "env_ok E" and iv: "cstring_ok (inv_name iv)"
    and reg: "if peer N (inv_ssrc iv) = None then
        net_ctx_register E (inv_ssrc iv) (inv_initiator iv) ip port (inv_name iv) N = Inr (Some a, N')
      else N' = N \<and> peer N (inv_ssrc iv) = Some a"
    and wf': "net_wf N'" and a: "a \<in> set (addresses N')"
  shows "\<exists>r. applemidi_inv_responder E ip port (Some iv) N = Inr (Some r, N') \<and>
    wire r = command_bytes (inv_packet NET_APPLEMIDI_CMD_ACCEPT (context_of N' a) (service_name E ''RaveloxMIDI'')) \<and> response_ok r"
proof -
  let ?c = "context_of N' a" and ?n = "service_name E ''RaveloxMIDI''"
  from E have A: "en_alloc E = mem_ok" "config_ok (en_config E)" by (simp_all add: env_ok_def)
  from service_name_config [OF A(2), of "''RaveloxMIDI''"] obtain v where
    v: "config_string_get (en_config E) (Some ''service.name'') = Inr v"
      "?n = c_string (string_bytes (case v of Some s \<Rightarrow> s | None \<Rightarrow> ''RaveloxMIDI'')) @ [0]" .
  have "data_fits (ac_command (inv_packet NET_APPLEMIDI_CMD_ACCEPT ?c ?n)) (ac_data (inv_packet NET_APPLEMIDI_CMD_ACCEPT ?c ?n))"
    unfolding v(2) by (rule inv_packet_fits) simp
  from pack_response_ok [OF this] obtain r where
    r: "pack_response mem_ok (inv_packet NET_APPLEMIDI_CMD_ACCEPT ?c ?n) = Inr (Some r)"
      "wire r = command_bytes (inv_packet NET_APPLEMIDI_CMD_ACCEPT ?c ?n)" "response_ok r" by blast
  have "applemidi_inv_responder E ip port (Some iv) N = Inr (Some r, N')"
    using reg A v r(1) net_wf_context [OF wf' a] find_by_ssrc_ok [OF wf, of "inv_ssrc iv"]
    by (auto simp: applemidi_inv_responder_def net_applemidi_cmd_create_def net_applemidi_inv_create_def ctx_at_def
        utils_strdup_def inv_packet_def split: if_splits)
  with r(2,3) show ?thesis by blast
qed

lemma inv_responder_ok:
  assumes "net_wf N" "ssrc_unique N" "env_ok E" "cstring_ok ip" "cstring_ok (inv_name iv)" "en_address E \<notin> set (addresses N)"
  shows "\<exists>r N' a. applemidi_inv_responder E ip port (Some iv) N = Inr (Some r, N') \<and> net_wf N' \<and> ssrc_unique N' \<and>
    peer N' (inv_ssrc iv) = Some a \<and> a \<in> set (addresses N') \<and>
    (\<forall>s. s \<noteq> inv_ssrc iv \<longrightarrow> peer N' s = peer N s) \<and> (\<forall>b. b \<noteq> a \<longrightarrow> context_of N' b = context_of N b) \<and>
    set (addresses N') \<subseteq> insert (en_address E) (set (addresses N)) \<and>
    (if peer N (inv_ssrc iv) = None then ctx_set_to E (inv_ssrc iv) (inv_initiator iv) ip port (inv_name iv) (context_of N' a)
     else N' = N) \<and>
    wire r = command_bytes (inv_packet NET_APPLEMIDI_CMD_ACCEPT (context_of N' a) (service_name E ''RaveloxMIDI'')) \<and> response_ok r"
proof (cases "peer N (inv_ssrc iv)")
  case (Some a)
  then have "a \<in> set (addresses N)" using peer_Some by blast
  with applemidi_inv_reply [OF assms(1,3,5), of ip port a N] Some assms(1,2) show ?thesis by auto
next
  case None
  from net_ctx_register_ok [OF assms(1,3-6) None, of "inv_initiator iv" port] obtain N' a c where
    r: "net_ctx_register E (inv_ssrc iv) (inv_initiator iv) ip port (inv_name iv) N = Inr (Some a, N')" "net_wf N'"
      "a = (case reused N of Some a \<Rightarrow> a | None \<Rightarrow> en_address E)"
      "addresses N' = (case reused N of Some _ \<Rightarrow> addresses N | None \<Rightarrow> addresses N @ [a])"
      "context_of N' = (context_of N)(a := c)" "ctx_set_to E (inv_ssrc iv) (inv_initiator iv) ip port (inv_name iv) c"
    by blast
  have p: "ssrc_unique N'" "peer N' (inv_ssrc iv) = Some a" "\<And>s. s \<noteq> inv_ssrc iv \<Longrightarrow> peer N' s = peer N s"
    using register_peers [OF assms(2,6) None r(3-6)] by simp_all
  then have a: "a \<in> set (addresses N')" using peer_Some by blast
  have "set (addresses N') \<subseteq> insert (en_address E) (set (addresses N))" using r(3,4) by (auto split: option.splits)
  with applemidi_inv_reply [OF assms(1,3,5), of ip port a N'] r None p a show ?thesis by auto
qed

lemma by_responder_ok:
  assumes "net_wf N" "ssrc_unique N" "env_ok E"
  shows "\<exists>N'. applemidi_by_responder E (Some iv) N = Inr N' \<and> net_wf N' \<and> ssrc_unique N' \<and> addresses N' = addresses N \<and>
    (\<forall>s. peer N' s = (if s = inv_ssrc iv then None else peer N s))"
proof (cases "peer N (inv_ssrc iv)")
  case None
  with assms find_by_ssrc_ok [OF assms(1), of "inv_ssrc iv"] show ?thesis by (auto simp: applemidi_by_responder_def)
next
  case (Some a)
  then have a: "a \<in> set (addresses N)" "nc_ssrc (context_of N a) = inv_ssrc iv"
    using peer_Some [of N "inv_ssrc iv" a] by (simp_all add: used_with_ssrc_def)
  with assms(1) have "ctx_wf (context_of N a)" by (simp add: net_wf_def)
  from net_ctx_reset_ok [OF this, of E] assms(3) obtain c where
    c: "net_ctx_reset E (Some (context_of N a)) = Inr (Some c)" "ctx_wf c" "nc_status c = NET_CTX_STATUS_UNUSED"
    by (auto simp: env_ok_def)
  from on_ctx_ok [where f = "net_ctx_reset E", OF assms(1) a(1) c(1,2)] obtain N' where
    N': "on_ctx (net_ctx_reset E) (Some a) N = Inr N'" "net_wf N'" "addresses N' = addresses N" "context_of N' = (context_of N)(a := c)"
    by blast
  have "applemidi_by_responder E (Some iv) N = Inr N'"
    using N'(1) Some find_by_ssrc_ok [OF assms(1), of "inv_ssrc iv"] by (simp add: applemidi_by_responder_def)
  moreover have "peer N' s = (if s = inv_ssrc iv then None else peer N s)" for s
  proof (cases "s = inv_ssrc iv")
    case True
    with peer_drop(2) [OF assms(2) N'(3,4) c(3), of s] Some show ?thesis by simp
  next
    case False
    with peer_Some [of N s a] a(2) have "peer N s \<noteq> Some a" by (auto simp: used_with_ssrc_def)
    with peer_drop(2) [OF assms(2) N'(3,4) c(3), of s] False show ?thesis by simp
  qed
  ultimately show ?thesis using N'(2,3) peer_drop(1) [OF assms(2) N'(3,4) c(3)] by blast
qed

section \<open>The registry\<close>

text \<open>Events that make a peer known or forget it, one after the other, and what is known at the end.\<close>

fun run_events :: "('e \<Rightarrow> 's \<Rightarrow> 's result) \<Rightarrow> 'e list \<Rightarrow> 's \<Rightarrow> 's result" where
  "run_events step [] s = Inr s"
| "run_events step (e # es) s = bindr (step e s) (run_events step es)"

fun known_after :: "('e \<Rightarrow> 'k) \<Rightarrow> ('e \<Rightarrow> bool) \<Rightarrow> 'e list \<Rightarrow> 'k \<Rightarrow> bool \<Rightarrow> bool" where
  "known_after key joins [] k b = b"
| "known_after key joins (e # es) k b = known_after key joins es k (if key e = k then joins e else b)"

locale registry =
  fixes ok :: "'s \<Rightarrow> bool" and peer_of :: "'s \<Rightarrow> 'k \<Rightarrow> nat option" and held :: "'s \<Rightarrow> nat set"
    and step :: "'e \<Rightarrow> 's \<Rightarrow> 's result" and good :: "'e \<Rightarrow> bool" and key :: "'e \<Rightarrow> 'k" and joins :: "'e \<Rightarrow> bool"
    and addr :: "'e \<Rightarrow> nat"
  assumes join: "ok s \<Longrightarrow> good e \<Longrightarrow> joins e \<Longrightarrow> addr e \<notin> held s \<Longrightarrow>
      \<exists>s'. step e s = Inr s' \<and> ok s' \<and> held s' \<subseteq> insert (addr e) (held s) \<and> peer_of s' (key e) \<noteq> None \<and>
        (peer_of s (key e) \<noteq> None \<longrightarrow> peer_of s' (key e) = peer_of s (key e)) \<and>
        (\<forall>k. k \<noteq> key e \<longrightarrow> peer_of s' k = peer_of s k)"
    and leave: "ok s \<Longrightarrow> good e \<Longrightarrow> \<not> joins e \<Longrightarrow>
      \<exists>s'. step e s = Inr s' \<and> ok s' \<and> held s' \<subseteq> held s \<and> peer_of s' (key e) = None \<and>
        (\<forall>k. k \<noteq> key e \<longrightarrow> peer_of s' k = peer_of s k)"
begin

lemma step_ok:
  assumes "ok s" "good e" "addr e \<notin> held s"
  obtains s' where "step e s = Inr s'" "ok s'" "held s' \<subseteq> insert (addr e) (held s)"
    "\<And>k. peer_of s' k \<noteq> None \<longleftrightarrow> (if key e = k then joins e else peer_of s k \<noteq> None)"
    "\<And>k. peer_of s k \<noteq> None \<Longrightarrow> key e \<noteq> k \<or> joins e \<Longrightarrow> peer_of s' k = peer_of s k"
proof (cases "joins e")
  case True
  from join [OF assms(1,2) True assms(3)] that True show thesis by metis
next
  case False
  from leave [OF assms(1,2) False] obtain s' where s': "step e s = Inr s'" "ok s'" "held s' \<subseteq> held s" "peer_of s' (key e) = None"
    "\<forall>k. k \<noteq> key e \<longrightarrow> peer_of s' k = peer_of s k" by blast
  show thesis
  proof (rule that [OF s'(1,2)])
    show "held s' \<subseteq> insert (addr e) (held s)" using s'(3) by blast
    show "peer_of s' k \<noteq> None \<longleftrightarrow> (if key e = k then joins e else peer_of s k \<noteq> None)" for k
      using s'(4,5) False by auto
    show "peer_of s k \<noteq> None \<Longrightarrow> key e \<noteq> k \<or> joins e \<Longrightarrow> peer_of s' k = peer_of s k" for k
      using s'(5) False by auto
  qed
qed

lemma run_ok:
  assumes "ok s" "\<forall>e\<in>set es. good e \<and> addr e \<notin> held s" "distinct (map addr es)"
  shows "\<exists>s'. run_events step es s = Inr s' \<and> ok s' \<and>
    (\<forall>k. peer_of s' k \<noteq> None \<longleftrightarrow> known_after key joins es k (peer_of s k \<noteq> None)) \<and>
    (\<forall>k. peer_of s k \<noteq> None \<longrightarrow> (\<forall>e\<in>set es. key e = k \<longrightarrow> joins e) \<longrightarrow> peer_of s' k = peer_of s k)"
  using assms
proof (induction es arbitrary: s)
  case (Cons e es)
  from Cons.prems have "good e" "addr e \<notin> held s" by simp_all
  from step_ok [OF Cons.prems(1) this] obtain s1 where
    s1: "step e s = Inr s1" "ok s1" "held s1 \<subseteq> insert (addr e) (held s)"
    "\<And>k. peer_of s1 k \<noteq> None \<longleftrightarrow> (if key e = k then joins e else peer_of s k \<noteq> None)"
    "\<And>k. peer_of s k \<noteq> None \<Longrightarrow> key e \<noteq> k \<or> joins e \<Longrightarrow> peer_of s1 k = peer_of s k" by blast
  have "\<forall>e\<in>set es. good e \<and> addr e \<notin> held s1"
  proof
    fix x assume x: "x \<in> set es"
    moreover from Cons.prems(3) have "addr e \<notin> addr ` set es" by simp
    ultimately have "addr x \<noteq> addr e" by (metis imageI)
    with x Cons.prems(2) subsetD [OF s1(3), of "addr x"] show "good x \<and> addr x \<notin> held s1" by auto
  qed
  from Cons.IH [OF s1(2) this] Cons.prems(3) have "\<exists>s'. run_events step es s1 = Inr s' \<and> ok s' \<and>
      (\<forall>k. peer_of s' k \<noteq> None \<longleftrightarrow> known_after key joins es k (peer_of s1 k \<noteq> None)) \<and>
      (\<forall>k. peer_of s1 k \<noteq> None \<longrightarrow> (\<forall>e\<in>set es. key e = k \<longrightarrow> joins e) \<longrightarrow> peer_of s' k = peer_of s1 k)"
    by (simp only: list.map distinct.simps)
  then obtain s' where s': "run_events step es s1 = Inr s'" "ok s'"
      and known: "\<forall>k. peer_of s' k \<noteq> None \<longleftrightarrow> known_after key joins es k (peer_of s1 k \<noteq> None)"
      and kept: "\<forall>k. peer_of s1 k \<noteq> None \<longrightarrow> (\<forall>e\<in>set es. key e = k \<longrightarrow> joins e) \<longrightarrow> peer_of s' k = peer_of s1 k"
    by (elim exE conjE)
  have "peer_of s' k = peer_of s k" if "peer_of s k \<noteq> None" "\<forall>e\<in>set (e # es). key e = k \<longrightarrow> joins e" for k
  proof -
    from that(2) have "key e \<noteq> k \<or> joins e" "\<forall>e\<in>set es. key e = k \<longrightarrow> joins e" by auto
    with s1(5) [OF that(1)] kept that(1) show ?thesis by simp
  qed
  moreover have "peer_of s' k \<noteq> None \<longleftrightarrow> known_after key joins (e # es) k (peer_of s k \<noteq> None)" for k
    by (simp only: known [rule_format] s1(4) known_after.simps)
  moreover have "run_events step (e # es) s = Inr s'" using s1(1) s'(1) by simp
  ultimately show ?case using s'(2) by (intro exI [of _ s'] conjI allI impI) (simp_all only:)
qed simp

end

datatype peer_command = Invited env "bytes option" "16 word" net_applemidi_inv | Ended env net_applemidi_inv

fun session_event :: "peer_command \<Rightarrow> net \<Rightarrow> net result" where
  "session_event (Invited E ip port iv) N = bindr (applemidi_inv_responder E ip port (Some iv) N) (\<lambda>(_, N). Inr N)"
| "session_event (Ended E iv) N = applemidi_by_responder E (Some iv) N"

fun event_ok :: "peer_command \<Rightarrow> bool" where
  "event_ok (Invited E ip port iv) \<longleftrightarrow> env_ok E \<and> cstring_ok ip \<and> cstring_ok (inv_name iv)"
| "event_ok (Ended E iv) \<longleftrightarrow> env_ok E"

fun event_ssrc :: "peer_command \<Rightarrow> 32 word" where
  "event_ssrc (Invited E ip port iv) = inv_ssrc iv"
| "event_ssrc (Ended E iv) = inv_ssrc iv"

fun event_invites :: "peer_command \<Rightarrow> bool" where
  "event_invites (Invited E ip port iv) \<longleftrightarrow> True"
| "event_invites (Ended E iv) \<longleftrightarrow> False"

fun event_address :: "peer_command \<Rightarrow> nat" where
  "event_address (Invited E ip port iv) = en_address E"
| "event_address (Ended E iv) = en_address E"

interpretation session: registry "\<lambda>N. net_wf N \<and> ssrc_unique N" peer "\<lambda>N. set (addresses N)" session_event event_ok
  event_ssrc event_invites event_address
proof unfold_locales
  fix N e assume N: "net_wf N \<and> ssrc_unique N" and e: "event_ok e" "event_invites e" "event_address e \<notin> set (addresses N)"
  then obtain E ip port iv where ev: "e = Invited E ip port iv" by (cases e) auto
  with e have "env_ok E" "cstring_ok ip" "cstring_ok (inv_name iv)" "en_address E \<notin> set (addresses N)" by simp_all
  from inv_responder_ok [OF conjunct1 [OF N] conjunct2 [OF N] this, of port] obtain r N' a where
    "applemidi_inv_responder E ip port (Some iv) N = Inr (Some r, N')" "net_wf N'" "ssrc_unique N'"
    "peer N' (inv_ssrc iv) = Some a" "\<forall>s. s \<noteq> inv_ssrc iv \<longrightarrow> peer N' s = peer N s"
    "set (addresses N') \<subseteq> insert (en_address E) (set (addresses N))"
    and known: "if peer N (inv_ssrc iv) = None then ctx_set_to E (inv_ssrc iv) (inv_initiator iv) ip port (inv_name iv) (context_of N' a)
      else N' = N" by (elim exE conjE) blast
  moreover from known have "peer N (inv_ssrc iv) \<noteq> None \<longrightarrow> N' = N" by presburger
  ultimately show "\<exists>N'. session_event e N = Inr N' \<and> (net_wf N' \<and> ssrc_unique N') \<and>
      set (addresses N') \<subseteq> insert (event_address e) (set (addresses N)) \<and> peer N' (event_ssrc e) \<noteq> None \<and>
      (peer N (event_ssrc e) \<noteq> None \<longrightarrow> peer N' (event_ssrc e) = peer N (event_ssrc e)) \<and>
      (\<forall>k. k \<noteq> event_ssrc e \<longrightarrow> peer N' k = peer N k)"
    using ev by (intro exI [of _ N']) auto
next
  fix N e assume N: "net_wf N \<and> ssrc_unique N" and e: "event_ok e" "\<not> event_invites e"
  then obtain E iv where ev: "e = Ended E iv" by (cases e) auto
  with e have "env_ok E" by simp
  from by_responder_ok [OF conjunct1 [OF N] conjunct2 [OF N] this, of iv] obtain N' where
    "applemidi_by_responder E (Some iv) N = Inr N'" "net_wf N'" "ssrc_unique N'" "addresses N' = addresses N"
    "\<forall>s. peer N' s = (if s = inv_ssrc iv then None else peer N s)" by blast
  with ev show "\<exists>N'. session_event e N = Inr N' \<and> (net_wf N' \<and> ssrc_unique N') \<and>
      set (addresses N') \<subseteq> set (addresses N) \<and> peer N' (event_ssrc e) = None \<and>
      (\<forall>k. k \<noteq> event_ssrc e \<longrightarrow> peer N' k = peer N k)"
    by (intro exI [of _ N']) auto
qed

section \<open>Clock synchronisation\<close>

definition sync_packet :: "net_applemidi_sync \<Rightarrow> net_applemidi_command" where
  "sync_packet s = \<lparr>ac_signature = 0xffff, ac_command = NET_APPLEMIDI_CMD_SYNC, ac_data = SyncData s\<rparr>"

text \<open>A command as the other side has it after it was packed, sent and unpacked.\<close>

definition arrives :: "net_response \<Rightarrow> net_applemidi_command \<Rightarrow> bool" where
  "arrives r c \<longleftrightarrow> (\<forall>ptr junk. 4 \<le> ptr \<longrightarrow>
     net_applemidi_unpack mem_ok ptr junk (Some (wire r)) (length (wire r)) = Inr (NET_APPLEMIDI_DONE, Some c))"

lemma pack_response_arrives:
  assumes "data_fits (ac_command c) (ac_data c)"
  shows "\<exists>r m. pack_response mem_ok c = Inr (Some r) \<and> nr_buffer r = Some m \<and> nr_len r = length (command_bytes c) \<and>
    nr_len r \<le> length m \<and> wire r = command_bytes c \<and> arrives r c \<and> response_ok r"
  using pack_response_ok [OF assms] wire_received [OF _ assms] unfolding arrives_def by metis

lemma net_response_sync_ok:
  assumes "en_alloc E = mem_ok"
  shows "\<exists>r m. net_response_sync E ssrc start = Inr (Some r) \<and> nr_buffer r = Some m \<and> nr_len r \<le> length m \<and> nr_len r \<noteq> 0 \<and>
    arrives r (sync_packet \<lparr>sy_ssrc = ssrc, sy_count = 0, sy_padding = [0, 0, 0], sy_timestamp1 = en_now E - start,
     sy_timestamp2 = scast (en_random E 0), sy_timestamp3 = scast (en_random E 1)\<rparr>)"
proof -
  let ?s = "\<lparr>sy_ssrc = ssrc, sy_count = 0, sy_padding = [0, 0, 0], sy_timestamp1 = en_now E - start,
     sy_timestamp2 = scast (en_random E 0), sy_timestamp3 = scast (en_random E 1)\<rparr>"
  have "data_fits (ac_command (sync_packet ?s)) (ac_data (sync_packet ?s))" by (simp add: sync_packet_def)
  from pack_response_arrives [OF this] obtain r m where
    r: "pack_response mem_ok (sync_packet ?s) = Inr (Some r)" "nr_buffer r = Some m" "nr_len r = length (command_bytes (sync_packet ?s))"
      "nr_len r \<le> length m" "arrives r (sync_packet ?s)" by blast
  have "nr_len r \<noteq> 0" unfolding r(3) by (simp add: command_bytes_def)
  moreover have "net_response_sync E ssrc start = Inr (Some r)"
    using r(1) assms
    by (simp add: net_response_sync_def net_applemidi_sync_create_def net_applemidi_cmd_create_def sync_packet_def Let_def)
  ultimately show ?thesis using r by blast
qed

text \<open>The answer to a synchronisation: its count, and which timestamp is set.\<close>

definition sync_count :: "bool \<Rightarrow> byte \<Rightarrow> byte" where
  "sync_count sgn_char n = (if char_value sgn_char n < 2 then n + 1 else 0)"

definition sync_answer :: "bool \<Rightarrow> 64 word \<Rightarrow> net_ctx \<Rightarrow> net_applemidi_sync \<Rightarrow> net_applemidi_sync" where
  "sync_answer sgn_char now c s =
     (let n = sync_count sgn_char (sy_count s); t = now - nc_start c in
      \<lparr>sy_ssrc = nc_send_ssrc c, sy_count = n, sy_padding = sy_padding s,
       sy_timestamp1 = (if n = 0 then t else sy_timestamp1 s),
       sy_timestamp2 = (if n = 1 then t else sy_timestamp2 s),
       sy_timestamp3 = (if n = 2 then t else sy_timestamp3 s)\<rparr>)"

lemma sync_responder_ok:
  assumes wf: "net_wf N" and E: "en_alloc E = mem_ok" and p: "peer N (sy_ssrc s) = Some a" and pad: "length (sy_padding s) = 3"
    and n: "char_value sgn_char (sy_count s) \<noteq> 2"
  shows "\<exists>r. applemidi_sync_responder sgn_char E (Some s) N = Inr (Some r, N) \<and>
    arrives r (sync_packet (sync_answer sgn_char (en_now E) (context_of N a) s)) \<and> response_ok r"
proof -
  let ?s = "sync_answer sgn_char (en_now E) (context_of N a) s"
  have a: "a \<in> set (addresses N)" using p peer_Some by blast
  have "data_fits (ac_command (sync_packet ?s)) (ac_data (sync_packet ?s))"
    using pad by (simp add: sync_packet_def sync_answer_def Let_def)
  from pack_response_arrives [OF this] obtain r where
    r: "pack_response mem_ok (sync_packet ?s) = Inr (Some r)" "arrives r (sync_packet ?s)" "response_ok r" by blast
  have "applemidi_sync_responder sgn_char E (Some s) N = Inr (Some r, N)"
    using r(1) E p n net_wf_context [OF wf a] find_by_ssrc_ok [OF wf, of "sy_ssrc s"]
    by (simp add: applemidi_sync_responder_def net_applemidi_cmd_create_def net_applemidi_sync_create_def ctx_at_def
        sync_packet_def sync_answer_def sync_count_def [symmetric] Let_def split: if_splits)
  with r(2,3) show ?thesis by blast
qed

lemma sync_responder_done:
  assumes "net_wf N" "peer N (sy_ssrc s) = Some a" "char_value sgn_char (sy_count s) = 2"
  shows "applemidi_sync_responder sgn_char E (Some s) N = Inr (None, N)"
  using assms net_wf_context [OF assms(1), of a] find_by_ssrc_ok [OF assms(1), of "sy_ssrc s"] peer_Some [OF assms(2)]
  by (simp add: applemidi_sync_responder_def ctx_at_def)

lemma char_value_simps [simp]: "char_value b 0 = 0" "char_value b 1 = 1" "char_value b 2 = 2"
  by (cases b; simp add: char_value_def)+

section \<open>Feedback\<close>

lemma same_context: "nt_contexts N a = Some c \<Longrightarrow> N\<lparr>nt_contexts := (nt_contexts N)(a \<mapsto> c)\<rparr> = N"
  by (cases N) (simp add: fun_upd_idem)

lemma not_held: "\<not> nc_held c \<Longrightarrow> c\<lparr>nc_held := False\<rparr> = c"
  by (cases c) simp

lemma feedback_responder_ok:
  assumes wf: "net_wf N" and p: "peer N (fb_ssrc f) = Some a"
  shows "if nc_seq (context_of N a) \<le> ucast (rtp_seq_1 f)
    then \<exists>N' j. applemidi_feedback_responder (Some f) N = Inr N' \<and> net_wf N' \<and> addresses N' = addresses N \<and>
      context_of N' = (context_of N)(a := (context_of N a)\<lparr>nc_journal := j\<rparr>) \<and> \<not> journal_has_data j
    else applemidi_feedback_responder (Some f) N = Inr N"
proof -
  let ?c = "context_of N a"
  have a: "a \<in> set (addresses N)" using p peer_Some by blast
  with wf have c: "nt_contexts N a = Some ?c" "ctx_wf ?c" using net_wf_context by (auto simp: net_wf_def)
  then have h: "\<not> nc_held ?c" by (simp add: ctx_wf_def)
  have lock: "on_ctx net_ctx_lock (Some a) N = Inr (N\<lparr>nt_contexts := (nt_contexts N)(a \<mapsto> ?c\<lparr>nc_held := True\<rparr>)\<rparr>)"
    using c(1) h by (simp add: on_ctx_def ctx_at_def net_ctx_lock_def)
  have unlock: "on_ctx net_ctx_unlock (Some a) (N\<lparr>nt_contexts := (nt_contexts N)(a \<mapsto> ?c\<lparr>nc_held := True\<rparr>)\<rparr>) = Inr N"
    using same_context [OF c(1)] not_held [OF h] by (simp add: on_ctx_def ctx_at_def net_ctx_unlock_def)
  have r: "applemidi_feedback_responder (Some f) N =
      (if nc_seq ?c \<le> ucast (rtp_seq_1 f) then on_ctx net_ctx_journal_reset (Some a) N else Inr N)"
    using find_by_ssrc_ok [OF wf, of "fb_ssrc f"] p lock unlock
    by (simp add: applemidi_feedback_responder_def ctx_at_def Let_def)
  from journal_ctx_reset_ok [OF c(2)] obtain j where
    j: "net_ctx_journal_reset (Some ?c) = Inr (Some (?c\<lparr>nc_journal := j\<rparr>))" "ctx_wf (?c\<lparr>nc_journal := j\<rparr>)" "\<not> journal_has_data j"
    by blast
  from on_ctx_ok [where f = net_ctx_journal_reset, OF wf a j(1,2)] j(3) r show ?thesis by auto
qed

lemma feedback_create_ok:
  "\<exists>r. applemidi_feedback_create mem_ok ssrc seq = Inr (Some r) \<and> response_ok r \<and> arrives r
     \<lparr>ac_signature = 0xffff, ac_command = NET_APPLEMIDI_CMD_FEEDBACK,
      ac_data = FeedbackData \<lparr>fb_ssrc = ssrc, fb_apple_seq = push_bit 16 (ucast seq)\<rparr>\<rparr>"
proof -
  let ?c = "\<lparr>ac_signature = 0xffff, ac_command = NET_APPLEMIDI_CMD_FEEDBACK,
      ac_data = FeedbackData \<lparr>fb_ssrc = ssrc, fb_apple_seq = push_bit 16 (ucast seq)\<rparr>\<rparr>"
  have fits: "data_fits (ac_command ?c) (ac_data ?c)" by simp
  from net_applemidi_pack_bytes [OF fits, of None] obtain m where
    m: "net_applemidi_pack mem_ok (Some ?c) None = Inr (NET_APPLEMIDI_DONE, Some m, length (command_bytes ?c))"
    "take (length (command_bytes ?c)) m = command_bytes ?c" by blast
  let ?r = "\<lparr>nr_buffer = Some m, nr_len = length (command_bytes ?c)\<rparr>"
  have "applemidi_feedback_create mem_ok ssrc seq = Inr (Some ?r)"
    using m(1) by (simp add: applemidi_feedback_create_def net_applemidi_feedback_create_def net_applemidi_cmd_create_def
        net_response_create_def net_applemidi_cmd_destroy_def)
  moreover have "length (command_bytes ?c) \<le> length m" using m(2) by (metis length_take min.cobounded1)
  moreover have "length (command_bytes ?c) \<noteq> 0" by (simp add: command_bytes_def)
  moreover have w: "wire ?r = command_bytes ?c" using m(2) by (simp add: wire_def)
  moreover have "arrives ?r ?c" using wire_received [OF w fits] unfolding arrives_def by blast
  ultimately show ?thesis by (intro exI [of _ ?r]) (simp add: response_ok_def)
qed

lemma rtp_seq_1_create: "rtp_seq_1 \<lparr>fb_ssrc = s, fb_apple_seq = push_bit 16 (ucast (seq :: 16 word))\<rparr> = seq"
proof -
  have "ucast (drop_bit 16 (push_bit 16 (ucast seq :: 32 word)) :: 32 word) = (seq :: 16 word)"
    by (rule bit_word_eqI) (auto simp: bit_simps)
  then show ?thesis by (simp add: rtp_seq_1_def)
qed

section \<open>The handshake that this side begins\<close>

lemma send_response_ok:
  assumes wf: "net_wf N" and a: "a \<in> set (addresses N)" and r: "nr_buffer r = Some m" "nr_len r \<le> length m" "nr_len r \<noteq> 0"
    and addr: "sock = (if use_control then take (nc_control_address_len (context_of N a)) (nc_control_address (context_of N a))
      else take (nc_data_address_len (context_of N a)) (nc_data_address (context_of N a)))" "sock \<noteq> []"
  shows "send_response (Some r) a use_control N =
    Inr ([Sent \<lparr>dg_control = use_control, dg_address = sock, dg_bytes = wire r\<rparr>], N)"
proof -
  let ?c = "context_of N a"
  from wf a have c: "nt_contexts N a = Some ?c" "ctx_wf ?c" using net_wf_context by (auto simp: net_wf_def)
  from c(2) have h: "\<not> nc_held ?c" and len: "nc_control_address_len ?c \<le> length (nc_control_address ?c)"
    "nc_data_address_len ?c \<le> length (nc_data_address ?c)" by (simp_all add: ctx_wf_def)
  have "locked f ?c = Inr (x, ?c)" if "f (?c\<lparr>nc_held := True\<rparr>) = Inr (x, ?c\<lparr>nc_held := True\<rparr>)" for f and x :: "datagram list"
    using locked_ok [where f = f and c' = "?c\<lparr>nc_held := True\<rparr>", OF h that] not_held [OF h] by simp
  then have "net_ctx_send (Some ?c) (Some m) (nr_len r) use_control =
      Inr ([\<lparr>dg_control = use_control, dg_address = sock, dg_bytes = wire r\<rparr>], Some ?c)"
    using r addr len by (auto simp: net_ctx_send_def wire_def Let_def split: if_splits)
  with c(1) r(1) same_context [OF c(1)] show ?thesis by (simp add: send_response_def ctx_at_def)
qed

lemma ctx_modify_ok:
  assumes "net_wf N" "a \<in> set (addresses N)" "ctx_wf (f (context_of N a))"
  shows "\<exists>N'. ctx_modify a f N = Inr N' \<and> net_wf N' \<and> addresses N' = addresses N \<and>
    context_of N' = (context_of N)(a := f (context_of N a))"
  unfolding ctx_modify_def
  by (rule on_ctx_ok [where f = "\<lambda>p. Inr (map_option f p)", OF assms(1,2) _ assms(3)]) simp

lemma net_response_inv_ok:
  assumes "E = mem_ok" "\<And>n. name = Some n \<Longrightarrow> 0 \<in> set n"
  shows "\<exists>r m. net_response_inv E ssrc initiator name = Inr (Some r) \<and> nr_buffer r = Some m \<and> nr_len r \<le> length m \<and> nr_len r \<noteq> 0 \<and>
    arrives r \<lparr>ac_signature = 0xffff, ac_command = NET_APPLEMIDI_CMD_INV,
      ac_data = InvData \<lparr>inv_ssrc = ssrc, inv_version = 2, inv_initiator = initiator,
        inv_name = Some (c_string (case name of Some n \<Rightarrow> n | None \<Rightarrow> string_bytes ''RaveloxMIDIClient'') @ [0])\<rparr>\<rparr>"
proof -
  let ?n = "case name of Some n \<Rightarrow> n | None \<Rightarrow> string_bytes ''RaveloxMIDIClient''"
  let ?c = "\<lparr>ac_signature = 0xffff, ac_command = NET_APPLEMIDI_CMD_INV,
      ac_data = InvData \<lparr>inv_ssrc = ssrc, inv_version = 2, inv_initiator = initiator, inv_name = Some (c_string ?n @ [0])\<rparr>\<rparr>"
  have n: "0 \<in> set ?n" using assms(2) by (cases name) simp_all
  have "data_fits (ac_command ?c) (ac_data ?c)" by (simp add: c_string_no_0)
  from pack_response_arrives [OF this] obtain r m where
    r: "pack_response mem_ok ?c = Inr (Some r)" "nr_buffer r = Some m" "nr_len r = length (command_bytes ?c)" "nr_len r \<le> length m"
      "arrives r ?c" by blast
  have "nr_len r \<noteq> 0" unfolding r(3) by (simp add: command_bytes_def)
  moreover have "utils_strdup True (Some ?n) = Inr (Some (c_string ?n @ [0]))" using n by (simp add: utils_strdup_def)
  then have "net_response_inv E ssrc initiator name = Inr (Some r)"
    using r(1) assms(1) by (cases name) (simp_all add: net_response_inv_def net_applemidi_inv_create_def net_applemidi_cmd_create_def)
  ultimately show ?thesis using r by blast
qed

text \<open>An invitation for the examples, and the connections after it.\<close>

definition inv_example :: net_applemidi_inv where
  "inv_example = \<lparr>inv_ssrc = 77, inv_version = 2, inv_initiator = 6, inv_name = Some [97, 0]\<rparr>"

definition net_joined :: net where
  "net_joined = (case applemidi_inv_responder env_example None 5004 (Some inv_example) net_start of Inr (_, N) \<Rightarrow> N | _ \<Rightarrow> net_start)"

lemma net_joined_wf:
  "net_wf net_joined" "ssrc_unique net_joined" "peer net_joined 77 = Some 3" "nc_send_ssrc (context_of net_joined 3) = 77"
proof -
  have fresh: "en_address env_example \<notin> set (addresses net_start)" "peer net_start (inv_ssrc inv_example) = None"
    by (simp_all add: net_start_wf(3) peer_def)
  have ok: "cstring_ok None" "cstring_ok (inv_name inv_example)" by (simp_all add: cstring_ok_def inv_example_def)
  from inv_responder_ok [OF net_start_wf(1,2) env_example_ok ok fresh(1), of 5004] fresh(2) obtain r N' a where
    r: "applemidi_inv_responder env_example None 5004 (Some inv_example) net_start = Inr (Some r, N')" "net_wf N'" "ssrc_unique N'"
      "peer N' (inv_ssrc inv_example) = Some a" "set (addresses N') \<subseteq> {en_address env_example}" "a \<in> set (addresses N')"
      "ctx_set_to env_example (inv_ssrc inv_example) (inv_initiator inv_example) None 5004 (inv_name inv_example) (context_of N' a)"
    by (auto simp: net_start_wf(3))
  then have N: "net_joined = N'" by (simp add: net_joined_def)
  from r(5,6) have a: "a = 3" by (auto simp: env_example_def)
  show "net_wf net_joined" "ssrc_unique net_joined" "peer net_joined 77 = Some 3" "nc_send_ssrc (context_of net_joined 3) = 77"
    using r a N by (simp_all add: inv_example_def ctx_set_to_def env_example_def)
qed

section \<open>Properties\<close>

text \<open>C14: However invitations and ends of session follow each other, from whatever peers, no responder
  faults, the table stays in order and no two connections in use share an SSRC. A peer is found
  at the end exactly when its last command was an invitation, and one that was found all along
  and never ended its session still has the context it had.\<close>

theorem session_registry:
  assumes "net_wf N" "ssrc_unique N" "\<forall>e\<in>set es. event_ok e \<and> event_address e \<notin> set (addresses N)"
    "distinct (map event_address es)"
  shows "\<exists>N'. run_events session_event es N = Inr N' \<and> net_wf N' \<and> ssrc_unique N' \<and>
    (\<forall>ssrc. \<exists>p. net_ctx_find_by_ssrc ssrc N' = Inr (p, N') \<and>
      (p \<noteq> None \<longleftrightarrow> known_after event_ssrc event_invites es ssrc (peer N ssrc \<noteq> None)) \<and>
      (peer N ssrc \<noteq> None \<longrightarrow> (\<forall>e\<in>set es. event_ssrc e = ssrc \<longrightarrow> event_invites e) \<longrightarrow> p = peer N ssrc))"
proof -
  from session.run_ok [of N es] assms obtain N' where
    N': "run_events session_event es N = Inr N'" "net_wf N'" "ssrc_unique N'"
      "\<forall>k. peer N' k \<noteq> None \<longleftrightarrow> known_after event_ssrc event_invites es k (peer N k \<noteq> None)"
      "\<forall>k. peer N k \<noteq> None \<longrightarrow> (\<forall>e\<in>set es. event_ssrc e = k \<longrightarrow> event_invites e) \<longrightarrow> peer N' k = peer N k" by blast
  with find_by_ssrc_ok [OF N'(2)] show ?thesis by (intro exI [of _ N'] conjI allI exI) auto
qed

theorem session_registry_witness:
  "\<exists>N'. run_events session_event [Invited env_example None 5004 inv_example, Ended (env_example\<lparr>en_address := 4\<rparr>) inv_example] net_start = Inr N' \<and>
    net_ctx_find_by_ssrc 77 N' = Inr (None, N')"
proof -
  have "env_ok (env_example\<lparr>en_address := 4\<rparr>)" using env_example_ok by (simp add: env_ok_def)
  then have ok: "\<forall>e\<in>set [Invited env_example None 5004 inv_example, Ended (env_example\<lparr>en_address := 4\<rparr>) inv_example].
      event_ok e \<and> event_address e \<notin> set (addresses net_start)"
    using env_example_ok by (simp add: net_start_wf(3) cstring_ok_def inv_example_def)
  have d: "distinct (map event_address [Invited env_example None 5004 inv_example, Ended (env_example\<lparr>en_address := 4\<rparr>) inv_example])"
    by (simp add: env_example_def)
  from session_registry [OF net_start_wf(1,2) ok d] obtain N' p where
    "run_events session_event [Invited env_example None 5004 inv_example, Ended (env_example\<lparr>en_address := 4\<rparr>) inv_example] net_start = Inr N'"
    "net_ctx_find_by_ssrc 77 N' = Inr (p, N')"
    "p \<noteq> None \<longleftrightarrow> known_after event_ssrc event_invites [Invited env_example None 5004 inv_example, Ended (env_example\<lparr>en_address := 4\<rparr>) inv_example] 77
      (peer net_start 77 \<noteq> None)" by blast
  then show ?thesis by (auto simp: inv_example_def)
qed

text \<open>An invitation is accepted: the packet sent back unpacks at the peer to an acceptance with the
  peer's token, the SSRC this side chose and this side's name. The context is there with the
  peer's name, tokens and ports; the second invitation of the handshake, which comes from the
  data port, finds it, changes nothing and gets the same answer.\<close>
theorem invitation_accepted:
  assumes "net_wf N" "ssrc_unique N" "env_ok E" "env_ok E'" "en_config E' = en_config E" "cstring_ok ip" "cstring_ok (inv_name iv)"
    "en_address E \<notin> set (addresses N)" "peer N (inv_ssrc iv) = None" "4 \<le> ptr"
  shows "\<exists>r N' a c r'. applemidi_inv_responder E ip port (Some iv) N = Inr (Some r, N') \<and> net_wf N' \<and>
    net_ctx_find_by_ssrc (inv_ssrc iv) N' = Inr (Some a, N') \<and>
    ctx_set_to E (inv_ssrc iv) (inv_initiator iv) ip port (inv_name iv) (context_of N' a) \<and>
    net_applemidi_unpack mem_ok ptr junk (Some (wire r)) (length (wire r)) = Inr (NET_APPLEMIDI_DONE, Some c) \<and>
    ac_command c = NET_APPLEMIDI_CMD_ACCEPT \<and>
    ac_data c = InvData \<lparr>inv_ssrc = en_random E 0, inv_version = 2, inv_initiator = inv_initiator iv,
      inv_name = Some (service_name E ''RaveloxMIDI'')\<rparr> \<and>
    applemidi_inv_responder E' ip (port + 1) (Some iv) N' = Inr (Some r', N') \<and> wire r' = wire r"
proof -
  let ?n = "service_name E ''RaveloxMIDI''"
  from inv_responder_ok [OF assms(1-3,6-8), of port] assms(9) obtain r N' a where
    r: "applemidi_inv_responder E ip port (Some iv) N = Inr (Some r, N')" "net_wf N'" "ssrc_unique N'"
      "peer N' (inv_ssrc iv) = Some a" "a \<in> set (addresses N')"
      "ctx_set_to E (inv_ssrc iv) (inv_initiator iv) ip port (inv_name iv) (context_of N' a)"
      "wire r = command_bytes (inv_packet NET_APPLEMIDI_CMD_ACCEPT (context_of N' a) ?n)" by auto
  have n: "service_name E' ''RaveloxMIDI'' = ?n" using assms(5) by (simp add: service_name_def)
  from applemidi_inv_reply [OF r(2) assms(4,7) _ r(2,5), of ip "port + 1"] r(4) obtain r' where
    r': "applemidi_inv_responder E' ip (port + 1) (Some iv) N' = Inr (Some r', N')" "wire r' = wire r"
    unfolding n r(7) by auto
  have "data_fits (ac_command (inv_packet NET_APPLEMIDI_CMD_ACCEPT (context_of N' a) ?n)) (ac_data (inv_packet NET_APPLEMIDI_CMD_ACCEPT (context_of N' a) ?n))"
    unfolding service_name_def by (rule inv_packet_fits) simp
  from wire_received [OF r(7) this assms(10), of junk] r r' find_by_ssrc_ok [OF r(2), of "inv_ssrc iv"] show ?thesis
    by (intro exI [of _ r] exI [of _ N'] exI [of _ a] exI [of _ "inv_packet NET_APPLEMIDI_CMD_ACCEPT (context_of N' a) ?n"] exI [of _ r'])
      (simp add: inv_packet_def ctx_set_to_def)
qed

theorem invitation_accepted_witness:
  "\<exists>r N' c. applemidi_inv_responder env_example None 5004 (Some inv_example) net_start = Inr (Some r, N') \<and>
    net_applemidi_unpack mem_ok 8 WildData (Some (wire r)) (length (wire r)) = Inr (NET_APPLEMIDI_DONE, Some c) \<and>
    ac_command c = NET_APPLEMIDI_CMD_ACCEPT"
  using invitation_accepted [OF net_start_wf(1,2) env_example_ok env_example_ok refl, of None inv_example 8 5004 WildData]
  by (auto simp: net_start_wf(3) cstring_ok_def inv_example_def peer_def)

text \<open>C28: Clock synchronisation between two sides that know each other takes three packets: the first
  side's request (count 0), the answer with the second side's time (count 1), the first side's
  answer with its time (count 2), which ends the exchange. The last packet carries the times at
  which the three were made, each since the start of the connection on its side.\<close>

theorem sync_exchange:
  assumes "net_wf NA" "net_wf NB" "en_alloc E0 = mem_ok" "en_alloc E1 = mem_ok" "en_alloc E2 = mem_ok"
    and peers: "peer NA (nc_send_ssrc (context_of NB b)) = Some a" "peer NB (nc_send_ssrc (context_of NA a)) = Some b"
  shows "\<exists>r0 r1 r2 s0 s1 s2.
    net_response_sync E0 (nc_send_ssrc (context_of NA a)) (nc_start (context_of NA a)) = Inr (Some r0) \<and> arrives r0 (sync_packet s0) \<and>
    applemidi_sync_responder gB E1 (Some s0) NB = Inr (Some r1, NB) \<and> arrives r1 (sync_packet s1) \<and>
    applemidi_sync_responder gA E2 (Some s1) NA = Inr (Some r2, NA) \<and> arrives r2 (sync_packet s2) \<and>
    applemidi_sync_responder gB E3 (Some s2) NB = Inr (None, NB) \<and>
    sy_count s0 = 0 \<and> sy_count s1 = 1 \<and> sy_count s2 = 2 \<and>
    sy_timestamp1 s2 = en_now E0 - nc_start (context_of NA a) \<and>
    sy_timestamp2 s2 = en_now E1 - nc_start (context_of NB b) \<and>
    sy_timestamp3 s2 = en_now E2 - nc_start (context_of NA a)"
proof -
  let ?a = "context_of NA a" and ?b = "context_of NB b"
  let ?s0 = "\<lparr>sy_ssrc = nc_send_ssrc ?a, sy_count = 0, sy_padding = [0, 0, 0], sy_timestamp1 = en_now E0 - nc_start ?a,
     sy_timestamp2 = scast (en_random E0 0), sy_timestamp3 = scast (en_random E0 1)\<rparr>"
  let ?s1 = "sync_answer gB (en_now E1) ?b ?s0"
  let ?s2 = "sync_answer gA (en_now E2) ?a ?s1"
  have s1: "sy_count ?s1 = 1" "sy_ssrc ?s1 = nc_send_ssrc ?b" "length (sy_padding ?s1) = 3"
    "sy_timestamp1 ?s1 = en_now E0 - nc_start ?a" "sy_timestamp2 ?s1 = en_now E1 - nc_start ?b"
    by (simp_all add: sync_answer_def sync_count_def)
  have s2: "sy_count ?s2 = 2" "sy_ssrc ?s2 = nc_send_ssrc ?a" "sy_timestamp1 ?s2 = sy_timestamp1 ?s1"
    "sy_timestamp2 ?s2 = sy_timestamp2 ?s1" "sy_timestamp3 ?s2 = en_now E2 - nc_start ?a"
    unfolding sync_answer_def [of gA] Let_def s1(1) by (simp_all add: sync_count_def)
  from net_response_sync_ok [OF assms(3), of "nc_send_ssrc ?a" "nc_start ?a"] obtain r0 where
    r0: "net_response_sync E0 (nc_send_ssrc ?a) (nc_start ?a) = Inr (Some r0)" "arrives r0 (sync_packet ?s0)" by blast
  from sync_responder_ok [OF assms(2,4), of ?s0 b gB] peers(2) obtain r1 where
    r1: "applemidi_sync_responder gB E1 (Some ?s0) NB = Inr (Some r1, NB)" "arrives r1 (sync_packet ?s1)" by auto
  from sync_responder_ok [OF assms(1,5), of ?s1 a gA] peers(1) s1(1-3) obtain r2 where
    r2: "applemidi_sync_responder gA E2 (Some ?s1) NA = Inr (Some r2, NA)" "arrives r2 (sync_packet ?s2)" by auto
  from sync_responder_done [OF assms(2), of ?s2 b gB E3] peers(2) s2(1,2)
  have r3: "applemidi_sync_responder gB E3 (Some ?s2) NB = Inr (None, NB)" by simp
  show ?thesis
    by (intro exI conjI, rule r0(1), rule r0(2), rule r1(1), rule r1(2), rule r2(1), rule r2(2), rule r3)
      (simp_all only: s1 s2 net_applemidi_sync.simps)
qed

theorem sync_exchange_witness:
  "\<exists>r0 r1 s0 s1. net_response_sync env_example 77 (nc_start (context_of net_joined 3)) = Inr (Some r0) \<and> arrives r0 (sync_packet s0) \<and>
    applemidi_sync_responder True env_example (Some s0) net_joined = Inr (Some r1, net_joined) \<and>
    arrives r1 (sync_packet s1) \<and> sy_count s1 = 1"
proof -
  have "en_alloc env_example = mem_ok" by (simp add: env_example_def)
  from sync_exchange [OF net_joined_wf(1,1) this this this, of 3 3 True True env_example] net_joined_wf(3,4) show ?thesis
    by auto
qed

text \<open>C39: Feedback from a peer about its last packet clears the journal of its connection, and nothing
  else, exactly when the number it reports is not below the connection's own. The report has 16
  bits and the connection counts in 32: from the 65536th packet on no feedback ever clears the
  journal again.\<close>

theorem feedback_clears_journal:
  assumes "net_wf N" "peer N ssrc = Some a"
  shows "\<exists>r f. applemidi_feedback_create mem_ok ssrc seq = Inr (Some r) \<and>
    arrives r \<lparr>ac_signature = 0xffff, ac_command = NET_APPLEMIDI_CMD_FEEDBACK, ac_data = FeedbackData f\<rparr> \<and>
    (if unat (nc_seq (context_of N a)) \<le> unat seq
     then \<exists>N' j. applemidi_feedback_responder (Some f) N = Inr N' \<and> net_wf N' \<and> addresses N' = addresses N \<and>
       context_of N' = (context_of N)(a := (context_of N a)\<lparr>nc_journal := j\<rparr>) \<and> \<not> journal_has_data j
     else applemidi_feedback_responder (Some f) N = Inr N) \<and>
    (65536 \<le> unat (nc_seq (context_of N a)) \<longrightarrow> applemidi_feedback_responder (Some f) N = Inr N)"
proof -
  let ?f = "\<lparr>fb_ssrc = ssrc, fb_apple_seq = push_bit 16 (ucast seq)\<rparr>"
  from feedback_create_ok [of ssrc seq] obtain r where
    r: "applemidi_feedback_create mem_ok ssrc seq = Inr (Some r)"
      "arrives r \<lparr>ac_signature = 0xffff, ac_command = NET_APPLEMIDI_CMD_FEEDBACK, ac_data = FeedbackData ?f\<rparr>" by blast
  have "unat (ucast seq :: 32 word) = unat seq"
    using unsigned_less [of seq, where 'a = nat] by (simp add: unsigned_ucast_eq take_bit_nat_eq_self)
  then have le: "nc_seq (context_of N a) \<le> ucast (rtp_seq_1 ?f) \<longleftrightarrow> unat (nc_seq (context_of N a)) \<le> unat seq"
    by (simp add: rtp_seq_1_create word_le_nat_alt)
  have "unat seq < 65536" using unsigned_less [of seq, where 'a = nat] by simp
  with le feedback_responder_ok [OF assms(1), of ?f a] assms(2) r show ?thesis
    by (intro exI [of _ r] exI [of _ ?f] conjI) (auto split: if_splits)
qed

theorem feedback_clears_journal_witness:
  "\<exists>r f. applemidi_feedback_create mem_ok 77 9 = Inr (Some r) \<and>
    arrives r \<lparr>ac_signature = 0xffff, ac_command = NET_APPLEMIDI_CMD_FEEDBACK, ac_data = FeedbackData f\<rparr> \<and>
    (\<exists>N'. applemidi_feedback_responder (Some f) net_joined = Inr N')"
  using feedback_clears_journal [OF net_joined_wf(1,3), of 9] by (auto split: if_splits)

end
