(* ===== verification/Midi_Sender.thy ===== *)
theory Midi_Sender
  imports Net_Connection Midi_Payload Data_Context Data_Queue
begin

text \<open>
  The thread that sends MIDI commands (\<^verbatim>\<open>midi_sender.c\<close>): for every connection but the one a command
  came from it builds an RTP packet of header, MIDI command section and packed journal, sends it to
  the data port and records the command in the journal; then it copies the command to the file for
  inbound MIDI. The build is the one without ALSA. Sending is the list of datagrams handed to the
  network and the octets written to the file, None when the file is not open.
\<close>

unbundle bit_operations_syntax

section \<open>State and operations\<close>

record midi_sender_context =
  sx_ssrc :: "32 word"
  sx_alsa_card_hash :: int

type_synonym sender_store = "midi_sender_context store"
type_synonym sender_items = "(midi_command, nat) items"

definition RTP_PACKET_HEADER_SIZE :: nat where "RTP_PACKET_HEADER_SIZE = 12"

text \<open>The note, controller change or program change of a command; at most one of the three pointers
  of the function is not NULL.\<close>

definition command_event :: "alloc \<Rightarrow> midi_command option \<Rightarrow> channel_event option result" where
  "command_event A command =
     bindr (deref command) (\<lambda>c.
     let message_type = snd (midi_command_map c) in
     if message_type = MIDI_NOTE_OFF \<or> message_type = MIDI_NOTE_ON then
       bindr (midi_note_from_command A command) (\<lambda>(_, n). Inr (map_option Note_event n))
     else if message_type = MIDI_CONTROL_CHANGE then
       bindr (midi_control_from_command A command) (\<lambda>(_, n). Inr (map_option Control_event n))
     else if message_type = MIDI_PROGRAM_CHANGE then
       bindr (midi_program_from_command A command) (\<lambda>(_, n). Inr (map_option Program_event n))
     else Inr None)"

definition record_event :: "alloc \<Rightarrow> channel_event option \<Rightarrow> net_ctx option \<Rightarrow> net_ctx option result" where
  "record_event A e ctx =
     (case e of None \<Rightarrow> Inr ctx
      | Some (Note_event n) \<Rightarrow> net_ctx_add_journal_note A ctx (Some n)
      | Some (Control_event n) \<Rightarrow> net_ctx_add_journal_control A ctx (Some n)
      | Some (Program_event n) \<Rightarrow> net_ctx_add_journal_program A ctx (Some n))"

text \<open>The header every packet begins with.\<close>

definition sender_header :: rtp_packet where
  "sender_header = rtp_packet_zero\<lparr>rp_header := (rp_header rtp_packet_zero)\<lparr>rh_v := RTP_VERSION, rh_p := 0, rh_x := 0,
     rh_cc := 0, rh_m := 0, rh_pt := RTP_DYNAMIC_PAYLOAD_97\<rparr>\<rparr>"

text \<open>Filling the buffer of the packet: its contents and \<^verbatim>\<open>packed_rtp_buffer_len\<close>.\<close>

definition packed_payload_len :: "midi_payload_header \<Rightarrow> nat" where
  "packed_payload_len h = 1 + unat (ph_len h) + (if ph_len h > 15 then 1 else 0)"

definition fill_packet ::
    "rtp_packet_header \<Rightarrow> midi_payload_header \<Rightarrow> bytes option \<Rightarrow> bytes option \<Rightarrow> nat \<Rightarrow> (bytes \<times> nat) result" where
  "fill_packet rh h payload_buffer packed_journal packed_journal_len =
     bindr (rtp_put_header rh
       (Some (replicate (RTP_PACKET_HEADER_SIZE + packed_payload_len h + packed_journal_len) 0, 0)) 0) (\<lambda>(p, len).
     bindr (deref p) (\<lambda>(m, off).
     bindr (mem_write m off (payload_header_bytes h)) (\<lambda>m.
     let off = off + length (payload_header_bytes h);
         len = len + length (payload_header_bytes h) in
     bindr (if ph_len h = 0 then Inr [] else bindr (deref payload_buffer) (\<lambda>b. mem_read b 0 (unat (ph_len h)))) (\<lambda>xs.
     bindr (mem_write m off xs) (\<lambda>m.
     let off = off + unat (ph_len h);
         len = len + unat (ph_len h) in
     if packed_journal_len > 0 then
       bindr (deref packed_journal) (\<lambda>j.
       bindr (mem_read j 0 packed_journal_len) (\<lambda>xs.
       bindr (mem_write m off xs) (\<lambda>m. Inr (m, len + packed_journal_len))))
     else Inr (m, len))))))"

text \<open>One turn of the loop over the connections, for the connection \<open>c\<close> at the time \<open>now\<close>: the
  datagrams, the payload (whose flag J it sets or clears) and the connection afterwards.\<close>

definition send_to_connection ::
    "alloc \<Rightarrow> 64 word \<Rightarrow> bool \<Rightarrow> 32 word \<Rightarrow> channel_event option \<Rightarrow> midi_payload \<Rightarrow> net_ctx \<Rightarrow>
     (datagram list \<times> midi_payload \<times> net_ctx) result" where
  "send_to_connection A now journal_enabled originator_ssrc e pl c =
     (if nc_ssrc c = originator_ssrc then Inr ([], pl, c)
      else
        bindr (net_ctx_journal_pack A (Some c)) (\<lambda>(packed_journal, packed_journal_len, ctx).
        bindr (deref (if packed_journal_len > 0 then midi_payload_set_j (Some pl) else midi_payload_unset_j (Some pl))) (\<lambda>pl.
        bindr (deref (pl_header pl)) (\<lambda>h.
        bindr (if \<not> A (Site ''midi_sender_send_single:packed_rtp_buffer'') then Inr (False, [], ctx)
               else
                 bindr (net_ctx_increment_seq ctx) (\<lambda>ctx.
                 bindr (deref (net_ctx_update_rtp_fields now ctx (Some sender_header))) (\<lambda>pkt.
                 bindr (fill_packet (rp_header pkt) h (pl_buffer pl) packed_journal packed_journal_len) (\<lambda>(m, len).
                 bindr (net_ctx_send ctx (Some m) len False) (\<lambda>(d, ctx). Inr (True, d, ctx))))))
          (\<lambda>(packet_ready, d, ctx).
        bindr (if \<not> packet_ready \<or> \<not> journal_enabled then Inr ctx else record_event A e ctx) (\<lambda>ctx.
        bindr (deref ctx) (\<lambda>c. Inr (d, pl, c))))))))"

text \<open>The loop, from connection \<open>i\<close> on; every turn has its own time and its own allocations.\<close>

fun send_to_connections ::
    "alloc \<Rightarrow> (nat \<Rightarrow> 64 word) \<Rightarrow> bool \<Rightarrow> 32 word \<Rightarrow> channel_event option \<Rightarrow> nat \<Rightarrow> nat \<Rightarrow> midi_payload \<Rightarrow> net \<Rightarrow>
     (datagram list \<times> midi_payload \<times> net) result" where
  "send_to_connections A now journal_enabled originator_ssrc e i 0 pl N = Inr ([], pl, N)"
| "send_to_connections A now journal_enabled originator_ssrc e i (Suc left) pl N =
     bindr (net_ctx_find_by_index i N) (\<lambda>current_ctx.
     case current_ctx of
       None \<Rightarrow> send_to_connections A now journal_enabled originator_ssrc e (Suc i) left pl N
     | Some a \<Rightarrow>
         bindr (ctx_at (nt_contexts N) a) (\<lambda>c.
         bindr (send_to_connection (\<lambda>s. A (Iter i s)) (now i) journal_enabled originator_ssrc e pl c) (\<lambda>(d, pl, c).
         bindr (send_to_connections A now journal_enabled originator_ssrc e (Suc i) left pl
                  (N\<lparr>nt_contexts := (nt_contexts N)(a \<mapsto> c)\<rparr>)) (\<lambda>(ds, pl, N).
         Inr (d @ ds, pl, N)))))"

text \<open>What is written to the file for inbound MIDI.\<close>

definition raw_command :: "alloc \<Rightarrow> bool \<Rightarrow> midi_command \<Rightarrow> bytes option result" where
  "raw_command A inbound_midi c =
     (if \<not> inbound_midi \<or> \<not> A (Site ''midi_sender_send_single:raw_buffer'') then Inr None
      else
        let m = replicate (2 + mc_data_len c) 0 in
        bindr (mem_write m 0 [mc_status c]) (\<lambda>m.
        bindr (if mc_data_len c > 0
               then bindr (deref (mc_data c)) (\<lambda>d. bindr (mem_read d 0 (mc_data_len c)) (mem_write m 1))
               else Inr m) (\<lambda>m.
        bindr (mem_read m 0 (1 + mc_data_len c)) (\<lambda>xs. Inr (Some xs)))))"

text \<open>\<open>inbound_midi\<close> says whether the file is open, \<open>junk\<close> what \<^verbatim>\<open>malloc\<close> returns for the header of
  the payload.\<close>

definition midi_sender_send_single ::
    "alloc \<Rightarrow> (nat \<Rightarrow> 64 word) \<Rightarrow> midi_payload_header \<Rightarrow> bool \<Rightarrow> bool \<Rightarrow> midi_command option \<Rightarrow> 32 word \<Rightarrow> net \<Rightarrow>
     (datagram list \<times> bytes option \<times> net) result" where
  "midi_sender_send_single A now junk journal_enabled inbound_midi command originator_ssrc N =
     bindr (midi_command_to_payload A junk command) (\<lambda>single_midi_payload.
     case single_midi_payload of None \<Rightarrow> Inr ([], None, N)
     | Some pl \<Rightarrow>
         bindr (command_event A command) (\<lambda>e.
         bindr (net_ctx_get_num_connections N) (\<lambda>(total_connections, N).
         bindr (send_to_connections A now journal_enabled originator_ssrc e 0 total_connections pl N) (\<lambda>(ds, _, N).
         bindr (deref command) (\<lambda>c.
         bindr (raw_command A inbound_midi c) (\<lambda>raw. Inr (ds, raw, N)))))))"

text \<open>The action of the queue. The SSRC is read from the context before its reference is given up;
  the command is freed in the end.\<close>

definition midi_sender_handler ::
    "alloc \<Rightarrow> (nat \<Rightarrow> 64 word) \<Rightarrow> midi_payload_header \<Rightarrow> bool \<Rightarrow> bool \<Rightarrow> midi_command option \<Rightarrow> nat option \<Rightarrow>
     sender_store \<Rightarrow> net \<Rightarrow> (datagram list \<times> bytes option \<times> sender_store \<times> net) result" where
  "midi_sender_handler A now junk journal_enabled inbound_midi data context S N =
     (case data of None \<Rightarrow> Inr ([], None, S, N)
      | Some command \<Rightarrow>
          bindr (case context of None \<Rightarrow> Inr (0, S)
                 | Some a \<Rightarrow>
                     bindr (context_at S a) (\<lambda>data_context.
                     bindr (data_context_release (Some a) S) (\<lambda>(_, S).
                     Inr (case dx_data data_context of None \<Rightarrow> 0 | Some sender_context \<Rightarrow> sx_ssrc sender_context, S))))
            (\<lambda>(originator_ssrc, S).
          bindr (midi_sender_send_single A now junk journal_enabled inbound_midi (Some command) originator_ssrc N)
            (\<lambda>(ds, raw, N). Inr (ds, raw, S, N))))"

definition midi_sender_add ::
    "alloc \<Rightarrow> nat \<Rightarrow> nat option \<Rightarrow> midi_command option \<Rightarrow> nat option \<Rightarrow> data_queue option \<Rightarrow> sender_items \<Rightarrow> sender_store \<Rightarrow>
     (data_queue option \<times> sender_items \<times> sender_store \<times> bool) result" where
  "midi_sender_add A a junk data context midi_queue H S =
     (if data = None then Inr (midi_queue, H, S, False)
      else
        bindr (data_context_acquire context S) (\<lambda>S.
        bindr (data_queue_add A a junk midi_queue data context H) (\<lambda>(midi_queue, H, signal).
        Inr (midi_queue, H, S, signal))))"

definition midi_sender_init :: "alloc \<Rightarrow> kv_table option \<Rightarrow> (data_queue option \<times> bool) result" where
  "midi_sender_init A items =
     bindr (data_queue_create A (Some ''MIDI sender'') True) (\<lambda>midi_queue.
     bindr (config_string_get items (Some ''journal.write'')) (\<lambda>v. Inr (midi_queue, is_yes v)))"

text \<open>Stopping, after which the queue thread is joined; \<open>fuel\<close> bounds the number of items left.\<close>

definition midi_sender_stop ::
    "nat \<Rightarrow> data_queue option \<Rightarrow> sender_items \<Rightarrow> (data_queue option option \<times> sender_items) option result" where
  "midi_sender_stop fuel midi_queue H =
     bindr (data_queue_stop midi_queue) (\<lambda>(midi_queue, _). data_queue_destroy fuel (Some midi_queue) H)"

section \<open>Packets\<close>

text \<open>A packed payload: the flag B is left out by the sender, so only J tells payloads apart.\<close>

definition journal_bytes :: "journal option \<Rightarrow> bytes" where
  "journal_bytes p =
     (case p of Some j \<Rightarrow> (case jn_header j of
          Some h \<Rightarrow> if jh_totchan h > 0 then journal_header_bytes h @ channels_bytes (jn_channels j) else []
        | None \<Rightarrow> [])
      | None \<Rightarrow> [])"

definition midi_bytes :: "midi_command \<Rightarrow> bytes" where
  "midi_bytes c = mc_status c # (case mc_data c of None \<Rightarrow> [] | Some d \<Rightarrow> d)"

definition sent_payload_header :: "midi_command \<Rightarrow> bool \<Rightarrow> midi_payload_header" where
  "sent_payload_header c j =
     \<lparr>ph_B = 0, ph_J = one_if j, ph_Z = 0, ph_P = 0, ph_len = of_nat (length (midi_bytes c))\<rparr>"

definition sent_rtp_header :: "64 word \<Rightarrow> net_ctx \<Rightarrow> rtp_packet_header" where
  "sent_rtp_header now x =
     \<lparr>rh_v = 2, rh_p = 0, rh_x = 0, rh_cc = 0, rh_m = 0, rh_pt = 97, rh_seq = ucast (nc_seq x + 1),
      rh_timestamp = ucast (now - nc_start x), rh_ssrc = nc_send_ssrc x\<rparr>"

definition sent_packet :: "64 word \<Rightarrow> midi_command \<Rightarrow> net_ctx \<Rightarrow> bytes" where
  "sent_packet now c x =
     rtp_header_bytes (sent_rtp_header now x) @
     payload_header_bytes (sent_payload_header c (journal_bytes (nc_journal x) \<noteq> [])) @ midi_bytes c @
     journal_bytes (nc_journal x)"

text \<open>A command with its data, whose length the payload header can hold.\<close>

definition command_wf :: "midi_command \<Rightarrow> bool" where
  "command_wf c \<longleftrightarrow> bit (mc_status c) 7 \<and> length (midi_bytes c) = mc_data_len c + 1 \<and> mc_data_len c < 2 ^ 16 - 1"

lemma length_payload_header_bytes: "1 + length (payload_header_bytes h) = 2 + (if ph_len h > 15 then 1 else 0)"
  by (auto simp: payload_header_bytes_def not_less)

lemma fill_packet_ok:
  assumes b: "length b = unat (ph_len h)"
  shows "fill_packet rh h (Some b) (if j = [] then None else Some j) (length j) =
    Inr (rtp_header_bytes rh @ payload_header_bytes h @ b @ j, length (rtp_header_bytes rh @ payload_header_bytes h @ b @ j))"
proof -
  have n: "packed_payload_len h = length (payload_header_bytes h) + length b"
    using length_payload_header_bytes [of h] b by (simp add: packed_payload_len_def)
  have rd: "(if ph_len h = 0 then Inr [] else bindr (deref (Some b)) (\<lambda>b. mem_read b 0 (unat (ph_len h)))) = (Inr b :: bytes result)"
    using b by (cases "ph_len h = 0") auto
  show ?thesis
    unfolding fill_packet_def rd using b
    by (cases "j = []") (simp_all add: n RTP_PACKET_HEADER_SIZE_def rtp_put_header_ok)
qed

lemma journal_ctx_pack_ok:
  assumes "ctx_wf c"
  shows "\<exists>j'. net_ctx_journal_pack mem_ok (Some c) =
      Inr (if journal_bytes (nc_journal c) = [] then None else Some (journal_bytes (nc_journal c)),
        length (journal_bytes (nc_journal c)), Some (c\<lparr>nc_journal := j'\<rparr>)) \<and> ctx_wf (c\<lparr>nc_journal := j'\<rparr>) \<and>
    (j' = None \<longleftrightarrow> nc_journal c = None)"
proof -
  let ?b = "journal_bytes (nc_journal c)"
  have "\<exists>j'. journal_pack mem_ok (nc_journal c) = Inr (if ?b = [] then None else Some ?b, length ?b, j') \<and>
      (case j' of None \<Rightarrow> True | Some j \<Rightarrow> journal_wf j) \<and> (j' = None \<longleftrightarrow> nc_journal c = None)"
  proof (cases "nc_journal c")
    case None
    then show ?thesis by (simp add: journal_bytes_def journal_pack_def)
  next
    case (Some j)
    with assms have wf: "journal_wf j" by (simp add: ctx_wf_def)
    then obtain h where h: "jn_header j = Some h" by (auto simp: journal_wf_def)
    show ?thesis
    proof (cases "0 < jh_totchan h")
      case True
      from journal_pack_ok [OF wf h True] Some h True show ?thesis
        by (auto simp: journal_bytes_def journal_header_bytes_def)
    next
      case False
      then have "\<not> journal_has_data (Some j)" using h by (simp add: journal_has_data_def)
      from journal_pack_no_data [OF this] Some h False wf show ?thesis by (simp add: journal_bytes_def)
    qed
  qed
  then obtain j' where j': "journal_pack mem_ok (nc_journal c) = Inr (if ?b = [] then None else Some ?b, length ?b, j')"
    "case j' of None \<Rightarrow> True | Some j \<Rightarrow> journal_wf j" "j' = None \<longleftrightarrow> nc_journal c = None" by (elim exE conjE) (rule that)
  with assms have "ctx_wf (c\<lparr>nc_journal := j'\<rparr>)" by (simp add: ctx_wf_def)
  moreover have "net_ctx_journal_pack mem_ok (Some c) =
      Inr (if ?b = [] then None else Some ?b, length ?b, Some (c\<lparr>nc_journal := j'\<rparr>))"
    using j'(1) assms by (cases c) (simp add: net_ctx_journal_pack_def locked_def net_ctx_lock_def net_ctx_unlock_def ctx_wf_def)
  ultimately show ?thesis using j'(3) by (intro exI [of _ j'] conjI)
qed

lemma record_event_ok:
  assumes wf: "ctx_wf c" and e: "\<forall>x. e = Some x \<longrightarrow> event_fits x"
  shows "\<exists>j'. record_event mem_ok e (Some c) = Inr (Some (c\<lparr>nc_journal := j'\<rparr>)) \<and> ctx_wf (c\<lparr>nc_journal := j'\<rparr>) \<and>
    (case (e, nc_journal c) of (Some x, Some j) \<Rightarrow> journal_event (nc_seq c) x (Some j) = Inr j' | _ \<Rightarrow> j' = nc_journal c)"
proof (cases e)
  case None
  with wf show ?thesis by (intro exI [of _ "nc_journal c"]) (simp add: record_event_def)
next
  case (Some x)
  have none: "journal_event seq x None = Inr None" for seq
    by (cases x) (simp_all add: midi_journal_add_note_def midi_journal_add_control_def midi_journal_add_program_def)
  obtain j' where j': "journal_event (nc_seq c) x (nc_journal c) = Inr j'" "case j' of None \<Rightarrow> True | Some j \<Rightarrow> journal_wf j"
  proof (cases "nc_journal c")
    case None
    with that [of None] none show ?thesis by simp
  next
    case (Some j)
    with wf have "journal_wf j" by (simp add: ctx_wf_def)
    from journal_event_ok [OF this e [rule_format, OF \<open>e = Some x\<close>], of "nc_seq c"] Some that show ?thesis
      by (auto simp: journal_recorded_def)
  qed
  have "\<not> nc_held c" using wf by (simp add: ctx_wf_def)
  with j'(1) Some have "record_event mem_ok e (Some c) = Inr (Some (c\<lparr>nc_journal := j'\<rparr>))"
    by (cases x; cases c) (simp_all add: record_event_def net_ctx_add_journal_note_def net_ctx_add_journal_control_def
        net_ctx_add_journal_program_def locked_def net_ctx_lock_def net_ctx_unlock_def)
  moreover have "ctx_wf (c\<lparr>nc_journal := j'\<rparr>)" using wf j'(2) by (simp add: ctx_wf_def)
  ultimately show ?thesis using j'(1) Some none by (intro exI [of _ j']) (auto split: option.splits)
qed

section \<open>One connection\<close>

definition payload_for :: "midi_command \<Rightarrow> midi_payload \<Rightarrow> bool" where
  "payload_for c pl \<longleftrightarrow>
     (\<exists>j. pl = \<lparr>pl_header = Some (sent_payload_header c j), pl_buffer = Some (midi_bytes c)\<rparr>)"

definition datagrams_to :: "64 word \<Rightarrow> midi_command \<Rightarrow> net_ctx \<Rightarrow> datagram list" where
  "datagrams_to now c x =
     (if nc_data_address_len x = 0 then []
      else [\<lparr>dg_control = False, dg_address = take (nc_data_address_len x) (nc_data_address x), dg_bytes = sent_packet now c x\<rparr>])"

text \<open>What sending leaves of a connection: the next sequence number, and in its journal, when it is
  kept, the event under that number.\<close>

definition connection_after :: "bool \<Rightarrow> channel_event option \<Rightarrow> net_ctx \<Rightarrow> net_ctx \<Rightarrow> bool" where
  "connection_after journal_enabled e x x' \<longleftrightarrow>
     ctx_wf x' \<and> (\<exists>j. x' = x\<lparr>nc_seq := nc_seq x + 1, nc_journal := j\<rparr>) \<and>
     (\<forall>ev. journal_enabled \<longrightarrow> e = Some ev \<longrightarrow> nc_journal x \<noteq> None \<longrightarrow>
        (\<exists>j h. nc_journal x' = Some j \<and> jn_header j = Some h \<and> jh_seq h = ucast (nc_seq x + 1) \<and>
               jn_channels j ! event_channel ev \<noteq> None))"

lemma journal_recorded_at:
  assumes "journal_recorded flag k seq c j j'" "k < 16" "journal_wf j"
  shows "(\<exists>h. jn_header j' = Some h \<and> jh_seq h = ucast seq) \<and> jn_channels j' ! k \<noteq> None"
  using assms by (auto simp: journal_recorded_def journal_wf_def MAX_MIDI_CHANNELS_def)

lemma record_event_kept:
  assumes wf: "ctx_wf c" and e: "event_fits ev" and j: "nc_journal c = Some j"
  shows "\<exists>j' h. record_event mem_ok (Some ev) (Some c) = Inr (Some (c\<lparr>nc_journal := Some j'\<rparr>)) \<and>
    ctx_wf (c\<lparr>nc_journal := Some j'\<rparr>) \<and> jn_header j' = Some h \<and> jh_seq h = ucast (nc_seq c) \<and>
    jn_channels j' ! event_channel ev \<noteq> None"
proof -
  have jw: "journal_wf j" using wf j by (simp add: ctx_wf_def)
  from journal_event_ok [OF jw e, of "nc_seq c"] obtain flag x j' where
    j': "journal_event (nc_seq c) ev (Some j) = Inr (Some j')" "journal_recorded flag (event_channel ev) (nc_seq c) x j j'" by blast
  with record_event_ok [OF wf, of "Some ev"] e j
  have "record_event mem_ok (Some ev) (Some c) = Inr (Some (c\<lparr>nc_journal := Some j'\<rparr>))" "ctx_wf (c\<lparr>nc_journal := Some j'\<rparr>)"
    by auto
  with journal_recorded_at [OF j'(2) event_channel_less jw] show ?thesis by blast
qed

text \<open>Up to the recording of the event sending goes the same way whatever the event is.\<close>

lemma send_to_connection_eq:
  assumes wf: "ctx_wf x" and cmd: "command_wf c" and pl: "payload_for c pl" and new: "nc_ssrc x \<noteq> originator"
  shows "\<exists>pl' j. send_to_connection mem_ok now journal_enabled originator e pl x =
      bindr (if journal_enabled then record_event mem_ok e (Some (x\<lparr>nc_seq := nc_seq x + 1, nc_journal := j\<rparr>))
             else Inr (Some (x\<lparr>nc_seq := nc_seq x + 1, nc_journal := j\<rparr>))) (\<lambda>ctx.
      bindr (deref ctx) (\<lambda>y. Inr (datagrams_to now c x, pl', y))) \<and>
    payload_for c pl' \<and> ctx_wf (x\<lparr>nc_seq := nc_seq x + 1, nc_journal := j\<rparr>) \<and> (j = None \<longleftrightarrow> nc_journal x = None)"
proof -
  let ?jb = "journal_bytes (nc_journal x)"
  from journal_ctx_pack_ok [OF wf] obtain j1 where
    j1: "net_ctx_journal_pack mem_ok (Some x) = Inr (if ?jb = [] then None else Some ?jb, length ?jb, Some (x\<lparr>nc_journal := j1\<rparr>))"
      "ctx_wf (x\<lparr>nc_journal := j1\<rparr>)" "j1 = None \<longleftrightarrow> nc_journal x = None" by (elim exE conjE) (rule that)
  let ?x = "x\<lparr>nc_seq := nc_seq x + 1, nc_journal := j1\<rparr>"
  let ?h = "sent_payload_header c (?jb \<noteq> [])"
  let ?pl = "\<lparr>pl_header = Some ?h, pl_buffer = Some (midi_bytes c)\<rparr>"
  let ?p = "sent_packet now c x"
  have wf2: "ctx_wf ?x" and free: "\<not> nc_held x" using j1(2) wf by (simp_all add: ctx_wf_def)
  have set_j: "(if length ?jb > 0 then midi_payload_set_j (Some pl) else midi_payload_unset_j (Some pl)) = Some ?pl"
    using pl by (auto simp: payload_for_def midi_payload_set_j_def midi_payload_unset_j_def with_header_def
        sent_payload_header_def one_if_def)
  have len: "length (midi_bytes c) = unat (ph_len ?h)"
    using cmd unat_of_nat_less [of "length (midi_bytes c)", where 'a = 16] by (simp add: command_wf_def sent_payload_header_def)
  have seq: "net_ctx_increment_seq (Some (x\<lparr>nc_journal := j1\<rparr>)) = Inr (Some ?x)"
    using free by (cases x) (simp add: net_ctx_increment_seq_def locked_def net_ctx_lock_def net_ctx_unlock_def)
  have hdr: "net_ctx_update_rtp_fields now (Some ?x) (Some sender_header) =
      Some (sender_header\<lparr>rp_header := sent_rtp_header now x\<rparr>)"
    by (simp add: net_ctx_update_rtp_fields_def sender_header_def sent_rtp_header_def rtp_packet_zero_def RTP_VERSION_def
        RTP_DYNAMIC_PAYLOAD_97_def)
  have fill: "fill_packet (sent_rtp_header now x) ?h (Some (midi_bytes c)) (if ?jb = [] then None else Some ?jb) (length ?jb) =
      Inr (?p, length ?p)"
    using fill_packet_ok [OF len] by (simp add: sent_packet_def)
  have ne: "?p \<noteq> []" by (simp add: sent_packet_def midi_bytes_def)
  have send: "net_ctx_send (Some ?x) (Some ?p) (length ?p) False = Inr (datagrams_to now c x, Some ?x)"
    using wf free ne
    by (cases x) (simp add: net_ctx_send_def locked_def net_ctx_lock_def net_ctx_unlock_def datagrams_to_def ctx_wf_def)
  have "send_to_connection mem_ok now journal_enabled originator e pl x =
      bindr (if journal_enabled then record_event mem_ok e (Some ?x) else Inr (Some ?x)) (\<lambda>ctx.
      bindr (deref ctx) (\<lambda>y. Inr (datagrams_to now c x, ?pl, y)))"
    unfolding send_to_connection_def j1(1) using new set_j seq hdr fill send by (simp add: Let_def)
  moreover have "payload_for c ?pl" unfolding payload_for_def by blast
  ultimately show ?thesis using wf2 j1(3) by - (rule exI [of _ ?pl], rule exI [of _ j1], intro conjI; assumption)
qed

lemma send_to_connection_ok:
  assumes wf: "ctx_wf x" and cmd: "command_wf c" and pl: "payload_for c pl" and new: "nc_ssrc x \<noteq> originator"
    and e: "journal_enabled \<longrightarrow> (\<forall>ev. e = Some ev \<longrightarrow> event_fits ev)"
  shows "\<exists>pl' x'. send_to_connection mem_ok now journal_enabled originator e pl x = Inr (datagrams_to now c x, pl', x') \<and>
    payload_for c pl' \<and> connection_after journal_enabled e x x'"
proof -
  from send_to_connection_eq [OF assms(1-4), of now journal_enabled e] obtain pl' j1 where
    eq: "send_to_connection mem_ok now journal_enabled originator e pl x =
      bindr (if journal_enabled then record_event mem_ok e (Some (x\<lparr>nc_seq := nc_seq x + 1, nc_journal := j1\<rparr>))
             else Inr (Some (x\<lparr>nc_seq := nc_seq x + 1, nc_journal := j1\<rparr>))) (\<lambda>ctx.
      bindr (deref ctx) (\<lambda>y. Inr (datagrams_to now c x, pl', y)))"
    and pl': "payload_for c pl'" and wf2: "ctx_wf (x\<lparr>nc_seq := nc_seq x + 1, nc_journal := j1\<rparr>)"
    and j1: "j1 = None \<longleftrightarrow> nc_journal x = None" by (elim exE conjE) (rule that)
  let ?x = "x\<lparr>nc_seq := nc_seq x + 1, nc_journal := j1\<rparr>"
  show ?thesis
  proof (cases "journal_enabled \<and> e \<noteq> None \<and> j1 \<noteq> None")
    case False
    have "(if journal_enabled then record_event mem_ok e (Some ?x) else Inr (Some ?x)) = Inr (Some ?x)"
    proof (cases journal_enabled)
      case True
      from record_event_ok [OF wf2 e [THEN mp, OF True]] obtain j' where
        "record_event mem_ok e (Some ?x) = Inr (Some (?x\<lparr>nc_journal := j'\<rparr>))"
        "case (e, nc_journal ?x) of (Some x, Some j) \<Rightarrow> journal_event (nc_seq ?x) x (Some j) = Inr j' | _ \<Rightarrow> j' = nc_journal ?x"
        by (elim exE conjE) (rule that)
      with False True show ?thesis by (auto split: option.splits)
    qed simp
    with eq pl' False j1 wf2 show ?thesis
      by (intro exI [of _ pl'] exI [of _ ?x]) (auto simp: connection_after_def)
  next
    case True
    then obtain ev j where ev: "e = Some ev" "j1 = Some j" "journal_enabled" by blast
    have "nc_journal ?x = Some j" using ev(2) by simp
    from record_event_kept [OF wf2 e [rule_format, OF ev(3,1)] this] obtain j' h where
      "record_event mem_ok e (Some ?x) = Inr (Some (?x\<lparr>nc_journal := Some j'\<rparr>))" "ctx_wf (?x\<lparr>nc_journal := Some j'\<rparr>)"
      "jn_header j' = Some h" "jh_seq h = ucast (nc_seq x + 1)" "jn_channels j' ! event_channel ev \<noteq> None"
      using ev(1) by auto
    then show ?thesis using eq pl' ev
      by (intro exI [of _ pl'] exI [of _ "?x\<lparr>nc_journal := Some j'\<rparr>"]) (simp add: connection_after_def, blast)
  qed
qed

section \<open>All connections\<close>

definition sent_by_turn :: "(nat \<Rightarrow> 64 word) \<Rightarrow> 32 word \<Rightarrow> midi_command \<Rightarrow> net \<Rightarrow> nat \<Rightarrow> datagram list" where
  "sent_by_turn now originator c N i =
     (let x = context_of N (addresses N ! i) in if nc_ssrc x = originator then [] else datagrams_to (now i) c x)"

definition turn_done :: "bool \<Rightarrow> 32 word \<Rightarrow> channel_event option \<Rightarrow> net_ctx \<Rightarrow> net_ctx \<Rightarrow> bool" where
  "turn_done journal_enabled originator e x x' \<longleftrightarrow>
     (if nc_ssrc x = originator then x' = x else connection_after journal_enabled e x x')"

lemma send_turn_ok:
  assumes "ctx_wf x" "command_wf c" "payload_for c pl" "journal_enabled \<longrightarrow> (\<forall>ev. e = Some ev \<longrightarrow> event_fits ev)"
  shows "\<exists>pl' x'. send_to_connection mem_ok now journal_enabled originator e pl x =
      Inr (if nc_ssrc x = originator then [] else datagrams_to now c x, pl', x') \<and>
    payload_for c pl' \<and> turn_done journal_enabled originator e x x' \<and> ctx_wf x'"
proof (cases "nc_ssrc x = originator")
  case True
  with assms show ?thesis by (simp add: send_to_connection_def turn_done_def)
next
  case False
  from send_to_connection_ok [OF assms(1-3) False assms(4), of now] False show ?thesis
    unfolding turn_done_def by (auto simp: connection_after_def)
qed

lemma send_to_connections_ok:
  assumes "net_wf N" "command_wf c" "payload_for c pl" "journal_enabled \<longrightarrow> (\<forall>ev. e = Some ev \<longrightarrow> event_fits ev)"
    and "i + n = length (addresses N)"
  shows "\<exists>pl' N'. send_to_connections mem_ok now journal_enabled originator e i n pl N =
      Inr (concat (map (sent_by_turn now originator c N) [i..<i + n]), pl', N') \<and> net_wf N' \<and> addresses N' = addresses N \<and>
    (\<forall>k<i + n. if k < i then context_of N' (addresses N ! k) = context_of N (addresses N ! k)
       else turn_done journal_enabled originator e (context_of N (addresses N ! k)) (context_of N' (addresses N ! k)))"
  using assms
proof (induction n arbitrary: i pl N)
  case 0
  then show ?case by simp
next
  case (Suc n)
  let ?a = "addresses N ! i"
  have i: "i < length (addresses N)" and a: "?a \<in> set (addresses N)" using Suc.prems(5) by simp_all
  have wfa: "ctx_wf (context_of N ?a)" using Suc.prems(1) a by (simp add: net_wf_def)
  from send_turn_ok [OF wfa Suc.prems(2-4), of "now i" originator] obtain pl1 x where
    x: "send_to_connection mem_ok (now i) journal_enabled originator e pl (context_of N ?a) =
        Inr (sent_by_turn now originator c N i, pl1, x)" "payload_for c pl1"
      "turn_done journal_enabled originator e (context_of N ?a) x" "ctx_wf x"
    unfolding sent_by_turn_def Let_def by blast
  let ?N = "N\<lparr>nt_contexts := (nt_contexts N)(?a \<mapsto> x)\<rparr>"
  note N = context_update [OF Suc.prems(1) a x(4)]
  have dist: "distinct (addresses N)" using Suc.prems(1) by (simp add: net_wf_def)
  then have other: "context_of ?N (addresses N ! k) = context_of N (addresses N ! k)" if "k \<noteq> i" "k < length (addresses N)" for k
    using that i by (simp add: N(3) nth_eq_iff_index_eq)
  have n: "Suc i + n = length (addresses ?N)" using Suc.prems(5) N(2) by simp
  from Suc.IH [OF N(1) Suc.prems(2) x(2) Suc.prems(4) n] obtain pl' N' where
    IH: "send_to_connections mem_ok now journal_enabled originator e (Suc i) n pl1 ?N =
        Inr (concat (map (sent_by_turn now originator c ?N) [Suc i..<Suc i + n]), pl', N')" "net_wf N'" "addresses N' = addresses N"
      "\<forall>k<Suc i + n. if k < Suc i then context_of N' (addresses N ! k) = context_of ?N (addresses N ! k)
       else turn_done journal_enabled originator e (context_of ?N (addresses N ! k)) (context_of N' (addresses N ! k))"
    unfolding N(2) by blast
  have map_eq: "map (sent_by_turn now originator c ?N) [Suc i..<Suc i + n] = map (sent_by_turn now originator c N) [Suc i..<Suc i + n]"
    using other n N(2) by (intro map_cong refl) (simp add: sent_by_turn_def N(2))
  have upt: "[i..<i + Suc n] = i # [Suc i..<Suc i + n]" by (simp add: upt_conv_Cons del: upt_Suc)
  have "send_to_connections mem_ok now journal_enabled originator e i (Suc n) pl N =
      Inr (concat (map (sent_by_turn now originator c N) [i..<i + Suc n]), pl', N')"
    using i IH(1) x(1) unfolding upt map_eq
    by (simp add: find_by_index_ok [OF Suc.prems(1)] ctx_at_def net_wf_context [OF Suc.prems(1) a] del: upt_Suc)
  moreover have "if k < i then context_of N' (addresses N ! k) = context_of N (addresses N ! k)
       else turn_done journal_enabled originator e (context_of N (addresses N ! k)) (context_of N' (addresses N ! k))"
    if "k < i + Suc n" for k
    using IH(4) [rule_format, of k] that other [of k] x(3) n N(2,3) by (cases k i rule: linorder_cases) auto
  ultimately show ?case using IH(2,3) by blast
qed

section \<open>Commands\<close>

text \<open>A command whose event the journal can take: not the release of a note whose number is a
  multiple of 8.\<close>

definition command_complete :: "midi_command \<Rightarrow> bool" where
  "command_complete c \<longleftrightarrow> command_wf c \<and>
     (snd (midi_command_map c) \<in> {MIDI_NOTE_OFF, MIDI_NOTE_ON, MIDI_CONTROL_CHANGE} \<longrightarrow> mc_data_len c \<noteq> 1)"

definition journalable :: "midi_command \<Rightarrow> bool" where
  "journalable c \<longleftrightarrow> (drop_bit 4 (mc_status c) = 8 \<longrightarrow>
     (case mc_data c of Some (n # _) \<Rightarrow> unat (n AND 0x7f) mod 8 \<noteq> 0 | _ \<Rightarrow> False))"

lemma ucast_high_nibble: "ucast (drop_bit 4 (s :: byte)) = (8 :: 4 word) \<Longrightarrow> drop_bit 4 s = 8"
proof -
  assume a: "ucast (drop_bit 4 s) = (8 :: 4 word)"
  have "unat s < 256" using unsigned_less [of s, where 'a = nat] by simp
  then have "unat (drop_bit 4 s) < 16" by (simp add: unsigned_drop_bit_eq drop_bit_eq_div [where 'a = nat] take_bit_nat_eq_self)
  moreover have "unat (ucast (drop_bit 4 s) :: 4 word) = unat (drop_bit 4 s) mod 16"
    by (simp add: unsigned_ucast_eq take_bit_eq_mod)
  ultimately have "unat (drop_bit 4 s) = 8" using a by simp
  then show ?thesis by (simp add: word_unat_eq_iff)
qed

lemma command_data:
  assumes "command_wf c"
  shows "mc_data_len c = length (case mc_data c of None \<Rightarrow> [] | Some d \<Rightarrow> d)"
  using assms by (simp add: command_wf_def midi_bytes_def split: option.splits)

lemma command_event_ok:
  assumes "command_complete c"
  shows "\<exists>e. command_event mem_ok (Some c) = Inr e \<and> (journalable c \<longrightarrow> (\<forall>ev. e = Some ev \<longrightarrow> event_fits ev))"
proof -
  have wf: "command_wf c" using assms by (simp add: command_complete_def)
  consider (none) "mc_data_len c = 0" | (some) d where "mc_data c = Some d" "mc_data_len c = length d" "d \<noteq> []"
    using command_data [OF wf] by (cases "mc_data c") auto
  then show ?thesis
  proof cases
    case none
    then show ?thesis
      using command_data [OF wf] ucast_high_nibble [of "mc_status c"]
      by (auto simp: command_event_def Let_def midi_note_from_command_def midi_note_create_def midi_control_from_command_def
          midi_control_create_def midi_program_from_command_def midi_program_create_def note_fits_def journalable_def
          midi_command_message_def split: option.splits list.splits)
  next
    case some
    have two: "1 < length d" if "snd (midi_command_map c) \<in> {MIDI_NOTE_OFF, MIDI_NOTE_ON, MIDI_CONTROL_CHANGE}"
      using assms some that by (cases d rule: remdups_adj.cases) (auto simp: command_complete_def)
    obtain n d' where d: "d = n # d'" using some(3) by (cases d) auto
    have pos: "0 < mc_data_len c" using some by simp
    show ?thesis
      using two some pos d ucast_high_nibble [of "mc_status c"] seven_bits_below
      by (auto simp: command_event_def Let_def midi_note_from_command_def midi_note_create_def midi_control_from_command_def
          midi_control_create_def midi_program_from_command_def midi_program_create_def note_fits_def journalable_def
          midi_command_message_def)
  qed
qed

lemma command_to_payload_ok:
  assumes "command_wf c"
  shows "\<exists>pl. midi_command_to_payload mem_ok junk (Some c) = Inr (Some pl) \<and> payload_for c pl"
proof -
  have st: "mc_status c AND 0x80 \<noteq> 0" using flag_bits(1) [of "mc_status c"] assms by (simp add: PAYLOAD_HEADER_B_def command_wf_def)
  let ?xs = "case mc_data c of None \<Rightarrow> [] | Some d \<Rightarrow> d"
  have rd: "(if mc_data_len c = 0 then Inr [] else bindr (deref (mc_data c)) (\<lambda>d. mem_read d 0 (mc_data_len c))) = (Inr ?xs :: bytes result)"
    using command_data [OF assms] by (cases "mc_data c") auto
  have "payload_for c \<lparr>pl_header = Some (sent_payload_header c False), pl_buffer = Some (midi_bytes c)\<rparr>"
    unfolding payload_for_def by blast
  moreover have "midi_command_to_payload mem_ok junk (Some c) =
      bindr (midi_payload_set_buffer mem_ok (midi_payload_create mem_ok junk) (Some (mc_status c # ?xs)) (Some (mc_data_len c + 1)))
        (\<lambda>(pl, _). Inr pl)"
    by (simp add: midi_command_to_payload_def rd Let_def)
  moreover have "mc_data_len c = length ?xs" by (rule command_data [OF assms])
  ultimately show ?thesis
    using st by (cases junk) (simp add: midi_payload_set_buffer_def Let_def midi_bytes_def sent_payload_header_def one_if_def)
qed

lemma raw_command_ok:
  assumes "command_wf c"
  shows "raw_command mem_ok inbound c = Inr (if inbound then Some (midi_bytes c) else None)"
  using command_data [OF assms] by (cases "mc_data c") (auto simp: raw_command_def midi_bytes_def Let_def numeral_2_eq_2)

lemma send_single_ok:
  assumes "net_wf N" "command_complete c" "journal_enabled \<longrightarrow> journalable c"
  shows "\<exists>N' e. midi_sender_send_single mem_ok now junk journal_enabled inbound_midi (Some c) originator N =
      Inr (concat (map (sent_by_turn now originator c N) [0..<length (addresses N)]),
           if inbound_midi then Some (midi_bytes c) else None, N') \<and>
    net_wf N' \<and> addresses N' = addresses N \<and> command_event mem_ok (Some c) = Inr e \<and>
    (\<forall>a\<in>set (addresses N). turn_done journal_enabled originator e (context_of N a) (context_of N' a))"
proof -
  have wf: "command_wf c" using assms(2) by (simp add: command_complete_def)
  from command_to_payload_ok [OF wf, of junk] obtain pl where
    pl: "midi_command_to_payload mem_ok junk (Some c) = Inr (Some pl)" "payload_for c pl" by blast
  from command_event_ok [OF assms(2)] obtain e where
    e: "command_event mem_ok (Some c) = Inr e" "journalable c \<longrightarrow> (\<forall>ev. e = Some ev \<longrightarrow> event_fits ev)" by blast
  have fits: "journal_enabled \<longrightarrow> (\<forall>ev. e = Some ev \<longrightarrow> event_fits ev)" using assms(3) e(2) by blast
  from send_to_connections_ok [OF assms(1) wf pl(2) fits, of 0 "length (addresses N)" now originator] obtain pl' N' where
    N': "send_to_connections mem_ok now journal_enabled originator e 0 (length (addresses N)) pl N =
        Inr (concat (map (sent_by_turn now originator c N) [0..<length (addresses N)]), pl', N')" "net_wf N'"
      "addresses N' = addresses N"
      "\<forall>k<length (addresses N). turn_done journal_enabled originator e (context_of N (addresses N ! k)) (context_of N' (addresses N ! k))"
    by auto
  have "midi_sender_send_single mem_ok now junk journal_enabled inbound_midi (Some c) originator N =
      Inr (concat (map (sent_by_turn now originator c N) [0..<length (addresses N)]),
           if inbound_midi then Some (midi_bytes c) else None, N')"
    using pl(1) e(1) N'(1) raw_command_ok [OF wf]
    by (simp add: midi_sender_send_single_def num_connections_ok [OF assms(1)])
  moreover have "\<forall>a\<in>set (addresses N). turn_done journal_enabled originator e (context_of N a) (context_of N' a)"
    using N'(4) by (auto simp: in_set_conv_nth)
  ultimately show ?thesis using N'(2,3) e(1) by blast
qed

section \<open>Properties\<close>

text \<open>C10: Sending a command that has the data its status calls for is without fault whatever the
  connections, provided that no journals are kept or the command is no release of a note whose number is a
  multiple of 8 (what happens then is in \<open>Sender_Safety\<close>): each that has an address for data and is not the one the command came from is sent,
  in the order of the table, one packet with its next sequence number, the time since its start and
  the SSRC of this side for it, the command, and its journal as it was before. Its sequence number
  goes up by one, and a journal that is kept has the event under this number; this holds also of
  connections that have ended, which are only not sent anything. The connection the command came
  from is left alone. The file for inbound MIDI gets the command itself.\<close>

theorem midi_sender_fan_out:
  assumes "net_wf N" "command_complete c" "journal_enabled \<longrightarrow> journalable c"
  shows "\<exists>N' e. midi_sender_send_single mem_ok now junk journal_enabled inbound_midi (Some c) originator N =
      Inr (concat (map (sent_by_turn now originator c N) [0..<length (addresses N)]),
           if inbound_midi then Some (midi_bytes c) else None, N') \<and>
    net_wf N' \<and> addresses N' = addresses N \<and> command_event mem_ok (Some c) = Inr e \<and>
    (\<forall>a\<in>set (addresses N). turn_done journal_enabled originator e (context_of N a) (context_of N' a))"
  by (rule send_single_ok [OF assms])

definition note_example :: midi_command where
  "note_example = \<lparr>mc_delta = 0, mc_status = 0x91, mc_data_len = 2, mc_data = Some [60, 100]\<rparr>"

theorem midi_sender_fan_out_witness:
  "\<exists>N d N'. net_ctx_register env_example 5 6 (Some [49, 0]) 5004 None net_start = Inr (Some 3, N) \<and>
    midi_sender_send_single mem_ok (\<lambda>_. 5) (sent_payload_header note_example True) True True (Some note_example) 0 N =
      Inr ([d], Some [0x91, 60, 100], N') \<and> dg_address d = replicate 16 1 \<and>
    nc_seq (context_of N' 3) = nc_seq (context_of N 3) + 1"
proof -
  have c: "command_complete note_example" "True \<longrightarrow> journalable note_example"
    by (simp_all add: command_complete_def command_wf_def midi_bytes_def journalable_def note_example_def)
  from net_one_peer obtain N where N: "net_ctx_register env_example 5 6 (Some [49, 0]) 5004 None net_start = Inr (Some 3, N)"
    "net_wf N" "addresses N = [3]" "ctx_set_to env_example 5 6 (Some [49, 0]) 5004 None (context_of N 3)" by blast
  have x: "nc_ssrc (context_of N 3) = 5" "take (nc_data_address_len (context_of N 3)) (nc_data_address (context_of N 3)) = replicate 16 1"
    using N(4) by (simp_all add: ctx_set_to_def env_example_def sock_address_def)
  then have "nc_data_address_len (context_of N 3) \<noteq> 0" by (intro notI) simp
  then have d: "concat (map (sent_by_turn (\<lambda>_. 5) 0 note_example N) [0..<length (addresses N)]) =
      [\<lparr>dg_control = False, dg_address = replicate 16 1, dg_bytes = sent_packet 5 note_example (context_of N 3)\<rparr>]"
    using x by (simp add: N(3) sent_by_turn_def datagrams_to_def)
  from midi_sender_fan_out [OF N(2) c, of "\<lambda>_. 5" "sent_payload_header note_example True" True 0] obtain N' e where
    N': "midi_sender_send_single mem_ok (\<lambda>_. 5) (sent_payload_header note_example True) True True (Some note_example) 0 N =
      Inr ([\<lparr>dg_control = False, dg_address = replicate 16 1, dg_bytes = sent_packet 5 note_example (context_of N 3)\<rparr>],
        Some [0x91, 60, 100], N')" "turn_done True 0 e (context_of N 3) (context_of N' 3)"
    unfolding d by (auto simp: N(3) midi_bytes_def note_example_def)
  from N'(2) x(1) have "nc_seq (context_of N' 3) = nc_seq (context_of N 3) + 1"
    by (auto simp: turn_done_def connection_after_def)
  with N(1) N'(1) show ?thesis by (intro exI conjI) (assumption | simp)+
qed

end
