(* ===== verification/Connection_List.thy ===== *)
theory Connection_List
  imports Net_Connection Byte_Buffers
begin

text \<open>
  The list of connections in JSON that the local socket answers with
  (\<^verbatim>\<open>net_ctx_connections_to_string\<close> of \<^verbatim>\<open>net_connection.c\<close>). How \<^verbatim>\<open>%p\<close> writes an address is left to
  the C library: it is the parameter \<open>show_ptr\<close>.
\<close>

section \<open>Formatting\<close>

definition text_bytes :: "string \<Rightarrow> bytes" where
  "text_bytes s = map of_char s"

definition hex_digit :: "nat \<Rightarrow> char" where
  "hex_digit n = (if n < 10 then char_of (48 + n) else char_of (87 + n))"

text \<open>\<^verbatim>\<open>%08x\<close> of 32 bits.\<close>

definition hex32 :: "32 word \<Rightarrow> string" where
  "hex32 w = map (\<lambda>i. hex_digit (unat w div 16 ^ (7 - i) mod 16)) [0..<8]"

text \<open>\<^verbatim>\<open>snprintf\<close> into a buffer of \<open>n\<close> octets.\<close>

definition snprintf :: "nat \<Rightarrow> bytes \<Rightarrow> bytes" where
  "snprintf n xs = take (n - 1) xs @ [0]"

definition DSTRING_DEFAULT_BLOCK_SIZE :: nat where "DSTRING_DEFAULT_BLOCK_SIZE = 512"
definition CTX_BUFFER_SIZE :: nat where "CTX_BUFFER_SIZE = 1024"

text \<open>The entry of one connection. Its name is printed up to its terminator.\<close>

definition connection_entry :: "(nat \<Rightarrow> string) \<Rightarrow> nat \<Rightarrow> nat \<Rightarrow> net_ctx \<Rightarrow> bytes" where
  "connection_entry show_ptr i a c =
     text_bytes ''{\"id\":'' @ text_bytes (decimal i) @
     text_bytes '',\"name\":\"'' @ (case nc_name c of Some n \<Rightarrow> c_string n | None \<Rightarrow> text_bytes ''unknown'') @
     text_bytes ''\",\"ctx\":\"'' @ text_bytes (show_ptr a) @
     text_bytes ''\",\"ssrc\":\"0x'' @ text_bytes (hex32 (nc_ssrc c)) @
     text_bytes ''\",\"status\":\"'' @ text_bytes (net_ctx_status_to_string (nc_status c)) @
     text_bytes ''\",\"send_ssrc\":\"0x'' @ text_bytes (hex32 (nc_send_ssrc c)) @
     text_bytes ''\",\"initiator\":\"0x'' @ text_bytes (hex32 (nc_initiator c)) @
     text_bytes ''\",\"seq\":'' @ text_bytes (decimal (unat (nc_seq c))) @
     text_bytes '',\"host\":\"'' @ (case nc_ip_address c of Some b \<Rightarrow> c_string b | None \<Rightarrow> text_bytes ''(null)'') @
     text_bytes ''\",\"control\":'' @ text_bytes (decimal (unat (nc_control_port c))) @
     text_bytes '',\"data\":'' @ text_bytes (decimal (unat (nc_data_port c))) @
     text_bytes '',\"start\":'' @ text_bytes (decimal (unat (nc_start c))) @ text_bytes ''}''"

section \<open>The list\<close>

text \<open>The loop over the table: the string so far and the number of connections in use. \<open>junk\<close> is
  what \<^verbatim>\<open>malloc\<close> returns for the string, \<open>stays\<close> says whether the string is extended where it lies;
  \<open>i\<close> numbers the allocations.\<close>

fun append_connections ::
    "alloc \<Rightarrow> (nat \<Rightarrow> bool) \<Rightarrow> (nat \<Rightarrow> byte) \<Rightarrow> (nat \<Rightarrow> string) \<Rightarrow> nat \<Rightarrow> nat \<Rightarrow> nat \<Rightarrow> dstring option \<Rightarrow> nat \<Rightarrow> net \<Rightarrow>
     (dstring option \<times> nat) result" where
  "append_connections A stays junk show_ptr num_connections i 0 dstring count N = Inr (dstring, count)"
| "append_connections A stays junk show_ptr num_connections i (Suc left) dstring count N =
     bindr (data_table_item_get (nt_connections N) i) (\<lambda>p.
     bindr (deref p) (\<lambda>a.
     bindr (ctx_at (nt_contexts N) a) (\<lambda>c.
     if nc_status c = NET_CTX_STATUS_UNUSED
     then append_connections A stays junk show_ptr num_connections (Suc i) left dstring count N
     else
       bindr (dstring_append (\<lambda>s. A (Iter (2 * i) s)) stays junk dstring
                (Some (snprintf CTX_BUFFER_SIZE (connection_entry show_ptr i a c)))) (\<lambda>(_, dstring).
       bindr (if i + 1 < num_connections
              then bindr (dstring_append (\<lambda>s. A (Iter (2 * i + 1) s)) stays junk dstring (Some (text_bytes '','' @ [0])))
                     (\<lambda>(_, dstring). Inr dstring)
              else Inr dstring) (\<lambda>dstring.
       append_connections A stays junk show_ptr num_connections (Suc i) left dstring (count + 1) N)))))"

definition net_ctx_connections_to_string ::
    "alloc \<Rightarrow> (nat \<Rightarrow> bool) \<Rightarrow> (nat \<Rightarrow> byte) \<Rightarrow> (nat \<Rightarrow> string) \<Rightarrow> net \<Rightarrow> (bytes option \<times> net) result" where
  "net_ctx_connections_to_string A stays junk show_ptr N =
     bindr (dstring_create A DSTRING_DEFAULT_BLOCK_SIZE) (\<lambda>dstring.
     bindr (net_ctx_get_num_connections N) (\<lambda>(num_connections, N).
     bindr (net_connections_lock N) (\<lambda>N.
     bindr (dstring_append (\<lambda>s. A (Site ''head'')) stays junk dstring
              (Some (snprintf CTX_BUFFER_SIZE (text_bytes ''{\"connections\":['')))) (\<lambda>(_, dstring).
     bindr (append_connections A stays junk show_ptr num_connections 0 num_connections dstring 0 N) (\<lambda>(dstring, connection_count).
     bindr (dstring_append (\<lambda>s. A (Site ''close'')) stays junk dstring (Some (text_bytes '']'' @ [0]))) (\<lambda>(_, dstring).
     bindr (dstring_append (\<lambda>s. A (Site ''count'')) stays junk dstring
              (Some (snprintf CTX_BUFFER_SIZE (text_bytes '',\"count\":'' @ text_bytes (decimal connection_count) @ text_bytes ''}''))))
       (\<lambda>(_, dstring).
     bindr (net_connections_unlock N) (\<lambda>N.
     bindr (utils_strdup (A (Site ''net_ctx_connections_to_string:out_buffer'')) (dstring_value dstring)) (\<lambda>out_buffer.
     bindr (dstring_destroy A junk (Some dstring)) (\<lambda>_. Inr (out_buffer, N)))))))))))"

section \<open>What it says\<close>

text \<open>The text of the entry of the connection at an index of the table, with the comma that follows it.\<close>

definition is_used :: "net \<Rightarrow> nat \<Rightarrow> bool" where
  "is_used N a \<longleftrightarrow> nc_status (context_of N a) \<noteq> NET_CTX_STATUS_UNUSED"

definition entry_bytes :: "(nat \<Rightarrow> string) \<Rightarrow> net \<Rightarrow> nat \<Rightarrow> bytes" where
  "entry_bytes show_ptr N i =
     take (CTX_BUFFER_SIZE - 1) (connection_entry show_ptr i (addresses N ! i) (context_of N (addresses N ! i)))"

definition entry_part :: "(nat \<Rightarrow> string) \<Rightarrow> net \<Rightarrow> nat \<Rightarrow> bytes" where
  "entry_part show_ptr N i =
     (if is_used N (addresses N ! i)
      then entry_bytes show_ptr N i @ (if i + 1 < length (addresses N) then text_bytes '','' else []) else [])"

lemma of_char_0:
  assumes "of_char c = (0 :: byte)"
  shows "c = CHR 0x00"
proof -
  have "of_nat (of_char c) = (0 :: byte)" using assms by (simp only: of_nat_of_char)
  then have "256 dvd (of_char c :: nat)" by (simp add: word_of_nat_eq_0_iff)
  then have "of_char c = (0 :: nat)" using nat_of_char_less_256 [of c] nat_dvd_not_less [of "of_char c" 256] by blast
  then have "of_char c = (of_char (CHR 0x00) :: nat)" by simp
  then show ?thesis by (simp only: of_char_eq_iff)
qed

lemma text_no_0: "CHR 0x00 \<notin> set s \<Longrightarrow> 0 \<notin> set (text_bytes s)"
  by (auto simp: text_bytes_def dest: of_char_0 [OF sym])

lemma decimal_no_0: "CHR 0x00 \<notin> set (decimal n)"
proof (induction n rule: decimal.induct)
  case (1 n)
  have z: "CHR 0x00 = char_of (48 + d) \<longleftrightarrow> False" if "d < 10" for d :: nat
  proof
    assume "CHR 0x00 = char_of (48 + d)"
    then have "(of_char (char_of (48 + d) :: char) :: nat) = of_char (CHR 0x00)" by simp
    then have "(48 + d) mod 256 = 0" by (simp only: of_char_of) simp
    with that show False by simp
  qed simp
  have "n mod 10 < 10" by simp
  with 1 z [of n] z [of "n mod 10"] show ?case by (subst decimal.simps) (simp del: char_of_eq_iff)
qed

lemma hex_no_0: "CHR 0x00 \<notin> set (hex32 w)"
proof
  assume "CHR 0x00 \<in> set (hex32 w)"
  then obtain i where "hex_digit (unat w div 16 ^ (7 - i) mod 16) = CHR 0x00" by (auto simp: hex32_def)
  moreover have "hex_digit n \<noteq> CHR 0x00" if "n < 16" for n
  proof
    assume "hex_digit n = CHR 0x00"
    then have "(of_char (hex_digit n) :: nat) = of_char (CHR 0x00)" by simp
    then have "(if n < 10 then 48 + n else 87 + n) mod 256 = 0" by (simp only: hex_digit_def of_char_of split: if_splits) simp_all
    with that show False by (simp split: if_splits)
  qed
  ultimately show False by simp
qed

lemma status_no_0: "CHR 0x00 \<notin> set (net_ctx_status_to_string st)"
  by (cases st) (simp_all add: net_ctx_status_to_string_def)

lemma entry_no_0:
  assumes "CHR 0x00 \<notin> set (show_ptr a)"
  shows "0 \<notin> set (connection_entry show_ptr i a c)"
proof -
  have lit: "0 \<notin> set (text_bytes ''{\"id\":'')" "0 \<notin> set (text_bytes '',\"name\":\"'')" "0 \<notin> set (text_bytes ''\",\"ctx\":\"'')"
    "0 \<notin> set (text_bytes ''\",\"ssrc\":\"0x'')" "0 \<notin> set (text_bytes ''\",\"status\":\"'')"
    "0 \<notin> set (text_bytes ''\",\"send_ssrc\":\"0x'')" "0 \<notin> set (text_bytes ''\",\"initiator\":\"0x'')"
    "0 \<notin> set (text_bytes ''\",\"seq\":'')" "0 \<notin> set (text_bytes '',\"host\":\"'')" "0 \<notin> set (text_bytes ''\",\"control\":'')"
    "0 \<notin> set (text_bytes '',\"data\":'')" "0 \<notin> set (text_bytes '',\"start\":'')" "0 \<notin> set (text_bytes ''}'')"
    "0 \<notin> set (text_bytes ''unknown'')" "0 \<notin> set (text_bytes ''(null)'')"
    by (rule text_no_0, simp)+
  moreover have "0 \<notin> set (case p of Some b \<Rightarrow> c_string b | None \<Rightarrow> t)" if "0 \<notin> set t" for p t
    using that c_string_no_0 by (cases p) auto
  ultimately show ?thesis
    using text_no_0 [OF assms] text_no_0 [OF decimal_no_0] text_no_0 [OF hex_no_0] text_no_0 [OF status_no_0]
    unfolding connection_entry_def by (simp del: set_map)
qed

lemma snprintf_string: "0 \<notin> set xs \<Longrightarrow> c_string (snprintf n xs) = take (n - 1) xs"
  unfolding snprintf_def by (rule c_string_append) (meson in_set_takeD)

section \<open>The list as a whole\<close>

lemma append_connections_ok:
  assumes "nt_connections M = Some t" "table_ok t" "table_list t = addresses N"
    and "\<forall>a\<in>set (addresses N). nt_contexts M a = Some (context_of N a) \<and> CHR 0x00 \<notin> set (show_ptr a)"
    and "dstring_wf d" "i + n = length (addresses N)" "dstring_room stays m d"
    and "length (dstring_view d @ concat (map (entry_part show_ptr N) [i..<i + n])) \<le> m"
  shows "\<exists>d'. append_connections mem_ok stays junk show_ptr (length (addresses N)) i n d k M =
      Inr (d', k + length (filter (\<lambda>i. is_used N (addresses N ! i)) [i..<i + n])) \<and> dstring_wf d' \<and>
    dstring_view d' = dstring_view d @ concat (map (entry_part show_ptr N) [i..<i + n]) \<and> dstring_room stays m d' \<and>
    (m < dstring_capacity d \<longrightarrow> dstring_capacity d' = dstring_capacity d)"
  using assms(5-8)
proof (induction n arbitrary: i d k)
  case 0
  then show ?case by simp
next
  case (Suc n)
  let ?a = "addresses N ! i" and ?n = "length (addresses N)"
  have i: "i < ?n" and a: "?a \<in> set (addresses N)" using Suc.prems(2) by simp_all
  have get: "data_table_item_get (nt_connections M) i = Inr (Some ?a)"
    using table_slot [OF assms(2), of i] i by (simp add: assms(1,3))
  have cx: "ctx_at (nt_contexts M) ?a = Inr (context_of N ?a)" using assms(4) a by (simp add: ctx_at_def)
  have upt: "[i..<i + Suc n] = i # [Suc i..<Suc i + n]" by (simp add: upt_conv_Cons del: upt_Suc)
  have IH: "\<exists>d'. append_connections mem_ok stays junk show_ptr ?n (Suc i) n d k M =
      Inr (d', k + length (filter (\<lambda>i. is_used N (addresses N ! i)) [Suc i..<Suc i + n])) \<and> dstring_wf d' \<and>
      dstring_view d' = dstring_view d @ concat (map (entry_part show_ptr N) [Suc i..<Suc i + n]) \<and> dstring_room stays m d' \<and>
      (m < dstring_capacity d \<longrightarrow> dstring_capacity d' = dstring_capacity d)"
    if "dstring_wf d" "dstring_room stays m d"
      "length (dstring_view d @ concat (map (entry_part show_ptr N) [Suc i..<Suc i + n])) \<le> m" for d k
    by (rule Suc.IH [OF that(1) _ that(2,3)]) (use Suc.prems(2) in simp)
  have len: "length (dstring_view d @ entry_part show_ptr N i @ concat (map (entry_part show_ptr N) [Suc i..<Suc i + n])) \<le> m"
    using Suc.prems(4) unfolding upt by simp
  show ?case
  proof (cases "is_used N ?a")
    case False
    then have "append_connections mem_ok stays junk show_ptr ?n i (Suc n) d k M = append_connections mem_ok stays junk show_ptr ?n (Suc i) n d k M"
      using get cx by (simp add: is_used_def)
    moreover have none: "entry_part show_ptr N i = []" using False by (simp add: entry_part_def)
    moreover from IH [OF Suc.prems(1,3), of k] len none obtain d' where
      "append_connections mem_ok stays junk show_ptr ?n (Suc i) n d k M =
        Inr (d', k + length (filter (\<lambda>i. is_used N (addresses N ! i)) [Suc i..<Suc i + n]))" "dstring_wf d'"
      "dstring_view d' = dstring_view d @ concat (map (entry_part show_ptr N) [Suc i..<Suc i + n])" "dstring_room stays m d'"
      "m < dstring_capacity d \<longrightarrow> dstring_capacity d' = dstring_capacity d" by auto
    ultimately show ?thesis unfolding upt using False by (simp del: upt_Suc append_connections.simps)
  next
    case True
    let ?e = "snprintf CTX_BUFFER_SIZE (connection_entry show_ptr i ?a (context_of N ?a))"
    let ?comma = "text_bytes '','' @ [0]"
    have zero: "0 \<in> set ?e" "0 \<in> set ?comma" by (simp_all add: snprintf_def)
    have "CHR 0x00 \<notin> set (show_ptr ?a)" using assms(4) a by blast
    then have e: "c_string ?e = entry_bytes show_ptr N i"
      by (simp add: snprintf_string [OF entry_no_0] entry_bytes_def)
    have "c_string ?comma = text_bytes '',''" by (rule c_string_append) (rule text_no_0, simp)
    note vals = e this
    have part: "entry_part show_ptr N i = entry_bytes show_ptr N i @ (if i + 1 < ?n then text_bytes '','' else [])"
      using True by (simp add: entry_part_def)
    from dstring_append_ok [OF Suc.prems(1) zero(1) _ Suc.prems(3), of mem_ok junk] len part obtain d1 where
      d1: "dstring_append mem_ok stays junk d (Some ?e) = Inr (0, d1)" "dstring_wf d1"
        "dstring_view d1 = dstring_view d @ entry_bytes show_ptr N i" "dstring_room stays m d1"
        "m < dstring_capacity d \<longrightarrow> dstring_capacity d1 = dstring_capacity d" unfolding vals by auto
    have "\<exists>d2. (if i + 1 < ?n then bindr (dstring_append mem_ok stays junk d1 (Some ?comma)) (\<lambda>(_, d). Inr d) else Inr d1) = Inr d2 \<and>
        dstring_wf d2 \<and> dstring_view d2 = dstring_view d @ entry_part show_ptr N i \<and> dstring_room stays m d2 \<and>
        (m < dstring_capacity d \<longrightarrow> dstring_capacity d2 = dstring_capacity d)"
    proof (cases "i + 1 < ?n")
      case True
      from dstring_append_ok [OF d1(2) zero(2) _ d1(4), of mem_ok junk] True d1(3,5) vals(2) len part show ?thesis by auto
    next
      case False
      with d1 part show ?thesis by auto
    qed
    then obtain d2 where
      d2: "(if i + 1 < ?n then bindr (dstring_append mem_ok stays junk d1 (Some ?comma)) (\<lambda>(_, d). Inr d) else Inr d1) = Inr d2"
        "dstring_wf d2" "dstring_view d2 = dstring_view d @ entry_part show_ptr N i" "dstring_room stays m d2"
        "m < dstring_capacity d \<longrightarrow> dstring_capacity d2 = dstring_capacity d" by blast
    have "append_connections mem_ok stays junk show_ptr ?n i (Suc n) d k M = append_connections mem_ok stays junk show_ptr ?n (Suc i) n d2 (k + 1) M"
      using get cx True d1(1) d2(1) by (simp add: is_used_def del: One_nat_def)
    moreover from IH [OF d2(2,4), of "k + 1"] len d2(3) obtain d' where
      "append_connections mem_ok stays junk show_ptr ?n (Suc i) n d2 (k + 1) M =
        Inr (d', k + 1 + length (filter (\<lambda>i. is_used N (addresses N ! i)) [Suc i..<Suc i + n]))" "dstring_wf d'"
      "dstring_view d' = dstring_view d2 @ concat (map (entry_part show_ptr N) [Suc i..<Suc i + n])" "dstring_room stays m d'"
      "m < dstring_capacity d2 \<longrightarrow> dstring_capacity d' = dstring_capacity d2" by auto
    ultimately show ?thesis unfolding upt using True d2(3,5) by (simp del: upt_Suc append_connections.simps)
  qed
qed

text \<open>The entries in use, each followed by a comma, are what is between the brackets, but for the last
  comma, which is left out only if the last connection of the table is in use.\<close>

definition entries :: "(nat \<Rightarrow> string) \<Rightarrow> net \<Rightarrow> bytes list" where
  "entries show_ptr N = map (entry_bytes show_ptr N) (filter (\<lambda>i. is_used N (addresses N ! i)) [0..<length (addresses N)])"

definition list_body :: "(nat \<Rightarrow> string) \<Rightarrow> net \<Rightarrow> bytes" where
  "list_body show_ptr N = concat (map (entry_part show_ptr N) [0..<length (addresses N)])"

lemma list_body_commas:
  "list_body show_ptr N @ (if addresses N \<noteq> [] \<and> is_used N (last (addresses N)) then text_bytes '','' else []) =
   concat (map (\<lambda>e. e @ text_bytes '','') (entries show_ptr N))"
proof -
  let ?n = "length (addresses N)" and ?used = "\<lambda>i. is_used N (addresses N ! i)"
  have part: "concat (map (entry_part show_ptr N) [0..<k]) =
      concat (map (\<lambda>i. entry_bytes show_ptr N i @ text_bytes '','') (filter ?used [0..<k]))" if "k < ?n" for k
    using that by (induction k) (auto simp: entry_part_def)
  show ?thesis
  proof (cases ?n)
    case 0
    then show ?thesis by (simp add: list_body_def entries_def)
  next
    case (Suc k)
    then have "addresses N \<noteq> []" by auto
    then have l: "last (addresses N) = addresses N ! k" using Suc by (simp add: last_conv_nth)
    have k: "k < ?n" using Suc by simp
    have "entry_part show_ptr N k = (if ?used k then entry_bytes show_ptr N k else [])" using Suc by (simp add: entry_part_def)
    then show ?thesis
      using part [OF k] l \<open>addresses N \<noteq> []\<close> by (simp add: list_body_def entries_def Suc comp_def)
  qed
qed

text \<open>The whole text. It can be built up without fault if it fits into the first block of 512 octets, or if the
  block is extended where it lies whenever it has to grow.\<close>

definition list_text :: "(nat \<Rightarrow> string) \<Rightarrow> net \<Rightarrow> bytes" where
  "list_text show_ptr N = text_bytes ''{\"connections\":['' @ list_body show_ptr N @ text_bytes '']'' @
     text_bytes '',\"count\":'' @ text_bytes (decimal (length (entries show_ptr N))) @ text_bytes ''}''"

definition list_fits :: "(nat \<Rightarrow> bool) \<Rightarrow> (nat \<Rightarrow> string) \<Rightarrow> net \<Rightarrow> bool" where
  "list_fits stays show_ptr N \<longleftrightarrow> (\<forall>n. stays n) \<or> length (list_text show_ptr N) < DSTRING_DEFAULT_BLOCK_SIZE"

lemma list_tail_string:
  assumes "length (addresses N) < 2 ^ 64"
  shows "c_string (snprintf CTX_BUFFER_SIZE (text_bytes '',\"count\":'' @ text_bytes (decimal (length (entries show_ptr N))) @
      text_bytes ''}'')) = text_bytes '',\"count\":'' @ text_bytes (decimal (length (entries show_ptr N))) @ text_bytes ''}''"
proof -
  have "0 \<notin> set (text_bytes '',\"count\":'')" "0 \<notin> set (text_bytes ''}'')" by (rule text_no_0, simp)+
  with text_no_0 [OF decimal_no_0]
  have "0 \<notin> set (text_bytes '',\"count\":'' @ text_bytes (decimal (length (entries show_ptr N))) @ text_bytes ''}'')"
    by (simp del: set_map)
  moreover have "length (entries show_ptr N) \<le> length (addresses N)"
    unfolding entries_def by (metis diff_zero length_filter_le length_map length_upt)
  ultimately show ?thesis
    using decimal_length [of "length (entries show_ptr N)" 20] assms by (simp add: snprintf_string CTX_BUFFER_SIZE_def text_bytes_def)
qed

lemma list_frame_strings:
  "c_string (snprintf CTX_BUFFER_SIZE (text_bytes ''{\"connections\":['')) = text_bytes ''{\"connections\":[''"
  "c_string (text_bytes '']'' @ [0]) = text_bytes '']''"
  using text_no_0 [of "''{\"connections\":[''"] c_string_append [OF text_no_0 [of "'']''"], of "[]"]
  by (simp_all add: snprintf_string CTX_BUFFER_SIZE_def text_bytes_def)

lemma connections_string_ok:
  assumes "net_wf N" "\<forall>a\<in>set (addresses N). CHR 0x00 \<notin> set (show_ptr a)" "length (addresses N) < 2 ^ 64"
    and fits: "list_fits stays show_ptr N"
  shows "net_ctx_connections_to_string mem_ok stays junk show_ptr N = Inr (Some (list_text show_ptr N @ [0]), N) \<and>
    0 \<notin> set (list_text show_ptr N)"
proof -
  from assms(1) obtain t where t: "nt_connections N = Some t" "table_wf t" by (auto simp: net_wf_def)
  then have free: "\<not> dt_held t" and ad: "table_list t = addresses N" by (simp_all add: table_wf_def addresses_def)
  let ?t = "t\<lparr>dt_held := True\<rparr>"
  let ?M = "N\<lparr>nt_connections := Some ?t\<rparr>"
  let ?n = "length (addresses N)" and ?count = "length (entries show_ptr N)"
  have ok: "table_ok ?t" "table_list ?t = addresses N"
    using t(2) table_locked_ok [of t True] ad by (simp_all add: table_wf_def)
  have lock: "net_connections_lock N = Inr ?M" "net_connections_unlock ?M = Inr N"
    using t(1) free by (cases N; cases t; simp add: net_connections_lock_def net_connections_unlock_def
        data_table_lock_def data_table_unlock_def)+
  have ctxs: "\<forall>a\<in>set (addresses N). nt_contexts ?M a = Some (context_of N a) \<and> CHR 0x00 \<notin> set (show_ptr a)"
    using assms net_wf_context by simp
  let ?head = "snprintf CTX_BUFFER_SIZE (text_bytes ''{\"connections\":['')"
  let ?close = "text_bytes '']'' @ [0]"
  let ?tail = "text_bytes '',\"count\":'' @ text_bytes (decimal ?count) @ text_bytes ''}''"
  have zero: "0 \<in> set (snprintf CTX_BUFFER_SIZE xs)" "0 \<in> set ?close" for xs by (simp_all add: snprintf_def)
  obtain d0 where d0: "dstring_create mem_ok DSTRING_DEFAULT_BLOCK_SIZE = Inr d0" "dstring_wf d0" "dstring_view d0 = []"
    using dstring_create_ok [of DSTRING_DEFAULT_BLOCK_SIZE mem_ok] by (auto simp: DSTRING_DEFAULT_BLOCK_SIZE_def)
  note frame = list_frame_strings list_tail_string [OF assms(3), of show_ptr]
  let ?m = "length (list_text show_ptr N)"
  have room: "dstring_room stays ?m d0"
    using fits dstring_create_capacity [OF _ _ d0(1)] by (auto simp: list_fits_def dstring_room_def DSTRING_DEFAULT_BLOCK_SIZE_def)
  have m: "?m = length (text_bytes ''{\"connections\":['') + length (list_body show_ptr N) + length (text_bytes '']'') + length ?tail"
    by (simp add: list_text_def)
  from dstring_append_ok [OF d0(2) zero(1) _ room, of mem_ok "text_bytes ''{\"connections\":[''" junk] m d0(3) obtain d1 where
    d1: "dstring_append mem_ok stays junk d0 (Some ?head) = Inr (0, d1)" "dstring_wf d1" "dstring_view d1 = c_string ?head"
      "dstring_room stays ?m d1" by (auto simp: frame)
  from append_connections_ok [OF _ ok ctxs d1(2) _ d1(4), of 0 ?n junk 0] m d1(3) obtain d2 where
    d2: "append_connections mem_ok stays junk show_ptr ?n 0 ?n d1 0 ?M = Inr (d2, ?count)" "dstring_wf d2"
      "dstring_view d2 = c_string ?head @ list_body show_ptr N" "dstring_room stays ?m d2"
    by (auto simp: entries_def list_body_def frame)
  from dstring_append_ok [OF d2(2) zero(2) _ d2(4), of mem_ok junk] m d2(3) obtain d3 where
    d3: "dstring_append mem_ok stays junk d2 (Some ?close) = Inr (0, d3)" "dstring_wf d3" "dstring_view d3 = dstring_view d2 @ c_string ?close"
      "dstring_room stays ?m d3" by (auto simp: frame)
  from dstring_append_ok [OF d3(2) zero(1) _ d3(4), of mem_ok ?tail junk] m d2(3) d3(3) obtain d4 where
    d4: "dstring_append mem_ok stays junk d3 (Some (snprintf CTX_BUFFER_SIZE ?tail)) = Inr (0, d4)" "dstring_wf d4"
      "dstring_view d4 = dstring_view d3 @ c_string (snprintf CTX_BUFFER_SIZE ?tail)" by (auto simp: frame)
  have view: "dstring_view d4 = list_text show_ptr N"
    using d2(3) d3(3) d4(3) frame by (simp add: list_text_def)
  from d4(2) obtain b where b: "dstring_value d4 = Some b" "0 \<in> set b" "dstring_view d4 = c_string b"
    by (cases d4) (auto simp: dstring_value_def split: option.splits)
  have "dstring_destroy mem_ok junk (Some d4) = Inr (Some None)"
    using d4(2) by (cases d4) (simp_all add: dstring_destroy_def dstring_reset_def)
  moreover have "utils_strdup True (dstring_value d4) = Inr (Some (c_string b @ [0]))"
    using utils_strdup_ok [of "Some b"] b by (simp add: cstring_ok_def)
  ultimately have "net_ctx_connections_to_string mem_ok stays junk show_ptr N = Inr (Some (c_string b @ [0]), N)"
    using d0(1) d1(1) d2(1) d3(1) d4(1) lock
    by (simp add: net_ctx_connections_to_string_def num_connections_ok [OF assms(1)])
  with view b(3) c_string_no_0 [of b] show ?thesis by simp
qed

text \<open>Where the block moves when it grows, a text that does not fit is never finished: the loop over the
  connections, and then the whole.\<close>

lemma append_connections_moved:
  assumes "nt_connections M = Some t" "table_ok t" "table_list t = addresses N"
    and "\<forall>a\<in>set (addresses N). nt_contexts M a = Some (context_of N a) \<and> CHR 0x00 \<notin> set (show_ptr a)"
    and moves: "\<forall>k. \<not> stays k" and "dstring_wf d" "i + n = length (addresses N)"
    and "length (dstring_view d) < dstring_capacity d"
    and "dstring_capacity d \<le> length (dstring_view d @ concat (map (entry_part show_ptr N) [i..<i + n]))"
  shows "append_connections mem_ok stays junk show_ptr (length (addresses N)) i n d k M = Inl UseAfterFree"
  using assms(6-9)
proof (induction n arbitrary: i d k)
  case 0
  then show ?case by simp
next
  case (Suc n)
  let ?a = "addresses N ! i" and ?n = "length (addresses N)"
  let ?rest = "concat (map (entry_part show_ptr N) [Suc i..<Suc i + n])"
  have i: "i < ?n" and a: "?a \<in> set (addresses N)" using Suc.prems(2) by simp_all
  have get: "data_table_item_get (nt_connections M) i = Inr (Some ?a)"
    using table_slot [OF assms(2), of i] i by (simp add: assms(1,3))
  have cx: "ctx_at (nt_contexts M) ?a = Inr (context_of N ?a)" using assms(4) a by (simp add: ctx_at_def)
  have upt: "[i..<i + Suc n] = i # [Suc i..<Suc i + n]" by (simp add: upt_conv_Cons del: upt_Suc)
  have long: "dstring_capacity d \<le> length (dstring_view d @ entry_part show_ptr N i @ ?rest)" using Suc.prems(4) unfolding upt by simp
  have IH: "append_connections mem_ok stays junk show_ptr ?n (Suc i) n d k M = Inl UseAfterFree"
    if "dstring_wf d" "length (dstring_view d) < dstring_capacity d" "dstring_capacity d \<le> length (dstring_view d @ ?rest)" for d k
    by (rule Suc.IH [OF that(1) _ that(2,3)]) (use Suc.prems(2) in simp)
  show ?case
  proof (cases "is_used N ?a")
    case False
    then have "entry_part show_ptr N i = []" by (simp add: entry_part_def)
    with False get cx IH [OF Suc.prems(1,3)] long show ?thesis by (simp add: is_used_def)
  next
    case True
    let ?e = "snprintf CTX_BUFFER_SIZE (connection_entry show_ptr i ?a (context_of N ?a))"
    let ?comma = "text_bytes '','' @ [0]"
    have zero: "0 \<in> set ?e" "0 \<in> set ?comma" by (simp_all add: snprintf_def)
    have "CHR 0x00 \<notin> set (show_ptr ?a)" using assms(4) a by blast
    then have e: "c_string ?e = entry_bytes show_ptr N i" by (simp add: snprintf_string [OF entry_no_0] entry_bytes_def)
    have comma: "c_string ?comma = text_bytes '',''" by (rule c_string_append) (rule text_no_0, simp)
    have part: "entry_part show_ptr N i = entry_bytes show_ptr N i @ (if i + 1 < ?n then text_bytes '','' else [])"
      using True by (simp add: entry_part_def)
    have used: "nc_status (context_of N ?a) \<noteq> NET_CTX_STATUS_UNUSED" using True by (simp add: is_used_def)
    show ?thesis
    proof (cases "length (dstring_view d) + length (c_string ?e) < dstring_capacity d")
      case False
      then have "dstring_append mem_ok stays junk d (Some ?e) = Inl UseAfterFree"
        by (intro dstring_append_moved [OF Suc.prems(1) zero(1) _ moves]) simp_all
      with get cx used show ?thesis by simp
    next
      case fit: True
      from dstring_append_fits [OF Suc.prems(1) zero(1) fit, of mem_ok stays junk] obtain d1 where
        d1: "dstring_append mem_ok stays junk d (Some ?e) = Inr (0, d1)" "dstring_wf d1"
          "dstring_view d1 = dstring_view d @ entry_bytes show_ptr N i" "dstring_capacity d1 = dstring_capacity d" unfolding e by blast
      have len1: "length (dstring_view d1) < dstring_capacity d1" using fit d1(3,4) e by simp
      show ?thesis
      proof (cases "i + 1 < ?n")
        case False
        with part d1(3,4) long len1 IH [OF d1(2) len1] get cx used d1(1) show ?thesis by simp
      next
        case next_one: True
        show ?thesis
        proof (cases "length (dstring_view d1) + length (c_string ?comma) < dstring_capacity d1")
          case False
          then have "dstring_append mem_ok stays junk d1 (Some ?comma) = Inl UseAfterFree"
            by (intro dstring_append_moved [OF d1(2) zero(2) _ moves]) simp_all
          with get cx used d1(1) next_one show ?thesis by simp
        next
          case fit2: True
          from dstring_append_fits [OF d1(2) zero(2) fit2, of mem_ok stays junk] obtain d2 where
            d2: "dstring_append mem_ok stays junk d1 (Some ?comma) = Inr (0, d2)" "dstring_wf d2"
              "dstring_view d2 = dstring_view d1 @ text_bytes '',''" "dstring_capacity d2 = dstring_capacity d1" unfolding comma by blast
          have len2: "length (dstring_view d2) < dstring_capacity d2" using fit2 d2(3,4) comma by simp
          have "dstring_capacity d2 \<le> length (dstring_view d2 @ ?rest)" using long part next_one d1(3,4) d2(3,4) by simp
          from IH [OF d2(2) len2 this] get cx used d1(1) d2(1) next_one show ?thesis by simp
        qed
      qed
    qed
  qed
qed

text \<open>Wherever the blocks end up, the string is the same if it is finished.\<close>

lemma dstring_append_either:
  "dstring_append A stays junk p s = Inl UseAfterFree \<or> dstring_append A stays junk p s = dstring_append A (\<lambda>_. True) junk p s"
proof (cases p)
  case p: (Some d)
  show ?thesis
  proof (cases s)
    case (Some str)
    with p show ?thesis
      by (cases "ds_data d"; cases "c_strlen (the (ds_data d))"; cases "c_strlen str") (simp_all add: Let_def)
  qed (simp add: p)
qed simp

lemma either_bind:
  assumes "m = Inl e \<or> m = m'" "\<And>x. f x = Inl e \<or> f x = f' x"
  shows "bindr m f = Inl e \<or> bindr m f = bindr m' f'"
proof (cases m)
  case (Inr x)
  with assms(1) have "m' = Inr x" by auto
  with Inr assms(2) [of x] show ?thesis by auto
qed (use assms(1) in auto)

lemma either_if: "(b \<Longrightarrow> x = z \<or> x = x') \<Longrightarrow> (\<not> b \<Longrightarrow> y = z \<or> y = y') \<Longrightarrow>
    (if b then x else y) = z \<or> (if b then x else y) = (if b then x' else y')"
  by simp

lemma append_connections_either:
  "append_connections A stays junk show_ptr n i k d m N = Inl UseAfterFree \<or>
   append_connections A stays junk show_ptr n i k d m N = append_connections A (\<lambda>_. True) junk show_ptr n i k d m N"
proof (induction k arbitrary: i d m)
  case (Suc k)
  show ?case
    unfolding append_connections.simps split_def
    by (intro either_bind either_if Suc.IH dstring_append_either disjI2 refl)
qed simp

lemma connections_string_either:
  assumes "net_wf N" "\<forall>a\<in>set (addresses N). CHR 0x00 \<notin> set (show_ptr a)" "length (addresses N) < 2 ^ 64"
  shows "net_ctx_connections_to_string mem_ok stays junk show_ptr N = Inl UseAfterFree \<or>
    net_ctx_connections_to_string mem_ok stays junk show_ptr N = Inr (Some (list_text show_ptr N @ [0]), N)"
proof -
  have "net_ctx_connections_to_string mem_ok stays junk show_ptr N = Inl UseAfterFree \<or>
      net_ctx_connections_to_string mem_ok stays junk show_ptr N = net_ctx_connections_to_string mem_ok (\<lambda>_. True) junk show_ptr N"
    unfolding net_ctx_connections_to_string_def split_def
    by (intro either_bind dstring_append_either append_connections_either disjI2 refl)
  moreover have "list_fits (\<lambda>_. True) show_ptr N" by (simp add: list_fits_def)
  ultimately show ?thesis using connections_string_ok [OF assms, of "\<lambda>_. True" junk] by auto
qed

section \<open>Properties\<close>

text \<open>The list of connections, if it fits into the first block or is always extended where it lies, is a JSON
  object with an entry for each connection in use, in the order of
  the table, and their number. The entries are separated by commas; one too many follows the last,
  which is then no JSON, exactly when some connection is in use but not the last of the table.\<close>
theorem connections_list:
  assumes "net_wf N" "\<forall>a\<in>set (addresses N). CHR 0x00 \<notin> set (show_ptr a)" "length (addresses N) < 2 ^ 64"
    and "list_fits stays show_ptr N"
  shows "\<exists>body out. net_ctx_connections_to_string mem_ok stays junk show_ptr N = Inr (Some (out @ [0]), N) \<and>
    out = text_bytes ''{\"connections\":['' @ body @ text_bytes '']'' @ text_bytes '',\"count\":'' @
      text_bytes (decimal (length (entries show_ptr N))) @ text_bytes ''}'' \<and>
    body @ (if addresses N \<noteq> [] \<and> is_used N (last (addresses N)) then text_bytes '','' else []) =
      concat (map (\<lambda>e. e @ text_bytes '','') (entries show_ptr N))"
  using connections_string_ok [OF assms, of junk] list_body_commas [of show_ptr N]
  by (intro exI [of _ "list_body show_ptr N"] exI [of _ "list_text show_ptr N"]) (simp add: list_text_def)

theorem connections_list_witness:
  "\<exists>N out. net_ctx_register env_example 5 6 (Some [49, 0]) 5004 None net_start = Inr (Some 3, N) \<and>
    net_ctx_connections_to_string mem_ok (\<lambda>_. True) (\<lambda>_. 7) (\<lambda>_. ''0x3'') N = Inr (Some (out @ [0]), N) \<and>
    out = text_bytes ''{\"connections\":['' @ entry_bytes (\<lambda>_. ''0x3'') N 0 @ text_bytes '']'' @
      text_bytes '',\"count\":'' @ text_bytes ''1'' @ text_bytes ''}''"
proof -
  from net_one_peer obtain N where N: "net_ctx_register env_example 5 6 (Some [49, 0]) 5004 None net_start = Inr (Some 3, N)"
    "net_wf N" "addresses N = [3]" "ctx_set_to env_example 5 6 (Some [49, 0]) 5004 None (context_of N 3)" by blast
  then have u: "is_used N 3" by (simp add: is_used_def ctx_set_to_def)
  then have e: "entries (\<lambda>_. ''0x3'') N = [entry_bytes (\<lambda>_. ''0x3'') N 0]" by (simp add: entries_def N(3))
  have "decimal (Suc 0) = ''1''" by (subst decimal.simps) code_simp
  then have d: "text_bytes (decimal (Suc 0)) = text_bytes ''1''" by simp
  have fits: "list_fits (\<lambda>_. True) (\<lambda>_. ''0x3'') N" by (simp add: list_fits_def)
  from connections_list [OF N(2) _ _ fits, of "\<lambda>_. 7"] obtain body where
    "net_ctx_connections_to_string mem_ok (\<lambda>_. True) (\<lambda>_. 7) (\<lambda>_. ''0x3'') N = Inr (Some ((text_bytes ''{\"connections\":['' @ body @
      text_bytes '']'' @ text_bytes '',\"count\":'' @ text_bytes ''1'' @ text_bytes ''}'') @ [0]), N)"
    "body @ text_bytes '','' = entry_bytes (\<lambda>_. ''0x3'') N 0 @ text_bytes '',''"
    by (auto simp: N(3) u e d)
  with N(1) show ?thesis by auto
qed

text \<open>A list of 512 octets or more is read after it was freed, if extending its block moves it.\<close>

theorem connections_list_moved:
  assumes "net_wf N" "\<forall>a\<in>set (addresses N). CHR 0x00 \<notin> set (show_ptr a)" "length (addresses N) < 2 ^ 64"
    and moves: "\<forall>n. \<not> stays n" and long: "DSTRING_DEFAULT_BLOCK_SIZE \<le> length (list_text show_ptr N)"
  shows "net_ctx_connections_to_string mem_ok stays junk show_ptr N = Inl UseAfterFree"
proof -
  from assms(1) obtain t where t: "nt_connections N = Some t" "table_wf t" by (auto simp: net_wf_def)
  then have free: "\<not> dt_held t" and ad: "table_list t = addresses N" by (simp_all add: table_wf_def addresses_def)
  let ?t = "t\<lparr>dt_held := True\<rparr>"
  let ?M = "N\<lparr>nt_connections := Some ?t\<rparr>"
  let ?n = "length (addresses N)" and ?count = "length (entries show_ptr N)"
  have ok: "table_ok ?t" "table_list ?t = addresses N"
    using t(2) table_locked_ok [of t True] ad by (simp_all add: table_wf_def)
  have lock: "net_connections_lock N = Inr ?M"
    using t(1) free by (cases N; cases t; simp add: net_connections_lock_def data_table_lock_def)
  have ctxs: "\<forall>a\<in>set (addresses N). nt_contexts ?M a = Some (context_of N a) \<and> CHR 0x00 \<notin> set (show_ptr a)"
    using assms(1,2) net_wf_context by simp
  let ?head = "snprintf CTX_BUFFER_SIZE (text_bytes ''{\"connections\":['')"
  let ?close = "text_bytes '']'' @ [0]"
  let ?tail = "text_bytes '',\"count\":'' @ text_bytes (decimal ?count) @ text_bytes ''}''"
  let ?body = "concat (map (entry_part show_ptr N) [0..<0 + ?n])"
  have zero: "0 \<in> set (snprintf CTX_BUFFER_SIZE xs)" "0 \<in> set ?close" for xs by (simp_all add: snprintf_def)
  note frame = list_frame_strings list_tail_string [OF assms(3), of show_ptr]
  obtain d0 where d0: "dstring_create mem_ok DSTRING_DEFAULT_BLOCK_SIZE = Inr d0" "dstring_wf d0" "dstring_view d0 = []"
    using dstring_create_ok [of DSTRING_DEFAULT_BLOCK_SIZE mem_ok] by (auto simp: DSTRING_DEFAULT_BLOCK_SIZE_def)
  have cap: "dstring_capacity d0 = 512"
    using dstring_create_capacity [OF _ _ d0(1)] by (simp add: DSTRING_DEFAULT_BLOCK_SIZE_def)
  have head: "length (c_string ?head) = 16" unfolding frame by (simp add: text_bytes_def)
  then have "length (dstring_view d0) + length (c_string ?head) < dstring_capacity d0" by (simp only: d0(3) cap) simp
  from dstring_append_fits [OF d0(2) zero(1) this, of mem_ok stays junk] obtain d1 where
    d1: "dstring_append mem_ok stays junk d0 (Some ?head) = Inr (0, d1)" "dstring_wf d1" "dstring_view d1 = c_string ?head"
      "dstring_capacity d1 = 512" by (auto simp: d0(3) cap)
  have len1: "length (dstring_view d1) < dstring_capacity d1" using head by (simp only: d1(3,4))
  have total: "512 \<le> length (dstring_view d1 @ ?body) + length (text_bytes '']'') + length ?tail"
    using long unfolding d1(3) frame by (simp add: list_text_def list_body_def DSTRING_DEFAULT_BLOCK_SIZE_def)
  have start: "net_ctx_connections_to_string mem_ok stays junk show_ptr N =
      bindr (append_connections mem_ok stays junk show_ptr ?n 0 ?n d1 0 ?M) (\<lambda>(dstring, connection_count).
      bindr (dstring_append mem_ok stays junk dstring (Some ?close)) (\<lambda>(_, dstring).
      bindr (dstring_append mem_ok stays junk dstring
               (Some (snprintf CTX_BUFFER_SIZE (text_bytes '',\"count\":'' @ text_bytes (decimal connection_count) @ text_bytes ''}''))))
        (\<lambda>(_, dstring).
      bindr (net_connections_unlock ?M) (\<lambda>N.
      bindr (utils_strdup True (dstring_value dstring)) (\<lambda>out_buffer.
      bindr (dstring_destroy mem_ok junk (Some dstring)) (\<lambda>_. Inr (out_buffer, N)))))))"
    using d0(1) d1(1) lock by (simp add: net_ctx_connections_to_string_def num_connections_ok [OF assms(1)])
  show ?thesis
  proof (cases "dstring_capacity d1 \<le> length (dstring_view d1 @ ?body)")
    case True
    from append_connections_moved [OF _ ok ctxs moves d1(2) _ len1 True, of junk 0] show ?thesis unfolding start by simp
  next
    case False
    then have "dstring_room stays (length (dstring_view d1 @ ?body)) d1" by (simp add: dstring_room_def)
    from append_connections_ok [OF _ ok ctxs d1(2) _ this order.refl, of junk 0] obtain d2 where
      d2: "append_connections mem_ok stays junk show_ptr ?n 0 ?n d1 0 ?M = Inr (d2, ?count)" "dstring_wf d2"
        "dstring_view d2 = dstring_view d1 @ ?body" "dstring_capacity d2 = 512" using False d1(4) by (auto simp: entries_def)
    have close: "c_string ?close = text_bytes '']''" and tail: "c_string (snprintf CTX_BUFFER_SIZE ?tail) = ?tail"
      by (fact frame)+
    show ?thesis
    proof (cases "length (dstring_view d2) + length (c_string ?close) < dstring_capacity d2")
      case False
      then have "dstring_append mem_ok stays junk d2 (Some ?close) = Inl UseAfterFree"
        by (intro dstring_append_moved [OF d2(2) zero(2) _ moves]) simp_all
      then show ?thesis unfolding start d2(1) by simp
    next
      case True
      from dstring_append_fits [OF d2(2) zero(2) True, of mem_ok stays junk] obtain d3 where
        d3: "dstring_append mem_ok stays junk d2 (Some ?close) = Inr (0, d3)" "dstring_wf d3"
          "dstring_view d3 = dstring_view d2 @ text_bytes '']''" "dstring_capacity d3 = dstring_capacity d2" unfolding close by blast
      have "dstring_capacity d3 \<le> length (dstring_view d3) + length (c_string (snprintf CTX_BUFFER_SIZE ?tail))"
        using total unfolding tail d3(3,4) d2(3,4) by simp
      then have "dstring_append mem_ok stays junk d3 (Some (snprintf CTX_BUFFER_SIZE ?tail)) = Inl UseAfterFree"
        by (intro dstring_append_moved [OF d3(2) zero(1) _ moves]) simp_all
      with d3(1) show ?thesis unfolding start d2(1) by simp
    qed
  qed
qed

end
