(* ===== verification/Net_Socket.thy ===== *)
theory Net_Socket
  imports Responders Midi_Sender Connection_List Midi_Stream Rtp_Packet Midi_Payload
begin

text \<open>
  The sockets and what arrives on them (\<^verbatim>\<open>net_socket.c\<close>, the build without ALSA): the table of
  sockets, the set of descriptors to poll, shutting down, and \<open>net_socket_read\<close>, which tells session
  commands, requests on the local socket and RTP packets apart. What the kernel returns is an
  argument: the descriptor of a new socket, the datagram received. What is sent, queued and closed
  is a list of effects. The queue thread takes the commands from the list.
\<close>

unbundle bit_operations_syntax

section \<open>State\<close>

record raveloxmidi_socket =
  so_fd :: int
  so_packet :: "bytes option"
  so_packet_size :: nat
  so_state :: "midi_state option"
  so_held :: bool
  so_device_hash :: int

record sockets =
  sk_sockets :: "nat data_table option"
  sk_store :: "nat \<Rightarrow> raveloxmidi_socket option"
  sk_shutdown :: int
  sk_shutdown_held :: bool
  sk_shutdown_fd :: "int \<times> int"
  sk_send_held :: bool
  sk_poll_fds :: "int list"
  sk_poll_fds_capacity :: nat
  sk_poll_fds_held :: bool
  sk_inbound_midi_fd :: int

definition NET_APPLEMIDI_UDPSIZE :: nat where "NET_APPLEMIDI_UDPSIZE = 1472"
definition NET_SOCKET_CONTROL_PORT :: nat where "NET_SOCKET_CONTROL_PORT = 0"
definition NET_SOCKET_DATA_PORT :: nat where "NET_SOCKET_DATA_PORT = 1"
definition NET_SOCKET_LOCAL_PORT :: nat where "NET_SOCKET_LOCAL_PORT = 2"

lemmas socket_codes [simp] =
  NET_SOCKET_CONTROL_PORT_def NET_SOCKET_DATA_PORT_def NET_SOCKET_LOCAL_PORT_def

section \<open>Locks\<close>

definition net_socket_poll_fds_lock :: "sockets \<Rightarrow> sockets result" where
  "net_socket_poll_fds_lock K = bindr (mutex_lock (sk_poll_fds_held K)) (\<lambda>h. Inr (K\<lparr>sk_poll_fds_held := h\<rparr>))"

definition net_socket_poll_fds_unlock :: "sockets \<Rightarrow> sockets result" where
  "net_socket_poll_fds_unlock K = bindr (mutex_unlock (sk_poll_fds_held K)) (\<lambda>h. Inr (K\<lparr>sk_poll_fds_held := h\<rparr>))"

definition net_socket_send_lock :: "sockets \<Rightarrow> sockets result" where
  "net_socket_send_lock K = bindr (mutex_lock (sk_send_held K)) (\<lambda>h. Inr (K\<lparr>sk_send_held := h\<rparr>))"

definition net_socket_send_unlock :: "sockets \<Rightarrow> sockets result" where
  "net_socket_send_unlock K = bindr (mutex_unlock (sk_send_held K)) (\<lambda>h. Inr (K\<lparr>sk_send_held := h\<rparr>))"

definition net_socket_lock :: "raveloxmidi_socket option \<Rightarrow> raveloxmidi_socket option result" where
  "net_socket_lock socket =
     (case socket of None \<Rightarrow> Inr None
      | Some s \<Rightarrow> bindr (mutex_lock (so_held s)) (\<lambda>h. Inr (Some (s\<lparr>so_held := h\<rparr>))))"

definition net_socket_unlock :: "raveloxmidi_socket option \<Rightarrow> raveloxmidi_socket option result" where
  "net_socket_unlock socket =
     (case socket of None \<Rightarrow> Inr None
      | Some s \<Rightarrow> bindr (mutex_unlock (so_held s)) (\<lambda>h. Inr (Some (s\<lparr>so_held := h\<rparr>))))"

definition sockets_lock :: "sockets \<Rightarrow> sockets result" where
  "sockets_lock K = bindr (data_table_lock (sk_sockets K)) (\<lambda>t. Inr (K\<lparr>sk_sockets := t\<rparr>))"

definition sockets_unlock :: "sockets \<Rightarrow> sockets result" where
  "sockets_unlock K = bindr (data_table_unlock (sk_sockets K)) (\<lambda>t. Inr (K\<lparr>sk_sockets := t\<rparr>))"

section \<open>The table of sockets\<close>

definition socket_at :: "sockets \<Rightarrow> nat \<Rightarrow> raveloxmidi_socket result" where
  "socket_at K a = (case sk_store K a of None \<Rightarrow> Inl UseAfterFree | Some s \<Rightarrow> Inr s)"

text \<open>The socket at an index of the table, read under the lock of the table.\<close>

definition socket_get :: "nat \<Rightarrow> sockets \<Rightarrow> (nat option \<times> sockets) result" where
  "socket_get i K =
     bindr (sockets_lock K) (\<lambda>K.
     bindr (data_table_item_get (sk_sockets K) i) (\<lambda>p.
     bindr (sockets_unlock K) (\<lambda>K. Inr (p, K))))"

text \<open>The descriptor that is closed, if any, and what the pointer is afterwards.\<close>

definition net_socket_destroy :: "raveloxmidi_socket option option \<Rightarrow> (int option \<times> raveloxmidi_socket option option) result" where
  "net_socket_destroy data =
     (case data of None \<Rightarrow> Inr (None, None)
      | Some None \<Rightarrow> Inr (None, Some None)
      | Some (Some s) \<Rightarrow>
          bindr (net_socket_lock (Some s)) (\<lambda>p.
          bindr (case so_state s of None \<Rightarrow> Inr None | Some st \<Rightarrow> midi_state_destroy (Some (Some st))) (\<lambda>_.
          bindr (net_socket_unlock p) (\<lambda>_. Inr (Some (so_fd s), Some None)))))"

fun find_by_fd_from :: "int \<Rightarrow> nat \<Rightarrow> nat \<Rightarrow> sockets \<Rightarrow> (nat option \<times> sockets) result" where
  "find_by_fd_from fd_to_find i 0 K = Inr (None, K)"
| "find_by_fd_from fd_to_find i (Suc left) K =
     bindr (socket_get i K) (\<lambda>(p, K).
     case p of None \<Rightarrow> find_by_fd_from fd_to_find (Suc i) left K
     | Some a \<Rightarrow> bindr (socket_at K a) (\<lambda>s.
         if so_fd s = fd_to_find then Inr (Some a, K) else find_by_fd_from fd_to_find (Suc i) left K))"

definition net_socket_find_by_fd :: "int \<Rightarrow> sockets \<Rightarrow> (nat option \<times> sockets) result" where
  "net_socket_find_by_fd fd_to_find K =
     bindr (data_table_item_count (sk_sockets K)) (\<lambda>(num_sockets, t).
     find_by_fd_from fd_to_find 0 num_sockets (K\<lparr>sk_sockets := t\<rparr>))"

text \<open>A socket item, or None when there is no memory; then a descriptor of 0 has been closed if the
  parser is what could not be allocated. \<open>junk\<close> is what \<^verbatim>\<open>malloc\<close> returned for the packet.\<close>

definition net_socket_create_item :: "env \<Rightarrow> (nat \<Rightarrow> byte) \<Rightarrow> (raveloxmidi_socket option \<times> int option) result" where
  "net_socket_create_item E junk =
     (if \<not> en_alloc E (Site ''net_socket_create_item:new_socket'') then Inr (None, None)
      else if \<not> en_alloc E (Site ''net_socket_create_item:packet'') then Inr (None, None)
      else
        let new_socket = \<lparr>so_fd = 0, so_packet = Some (map junk [0..<NET_APPLEMIDI_UDPSIZE + 1]),
                          so_packet_size = NET_APPLEMIDI_UDPSIZE, so_state = None, so_held = False, so_device_hash = -1\<rparr> in
        bindr (config_int_get (en_config E) (Some ''read.ring_buffer_size'')) (\<lambda>v.
        bindr (midi_state_create (en_alloc E) (en_junk E)
                 (max NET_SOCKET_DEFAULT_RING_BUFFER (nat (v mod 2 ^ 64)))) (\<lambda>new_state.
        case new_state of
          None \<Rightarrow> bindr (net_socket_destroy (Some (Some new_socket))) (\<lambda>(closed, _). Inr (None, closed))
        | Some _ \<Rightarrow> Inr (Some (new_socket\<lparr>so_state := new_state\<rparr>), None))))"

text \<open>The address of the new item is that of \<open>E\<close>. That it could not be added is not looked at.\<close>

definition net_socket_add :: "env \<Rightarrow> (nat \<Rightarrow> byte) \<Rightarrow> int \<Rightarrow> sockets \<Rightarrow> (nat option \<times> sockets) result" where
  "net_socket_add E junk new_socket_fd K =
     (if new_socket_fd < 0 then Inr (None, K)
      else
        bindr (net_socket_create_item E junk) (\<lambda>(new_socket_item, _).
        case new_socket_item of None \<Rightarrow> Inr (None, K)
        | Some s \<Rightarrow>
            bindr (data_table_add_item (en_alloc E) (sk_sockets K) (Some (en_address E))) (\<lambda>(_, t).
            Inr (Some (en_address E),
              K\<lparr>sk_sockets := t, sk_store := (sk_store K)(en_address E \<mapsto> s\<lparr>so_fd := new_socket_fd\<rparr>)\<rparr>))))"

text \<open>\<open>new_socket\<close> is what \<^verbatim>\<open>socket\<close> returns, \<open>bind_errno\<close> the error of \<^verbatim>\<open>bind\<close>, 0 for none.\<close>

definition net_socket_listener_create ::
    "env \<Rightarrow> (nat \<Rightarrow> byte) \<Rightarrow> int \<Rightarrow> int \<Rightarrow> sockets \<Rightarrow> (int \<times> sockets) result" where
  "net_socket_listener_create E junk new_socket bind_errno K =
     (if new_socket < 0 then Inr (new_socket, K)
      else if bind_errno \<noteq> 0 then Inr (bind_errno, K)
      else bindr (net_socket_add E junk new_socket K) (\<lambda>(_, K). Inr (0, K)))"

definition socket_fd_at :: "nat \<Rightarrow> sockets \<Rightarrow> (int \<times> sockets) result" where
  "socket_fd_at i K =
     bindr (socket_get i K) (\<lambda>(p, K).
     case p of None \<Rightarrow> Inr (-1, K) | Some a \<Rightarrow> bindr (socket_at K a) (\<lambda>s. Inr (so_fd s, K)))"

definition net_socket_get_data_socket :: "sockets \<Rightarrow> (int \<times> sockets) result" where
  "net_socket_get_data_socket = socket_fd_at NET_SOCKET_DATA_PORT"

definition net_socket_get_control_socket :: "sockets \<Rightarrow> (int \<times> sockets) result" where
  "net_socket_get_control_socket = socket_fd_at NET_SOCKET_CONTROL_PORT"

definition net_socket_get_local_socket :: "sockets \<Rightarrow> (int \<times> sockets) result" where
  "net_socket_get_local_socket = socket_fd_at NET_SOCKET_LOCAL_PORT"

definition net_socket_get_shutdown_fd :: "sockets \<Rightarrow> int" where
  "net_socket_get_shutdown_fd K = fst (sk_shutdown_fd K)"

section \<open>Starting\<close>

text \<open>What the kernel and the file system answer while the sockets are set up: for a port the results
  of \<^verbatim>\<open>socket\<close> and \<^verbatim>\<open>bind\<close>, whether the file for inbound MIDI passes the security check, and what
  opening it returns. The three items get the addresses from \<open>en_address\<close> on.\<close>

record kernel =
  kn_socket :: "int \<Rightarrow> int \<times> int"
  kn_secure :: bool
  kn_open :: int

definition AF_INET :: int where "AF_INET = 2"
definition AF_INET6 :: int where "AF_INET6 = 10"

definition net_socket_init :: "env \<Rightarrow> (nat \<Rightarrow> byte) \<Rightarrow> kernel \<Rightarrow> sockets \<Rightarrow> (int \<times> sockets) result" where
  "net_socket_init E junk os K =
     (let K = K\<lparr>sk_send_held := False, sk_poll_fds_held := False\<rparr> in
      bindr (net_socket_poll_fds_lock K) (\<lambda>K.
      bindr (net_socket_poll_fds_unlock (K\<lparr>sk_poll_fds := [], sk_poll_fds_capacity := 0\<rparr>)) (\<lambda>K.
      let K = K\<lparr>sk_sockets := data_table_create (en_alloc E) (Some ''sockets'') True\<rparr> in
      if sk_sockets K = None then Inr (-1, K)
      else
        bindr (config_int_get (en_config E) (Some ''network.control.port'')) (\<lambda>control_port.
        bindr (config_int_get (en_config E) (Some ''network.data.port'')) (\<lambda>data_port.
        bindr (config_int_get (en_config E) (Some ''network.local.port'')) (\<lambda>local_port.
        bindr (config_string_get (en_config E) (Some ''network.bind_address'')) (\<lambda>bind_address.
        bindr (get_sock_info (en_resolve E) (map_option string_bytes bind_address) control_port None None (Some 0))
          (\<lambda>(_, _, _, address_family).
        if address_family \<noteq> Some AF_INET \<and> address_family \<noteq> Some AF_INET6 then Inr (-1, K)
        else
          let listener = (\<lambda>i port. case kn_socket os port of (fd, errno) \<Rightarrow>
                net_socket_listener_create (E\<lparr>en_address := en_address E + i\<rparr>) junk fd errno) in
          bindr (listener 0 control_port K) (\<lambda>(err, K). if err \<noteq> 0 then Inr (-1, K)
          else bindr (listener 1 data_port K) (\<lambda>(err, K). if err \<noteq> 0 then Inr (-1, K)
          else bindr (listener 2 local_port K) (\<lambda>(err, K). if err \<noteq> 0 then Inr (-1, K)
          else
            bindr (config_string_get (en_config E) (Some ''inbound_midi'')) (\<lambda>inbound_midi_filename.
            if inbound_midi_filename = None \<or> \<not> kn_secure os then Inr (0, K)
            else
              bindr (config_string_get (en_config E) (Some ''file_mode'')) (\<lambda>file_mode.
              bindr (deref file_mode) (\<lambda>_.
              Inr (0, K\<lparr>sk_inbound_midi_fd := (if kn_open os < 0 then -1 else kn_open os)\<rparr>)))))))))))))))"

text \<open>What is closed, in order; the items are destroyed one after the other.\<close>

fun destroy_sockets :: "nat \<Rightarrow> nat \<Rightarrow> sockets \<Rightarrow> (int list \<times> sockets) result" where
  "destroy_sockets i 0 K = Inr ([], K)"
| "destroy_sockets i (Suc n) K =
     bindr (data_table_item_get (sk_sockets K) i) (\<lambda>p.
     bindr (case p of None \<Rightarrow> Inr ([], K)
            | Some a \<Rightarrow> bindr (socket_at K a) (\<lambda>s. bindr (net_socket_destroy (Some (Some s))) (\<lambda>(closed, _).
                Inr (case closed of None \<Rightarrow> [] | Some fd \<Rightarrow> [fd], K\<lparr>sk_store := (sk_store K)(a := None)\<rparr>)))) (\<lambda>(c, K).
     bindr (destroy_sockets (Suc i) n K) (\<lambda>(cs, K). Inr (c @ cs, K))))"

definition net_socket_teardown :: "sockets \<Rightarrow> (int list \<times> sockets) result" where
  "net_socket_teardown K =
     (let closed = (if sk_inbound_midi_fd K \<ge> 0 then [sk_inbound_midi_fd K] else []) in
      case sk_sockets K of None \<Rightarrow> Inr (closed, K)
      | Some t \<Rightarrow>
          bindr (sockets_lock K) (\<lambda>K.
          bindr (destroy_sockets 0 (dt_count t) K) (\<lambda>(cs, K).
          bindr (sockets_unlock K) (\<lambda>K. Inr (closed @ cs, K\<lparr>sk_sockets := None\<rparr>)))))"

section \<open>Polling and shutting down\<close>

definition net_socket_poll_fds_add :: "bool \<Rightarrow> int \<Rightarrow> sockets \<Rightarrow> int \<times> sockets" where
  "net_socket_poll_fds_add mem fd K =
     (if fd \<le> 0 then (0, K)
      else if length (sk_poll_fds K) \<ge> sk_poll_fds_capacity K \<and> \<not> mem then (0, K)
      else (1, K\<lparr>sk_poll_fds := sk_poll_fds K @ [fd],
                 sk_poll_fds_capacity := (if length (sk_poll_fds K) \<ge> sk_poll_fds_capacity K
                   then sk_poll_fds_capacity K + 8 else sk_poll_fds_capacity K)\<rparr>))"

fun add_socket_fds :: "alloc \<Rightarrow> nat \<Rightarrow> nat \<Rightarrow> sockets \<Rightarrow> sockets result" where
  "add_socket_fds A i 0 K = Inr K"
| "add_socket_fds A i (Suc left) K =
     bindr (socket_get i K) (\<lambda>(p, K).
     bindr (case p of None \<Rightarrow> Inr K
            | Some a \<Rightarrow> bindr (socket_at K a) (\<lambda>s.
                Inr (if so_fd s > 0 then snd (net_socket_poll_fds_add (A (Iter i (Site ''net_socket_poll_fds_add:new_poll_fds''))) (so_fd s) K)
                     else K))) (add_socket_fds A (Suc i) left))"

definition net_socket_set_fds :: "alloc \<Rightarrow> sockets \<Rightarrow> sockets result" where
  "net_socket_set_fds A K =
     bindr (data_table_item_count (sk_sockets K)) (\<lambda>(num_sockets, t).
     bindr (net_socket_poll_fds_lock (K\<lparr>sk_sockets := t\<rparr>)) (\<lambda>K.
     let K = K\<lparr>sk_poll_fds := []\<rparr>;
         K = snd (net_socket_poll_fds_add (A (Site ''net_socket_poll_fds_add:new_poll_fds'')) (fst (sk_shutdown_fd K)) K) in
     bindr (add_socket_fds A 0 num_sockets K) net_socket_poll_fds_unlock))"

definition net_socket_set_shutdown_lock :: "int \<Rightarrow> sockets \<Rightarrow> sockets result" where
  "net_socket_set_shutdown_lock i K =
     bindr (mutex_lock (sk_shutdown_held K)) (\<lambda>h.
     bindr (mutex_unlock h) (\<lambda>h. Inr (K\<lparr>sk_shutdown := i, sk_shutdown_held := h\<rparr>)))"

definition net_socket_get_shutdown_status :: "sockets \<Rightarrow> (int \<times> sockets) result" where
  "net_socket_get_shutdown_status K =
     bindr (mutex_lock (sk_shutdown_held K)) (\<lambda>h.
     bindr (mutex_unlock h) (\<lambda>h. Inr (sk_shutdown K, K\<lparr>sk_shutdown_held := h\<rparr>)))"

text \<open>\<open>pipe\<close> is the pipe the kernel makes.\<close>

definition net_socket_loop_init :: "int \<times> int \<Rightarrow> sockets \<Rightarrow> sockets result" where
  "net_socket_loop_init pipe K =
     bindr (net_socket_set_shutdown_lock 0 (K\<lparr>sk_shutdown_held := False\<rparr>)) (\<lambda>K. Inr (K\<lparr>sk_shutdown_fd := pipe\<rparr>))"

definition net_socket_loop_teardown :: "sockets \<Rightarrow> sockets" where
  "net_socket_loop_teardown K = K\<lparr>sk_poll_fds := [], sk_poll_fds_capacity := 0\<rparr>"

section \<open>Reading\<close>

text \<open>Effects: an answer to the sender of the datagram, packets to a connection or the start of the
  synchronisation thread, a command for the queue with its context, the octet that wakes the
  poll at a shutdown.\<close>

datatype socket_effect = Reply bytes | Peer effect | Queued midi_command "nat option" | Shutdown_signal

text \<open>The datagram, where it came from, and the world it is read in.\<close>

record received =
  rc_bytes :: bytes
  rc_ip_address :: "bytes option"
  rc_port :: "16 word"

record world =
  wd_sockets :: sockets
  wd_net :: net
  wd_contexts :: sender_store

text \<open>What the machine leaves open: the sign of \<^verbatim>\<open>char\<close>, the size of a pointer, the contents of fresh
  memory, whether \<^verbatim>\<open>X_REALLOC\<close> to so many octets extends the text of the list of connections where it lies,
  how a pointer is printed, and the address of the next data context.\<close>

record machine =
  mc_sgn_char :: bool
  mc_ptr_size :: nat
  mc_wild :: command_data
  mc_header :: midi_payload_header
  mc_junk :: "nat \<Rightarrow> byte"
  mc_stays :: "nat \<Rightarrow> bool"
  mc_show_ptr :: "nat \<Rightarrow> string"
  mc_context :: nat

definition reply :: "net_response option \<Rightarrow> socket_effect list result" where
  "reply response =
     (case response of None \<Rightarrow> Inr []
      | Some r \<Rightarrow> if nr_len r = 0 then Inr [Reply []]
                  else bindr (deref (nr_buffer r)) (\<lambda>b. bindr (mem_read b 0 (nr_len r)) (\<lambda>xs. Inr [Reply xs])))"

text \<open>The responder for a session command: the answer to its sender, if any, and the effects.\<close>

definition session_respond ::
    "machine \<Rightarrow> env \<Rightarrow> received \<Rightarrow> net_applemidi_command \<Rightarrow> net \<Rightarrow> (net_response option \<times> effect list \<times> net) result" where
  "session_respond M E rc command N =
     (if ac_command command = NET_APPLEMIDI_CMD_INV then
        bindr (as_inv (ac_data command)) (\<lambda>d.
        bindr (applemidi_inv_responder E (rc_ip_address rc) (rc_port rc) d N) (\<lambda>(response, N). Inr (response, [], N)))
      else if ac_command command = NET_APPLEMIDI_CMD_ACCEPT then
        bindr (as_inv (ac_data command)) (\<lambda>d.
        bindr (applemidi_ok_responder E d N) (\<lambda>(es, N). Inr (None, es, N)))
      else if ac_command command = NET_APPLEMIDI_CMD_END then
        bindr (as_inv (ac_data command)) (\<lambda>d.
        bindr (applemidi_by_responder E d N) (\<lambda>N. Inr (None, [], N)))
      else if ac_command command = NET_APPLEMIDI_CMD_SYNC then
        bindr (as_sync (ac_data command)) (\<lambda>d.
        bindr (applemidi_sync_responder (mc_sgn_char M) E d N) (\<lambda>(response, N). Inr (response, [], N)))
      else if ac_command command = NET_APPLEMIDI_CMD_FEEDBACK then
        bindr (as_feedback (ac_data command)) (\<lambda>d.
        bindr (applemidi_feedback_responder d N) (\<lambda>N. Inr (None, [], N)))
      else Inr (None, [], N))"

text \<open>A session command: the return value, the effects, the parser of the socket, the connections.\<close>

definition read_applemidi ::
    "machine \<Rightarrow> env \<Rightarrow> received \<Rightarrow> midi_state option \<Rightarrow> net \<Rightarrow>
     (int \<times> socket_effect list \<times> midi_state option \<times> net) result" where
  "read_applemidi M E rc st N =
     bindr (midi_state_drain (en_alloc E) st) (\<lambda>(read_buffer, read_buffer_size, st).
     bindr (net_applemidi_unpack (en_alloc E) (mc_ptr_size M) (mc_wild M) read_buffer read_buffer_size) (\<lambda>(ret, command).
     bindr (deref command) (\<lambda>command.
     bindr (session_respond M E rc command N) (\<lambda>(response, es, N).
     bindr (reply response) (\<lambda>rs.
     bindr (net_applemidi_cmd_destroy (Some command)) (\<lambda>_. Inr (ret, map Peer es @ rs, st, N)))))))"

text \<open>A reference to the context for each command that is queued.\<close>

fun queue_commands :: "nat option \<Rightarrow> midi_command list \<Rightarrow> sender_store \<Rightarrow> (socket_effect list \<times> sender_store) result" where
  "queue_commands context [] S = Inr ([], S)"
| "queue_commands context (c # cs) S =
     bindr (data_context_acquire context S) (\<lambda>S.
     bindr (queue_commands context cs S) (\<lambda>(es, S). Inr (Queued c context # es, S)))"

text \<open>The commands of a parser go to the queue under a new context, which says where they came from
  and is held while they are queued.\<close>

definition send_commands ::
    "machine \<Rightarrow> alloc \<Rightarrow> midi_sender_context \<Rightarrow> midi_parse_mode \<Rightarrow> bool \<Rightarrow> midi_state option \<Rightarrow> sender_store \<Rightarrow>
     (socket_effect list \<times> midi_state option \<times> sender_store) result" where
  "send_commands M A originator mode z st S =
     (let originators = (if A (Site ''net_socket_read:originators'') then Some originator else None);
          (context, S) = data_context_create A (mc_context M) True S in
      bindr (case context of None \<Rightarrow> Inr S
             | Some a \<Rightarrow>
                 bindr (case originators of None \<Rightarrow> Inr S
                        | Some s \<Rightarrow> bindr (context_at S a) (\<lambda>c. Inr (S(a \<mapsto> c\<lparr>dx_data := Some s\<rparr>)))) (\<lambda>S.
                 data_context_acquire (Some a) S)) (\<lambda>S.
      bindr (midi_state_send A st mode z) (\<lambda>(commands, st).
      bindr (queue_commands context commands S) (\<lambda>(es, S).
      bindr (case context of None \<Rightarrow> Inr S | Some a \<Rightarrow> bindr (data_context_release (Some a) S) (\<lambda>(_, S). Inr S)) (\<lambda>S.
      Inr (es, st, S))))))"

text \<open>An RTP packet. The payload that \<^verbatim>\<open>midi_payload_unpack\<close> may not have set is used all the same.\<close>

definition read_rtp ::
    "machine \<Rightarrow> env \<Rightarrow> midi_state option \<Rightarrow> net \<Rightarrow> sender_store \<Rightarrow>
     (socket_effect list \<times> midi_state option \<times> net \<times> sender_store) result" where
  "read_rtp M E st N S =
     (let A = en_alloc E in
      bindr (midi_state_drain A st) (\<lambda>(read_buffer, read_buffer_size, st).
      bindr (rtp_packet_unpack A read_buffer read_buffer_size (rtp_packet_create A)) (\<lambda>rtp_packet.
      bindr (deref rtp_packet) (\<lambda>pkt.
      if rh_v (rp_header pkt) \<noteq> RTP_VERSION then Inr ([], st, N, S)
      else
        bindr (midi_payload_unpack A (mc_header M) None (rp_payload pkt) (rp_payload_len pkt)) (\<lambda>midi_payload.
        bindr (net_ctx_find_by_ssrc (rh_ssrc (rp_header pkt)) N) (\<lambda>(current_ctx, N).
        case current_ctx of None \<Rightarrow> Inr ([], st, N, S)
        | Some a \<Rightarrow>
            bindr (ctx_at (nt_contexts N) a) (\<lambda>c.
            bindr (deref midi_payload) (\<lambda>pl.
            bindr (deref (pl_header pl)) (\<lambda>h.
            bindr (midi_state_write (nc_midi_state c) (pl_buffer pl) (unat (ph_len h))) (\<lambda>(_, cst).
            bindr (applemidi_feedback_create A (rh_ssrc (rp_header pkt)) (rh_seq (rp_header pkt))) (\<lambda>response.
            bindr (reply response) (\<lambda>rs.
            bindr (send_commands M A \<lparr>sx_ssrc = rh_ssrc (rp_header pkt), sx_alsa_card_hash = 0\<rparr> MIDI_PARSE_MODE_RTP
                     (ph_Z h \<noteq> 0) cst S) (\<lambda>(es, cst, S).
            Inr (rs @ es, st, N\<lparr>nt_contexts := (nt_contexts N)(a \<mapsto> c\<lparr>nc_midi_state := cst\<rparr>)\<rparr>, S))))))))))))))"

definition is_command :: "midi_state option \<Rightarrow> (bool \<times> midi_state option) result" where
  "is_command st =
     bindr (midi_state_char_compare st 0xff 0) (\<lambda>(r, st).
     if r \<noteq> 1 then Inr (False, st)
     else bindr (midi_state_char_compare st 0xff 1) (\<lambda>(r, st). Inr (r = 1, st)))"

definition is_request :: "bool \<Rightarrow> string \<Rightarrow> midi_state option \<Rightarrow> (bool \<times> midi_state option) result" where
  "is_request here word st =
     (if \<not> here then Inr (False, st)
      else bindr (midi_state_compare st (Some (text_bytes word @ [0])) 4) (\<lambda>(r, st). Inr (r = 0, st)))"

text \<open>What is done with the octets that the parser of a socket has taken in: the return value, the
  effects and the world, whose socket is the one at \<open>a\<close>, with its parser \<open>st\<close>.\<close>

definition read_dispatch ::
    "machine \<Rightarrow> env \<Rightarrow> received \<Rightarrow> bool \<Rightarrow> bool \<Rightarrow> int \<Rightarrow> midi_state option \<Rightarrow> world \<Rightarrow>
     (int \<times> socket_effect list \<times> midi_state option \<times> world) result" where
  "read_dispatch M E rc is_peer is_local device_hash st W =
     bindr (if is_peer then is_command st else Inr (False, st)) (\<lambda>(b, st).
     if b then
       bindr (read_applemidi M E rc st (wd_net W)) (\<lambda>(ret, es, st, N). Inr (ret, es, st, W\<lparr>wd_net := N\<rparr>))
     else bindr (is_request is_local ''STAT'' st) (\<lambda>(b, st).
     if b then
       bindr (midi_state_advance st 4) (\<lambda>st. Inr (0, [Reply (text_bytes ''OK'')], st, W))
     else bindr (is_request is_local ''QUIT'' st) (\<lambda>(b, st).
     if b then
       bindr (net_socket_set_shutdown_lock 1 (wd_sockets W)) (\<lambda>K.
       bindr (midi_state_advance st 4) (\<lambda>st.
       Inr (0, [Reply (text_bytes ''QT''), Shutdown_signal], st, W\<lparr>wd_sockets := K\<rparr>)))
     else bindr (is_request is_local ''LIST'' st) (\<lambda>(b, st).
     if b then
       bindr (net_ctx_connections_to_string (en_alloc E) (mc_stays M) (mc_junk M) (mc_show_ptr M) (wd_net W)) (\<lambda>(buffer, N).
       bindr (case buffer of None \<Rightarrow> Inr [] | Some xs \<Rightarrow> bindr (c_strlen xs) (\<lambda>n. Inr [Reply (take n xs)])) (\<lambda>es.
       bindr (midi_state_advance st 4) (\<lambda>st. Inr (0, es, st, W\<lparr>wd_net := N\<rparr>))))
     else if is_local then
       bindr (send_commands M (en_alloc E) \<lparr>sx_ssrc = 0, sx_alsa_card_hash = device_hash\<rparr> MIDI_PARSE_MODE_SIMPLE False st (wd_contexts W))
         (\<lambda>(es, st, S). Inr (0, es, st, W\<lparr>wd_contexts := S\<rparr>))
     else
       bindr (read_rtp M E st (wd_net W) (wd_contexts W)) (\<lambda>(es, st, N, S).
       Inr (0, es, st, W\<lparr>wd_net := N, wd_contexts := S\<rparr>))))))"

definition socket_set :: "nat \<Rightarrow> raveloxmidi_socket \<Rightarrow> world \<Rightarrow> world" where
  "socket_set a s W = W\<lparr>wd_sockets := (wd_sockets W)\<lparr>sk_store := (sk_store (wd_sockets W))(a \<mapsto> s)\<rparr>\<rparr>"

text \<open>\<open>received\<close> is None when \<^verbatim>\<open>recvfrom\<close> returns nothing or an error.\<close>

definition net_socket_read ::
    "machine \<Rightarrow> env \<Rightarrow> int \<Rightarrow> received option \<Rightarrow> world \<Rightarrow> (int \<times> socket_effect list \<times> world) result" where
  "net_socket_read M E fd received W =
     bindr (net_socket_get_data_socket (wd_sockets W)) (\<lambda>(data_fd, K).
     bindr (net_socket_get_control_socket K) (\<lambda>(control_fd, K).
     bindr (net_socket_get_local_socket K) (\<lambda>(local_fd, K).
     bindr (net_socket_find_by_fd fd K) (\<lambda>(found_socket, K).
     let W = W\<lparr>wd_sockets := K\<rparr> in
     case found_socket of None \<Rightarrow> Inr (0, [], W)
     | Some a \<Rightarrow>
         bindr (socket_at K a) (\<lambda>s.
         bindr (net_socket_lock (Some s)) (\<lambda>p.
         bindr (deref p) (\<lambda>s.
         bindr (deref (so_packet s)) (\<lambda>packet.
         bindr (mem_write packet 0 (replicate (so_packet_size s + 1) 0)) (\<lambda>packet.
         bindr (case received of None \<Rightarrow> Inr (0, [], s\<lparr>so_packet := Some packet\<rparr>, W)
                | Some rc \<Rightarrow>
                    let xs = take NET_APPLEMIDI_UDPSIZE (rc_bytes rc) in
                    bindr (mem_write packet 0 xs) (\<lambda>packet.
                    let s = s\<lparr>so_packet := Some packet\<rparr> in
                    if xs = [] then Inr (0, [], s, W)
                    else
                      bindr (midi_state_write (so_state s) (Some packet) (length xs)) (\<lambda>(_, st).
                      bindr (read_dispatch M E rc (fd = control_fd \<or> fd = data_fd) (fd = local_fd) (so_device_hash s) st
                               (socket_set a (s\<lparr>so_state := st\<rparr>) W)) (\<lambda>(ret, es, st, W).
                      Inr (ret, es, s\<lparr>so_state := st\<rparr>, W))))) (\<lambda>(ret, es, s, W).
         bindr (net_socket_unlock (Some s)) (\<lambda>p.
         bindr (deref p) (\<lambda>s. Inr (ret, es, socket_set a s W)))))))))))))"

section \<open>The loop\<close>

text \<open>One turn: what \<^verbatim>\<open>poll\<close> says of the descriptors, in their order, whether there is something to read
  and what.\<close>

fun read_ready :: "machine \<Rightarrow> (nat \<Rightarrow> env) \<Rightarrow> nat \<Rightarrow> (int \<times> bool \<times> received option) list \<Rightarrow> world \<Rightarrow>
    (socket_effect list \<times> world) result" where
  "read_ready M E i [] W = Inr ([], W)"
| "read_ready M E i ((fd, pollin, rc) # ready) W =
     bindr (if fd = fst (sk_shutdown_fd (wd_sockets W)) \<or> \<not> pollin then Inr ([], W)
            else bindr (net_socket_read M (E i) fd rc W) (\<lambda>(_, es, W). Inr (es, W))) (\<lambda>(es, W).
     bindr (read_ready M E (Suc i) ready W) (\<lambda>(es', W). Inr (es @ es', W)))"

definition net_socket_fd_turn ::
    "machine \<Rightarrow> (nat \<Rightarrow> env) \<Rightarrow> (int list \<Rightarrow> (int \<times> bool \<times> received option) list) \<Rightarrow> world \<Rightarrow>
     (socket_effect list \<times> bool \<times> world) result" where
  "net_socket_fd_turn M E poll W =
     bindr (net_socket_set_fds (en_alloc (E 0)) (wd_sockets W)) (\<lambda>K.
     bindr (net_socket_poll_fds_lock K) (\<lambda>K.
     bindr (net_socket_poll_fds_unlock K) (\<lambda>K.
     bindr (read_ready M E 0 (poll (sk_poll_fds K)) (W\<lparr>wd_sockets := K\<rparr>)) (\<lambda>(es, W).
     bindr (net_socket_get_shutdown_status (wd_sockets W)) (\<lambda>(status, K).
     Inr (es, status = 0, W\<lparr>wd_sockets := K\<rparr>))))))"

text \<open>The signal handler; both ends of the pipe are closed.\<close>

definition net_socket_loop_shutdown :: "sockets \<Rightarrow> (socket_effect list \<times> int list \<times> sockets) result" where
  "net_socket_loop_shutdown K =
     bindr (net_socket_set_shutdown_lock 1 K) (\<lambda>K.
     Inr ([Shutdown_signal], [fst (sk_shutdown_fd K), snd (sk_shutdown_fd K)], K))"

section \<open>Parsers\<close>

lemma socket_lock_ok: "\<not> so_held s \<Longrightarrow> net_socket_lock (Some s) = Inr (Some (s\<lparr>so_held := True\<rparr>))"
  by (simp add: net_socket_lock_def)

lemma ring_compare_total:
  assumes "ring_wf (Some r)" "rb_data r = Some d" "i + n \<le> length compare"
  shows "\<exists>k. ring_buffer_compare_loop r d compare i n = Inr k"
  using assms(3)
proof (induction n arbitrary: i)
  case (Suc n)
  then have "i < length compare" by simp
  with Suc ring_index [OF assms(1,2), of i] show ?case by (auto simp del: ring_contents.simps)
qed simp

lemma ring_compare_ok:
  assumes wf: "ring_wf p" and n: "0 < n" "n \<le> length compare"
  shows "\<exists>k. ring_buffer_compare p (Some compare) n = Inr (k, p) \<and>
    (k = 0 \<longleftrightarrow> take n compare = take n (ring_contents p) \<and> n \<le> length (ring_contents p))"
proof -
  from wf obtain r d where p: "p = Some r" "rb_data r = Some d" "\<not> rb_held r" by (elim ring_wfE)
  from ring_compare_total [of r d 0 n compare] wf p n obtain k where
    "ring_buffer_compare_loop r d compare 0 n = Inr k" by auto
  with p n have "ring_buffer_compare p (Some compare) n = Inr (k, p)" by simp
  with ring_buffer_compare_zero [OF assms] show ?thesis by auto
qed

lemma ring_char_compare_ok:
  assumes "ring_wf p"
  shows "ring_buffer_char_compare p b i = Inr (if i < length (ring_contents p) \<and> ring_contents p ! i = b then 1 else 0, p)"
proof -
  from assms obtain r d where p: "p = Some r" "rb_data r = Some d" "\<not> rb_held r" by (elim ring_wfE)
  have len: "length (ring_contents p) = rb_used r" using p by simp
  show ?thesis
  proof (cases "i < rb_used r")
    case True
    with ring_index [of r d i] assms p obtain j where
      "ring_buffer_data_index r i = Inr j" "mem_get d j = Inr (ring_contents p ! i)"
      by (auto simp: result_simps simp del: ring_contents.simps)
    with True p len show ?thesis by (simp del: ring_contents.simps)
  next
    case False
    with p len show ?thesis by (simp del: ring_contents.simps)
  qed
qed

definition unread :: "midi_state \<Rightarrow> bytes" where
  "unread st = ring_contents (ms_ring st)"

lemma parser_ring: "parser_wf st \<Longrightarrow> ring_wf (ms_ring st) \<and> ms_ring st \<noteq> None \<and> \<not> ms_held st"
  by (cases "ms_ring st") (auto simp: parser_wf_def)

lemma is_command_ok:
  assumes "parser_wf st"
  shows "is_command (Some st) = Inr (2 \<le> length (unread st) \<and> unread st ! 0 = 0xff \<and> unread st ! 1 = 0xff, Some st)"
  using parser_ring [OF assms] ring_char_compare_ok [of "ms_ring st" "0xff"]
  by (cases st) (auto simp: is_command_def midi_state_char_compare_def unread_def)

lemma is_request_ok:
  assumes "parser_wf st" "length w = 4"
  shows "is_request True w (Some st) = Inr (take 4 (unread st) = text_bytes w, Some st)"
proof -
  from parser_ring [OF assms(1)] have r: "ring_wf (ms_ring st)" "ms_ring st \<noteq> None" by simp_all
  have len: "4 \<le> length (text_bytes w @ [0])" using assms(2) by (simp add: text_bytes_def)
  have tk: "take 4 (text_bytes w @ [0]) = text_bytes w" using assms(2) by (simp add: text_bytes_def)
  have "(text_bytes w = take 4 (unread st) \<and> 4 \<le> length (unread st)) = (take 4 (unread st) = text_bytes w)"
    using assms(2) arg_cong [of _ _ length] by (fastforce simp: text_bytes_def)
  with ring_compare_ok [OF r(1) _ len] tk r(2) show ?thesis
    by (cases st) (auto simp: is_request_def midi_state_compare_def unread_def)
qed

lemma is_request_other: "is_request False w st = Inr (False, st)"
  by (simp add: is_request_def)

lemma state_drain_ok:
  assumes "parser_wf st" "unread st \<noteq> []"
  shows "\<exists>st'. midi_state_drain mem_ok (Some st) = Inr (Some (unread st), length (unread st), Some st') \<and>
    midi_ready (ring_capacity (ms_ring st)) st'"
proof -
  from parser_ring [OF assms(1)] have r: "ring_wf (ms_ring st)" "ms_ring st \<noteq> None" "\<not> ms_held st" by simp_all
  from ring_buffer_drain_ok [OF r(1), of mem_ok] assms(2) obtain p where
    "ring_buffer_drain mem_ok (ms_ring st) = Inr (Some (unread st), length (unread st), p)" "ring_wf p" "ring_contents p = []"
    "ring_capacity p = ring_capacity (ms_ring st)" by (auto simp: unread_def)
  with r assms(1) show ?thesis
    by (auto simp: midi_state_drain_def midi_state_lock_def midi_state_unlock_def midi_ready_def parser_wf_def)
qed

lemma state_advance_ok:
  assumes "parser_wf st"
  shows "\<exists>st'. midi_state_advance (Some st) n = Inr (Some st') \<and> parser_wf st' \<and> unread st' = drop n (unread st) \<and>
    ring_capacity (ms_ring st') = ring_capacity (ms_ring st)"
proof -
  from parser_ring [OF assms(1)] have r: "ring_wf (ms_ring st)" "ms_ring st \<noteq> None" "\<not> ms_held st" by simp_all
  from ring_buffer_advance_ok [OF r(1), of n] obtain p where
    "ring_buffer_advance (ms_ring st) n = Inr p" "ring_wf p" "ring_contents p = drop n (unread st)"
    "ring_capacity p = ring_capacity (ms_ring st)" by (auto simp: unread_def)
  with r assms(1) show ?thesis
    by (auto simp: midi_state_advance_def midi_state_lock_def midi_state_unlock_def unread_def parser_wf_def)
qed

section \<open>Well-formed sockets\<close>

definition socket_ok :: "raveloxmidi_socket \<Rightarrow> bool" where
  "socket_ok s \<longleftrightarrow> (\<exists>m. so_packet s = Some m \<and> length m = so_packet_size s + 1) \<and> NET_APPLEMIDI_UDPSIZE \<le> so_packet_size s \<and>
     (\<exists>st n. so_state s = Some st \<and> NET_APPLEMIDI_UDPSIZE \<le> n \<and> midi_ready n st)"

definition socket_addresses :: "sockets \<Rightarrow> nat list" where
  "socket_addresses K = (case sk_sockets K of None \<Rightarrow> [] | Some t \<Rightarrow> table_list t)"

definition socket_of :: "sockets \<Rightarrow> nat \<Rightarrow> raveloxmidi_socket" where
  "socket_of K a = the (sk_store K a)"

definition sockets_wf :: "sockets \<Rightarrow> bool" where
  "sockets_wf K \<longleftrightarrow> (\<exists>t. sk_sockets K = Some t \<and> table_wf t) \<and> \<not> sk_shutdown_held K \<and> \<not> sk_poll_fds_held K \<and>
     dom (sk_store K) = set (socket_addresses K) \<and>
     (\<forall>a\<in>set (socket_addresses K). \<not> so_held (socket_of K a) \<and> socket_ok (socket_of K a))"

lemma sockets_wf_at: "sockets_wf K \<Longrightarrow> a \<in> set (socket_addresses K) \<Longrightarrow> socket_at K a = Inr (socket_of K a)"
  using domD [of a "sk_store K"] by (auto simp: sockets_wf_def socket_at_def socket_of_def)

lemma sockets_count:
  "sockets_wf K \<Longrightarrow> data_table_item_count (sk_sockets K) = Inr (length (socket_addresses K), sk_sockets K)"
  by (auto simp: sockets_wf_def table_count socket_addresses_def)

lemma socket_get_ok:
  assumes "sockets_wf K"
  shows "socket_get i K = Inr (if i < length (socket_addresses K) then Some (socket_addresses K ! i) else None, K)"
proof -
  from assms obtain t where t: "sk_sockets K = Some t" "table_wf t" by (auto simp: sockets_wf_def)
  then have free: "\<not> dt_held t" by (simp add: table_wf_def)
  have "table_ok (t\<lparr>dt_held := True\<rparr>)" "table_list (t\<lparr>dt_held := True\<rparr>) = table_list t"
    using t(2) table_locked_ok [of t True] by (simp_all add: table_wf_def)
  with t free table_slot [of "t\<lparr>dt_held := True\<rparr>" i] show ?thesis
    by (cases K; cases t) (simp add: socket_get_def sockets_lock_def sockets_unlock_def data_table_lock_def
        data_table_unlock_def socket_addresses_def)
qed

lemma find_by_fd_from_ok:
  assumes "sockets_wf K" "i + n = length (socket_addresses K)"
  shows "find_by_fd_from fd i n K =
    Inr (List.find (\<lambda>a. so_fd (socket_of K a) = fd) (drop i (socket_addresses K)), K)"
  using assms(2)
proof (induction n arbitrary: i)
  case (Suc n)
  then have i: "i < length (socket_addresses K)" by simp
  then have d: "drop i (socket_addresses K) = socket_addresses K ! i # drop (Suc i) (socket_addresses K)"
    by (simp add: Cons_nth_drop_Suc)
  from i Suc show ?case unfolding d by (simp add: socket_get_ok [OF assms(1)] sockets_wf_at [OF assms(1)])
qed simp

lemma find_by_fd_ok:
  assumes "sockets_wf K"
  shows "net_socket_find_by_fd fd K = Inr (List.find (\<lambda>a. so_fd (socket_of K a) = fd) (socket_addresses K), K)"
  using find_by_fd_from_ok [OF assms, of 0 "length (socket_addresses K)" fd]
  by (simp add: net_socket_find_by_fd_def sockets_count [OF assms])

definition fd_at :: "sockets \<Rightarrow> nat \<Rightarrow> int" where
  "fd_at K i = (if i < length (socket_addresses K) then so_fd (socket_of K (socket_addresses K ! i)) else -1)"

lemma socket_fd_at_ok: "sockets_wf K \<Longrightarrow> socket_fd_at i K = Inr (fd_at K i, K)"
  by (simp add: socket_fd_at_def socket_get_ok fd_at_def sockets_wf_at)

text \<open>Writing a socket that is in the table.\<close>

lemma socket_set_simps [simp]:
  "wd_net (socket_set a s W) = wd_net W" "wd_contexts (socket_set a s W) = wd_contexts W"
  "socket_addresses (wd_sockets (socket_set a s W)) = socket_addresses (wd_sockets W)"
  "socket_of (wd_sockets (socket_set a s W)) = (socket_of (wd_sockets W))(a := s)"
  "socket_set a s (socket_set a s' W) = socket_set a s W"
  by (auto simp: socket_set_def socket_addresses_def socket_of_def fun_eq_iff)

lemma socket_set_wf:
  assumes "sockets_wf (wd_sockets W)" "a \<in> set (socket_addresses (wd_sockets W))" "socket_ok s" "\<not> so_held s"
  shows "sockets_wf (wd_sockets (socket_set a s W))"
proof -
  have "dom (sk_store (wd_sockets (socket_set a s W))) = insert a (dom (sk_store (wd_sockets W)))"
    by (auto simp: socket_set_def)
  moreover have "sk_sockets (wd_sockets (socket_set a s W)) = sk_sockets (wd_sockets W)"
    "sk_shutdown_held (wd_sockets (socket_set a s W)) = sk_shutdown_held (wd_sockets W)"
    "sk_poll_fds_held (wd_sockets (socket_set a s W)) = sk_poll_fds_held (wd_sockets W)" by (simp_all add: socket_set_def)
  ultimately show ?thesis using assms unfolding sockets_wf_def by auto
qed

lemma midi_state_write_prefix:
  assumes wf: "parser_wf st" and n: "0 < n" "n \<le> length buf"
    and room: "length (unread st) + n \<le> ring_capacity (ms_ring st)"
  shows "\<exists>st'. midi_state_write (Some st) (Some buf) n = Inr (1, Some st') \<and> parser_wf st' \<and>
    unread st' = unread st @ take n buf \<and> ring_capacity (ms_ring st') = ring_capacity (ms_ring st) \<and>
    (\<forall>z. parser_of z st' = parser_of z st)"
proof -
  from parser_ring [OF wf] have r: "ring_wf (ms_ring st)" "ms_ring st \<noteq> None" "\<not> ms_held st" by simp_all
  from ring.put_room [OF r(1) n room [unfolded unread_def]] obtain p where
    "ring_buffer_write (ms_ring st) (Some buf) n = Inr (n, p)" "ring_wf p"
    "ring_contents p = ring_contents (ms_ring st) @ take n buf" "ring_capacity p = ring_capacity (ms_ring st)" by auto
  with wf r n show ?thesis
    by (cases st) (auto simp: midi_state_write_def midi_state_lock_def midi_state_unlock_def parser_wf_def
        parser_of_def unread_def)
qed

lemma ready_unread: "midi_ready n st \<longleftrightarrow> parser_wf st \<and> unread st = [] \<and> ring_capacity (ms_ring st) = n"
  by (simp add: midi_ready_def unread_def)

section \<open>Setting up the sockets\<close>

text \<open>The parser that a new socket has.\<close>

definition fresh_socket :: "env \<Rightarrow> int \<Rightarrow> raveloxmidi_socket \<Rightarrow> bool" where
  "fresh_socket E fd s \<longleftrightarrow> socket_ok s \<and> \<not> so_held s \<and> so_fd s = fd \<and> so_device_hash s = -1 \<and>
     (\<exists>st. so_state s = Some st \<and> parser_of False st =
        \<lparr>pa_status = MIDI_STATE_INIT, pa_running = 0, pa_hold = [], pa_delta = en_junk E, pa_partial = 0, pa_timed = False\<rparr>)"

lemma create_item_ok:
  assumes "env_ok E"
  shows "\<exists>s. net_socket_create_item E junk = Inr (Some s, None) \<and> fresh_socket E 0 s"
proof -
  from assms have E: "en_alloc E = mem_ok" "config_ok (en_config E)" by (simp_all add: env_ok_def)
  from config_int_get_ok [OF E(2)] obtain v where v: "config_int_get (en_config E) (Some ''read.ring_buffer_size'') = Inr v"
    by blast
  let ?n = "max NET_SOCKET_DEFAULT_RING_BUFFER (nat (v mod 2 ^ 64))"
  have n: "0 < ?n" "NET_APPLEMIDI_UDPSIZE \<le> ?n" by (simp_all add: NET_APPLEMIDI_UDPSIZE_def)
  from midi_state_create_ok [OF n(1), of mem_ok "en_junk E" False] obtain st where
    "midi_state_create mem_ok (en_junk E) ?n = Inr (Some st)" "midi_ready ?n st" "parser_of False st =
       \<lparr>pa_status = MIDI_STATE_INIT, pa_running = 0, pa_hold = [], pa_delta = en_junk E, pa_partial = 0, pa_timed = False\<rparr>"
    by (auto simp: midi_ready_def)
  with E v n(2) show ?thesis
    by (auto simp: net_socket_create_item_def fresh_socket_def socket_ok_def simp del: NET_SOCKET_DEFAULT_RING_BUFFER_def)
qed

lemma socket_add_ok:
  assumes K: "sockets_wf K" and E: "env_ok E" and a: "en_address E \<notin> set (socket_addresses K)" and fd: "0 \<le> fd"
  shows "\<exists>K' s. net_socket_add E junk fd K = Inr (Some (en_address E), K') \<and> sockets_wf K' \<and>
    socket_addresses K' = socket_addresses K @ [en_address E] \<and> fresh_socket E fd s \<and>
    socket_of K' = (socket_of K)(en_address E := s) \<and> sk_shutdown K' = sk_shutdown K \<and> sk_shutdown_fd K' = sk_shutdown_fd K"
proof -
  let ?a = "en_address E"
  from create_item_ok [OF E] obtain s0 where s0: "net_socket_create_item E junk = Inr (Some s0, None)" "fresh_socket E 0 s0" by blast
  let ?s = "s0\<lparr>so_fd := fd\<rparr>"
  from s0(2) have s: "fresh_socket E fd ?s" by (auto simp: fresh_socket_def socket_ok_def)
  from K obtain t where t: "sk_sockets K = Some t" "table_wf t" by (auto simp: sockets_wf_def)
  from table_add [OF t(2), of ?a] obtain t' where
    t': "data_table_add_item mem_ok (Some t) (Some ?a) = Inr (1, Some t')" "table_wf t'" "table_list t' = table_list t @ [?a]" by blast
  let ?K = "K\<lparr>sk_sockets := Some t', sk_store := (sk_store K)(?a \<mapsto> ?s)\<rparr>"
  have ad: "socket_addresses ?K = socket_addresses K @ [?a]" using t t'(3) by (simp add: socket_addresses_def)
  have of: "socket_of ?K = (socket_of K)(?a := ?s)" by (simp add: socket_of_def fun_eq_iff)
  have dom: "dom (sk_store ?K) = insert ?a (set (socket_addresses K))"
    using K by (simp add: sockets_wf_def)
  have "sockets_wf ?K" unfolding sockets_wf_def ad dom of
    using K s a t'(2) by (auto simp: sockets_wf_def fresh_socket_def)
  moreover have "net_socket_add E junk fd K = Inr (Some ?a, ?K)"
    using s0(1) t(1) t'(1) fd E by (simp add: net_socket_add_def env_ok_def)
  ultimately show ?thesis using ad of s by (intro exI [of _ ?K] exI [of _ ?s]) simp
qed

text \<open>What an allocation at another address changes of the surroundings.\<close>

lemma env_ok_address [simp]: "env_ok (E\<lparr>en_address := a\<rparr>) = env_ok E"
  by (simp add: env_ok_def)

lemma fresh_socket_address [simp]: "fresh_socket (E\<lparr>en_address := a\<rparr>) = fresh_socket E"
  by (simp add: fresh_socket_def fun_eq_iff)

text \<open>The three listeners: control, data and local.\<close>

definition listening :: "env \<Rightarrow> int list \<Rightarrow> sockets \<Rightarrow> bool" where
  "listening E fds K \<longleftrightarrow> sockets_wf K \<and> socket_addresses K = map (\<lambda>i. en_address E + i) [0..<length fds] \<and>
     (\<forall>i<length fds. fresh_socket E (fds ! i) (socket_of K (en_address E + i)))"

lemma listener_next:
  assumes K: "listening E fds K" and E: "env_ok E" and fd: "0 \<le> fd"
  shows "\<exists>K'. net_socket_listener_create (E\<lparr>en_address := en_address E + length fds\<rparr>) junk fd 0 K = Inr (0, K') \<and>
    listening E (fds @ [fd]) K' \<and> sk_shutdown K' = sk_shutdown K \<and> sk_shutdown_fd K' = sk_shutdown_fd K"
proof -
  let ?E = "E\<lparr>en_address := en_address E + length fds\<rparr>"
  from K have wf: "sockets_wf K" and ad: "socket_addresses K = map (\<lambda>i. en_address E + i) [0..<length fds]"
    and old: "\<forall>i<length fds. fresh_socket E (fds ! i) (socket_of K (en_address E + i))" by (simp_all add: listening_def)
  have "en_address ?E \<notin> set (socket_addresses K)" unfolding ad by auto
  from socket_add_ok [OF wf _ this fd, of junk] E obtain K' s where
    K': "net_socket_add ?E junk fd K = Inr (Some (en_address ?E), K')" "sockets_wf K'"
      "socket_addresses K' = socket_addresses K @ [en_address ?E]" "fresh_socket E fd s"
      "socket_of K' = (socket_of K)(en_address ?E := s)" "sk_shutdown K' = sk_shutdown K" "sk_shutdown_fd K' = sk_shutdown_fd K" by auto
  have "listening E (fds @ [fd]) K'"
    unfolding listening_def K'(3,5) ad using K'(2,4) old by (auto simp: nth_append less_Suc_eq)
  with K' fd show ?thesis by (auto simp: net_socket_listener_create_def)
qed

lemma init_listening:
  assumes "env_ok E"
    and conf: "config_int_get (en_config E) (Some ''network.control.port'') = Inr p0"
      "config_int_get (en_config E) (Some ''network.data.port'') = Inr p1"
      "config_int_get (en_config E) (Some ''network.local.port'') = Inr p2"
      "config_string_get (en_config E) (Some ''network.bind_address'') = Inr (Some bind)"
      "config_string_get (en_config E) (Some ''inbound_midi'') = Inr None"
    and family: "en_resolve E (c_string (string_bytes bind)) p0 = Some (fam, addr)" "fam = AF_INET \<or> fam = AF_INET6"
    and os: "kn_socket os p0 = (fd0, 0)" "kn_socket os p1 = (fd1, 0)" "kn_socket os p2 = (fd2, 0)" "0 \<le> fd0" "0 \<le> fd1" "0 \<le> fd2"
    and K: "\<not> sk_shutdown_held K" "sk_store K = Map.empty"
  shows "\<exists>K'. net_socket_init E junk os K = Inr (0, K') \<and> listening E [fd0, fd1, fd2] K' \<and>
    sk_shutdown K' = sk_shutdown K \<and> sk_shutdown_fd K' = sk_shutdown_fd K"
proof -
  let ?t = "\<lparr>dt_name = Some ''sockets'', dt_items = None, dt_count = 0, dt_held = False, dt_item_destructor = True\<rparr> :: nat data_table"
  let ?K = "K\<lparr>sk_send_held := False, sk_poll_fds := [], sk_poll_fds_capacity := 0, sk_poll_fds_held := False, sk_sockets := Some ?t\<rparr>"
  have "listening E [] ?K"
    using K by (simp add: listening_def sockets_wf_def socket_addresses_def table_wf_def table_ok_def table_list_def)
  from listener_next [OF this assms(1) os(4), of junk] obtain K0 where
    K0: "net_socket_listener_create E junk fd0 0 ?K = Inr (0, K0)" "listening E [fd0] K0"
      "sk_shutdown K0 = sk_shutdown K" "sk_shutdown_fd K0 = sk_shutdown_fd K" by auto
  from listener_next [OF K0(2) assms(1) os(5), of junk] obtain K1 where
    K1: "net_socket_listener_create (E\<lparr>en_address := en_address E + 1\<rparr>) junk fd1 0 K0 = Inr (0, K1)" "listening E [fd0, fd1] K1"
      "sk_shutdown K1 = sk_shutdown K" "sk_shutdown_fd K1 = sk_shutdown_fd K" using K0(3,4) by auto
  from listener_next [OF K1(2) assms(1) os(6), of junk] obtain K2 where
    K2: "net_socket_listener_create (E\<lparr>en_address := en_address E + 2\<rparr>) junk fd2 0 K1 = Inr (0, K2)" "listening E [fd0, fd1, fd2] K2"
      "sk_shutdown K2 = sk_shutdown K" "sk_shutdown_fd K2 = sk_shutdown_fd K" using K1(3,4) by (auto simp: numeral_2_eq_2)
  have "0 \<in> set (string_bytes bind)" by (simp add: string_bytes_def)
  then have info: "get_sock_info (en_resolve E) (Some (string_bytes bind)) p0 None None (Some 0) = Inr (0, None, None, Some fam)"
    using family(1) by (simp add: get_sock_info_def c_strlen_ok)
  have A: "en_alloc E = mem_ok" using assms(1) by (simp add: env_ok_def)
  have "net_socket_init E junk os K = Inr (0, K2)"
    using K0(1) K1(1) K2(1) conf info family(2) os
    by (auto simp: net_socket_init_def A data_table_create_def net_socket_poll_fds_lock_def net_socket_poll_fds_unlock_def Let_def)
  with K2 show ?thesis by blast
qed

text \<open>The socket that a descriptor is found in.\<close>

lemma listening_find:
  assumes "listening E fds K" "distinct fds" "i < length fds"
  shows "List.find (\<lambda>a. so_fd (socket_of K a) = fds ! i) (socket_addresses K) = Some (en_address E + i)"
    "fd_at K i = fds ! i"
proof -
  have ad: "socket_addresses K = map (\<lambda>i. en_address E + i) [0..<length fds]"
    and s: "\<And>i. i < length fds \<Longrightarrow> so_fd (socket_of K (en_address E + i)) = fds ! i"
    using assms(1) by (simp_all add: listening_def fresh_socket_def)
  show "fd_at K i = fds ! i" using assms(3) s by (simp add: fd_at_def ad)
  show "List.find (\<lambda>a. so_fd (socket_of K a) = fds ! i) (socket_addresses K) = Some (en_address E + i)"
    unfolding find_Some_iff
    by (intro exI [of _ i]) (use assms(2,3) s in \<open>auto simp: ad nth_eq_iff_index_eq\<close>)
qed

section \<open>Properties\<close>

text \<open>With a bind address that resolves and three ports that can be bound, starting up leaves a
  well-formed table of three sockets, control, data and local in this order, each with an idle
  parser; the search by descriptor and the three accessors find them.\<close>
theorem net_socket_init_listens:
  assumes "env_ok E"
    and "config_int_get (en_config E) (Some ''network.control.port'') = Inr p0"
      "config_int_get (en_config E) (Some ''network.data.port'') = Inr p1"
      "config_int_get (en_config E) (Some ''network.local.port'') = Inr p2"
      "config_string_get (en_config E) (Some ''network.bind_address'') = Inr (Some bind)"
      "config_string_get (en_config E) (Some ''inbound_midi'') = Inr None"
    and "en_resolve E (c_string (string_bytes bind)) p0 = Some (fam, addr)" "fam = AF_INET \<or> fam = AF_INET6"
    and "kn_socket os p0 = (fd0, 0)" "kn_socket os p1 = (fd1, 0)" "kn_socket os p2 = (fd2, 0)" "0 \<le> fd0" "0 \<le> fd1" "0 \<le> fd2"
      "distinct [fd0, fd1, fd2]"
    and "\<not> sk_shutdown_held K" "sk_store K = Map.empty"
  shows "\<exists>K'. net_socket_init E junk os K = Inr (0, K') \<and> sockets_wf K' \<and>
    net_socket_get_control_socket K' = Inr (fd0, K') \<and> net_socket_get_data_socket K' = Inr (fd1, K') \<and>
    net_socket_get_local_socket K' = Inr (fd2, K') \<and>
    (\<forall>i<3. \<exists>a. net_socket_find_by_fd ([fd0, fd1, fd2] ! i) K' = Inr (Some a, K') \<and>
       fresh_socket E ([fd0, fd1, fd2] ! i) (socket_of K' a))"
proof -
  from init_listening [OF assms(1-14) assms(16,17), of junk] obtain K' where
    K': "net_socket_init E junk os K = Inr (0, K')" "listening E [fd0, fd1, fd2] K'" by blast
  then have wf: "sockets_wf K'" by (simp add: listening_def)
  note find = listening_find [OF K'(2) assms(15)]
  have "fd_at K' 0 = fd0" "fd_at K' 1 = fd1" "fd_at K' 2 = fd2" using find(2) [of 0] find(2) [of 1] find(2) [of 2] by simp_all
  then have "net_socket_get_control_socket K' = Inr (fd0, K')" "net_socket_get_data_socket K' = Inr (fd1, K')"
    "net_socket_get_local_socket K' = Inr (fd2, K')"
    by (simp_all add: net_socket_get_control_socket_def net_socket_get_data_socket_def net_socket_get_local_socket_def
        socket_fd_at_ok [OF wf])
  moreover have "\<exists>a. net_socket_find_by_fd ([fd0, fd1, fd2] ! i) K' = Inr (Some a, K') \<and>
      fresh_socket E ([fd0, fd1, fd2] ! i) (socket_of K' a)" if "i < 3" for i
    using find(1) [of i] K'(2) that
    by (intro exI [of _ "en_address E + i"]) (simp add: find_by_fd_ok [OF wf] listening_def)
  ultimately show ?thesis using K'(1) wf by blast
qed

definition config_example :: "kv_table option" where
  "config_example = Some \<lparr>kt_name = None, kt_count = 4, kt_items = Some
     [\<lparr>ki_key = Some ''network.control.port'', ki_value = Some ''5004''\<rparr>,
      \<lparr>ki_key = Some ''network.data.port'', ki_value = Some ''5005''\<rparr>,
      \<lparr>ki_key = Some ''network.local.port'', ki_value = Some ''5006''\<rparr>,
      \<lparr>ki_key = Some ''network.bind_address'', ki_value = Some ''::''\<rparr>], kt_held = False\<rparr>"

definition env_listen :: env where
  "env_listen = env_example\<lparr>en_config := config_example\<rparr>"

definition kernel_example :: kernel where
  "kernel_example = \<lparr>kn_socket = (\<lambda>port. (port - 5000, 0)), kn_secure = False, kn_open = -1\<rparr>"

definition sockets_start :: sockets where
  "sockets_start = \<lparr>sk_sockets = None, sk_store = Map.empty, sk_shutdown = 0, sk_shutdown_held = False,
     sk_shutdown_fd = (10, 11), sk_send_held = False, sk_poll_fds = [], sk_poll_fds_capacity = 0,
     sk_poll_fds_held = False, sk_inbound_midi_fd = -1\<rparr>"

lemma config_example_values:
  "config_int_get config_example (Some ''network.control.port'') = Inr 5004"
  "config_int_get config_example (Some ''network.data.port'') = Inr 5005"
  "config_int_get config_example (Some ''network.local.port'') = Inr 5006"
  "config_string_get config_example (Some ''network.bind_address'') = Inr (Some ''::'')"
  "config_string_get config_example (Some ''inbound_midi'') = Inr None"
  by code_simp+

lemma env_listen_ok: "env_ok env_listen" "en_config env_listen = config_example"
proof -
  have "distinct (map fold_case [''network.control.port'', ''network.data.port'', ''network.local.port'', ''network.bind_address''])"
    by code_simp
  then show "env_ok env_listen"
    using env_example_ok by (simp add: env_ok_def env_listen_def config_ok_def config_example_def kv_wf_def)
qed (simp add: env_listen_def)

theorem net_socket_init_listens_witness:
  "\<exists>K'. net_socket_init env_listen (\<lambda>_. 7) kernel_example sockets_start = Inr (0, K') \<and> sockets_wf K' \<and>
    net_socket_get_control_socket K' = Inr (4, K') \<and> net_socket_get_data_socket K' = Inr (5, K') \<and>
    net_socket_get_local_socket K' = Inr (6, K')"
  using net_socket_init_listens [OF env_listen_ok(1), unfolded env_listen_ok(2), OF config_example_values,
      of AF_INET "replicate 16 1" kernel_example 4 5 6 sockets_start "\<lambda>_. 7"]
  by (auto simp: env_listen_def env_example_def AF_INET_def kernel_example_def sockets_start_def)

text \<open>The sockets after that start.\<close>

lemma sockets_example:
  "\<exists>K. listening env_listen [4, 5, 6] K \<and> sockets_wf K \<and> sk_shutdown K = 0"
proof -
  have "en_resolve env_listen (c_string (string_bytes ''::'')) 5004 = Some (AF_INET, replicate 16 1)"
    by (simp add: env_listen_def env_example_def AF_INET_def)
  from init_listening [OF env_listen_ok(1), unfolded env_listen_ok(2), OF config_example_values this,
      of kernel_example 4 5 6 sockets_start "\<lambda>_. 7"]
  show ?thesis by (auto simp: kernel_example_def sockets_start_def listening_def)
qed

section \<open>Polling and the end\<close>

text \<open>The descriptors to poll do not touch the table.\<close>

definition same_table :: "sockets \<Rightarrow> sockets \<Rightarrow> bool" where
  "same_table K K' \<longleftrightarrow> (\<exists>fds n h. K' = K\<lparr>sk_poll_fds := fds, sk_poll_fds_capacity := n, sk_poll_fds_held := h\<rparr>)"

lemma poll_fds_add_ok:
  assumes "same_table K K'"
  shows "same_table K (snd (net_socket_poll_fds_add True fd K')) \<and>
    sk_poll_fds (snd (net_socket_poll_fds_add True fd K')) = sk_poll_fds K' @ (if 0 < fd then [fd] else []) \<and>
    sk_poll_fds_held (snd (net_socket_poll_fds_add True fd K')) = sk_poll_fds_held K'"
proof -
  from assms obtain fds n h where K': "K' = K\<lparr>sk_poll_fds := fds, sk_poll_fds_capacity := n, sk_poll_fds_held := h\<rparr>"
    by (auto simp: same_table_def)
  show ?thesis unfolding K' by (cases K) (simp add: net_socket_poll_fds_add_def same_table_def)
qed

lemma socket_get_poll:
  assumes "sockets_wf K" "same_table K K'" "i < length (socket_addresses K)"
  shows "socket_get i K' = Inr (Some (socket_addresses K ! i), K')" "socket_at K' (socket_addresses K ! i) =
    Inr (socket_of K (socket_addresses K ! i))"
proof -
  from assms(2) obtain fds n h where K': "K' = K\<lparr>sk_poll_fds := fds, sk_poll_fds_capacity := n, sk_poll_fds_held := h\<rparr>"
    by (auto simp: same_table_def)
  show "socket_at K' (socket_addresses K ! i) = Inr (socket_of K (socket_addresses K ! i))"
    using sockets_wf_at [OF assms(1), of "socket_addresses K ! i"] assms(3) unfolding K' by (simp add: socket_at_def)
  let ?K = "K\<lparr>sk_poll_fds := fds, sk_poll_fds_capacity := n, sk_poll_fds_held := False\<rparr>"
  have ad: "socket_addresses ?K = socket_addresses K" by (simp add: socket_addresses_def)
  have "sockets_wf ?K" using assms(1) unfolding sockets_wf_def ad by (simp add: socket_of_def)
  from socket_get_ok [OF this, of i] show "socket_get i K' = Inr (Some (socket_addresses K ! i), K')"
    using assms(3) unfolding K' ad
    by (cases K) (auto simp: socket_get_def sockets_lock_def sockets_unlock_def result_simps)
qed

lemma add_socket_fds_ok:
  assumes "sockets_wf K" "same_table K K'" "i + n = length (socket_addresses K)"
  shows "\<exists>K''. add_socket_fds mem_ok i n K' = Inr K'' \<and> same_table K K'' \<and> sk_poll_fds_held K'' = sk_poll_fds_held K' \<and>
    sk_poll_fds K'' = sk_poll_fds K' @ filter (\<lambda>fd. 0 < fd) (map (\<lambda>a. so_fd (socket_of K a)) (drop i (socket_addresses K)))"
  using assms(2,3)
proof (induction n arbitrary: i K')
  case (Suc n)
  then have i: "i < length (socket_addresses K)" by simp
  let ?s = "socket_of K (socket_addresses K ! i)"
  let ?K = "if so_fd ?s > 0 then snd (net_socket_poll_fds_add True (so_fd ?s) K') else K'"
  have d: "drop i (socket_addresses K) = socket_addresses K ! i # drop (Suc i) (socket_addresses K)"
    using i by (simp add: Cons_nth_drop_Suc)
  from poll_fds_add_ok [OF Suc.prems(1), of "so_fd ?s"] Suc.prems(1) have
    K: "same_table K ?K" "sk_poll_fds_held ?K = sk_poll_fds_held K'"
      "sk_poll_fds ?K = sk_poll_fds K' @ (if 0 < so_fd ?s then [so_fd ?s] else [])" by auto
  from Suc.IH [OF K(1), of "Suc i"] Suc.prems(2) K(2,3) show ?case
    unfolding d by (simp add: socket_get_poll [OF assms(1) Suc.prems(1) i] split del: if_split) auto
qed simp

lemma set_fds_ok:
  assumes "sockets_wf K"
  shows "\<exists>K'. net_socket_set_fds mem_ok K = Inr K' \<and> same_table K K' \<and> \<not> sk_poll_fds_held K' \<and>
    sk_poll_fds K' = filter (\<lambda>fd. 0 < fd) (fst (sk_shutdown_fd K) # map (\<lambda>a. so_fd (socket_of K a)) (socket_addresses K))"
proof -
  have held: "\<not> sk_poll_fds_held K" using assms by (simp add: sockets_wf_def)
  let ?K1 = "K\<lparr>sk_poll_fds_held := True, sk_poll_fds := []\<rparr>"
  let ?K2 = "snd (net_socket_poll_fds_add True (fst (sk_shutdown_fd K)) ?K1)"
  have "?K1 = K\<lparr>sk_poll_fds := [], sk_poll_fds_capacity := sk_poll_fds_capacity K, sk_poll_fds_held := True\<rparr>" by simp
  then have "same_table K ?K1" unfolding same_table_def by blast
  from poll_fds_add_ok [OF this, of "fst (sk_shutdown_fd K)"] have
    K2: "same_table K ?K2" "sk_poll_fds_held ?K2" "sk_poll_fds ?K2 = (if 0 < fst (sk_shutdown_fd K) then [fst (sk_shutdown_fd K)] else [])"
    by simp_all
  from add_socket_fds_ok [OF assms K2(1), of 0 "length (socket_addresses K)"] K2(2,3) obtain K3 where
    K3: "add_socket_fds mem_ok 0 (length (socket_addresses K)) ?K2 = Inr K3" "same_table K K3" "sk_poll_fds_held K3"
      "sk_poll_fds K3 = filter (\<lambda>fd. 0 < fd) (fst (sk_shutdown_fd K) # map (\<lambda>a. so_fd (socket_of K a)) (socket_addresses K))" by auto
  have "same_table K (K3\<lparr>sk_poll_fds_held := False\<rparr>)" using K3(2) by (cases K) (auto simp: same_table_def)
  with K3 held show ?thesis
    by (simp add: net_socket_set_fds_def sockets_count [OF assms] net_socket_poll_fds_lock_def net_socket_poll_fds_unlock_def Let_def)
qed

lemma socket_destroy_ok:
  assumes "socket_ok s" "\<not> so_held s"
  shows "net_socket_destroy (Some (Some s)) = Inr (Some (so_fd s), Some None)"
proof -
  from assms(1) obtain st where st: "so_state s = Some st" "parser_wf st"
    by (auto simp: socket_ok_def midi_ready_def)
  then have wf: "ring_wf (ms_ring st)" "dbuffer_wf (ms_hold st)" "\<not> ms_held st" by (simp_all add: parser_wf_def)
  from wf(1) obtain r where r: "ms_ring st = Some r" "\<not> rb_held r" by (cases "ms_ring st") auto
  then have "ring_buffer_destroy (ms_ring st) = Inr None" by simp
  moreover have "\<exists>x. (case ms_hold st of None \<Rightarrow> Inr None | Some b \<Rightarrow> dbuffer_destroy (Some (Some b))) = Inr x"
    using wf(2) by (cases "ms_hold st") (auto simp: dbuffer_destroy_def dbuffer_reset_def)
  ultimately have "midi_state_destroy (Some (Some st)) = Inr (Some None)"
    using r wf(3) by (auto simp: midi_state_destroy_def midi_state_lock_def midi_state_unlock_def)
  with st(1) assms(2) show ?thesis by (simp add: net_socket_destroy_def net_socket_lock_def net_socket_unlock_def)
qed

lemma destroy_sockets_ok:
  assumes t: "table_ok t" "table_list t = as" and d: "distinct as"
    and "sk_sockets K = Some t" "\<forall>a\<in>set (drop i as). \<exists>s. sk_store K a = Some s \<and> socket_ok s \<and> \<not> so_held s"
    and "i + n = length as"
  shows "destroy_sockets i n K =
    Inr (map (\<lambda>a. so_fd (socket_of K a)) (drop i as), K\<lparr>sk_store := (\<lambda>a. if a \<in> set (drop i as) then None else sk_store K a)\<rparr>)"
  using assms(4-6)
proof (induction n arbitrary: i K)
  case (Suc n)
  then have i: "i < length as" by simp
  let ?a = "as ! i"
  let ?K = "K\<lparr>sk_store := (sk_store K)(?a := None)\<rparr>"
  have dr: "drop i as = ?a # drop (Suc i) as" using i by (simp add: Cons_nth_drop_Suc)
  have new: "?a \<notin> set (drop (Suc i) as)" using d i by (metis distinct.simps(2) distinct_drop dr)
  from Suc.prems(2) dr obtain s where s: "sk_store K ?a = Some s" "socket_ok s" "\<not> so_held s" by auto
  have "\<forall>a\<in>set (drop (Suc i) as). \<exists>s. sk_store ?K a = Some s \<and> socket_ok s \<and> \<not> so_held s"
    using Suc.prems(2) new unfolding dr by auto
  from Suc.IH [OF _ this] Suc.prems(1,3) have IH: "destroy_sockets (Suc i) n ?K =
    Inr (map (\<lambda>a. so_fd (socket_of ?K a)) (drop (Suc i) as), ?K\<lparr>sk_store := (\<lambda>a. if a \<in> set (drop (Suc i) as) then None else sk_store ?K a)\<rparr>)"
    by simp
  have fds: "map (\<lambda>a. so_fd (socket_of ?K a)) (drop (Suc i) as) = map (\<lambda>a. so_fd (socket_of K a)) (drop (Suc i) as)"
    using new by (auto simp: socket_of_def)
  have st: "(\<lambda>a. if a \<in> set (drop (Suc i) as) then None else sk_store ?K a) =
      (\<lambda>a. if a \<in> set (drop i as) then None else sk_store K a)"
    unfolding dr by auto
  have get: "data_table_item_get (sk_sockets K) i = Inr (Some ?a)"
    using table_slot [OF t(1), of i] i t(2) by (simp add: Suc.prems(1))
  have one: "so_fd (socket_of K ?a) = so_fd s" using s(1) by (simp add: socket_of_def)
  have "destroy_sockets i (Suc n) K = Inr (so_fd s # map (\<lambda>a. so_fd (socket_of K a)) (drop (Suc i) as),
      K\<lparr>sk_store := (\<lambda>a. if a \<in> set (drop i as) then None else sk_store K a)\<rparr>)"
    using get s(1) socket_destroy_ok [OF s(2,3)] IH fds st by (simp add: socket_at_def)
  then show ?case unfolding dr by (simp add: one)
qed simp

text \<open>The poll waits for the shutdown pipe and for every socket, in the order of the table, and
  setting it up changes nothing else. At the end every socket is closed once, after the file for
  inbound MIDI, and no socket is left.\<close>
theorem net_socket_poll_and_close:
  assumes "sockets_wf K" "distinct (socket_addresses K)" "0 < fst (sk_shutdown_fd K)" "\<forall>a\<in>set (socket_addresses K). 0 < so_fd (socket_of K a)"
    and "\<forall>s. A s"
  shows "\<exists>K' K''. net_socket_set_fds A K = Inr K' \<and>
    sk_poll_fds K' = fst (sk_shutdown_fd K) # map (\<lambda>a. so_fd (socket_of K a)) (socket_addresses K) \<and>
    (\<exists>n. K' = K\<lparr>sk_poll_fds := sk_poll_fds K', sk_poll_fds_capacity := n\<rparr>) \<and>
    net_socket_teardown K' = Inr ((if 0 \<le> sk_inbound_midi_fd K then [sk_inbound_midi_fd K] else []) @
      map (\<lambda>a. so_fd (socket_of K a)) (socket_addresses K), K'') \<and>
    sk_store K'' = Map.empty \<and> sk_sockets K'' = None"
proof -
  let ?as = "socket_addresses K"
  from set_fds_ok [OF assms(1)] obtain K' where
    K': "net_socket_set_fds mem_ok K = Inr K'" "same_table K K'" "\<not> sk_poll_fds_held K'"
      "sk_poll_fds K' = filter (\<lambda>fd. 0 < fd) (fst (sk_shutdown_fd K) # map (\<lambda>a. so_fd (socket_of K a)) ?as)" by blast
  have fds: "sk_poll_fds K' = fst (sk_shutdown_fd K) # map (\<lambda>a. so_fd (socket_of K a)) ?as"
    unfolding K'(4) using assms(3,4) by (intro filter_True) auto
  from K'(2) obtain fs n h where eq: "K' = K\<lparr>sk_poll_fds := fs, sk_poll_fds_capacity := n, sk_poll_fds_held := h\<rparr>"
    by (auto simp: same_table_def)
  have "\<not> sk_poll_fds_held K" using assms(1) by (simp add: sockets_wf_def)
  then have same: "K' = K\<lparr>sk_poll_fds := sk_poll_fds K', sk_poll_fds_capacity := n\<rparr>" using eq K'(3) by (cases K) simp
  from assms(1) obtain t where t: "sk_sockets K = Some t" "table_wf t" by (auto simp: sockets_wf_def)
  let ?t = "t\<lparr>dt_held := True\<rparr>"
  have ok: "table_ok ?t" "table_list ?t = ?as"
    using t table_locked_ok [of t True] by (simp_all add: table_wf_def socket_addresses_def)
  have count: "dt_count t = length ?as" using t(2) by (simp add: socket_addresses_def t(1) length_table_list table_wf_def)
  let ?K = "K'\<lparr>sk_sockets := Some ?t\<rparr>"
  have st: "sk_store ?K = sk_store K" "socket_of ?K = socket_of K" unfolding eq by (simp_all add: socket_of_def fun_eq_iff)
  have "\<forall>a\<in>set (drop 0 ?as). \<exists>s. sk_store ?K a = Some s \<and> socket_ok s \<and> \<not> so_held s"
    unfolding st(1) using assms(1) domD [of _ "sk_store K"] by (fastforce simp: sockets_wf_def socket_of_def)
  from destroy_sockets_ok [OF ok assms(2) _ this, of "length ?as"] have
    ds: "destroy_sockets 0 (dt_count t) ?K = Inr (map (\<lambda>a. so_fd (socket_of K a)) ?as,
      ?K\<lparr>sk_store := (\<lambda>a. if a \<in> set ?as then None else sk_store K a)\<rparr>)"
    unfolding st count by simp
  have none: "(\<lambda>a. if a \<in> set ?as then None else sk_store K a) = Map.empty"
  proof
    show "(if a \<in> set ?as then None else sk_store K a) = None" for a
      using assms(1) domIff [of a "sk_store K"] by (simp add: sockets_wf_def)
  qed
  have lock: "sockets_lock K' = Inr ?K" using t unfolding eq
    by (simp add: sockets_lock_def data_table_lock_def table_wf_def)
  have "\<exists>K''. net_socket_teardown K' = Inr ((if 0 \<le> sk_inbound_midi_fd K then [sk_inbound_midi_fd K] else []) @
      map (\<lambda>a. so_fd (socket_of K a)) ?as, K'') \<and> sk_store K'' = Map.empty \<and> sk_sockets K'' = None"
    using ds [unfolded none] lock t(1) unfolding net_socket_teardown_def
    by (simp add: eq sockets_unlock_def data_table_unlock_def)
  with K'(1) fds same show ?thesis unfolding alloc_all [OF assms(5)] by blast
qed

theorem net_socket_poll_and_close_witness:
  "\<exists>K K' K''. net_socket_set_fds mem_ok K = Inr K' \<and> sk_poll_fds K' = [10, 4, 5, 6] \<and>
    net_socket_teardown K' = Inr ((if 0 \<le> sk_inbound_midi_fd K then [sk_inbound_midi_fd K] else []) @ [4, 5, 6], K'') \<and> sk_store K'' = Map.empty"
proof -
  have "en_resolve env_listen (c_string (string_bytes ''::'')) 5004 = Some (AF_INET, replicate 16 1)"
    by (simp add: env_listen_def env_example_def AF_INET_def)
  from init_listening [OF env_listen_ok(1), unfolded env_listen_ok(2), OF config_example_values this,
      of kernel_example 4 5 6 sockets_start "\<lambda>_. 7"] obtain K where
    K: "listening env_listen [4, 5, 6] K" "sk_shutdown_fd K = (10, 11)"
    by (auto simp: kernel_example_def sockets_start_def)
  let ?e = "en_address env_listen"
  have ad: "socket_addresses K = [?e, ?e + 1, ?e + 2]" and wf: "sockets_wf K"
    using K(1) by (simp_all add: listening_def numeral_3_eq_3)
  have "so_fd (socket_of K (?e + i)) = [4, 5, 6] ! i" if "i < 3" for i
    using K(1) that by (simp add: listening_def fresh_socket_def)
  from this [of 0] this [of 1] this [of 2] have fds: "map (\<lambda>a. so_fd (socket_of K a)) (socket_addresses K) = [4, 5, 6]"
    by (simp add: ad)
  then have pos: "\<forall>a\<in>set (socket_addresses K). 0 < so_fd (socket_of K a)" by (auto simp: ad)
  from net_socket_poll_and_close [OF wf _ _ pos, of mem_ok] obtain K' K'' where "net_socket_set_fds mem_ok K = Inr K'"
    "sk_poll_fds K' = [10, 4, 5, 6]" "sk_store K'' = Map.empty"
    "net_socket_teardown K' = Inr ((if 0 \<le> sk_inbound_midi_fd K then [sk_inbound_midi_fd K] else []) @ [4, 5, 6], K'')"
    unfolding fds K(2) by (auto simp: ad)
  then show ?thesis by blast
qed

end
