(* ===== verification/Socket_Read.thy ===== *)
theory Socket_Read
  imports Net_Socket
begin

text \<open>
  What reading a datagram does (\<^verbatim>\<open>net_socket_read\<close> of \<^verbatim>\<open>net_socket.c\<close>, defined in \<open>Net_Socket\<close>): requests
  and MIDI on the local socket, session commands and RTP packets from the peers.
\<close>

unbundle bit_operations_syntax

section \<open>Commands for the queue\<close>

definition held_by :: "sender_store \<Rightarrow> nat \<Rightarrow> nat \<Rightarrow> midi_sender_context option \<Rightarrow> bool" where
  "held_by S a n d \<longleftrightarrow> live S a n \<and> (\<exists>c. S a = Some c \<and> dx_data c = d)"

lemma acquire_held:
  assumes "held_by S a n d" "Suc n < 2 ^ 32"
  shows "\<exists>S'. data_context_acquire (Some a) S = Inr S' \<and> held_by S' a (Suc n) d \<and> (\<forall>b. b \<noteq> a \<longrightarrow> S' b = S b)"
proof -
  from assms(1) obtain c where c: "S a = Some c" "\<not> dx_held c" "unat (dx_reference c) = n" "dx_data c = d"
    by (auto simp: held_by_def live_def)
  have "unat (dx_reference c + 1) = Suc n"
    using unat_plus_one_less [of "dx_reference c" "Suc n"] c(3) assms(2) by simp
  with c show ?thesis
    by (simp add: data_context_acquire_def data_context_lock_def data_context_unlock_def context_at_def held_by_def live_def)
qed

lemma release_held:
  assumes "held_by S a (Suc n) d"
  shows "\<exists>S' p. data_context_release (Some a) S = Inr (p, S') \<and> (\<forall>b. b \<noteq> a \<longrightarrow> S' b = S b) \<and>
    (if n = 0 then S' a = None else held_by S' a n d)"
proof -
  from assms obtain c where c: "S a = Some c" "\<not> dx_held c" "unat (dx_reference c) = Suc n" "dx_data c = d"
    by (auto simp: held_by_def live_def)
  then have "dx_reference c \<noteq> 0" by auto
  with c(3) have r: "unat (dx_reference c - 1) = n" by (simp add: unat_minus_one)
  then have "dx_reference c - 1 = 0 \<longleftrightarrow> n = 0" by (metis unat_eq_zero)
  with c r show ?thesis
    by (auto simp: data_context_release_def data_context_destroy_def data_context_lock_def data_context_unlock_def
        context_at_def held_by_def live_def Let_def)
qed

lemma queue_commands_ok:
  assumes "held_by S a n d" "n + length cs < 2 ^ 32"
  shows "\<exists>S'. queue_commands (Some a) cs S = Inr (map (\<lambda>c. Queued c (Some a)) cs, S') \<and> held_by S' a (n + length cs) d \<and>
    (\<forall>b. b \<noteq> a \<longrightarrow> S' b = S b)"
  using assms
proof (induction cs arbitrary: S n)
  case (Cons c cs)
  from acquire_held [OF Cons.prems(1)] Cons.prems(2) obtain S1 where
    S1: "data_context_acquire (Some a) S = Inr S1" "held_by S1 a (Suc n) d" "\<forall>b. b \<noteq> a \<longrightarrow> S1 b = S b" by auto
  from Cons.prems(2) have "Suc n + length cs < 2 ^ 32" by simp
  from Cons.IH [OF S1(2) this] obtain S2 where
    "queue_commands (Some a) cs S1 = Inr (map (\<lambda>c. Queued c (Some a)) cs, S2)" "held_by S2 a (Suc n + length cs) d"
    "\<forall>b. b \<noteq> a \<longrightarrow> S2 b = S1 b" by (elim exE conjE)
  with S1(1,3) show ?case by simp
qed simp

lemma parse_flush_length: "length (fst (parse_flush mode p)) \<le> 1"
  by (simp add: parse_flush_def)

lemma midi_parse_length: "length (fst (midi_parse mode bs p)) \<le> length bs"
proof (induction bs arbitrary: p)
  case (Cons b bs)
  have "length (fst (parse_byte mode b p)) \<le> 1"
    using parse_flush_length by (simp add: parse_byte_def Let_def)
  with Cons.IH [of "snd (parse_byte mode b p)"] show ?case by (simp add: split_beta Let_def)
qed simp

definition queued :: "nat \<Rightarrow> midi_command list \<Rightarrow> socket_effect list" where
  "queued a cs = map (\<lambda>c. Queued c (Some a)) cs"

text \<open>Each command holds a reference to the new context; without any the context is gone again.\<close>

definition contexts_after :: "nat \<Rightarrow> midi_sender_context \<Rightarrow> nat \<Rightarrow> sender_store \<Rightarrow> sender_store \<Rightarrow> bool" where
  "contexts_after a d n S S' \<longleftrightarrow> (\<forall>b. b \<noteq> a \<longrightarrow> S' b = S b) \<and> (if n = 0 then S' a = None else held_by S' a n (Some d))"

lemma send_commands_ok:
  fixes st :: midi_state and z :: bool and mode :: midi_parse_mode
  assumes st: "parser_wf st" and len: "length (unread st) < 2 ^ 32 - 1"
  defines "cs \<equiv> fst (midi_parse mode (unread st) (parser_of z st))"
  shows "\<exists>st' S' z'. send_commands M mem_ok d mode z (Some st) S = Inr (queued (mc_context M) cs, Some st', S') \<and>
    midi_ready (ring_capacity (ms_ring st)) st' \<and>
    parser_of z' st' = parse_end mode (snd (midi_parse mode (unread st) (parser_of z st))) \<and>
    contexts_after (mc_context M) d (length cs) S S'"
proof -
  let ?a = "mc_context M"
  let ?S = "S(?a \<mapsto> \<lparr>dx_data = Some d, dx_reference = 0, dx_held = False, dx_destroy_func = True\<rparr>)"
  have "held_by ?S ?a 0 (Some d)" by (simp add: held_by_def live_def)
  from acquire_held [OF this] obtain S1 where
    S1: "data_context_acquire (Some ?a) ?S = Inr S1" "held_by S1 ?a 1 (Some d)" "\<forall>b. b \<noteq> ?a \<longrightarrow> S1 b = S b" by auto
  from midi_state_send_refines [OF st, of mem_ok mode z] obtain st' z' where
    st': "midi_state_send mem_ok (Some st) mode z = Inr (cs, Some st')" "parser_wf st'" "ring_contents (ms_ring st') = []"
      "ring_capacity (ms_ring st') = ring_capacity (ms_ring st)"
      "parser_of z' st' = parse_end mode (snd (midi_parse mode (unread st) (parser_of z st)))"
    unfolding cs_def unread_def by auto
  have "1 + length cs < 2 ^ 32"
    using midi_parse_length [of mode "unread st" "parser_of z st"] len by (simp add: cs_def)
  from queue_commands_ok [OF S1(2) this] obtain S2 where
    S2: "queue_commands (Some ?a) cs S1 = Inr (queued ?a cs, S2)" "held_by S2 ?a (Suc (length cs)) (Some d)"
      "\<forall>b. b \<noteq> ?a \<longrightarrow> S2 b = S1 b" by (auto simp: queued_def)
  from release_held [OF S2(2)] obtain S3 p where
    S3: "data_context_release (Some ?a) S2 = Inr (p, S3)" "\<forall>b. b \<noteq> ?a \<longrightarrow> S3 b = S2 b"
      "if length cs = 0 then S3 ?a = None else held_by S3 ?a (length cs) (Some d)" by blast
  have "send_commands M mem_ok d mode z (Some st) S = Inr (queued ?a cs, Some st', S3)"
    using S1(1) st'(1) S2(1) S3(1) by (simp add: send_commands_def data_context_create_def context_at_def)
  moreover have "contexts_after ?a d (length cs) S S3" using S1(3) S2(3) S3(2,3) by (simp add: contexts_after_def)
  ultimately show ?thesis using st' by (auto simp: midi_ready_def)
qed

section \<open>One read\<close>

lemma net_socket_read_unroll:
  assumes K: "sockets_wf (wd_sockets W)" and xs: "rc_bytes rc \<noteq> []" "length (rc_bytes rc) \<le> NET_APPLEMIDI_UDPSIZE"
    and at: "List.find (\<lambda>a. so_fd (socket_of (wd_sockets W) a) = fd) (socket_addresses (wd_sockets W)) = Some a"
  shows "\<exists>s st n. net_socket_read M E fd (Some rc) W =
      bindr (read_dispatch M E rc (fd = fd_at (wd_sockets W) 0 \<or> fd = fd_at (wd_sockets W) 1) (fd = fd_at (wd_sockets W) 2)
               (so_device_hash s) (Some st) (socket_set a s W)) (\<lambda>(ret, es, st, W).
      Inr (ret, es, socket_set a (s\<lparr>so_state := st, so_held := False\<rparr>) W)) \<and>
    so_fd s = fd \<and> a \<in> set (socket_addresses (wd_sockets W)) \<and> so_device_hash s = so_device_hash (socket_of (wd_sockets W) a) \<and>
    parser_wf st \<and> unread st = rc_bytes rc \<and> ring_capacity (ms_ring st) = n \<and> NET_APPLEMIDI_UDPSIZE \<le> n \<and>
    (\<exists>st0. so_state (socket_of (wd_sockets W) a) = Some st0 \<and> midi_ready n st0 \<and> (\<forall>z. parser_of z st = parser_of z st0)) \<and>
    (\<forall>st'. midi_ready n st' \<longrightarrow> socket_ok (s\<lparr>so_state := Some st', so_held := False\<rparr>))"
proof -
  let ?K = "wd_sockets W" and ?xs = "rc_bytes rc"
  from at have a: "a \<in> set (socket_addresses ?K)" "so_fd (socket_of ?K a) = fd" by (auto simp: find_Some_iff)
  let ?s0 = "socket_of ?K a"
  from K a(1) have ok: "socket_ok ?s0" "\<not> so_held ?s0" by (simp_all add: sockets_wf_def)
  then obtain m st0 n where s0: "so_packet ?s0 = Some m" "length m = so_packet_size ?s0 + 1" "NET_APPLEMIDI_UDPSIZE \<le> so_packet_size ?s0"
    "so_state ?s0 = Some st0" "NET_APPLEMIDI_UDPSIZE \<le> n" "midi_ready n st0" by (auto simp: socket_ok_def)
  let ?m = "?xs @ replicate (so_packet_size ?s0 + 1 - length ?xs) 0"
  have len: "length ?m = so_packet_size ?s0 + 1" "length ?xs \<le> length ?m" using xs(2) s0(3) by simp_all
  have room: "length (unread st0) + length ?xs \<le> ring_capacity (ms_ring st0)"
    using s0(5,6) xs(2) by (simp add: ready_unread)
  have "parser_wf st0" "0 < length ?xs" using s0(6) xs(1) by (simp_all add: ready_unread)
  from midi_state_write_prefix [OF this len(2) room] s0(6) obtain st where
    st: "midi_state_write (Some st0) (Some ?m) (length ?xs) = Inr (1, Some st)" "parser_wf st" "unread st = ?xs"
      "ring_capacity (ms_ring st) = n" "\<forall>z. parser_of z st = parser_of z st0" by (auto simp: ready_unread)
  let ?new = "?s0\<lparr>so_held := True, so_packet := Some ?m, so_state := Some st\<rparr>"
  have w1: "mem_write m 0 (replicate (so_packet_size ?s0 + 1) 0) = Inr (replicate (so_packet_size ?s0 + 1) 0)"
    using s0(2) by simp
  have w2: "mem_write (replicate (so_packet_size ?s0 + 1) 0) 0 ?xs = Inr ?m"
    using len unfolding length_append length_replicate by (simp add: drop_replicate del: replicate_Suc replicate.simps)
  have tk: "take NET_APPLEMIDI_UDPSIZE ?xs = ?xs" using xs(2) by simp
  have lk: "net_socket_lock (Some ?s0) = Inr (Some (?s0\<lparr>so_held := True\<rparr>))" by (rule socket_lock_ok [OF ok(2)])
  have same: "W\<lparr>wd_sockets := wd_sockets W\<rparr> = W" by simp
  show ?thesis
    by (rule exI [of _ ?new], rule exI [of _ st], rule exI [of _ n])
      (use xs s0 st a ok len in \<open>simp_all add: net_socket_read_def net_socket_get_data_socket_def net_socket_get_control_socket_def
        net_socket_get_local_socket_def socket_fd_at_ok [OF K] find_by_fd_ok [OF K] at sockets_wf_at [OF K a(1)] lk w1 w2 tk
        net_socket_unlock_def socket_ok_def split_beta bindr_assoc Let_def del: replicate_Suc\<close>,
        auto simp: split_def)
qed

text \<open>What reading leaves: the sockets in order, with the parser of the socket at \<open>a\<close> changed.\<close>

definition read_done :: "nat \<Rightarrow> int \<Rightarrow> world \<Rightarrow> world \<Rightarrow> bool" where
  "read_done a shutdown W W' \<longleftrightarrow>
     sockets_wf (wd_sockets W') \<and> socket_addresses (wd_sockets W') = socket_addresses (wd_sockets W) \<and>
     (\<forall>b. so_fd (socket_of (wd_sockets W') b) = so_fd (socket_of (wd_sockets W) b)) \<and>
     (\<forall>b. b \<noteq> a \<longrightarrow> socket_of (wd_sockets W') b = socket_of (wd_sockets W) b) \<and> sk_shutdown (wd_sockets W') = shutdown"

lemma read_done_set:
  assumes "sockets_wf (wd_sockets W)" "a \<in> set (socket_addresses (wd_sockets W))" "socket_ok s" "\<not> so_held s"
    and "so_fd s = so_fd (socket_of (wd_sockets W) a)"
  shows "read_done a (sk_shutdown (wd_sockets W)) W (socket_set a s W)"
    "read_done a 1 W (socket_set a s (W\<lparr>wd_sockets := (wd_sockets W)\<lparr>sk_shutdown := 1\<rparr>\<rparr>))"
proof -
  show "read_done a (sk_shutdown (wd_sockets W)) W (socket_set a s W)"
    using socket_set_wf [OF assms(1-4)] assms(5) by (simp add: read_done_def) (simp add: socket_set_def)
  let ?W = "W\<lparr>wd_sockets := (wd_sockets W)\<lparr>sk_shutdown := 1\<rparr>\<rparr>"
  have same: "socket_addresses (wd_sockets ?W) = socket_addresses (wd_sockets W)" "socket_of (wd_sockets ?W) = socket_of (wd_sockets W)"
    by (simp_all add: socket_addresses_def socket_of_def fun_eq_iff)
  then have "sockets_wf (wd_sockets ?W)" using assms(1) by (simp add: sockets_wf_def)
  from socket_set_wf [OF this, of a s] assms(2-5) same show "read_done a 1 W (socket_set a s ?W)"
    by (simp add: read_done_def) (simp add: socket_set_def)
qed

text \<open>The requests of the local socket.\<close>

lemma shutdown_lock_ok: "\<not> sk_shutdown_held K \<Longrightarrow> net_socket_set_shutdown_lock i K = Inr (K\<lparr>sk_shutdown := i\<rparr>)"
  by (cases K) (simp add: net_socket_set_shutdown_lock_def)

lemma words_4: "length (text_bytes ''STAT'') = 4" "length (text_bytes ''QUIT'') = 4" "length (text_bytes ''LIST'') = 4"
  "text_bytes ''STAT'' \<noteq> text_bytes ''QUIT''" "text_bytes ''STAT'' \<noteq> text_bytes ''LIST''" "text_bytes ''QUIT'' \<noteq> text_bytes ''LIST''"
  by (simp_all add: text_bytes_def)

definition local_read ::
    "machine \<Rightarrow> world \<Rightarrow> bytes \<Rightarrow> int \<Rightarrow> midi_state \<Rightarrow> socket_effect list \<Rightarrow> world \<Rightarrow> bool" where
  "local_read M W xs device_hash st es W' \<longleftrightarrow>
     (if xs = text_bytes ''STAT'' then es = [Reply (text_bytes ''OK'')] \<and> wd_contexts W' = wd_contexts W
      else if xs = text_bytes ''QUIT'' then es = [Reply (text_bytes ''QT''), Shutdown_signal] \<and> wd_contexts W' = wd_contexts W
      else if xs = text_bytes ''LIST'' then
        es = [Reply (list_text (mc_show_ptr M) (wd_net W))] \<and> wd_contexts W' = wd_contexts W
      else
        let cs = fst (midi_parse MIDI_PARSE_MODE_SIMPLE xs (parser_of False st)) in
        es = queued (mc_context M) cs \<and>
        contexts_after (mc_context M) \<lparr>sx_ssrc = 0, sx_alsa_card_hash = device_hash\<rparr> (length cs) (wd_contexts W) (wd_contexts W'))"

lemma read_dispatch_local:
  assumes st: "parser_wf st" "unread st = xs" "ring_capacity (ms_ring st) = n" "length xs \<le> NET_APPLEMIDI_UDPSIZE" "en_alloc E = mem_ok"
    and K: "\<not> sk_shutdown_held (wd_sockets W)"
    and list: "xs = text_bytes ''LIST'' \<longrightarrow> net_ctx_connections_to_string mem_ok (mc_stays M) (mc_junk M) (mc_show_ptr M) (wd_net W) =
        Inr (Some (list_text (mc_show_ptr M) (wd_net W) @ [0]), wd_net W) \<and> 0 \<notin> set (list_text (mc_show_ptr M) (wd_net W))"
    and whole: "take 4 xs \<in> {text_bytes ''STAT'', text_bytes ''QUIT'', text_bytes ''LIST''} \<longrightarrow> length xs = 4"
  shows "\<exists>es st' W'. read_dispatch M E rc False True device_hash (Some st) W = Inr (0, es, Some st', W') \<and> midi_ready n st' \<and>
    wd_net W' = wd_net W \<and> local_read M W xs device_hash st es W' \<and>
    wd_sockets W' = (if xs = text_bytes ''QUIT'' then (wd_sockets W)\<lparr>sk_shutdown := 1\<rparr> else wd_sockets W)"
proof -
  note req = is_request_ok [OF st(1)]
  from state_advance_ok [OF st(1), of 4] obtain st4 where
    st4: "midi_state_advance (Some st) 4 = Inr (Some st4)" "parser_wf st4" "unread st4 = drop 4 xs" "ring_capacity (ms_ring st4) = n"
    using st(2,3) by auto
  have take: "take 4 xs = text_bytes w \<longleftrightarrow> xs = text_bytes w" if "w \<in> {''STAT'', ''QUIT'', ''LIST''}" for w
  proof
    assume t: "take 4 xs = text_bytes w"
    with that have "take 4 xs \<in> {text_bytes ''STAT'', text_bytes ''QUIT'', text_bytes ''LIST''}" by fastforce
    with whole have "length xs = 4" by blast
    with t show "xs = text_bytes w" by simp
  next
    assume x: "xs = text_bytes w"
    with that words_4(1-3) have "length xs = 4" by fastforce
    with x show "take 4 xs = text_bytes w" by simp
  qed
  have ready: "midi_ready n st4" if "length xs = 4" using st4 that by (simp add: ready_unread)
  consider (stat) "xs = text_bytes ''STAT''" | (quit) "xs = text_bytes ''QUIT''" | (list) "xs = text_bytes ''LIST''"
    | (midi) "xs \<noteq> text_bytes ''STAT''" "xs \<noteq> text_bytes ''QUIT''" "xs \<noteq> text_bytes ''LIST''" by blast
  then show ?thesis
  proof cases
    case stat
    with st4(1) ready words_4 req [of "''STAT''"] st(2) show ?thesis
      by (intro exI [of _ "[Reply (text_bytes ''OK'')]"] exI [of _ st4] exI [of _ W]) (simp add: read_dispatch_def local_read_def)
  next
    case quit
    with st4(1) ready words_4 req [of "''STAT''"] req [of "''QUIT''"] st(2) show ?thesis
      by (intro exI [of _ "[Reply (text_bytes ''QT''), Shutdown_signal]"] exI [of _ st4]
          exI [of _ "W\<lparr>wd_sockets := (wd_sockets W)\<lparr>sk_shutdown := 1\<rparr>\<rparr>"])
        (simp add: read_dispatch_def local_read_def shutdown_lock_ok [OF K])
  next
    case list
    let ?out = "list_text (mc_show_ptr M) (wd_net W)"
    from assms(7) list have out: "net_ctx_connections_to_string mem_ok (mc_stays M) (mc_junk M) (mc_show_ptr M) (wd_net W) =
      Inr (Some (?out @ [0]), wd_net W)" "0 \<notin> set ?out" by blast+
    have "c_string (?out @ [0]) = ?out" by (rule c_string_append [OF out(2)])
    moreover have "0 \<in> set (?out @ [0])" by simp
    ultimately have len: "c_strlen (?out @ [0]) = Inr (length ?out)" by (metis c_strlen_ok)
    from list st4(1) ready words_4 req [of "''STAT''"] req [of "''QUIT''"] req [of "''LIST''"] st(2,5) out(1) len show ?thesis
      by (intro exI [of _ "[Reply ?out]"] exI [of _ st4] exI [of _ W]) (simp add: read_dispatch_def local_read_def)
  next
    case midi
    have "length (unread st) < 2 ^ 32 - 1" using st(2,4) by (simp add: NET_APPLEMIDI_UDPSIZE_def)
    from send_commands_ok [OF st(1) this, of M "\<lparr>sx_ssrc = 0, sx_alsa_card_hash = device_hash\<rparr>" MIDI_PARSE_MODE_SIMPLE False "wd_contexts W"]
    obtain st' S' where
      "send_commands M mem_ok \<lparr>sx_ssrc = 0, sx_alsa_card_hash = device_hash\<rparr> MIDI_PARSE_MODE_SIMPLE False (Some st) (wd_contexts W) =
        Inr (queued (mc_context M) (fst (midi_parse MIDI_PARSE_MODE_SIMPLE xs (parser_of False st))), Some st', S')"
      "midi_ready n st'" "contexts_after (mc_context M) \<lparr>sx_ssrc = 0, sx_alsa_card_hash = device_hash\<rparr>
        (length (fst (midi_parse MIDI_PARSE_MODE_SIMPLE xs (parser_of False st)))) (wd_contexts W) S'"
      unfolding st(2,3) by blast
    with midi take req [of "''STAT''"] req [of "''QUIT''"] req [of "''LIST''"] st(2,5) show ?thesis
      by (intro exI [of _ "queued (mc_context M) (fst (midi_parse MIDI_PARSE_MODE_SIMPLE xs (parser_of False st)))"] exI [of _ st']
          exI [of _ "W\<lparr>wd_contexts := S'\<rparr>"]) (simp add: read_dispatch_def local_read_def Let_def)
  qed
qed

lemma read_dispatch_list:
  assumes st: "parser_wf st" "unread st = text_bytes ''LIST''" "en_alloc E = mem_ok"
    and list: "net_ctx_connections_to_string mem_ok (mc_stays M) (mc_junk M) (mc_show_ptr M) (wd_net W) = Inl UseAfterFree"
  shows "read_dispatch M E rc False True device_hash (Some st) W = Inl UseAfterFree"
  using words_4 is_request_ok [OF st(1), of "''STAT''"] is_request_ok [OF st(1), of "''QUIT''"]
    is_request_ok [OF st(1), of "''LIST''"] assms(2-4)
  by (simp add: read_dispatch_def)

section \<open>RTP packets\<close>

lemma reply_ok: "response_ok r \<Longrightarrow> reply (Some r) = Inr [Reply (wire r)]"
  by (auto simp: response_ok_def reply_def wire_def)

text \<open>The MIDI command section of a packet.\<close>

definition rtp_section :: "bytes \<Rightarrow> midi_payload option" where
  "rtp_section xs = (case rp_payload (rtp_parse xs) of None \<Rightarrow> None | Some b \<Rightarrow> payload_parse b)"

lemma rtp_section_unpack:
  "midi_payload_unpack mem_ok junk None (rp_payload (rtp_parse xs)) (rp_payload_len (rtp_parse xs)) = Inr (rtp_section xs)"
proof (cases "length xs = 12")
  case False
  then have "rp_payload (rtp_parse xs) = Some (drop 12 xs)" "rp_payload_len (rtp_parse xs) = length (drop 12 xs)"
    by (simp_all add: rtp_parse_def Let_def)
  then show ?thesis using midi_payload_unpack_parse [of junk None "drop 12 xs"] by (simp add: rtp_section_def)
qed (simp add: rtp_parse_def Let_def midi_payload_unpack_def rtp_section_def)

lemma payload_take_buffer:
  assumes "payload_take b0 n bs = Some pl" "n < 2 ^ 16"
  shows "\<exists>h xs. pl = \<lparr>pl_header = Some h, pl_buffer = Some xs\<rparr> \<and> length xs = unat (ph_len h) \<and> length xs \<le> length bs"
proof -
  have "unat (of_nat n :: 16 word) = n" by (rule unat_of_nat_less) (use assms(2) in simp)
  with assms(1) show ?thesis by (auto simp: payload_take_def payload_of_def split: if_splits)
qed

lemma payload_parse_buffer:
  assumes "payload_parse b = Some pl"
  shows "\<exists>h xs. pl = \<lparr>pl_header = Some h, pl_buffer = Some xs\<rparr> \<and> length xs = unat (ph_len h) \<and> length xs < length b"
proof -
  from assms obtain b0 bs where b: "b = b0 # bs" by (cases b) auto
  have b0: "unat (b0 AND 0x0f) < 16" by (rule low4_less)
  have b1: "unat b1 < 256" for b1 :: byte using unsigned_less [of b1, where 'a = nat] by simp
  have "256 * unat (b0 AND 0x0f) + unat b1 < 2 ^ 16" for b1 :: byte using b0 b1 [of b1] by simp
  with assms b0 obtain n ys where "payload_take b0 n ys = Some pl" "n < 2 ^ 16" "length ys \<le> length bs"
    unfolding b by (auto split: if_splits list.splits)
  with payload_take_buffer [of b0 n ys pl] show ?thesis unfolding b by fastforce
qed

text \<open>The parser of a connection. Between two packets it is idle, with room for any packet.\<close>

definition peer_parser :: "net \<Rightarrow> nat \<Rightarrow> midi_state" where
  "peer_parser N a = the (nc_midi_state (context_of N a))"

lemma parser_empty_ready: "parser_empty (Some st) \<longleftrightarrow> (\<exists>m\<ge>NET_SOCKET_DEFAULT_RING_BUFFER. midi_ready m st)"
  by (auto simp: parser_empty_def midi_ready_def)

lemma peer_parser_ready:
  assumes "net_wf N" "a \<in> set (addresses N)"
  shows "\<exists>m. nc_midi_state (context_of N a) = Some (peer_parser N a) \<and> NET_SOCKET_DEFAULT_RING_BUFFER \<le> m \<and>
    midi_ready m (peer_parser N a)"
proof -
  from assms have "parser_empty (nc_midi_state (context_of N a))" by (simp add: net_wf_def ctx_wf_def)
  then show ?thesis by (auto simp: parser_empty_def midi_ready_def peer_parser_def)
qed

definition feedback_command :: "32 word \<Rightarrow> 16 word \<Rightarrow> net_applemidi_command" where
  "feedback_command ssrc seq =
     \<lparr>ac_signature = 0xffff, ac_command = NET_APPLEMIDI_CMD_FEEDBACK,
      ac_data = FeedbackData \<lparr>fb_ssrc = ssrc, fb_apple_seq = push_bit 16 (ucast seq)\<rparr>\<rparr>"

text \<open>What a packet with commands from a known peer does: its commands, what is done and what it leaves.\<close>

definition rtp_commands :: "bytes \<Rightarrow> midi_payload \<Rightarrow> midi_state \<Rightarrow> midi_command list" where
  "rtp_commands xs pl st =
     fst (midi_parse MIDI_PARSE_MODE_RTP (the (pl_buffer pl)) (parser_of (ph_Z (the (pl_header pl)) \<noteq> 0) st))"

definition rtp_parser_after :: "bytes \<Rightarrow> midi_payload \<Rightarrow> midi_state \<Rightarrow> parser" where
  "rtp_parser_after xs pl st = parse_end MIDI_PARSE_MODE_RTP
     (snd (midi_parse MIDI_PARSE_MODE_RTP (the (pl_buffer pl)) (parser_of (ph_Z (the (pl_header pl)) \<noteq> 0) st)))"

definition rtp_taken :: "machine \<Rightarrow> bytes \<Rightarrow> midi_payload \<Rightarrow> nat \<Rightarrow> net \<Rightarrow> sender_store \<Rightarrow>
    socket_effect list \<Rightarrow> net \<Rightarrow> sender_store \<Rightarrow> bool" where
  "rtp_taken M xs pl a N S es N' S' \<longleftrightarrow>
     (let ssrc = rh_ssrc (rp_header (rtp_parse xs)); cs = rtp_commands xs pl (peer_parser N a) in
      (\<exists>r. arrives r (feedback_command ssrc (rh_seq (rp_header (rtp_parse xs)))) \<and>
        es = Reply (wire r) # queued (mc_context M) cs) \<and>
      net_wf N' \<and> addresses N' = addresses N \<and>
      (\<exists>cst' z. context_of N' = (context_of N)(a := (context_of N a)\<lparr>nc_midi_state := Some cst'\<rparr>) \<and>
        parser_of z cst' = rtp_parser_after xs pl (peer_parser N a)) \<and>
      contexts_after (mc_context M) \<lparr>sx_ssrc = ssrc, sx_alsa_card_hash = 0\<rparr> (length cs) S S')"

lemma read_rtp_ok:
  assumes st: "parser_wf st" "unread st = xs" "ring_capacity (ms_ring st) = n" and xs: "12 \<le> length xs" "length xs \<le> NET_APPLEMIDI_UDPSIZE"
    and E: "en_alloc E = mem_ok" and N: "net_wf N"
  defines "h \<equiv> rp_header (rtp_parse xs)"
  shows "rh_v h \<noteq> RTP_VERSION \<or> peer N (rh_ssrc h) = None \<Longrightarrow>
      \<exists>st'. midi_ready n st' \<and> read_rtp M E (Some st) N S = Inr ([], Some st', N, S)"
    and "rh_v h = RTP_VERSION \<Longrightarrow> peer N (rh_ssrc h) = Some a \<Longrightarrow> rtp_section xs = None \<Longrightarrow>
      read_rtp M E (Some st) N S = Inl NullDeref"
    and "rh_v h = RTP_VERSION \<Longrightarrow> peer N (rh_ssrc h) = Some a \<Longrightarrow> rtp_section xs = Some pl \<Longrightarrow>
      \<exists>es st' N' S'. midi_ready n st' \<and> read_rtp M E (Some st) N S = Inr (es, Some st', N', S') \<and> rtp_taken M xs pl a N S es N' S'"
proof -
  have "unread st \<noteq> []" using xs st(2) by auto
  from state_drain_ok [OF st(1) this] st(2,3) obtain st1 where
    st1: "midi_state_drain mem_ok (Some st) = Inr (Some xs, length xs, Some st1)" "midi_ready n st1" by auto
  obtain q where q: "rtp_packet_create mem_ok = Some q" by (simp add: rtp_packet_create_def)
  have un: "rtp_packet_unpack mem_ok (Some xs) (length xs) (Some q) = Inr (Some (rtp_parse xs))"
    using rtp_packet_unpack_ok [of "length xs" xs q] xs(1) by simp
  note steps = st1(1) q un rtp_section_unpack find_by_ssrc_ok [OF N] E read_rtp_def Let_def h_def
  show "\<exists>st'. midi_ready n st' \<and> read_rtp M E (Some st) N S = Inr ([], Some st', N, S)"
    if "rh_v h \<noteq> RTP_VERSION \<or> peer N (rh_ssrc h) = None"
    using that st1(2) by (auto simp: steps)
  {
    assume v: "rh_v h = RTP_VERSION" and p: "peer N (rh_ssrc h) = Some a"
    then have a: "a \<in> set (addresses N)" using peer_Some by blast
    from net_wf_context [OF N a] have c: "ctx_at (nt_contexts N) a = Inr (context_of N a)" by (simp add: ctx_at_def)
    show "read_rtp M E (Some st) N S = Inl NullDeref" if "rtp_section xs = None"
      using that v p c by (simp add: steps)
    assume pl: "rtp_section xs = Some pl"
    let ?p = "peer_parser N a"
    from pl obtain hd ys where ys: "pl = \<lparr>pl_header = Some hd, pl_buffer = Some ys\<rparr>" "length ys = unat (ph_len hd)"
      "length ys < length xs"
      using payload_parse_buffer [of "drop 12 xs" pl] xs(1)
      by (auto simp: rtp_section_def rtp_parse_def Let_def split: if_splits)
    let ?z = "ph_Z hd \<noteq> 0"
    from peer_parser_ready [OF N a] obtain m where m: "NET_SOCKET_DEFAULT_RING_BUFFER \<le> m" "midi_ready m ?p"
      "nc_midi_state (context_of N a) = Some ?p" by blast
    then have cst: "parser_wf ?p" "unread ?p = []" "ring_capacity (ms_ring ?p) = m" by (simp_all add: ready_unread)
    have m': "NET_APPLEMIDI_UDPSIZE \<le> m" using m(1) by (simp add: NET_APPLEMIDI_UDPSIZE_def)
    have "\<exists>b st2. midi_state_write (Some ?p) (Some ys) (unat (ph_len hd)) = Inr (b, Some st2) \<and> parser_wf st2 \<and> unread st2 = ys \<and>
        ring_capacity (ms_ring st2) = m \<and> (\<forall>z. parser_of z st2 = parser_of z ?p)"
    proof (cases "ys = []")
      case True
      with ys(2) cst show ?thesis by (simp add: midi_state_write_def)
    next
      case False
      then have "0 < length ys" by simp
      from midi_state_write_prefix [OF cst(1) this, of ys] cst m' ys xs(2) show ?thesis by auto
    qed
    then obtain b st2 where st2: "midi_state_write (Some ?p) (Some ys) (unat (ph_len hd)) = Inr (b, Some st2)" "parser_wf st2"
      "unread st2 = ys" "ring_capacity (ms_ring st2) = m" "\<forall>z. parser_of z st2 = parser_of z ?p" by blast
    from feedback_create_ok [of "rh_ssrc h" "rh_seq h"] obtain r where
      r: "applemidi_feedback_create mem_ok (rh_ssrc h) (rh_seq h) = Inr (Some r)" "response_ok r"
        "arrives r (feedback_command (rh_ssrc h) (rh_seq h))"
      unfolding feedback_command_def by blast
    note rep = reply_ok [OF r(2)]
    have "length (unread st2) < 2 ^ 32 - 1" using st2(3) ys(3) xs(2) by (simp add: NET_APPLEMIDI_UDPSIZE_def)
    from send_commands_ok [OF st2(2) this, of M "\<lparr>sx_ssrc = rh_ssrc h, sx_alsa_card_hash = 0\<rparr>" MIDI_PARSE_MODE_RTP ?z S]
    obtain st3 S' z' where
      st3: "send_commands M mem_ok \<lparr>sx_ssrc = rh_ssrc h, sx_alsa_card_hash = 0\<rparr> MIDI_PARSE_MODE_RTP ?z (Some st2) S =
        Inr (queued (mc_context M) (rtp_commands xs pl ?p), Some st3, S')" "midi_ready m st3"
        "parser_of z' st3 = rtp_parser_after xs pl ?p"
        "contexts_after (mc_context M) \<lparr>sx_ssrc = rh_ssrc h, sx_alsa_card_hash = 0\<rparr> (length (rtp_commands xs pl ?p)) S S'"
      unfolding st2(3,4) using st2(5) ys(1) by (auto simp: rtp_commands_def rtp_parser_after_def)
    let ?c = "(context_of N a)\<lparr>nc_midi_state := Some st3\<rparr>"
    let ?N = "N\<lparr>nt_contexts := (nt_contexts N)(a \<mapsto> ?c)\<rparr>"
    have "ctx_wf (context_of N a)" using N a by (simp add: net_wf_def)
    then have "ctx_wf ?c" using st3(2) m(1) by (auto simp: ctx_wf_def parser_empty_ready simp del: NET_SOCKET_DEFAULT_RING_BUFFER_def)
    note up = context_update [OF N a this]
    have "read_rtp M E (Some st) N S = Inr (Reply (wire r) # queued (mc_context M) (rtp_commands xs pl ?p), Some st1, ?N, S')"
      using v p c pl ys(1) m(3) st2(1) r(1) rep st3(1) by (simp add: steps)
    moreover have "rtp_taken M xs pl a N S (Reply (wire r) # queued (mc_context M) (rtp_commands xs pl ?p)) ?N S'"
      unfolding rtp_taken_def Let_def using up r(3) st3(3,4) by (auto simp: h_def)
    ultimately show "\<exists>es st' N' S'. midi_ready n st' \<and> read_rtp M E (Some st) N S = Inr (es, Some st', N', S') \<and>
        rtp_taken M xs pl a N S es N' S'"
      using st1(2) by blast
  }
qed

section \<open>Session commands\<close>

lemma command_bytes_ne: "command_bytes c \<noteq> []"
proof -
  have "length (command_bytes c) \<noteq> 0" by (simp add: command_bytes_def)
  then show ?thesis by (metis list.size(3))
qed

lemma read_applemidi_ok:
  assumes st: "parser_wf st" "unread st = command_bytes c" "ring_capacity (ms_ring st) = n"
    and c: "data_fits (ac_command c) (ac_data c)" and E: "en_alloc E = mem_ok" "4 \<le> mc_ptr_size M"
  shows "\<exists>st'. midi_ready n st' \<and> read_applemidi M E rc (Some st) N =
    bindr (session_respond M E rc c N) (\<lambda>(response, es, N). bindr (reply response) (\<lambda>rs.
    Inr (NET_APPLEMIDI_DONE, map Peer es @ rs, Some st', N)))"
proof -
  have "unread st \<noteq> []" using st(2) command_bytes_ne by simp
  from state_drain_ok [OF st(1) this] st(2,3) obtain st1 where
    st1: "midi_state_drain mem_ok (Some st) = Inr (Some (command_bytes c), length (command_bytes c), Some st1)" "midi_ready n st1" by auto
  have "net_applemidi_unpack mem_ok (mc_ptr_size M) (mc_wild M) (Some (command_bytes c)) (length (command_bytes c)) =
      Inr (NET_APPLEMIDI_DONE, Some c)"
    using net_applemidi_unpack_bytes [OF c E(2), of "mc_wild M" "[]"] by simp
  moreover have "net_applemidi_cmd_destroy (Some c) = Inr (NET_APPLEMIDI_DONE, None)"
    using c by (cases "ac_data c") (auto simp: net_applemidi_cmd_destroy_def as_inv_def)
  ultimately show ?thesis using st1 E(1) by (auto simp: read_applemidi_def split_beta)
qed

lemma command_bytes_marked:
  assumes "ac_signature c = 0xffff"
  shows "\<exists>xs. command_bytes c = 0xff # 0xff # xs"
proof -
  have "be_bytes 2 (0xffff :: 16 word) = [0xff, 0xff]" by code_simp
  with assms show ?thesis by (simp add: command_bytes_def)
qed

text \<open>The result of a read of a session command from what its responder did.\<close>

lemma net_socket_read_session_ok:
  assumes K: "sockets_wf (wd_sockets W)" and rc: "rc_bytes rc = command_bytes c" "length (command_bytes c) \<le> NET_APPLEMIDI_UDPSIZE"
    and c: "data_fits (ac_command c) (ac_data c)" "ac_signature c = 0xffff" and E: "en_alloc E = mem_ok" "4 \<le> mc_ptr_size M"
    and at: "List.find (\<lambda>a. so_fd (socket_of (wd_sockets W) a) = fd) (socket_addresses (wd_sockets W)) = Some a"
    and peer_fd: "fd = fd_at (wd_sockets W) 0 \<or> fd = fd_at (wd_sockets W) 1"
  shows "\<exists>W'. read_done a (sk_shutdown (wd_sockets W)) W W' \<and> wd_contexts W' = wd_contexts W \<and>
    net_socket_read M E fd (Some rc) W =
      bindr (session_respond M E rc c (wd_net W)) (\<lambda>(response, es, N). bindr (reply response) (\<lambda>rs.
      Inr (NET_APPLEMIDI_DONE, map Peer es @ rs, W'\<lparr>wd_net := N\<rparr>)))"
proof -
  have ne: "rc_bytes rc \<noteq> []" "length (rc_bytes rc) \<le> NET_APPLEMIDI_UDPSIZE" using rc command_bytes_ne by simp_all
  from net_socket_read_unroll [OF K ne at, of M E] obtain s st n where
    r: "net_socket_read M E fd (Some rc) W =
      bindr (read_dispatch M E rc (fd = fd_at (wd_sockets W) 0 \<or> fd = fd_at (wd_sockets W) 1) (fd = fd_at (wd_sockets W) 2)
               (so_device_hash s) (Some st) (socket_set a s W)) (\<lambda>(ret, es, st, W).
      Inr (ret, es, socket_set a (s\<lparr>so_state := st, so_held := False\<rparr>) W))"
    and s: "so_fd s = fd" "a \<in> set (socket_addresses (wd_sockets W))" "parser_wf st" "unread st = rc_bytes rc"
      "ring_capacity (ms_ring st) = n" "\<forall>st'. midi_ready n st' \<longrightarrow> socket_ok (s\<lparr>so_state := Some st', so_held := False\<rparr>)" by blast
  from command_bytes_marked [OF c(2)] obtain ys where "command_bytes c = 0xff # 0xff # ys" by blast
  then have cmd: "is_command (Some st) = Inr (True, Some st)" using is_command_ok [OF s(3)] s(4) rc(1) by simp
  from read_applemidi_ok [OF s(3) _ s(5) c(1) E, of rc "wd_net W"] s(4) rc(1) obtain st' where
    st': "midi_ready n st'" "read_applemidi M E rc (Some st) (wd_net W) =
      bindr (session_respond M E rc c (wd_net W)) (\<lambda>(response, es, N). bindr (reply response) (\<lambda>rs.
      Inr (NET_APPLEMIDI_DONE, map Peer es @ rs, Some st', N)))" by auto
  let ?s = "s\<lparr>so_state := Some st', so_held := False\<rparr>"
  let ?W = "socket_set a ?s W"
  have fd: "so_fd (socket_of (wd_sockets W) a) = fd" using at by (auto simp: find_Some_iff)
  from s(6) st'(1) have ok: "socket_ok ?s" by blast
  have "read_done a (sk_shutdown (wd_sockets W)) W ?W"
    by (rule read_done_set(1) [OF K s(2) ok]) (simp_all add: s(1) fd)
  moreover have "socket_set a ?s (socket_set a s W\<lparr>wd_net := N\<rparr>) = ?W\<lparr>wd_net := N\<rparr>" for N
    by (simp add: socket_set_def)
  ultimately show ?thesis
    using peer_fd cmd st'(2) unfolding r
    by (intro exI [of _ ?W]) (simp add: read_dispatch_def split_beta bindr_assoc, simp add: split_def)
qed

section \<open>Properties\<close>

text \<open>A datagram arrives at the socket at \<open>a\<close>, whose descriptor is at an index of the table that no
  other socket shares.\<close>

definition arrives_at :: "sockets \<Rightarrow> int \<Rightarrow> nat \<Rightarrow> nat \<Rightarrow> bool" where
  "arrives_at K fd i a \<longleftrightarrow> sockets_wf K \<and> fd = fd_at K i \<and> (\<forall>j<3. j \<noteq> i \<longrightarrow> fd_at K j \<noteq> fd) \<and>
     List.find (\<lambda>a. so_fd (socket_of K a) = fd) (socket_addresses K) = Some a"

lemma listening_arrives:
  assumes "listening E [fd0, fd1, fd2] K" "distinct [fd0, fd1, fd2]" "i < 3"
  shows "arrives_at K ([fd0, fd1, fd2] ! i) i (en_address E + i)"
proof -
  note find = listening_find [OF assms(1,2)]
  have "fd_at K j = [fd0, fd1, fd2] ! j" if "j < 3" for j using find(2) [of j] that by simp
  moreover have "[fd0, fd1, fd2] ! j \<noteq> [fd0, fd1, fd2] ! i" if "j < 3" "j \<noteq> i" for j
    using nth_eq_iff_index_eq [OF assms(2), of j i] that assms(3) by simp
  ultimately show ?thesis using assms find(1) [of i] by (auto simp: arrives_at_def listening_def)
qed

lemma read_done_sockets:
  "read_done a sd W W' \<Longrightarrow> wd_sockets W'' = wd_sockets W' \<Longrightarrow> read_done a sd W W''"
  by (simp add: read_done_def)

lemma local_socket_read:
  assumes "arrives_at (wd_sockets W) fd 2 a" "net_wf (wd_net W)" "en_alloc E = mem_ok"
    and "\<forall>b\<in>set (addresses (wd_net W)). CHR 0x00 \<notin> set (mc_show_ptr M b)" "length (addresses (wd_net W)) < 2 ^ 64"
    and "rc_bytes rc = xs" "xs \<noteq> []" "length xs \<le> NET_APPLEMIDI_UDPSIZE"
    and "take 4 xs \<in> {text_bytes ''STAT'', text_bytes ''QUIT'', text_bytes ''LIST''} \<longrightarrow> length xs = 4"
    and "so_state (socket_of (wd_sockets W) a) = Some st"
  shows "(xs = text_bytes ''LIST'' \<longrightarrow> net_ctx_connections_to_string mem_ok (mc_stays M) (mc_junk M) (mc_show_ptr M) (wd_net W) \<noteq> Inl UseAfterFree) \<Longrightarrow>
      \<exists>es W'. net_socket_read M E fd (Some rc) W = Inr (0, es, W') \<and> wd_net W' = wd_net W \<and>
      local_read M W xs (so_device_hash (socket_of (wd_sockets W) a)) st es W' \<and>
      read_done a (if xs = text_bytes ''QUIT'' then 1 else sk_shutdown (wd_sockets W)) W W'"
    and "xs = text_bytes ''LIST'' \<Longrightarrow> net_ctx_connections_to_string mem_ok (mc_stays M) (mc_junk M) (mc_show_ptr M) (wd_net W) = Inl UseAfterFree \<Longrightarrow>
      net_socket_read M E fd (Some rc) W = Inl UseAfterFree"
proof -
  from assms(1) have K: "sockets_wf (wd_sockets W)" and fd: "fd = fd_at (wd_sockets W) 2"
    and oth: "\<And>j. j < 3 \<Longrightarrow> j \<noteq> 2 \<Longrightarrow> fd_at (wd_sockets W) j \<noteq> fd"
    and at: "List.find (\<lambda>a. so_fd (socket_of (wd_sockets W) a) = fd) (socket_addresses (wd_sockets W)) = Some a"
    unfolding arrives_at_def by blast+
  from oth [of 0] oth [of 1] have other: "fd \<noteq> fd_at (wd_sockets W) 0" "fd \<noteq> fd_at (wd_sockets W) 1" by auto
  have ne: "rc_bytes rc \<noteq> []" "length (rc_bytes rc) \<le> NET_APPLEMIDI_UDPSIZE" using assms(6-8) by simp_all
  from net_socket_read_unroll [OF K ne at, of M E] assms(10) obtain s st1 n where
    r: "net_socket_read M E fd (Some rc) W =
      bindr (read_dispatch M E rc (fd = fd_at (wd_sockets W) 0 \<or> fd = fd_at (wd_sockets W) 1) (fd = fd_at (wd_sockets W) 2)
               (so_device_hash s) (Some st1) (socket_set a s W)) (\<lambda>(ret, es, st, W).
      Inr (ret, es, socket_set a (s\<lparr>so_state := st, so_held := False\<rparr>) W))"
    and s: "so_fd s = fd" "a \<in> set (socket_addresses (wd_sockets W))" "so_device_hash s = so_device_hash (socket_of (wd_sockets W) a)"
      "parser_wf st1" "unread st1 = rc_bytes rc"
      "ring_capacity (ms_ring st1) = n" "\<forall>z. parser_of z st1 = parser_of z st"
      "\<forall>st'. midi_ready n st' \<longrightarrow> socket_ok (s\<lparr>so_state := Some st', so_held := False\<rparr>)" by auto
  let ?W = "socket_set a s W"
  have held: "\<not> sk_shutdown_held (wd_sockets ?W)" using K by (simp add: socket_set_def sockets_wf_def)
  {
    assume long: "xs = text_bytes ''LIST''" "net_ctx_connections_to_string mem_ok (mc_stays M) (mc_junk M) (mc_show_ptr M) (wd_net W) = Inl UseAfterFree"
    then have "net_ctx_connections_to_string mem_ok (mc_stays M) (mc_junk M) (mc_show_ptr M) (wd_net ?W) = Inl UseAfterFree" by simp
    with read_dispatch_list [OF s(4) _ assms(3)] s(5) assms(6) long(1)
    have "read_dispatch M E rc False True (so_device_hash s) (Some st1) ?W = Inl UseAfterFree" by simp
    then show "net_socket_read M E fd (Some rc) W = Inl UseAfterFree" unfolding r using fd other by simp
  }
  assume fits: "xs = text_bytes ''LIST'' \<longrightarrow> net_ctx_connections_to_string mem_ok (mc_stays M) (mc_junk M) (mc_show_ptr M) (wd_net W) \<noteq> Inl UseAfterFree"
  have "list_fits (\<lambda>_. True) (mc_show_ptr M) (wd_net W)" by (simp add: list_fits_def)
  from connections_string_ok [OF assms(2,4,5) this] connections_string_either [OF assms(2,4,5), of "mc_stays M" "mc_junk M"] fits
  have list: "rc_bytes rc = text_bytes ''LIST'' \<longrightarrow> net_ctx_connections_to_string mem_ok (mc_stays M) (mc_junk M) (mc_show_ptr M) (wd_net ?W) =
        Inr (Some (list_text (mc_show_ptr M) (wd_net ?W) @ [0]), wd_net ?W) \<and> 0 \<notin> set (list_text (mc_show_ptr M) (wd_net ?W))"
    using assms(6) by auto
  from read_dispatch_local [OF s(4) s(5) s(6) ne(2) assms(3) held list, of rc "so_device_hash s"] assms(6,9) obtain es st' W2 where
    d: "read_dispatch M E rc False True (so_device_hash s) (Some st1) ?W = Inr (0, es, Some st', W2)" "midi_ready n st'"
      "wd_net W2 = wd_net W" "local_read M ?W xs (so_device_hash s) st1 es W2"
      "wd_sockets W2 = (if xs = text_bytes ''QUIT'' then (wd_sockets ?W)\<lparr>sk_shutdown := 1\<rparr> else wd_sockets ?W)" by auto
  let ?s = "s\<lparr>so_state := Some st', so_held := False\<rparr>"
  let ?W2 = "socket_set a ?s W2"
  have rd: "net_socket_read M E fd (Some rc) W = Inr (0, es, ?W2)"
    unfolding r using d(1) fd other by simp
  have "local_read M W xs (so_device_hash (socket_of (wd_sockets W) a)) st es ?W2"
    using d(4) unfolding local_read_def socket_set_simps(1,2) s(3) s(7) [rule_format] .
  moreover from s(8) d(2) have ok: "socket_ok ?s" by blast
  have fda: "so_fd (socket_of (wd_sockets W) a) = fd" using at by (auto simp: find_Some_iff)
  note rds = read_done_set [OF K s(2) ok]
  have "read_done a (if xs = text_bytes ''QUIT'' then 1 else sk_shutdown (wd_sockets W)) W ?W2"
  proof (cases "xs = text_bytes ''QUIT''")
    case True
    then show ?thesis using rds(2) s(1) fda d(5) by (auto elim!: read_done_sockets simp: socket_set_def)
  next
    case False
    then show ?thesis using rds(1) s(1) fda d(5) by (auto elim!: read_done_sockets simp: socket_set_def)
  qed
  ultimately show "\<exists>es W'. net_socket_read M E fd (Some rc) W = Inr (0, es, W') \<and> wd_net W' = wd_net W \<and>
      local_read M W xs (so_device_hash (socket_of (wd_sockets W) a)) st es W' \<and>
      read_done a (if xs = text_bytes ''QUIT'' then 1 else sk_shutdown (wd_sockets W)) W W'"
    using rd d(3) by (intro exI [of _ es] exI [of _ ?W2]) simp
qed

text \<open>C25: A datagram on the local socket that is a request, or does not begin with one, is answered or taken as
  MIDI. The requests STAT, QUIT and LIST, alone in their datagram, are
  answered with OK, with QT and the shutdown signal, and with the list of connections. If that list
  needs more than the first block of 512 octets, the answer needs a block that is extended where it
  lies each time it grows; where growing moves it, the program reads memory it has freed. What does not begin
  with a request is MIDI: the commands that the machine over lists reads from it are queued in order, each
  with a reference to a new context, which says that they came from no peer; without commands the
  context is gone again. The connections are as before, and but for the parser of this socket
  and the shutdown flag so are the sockets. A longer datagram that begins with a request, whose rest stays
  unread until the next one, is left out.\<close>

theorem net_socket_read_local:
  assumes "arrives_at (wd_sockets W) fd 2 a" "net_wf (wd_net W)" "en_alloc E = mem_ok"
    and "\<forall>b\<in>set (addresses (wd_net W)). CHR 0x00 \<notin> set (mc_show_ptr M b)" "length (addresses (wd_net W)) < 2 ^ 64"
    and "rc_bytes rc = xs" "xs \<noteq> []" "length xs \<le> NET_APPLEMIDI_UDPSIZE"
    and "take 4 xs \<in> {text_bytes ''STAT'', text_bytes ''QUIT'', text_bytes ''LIST''} \<longrightarrow> length xs = 4"
    and "so_state (socket_of (wd_sockets W) a) = Some st"
  shows "((xs = text_bytes ''LIST'' \<longrightarrow> list_fits (mc_stays M) (mc_show_ptr M) (wd_net W)) \<longrightarrow>
      (\<exists>es W'. net_socket_read M E fd (Some rc) W = Inr (0, es, W') \<and> wd_net W' = wd_net W \<and>
        local_read M W xs (so_device_hash (socket_of (wd_sockets W) a)) st es W' \<and>
        read_done a (if xs = text_bytes ''QUIT'' then 1 else sk_shutdown (wd_sockets W)) W W')) \<and>
    (xs = text_bytes ''LIST'' \<and> (\<forall>n. \<not> mc_stays M n) \<and>
        DSTRING_DEFAULT_BLOCK_SIZE \<le> length (list_text (mc_show_ptr M) (wd_net W)) \<longrightarrow>
      net_socket_read M E fd (Some rc) W = Inl UseAfterFree)"
  using local_socket_read [OF assms] connections_string_ok [OF assms(2,4,5), of "mc_stays M" "mc_junk M"]
    connections_list_moved [OF assms(2,4,5), of "mc_stays M" "mc_junk M"] by auto

definition machine_example :: machine where
  "machine_example = \<lparr>mc_sgn_char = True, mc_ptr_size = 8, mc_wild = WildData,
     mc_header = \<lparr>ph_B = 0, ph_J = 0, ph_Z = 0, ph_P = 0, ph_len = 0\<rparr>, mc_junk = (\<lambda>_. 7), mc_stays = (\<lambda>_. True), mc_show_ptr = (\<lambda>_. ''0x3''), mc_context = 50\<rparr>"

lemma world_example:
  "\<exists>K. arrives_at K 4 0 3 \<and> arrives_at K 5 1 4 \<and> arrives_at K 6 2 5 \<and> sk_shutdown K = 0 \<and>
     fresh_socket env_listen 4 (socket_of K 3) \<and> fresh_socket env_listen 5 (socket_of K 4) \<and> fresh_socket env_listen 6 (socket_of K 5)"
proof -
  from sockets_example obtain K where K: "listening env_listen [4, 5, 6] K" "sk_shutdown K = 0" by blast
  have a: "en_address env_listen = 3" by (simp add: env_listen_def env_example_def)
  have f: "fresh_socket env_listen ([4, 5, 6] ! i) (socket_of K (3 + i))" if "i < 3" for i
    using K(1) that by (simp add: listening_def a)
  from listening_arrives [OF K(1), of 0] listening_arrives [OF K(1), of 1] listening_arrives [OF K(1), of 2] f [of 0] f [of 1] f [of 2]
  show ?thesis using K(2) by (intro exI [of _ K]) (simp add: a)
qed

lemma env_alloc: "en_alloc env_example = mem_ok"
  by (simp add: env_example_def)

lemma quit_ne: "text_bytes ''QUIT'' \<noteq> []"
  by (simp add: text_bytes_def)

theorem net_socket_read_local_witness:
  "\<exists>W es W'. net_socket_read machine_example env_example 6 (Some \<lparr>rc_bytes = text_bytes ''QUIT'', rc_ip_address = None, rc_port = 9\<rparr>) W =
      Inr (0, es, W') \<and> sk_shutdown (wd_sockets W) = 0 \<and> sk_shutdown (wd_sockets W') = 1 \<and> es = [Reply (text_bytes ''QT''), Shutdown_signal]"
proof -
  from world_example obtain K where K: "arrives_at K 6 2 5" "sk_shutdown K = 0" "fresh_socket env_listen 6 (socket_of K 5)" by blast
  from K(3) obtain st where st: "so_state (socket_of K 5) = Some st" by (auto simp: fresh_socket_def)
  let ?W = "\<lparr>wd_sockets = K, wd_net = net_start, wd_contexts = Map.empty\<rparr>"
  from net_socket_read_local [of ?W 6 5 env_example machine_example "\<lparr>rc_bytes = text_bytes ''QUIT'', rc_ip_address = None, rc_port = 9\<rparr>"
      "text_bytes ''QUIT''" st] K st words_4
    quit_ne env_alloc
  show ?thesis
    by (intro exI [of _ ?W]) (auto simp: net_start_wf NET_APPLEMIDI_UDPSIZE_def local_read_def read_done_def)
qed

text \<open>What reading leaves when the parser of the socket was all that changed in the sockets.\<close>

lemma net_socket_read_peer:
  assumes "arrives_at (wd_sockets W) fd i a" "i < 2" "rc_bytes rc = xs" "xs \<noteq> []" "length xs \<le> NET_APPLEMIDI_UDPSIZE"
  shows "\<exists>s st n. net_socket_read M E fd (Some rc) W =
      bindr (read_dispatch M E rc True False (so_device_hash s) (Some st) (socket_set a s W)) (\<lambda>(ret, es, st, W).
      Inr (ret, es, socket_set a (s\<lparr>so_state := st, so_held := False\<rparr>) W)) \<and>
    parser_wf st \<and> unread st = xs \<and> ring_capacity (ms_ring st) = n \<and>
    (\<forall>st' N S. midi_ready n st' \<longrightarrow> read_done a (sk_shutdown (wd_sockets W)) W
      (socket_set a (s\<lparr>so_state := Some st', so_held := False\<rparr>) ((socket_set a s W)\<lparr>wd_net := N, wd_contexts := S\<rparr>)))"
proof -
  from assms(1) have K: "sockets_wf (wd_sockets W)" and fd: "fd = fd_at (wd_sockets W) i"
    and oth: "\<And>j. j < 3 \<Longrightarrow> j \<noteq> i \<Longrightarrow> fd_at (wd_sockets W) j \<noteq> fd"
    and at: "List.find (\<lambda>a. so_fd (socket_of (wd_sockets W) a) = fd) (socket_addresses (wd_sockets W)) = Some a"
    unfolding arrives_at_def by blast+
  from fd assms(2) oth [of 2] have fds: "(fd = fd_at (wd_sockets W) 0 \<or> fd = fd_at (wd_sockets W) 1) = True"
    "(fd = fd_at (wd_sockets W) 2) = False" by (auto simp: less_2_cases_iff)
  have ne: "rc_bytes rc \<noteq> []" "length (rc_bytes rc) \<le> NET_APPLEMIDI_UDPSIZE" using assms(3-5) by simp_all
  from net_socket_read_unroll [OF K ne at, of M E] obtain s st n where
    r: "net_socket_read M E fd (Some rc) W =
      bindr (read_dispatch M E rc True False (so_device_hash s) (Some st) (socket_set a s W)) (\<lambda>(ret, es, st, W).
      Inr (ret, es, socket_set a (s\<lparr>so_state := st, so_held := False\<rparr>) W))"
    and s: "so_fd s = fd" "a \<in> set (socket_addresses (wd_sockets W))" "parser_wf st" "unread st = rc_bytes rc"
      "ring_capacity (ms_ring st) = n" "\<forall>st'. midi_ready n st' \<longrightarrow> socket_ok (s\<lparr>so_state := Some st', so_held := False\<rparr>)"
    unfolding fds by blast
  have fda: "so_fd (socket_of (wd_sockets W) a) = fd" using at by (auto simp: find_Some_iff)
  have "read_done a (sk_shutdown (wd_sockets W)) W
      (socket_set a (s\<lparr>so_state := Some st', so_held := False\<rparr>) ((socket_set a s W)\<lparr>wd_net := N, wd_contexts := S\<rparr>))"
    if "midi_ready n st'" for st' N S
  proof (rule read_done_sockets)
    show "read_done a (sk_shutdown (wd_sockets W)) W (socket_set a (s\<lparr>so_state := Some st', so_held := False\<rparr>) W)"
      by (rule read_done_set(1) [OF K s(2)]) (use s(1,6) fda that in simp_all)
  qed (simp add: socket_set_def)
  with r s assms(3) show ?thesis by (intro exI [of _ s] exI [of _ st] exI [of _ n]) simp
qed

lemma rtp_socket_read:
  assumes "arrives_at (wd_sockets W) fd 1 a" "net_wf (wd_net W)" "en_alloc E = mem_ok"
    and "rc_bytes rc = xs" "12 \<le> length xs" "length xs \<le> NET_APPLEMIDI_UDPSIZE" "\<not> (xs ! 0 = 0xff \<and> xs ! 1 = 0xff)"
    and "h = rp_header (rtp_parse xs)"
  shows "(rh_v h \<noteq> RTP_VERSION \<or> peer (wd_net W) (rh_ssrc h) = None \<longrightarrow>
      (\<exists>W'. net_socket_read M E fd (Some rc) W = Inr (0, [], W') \<and> read_done a (sk_shutdown (wd_sockets W)) W W' \<and>
        wd_net W' = wd_net W \<and> wd_contexts W' = wd_contexts W)) \<and>
    (\<forall>b. rh_v h = RTP_VERSION \<and> peer (wd_net W) (rh_ssrc h) = Some b \<longrightarrow>
      (rtp_section xs = None \<longrightarrow> net_socket_read M E fd (Some rc) W = Inl NullDeref) \<and>
      (\<forall>pl. rtp_section xs = Some pl \<longrightarrow>
        (\<exists>es W'. net_socket_read M E fd (Some rc) W = Inr (0, es, W') \<and> read_done a (sk_shutdown (wd_sockets W)) W W' \<and>
          rtp_taken M xs pl b (wd_net W) (wd_contexts W) es (wd_net W') (wd_contexts W'))))"
proof -
  have "xs \<noteq> []" using assms(5) by auto
  from net_socket_read_peer [OF assms(1) _ assms(4) this assms(6), of M E] obtain s st n where
    r: "net_socket_read M E fd (Some rc) W =
      bindr (read_dispatch M E rc True False (so_device_hash s) (Some st) (socket_set a s W)) (\<lambda>(ret, es, st, W).
      Inr (ret, es, socket_set a (s\<lparr>so_state := st, so_held := False\<rparr>) W))"
    and s: "parser_wf st" "unread st = xs" "ring_capacity (ms_ring st) = n"
      "\<And>st' N S. midi_ready n st' \<Longrightarrow> read_done a (sk_shutdown (wd_sockets W)) W
        (socket_set a (s\<lparr>so_state := Some st', so_held := False\<rparr>) ((socket_set a s W)\<lparr>wd_net := N, wd_contexts := S\<rparr>))" by auto
  have "is_command (Some st) = Inr (False, Some st)" using is_command_ok [OF s(1)] s(2) assms(7) by auto
  then have d: "read_dispatch M E rc True False hash (Some st) (socket_set a s W) =
      bindr (read_rtp M E (Some st) (wd_net W) (wd_contexts W)) (\<lambda>(es, st, N, S).
      Inr (0, es, st, (socket_set a s W)\<lparr>wd_net := N, wd_contexts := S\<rparr>))" for hash
    by (simp add: read_dispatch_def is_request_other)
  note rtp = read_rtp_ok [OF s(1-3) assms(5,6,3,2), where M = M and S = "wd_contexts W", folded assms(8)]
  show ?thesis
  proof (intro conjI allI impI; (elim conjE)?)
    assume "rh_v h \<noteq> RTP_VERSION \<or> peer (wd_net W) (rh_ssrc h) = None"
    from rtp(1) [OF this] obtain st' where
      st': "midi_ready n st'" "read_rtp M E (Some st) (wd_net W) (wd_contexts W) = Inr ([], Some st', wd_net W, wd_contexts W)" by blast
    then show "\<exists>W'. net_socket_read M E fd (Some rc) W = Inr (0, [], W') \<and> read_done a (sk_shutdown (wd_sockets W)) W W' \<and>
        wd_net W' = wd_net W \<and> wd_contexts W' = wd_contexts W"
      using s(4) [OF st'(1), where N = "wd_net W" and S = "wd_contexts W"] unfolding r d by simp
  next
    fix b
    assume v: "rh_v h = RTP_VERSION" "peer (wd_net W) (rh_ssrc h) = Some b"
    { assume "rtp_section xs = None"
      from rtp(2) [OF v this] show "net_socket_read M E fd (Some rc) W = Inl NullDeref" unfolding r d by simp }
    fix pl
    assume "rtp_section xs = Some pl"
    from rtp(3) [OF v this] obtain es st' N' S' where
      t: "midi_ready n st'" "read_rtp M E (Some st) (wd_net W) (wd_contexts W) = Inr (es, Some st', N', S')"
        "rtp_taken M xs pl b (wd_net W) (wd_contexts W) es N' S'" by blast
    then show "\<exists>es W'. net_socket_read M E fd (Some rc) W = Inr (0, es, W') \<and> read_done a (sk_shutdown (wd_sockets W)) W W' \<and>
        rtp_taken M xs pl b (wd_net W) (wd_contexts W) es (wd_net W') (wd_contexts W')"
      using s(4) [OF t(1), where N = N' and S = S'] unfolding r d by simp
  qed
qed

lemma read_done_arrives:
  assumes "arrives_at (wd_sockets W) fd i a" "read_done b sd W W'"
  shows "arrives_at (wd_sockets W') fd i a"
proof -
  have ad: "socket_addresses (wd_sockets W') = socket_addresses (wd_sockets W)"
    and fds: "\<And>b. so_fd (socket_of (wd_sockets W') b) = so_fd (socket_of (wd_sockets W) b)"
    and wf: "sockets_wf (wd_sockets W')" using assms(2) by (simp_all add: read_done_def)
  have same: "fd_at (wd_sockets W') j = fd_at (wd_sockets W) j" for j using ad fds by (simp add: fd_at_def)
  show ?thesis using assms(1) wf unfolding arrives_at_def ad fds same by blast
qed

text \<open>C9: A datagram of at least twelve octets on the data socket that is no session command is an RTP
  packet. Of another version or from an unknown SSRC it is dropped. From a known peer, with a
  command section that can be read, it is answered with a feedback command, and the commands that
  the parser of the connection reads from it are queued with a context that names the peer; the
  parser of the connection is all that changes. A packet from a known peer whose command section
  is missing or cut off makes the program dereference NULL.\<close>

theorem net_socket_read_rtp:
  assumes "arrives_at (wd_sockets W) fd 1 a" "net_wf (wd_net W)" "en_alloc E = mem_ok"
    and "rc_bytes rc = xs" "12 \<le> length xs" "length xs \<le> NET_APPLEMIDI_UDPSIZE" "\<not> (xs ! 0 = 0xff \<and> xs ! 1 = 0xff)"
    and "h = rp_header (rtp_parse xs)"
  shows "(rh_v h \<noteq> RTP_VERSION \<or> peer (wd_net W) (rh_ssrc h) = None \<longrightarrow>
      (\<exists>W'. net_socket_read M E fd (Some rc) W = Inr (0, [], W') \<and> read_done a (sk_shutdown (wd_sockets W)) W W' \<and>
        wd_net W' = wd_net W \<and> wd_contexts W' = wd_contexts W)) \<and>
    (\<forall>b. rh_v h = RTP_VERSION \<and> peer (wd_net W) (rh_ssrc h) = Some b \<longrightarrow>
      (rtp_section xs = None \<longrightarrow> net_socket_read M E fd (Some rc) W = Inl NullDeref) \<and>
      (\<forall>pl. rtp_section xs = Some pl \<longrightarrow>
        (\<exists>es W'. net_socket_read M E fd (Some rc) W = Inr (0, es, W') \<and> read_done a (sk_shutdown (wd_sockets W)) W W' \<and>
          rtp_taken M xs pl b (wd_net W) (wd_contexts W) es (wd_net W') (wd_contexts W'))))"
  by (rule rtp_socket_read [OF assms])

definition note_packet :: bytes where
  "note_packet = [0x80, 0x61, 0, 1, 0, 0, 0, 0, 0, 0, 0, 5, 0x03, 0x90, 60, 100]"

lemma note_packet_parsed:
  "rh_v (rp_header (rtp_parse note_packet)) = RTP_VERSION" "rh_ssrc (rp_header (rtp_parse note_packet)) = 5"
  "rh_seq (rp_header (rtp_parse note_packet)) = 1" "rtp_section note_packet = Some (payload_of 3 3 [0x90, 60, 100])"
  by code_simp+

text \<open>Connections with one peer, SSRC 5, whose parser is new.\<close>

lemma idle_peer:
  "\<exists>N. net_wf N \<and> peer N 5 = Some 3 \<and> peer_parser N 3 = midi_new 10240"
proof -
  from net_one_peer obtain N0 where N0: "net_wf N0" "addresses N0 = [3]"
    "ctx_set_to env_example 5 6 (Some [49, 0]) 5004 None (context_of N0 3)" by blast
  let ?c = "(context_of N0 3)\<lparr>nc_midi_state := Some (midi_new 10240)\<rparr>"
  have ready: "midi_ready 10240 (midi_new 10240)" by (rule midi_new_ready(1)) simp
  have "ctx_wf (context_of N0 3)" using N0(1,2) by (simp add: net_wf_def)
  then have "ctx_wf ?c" using ready by (auto simp: ctx_wf_def parser_empty_ready)
  note up = context_update [OF N0(1) _ this, of 3]
  let ?N = "N0\<lparr>nt_contexts := (nt_contexts N0)(3 \<mapsto> ?c)\<rparr>"
  have "used_with_ssrc ?N 5 3" using up(3) N0(2,3) by (simp add: used_with_ssrc_def ctx_set_to_def)
  then have "peer ?N 5 = Some 3" using up(2) N0(2) by (simp add: peer_def)
  moreover have "peer_parser ?N 3 = midi_new 10240" using up(3) N0(2) by (simp add: peer_parser_def)
  ultimately show ?thesis using up(1) N0(2) by (intro exI [of _ ?N]) simp
qed

lemma note_packet_commands:
  "rtp_commands note_packet (payload_of 3 3 [0x90, 60, 100]) (midi_new 10240) =
     [\<lparr>mc_delta = 0, mc_status = 0x90, mc_data_len = 2, mc_data = Some [60, 100]\<rparr>]"
proof -
  have "parser_of False (midi_new 10240) = \<lparr>pa_status = MIDI_STATE_INIT, pa_running = 0, pa_hold = [], pa_delta = 0,
      pa_partial = 0, pa_timed = False\<rparr>" by (rule midi_new_ready(2)) simp
  moreover have "fst (midi_parse MIDI_PARSE_MODE_RTP [0x90, 60, 100] \<lparr>pa_status = MIDI_STATE_INIT, pa_running = 0, pa_hold = [],
      pa_delta = 0, pa_partial = 0, pa_timed = False\<rparr>) = [\<lparr>mc_delta = 0, mc_status = 0x90, mc_data_len = 2, mc_data = Some [60, 100]\<rparr>]"
    by code_simp
  ultimately show ?thesis by (simp add: rtp_commands_def payload_of_def one_if_def)
qed

theorem net_socket_read_rtp_witness:
  "\<exists>W es W' r. net_socket_read machine_example env_example 5 (Some \<lparr>rc_bytes = note_packet, rc_ip_address = None, rc_port = 9\<rparr>) W =
      Inr (0, es, W') \<and>
    es = [Reply (wire r), Queued \<lparr>mc_delta = 0, mc_status = 0x90, mc_data_len = 2, mc_data = Some [60, 100]\<rparr> (Some 50)] \<and>
    arrives r (feedback_command 5 1)"
proof -
  from world_example obtain K where K: "arrives_at K 5 1 4" by blast
  from idle_peer obtain N where N: "net_wf N" "peer N 5 = Some 3" "peer_parser N 3 = midi_new 10240" by blast
  let ?W = "\<lparr>wd_sockets = K, wd_net = N, wd_contexts = Map.empty\<rparr>"
  let ?rc = "\<lparr>rc_bytes = note_packet, rc_ip_address = None, rc_port = 9\<rparr>"
  have W: "arrives_at (wd_sockets ?W) 5 1 4" "net_wf (wd_net ?W)" using K N by simp_all
  have p: "rc_bytes ?rc = note_packet" "12 \<le> length note_packet" "length note_packet \<le> NET_APPLEMIDI_UDPSIZE"
    "\<not> (note_packet ! 0 = 0xff \<and> note_packet ! 1 = 0xff)"
    by (simp_all add: note_packet_def NET_APPLEMIDI_UDPSIZE_def)
  have "\<exists>es W'. net_socket_read machine_example env_example 5 (Some ?rc) ?W = Inr (0, es, W') \<and>
      rtp_taken machine_example note_packet (payload_of 3 3 [0x90, 60, 100]) 3 N Map.empty es (wd_net W') (wd_contexts W')"
    using net_socket_read_rtp [OF W env_alloc p refl, of machine_example] N by (simp add: note_packet_parsed) blast
  then obtain es W' where rd: "net_socket_read machine_example env_example 5 (Some ?rc) ?W = Inr (0, es, W')"
    and t: "rtp_taken machine_example note_packet (payload_of 3 3 [0x90, 60, 100]) 3 N Map.empty es (wd_net W') (wd_contexts W')"
    by blast
  from t obtain r where "arrives r (feedback_command 5 1)"
    "es = Reply (wire r) # queued 50 [\<lparr>mc_delta = 0, mc_status = 0x90, mc_data_len = 2, mc_data = Some [60, 100]\<rparr>]"
    by (auto simp: rtp_taken_def note_packet_parsed N(3) note_packet_commands machine_example_def)
  with rd show ?thesis by (intro exI [of _ ?W] exI [of _ es] exI [of _ W'] exI [of _ r]) (simp add: queued_def)
qed

text \<open>The two octets that mark a session command are enough to have a datagram taken for one: of
  fewer than four octets it is not unpacked, and the program dereferences NULL.\<close>
theorem net_socket_read_short_command:
  assumes "arrives_at (wd_sockets W) fd i a" "i < 2" "en_alloc E = mem_ok"
    and "rc_bytes rc = xs" "length xs \<in> {2, 3}" "xs ! 0 = 0xff" "xs ! 1 = 0xff"
  shows "net_socket_read M E fd (Some rc) W = Inl NullDeref"
proof -
  have xs: "xs \<noteq> []" "length xs \<le> NET_APPLEMIDI_UDPSIZE" using assms(5) by (auto simp: NET_APPLEMIDI_UDPSIZE_def)
  from net_socket_read_peer [OF assms(1,2,4) xs, of M E] obtain s st n where
    r: "net_socket_read M E fd (Some rc) W =
      bindr (read_dispatch M E rc True False (so_device_hash s) (Some st) (socket_set a s W)) (\<lambda>(ret, es, st, W).
      Inr (ret, es, socket_set a (s\<lparr>so_state := st, so_held := False\<rparr>) W))"
    and s: "parser_wf st" "unread st = xs" "ring_capacity (ms_ring st) = n" by auto
  have "2 \<le> length xs" using assms(5) by auto
  then have cmd: "is_command (Some st) = Inr (True, Some st)" using is_command_ok [OF s(1)] s(2) assms(6,7) by simp
  from state_drain_ok [OF s(1)] s(2) xs(1) obtain st1 where
    st1: "midi_state_drain mem_ok (Some st) = Inr (Some xs, length xs, Some st1)" by auto
  have "net_applemidi_unpack mem_ok ptr junk (Some xs) (length xs) = Inr (NET_APPLEMIDI_NEED_DATA, None)" for ptr junk
    using assms(5) by (auto simp: net_applemidi_unpack_def NET_APPLEMIDI_COMMAND_SIZE_def)
  with st1 cmd assms(3) show ?thesis unfolding r by (simp add: read_dispatch_def read_applemidi_def)
qed

theorem net_socket_read_short_command_witness:
  "\<exists>W. sockets_wf (wd_sockets W) \<and> net_socket_read machine_example env_example 4
     (Some \<lparr>rc_bytes = [0xff, 0xff], rc_ip_address = None, rc_port = 9\<rparr>) W = Inl NullDeref"
proof -
  from world_example obtain K where K: "arrives_at K 4 0 3" by blast
  let ?W = "\<lparr>wd_sockets = K, wd_net = net_start, wd_contexts = Map.empty\<rparr>"
  from K have "arrives_at (wd_sockets ?W) 4 0 3" by simp
  from net_socket_read_short_command [OF this _ env_alloc refl] K show ?thesis
    by (intro exI [of _ ?W]) (simp add: arrives_at_def)
qed

text \<open>C20: An invitation that arrives on the control or the data socket is answered: the packet sent back to
  where it came from unpacks to an acceptance with the token of the peer, an SSRC of this side and its name. Afterwards
  the peer is known under its SSRC, all others as before, and the sockets are ready for the next
  datagram.\<close>

theorem net_socket_read_invitation:
  assumes "arrives_at (wd_sockets W) fd i a" "i < 2" "net_wf (wd_net W)" "ssrc_unique (wd_net W)" "env_ok E" "4 \<le> mc_ptr_size M"
    and "en_address E \<notin> set (addresses (wd_net W))" "cstring_ok (rc_ip_address rc)"
    and "rc_bytes rc = command_bytes c" "length (command_bytes c) \<le> NET_APPLEMIDI_UDPSIZE"
    and "ac_signature c = 0xffff" "ac_command c = NET_APPLEMIDI_CMD_INV" "ac_data c = InvData iv"
    and "data_fits (ac_command c) (ac_data c)" "peer (wd_net W) (inv_ssrc iv) = None"
  shows "\<exists>r W' b. net_socket_read M E fd (Some rc) W = Inr (NET_APPLEMIDI_DONE, [Reply (wire r)], W') \<and>
    arrives r \<lparr>ac_signature = 0xffff, ac_command = NET_APPLEMIDI_CMD_ACCEPT,
      ac_data = InvData \<lparr>inv_ssrc = en_random E 0, inv_version = 2, inv_initiator = inv_initiator iv,
        inv_name = Some (service_name E ''RaveloxMIDI'')\<rparr>\<rparr> \<and>
    read_done a (sk_shutdown (wd_sockets W)) W W' \<and> wd_contexts W' = wd_contexts W \<and>
    net_wf (wd_net W') \<and> ssrc_unique (wd_net W') \<and> peer (wd_net W') (inv_ssrc iv) = Some b \<and>
    (\<forall>s. s \<noteq> inv_ssrc iv \<longrightarrow> peer (wd_net W') s = peer (wd_net W) s) \<and>
    ctx_set_to E (inv_ssrc iv) (inv_initiator iv) (rc_ip_address rc) (rc_port rc) (inv_name iv) (context_of (wd_net W') b)"
proof -
  let ?N = "wd_net W"
  have E: "en_alloc E = mem_ok" using assms(5) by (simp add: env_ok_def)
  have at: "sockets_wf (wd_sockets W)" "List.find (\<lambda>a. so_fd (socket_of (wd_sockets W) a) = fd) (socket_addresses (wd_sockets W)) = Some a"
    using assms(1) unfolding arrives_at_def by blast+
  have fd: "fd = fd_at (wd_sockets W) 0 \<or> fd = fd_at (wd_sockets W) 1"
    using assms(1,2) by (auto simp: arrives_at_def less_2_cases_iff)
  have "cstring_ok (inv_name iv)"
    using assms(13,14) by (auto simp: cstring_ok_def split: option.splits) (metis last_in_set)
  from inv_responder_ok [OF assms(3-5,8) this assms(7), of "rc_port rc"] assms(15) obtain r N' b where
    r: "applemidi_inv_responder E (rc_ip_address rc) (rc_port rc) (Some iv) ?N = Inr (Some r, N')" "net_wf N'" "ssrc_unique N'"
      "peer N' (inv_ssrc iv) = Some b" "\<forall>s. s \<noteq> inv_ssrc iv \<longrightarrow> peer N' s = peer ?N s"
      "ctx_set_to E (inv_ssrc iv) (inv_initiator iv) (rc_ip_address rc) (rc_port rc) (inv_name iv) (context_of N' b)"
      "wire r = command_bytes (inv_packet NET_APPLEMIDI_CMD_ACCEPT (context_of N' b) (service_name E ''RaveloxMIDI''))" "response_ok r"
    by auto
  let ?p = "inv_packet NET_APPLEMIDI_CMD_ACCEPT (context_of N' b) (service_name E ''RaveloxMIDI'')"
  have "data_fits (ac_command ?p) (ac_data ?p)" unfolding service_name_def by (rule inv_packet_fits) simp
  from wire_received [OF r(7) this] have arr: "arrives r ?p" by (simp add: arrives_def)
  have p: "?p = \<lparr>ac_signature = 0xffff, ac_command = NET_APPLEMIDI_CMD_ACCEPT,
      ac_data = InvData \<lparr>inv_ssrc = en_random E 0, inv_version = 2, inv_initiator = inv_initiator iv,
        inv_name = Some (service_name E ''RaveloxMIDI'')\<rparr>\<rparr>"
    using r(6) by (simp add: inv_packet_def ctx_set_to_def)
  have resp: "session_respond M E rc c ?N = Inr (Some r, [], N')"
    using assms(12,13) r(1) by (simp add: session_respond_def as_inv_def)
  from net_socket_read_session_ok [OF at(1) assms(9,10,14,11) E assms(6) at(2) fd] obtain W' where
    W': "read_done a (sk_shutdown (wd_sockets W)) W W'" "wd_contexts W' = wd_contexts W"
      "net_socket_read M E fd (Some rc) W = bindr (session_respond M E rc c ?N) (\<lambda>(response, es, N). bindr (reply response) (\<lambda>rs.
        Inr (NET_APPLEMIDI_DONE, map Peer es @ rs, W'\<lparr>wd_net := N\<rparr>)))" by blast
  have "net_socket_read M E fd (Some rc) W = Inr (NET_APPLEMIDI_DONE, [Reply (wire r)], W'\<lparr>wd_net := N'\<rparr>)"
    unfolding W'(3) resp by (simp add: reply_ok [OF r(8)])
  moreover have "read_done a (sk_shutdown (wd_sockets W)) W (W'\<lparr>wd_net := N'\<rparr>)"
    using W'(1) by (rule read_done_sockets) simp
  ultimately show ?thesis using r(2-6) W'(2) arr [unfolded p]
    by (intro exI [of _ r] exI [of _ "W'\<lparr>wd_net := N'\<rparr>"] exI [of _ b]) simp
qed

theorem net_socket_read_invitation_witness:
  "\<exists>W r W' b. net_socket_read machine_example env_example 4
      (Some \<lparr>rc_bytes = command_bytes \<lparr>ac_signature = 0xffff, ac_command = NET_APPLEMIDI_CMD_INV, ac_data = InvData inv_example\<rparr>,
        rc_ip_address = Some [49, 0], rc_port = 5004\<rparr>) W = Inr (NET_APPLEMIDI_DONE, [Reply (wire r)], W') \<and>
    peer (wd_net W) (inv_ssrc inv_example) = None \<and> peer (wd_net W') (inv_ssrc inv_example) = Some b"
proof -
  from world_example obtain K where K: "arrives_at K 4 0 3" by blast
  let ?W = "\<lparr>wd_sockets = K, wd_net = net_start, wd_contexts = Map.empty\<rparr>"
  let ?c = "\<lparr>ac_signature = 0xffff, ac_command = NET_APPLEMIDI_CMD_INV, ac_data = InvData inv_example\<rparr>"
  let ?rc = "\<lparr>rc_bytes = command_bytes ?c, rc_ip_address = Some [49, 0], rc_port = 5004\<rparr>"
  have W: "arrives_at (wd_sockets ?W) 4 0 3" "net_wf (wd_net ?W)" "ssrc_unique (wd_net ?W)"
    using K net_start_wf by simp_all
  have p: "peer net_start s = None" for s by (simp add: peer_def net_start_wf)
  have len: "length (command_bytes ?c) \<le> NET_APPLEMIDI_UDPSIZE" "data_fits (ac_command ?c) (ac_data ?c)"
    by (simp_all add: command_bytes_def NET_APPLEMIDI_UDPSIZE_def inv_example_def)
  from net_socket_read_invitation [OF W(1) _ W(2,3) env_example_ok, of machine_example ?rc ?c inv_example] len p show ?thesis
    by (intro exI [of _ ?W]) (auto simp: machine_example_def net_start_wf cstring_ok_def)
qed

end
