(* ===== verification/Remote_Connection.thy ===== *)
theory Remote_Connection
  imports Responders
begin

text \<open>
  Sessions that this side begins (\<^verbatim>\<open>remote_connection.c\<close>) and the list of services they choose from
  (\<^verbatim>\<open>dns_service_discover.c\<close>): how the setting \<^verbatim>\<open>remote.connect\<close> is taken apart, the invitation, the
  thread that keeps the clocks synchronised, and the end of the session. What Avahi resolved while
  it browsed is a list, an argument of \<open>dns_discover_services\<close>.
\<close>

section \<open>Services\<close>

record dns_service =
  ds_name :: "string option"
  ds_ip_address :: "string option"
  ds_port :: int

record dns =
  dn_services :: "dns_service list option"
  dn_num_services :: nat

definition strcmp_name :: "string \<Rightarrow> string option \<Rightarrow> bool result" where
  "strcmp_name name s = bindr (deref s) (\<lambda>x. Inr (name = x))"

fun by_name_from :: "string \<Rightarrow> dns_service list \<Rightarrow> nat \<Rightarrow> nat \<Rightarrow> dns_service option result" where
  "by_name_from name services i 0 = Inr None"
| "by_name_from name services i (Suc left) =
     bindr (mem_get services i) (\<lambda>s.
     bindr (strcmp_name name (ds_name s)) (\<lambda>b. if b then Inr (Some s) else by_name_from name services (Suc i) left))"

definition dns_discover_by_name :: "string \<Rightarrow> dns \<Rightarrow> dns_service option result" where
  "dns_discover_by_name name D =
     (if dn_num_services D < 1 then Inr None
      else case dn_services D of None \<Rightarrow> Inr None
        | Some services \<Rightarrow> by_name_from name services 0 (dn_num_services D))"

definition dns_discover_add :: "alloc \<Rightarrow> string option \<Rightarrow> string option \<Rightarrow> int \<Rightarrow> dns \<Rightarrow> dns result" where
  "dns_discover_add A name address port D =
     (case (name, address) of
        (Some n, Some ip) \<Rightarrow>
          bindr (dns_discover_by_name n D) (\<lambda>found_service.
          if found_service \<noteq> None \<or> \<not> A (Site ''dns_discover_add:new_services_list'') then Inr D
          else
            let list = take (dn_num_services D) (case dn_services D of None \<Rightarrow> [] | Some l \<Rightarrow> l) in
            if \<not> A (Site ''dns_discover_add:new_service'') then Inr (D\<lparr>dn_services := Some list\<rparr>)
            else Inr (D\<lparr>dn_services := Some (list @ [\<lparr>ds_name = (if A (Site ''dns_discover_add:name'') then Some n else None),
                          ds_ip_address = (if A (Site ''dns_discover_add:ip_address'') then Some ip else None), ds_port = port\<rparr>]),
                        dn_num_services := dn_num_services D + 1\<rparr>))
      | _ \<Rightarrow> Inr D)"

text \<open>What was resolved before the time-out, in the order of the callbacks.\<close>

fun dns_discover_services :: "(string \<times> string \<times> int) list \<Rightarrow> dns \<Rightarrow> (nat \<times> dns) result" where
  "dns_discover_services [] D = Inr (dn_num_services D, D)"
| "dns_discover_services ((name, a, port) # rs) D =
     bindr (dns_discover_add mem_ok (Some name) (Some a) port D) (dns_discover_services rs)"

definition dns_discover_free_services :: "dns \<Rightarrow> dns" where
  "dns_discover_free_services D =
     (if dn_services D = None \<or> dn_num_services D = 0 then D else \<lparr>dn_services = None, dn_num_services = 0\<rparr>)"

definition dns_discover_init :: "dns \<Rightarrow> dns" where
  "dns_discover_init D = (dns_discover_free_services D)\<lparr>dn_num_services := 0\<rparr>"

section \<open>The setting\<close>

text \<open>The loop that works backwards to a colon or a closing bracket, and the one that works forwards
  behind an opening bracket.\<close>

fun scan_back :: "string \<Rightarrow> nat \<Rightarrow> nat" where
  "scan_back buf 0 = 0"
| "scan_back buf (Suc p2) = (if buf ! Suc p2 = CHR '']'' \<or> buf ! Suc p2 = CHR '':'' then Suc p2 else scan_back buf p2)"

fun scan_bracket :: "string \<Rightarrow> nat \<Rightarrow> nat \<Rightarrow> nat" where
  "scan_bracket buf p1 0 = p1"
| "scan_bracket buf p1 (Suc n) = (if buf ! p1 = CHR ''['' then Suc p1 else scan_bracket buf (Suc p1) n)"

text \<open>The address and the port (0 for none), or None for the name of a service.\<close>

definition remote_target :: "string \<Rightarrow> (string \<times> int) option" where
  "remote_target remote_service_name =
     (let buf = remote_service_name @ [CHR 0x00];
          p2 = scan_back buf (length remote_service_name) in
      if p2 = 0 then None
      else
        let (buf, p2, port) =
              (if buf ! p2 = CHR '':'' then
                 let b = buf[p2 := CHR 0x00] in (b, length (cstr b) - 1, atoi (cstr (drop (p2 + 1) buf)))
               else (buf, p2, 0));
            (buf, p1) = (if buf ! p2 = CHR '']'' then let b = buf[p2 := CHR 0x00] in (b, scan_bracket b 0 p2) else (buf, 0));
            p1 = (if p1 = p2 then 0 else p1)
        in Some (cstr (drop p1 buf), port))"

section \<open>The session\<close>

text \<open>\<open>browsed\<close> is what Avahi finds. The random numbers of \<^verbatim>\<open>net_ctx_register\<close> come after the two drawn
  here.\<close>

definition remote_connect_to :: "env \<Rightarrow> dns_service \<Rightarrow> net \<Rightarrow> (effect list \<times> net) result" where
  "remote_connect_to E found_service N =
     (let ssrc = en_random E 0; initiator = en_random E 1 in
      bindr (config_string_get (en_config E) (Some ''service.name'')) (\<lambda>client_name.
      bindr (net_response_inv (en_alloc E) ssrc initiator
               (Some (string_bytes (case client_name of Some s \<Rightarrow> s | None \<Rightarrow> ''RaveloxMIDIClient'')))) (\<lambda>response.
      if response = None then Inr ([], N)
      else
        bindr (net_ctx_register (E\<lparr>en_random := (\<lambda>i. en_random E (i + 2))\<rparr>) ssrc initiator
                 (map_option string_bytes (ds_ip_address found_service)) (word_of_int (ds_port found_service))
                 (map_option string_bytes (ds_name found_service)) N) (\<lambda>(ctx, N).
        case ctx of None \<Rightarrow> Inr ([], N)
        | Some a \<Rightarrow>
            bindr (on_ctx (\<lambda>p. bindr (net_ctx_lock p) (\<lambda>p. net_ctx_unlock (map_option (\<lambda>c.
              c\<lparr>nc_send_ssrc := ssrc, nc_status := NET_CTX_STATUS_FIRST_INV\<rparr>) p))) (Some a) N) (\<lambda>N.
            send_response response a True N)))))"

definition remote_connect_init ::
    "env \<Rightarrow> (string \<times> string \<times> int) list \<Rightarrow> dns \<Rightarrow> net \<Rightarrow> (effect list \<times> dns \<times> net) result" where
  "remote_connect_init E browsed D N =
     bindr (config_is_set (en_config E) (Some ''remote.connect'')) (\<lambda>is_set.
     if \<not> is_set then Inr ([], D, N)
     else
       bindr (config_string_get (en_config E) (Some ''remote.connect'')) (\<lambda>v.
       bindr (deref (if en_alloc E (Site ''remote_connect_init:remote_service_name'') then v else None)) (\<lambda>name.
       bindr (case remote_target name of
                None \<Rightarrow> bindr (dns_discover_services browsed D) (\<lambda>(n, D).
                         if n = 0 then Inr (None, D)
                         else bindr (dns_discover_by_name name D) (\<lambda>s. Inr (s, D)))
              | Some (address, port) \<Rightarrow>
                  if port = 0 then Inr (None, D)
                  else bindr (dns_discover_add (en_alloc E) v (Some address) port D) (\<lambda>D.
                       bindr (dns_discover_by_name name D) (\<lambda>s. Inr (s, D)))) (\<lambda>(found_service, D).
       case found_service of None \<Rightarrow> Inr ([], D, N)
       | Some s \<Rightarrow> bindr (remote_connect_to E s N) (\<lambda>(es, N). Inr (es, D, N))))))"

definition remote_connect_teardown :: "env \<Rightarrow> net \<Rightarrow> (effect list \<times> net) result" where
  "remote_connect_teardown E N =
     bindr (config_string_get (en_config E) (Some ''remote.connect'')) (\<lambda>name.
     if name = None then Inr ([], N)
     else
       bindr (net_ctx_find_by_name (map_option string_bytes name) N) (\<lambda>(ctx, N).
       case ctx of None \<Rightarrow> Inr ([], N)
       | Some a \<Rightarrow>
           (case net_applemidi_inv_create (en_alloc E) of None \<Rightarrow> Inr ([], N)
            | Some b \<Rightarrow>
                bindr (ctx_at (nt_contexts N) a) (\<lambda>c.
                bindr (on_ctx (\<lambda>p. bindr (net_ctx_lock p) net_ctx_unlock) (Some a) N) (\<lambda>N.
                let b = b\<lparr>inv_ssrc := nc_send_ssrc c, inv_version := 2, inv_initiator := nc_initiator c\<rparr> in
                case net_applemidi_cmd_create (en_alloc E) NET_APPLEMIDI_CMD_END of None \<Rightarrow> Inr ([], N)
                | Some command \<Rightarrow>
                    bindr (pack_response (en_alloc E) (command\<lparr>ac_data := InvData b\<rparr>)) (\<lambda>response.
                    if response = None then Inr ([], N) else send_response response a True N))))))"

text \<open>The thread: before it waits it looks for the connection, and leaves when there is none; after
  the wait it leaves at a shutdown or sends a request to the one it found.\<close>

definition sync_thread_find :: "env \<Rightarrow> net \<Rightarrow> (nat option \<times> net) result" where
  "sync_thread_find E N =
     bindr (config_string_get (en_config E) (Some ''remote.connect'')) (\<lambda>name.
     net_ctx_find_by_name (map_option string_bytes name) N)"

definition use_control_for_ck :: "kv_table option \<Rightarrow> bool result" where
  "use_control_for_ck items =
     bindr (config_is_set items (Some ''remote.use_control_for_ck'')) (\<lambda>b.
     if b then bindr (config_string_get items (Some ''remote.use_control_for_ck'')) (\<lambda>v. Inr (is_yes v)) else Inr True)"

definition sync_thread_send :: "env \<Rightarrow> bool \<Rightarrow> nat \<Rightarrow> net \<Rightarrow> (effect list \<times> bool \<times> net) result" where
  "sync_thread_send E shutdown a N =
     (if shutdown then Inr ([], False, N)
      else
        bindr (use_control_for_ck (en_config E)) (\<lambda>use_control.
        bindr (ctx_at (nt_contexts N) a) (\<lambda>c.
        bindr (net_response_sync E (nc_send_ssrc c) (nc_start c)) (\<lambda>response.
        bindr (send_response response a use_control N) (\<lambda>(es, N). Inr (es, True, N))))))"


section \<open>What the setting means\<close>

definition separator :: "char \<Rightarrow> bool" where
  "separator c \<longleftrightarrow> c = CHR '']'' \<or> c = CHR '':''"

lemma scan_back_at:
  assumes "separator (buf ! p)" "0 < p" "p \<le> n" "\<And>j. p < j \<Longrightarrow> j \<le> n \<Longrightarrow> \<not> separator (buf ! j)"
  shows "scan_back buf n = p"
  using assms(3,4)
proof (induction n)
  case (Suc n)
  show ?case
  proof (cases "p = Suc n")
    case True
    with assms(1) show ?thesis by (simp add: separator_def)
  next
    case False
    with Suc.prems have "p \<le> n" "\<not> separator (buf ! Suc n)" by simp_all
    with Suc.IH Suc.prems(2) show ?thesis by (simp add: separator_def)
  qed
qed (use assms(2) in simp)

lemma scan_back_none: "(\<And>j. j \<le> n \<Longrightarrow> \<not> separator (buf ! j)) \<Longrightarrow> scan_back buf n = 0"
  by (induction n) (simp_all add: separator_def)

lemma digit_char:
  assumes "d < (10 :: nat)"
  shows "(of_char (char_of (48 + d) :: char) :: int) = 48 + int d"
proof -
  have "(of_char (char_of (48 + d) :: char) :: int) = int (of_char (char_of (48 + d) :: char) :: nat)"
    by (simp only: of_nat_of_char)
  also have "\<dots> = int ((48 + d) mod 256)" by (simp only: of_char_of)
  finally show ?thesis using assms by simp
qed

lemma atoi_digits_append: "\<forall>c\<in>set xs. 48 \<le> (of_char c :: int) \<and> (of_char c :: int) \<le> 57 \<Longrightarrow>
    atoi_digits n (xs @ ys) = atoi_digits (atoi_digits n xs) ys"
  by (induction xs arbitrary: n) auto

lemma decimal_digits:
  "(\<forall>c\<in>set (decimal n). 48 \<le> (of_char c :: int) \<and> (of_char c :: int) \<le> 57) \<and> atoi_digits 0 (decimal n) = int n"
proof (induction n rule: decimal.induct)
  case (1 n)
  have d: "(of_char (char_of (48 + n mod 10) :: char) :: int) = 48 + int (n mod 10)" by (rule digit_char) simp
  have m: "int (n mod 10) \<le> 9" by simp
  show ?case
  proof (cases "n < 10")
    case True
    then have "decimal n = [char_of (48 + n mod 10)]" by (subst decimal.simps) simp
    with d True show ?thesis by simp
  next
    case False
    with 1 have IH: "\<forall>c\<in>set (decimal (n div 10)). 48 \<le> (of_char c :: int) \<and> (of_char c :: int) \<le> 57"
      "atoi_digits 0 (decimal (n div 10)) = int (n div 10)" by blast+
    have eq: "decimal n = decimal (n div 10) @ [char_of (48 + n mod 10)]" using False by (subst decimal.simps) simp
    have "atoi_digits 0 (decimal n) = 10 * int (n div 10) + int (n mod 10)"
      unfolding eq atoi_digits_append [OF IH(1)] IH(2) using d m by simp
    moreover have "\<dots> = int n" by presburger
    ultimately show ?thesis unfolding eq using IH(1) d m by auto
  qed
qed

lemma decimal_not_nil: "decimal n \<noteq> []"
  by (subst decimal.simps) simp

lemma atoi_decimal: "atoi (decimal n) = int n"
proof -
  obtain c cs where c: "decimal n = c # cs" using decimal_not_nil [of n] by (cases "decimal n") auto
  have b: "48 \<le> (of_char c :: int)" "(of_char c :: int) \<le> 57" using decimal_digits [of n] c by simp_all
  have "(of_char c :: int) = int (of_char c :: nat)" by (simp only: of_nat_of_char)
  with b have "\<not> isspace c" by (auto simp: isspace_def)
  moreover have "c \<noteq> CHR ''-''" "c \<noteq> CHR ''+''" using b by auto
  ultimately have "atoi (decimal n) = atoi_digits 0 (decimal n)" unfolding c by (simp add: atoi_def)
  with decimal_digits [of n] show ?thesis by simp
qed

lemma decimal_plain: "c \<in> set (decimal n) \<Longrightarrow> c \<noteq> CHR 0x00 \<and> \<not> separator c"
  using decimal_digits [of n] by (auto simp: separator_def)

text \<open>A setting without separators is a name; one with a port is taken apart, in brackets or not.\<close>

lemma remote_target_name:
  assumes "\<forall>c\<in>set s. \<not> separator c"
  shows "remote_target s = None"
proof -
  have "scan_back (s @ [CHR 0x00]) (length s) = 0"
    by (rule scan_back_none) (use assms in \<open>auto simp: nth_append separator_def\<close>)
  then show ?thesis by (simp add: remote_target_def)
qed

lemma scan_back_port:
  assumes "host \<noteq> []"
  shows "scan_back ((host @ '':'' @ decimal n) @ [CHR 0x00]) (length (host @ '':'' @ decimal n)) = length host"
proof (rule scan_back_at)
  let ?s = "(host @ '':'' @ decimal n) @ [CHR 0x00]"
  show "separator (?s ! length host)" by (simp add: separator_def nth_append)
  fix j assume j: "length host < j" "j \<le> length (host @ '':'' @ decimal n)"
  then obtain i where i: "j = length host + Suc i" using less_imp_Suc_add by fastforce
  have "?s ! j = (decimal n @ [CHR 0x00]) ! i" by (simp add: i nth_append)
  moreover have "i < length (decimal n @ [CHR 0x00])" using j by (simp add: i)
  then have "(decimal n @ [CHR 0x00]) ! i \<in> set (decimal n @ [CHR 0x00])" by (rule nth_mem)
  ultimately show "\<not> separator (?s ! j)" using decimal_plain [of "?s ! j" n] by (auto simp: separator_def)
qed (use assms in auto)

lemma remote_target_port:
  assumes "host \<noteq> []" "CHR 0x00 \<notin> set host"
  shows "remote_target (host @ '':'' @ decimal n) =
    (let (buf, p1) = (if last host = CHR '']'' then
        let b = butlast host @ CHR 0x00 # CHR 0x00 # decimal n @ [CHR 0x00] in (b, scan_bracket b 0 (length host - 1))
        else (host @ CHR 0x00 # decimal n @ [CHR 0x00], 0));
      p1 = (if p1 = length host - 1 then 0 else p1)
     in Some (cstr (drop p1 buf), int n))"
proof -
  let ?s = "(host @ '':'' @ decimal n) @ [CHR 0x00]" and ?b = "host @ CHR 0x00 # decimal n @ [CHR 0x00]"
  have u: "?s[length host := CHR 0x00] = ?b" by (simp add: list_update_append)
  have c: "cstr ?b = host" by (rule cstr_append [OF assms(2)])
  have d: "cstr (drop (length host + 1) ?s) = decimal n"
    using cstr_append [of "decimal n" "[]"] decimal_plain [of "CHR 0x00" n] by auto
  have l: "?b ! (length host - 1) = last host" using assms(1) by (simp add: nth_append last_conv_nth)
  have v: "?b[length host - 1 := CHR 0x00] = butlast host @ CHR 0x00 # CHR 0x00 # decimal n @ [CHR 0x00]"
    using assms(1) by (simp add: list_update_append butlast_conv_take last_conv_nth take_update_cancel upd_conv_take_nth_drop)
  have s: "?s ! length host = CHR '':''" by (simp add: nth_append)
  have p: "scan_back ?s (length (host @ '':'' @ decimal n)) = length host" by (rule scan_back_port [OF assms(1)])
  show ?thesis
    using assms(1) unfolding remote_target_def Let_def p
    by (simp only: s u c d l v atoi_decimal if_True refl prod.case length_0_conv if_False)
qed

lemma remote_target_host:
  assumes "host \<noteq> []" "\<forall>c\<in>set host. c \<noteq> CHR 0x00 \<and> c \<noteq> CHR '']''"
  shows "remote_target (host @ '':'' @ decimal n) = Some (host, int n)"
proof -
  have z: "CHR 0x00 \<notin> set host" using assms(2) by blast
  have "last host \<noteq> CHR '']''" using assms last_in_set by blast
  then show ?thesis unfolding remote_target_port [OF assms(1) z] by (simp add: cstr_append [OF z])
qed

lemma remote_target_brackets:
  assumes "addr \<noteq> []" "CHR 0x00 \<notin> set addr"
  shows "remote_target ((CHR ''['' # addr @ '']'') @ '':'' @ decimal n) = Some (addr, int n)"
proof -
  have z: "CHR 0x00 \<notin> set (CHR ''['' # addr @ '']'')" using assms(2) by simp
  have "butlast (CHR ''['' # addr @ '']'') = CHR ''['' # addr" by (simp add: butlast_append)
  then show ?thesis
    using assms(1) unfolding remote_target_port [OF list.distinct(2) z]
    by (simp add: cstr_append [OF assms(2)] Let_def)
qed

section \<open>Connecting\<close>

lemma find_unique:
  assumes "a \<in> set xs" "P a" "\<And>b. b \<in> set xs \<Longrightarrow> P b \<Longrightarrow> b = a"
  shows "List.find P xs = Some a"
  using assms
proof (induction xs)
  case (Cons x xs)
  show ?case
  proof (cases "P x")
    case True
    then have "x = a" by (intro Cons.prems(3)) simp
    with True show ?thesis by simp
  next
    case False
    with Cons.prems(1,2) have "a \<in> set xs" by auto
    from Cons.IH [OF this Cons.prems(2,3)] False show ?thesis by simp
  qed
qed simp

definition by_initiator :: "net \<Rightarrow> 32 word \<Rightarrow> nat \<Rightarrow> bool" where
  "by_initiator N i a \<longleftrightarrow> nc_status (context_of N a) \<noteq> NET_CTX_STATUS_UNUSED \<and> nc_initiator (context_of N a) = i"

lemma find_initiator:
  assumes "net_wf N" "a \<in> set (addresses N)" "by_initiator N i a" "\<And>b. b \<in> set (addresses N) \<Longrightarrow> by_initiator N i b \<Longrightarrow> b = a"
  shows "net_ctx_find_by_initiator i N = Inr (Some a, N)"
  using find_by_initiator_ok [OF assms(1), of i] find_unique [where P = "by_initiator N i", OF assms(2-4)]
  by (simp add: by_initiator_def [abs_def])

definition inv_sent :: "32 word \<Rightarrow> 32 word \<Rightarrow> bytes \<Rightarrow> net_applemidi_command" where
  "inv_sent ssrc initiator name = \<lparr>ac_signature = 0xffff, ac_command = NET_APPLEMIDI_CMD_INV,
     ac_data = InvData \<lparr>inv_ssrc = ssrc, inv_version = 2, inv_initiator = initiator, inv_name = Some name\<rparr>\<rparr>"

definition control_sock :: "net_ctx \<Rightarrow> bytes" where
  "control_sock c = take (nc_control_address_len c) (nc_control_address c)"

definition data_sock :: "net_ctx \<Rightarrow> bytes" where
  "data_sock c = take (nc_data_address_len c) (nc_data_address c)"

lemma response_inv_service:
  assumes "env_ok E" "config_string_get (en_config E) (Some ''service.name'') = Inr v"
  shows "\<exists>r m. net_response_inv (en_alloc E) ssrc initiator (map_option string_bytes v) = Inr (Some r) \<and>
      nr_buffer r = Some m \<and> nr_len r \<le> length m \<and> nr_len r \<noteq> 0 \<and> arrives r (inv_sent ssrc initiator (service_name E ''RaveloxMIDIClient''))"
    and "\<exists>r m. net_response_inv (en_alloc E) ssrc initiator (Some (string_bytes (case v of Some s \<Rightarrow> s | None \<Rightarrow> ''RaveloxMIDIClient''))) = Inr (Some r) \<and>
      nr_buffer r = Some m \<and> nr_len r \<le> length m \<and> nr_len r \<noteq> 0 \<and> arrives r (inv_sent ssrc initiator (service_name E ''RaveloxMIDIClient''))"
proof -
  have A: "en_alloc E = mem_ok" using assms(1) by (simp add: env_ok_def)
  have n: "service_name E ''RaveloxMIDIClient'' = c_string (string_bytes (case v of Some s \<Rightarrow> s | None \<Rightarrow> ''RaveloxMIDIClient'')) @ [0]"
    using assms(2) by (cases v) (simp_all add: service_name_def)
  show "\<exists>r m. net_response_inv (en_alloc E) ssrc initiator (map_option string_bytes v) = Inr (Some r) \<and>
      nr_buffer r = Some m \<and> nr_len r \<le> length m \<and> nr_len r \<noteq> 0 \<and> arrives r (inv_sent ssrc initiator (service_name E ''RaveloxMIDIClient''))"
    using net_response_inv_ok [OF A, of "map_option string_bytes v" ssrc initiator] unfolding n inv_sent_def
    by (cases v) (simp_all add: n)
  show "\<exists>r m. net_response_inv (en_alloc E) ssrc initiator (Some (string_bytes (case v of Some s \<Rightarrow> s | None \<Rightarrow> ''RaveloxMIDIClient''))) = Inr (Some r) \<and>
      nr_buffer r = Some m \<and> nr_len r \<le> length m \<and> nr_len r \<noteq> 0 \<and> arrives r (inv_sent ssrc initiator (service_name E ''RaveloxMIDIClient''))"
    using net_response_inv_ok [OF A, of "Some (string_bytes (case v of Some s \<Rightarrow> s | None \<Rightarrow> ''RaveloxMIDIClient''))" ssrc initiator]
    unfolding n inv_sent_def by simp
qed

text \<open>The two steps of an acceptance.\<close>

lemma ok_responder_first:
  assumes wf: "net_wf N" and E: "env_ok E" and a: "a \<in> set (addresses N)"
    and find: "net_ctx_find_by_initiator (inv_initiator iv) N = Inr (Some a, N)"
    and c: "nc_status (context_of N a) = NET_CTX_STATUS_FIRST_INV" "data_sock (context_of N a) \<noteq> []"
  shows "\<exists>r N'. applemidi_ok_responder E (Some iv) N =
      Inr ([Sent \<lparr>dg_control = False, dg_address = data_sock (context_of N a), dg_bytes = wire r\<rparr>], N') \<and>
    arrives r (inv_sent (nc_send_ssrc (context_of N a)) (nc_initiator (context_of N a)) (service_name E ''RaveloxMIDIClient'')) \<and>
    net_wf N' \<and> addresses N' = addresses N \<and>
    context_of N' = (context_of N)(a := (context_of N a)\<lparr>nc_ssrc := inv_ssrc iv, nc_status := NET_CTX_STATUS_SECOND_INV\<rparr>)"
proof -
  let ?c = "context_of N a"
  from E have "config_ok (en_config E)" by (simp add: env_ok_def)
  from service_name_config [OF this] obtain v where v: "config_string_get (en_config E) (Some ''service.name'') = Inr v" .
  from response_inv_service(1) [OF E v] obtain r m where
    r: "net_response_inv (en_alloc E) (nc_send_ssrc ?c) (nc_initiator ?c) (map_option string_bytes v) = Inr (Some r)"
      "nr_buffer r = Some m" "nr_len r \<le> length m" "nr_len r \<noteq> 0"
      "arrives r (inv_sent (nc_send_ssrc ?c) (nc_initiator ?c) (service_name E ''RaveloxMIDIClient''))" by blast
  have wfc: "ctx_wf ?c" using wf a by (simp add: net_wf_def)
  then have "ctx_wf (?c\<lparr>nc_ssrc := inv_ssrc iv\<rparr>)" by (simp add: ctx_wf_def)
  from ctx_modify_ok [where f = "\<lambda>c. c\<lparr>nc_ssrc := inv_ssrc iv\<rparr>", OF wf a this] obtain N1 where
    N1: "ctx_modify a (\<lambda>c. c\<lparr>nc_ssrc := inv_ssrc iv\<rparr>) N = Inr N1" "net_wf N1" "addresses N1 = addresses N"
      "context_of N1 = (context_of N)(a := ?c\<lparr>nc_ssrc := inv_ssrc iv\<rparr>)" by blast
  have a1: "a \<in> set (addresses N1)" using a N1(3) by simp
  have s: "send_response (Some r) a False N1 =
      Inr ([Sent \<lparr>dg_control = False, dg_address = data_sock ?c, dg_bytes = wire r\<rparr>], N1)"
    by (rule send_response_ok [OF N1(2) a1 r(2-4)]) (use c(2) in \<open>simp_all add: N1(4) data_sock_def\<close>)
  have "ctx_wf ((context_of N1 a)\<lparr>nc_status := NET_CTX_STATUS_SECOND_INV\<rparr>)" using wfc by (simp add: N1(4) ctx_wf_def)
  from ctx_modify_ok [where f = "\<lambda>c. c\<lparr>nc_status := NET_CTX_STATUS_SECOND_INV\<rparr>", OF N1(2) a1 this] obtain N2 where
    N2: "ctx_modify a (\<lambda>c. c\<lparr>nc_status := NET_CTX_STATUS_SECOND_INV\<rparr>) N1 = Inr N2" "net_wf N2" "addresses N2 = addresses N1"
      "context_of N2 = (context_of N1)(a := (context_of N1 a)\<lparr>nc_status := NET_CTX_STATUS_SECOND_INV\<rparr>)" by blast
  have "applemidi_ok_responder E (Some iv) N =
      Inr ([Sent \<lparr>dg_control = False, dg_address = data_sock ?c, dg_bytes = wire r\<rparr>], N2)"
    using find c(1) net_wf_context [OF wf a] v r(1) N1(1) s N2(1) by (simp add: applemidi_ok_responder_def ctx_at_def)
  with r(5) N1(3,4) N2 show ?thesis by auto
qed

lemma ok_responder_second:
  assumes wf: "net_wf N" and E: "en_alloc E = mem_ok" and a: "a \<in> set (addresses N)"
    and find: "net_ctx_find_by_initiator (inv_initiator iv) N = Inr (Some a, N)"
    and c: "nc_status (context_of N a) = NET_CTX_STATUS_SECOND_INV" "control_sock (context_of N a) \<noteq> []"
  shows "\<exists>r s N'. applemidi_ok_responder E (Some iv) N =
      Inr ([Sent \<lparr>dg_control = True, dg_address = control_sock (context_of N a), dg_bytes = wire r\<rparr>, Sync_thread_started], N') \<and>
    arrives r (sync_packet s) \<and> sy_count s = 0 \<and> sy_ssrc s = nc_send_ssrc (context_of N a) \<and>
    sy_timestamp1 s = en_now E - nc_start (context_of N a) \<and>
    net_wf N' \<and> addresses N' = addresses N \<and>
    context_of N' = (context_of N)(a := (context_of N a)\<lparr>nc_status := NET_CTX_STATUS_REMOTE_CONNECTION\<rparr>)"
proof -
  let ?c = "context_of N a"
  let ?s = "\<lparr>sy_ssrc = nc_send_ssrc ?c, sy_count = 0, sy_padding = [0, 0, 0], sy_timestamp1 = en_now E - nc_start ?c,
     sy_timestamp2 = scast (en_random E 0), sy_timestamp3 = scast (en_random E 1)\<rparr>"
  from net_response_sync_ok [OF E, of "nc_send_ssrc ?c" "nc_start ?c"] obtain r m where
    r: "net_response_sync E (nc_send_ssrc ?c) (nc_start ?c) = Inr (Some r)" "nr_buffer r = Some m" "nr_len r \<le> length m"
      "nr_len r \<noteq> 0" "arrives r (sync_packet ?s)" by blast
  have s: "send_response (Some r) a True N =
      Inr ([Sent \<lparr>dg_control = True, dg_address = control_sock ?c, dg_bytes = wire r\<rparr>], N)"
    by (rule send_response_ok [OF wf a r(2-4)]) (use c(2) in \<open>simp_all add: control_sock_def\<close>)
  have "ctx_wf (?c\<lparr>nc_status := NET_CTX_STATUS_REMOTE_CONNECTION\<rparr>)" using wf a by (simp add: net_wf_def ctx_wf_def)
  from ctx_modify_ok [where f = "\<lambda>c. c\<lparr>nc_status := NET_CTX_STATUS_REMOTE_CONNECTION\<rparr>", OF wf a this] obtain N' where
    N': "ctx_modify a (\<lambda>c. c\<lparr>nc_status := NET_CTX_STATUS_REMOTE_CONNECTION\<rparr>) N = Inr N'" "net_wf N'" "addresses N' = addresses N"
      "context_of N' = (context_of N)(a := ?c\<lparr>nc_status := NET_CTX_STATUS_REMOTE_CONNECTION\<rparr>)" by blast
  have "applemidi_ok_responder E (Some iv) N =
      Inr ([Sent \<lparr>dg_control = True, dg_address = control_sock ?c, dg_bytes = wire r\<rparr>, Sync_thread_started], N')"
    using find c(1) net_wf_context [OF wf a] r(1) s N'(1) by (simp add: applemidi_ok_responder_def ctx_at_def)
  with r(5) N' show ?thesis by (intro exI [of _ r] exI [of _ ?s] exI [of _ N']) simp
qed

lemma ok_responder_ignored:
  assumes "net_wf N" "a \<in> set (addresses N)" "net_ctx_find_by_initiator (inv_initiator iv) N = Inr (Some a, N)"
    "nc_status (context_of N a) \<notin> {NET_CTX_STATUS_FIRST_INV, NET_CTX_STATUS_SECOND_INV}"
  shows "applemidi_ok_responder E (Some iv) N = Inr ([], N)"
  using assms net_wf_context [OF assms(1,2)] by (simp add: applemidi_ok_responder_def ctx_at_def)

lemma remote_connect_to_ok:
  assumes wf: "net_wf N" and u: "ssrc_unique N" and E: "env_ok E" and fresh: "en_address E \<notin> set (addresses N)"
    and new: "peer N (en_random E 0) = None" "\<And>b. b \<in> set (addresses N) \<Longrightarrow> \<not> by_initiator N (en_random E 1) b"
    and s: "ds_ip_address s = Some ip" "ds_name s = Some nm"
    and sock: "sock_address (en_resolve E) (Some (string_bytes ip)) (word_of_int (ds_port s)) \<noteq> []"
  shows "\<exists>r N' a c. remote_connect_to E s N =
      Inr ([Sent \<lparr>dg_control = True, dg_address = control_sock c, dg_bytes = wire r\<rparr>], N') \<and>
    arrives r (inv_sent (en_random E 0) (en_random E 1) (service_name E ''RaveloxMIDIClient'')) \<and>
    net_wf N' \<and> a \<in> set (addresses N') \<and> net_ctx_find_by_initiator (en_random E 1) N' = Inr (Some a, N') \<and>
    (\<forall>b\<in>set (addresses N'). by_initiator N' (en_random E 1) b \<longrightarrow> b = a) \<and>
    c = context_of N' a \<and> nc_status c = NET_CTX_STATUS_FIRST_INV \<and> nc_send_ssrc c = en_random E 0 \<and>
    nc_initiator c = en_random E 1 \<and> nc_start c = en_now E \<and>
    control_sock c = sock_address (en_resolve E) (Some (string_bytes ip)) (word_of_int (ds_port s)) \<and>
    data_sock c = sock_address (en_resolve E) (Some (string_bytes ip)) (word_of_int (ds_port s) + 1)"
proof -
  let ?E = "E\<lparr>en_random := (\<lambda>i. en_random E (i + 2))\<rparr>" and ?ssrc = "en_random E 0" and ?init = "en_random E 1"
    and ?port = "word_of_int (ds_port s) :: 16 word"
  let ?ip = "Some (string_bytes ip)" and ?nm = "Some (string_bytes nm)"
  have E': "env_ok ?E" using E by (simp add: env_ok_def)
  have ok: "cstring_ok ?ip" "cstring_ok ?nm" by (simp_all add: cstring_ok_def)
  have fresh': "en_address ?E \<notin> set (addresses N)" using fresh by simp
  from net_ctx_register_ok [OF wf E' ok fresh' new(1), of ?init ?port] obtain N1 a c1 where
    r: "net_ctx_register ?E ?ssrc ?init ?ip ?port ?nm N = Inr (Some a, N1)" "net_wf N1"
      "a = (case reused N of Some a \<Rightarrow> a | None \<Rightarrow> en_address ?E)"
      "addresses N1 = (case reused N of Some _ \<Rightarrow> addresses N | None \<Rightarrow> addresses N @ [a])"
      "context_of N1 = (context_of N)(a := c1)" "ctx_set_to ?E ?ssrc ?init ?ip ?port ?nm c1" by blast
  have "peer N1 ?ssrc = Some a" using register_peers(2) [OF u fresh' new(1) r(3-6), of ?ssrc] by simp
  then have a: "a \<in> set (addresses N1)" using peer_Some by blast
  from r(2) a have wf1: "ctx_wf c1" using r(5) by (auto simp: net_wf_def)
  let ?c = "c1\<lparr>nc_send_ssrc := ?ssrc, nc_status := NET_CTX_STATUS_FIRST_INV\<rparr>"
  let ?f = "\<lambda>p. bindr (net_ctx_lock p) (\<lambda>p. net_ctx_unlock (map_option (\<lambda>c.
    c\<lparr>nc_send_ssrc := ?ssrc, nc_status := NET_CTX_STATUS_FIRST_INV\<rparr>) p))"
  have "?f (Some (context_of N1 a)) = Inr (Some ?c)"
    using wf1 r(5) by (cases c1) (simp add: net_ctx_lock_def net_ctx_unlock_def ctx_wf_def)
  moreover have "ctx_wf ?c" using wf1 by (simp add: ctx_wf_def)
  ultimately obtain N2 where N2: "on_ctx ?f (Some a) N1 = Inr N2" "net_wf N2" "addresses N2 = addresses N1"
    "context_of N2 = (context_of N1)(a := ?c)" using on_ctx_ok [where f = ?f, OF r(2) a] by blast
  have a2: "a \<in> set (addresses N2)" using a N2(3) by simp
  have cx: "context_of N2 = (context_of N)(a := ?c)" using N2(4) r(5) by simp
  from E have "config_ok (en_config E)" by (simp add: env_ok_def)
  from service_name_config [OF this] obtain v where v: "config_string_get (en_config E) (Some ''service.name'') = Inr v" .
  from response_inv_service(2) [OF E v] obtain x m where
    x: "net_response_inv (en_alloc E) ?ssrc ?init (Some (string_bytes (case v of Some s \<Rightarrow> s | None \<Rightarrow> ''RaveloxMIDIClient''))) = Inr (Some x)"
      "nr_buffer x = Some m" "nr_len x \<le> length m" "nr_len x \<noteq> 0"
      "arrives x (inv_sent ?ssrc ?init (service_name E ''RaveloxMIDIClient''))" by blast
  have sk: "control_sock ?c = sock_address (en_resolve E) ?ip ?port" "data_sock ?c = sock_address (en_resolve E) ?ip (?port + 1)"
    using r(6) by (simp_all add: ctx_set_to_def control_sock_def data_sock_def)
  have send: "send_response (Some x) a True N2 =
      Inr ([Sent \<lparr>dg_control = True, dg_address = control_sock ?c, dg_bytes = wire x\<rparr>], N2)"
    by (rule send_response_ok [OF N2(2) a2 x(2-4)]) (use sock sk in \<open>simp_all add: cx control_sock_def\<close>)
  have only: "b = a" if "b \<in> set (addresses N2)" "by_initiator N2 ?init b" for b
  proof (rule ccontr)
    assume "b \<noteq> a"
    with that r(4) N2(3) have "b \<in> set (addresses N)" "by_initiator N ?init b"
      by (auto simp: by_initiator_def cx split: option.splits)
    with new(2) show False by blast
  qed
  have "by_initiator N2 ?init a" using r(6) by (simp add: by_initiator_def cx ctx_set_to_def)
  from find_initiator [OF N2(2) a2 this only] have f: "net_ctx_find_by_initiator ?init N2 = Inr (Some a, N2)" .
  have "remote_connect_to E s N = Inr ([Sent \<lparr>dg_control = True, dg_address = control_sock ?c, dg_bytes = wire x\<rparr>], N2)"
    using v x(1) r(1) N2(1) send s by (simp add: remote_connect_to_def Let_def)
  with x(5) N2(2) a2 f only sk r(6) show ?thesis
    by (intro exI [of _ x] exI [of _ N2] exI [of _ a] exI [of _ ?c]) (simp add: cx ctx_set_to_def)
qed

section \<open>Properties\<close>

text \<open>The setting \<^verbatim>\<open>remote.connect\<close> is the name of a service when it has no colon or bracket; with a
  port it is taken apart into host and port, also for an address in brackets, whose own colons
  stay in it.\<close>
theorem remote_target_parts:
  assumes "\<forall>c\<in>set host. c \<noteq> CHR 0x00 \<and> \<not> separator c" "host \<noteq> []" "CHR 0x00 \<notin> set addr" "addr \<noteq> []"
  shows "remote_target host = None \<and> remote_target (host @ '':'' @ decimal n) = Some (host, int n) \<and>
    remote_target (''['' @ addr @ '']:'' @ decimal n) = Some (addr, int n)"
  using remote_target_name [of host] remote_target_host [of host n] remote_target_brackets [OF assms(4,3), of n] assms(1,2)
  by (auto simp: separator_def)

theorem remote_target_parts_witness:
  "remote_target (''[::1]:'' @ decimal 5004) = Some (''::1'', 5004)"
  using remote_target_parts [of "''host''" "''::1''" 5004] by (simp add: separator_def)

text \<open>C21: Connecting to a service takes the handshake of the protocol: an invitation to its control port;
  at the first acceptance an invitation with the same tokens to the data port, one above, and
  the peer's SSRC is kept; at the second a synchronisation request to the control port and the
  start of the thread that repeats it. The status follows, and further acceptances do nothing. The name
  that the invitations give is that of the key \<^verbatim>\<open>service.name\<close>: the key \<^verbatim>\<open>client.name\<close>, which the README
  documents for this, is read nowhere.\<close>

theorem client_handshake:
  assumes "net_wf N" "ssrc_unique N" "env_ok E" "env_ok E1" "env_ok E2" "en_address E \<notin> set (addresses N)"
    and "peer N (en_random E 0) = None" "\<forall>b\<in>set (addresses N). \<not> by_initiator N (en_random E 1) b"
    and "ds_ip_address s = Some ip" "ds_name s = Some nm"
    and "control = sock_address (en_resolve E) (Some (string_bytes ip)) (word_of_int (ds_port s))" "control \<noteq> []"
    and "dataport = sock_address (en_resolve E) (Some (string_bytes ip)) (word_of_int (ds_port s) + 1)" "dataport \<noteq> []"
    and "inv_initiator iv1 = en_random E 1" "inv_initiator iv2 = en_random E 1" "inv_initiator iv3 = en_random E 1"
  shows "\<exists>N1 N2 N3 a r1 r2 r3 sync.
    remote_connect_to E s N = Inr ([Sent \<lparr>dg_control = True, dg_address = control, dg_bytes = wire r1\<rparr>], N1) \<and>
    arrives r1 (inv_sent (en_random E 0) (en_random E 1) (service_name E ''RaveloxMIDIClient'')) \<and>
    nc_status (context_of N1 a) = NET_CTX_STATUS_FIRST_INV \<and>
    applemidi_ok_responder E1 (Some iv1) N1 = Inr ([Sent \<lparr>dg_control = False, dg_address = dataport, dg_bytes = wire r2\<rparr>], N2) \<and>
    arrives r2 (inv_sent (en_random E 0) (en_random E 1) (service_name E1 ''RaveloxMIDIClient'')) \<and>
    nc_status (context_of N2 a) = NET_CTX_STATUS_SECOND_INV \<and> nc_ssrc (context_of N2 a) = inv_ssrc iv1 \<and>
    applemidi_ok_responder E2 (Some iv2) N2 =
      Inr ([Sent \<lparr>dg_control = True, dg_address = control, dg_bytes = wire r3\<rparr>, Sync_thread_started], N3) \<and>
    arrives r3 (sync_packet sync) \<and> sy_count sync = 0 \<and> sy_ssrc sync = en_random E 0 \<and>
    sy_timestamp1 sync = en_now E2 - en_now E \<and>
    nc_status (context_of N3 a) = NET_CTX_STATUS_REMOTE_CONNECTION \<and> net_wf N3 \<and>
    applemidi_ok_responder E3 (Some iv3) N3 = Inr ([], N3)"
proof -
  let ?i = "en_random E 1"
  have new: "\<And>b. b \<in> set (addresses N) \<Longrightarrow> \<not> by_initiator N ?i b" using assms(8) by blast
  from remote_connect_to_ok [OF assms(1-3,6,7) new assms(9,10)] assms(11-14) obtain r1 N1 a c where
    N1: "remote_connect_to E s N = Inr ([Sent \<lparr>dg_control = True, dg_address = control_sock c, dg_bytes = wire r1\<rparr>], N1)"
      "arrives r1 (inv_sent (en_random E 0) ?i (service_name E ''RaveloxMIDIClient''))" "net_wf N1" "a \<in> set (addresses N1)"
      "net_ctx_find_by_initiator ?i N1 = Inr (Some a, N1)" "\<forall>b\<in>set (addresses N1). by_initiator N1 ?i b \<longrightarrow> b = a"
      "c = context_of N1 a" "nc_status c = NET_CTX_STATUS_FIRST_INV" "nc_send_ssrc c = en_random E 0" "nc_initiator c = ?i"
      "nc_start c = en_now E" "control_sock c = control" "data_sock c = dataport" by metis
  have f1: "net_ctx_find_by_initiator (inv_initiator iv1) N1 = Inr (Some a, N1)" using N1(5) assms(15) by simp
  have c1: "nc_status (context_of N1 a) = NET_CTX_STATUS_FIRST_INV" "data_sock (context_of N1 a) \<noteq> []" using N1 assms(14) by simp_all
  from ok_responder_first [OF N1(3) assms(4) N1(4) f1 c1] obtain r2 N2 where
    N2: "applemidi_ok_responder E1 (Some iv1) N1 =
        Inr ([Sent \<lparr>dg_control = False, dg_address = data_sock (context_of N1 a), dg_bytes = wire r2\<rparr>], N2)"
      "arrives r2 (inv_sent (nc_send_ssrc (context_of N1 a)) (nc_initiator (context_of N1 a)) (service_name E1 ''RaveloxMIDIClient''))"
      "net_wf N2" "addresses N2 = addresses N1"
      "context_of N2 = (context_of N1)(a := (context_of N1 a)\<lparr>nc_ssrc := inv_ssrc iv1, nc_status := NET_CTX_STATUS_SECOND_INV\<rparr>)"
    by blast
  have again: "net_ctx_find_by_initiator ?i N' = Inr (Some a, N')"
    if N': "net_wf N'" "addresses N' = addresses N1" "context_of N' = (context_of N1)(a := d)" "nc_status d \<noteq> NET_CTX_STATUS_UNUSED"
      "nc_initiator d = ?i" for N' d
  proof (rule find_initiator [OF N'(1)])
    show "a \<in> set (addresses N')" "by_initiator N' ?i a" using N1(4) N' by (simp_all add: by_initiator_def)
    show "b = a" if b: "b \<in> set (addresses N')" "by_initiator N' ?i b" for b
    proof (rule ccontr)
      assume "b \<noteq> a"
      then have "by_initiator N1 ?i b" using b(2) by (simp only: by_initiator_def N'(3) fun_upd_other not_False_eq_True)
      moreover have "b \<in> set (addresses N1)" using b(1) by (simp only: N'(2))
      ultimately show False using N1(6) \<open>b \<noteq> a\<close> by blast
    qed
  qed
  have a2: "a \<in> set (addresses N2)" using N1(4) N2(4) by simp
  have f2: "net_ctx_find_by_initiator (inv_initiator iv2) N2 = Inr (Some a, N2)"
    using again [OF N2(3,4,5)] N1 assms(16) by simp
  have c2: "nc_status (context_of N2 a) = NET_CTX_STATUS_SECOND_INV" "control_sock (context_of N2 a) \<noteq> []"
    using N1 assms(12) by (simp_all add: N2(5) control_sock_def)
  have A2: "en_alloc E2 = mem_ok" using assms(5) by (simp add: env_ok_def)
  from ok_responder_second [OF N2(3) A2 a2 f2 c2] obtain r3 sy N3 where
    N3: "applemidi_ok_responder E2 (Some iv2) N2 =
        Inr ([Sent \<lparr>dg_control = True, dg_address = control_sock (context_of N2 a), dg_bytes = wire r3\<rparr>, Sync_thread_started], N3)"
      "arrives r3 (sync_packet sy)" "sy_count sy = 0" "sy_ssrc sy = nc_send_ssrc (context_of N2 a)"
      "sy_timestamp1 sy = en_now E2 - nc_start (context_of N2 a)" "net_wf N3" "addresses N3 = addresses N2"
      "context_of N3 = (context_of N2)(a := (context_of N2 a)\<lparr>nc_status := NET_CTX_STATUS_REMOTE_CONNECTION\<rparr>)" by blast
  have cx3: "context_of N3 = (context_of N1)(a := c\<lparr>nc_ssrc := inv_ssrc iv1, nc_status := NET_CTX_STATUS_REMOTE_CONNECTION\<rparr>)"
    using N3(8) N2(5) N1(7) by simp
  have a3: "a \<in> set (addresses N3)" using a2 N3(7) by simp
  have f3: "net_ctx_find_by_initiator (inv_initiator iv3) N3 = Inr (Some a, N3)"
    using again [OF N3(6) _ cx3] N3(7) N2(4) N1 assms(17) by simp
  have "applemidi_ok_responder E3 (Some iv3) N3 = Inr ([], N3)"
    by (rule ok_responder_ignored [OF N3(6) a3 f3]) (simp add: cx3)
  moreover have e: "control_sock (context_of N2 a) = control" "data_sock (context_of N1 a) = dataport"
    "control_sock c = control" "sy_ssrc sy = en_random E 0" "sy_timestamp1 sy = en_now E2 - en_now E"
    "nc_send_ssrc (context_of N1 a) = en_random E 0" "nc_initiator (context_of N1 a) = ?i"
    using N1(7-13) N3(4,5) by (simp_all add: N2(5) control_sock_def)
  moreover have "nc_status (context_of N2 a) = NET_CTX_STATUS_SECOND_INV" "nc_ssrc (context_of N2 a) = inv_ssrc iv1"
    "nc_status (context_of N3 a) = NET_CTX_STATUS_REMOTE_CONNECTION" by (simp_all add: N2(5) cx3)
  ultimately show ?thesis
    using N1(1) [unfolded e] N1(2) N2(1,2) [unfolded e] N3(1) [unfolded e] N3(2,3,6) c1(1)
    by (intro exI [of _ N1] exI [of _ N2] exI [of _ N3] exI [of _ a] exI [of _ r1] exI [of _ r2] exI [of _ r3] exI [of _ sy] conjI) assumption+
qed

definition service_example :: dns_service where
  "service_example = \<lparr>ds_name = Some ''piano'', ds_ip_address = Some ''::1'', ds_port = 5004\<rparr>"

definition env_client :: env where
  "env_client = env_example\<lparr>en_random := (\<lambda>i. of_nat i)\<rparr>"

theorem client_handshake_witness:
  "\<exists>N1 N2 r1 r2. remote_connect_to env_client service_example net_start =
      Inr ([Sent \<lparr>dg_control = True, dg_address = replicate 16 1, dg_bytes = wire r1\<rparr>], N1) \<and>
    applemidi_ok_responder env_example (Some (inv_example\<lparr>inv_initiator := 1\<rparr>)) N1 =
      Inr ([Sent \<lparr>dg_control = False, dg_address = replicate 16 1, dg_bytes = wire r2\<rparr>], N2)"
proof -
  let ?iv = "inv_example\<lparr>inv_initiator := 1\<rparr>"
  have ok: "env_ok env_client" using env_example_ok by (simp add: env_client_def env_ok_def)
  have sock: "replicate 16 1 = sock_address (en_resolve env_client) (Some b) p" for b p
    by (simp add: env_client_def env_example_def sock_address_def)
  have ini: "inv_initiator ?iv = en_random env_client 1" by (simp add: env_client_def)
  have fresh: "en_address env_client \<notin> set (addresses net_start)" "peer net_start x = None"
    "\<forall>b\<in>set (addresses net_start). \<not> by_initiator net_start y b" for x y
    by (simp_all add: net_start_wf(3) peer_def)
  have s: "ds_ip_address service_example = Some ''::1''" "ds_name service_example = Some ''piano''"
    by (simp_all add: service_example_def)
  have ne: "replicate 16 1 \<noteq> ([] :: byte list)" by simp
  from client_handshake [OF net_start_wf(1,2) ok env_example_ok env_example_ok fresh s sock ne sock ne ini ini ini, of env_example]
  show ?thesis by (elim exE conjE) (rule exI, rule exI, rule exI, rule exI, rule conjI, assumption, assumption)
qed
end
