(* ===== verification/Socket_Safety.thy ===== *)
theory Socket_Safety
  imports Socket_Read Remote_Connection
begin

text \<open>
  Which datagrams the program survives: the responders keep the connections well formed whatever
  command they are given, and reading a datagram from a peer is without fault exactly when the datagram
  is one that can be unpacked.
\<close>

unbundle bit_operations_syntax

section \<open>The responders\<close>

definition responded :: "env \<Rightarrow> net \<Rightarrow> net_response option \<Rightarrow> net \<Rightarrow> bool" where
  "responded E N response N' \<longleftrightarrow> (\<forall>r. response = Some r \<longrightarrow> response_ok r) \<and> net_wf N' \<and>
     set (addresses N') \<subseteq> insert (en_address E) (set (addresses N))"

lemma responded_same: "net_wf N \<Longrightarrow> responded E N None N"
  by (auto simp: responded_def)

lemma respond_inv:
  assumes "net_wf N" "env_ok E" "cstring_ok ip" "cstring_ok (inv_name iv)" "en_address E \<notin> set (addresses N)"
  shows "\<exists>response N'. applemidi_inv_responder E ip port (Some iv) N = Inr (response, N') \<and> responded E N response N'"
proof (cases "peer N (inv_ssrc iv)")
  case (Some a)
  then have "a \<in> set (addresses N)" using peer_Some by blast
  with applemidi_inv_reply [OF assms(1,2,4), of ip port a N] Some assms(1) show ?thesis by (auto simp: responded_def)
next
  case None
  from net_ctx_register_ok [OF assms None, of "inv_initiator iv" port] obtain N' a where
    r: "net_ctx_register E (inv_ssrc iv) (inv_initiator iv) ip port (inv_name iv) N = Inr (Some a, N')" "net_wf N'"
      "a = (case reused N of Some a \<Rightarrow> a | None \<Rightarrow> en_address E)"
      "addresses N' = (case reused N of Some _ \<Rightarrow> addresses N | None \<Rightarrow> addresses N @ [a])" by blast
  have "a \<in> set (addresses N')" "set (addresses N') \<subseteq> insert (en_address E) (set (addresses N))"
    using r(3,4) reused_Some by (auto split: option.splits)
  with applemidi_inv_reply [OF assms(1,2,4), of ip port a N'] r None show ?thesis by (auto simp: responded_def)
qed

lemma send_response_safe:
  assumes "net_wf N" "a \<in> set (addresses N)" "nr_buffer r = Some m" "nr_len r \<le> length m"
  shows "\<exists>es. send_response (Some r) a use_control N = Inr (es, N)"
proof -
  let ?c = "context_of N a"
  from assms(1,2) have c: "nt_contexts N a = Some ?c" "ctx_wf ?c" using net_wf_context by (auto simp: net_wf_def)
  from c(2) have h: "\<not> nc_held ?c" and len: "nc_control_address_len ?c \<le> length (nc_control_address ?c)"
    "nc_data_address_len ?c \<le> length (nc_data_address ?c)" by (simp_all add: ctx_wf_def)
  with assms(3,4) have "\<exists>ds. net_ctx_send (Some ?c) (nr_buffer r) (nr_len r) use_control = Inr (ds, Some ?c)"
    by (cases ?c) (auto simp: net_ctx_send_def locked_def net_ctx_lock_def net_ctx_unlock_def)
  with c(1) show ?thesis by (auto simp: send_response_def ctx_at_def same_context)
qed

lemma respond_ok:
  assumes wf: "net_wf N" and E: "env_ok E"
  shows "\<exists>es N'. applemidi_ok_responder E (Some iv) N = Inr (es, N') \<and> responded E N None N'"
proof -
  let ?found = "List.find (by_initiator N (inv_initiator iv)) (addresses N)"
  have find: "net_ctx_find_by_initiator (inv_initiator iv) N = Inr (?found, N)"
    using find_by_initiator_ok [OF wf, of "inv_initiator iv"] by (simp add: by_initiator_def [abs_def])
  have A: "en_alloc E = mem_ok" "config_ok (en_config E)" using E by (simp_all add: env_ok_def)
  show ?thesis
  proof (cases ?found)
    case None
    with find wf show ?thesis by (simp add: applemidi_ok_responder_def responded_same)
  next
    case (Some a)
    then have a: "a \<in> set (addresses N)" by (auto simp: find_Some_iff)
    with find Some have fa: "net_ctx_find_by_initiator (inv_initiator iv) N = Inr (Some a, N)" by simp
    let ?c = "context_of N a"
    have c: "ctx_at (nt_contexts N) a = Inr ?c" using net_wf_context [OF wf a] by (simp add: ctx_at_def)
    have wfc: "ctx_wf (?c\<lparr>nc_ssrc := s\<rparr>)" "ctx_wf (?c\<lparr>nc_status := x\<rparr>)" "ctx_wf (?c\<lparr>nc_ssrc := s, nc_status := x\<rparr>)" for s x
      using wf a by (simp_all add: net_wf_def ctx_wf_def)
    consider "nc_status ?c = NET_CTX_STATUS_FIRST_INV" | "nc_status ?c = NET_CTX_STATUS_SECOND_INV"
      | "nc_status ?c \<notin> {NET_CTX_STATUS_FIRST_INV, NET_CTX_STATUS_SECOND_INV}" by blast
    then show ?thesis
    proof cases
      case 1
      from service_name_config [OF A(2)] obtain v where v: "config_string_get (en_config E) (Some ''service.name'') = Inr v" .
      from response_inv_service(1) [OF E v] obtain r m where
        r: "net_response_inv (en_alloc E) (nc_send_ssrc ?c) (nc_initiator ?c) (map_option string_bytes v) = Inr (Some r)"
          "nr_buffer r = Some m" "nr_len r \<le> length m" by blast
      from ctx_modify_ok [where f = "\<lambda>c. c\<lparr>nc_ssrc := inv_ssrc iv\<rparr>", OF wf a wfc(1)] obtain N1 where
        N1: "ctx_modify a (\<lambda>c. c\<lparr>nc_ssrc := inv_ssrc iv\<rparr>) N = Inr N1" "net_wf N1" "addresses N1 = addresses N"
          "context_of N1 = (context_of N)(a := ?c\<lparr>nc_ssrc := inv_ssrc iv\<rparr>)" by blast
      have a1: "a \<in> set (addresses N1)" using a N1(3) by simp
      from send_response_safe [OF N1(2) a1 r(2,3)] obtain es where es: "send_response (Some r) a False N1 = Inr (es, N1)" by blast
      have "ctx_wf ((context_of N1 a)\<lparr>nc_status := NET_CTX_STATUS_SECOND_INV\<rparr>)" using wfc(3) by (simp add: N1(4))
      from ctx_modify_ok [where f = "\<lambda>c. c\<lparr>nc_status := NET_CTX_STATUS_SECOND_INV\<rparr>", OF N1(2) a1 this] obtain N2 where
        N2: "ctx_modify a (\<lambda>c. c\<lparr>nc_status := NET_CTX_STATUS_SECOND_INV\<rparr>) N1 = Inr N2" "net_wf N2" "addresses N2 = addresses N1"
        by blast
      have "applemidi_ok_responder E (Some iv) N = Inr (es, N2)"
        using fa c 1 v r(1) N1(1) es N2(1) by (simp add: applemidi_ok_responder_def)
      with N1(3) N2 show ?thesis by (auto simp: responded_def)
    next
      case 2
      from net_response_sync_ok [OF A(1), of "nc_send_ssrc ?c" "nc_start ?c"] obtain r m where
        r: "net_response_sync E (nc_send_ssrc ?c) (nc_start ?c) = Inr (Some r)" "nr_buffer r = Some m" "nr_len r \<le> length m" by blast
      from send_response_safe [OF wf a r(2,3)] obtain es where es: "send_response (Some r) a True N = Inr (es, N)" by blast
      from ctx_modify_ok [where f = "\<lambda>c. c\<lparr>nc_status := NET_CTX_STATUS_REMOTE_CONNECTION\<rparr>", OF wf a wfc(2)] obtain N' where
        N': "ctx_modify a (\<lambda>c. c\<lparr>nc_status := NET_CTX_STATUS_REMOTE_CONNECTION\<rparr>) N = Inr N'" "net_wf N'" "addresses N' = addresses N"
        by blast
      have "applemidi_ok_responder E (Some iv) N = Inr (es @ [Sync_thread_started], N')"
        using fa c 2 r(1) es N'(1) by (simp add: applemidi_ok_responder_def)
      with N' show ?thesis by (auto simp: responded_def)
    next
      case 3
      from ok_responder_ignored [OF wf a fa 3] wf show ?thesis by (simp add: responded_same)
    qed
  qed
qed

lemma respond_by:
  assumes "net_wf N" "env_ok E"
  shows "\<exists>N'. applemidi_by_responder E (Some iv) N = Inr N' \<and> responded E N None N'"
proof (cases "peer N (inv_ssrc iv)")
  case None
  with assms find_by_ssrc_ok [OF assms(1), of "inv_ssrc iv"] show ?thesis
    by (simp add: applemidi_by_responder_def responded_same)
next
  case (Some a)
  then have a: "a \<in> set (addresses N)" using peer_Some by blast
  with assms(1) have "ctx_wf (context_of N a)" by (simp add: net_wf_def)
  from net_ctx_reset_ok [OF this, of E] assms(2) obtain c where
    "net_ctx_reset E (Some (context_of N a)) = Inr (Some c)" "ctx_wf c" by (auto simp: env_ok_def)
  from on_ctx_ok [where f = "net_ctx_reset E", OF assms(1) a this] Some find_by_ssrc_ok [OF assms(1), of "inv_ssrc iv"]
  show ?thesis by (auto simp: applemidi_by_responder_def responded_def)
qed

lemma respond_sync:
  assumes "net_wf N" "env_ok E" "length (sy_padding s) = 3"
  shows "\<exists>response. applemidi_sync_responder sgn_char E (Some s) N = Inr (response, N) \<and> responded E N response N"
proof (cases "peer N (sy_ssrc s)")
  case None
  with assms(1) find_by_ssrc_ok [OF assms(1), of "sy_ssrc s"] show ?thesis
    by (simp add: applemidi_sync_responder_def responded_same)
next
  case (Some a)
  have "en_alloc E = mem_ok" using assms(2) by (simp add: env_ok_def)
  from sync_responder_ok [OF assms(1) this Some assms(3)] sync_responder_done [OF assms(1) Some, of sgn_char E] assms(1)
  show ?thesis by (cases "char_value sgn_char (sy_count s) = 2") (auto simp: responded_def)
qed

lemma respond_feedback:
  assumes "net_wf N"
  shows "\<exists>N'. applemidi_feedback_responder (Some f) N = Inr N' \<and> responded E N None N'"
proof (cases "peer N (fb_ssrc f)")
  case None
  with assms find_by_ssrc_ok [OF assms, of "fb_ssrc f"] show ?thesis
    by (simp add: applemidi_feedback_responder_def responded_same)
next
  case (Some a)
  from feedback_responder_ok [OF assms Some] assms show ?thesis
    by (auto simp: responded_def split: if_splits)
qed

text \<open>Whatever was unpacked.\<close>

definition command_readable :: "net_applemidi_command \<Rightarrow> bool" where
  "command_readable c \<longleftrightarrow> data_fits (ac_command c) (ac_data c) \<or>
     \<not> inv_command (ac_command c) \<and> ac_command c \<notin> {NET_APPLEMIDI_CMD_SYNC, NET_APPLEMIDI_CMD_FEEDBACK, NET_APPLEMIDI_CMD_BITRATE} \<and>
     ac_data c \<noteq> WildData"

lemma fits_cstring: "data_fits (ac_command c) (InvData iv) \<Longrightarrow> cstring_ok (inv_name iv)"
  by (auto simp: cstring_ok_def split: option.splits) (metis last_in_set)

lemma session_respond_safe:
  assumes wf: "net_wf N" and E: "env_ok E" "cstring_ok (rc_ip_address rc)" "en_address E \<notin> set (addresses N)"
    and c: "command_readable c"
  shows "\<exists>response es N'. session_respond M E rc c N = Inr (response, es, N') \<and> responded E N response N'"
proof (cases "data_fits (ac_command c) (ac_data c)")
  case False
  then have "\<not> inv_command (ac_command c)" "ac_command c \<noteq> NET_APPLEMIDI_CMD_SYNC" "ac_command c \<noteq> NET_APPLEMIDI_CMD_FEEDBACK"
    using c by (auto simp: command_readable_def)
  with wf show ?thesis by (auto simp: session_respond_def inv_command_def responded_same)
next
  case fits: True
  show ?thesis
  proof (cases "ac_data c")
    case (InvData iv)
    with fits have cs: "cstring_ok (inv_name iv)" "inv_command (ac_command c)" using fits_cstring by auto
    then have "ac_command c \<noteq> NET_APPLEMIDI_CMD_SYNC" "ac_command c \<noteq> NET_APPLEMIDI_CMD_FEEDBACK" by auto
    with InvData respond_inv [OF wf E(1,2) cs(1) E(3), of "rc_port rc"] respond_ok [OF wf E(1), of iv] respond_by [OF wf E(1), of iv]
      responded_same [OF wf, of E] show ?thesis by (auto simp: session_respond_def as_inv_def)
  next
    case (SyncData s)
    with fits have s: "ac_command c = NET_APPLEMIDI_CMD_SYNC" "length (sy_padding s) = 3" by simp_all
    with SyncData respond_sync [OF wf E(1) s(2), of "mc_sgn_char M"] show ?thesis
      by (auto simp: session_respond_def as_sync_def applemidi_codes)
  next
    case (FeedbackData f)
    with fits respond_feedback [OF wf, of f E] show ?thesis
      by (auto simp: session_respond_def as_feedback_def applemidi_codes)
  next
    case (BitrateData b)
    with fits responded_same [OF wf, of E] show ?thesis by (auto simp: session_respond_def applemidi_codes)
  qed (use fits in simp_all)
qed

section \<open>Session commands\<close>

text \<open>The octets that are unpacked to a command the responders can take. \<open>wild\<close> is what the data pointer
  of a command of unknown kind happens to be.\<close>

definition session_readable :: "command_data \<Rightarrow> bytes \<Rightarrow> bool" where
  "session_readable wild xs \<longleftrightarrow> 4 \<le> length xs \<and>
     (let code = be_word (take 2 (drop 2 xs)) :: 16 word in
      if inv_command code then length xs = 16 \<or> 16 < length xs \<and> 0 \<in> set (drop 16 xs)
      else if code = NET_APPLEMIDI_CMD_FEEDBACK \<or> code = NET_APPLEMIDI_CMD_BITRATE then 12 \<le> length xs
      else if code = NET_APPLEMIDI_CMD_SYNC then 36 \<le> length xs
      else wild \<noteq> WildData)"

lemma unpack_readable:
  assumes ptr: "ptr = 4 \<or> ptr = 8"
  shows "if session_readable wild xs
    then \<exists>ret c. net_applemidi_unpack mem_ok ptr wild (Some xs) (length xs) = Inr (ret, Some c) \<and> command_readable c
    else (\<exists>f. net_applemidi_unpack mem_ok ptr wild (Some xs) (length xs) = Inl f) \<or>
      (\<exists>ret. net_applemidi_unpack mem_ok ptr wild (Some xs) (length xs) = Inr (ret, None)) \<or>
      (\<exists>ret c. net_applemidi_unpack mem_ok ptr wild (Some xs) (length xs) = Inr (ret, Some c) \<and>
        \<not> inv_command (ac_command c) \<and> ac_data c = WildData)"
proof (cases "length xs < 4")
  case True
  then show ?thesis by (simp add: session_readable_def net_applemidi_unpack_def)
next
  case len: False
  let ?code = "be_word (take 2 (drop 2 xs)) :: 16 word"
  note un = net_applemidi_unpack_def Let_def
  consider (inv) "inv_command ?code" | (feedback) "\<not> inv_command ?code" "?code = NET_APPLEMIDI_CMD_FEEDBACK"
    | (bitrate) "\<not> inv_command ?code" "?code = NET_APPLEMIDI_CMD_BITRATE" | (sync) "\<not> inv_command ?code" "?code = NET_APPLEMIDI_CMD_SYNC"
    | (other) "\<not> inv_command ?code" "?code \<noteq> NET_APPLEMIDI_CMD_FEEDBACK" "?code \<noteq> NET_APPLEMIDI_CMD_BITRATE" "?code \<noteq> NET_APPLEMIDI_CMD_SYNC"
    by blast
  then show ?thesis
  proof cases
    case inv
    consider "length xs < 20 - ptr" | "20 - ptr \<le> length xs" "length xs < 16" | "length xs = 16" | "16 < length xs"
      using ptr by linarith
    then show ?thesis
    proof cases
      case 1
      with len inv ptr show ?thesis by (auto simp: un session_readable_def eval_nat_numeral)
    next
      case 2
      then have "ptr = 8" using ptr by auto
      with 2 len inv show ?thesis
        by (auto simp: un session_readable_def net_applemidi_inv_create_def unpack_inv_def simp del: add_2_eq_Suc add_2_eq_Suc')
    next
      case 3
      with len inv ptr show ?thesis
        by (auto simp: un session_readable_def command_readable_def net_applemidi_inv_create_def unpack_inv_def
            simp del: add_2_eq_Suc add_2_eq_Suc')
    next
      case 4
      with len inv ptr show ?thesis
        by (cases "0 \<in> set (drop 16 xs)")
          (auto simp: un session_readable_def command_readable_def net_applemidi_inv_create_def unpack_inv_def c_strlen_fault c_string_no_0
            simp del: add_2_eq_Suc add_2_eq_Suc')
    qed
  next
    case feedback
    with len show ?thesis
      by (cases "length xs < 12")
        (auto simp: un session_readable_def command_readable_def unpack_feedback_def simp del: add_2_eq_Suc add_2_eq_Suc')
  next
    case bitrate
    with len show ?thesis
      by (cases "length xs < 12")
        (auto simp: un session_readable_def command_readable_def unpack_bitrate_def simp del: add_2_eq_Suc add_2_eq_Suc')
  next
    case sync
    with len show ?thesis
      by (cases "length xs < 36")
        (auto simp: un session_readable_def command_readable_def unpack_sync_def simp del: add_2_eq_Suc add_2_eq_Suc')
  next
    case other
    with len show ?thesis
      by (auto simp: un session_readable_def command_readable_def simp del: add_2_eq_Suc add_2_eq_Suc')
  qed
qed

text \<open>The commands among the effects, each with its context, and what reading leaves of the contexts.\<close>

definition queued_of :: "socket_effect list \<Rightarrow> (midi_command \<times> nat option) list" where
  "queued_of es = concat (map (\<lambda>e. case e of Queued c x \<Rightarrow> [(c, x)] | _ \<Rightarrow> []) es)"

lemma queued_of_simps [simp]:
  "queued_of [] = []" "queued_of (Reply b # es) = queued_of es" "queued_of (Peer e # es) = queued_of es"
  "queued_of (Queued c x # es) = (c, x) # queued_of es" "queued_of (Shutdown_signal # es) = queued_of es"
  "queued_of (es @ es') = queued_of es @ queued_of es'" "queued_of (map Peer ps) = []"
  "queued_of (queued a cs) = map (\<lambda>c. (c, Some a)) cs"
  by (simp_all add: queued_of_def queued_def comp_def)

definition taken :: "nat \<Rightarrow> socket_effect list \<Rightarrow> sender_store \<Rightarrow> sender_store \<Rightarrow> bool" where
  "taken a es S S' \<longleftrightarrow> (\<exists>cs d. queued_of es = map (\<lambda>c. (c, Some a)) cs \<and> contexts_after a d (length cs) S S' \<and>
     (\<forall>c\<in>set cs. command_marked c))"

lemma taken_none: "S a = None \<Longrightarrow> queued_of es = [] \<Longrightarrow> taken a es S S"
  unfolding taken_def by (intro exI [of _ "[]"] exI) (simp add: contexts_after_def)

lemma reply_queued: "reply response = Inr rs \<Longrightarrow> queued_of rs = []"
  by (auto simp: reply_def result_simps split: option.splits if_splits)

lemma reply_responded: "responded E N response N' \<Longrightarrow> \<exists>rs. reply response = Inr rs"
  using reply_ok by (cases response) (auto simp: responded_def reply_def)

lemma read_applemidi_safe:
  assumes st: "parser_wf st" "unread st = xs" "ring_capacity (ms_ring st) = n" "xs \<noteq> []"
    and N: "net_wf N" and E: "env_ok E" "cstring_ok (rc_ip_address rc)" "en_address E \<notin> set (addresses N)"
    and ptr: "mc_ptr_size M = 4 \<or> mc_ptr_size M = 8"
  shows "if session_readable (mc_wild M) xs
    then \<exists>ret es st' N'. read_applemidi M E rc (Some st) N = Inr (ret, es, Some st', N') \<and> midi_ready n st' \<and>
      responded E N None N' \<and> queued_of es = []
    else \<exists>f. read_applemidi M E rc (Some st) N = Inl f"
proof -
  have A: "en_alloc E = mem_ok" using E(1) by (simp add: env_ok_def)
  from state_drain_ok [OF st(1)] st(2-4) obtain st1 where
    st1: "midi_state_drain mem_ok (Some st) = Inr (Some xs, length xs, Some st1)" "midi_ready n st1" by auto
  have r: "read_applemidi M E rc (Some st) N =
      bindr (net_applemidi_unpack mem_ok (mc_ptr_size M) (mc_wild M) (Some xs) (length xs)) (\<lambda>(ret, command).
      bindr (deref command) (\<lambda>command.
      bindr (session_respond M E rc command N) (\<lambda>(response, es, N).
      bindr (reply response) (\<lambda>rs.
      bindr (net_applemidi_cmd_destroy (Some command)) (\<lambda>_. Inr (ret, map Peer es @ rs, Some st1, N))))))"
    using st1(1) A by (simp add: read_applemidi_def)
  note un = unpack_readable [OF ptr, of "mc_wild M" xs]
  show ?thesis
  proof (cases "session_readable (mc_wild M) xs")
    case True
    with un obtain ret c where c: "net_applemidi_unpack mem_ok (mc_ptr_size M) (mc_wild M) (Some xs) (length xs) = Inr (ret, Some c)"
      "command_readable c" by auto
    from session_respond_safe [OF N E c(2)] obtain response es N' where
      s: "session_respond M E rc c N = Inr (response, es, N')" "responded E N response N'" by blast
    from reply_responded [OF s(2)] obtain rs where rs: "reply response = Inr rs" by blast
    have "net_applemidi_cmd_destroy (Some c) = Inr (NET_APPLEMIDI_DONE, None)"
      using c(2) by (cases "ac_data c") (auto simp: command_readable_def net_applemidi_cmd_destroy_def as_inv_def)
    with True c(1) s st1(2) rs reply_queued [OF rs] show ?thesis unfolding r by (auto simp: responded_def)
  next
    case False
    let ?rest = "\<lambda>(ret, command). bindr (deref command) (\<lambda>command. bindr (session_respond M E rc command N) (\<lambda>(response, es, N).
      bindr (reply response) (\<lambda>rs. bindr (net_applemidi_cmd_destroy (Some command)) (\<lambda>_. Inr (ret, map Peer es @ rs, Some st1, N)))))"
    have wild: "?rest (ret, Some c) \<noteq> Inr x" if "\<not> inv_command (ac_command c)" "ac_data c = WildData" for c ret x
    proof -
      have "net_applemidi_cmd_destroy (Some c) = Inl BadFree" using that by (simp add: net_applemidi_cmd_destroy_def)
      then show ?thesis by (auto simp: bindr_eq_Inr)
    qed
    have fault: "\<exists>f. ?rest (ret, Some c) = Inl f" if "\<not> inv_command (ac_command c)" "ac_data c = WildData" for c ret
    proof (cases "?rest (ret, Some c)")
      case (Inl f)
      then show ?thesis by (rule exI)
    next
      case (Inr x)
      with wild [OF that] show ?thesis by (rule notE)
    qed
    from False un consider (unsafe) f where "net_applemidi_unpack mem_ok (mc_ptr_size M) (mc_wild M) (Some xs) (length xs) = Inl f"
      | (null) ret where "net_applemidi_unpack mem_ok (mc_ptr_size M) (mc_wild M) (Some xs) (length xs) = Inr (ret, None)"
      | (wild) ret c where "net_applemidi_unpack mem_ok (mc_ptr_size M) (mc_wild M) (Some xs) (length xs) = Inr (ret, Some c)"
          "\<not> inv_command (ac_command c)" "ac_data c = WildData" by (simp only: if_False) blast
    then have "\<exists>f. read_applemidi M E rc (Some st) N = Inl f"
    proof cases
      case wild
      from fault [OF wild(2,3)] wild(1) show ?thesis unfolding r by simp
    qed (simp_all add: r)
    with False show ?thesis by simp
  qed
qed

section \<open>RTP packets\<close>

definition rtp_readable :: "net \<Rightarrow> bytes \<Rightarrow> bool" where
  "rtp_readable N xs \<longleftrightarrow> 12 \<le> length xs \<and>
     (let h = rp_header (rtp_parse xs) in
      rh_v h = RTP_VERSION \<and> peer N (rh_ssrc h) \<noteq> None \<longrightarrow> rtp_section xs \<noteq> None)"

lemma read_rtp_safe:
  assumes st: "parser_wf st" "unread st = xs" "ring_capacity (ms_ring st) = n" "xs \<noteq> []" "length xs \<le> NET_APPLEMIDI_UDPSIZE"
    and E: "en_alloc E = mem_ok" and N: "net_wf N" and S: "S (mc_context M) = None"
  shows "if rtp_readable N xs
    then \<exists>es st' N' S'. read_rtp M E (Some st) N S = Inr (es, Some st', N', S') \<and> midi_ready n st' \<and> responded E N None N' \<and>
      taken (mc_context M) es S S'
    else \<exists>f. read_rtp M E (Some st) N S = Inl f"
proof (cases "12 \<le> length xs")
  case False
  from state_drain_ok [OF st(1)] st(2-4) obtain st1 where
    st1: "midi_state_drain mem_ok (Some st) = Inr (Some xs, length xs, Some st1)" "midi_ready n st1" by auto
  obtain q where q: "rtp_packet_create mem_ok = Some q" by (simp add: rtp_packet_create_def)
  have "length xs < 2 ^ 63" using st(5) by (simp add: NET_APPLEMIDI_UDPSIZE_def)
  with False have "\<And>r. rtp_packet_unpack mem_ok (Some xs) (length xs) (Some q) \<noteq> Inr r"
    by (intro rtp_packet_unpack_short) simp_all
  then obtain f where "rtp_packet_unpack mem_ok (Some xs) (length xs) (Some q) = Inl f" by (metis sum.exhaust)
  with False st1(1) q E show ?thesis by (simp add: rtp_readable_def read_rtp_def)
next
  case True
  note rtp = read_rtp_ok [OF st(1-3) True st(5) E N, where M = M and S = S]
  let ?h = "rp_header (rtp_parse xs)"
  show ?thesis
  proof (cases "rh_v ?h \<noteq> RTP_VERSION \<or> peer N (rh_ssrc ?h) = None")
    case drop: True
    from rtp(1) [OF drop] obtain st' where st': "midi_ready n st'" "read_rtp M E (Some st) N S = Inr ([], Some st', N, S)" by blast
    have "rtp_readable N xs" using True drop by (auto simp: rtp_readable_def Let_def)
    with st' taken_none [of S "mc_context M" "[]", OF S] responded_same [OF N, of E] show ?thesis by auto
  next
    case False
    then obtain a where v: "rh_v ?h = RTP_VERSION" "peer N (rh_ssrc ?h) = Some a" by auto
    show ?thesis
    proof (cases "rtp_section xs")
      case None
      with rtp(2) [OF v] v show ?thesis by (simp add: rtp_readable_def)
    next
      case (Some pl)
      from rtp(3) [OF v Some] obtain es st' N' S' where
        r: "midi_ready n st'" "read_rtp M E (Some st) N S = Inr (es, Some st', N', S')" "rtp_taken M xs pl a N S es N' S'" by blast
      have a: "a \<in> set (addresses N)" using v(2) peer_Some by blast
      from peer_parser_ready [OF N a] have "parser_marked (parser_of z (peer_parser N a))" for z
        using parser_marked_state by (auto simp: midi_ready_def parser_wf_def)
      then have m: "\<forall>c\<in>set (rtp_commands xs pl (peer_parser N a)). command_marked c"
        using midi_parse_marked unfolding rtp_commands_def by blast
      from r(3) obtain x d where "es = Reply x # queued (mc_context M) (rtp_commands xs pl (peer_parser N a))" "net_wf N'"
        "addresses N' = addresses N" "contexts_after (mc_context M) d (length (rtp_commands xs pl (peer_parser N a))) S S'"
        unfolding rtp_taken_def Let_def by blast
      with m have "taken (mc_context M) es S S'" "responded E N None N'" unfolding taken_def responded_def by auto
      with r Some True show ?thesis by (auto simp: rtp_readable_def)
    qed
  qed
qed

section \<open>Datagrams from a peer\<close>

definition datagram_readable :: "machine \<Rightarrow> net \<Rightarrow> bytes \<Rightarrow> bool" where
  "datagram_readable M N xs \<longleftrightarrow>
     (if 2 \<le> length xs \<and> xs ! 0 = 0xff \<and> xs ! 1 = 0xff then session_readable (mc_wild M) xs else rtp_readable N xs)"

text \<open>What a datagram that is read leaves.\<close>

definition well_read :: "env \<Rightarrow> machine \<Rightarrow> nat \<Rightarrow> world \<Rightarrow> socket_effect list \<Rightarrow> world \<Rightarrow> bool" where
  "well_read E M a W es W' \<longleftrightarrow> read_done a (sk_shutdown (wd_sockets W)) W W' \<and>
     responded E (wd_net W) None (wd_net W') \<and> taken (mc_context M) es (wd_contexts W) (wd_contexts W')"

lemma peer_read:
  assumes at: "arrives_at (wd_sockets W) fd i a" "i < 2" and N: "net_wf (wd_net W)"
    and E: "env_ok E" "cstring_ok (rc_ip_address rc)" "en_address E \<notin> set (addresses (wd_net W))"
    and M: "mc_ptr_size M = 4 \<or> mc_ptr_size M = 8" "wd_contexts W (mc_context M) = None"
    and xs: "rc_bytes rc = xs" "xs \<noteq> []" "length xs \<le> NET_APPLEMIDI_UDPSIZE"
  shows "if datagram_readable M (wd_net W) xs
    then \<exists>ret es W'. net_socket_read M E fd (Some rc) W = Inr (ret, es, W') \<and> well_read E M a W es W'
    else \<exists>f. net_socket_read M E fd (Some rc) W = Inl f"
proof -
  from net_socket_read_peer [OF at xs, of M E] obtain s st n where
    r: "net_socket_read M E fd (Some rc) W =
      bindr (read_dispatch M E rc True False (so_device_hash s) (Some st) (socket_set a s W)) (\<lambda>(ret, es, st, W).
      Inr (ret, es, socket_set a (s\<lparr>so_state := st, so_held := False\<rparr>) W))"
    and s: "parser_wf st" "unread st = xs" "ring_capacity (ms_ring st) = n"
      "\<And>st' N S. midi_ready n st' \<Longrightarrow> read_done a (sk_shutdown (wd_sockets W)) W
        (socket_set a (s\<lparr>so_state := Some st', so_held := False\<rparr>) ((socket_set a s W)\<lparr>wd_net := N, wd_contexts := S\<rparr>))" by auto
  have A: "en_alloc E = mem_ok" using E(1) by (simp add: env_ok_def)
  let ?marked = "2 \<le> length xs \<and> xs ! 0 = 0xff \<and> xs ! 1 = 0xff"
  have cmd: "is_command (Some st) = Inr (?marked, Some st)" using is_command_ok [OF s(1)] s(2) by simp
  show ?thesis
  proof (cases ?marked)
    case True
    then have d: "read_dispatch M E rc True False hash (Some st) (socket_set a s W) =
        bindr (read_applemidi M E rc (Some st) (wd_net W)) (\<lambda>(ret, es, st, N). Inr (ret, es, st, (socket_set a s W)\<lparr>wd_net := N\<rparr>))" for hash
      using cmd by (simp add: read_dispatch_def)
    note safe = read_applemidi_safe [OF s(1-3) xs(2) N E M(1)]
    show ?thesis
    proof (cases "session_readable (mc_wild M) xs")
      case ok: True
      with safe obtain ret es st' N' where t: "read_applemidi M E rc (Some st) (wd_net W) = Inr (ret, es, Some st', N')"
        "midi_ready n st'" "responded E (wd_net W) None N'" "queued_of es = []" by auto
      have w: "(socket_set a s W)\<lparr>wd_net := N', wd_contexts := wd_contexts W\<rparr> = (socket_set a s W)\<lparr>wd_net := N'\<rparr>"
        by (simp add: socket_set_def)
      let ?W = "socket_set a (s\<lparr>so_state := Some st', so_held := False\<rparr>) ((socket_set a s W)\<lparr>wd_net := N'\<rparr>)"
      have "net_socket_read M E fd (Some rc) W = Inr (ret, es, ?W)" unfolding r d t(1) by simp
      moreover have "well_read E M a W es ?W"
        using s(4) [OF t(2), where N = N' and S = "wd_contexts W", unfolded w] t(3) taken_none [where S = "wd_contexts W" and a = "mc_context M", OF M(2) t(4)] by (simp add: well_read_def)
      ultimately show ?thesis using True ok by (auto simp: datagram_readable_def)
    next
      case False
      with safe True show ?thesis unfolding r d by (auto simp: datagram_readable_def)
    qed
  next
    case False
    then have d: "read_dispatch M E rc True False hash (Some st) (socket_set a s W) =
        bindr (read_rtp M E (Some st) (wd_net W) (wd_contexts W)) (\<lambda>(es, st, N, S).
        Inr (0, es, st, (socket_set a s W)\<lparr>wd_net := N, wd_contexts := S\<rparr>))" for hash
      using cmd by (auto simp: read_dispatch_def is_request_other)
    note safe = read_rtp_safe [where M = M and S = "wd_contexts W", OF s(1-3) xs(2,3) A N M(2)]
    show ?thesis
    proof (cases "rtp_readable (wd_net W) xs")
      case ok: True
      with safe obtain es st' N' S' where t: "read_rtp M E (Some st) (wd_net W) (wd_contexts W) = Inr (es, Some st', N', S')"
        "midi_ready n st'" "responded E (wd_net W) None N'" "taken (mc_context M) es (wd_contexts W) S'" by auto
      let ?W = "socket_set a (s\<lparr>so_state := Some st', so_held := False\<rparr>) ((socket_set a s W)\<lparr>wd_net := N', wd_contexts := S'\<rparr>)"
      have "net_socket_read M E fd (Some rc) W = Inr (0, es, ?W)" unfolding r d t(1) by simp
      moreover have "well_read E M a W es ?W"
        using s(4) [OF t(2), where N = N' and S = S'] t(3,4) by (simp add: well_read_def)
      ultimately show ?thesis using False ok unfolding datagram_readable_def by auto
    next
      case bad: False
      with safe have "\<exists>f. read_rtp M E (Some st) (wd_net W) (wd_contexts W) = Inl f" by simp
      then have "\<exists>f. net_socket_read M E fd (Some rc) W = Inl f" unfolding r d by auto
      with False bad show ?thesis unfolding datagram_readable_def by auto
    qed
  qed
qed

section \<open>Datagrams on the local socket\<close>

lemma local_read_safe:
  assumes at: "arrives_at (wd_sockets W) fd 2 a" and N: "net_wf (wd_net W)" and E: "en_alloc E = mem_ok"
    and show_ptr: "\<forall>b\<in>set (addresses (wd_net W)). CHR 0x00 \<notin> set (mc_show_ptr M b)" and few: "length (addresses (wd_net W)) < 2 ^ 64"
    and xs: "rc_bytes rc = xs" "xs \<noteq> []" "length xs \<le> NET_APPLEMIDI_UDPSIZE"
    and whole: "take 4 xs \<in> {text_bytes ''STAT'', text_bytes ''QUIT'', text_bytes ''LIST''} \<longrightarrow> length xs = 4"
    and S: "wd_contexts W (mc_context M) = None"
    and fits: "xs = text_bytes ''LIST'' \<longrightarrow> net_ctx_connections_to_string mem_ok (mc_stays M) (mc_junk M) (mc_show_ptr M) (wd_net W) \<noteq> Inl UseAfterFree"
  shows "\<exists>es W'. net_socket_read M E fd (Some rc) W = Inr (0, es, W') \<and> wd_net W' = wd_net W \<and>
    read_done a (if xs = text_bytes ''QUIT'' then 1 else sk_shutdown (wd_sockets W)) W W' \<and>
    taken (mc_context M) es (wd_contexts W) (wd_contexts W')"
proof -
  have K: "sockets_wf (wd_sockets W)" "a \<in> set (socket_addresses (wd_sockets W))"
    using at by (auto simp: arrives_at_def find_Some_iff)
  then have "socket_ok (socket_of (wd_sockets W) a)" by (simp add: sockets_wf_def)
  then obtain st n where st: "so_state (socket_of (wd_sockets W) a) = Some st" "midi_ready n st" by (auto simp: socket_ok_def)
  from local_socket_read(1) [OF at N E show_ptr few xs whole st(1) fits] obtain es W' where
    r: "net_socket_read M E fd (Some rc) W = Inr (0, es, W')" "wd_net W' = wd_net W"
      "local_read M W xs (so_device_hash (socket_of (wd_sockets W) a)) st es W'"
      "read_done a (if xs = text_bytes ''QUIT'' then 1 else sk_shutdown (wd_sockets W)) W W'" by blast
  have "parser_marked (parser_of False st)" using st(2) by (simp add: midi_ready_def parser_wf_def)
  then have marked: "\<forall>c\<in>set (fst (midi_parse MIDI_PARSE_MODE_SIMPLE xs (parser_of False st))). command_marked c"
    using midi_parse_marked by blast
  have "taken (mc_context M) es (wd_contexts W) (wd_contexts W')"
  proof (cases "xs \<in> {text_bytes ''STAT'', text_bytes ''QUIT'', text_bytes ''LIST''}")
    case True
    then have "queued_of es = []" "wd_contexts W' = wd_contexts W" using r(3) words_4 by (auto simp: local_read_def)
    with taken_none [where S = "wd_contexts W" and a = "mc_context M", OF S] show ?thesis by simp
  next
    case False
    then have "es = queued (mc_context M) (fst (midi_parse MIDI_PARSE_MODE_SIMPLE xs (parser_of False st)))"
      "contexts_after (mc_context M) \<lparr>sx_ssrc = 0, sx_alsa_card_hash = so_device_hash (socket_of (wd_sockets W) a)\<rparr>
        (length (fst (midi_parse MIDI_PARSE_MODE_SIMPLE xs (parser_of False st)))) (wd_contexts W) (wd_contexts W')"
      using r(3) by (simp_all add: local_read_def Let_def)
    with marked show ?thesis unfolding taken_def
      by (intro exI [of _ "fst (midi_parse MIDI_PARSE_MODE_SIMPLE xs (parser_of False st))"]
          exI [of _ "\<lparr>sx_ssrc = 0, sx_alsa_card_hash = so_device_hash (socket_of (wd_sockets W) a)\<rparr>"]) simp
  qed
  with r show ?thesis by blast
qed

text \<open>Only the list of connections can go wrong.\<close>

lemma local_read_either:
  assumes "arrives_at (wd_sockets W) fd 2 a" "net_wf (wd_net W)" "en_alloc E = mem_ok"
    and "\<forall>b\<in>set (addresses (wd_net W)). CHR 0x00 \<notin> set (mc_show_ptr M b)" "length (addresses (wd_net W)) < 2 ^ 64"
    and "rc_bytes rc = xs" "xs \<noteq> []" "length xs \<le> NET_APPLEMIDI_UDPSIZE"
    and "take 4 xs \<in> {text_bytes ''STAT'', text_bytes ''QUIT'', text_bytes ''LIST''} \<longrightarrow> length xs = 4"
    and "wd_contexts W (mc_context M) = None" "net_socket_read M E fd (Some rc) W = Inr (ret, es, W')"
  shows "wd_net W' = wd_net W \<and> read_done a (if xs = text_bytes ''QUIT'' then 1 else sk_shutdown (wd_sockets W)) W W' \<and>
    taken (mc_context M) es (wd_contexts W) (wd_contexts W')"
proof -
  have "socket_ok (socket_of (wd_sockets W) a)" using assms(1) by (auto simp: arrives_at_def find_Some_iff sockets_wf_def)
  then obtain st where st: "so_state (socket_of (wd_sockets W) a) = Some st" by (auto simp: socket_ok_def)
  have "xs = text_bytes ''LIST'' \<longrightarrow> net_ctx_connections_to_string mem_ok (mc_stays M) (mc_junk M) (mc_show_ptr M) (wd_net W) \<noteq> Inl UseAfterFree"
    using local_socket_read(2) [OF assms(1-9) st] assms(11) by auto
  from local_read_safe [OF assms(1-10) this] assms(11) show ?thesis by auto
qed

section \<open>Properties\<close>

text \<open>C8: The datagrams from a peer that the program survives, exactly. One that begins with two octets
  ff must be a session command of a known kind (unless the pointer of another kind happens not to be
  wild) with all its octets: an invitation exactly its 16 octets or more with a terminated name.
  Any other must have the 12 octets of the RTP header, and if its version is 2 and its sender known, a
  command section. Whatever is read, sockets and connections are well formed afterwards.\<close>

theorem net_socket_read_safe_iff:
  assumes "arrives_at (wd_sockets W) fd i a" "i < 2" "net_wf (wd_net W)"
    and "env_ok E" "cstring_ok (rc_ip_address rc)" "en_address E \<notin> set (addresses (wd_net W))"
    and "mc_ptr_size M = 4 \<or> mc_ptr_size M = 8" "wd_contexts W (mc_context M) = None"
    and "rc_bytes rc = xs" "xs \<noteq> []" "length xs \<le> NET_APPLEMIDI_UDPSIZE"
  shows "((\<exists>r. net_socket_read M E fd (Some rc) W = Inr r) \<longleftrightarrow> datagram_readable M (wd_net W) xs) \<and>
    (\<forall>ret es W'. net_socket_read M E fd (Some rc) W = Inr (ret, es, W') \<longrightarrow>
      read_done a (sk_shutdown (wd_sockets W)) W W' \<and> net_wf (wd_net W'))"
  using peer_read [OF assms] by (auto simp: well_read_def responded_def split: if_splits)

theorem net_socket_read_safe_iff_witness:
  "\<exists>W. net_wf (wd_net W) \<and>
    (\<exists>r. net_socket_read machine_example env_example 5 (Some \<lparr>rc_bytes = note_packet, rc_ip_address = None, rc_port = 9\<rparr>) W = Inr r) \<and>
    \<not> (\<exists>r. net_socket_read machine_example env_example 5
      (Some \<lparr>rc_bytes = [0xff, 0xff, 0x49, 0x4e, 0, 0, 0, 2], rc_ip_address = None, rc_port = 9\<rparr>) W = Inr r)"
proof -
  from world_example obtain K where K: "arrives_at K 5 1 4" by blast
  let ?W = "\<lparr>wd_sockets = K, wd_net = net_start, wd_contexts = Map.empty\<rparr>"
  have W: "arrives_at (wd_sockets ?W) 5 1 4" "net_wf (wd_net ?W)" "en_address env_example \<notin> set (addresses (wd_net ?W))"
    "wd_contexts ?W (mc_context machine_example) = None" "mc_ptr_size machine_example = 4 \<or> mc_ptr_size machine_example = 8"
    using K by (simp_all add: net_start_wf machine_example_def)
  have ip: "cstring_ok None" by (simp add: cstring_ok_def)
  let ?bad = "[0xff, 0xff, 0x49, 0x4e, 0, 0, 0, 2] :: bytes"
  have good: "datagram_readable machine_example net_start note_packet"
    by (simp add: datagram_readable_def rtp_readable_def Let_def note_packet_parsed peer_def net_start_wf)
      (simp add: note_packet_def)
  have bad: "\<not> datagram_readable machine_example net_start ?bad"
    by (simp add: datagram_readable_def session_readable_def be_word_def inv_command_def NET_APPLEMIDI_CMD_INV_def)
  have len: "note_packet \<noteq> []" "length note_packet \<le> NET_APPLEMIDI_UDPSIZE" "?bad \<noteq> []" "length ?bad \<le> NET_APPLEMIDI_UDPSIZE"
    by (simp_all add: note_packet_def NET_APPLEMIDI_UDPSIZE_def)
  note safe = net_socket_read_safe_iff [where W = ?W and i = 1, OF W(1) _ W(2) env_example_ok _ W(3,5,4) refl]
  from safe [of "\<lparr>rc_bytes = note_packet, rc_ip_address = None, rc_port = 9\<rparr>"]
    safe [of "\<lparr>rc_bytes = ?bad, rc_ip_address = None, rc_port = 9\<rparr>"] len good bad ip show ?thesis
    by (intro exI [of _ ?W]) (simp add: net_start_wf)
qed

end
