(* ===== verification/Sender_Safety.thy ===== *)
theory Sender_Safety
  imports Midi_Sender
begin

text \<open>
  Which commands the sender survives: those with the data their status calls for, except that the
  release of a note whose number is a multiple of 8 must not reach a journal.
\<close>

section \<open>Events\<close>

text \<open>The release that the journal cannot take.\<close>

definition release_8 :: "channel_event \<Rightarrow> bool" where
  "release_8 ev \<longleftrightarrow> (\<exists>n. ev = Note_event n \<and> mn_note n < 0x80 \<and> mn_command n = 8 \<and> unat (mn_note n) mod 8 = 0)"

lemma release_8_unfit: "release_8 ev \<Longrightarrow> \<not> event_fits ev"
  by (auto simp: release_8_def note_fits_def)

lemma command_event_incomplete:
  assumes "command_wf c" "\<not> command_complete c"
  shows "command_event mem_ok (Some c) = Inl OutOfBounds"
proof -
  from assms have c: "snd (midi_command_map c) \<in> {MIDI_NOTE_OFF, MIDI_NOTE_ON, MIDI_CONTROL_CHANGE}" "mc_data_len c = 1"
    by (auto simp: command_complete_def)
  have "\<exists>d. mc_data c = Some [d]"
  proof (cases "mc_data c")
    case (Some xs)
    with command_data [OF assms(1)] c(2) show ?thesis by (cases xs) auto
  qed (use command_data [OF assms(1)] c(2) in simp)
  then obtain d where d: "mc_data c = Some [d]" by blast
  then show ?thesis using c
    by (auto simp: command_event_def Let_def midi_note_from_command_def midi_note_create_def midi_control_from_command_def
        midi_control_create_def midi_command_message_def)
qed

lemma command_event_release:
  assumes "command_complete c" "\<not> journalable c"
  shows "\<exists>ev. command_event mem_ok (Some c) = Inr (Some ev) \<and> release_8 ev"
proof -
  have wf: "command_wf c" using assms(1) by (simp add: command_complete_def)
  have st: "drop_bit 4 (mc_status c) = 8" using assms(2) by (auto simp: journalable_def)
  have "unat (drop_bit 4 (mc_status c)) = unat (mc_status c) div 16"
    using unsigned_less [of "mc_status c", where 'a = nat]
    by (simp add: unsigned_drop_bit_eq drop_bit_eq_div [where 'a = nat] take_bit_nat_eq_self)
  then have "unat (mc_status c) div 16 = 8" using st by simp
  then have "\<not> 0xf0 \<le> mc_status c" by (simp add: word_le_nat_alt)
  then have m: "snd (midi_command_map c) = MIDI_NOTE_OFF"
    by (simp add: midi_command_map_def midi_message_map_def mmsg_def high_nibble st)
  consider (none) "mc_data_len c = 0" | (some) n n' d where "mc_data c = Some (n # n' # d)" "0 < mc_data_len c"
  proof (cases "mc_data c")
    case (Some xs)
    have "mc_data_len c \<noteq> 1" using assms(1) m by (simp add: command_complete_def)
    with Some command_data [OF wf] that show thesis by (cases xs rule: remdups_adj.cases) auto
  qed (use command_data [OF wf] in simp)
  then show ?thesis
  proof cases
    case none
    with m st show ?thesis
      by (simp add: command_event_def midi_note_from_command_def midi_note_create_def midi_command_message_def release_8_def)
  next
    case some
    with assms(2) st have "unat (n AND 0x7f) mod 8 = 0" by (simp add: journalable_def)
    with some m st seven_bits_below show ?thesis
      by (simp add: command_event_def midi_note_from_command_def midi_note_create_def midi_command_message_def release_8_def)
  qed
qed

section \<open>Connections\<close>

text \<open>The connections that keep a journal and are not where the command came from.\<close>

definition journal_reached :: "32 word \<Rightarrow> net_ctx \<Rightarrow> bool" where
  "journal_reached originator x \<longleftrightarrow> nc_ssrc x \<noteq> originator \<and> nc_journal x \<noteq> None"

lemma record_release:
  assumes "ctx_wf x" "release_8 ev"
  shows "record_event mem_ok (Some ev) (Some x) = (if nc_journal x = None then Inr (Some x) else Inl BadShift)"
proof -
  from assms(2) obtain n where n: "ev = Note_event n" "mn_note n < 0x80" "mn_command n = 8" "unat (mn_note n) mod 8 = 0"
    by (auto simp: release_8_def)
  have "\<not> nc_held x" using assms(1) by (simp add: ctx_wf_def)
  moreover have "midi_journal_add_note mem_ok (nc_journal x) (nc_seq x) (Some n) =
      (if nc_journal x = None then Inr None else Inl BadShift)"
  proof (cases "nc_journal x")
    case (Some j)
    with assms(1) have "journal_wf j" by (simp add: ctx_wf_def)
    from journal_add_note_fault [OF this n(2-4)] Some show ?thesis by simp
  qed (simp add: midi_journal_add_note_def)
  ultimately show ?thesis using n(1)
    by (cases x) (auto simp: record_event_def net_ctx_add_journal_note_def locked_def net_ctx_lock_def net_ctx_unlock_def)
qed

lemma send_release_turn:
  assumes "ctx_wf x" "command_wf c" "payload_for c pl" "release_8 ev" "journal_enabled"
  shows "if journal_reached originator x
    then send_to_connection mem_ok now journal_enabled originator (Some ev) pl x = Inl BadShift
    else \<exists>pl' x'. send_to_connection mem_ok now journal_enabled originator (Some ev) pl x =
      Inr (if nc_ssrc x = originator then [] else datagrams_to now c x, pl', x') \<and> payload_for c pl' \<and> ctx_wf x'"
proof (cases "nc_ssrc x = originator")
  case True
  with assms show ?thesis by (simp add: send_to_connection_def journal_reached_def)
next
  case False
  from send_to_connection_eq [OF assms(1-3) False, of now journal_enabled "Some ev"] obtain pl' j where
    eq: "send_to_connection mem_ok now journal_enabled originator (Some ev) pl x =
      bindr (if journal_enabled then record_event mem_ok (Some ev) (Some (x\<lparr>nc_seq := nc_seq x + 1, nc_journal := j\<rparr>))
             else Inr (Some (x\<lparr>nc_seq := nc_seq x + 1, nc_journal := j\<rparr>))) (\<lambda>ctx.
      bindr (deref ctx) (\<lambda>y. Inr (datagrams_to now c x, pl', y)))"
    and pl': "payload_for c pl'" and wf: "ctx_wf (x\<lparr>nc_seq := nc_seq x + 1, nc_journal := j\<rparr>)"
    and j: "j = None \<longleftrightarrow> nc_journal x = None" by (elim exE conjE) (rule that)
  from record_release [OF wf assms(4)] False assms(5) j show ?thesis
    unfolding eq using pl' wf by (auto simp: journal_reached_def)
qed

text \<open>The loop stops at the first journal a release reaches.\<close>

lemma send_release_loop:
  assumes "net_wf N" "command_wf c" "payload_for c pl" "release_8 ev" "journal_enabled" "i + n = length (addresses N)"
  shows "if \<exists>k. i \<le> k \<and> k < i + n \<and> journal_reached originator (context_of N (addresses N ! k))
    then send_to_connections mem_ok now journal_enabled originator (Some ev) i n pl N = Inl BadShift
    else \<exists>ds pl' N'. send_to_connections mem_ok now journal_enabled originator (Some ev) i n pl N = Inr (ds, pl', N') \<and>
      net_wf N' \<and> addresses N' = addresses N"
  using assms
proof (induction n arbitrary: i pl N)
  case (Suc n)
  let ?a = "addresses N ! i"
  have i: "i < length (addresses N)" and a: "?a \<in> set (addresses N)" using Suc.prems(6) by simp_all
  have wfa: "ctx_wf (context_of N ?a)" using Suc.prems(1) a by (simp add: net_wf_def)
  note turn = send_release_turn [OF wfa Suc.prems(2-5), of originator "now i"]
  have step: "send_to_connections mem_ok now journal_enabled originator (Some ev) i (Suc n) pl N =
      bindr (send_to_connection mem_ok (now i) journal_enabled originator (Some ev) pl (context_of N ?a)) (\<lambda>(d, pl, c).
      bindr (send_to_connections mem_ok now journal_enabled originator (Some ev) (Suc i) n pl
        (N\<lparr>nt_contexts := (nt_contexts N)(?a \<mapsto> c)\<rparr>)) (\<lambda>(ds, pl, N). Inr (d @ ds, pl, N)))"
    using i by (simp add: find_by_index_ok [OF Suc.prems(1)] ctx_at_def net_wf_context [OF Suc.prems(1) a])
  show ?case
  proof (cases "journal_reached originator (context_of N ?a)")
    case True
    with turn have "\<exists>k. i \<le> k \<and> k < i + Suc n \<and> journal_reached originator (context_of N (addresses N ! k))"
      by (intro exI [of _ i]) simp
    moreover have "send_to_connections mem_ok now journal_enabled originator (Some ev) i (Suc n) pl N = Inl BadShift"
      using turn True unfolding step by simp
    ultimately show ?thesis by simp
  next
    case False
    with turn obtain d pl1 x where
      x: "send_to_connection mem_ok (now i) journal_enabled originator (Some ev) pl (context_of N ?a) = Inr (d, pl1, x)"
        "payload_for c pl1" "ctx_wf x" by auto
    let ?N = "N\<lparr>nt_contexts := (nt_contexts N)(?a \<mapsto> x)\<rparr>"
    note N = context_update [OF Suc.prems(1) a x(3)]
    have dist: "distinct (addresses N)" using Suc.prems(1) by (simp add: net_wf_def)
    have same: "context_of ?N (addresses N ! k) = context_of N (addresses N ! k)" if "Suc i \<le> k" "k < Suc i + n" for k
      using that i dist Suc.prems(6) by (simp add: N(3) nth_eq_iff_index_eq)
    have n: "Suc i + n = length (addresses ?N)" using Suc.prems(6) N(2) by simp
    have shift: "(\<exists>k. i \<le> k \<and> k < i + Suc n \<and> journal_reached originator (context_of N (addresses N ! k))) \<longleftrightarrow>
        (\<exists>k. Suc i \<le> k \<and> k < Suc i + n \<and> journal_reached originator (context_of N (addresses N ! k)))"
      using False by (metis Suc_leD Suc_leI add_Suc_right add_Suc le_neq_implies_less)
    have IH: "if \<exists>k. Suc i \<le> k \<and> k < Suc i + n \<and> journal_reached originator (context_of N (addresses N ! k))
      then send_to_connections mem_ok now journal_enabled originator (Some ev) (Suc i) n pl1 ?N = Inl BadShift
      else \<exists>ds pl' N'. send_to_connections mem_ok now journal_enabled originator (Some ev) (Suc i) n pl1 ?N = Inr (ds, pl', N') \<and>
        net_wf N' \<and> addresses N' = addresses N"
      using Suc.IH [OF N(1) Suc.prems(2) x(2) Suc.prems(4,5) n] same unfolding N(2) by (simp cong: conj_cong)
    show ?thesis
    proof (cases "\<exists>k. Suc i \<le> k \<and> k < Suc i + n \<and> journal_reached originator (context_of N (addresses N ! k))")
      case True
      with IH have "send_to_connections mem_ok now journal_enabled originator (Some ev) (Suc i) n pl1 ?N = Inl BadShift" by simp
      with x(1) True show ?thesis unfolding shift step by simp
    next
      case none: False
      from IH [unfolded if_not_P [OF none]] obtain ds pl' N' where "send_to_connections mem_ok now journal_enabled originator (Some ev) (Suc i) n pl1 ?N = Inr (ds, pl', N')"
        "net_wf N'" "addresses N' = addresses N" by blast
      with x(1) none show ?thesis unfolding shift step by simp
    qed
  qed
qed simp

section \<open>Properties\<close>

lemma send_single_split:
  assumes "net_wf N" "command_wf c"
  shows "if command_complete c \<and> (journal_enabled \<longrightarrow> journalable c \<or> (\<forall>a\<in>set (addresses N). \<not> journal_reached originator (context_of N a)))
    then \<exists>ds raw N'. midi_sender_send_single mem_ok now junk journal_enabled inbound_midi (Some c) originator N = Inr (ds, raw, N') \<and>
      net_wf N' \<and> addresses N' = addresses N
    else \<exists>f. midi_sender_send_single mem_ok now junk journal_enabled inbound_midi (Some c) originator N = Inl f"
proof -
  from command_to_payload_ok [OF assms(2), of junk] obtain pl where
    pl: "midi_command_to_payload mem_ok junk (Some c) = Inr (Some pl)" "payload_for c pl" by blast
  consider (incomplete) "\<not> command_complete c" | (plain) "command_complete c" "journal_enabled \<longrightarrow> journalable c"
    | (release) "command_complete c" "journal_enabled" "\<not> journalable c" by blast
  then show ?thesis
  proof cases
    case incomplete
    with command_event_incomplete [OF assms(2)] pl(1) show ?thesis by (simp add: midi_sender_send_single_def)
  next
    case plain
    from send_single_ok [OF assms(1) plain, of now junk inbound_midi originator] plain show ?thesis by auto
  next
    case release
    from command_event_release [OF release(1,3)] obtain ev where
      ev: "command_event mem_ok (Some c) = Inr (Some ev)" "release_8 ev" by blast
    have s: "midi_sender_send_single mem_ok now junk journal_enabled inbound_midi (Some c) originator N =
        bindr (send_to_connections mem_ok now journal_enabled originator (Some ev) 0 (length (addresses N)) pl N) (\<lambda>(ds, _, N).
        Inr (ds, if inbound_midi then Some (midi_bytes c) else None, N))"
      using pl(1) ev(1) raw_command_ok [OF assms(2)] by (simp add: midi_sender_send_single_def num_connections_ok [OF assms(1)])
    have all: "(\<exists>k. 0 \<le> k \<and> k < 0 + length (addresses N) \<and> journal_reached originator (context_of N (addresses N ! k))) \<longleftrightarrow>
        \<not> (\<forall>a\<in>set (addresses N). \<not> journal_reached originator (context_of N a))"
      using nth_mem by (fastforce simp: in_set_conv_nth)
    note loop = send_release_loop [OF assms pl(2) ev(2) release(2), of 0 "length (addresses N)" originator now, unfolded all]
    show ?thesis
    proof (cases "\<forall>a\<in>set (addresses N). \<not> journal_reached originator (context_of N a)")
      case True
      with loop obtain ds pl' N' where
        "send_to_connections mem_ok now journal_enabled originator (Some ev) 0 (length (addresses N)) pl N = Inr (ds, pl', N')"
        "net_wf N'" "addresses N' = addresses N" by auto
      with True release show ?thesis unfolding s by auto
    next
      case False
      with loop have "send_to_connections mem_ok now journal_enabled originator (Some ev) 0 (length (addresses N)) pl N = Inl BadShift"
        by auto
      with False release show ?thesis unfolding s by auto
    qed
  qed
qed

text \<open>C11: The commands the sender survives, exactly: those with the data their status calls for, where with
  journals a release of a note whose number is a multiple of 8 is only harmless if no connection
  but the one it came from keeps a journal. What is left of the connections is well formed, in the
  same order.\<close>

theorem midi_sender_send_safe_iff:
  assumes "net_wf N" "command_wf c"
  shows "((\<exists>r. midi_sender_send_single mem_ok now junk journal_enabled inbound_midi (Some c) originator N = Inr r) \<longleftrightarrow>
      command_complete c \<and>
      (journal_enabled \<longrightarrow> journalable c \<or> (\<forall>a\<in>set (addresses N). \<not> journal_reached originator (context_of N a)))) \<and>
    (\<forall>ds raw N'. midi_sender_send_single mem_ok now junk journal_enabled inbound_midi (Some c) originator N = Inr (ds, raw, N') \<longrightarrow>
      net_wf N' \<and> addresses N' = addresses N)"
  using send_single_split [OF assms, of journal_enabled originator now junk inbound_midi] by (auto split: if_splits)

definition release_64 :: midi_command where
  "release_64 = \<lparr>mc_delta = 0, mc_status = 0x80, mc_data_len = 2, mc_data = Some [64, 0]\<rparr>"

definition note_cut :: midi_command where
  "note_cut = \<lparr>mc_delta = 0, mc_status = 0x90, mc_data_len = 1, mc_data = Some [60]\<rparr>"

theorem midi_sender_send_safe_iff_witness:
  "(\<exists>r. midi_sender_send_single mem_ok (\<lambda>_. 5) (sent_payload_header release_64 True) True False (Some release_64) 0 net_start = Inr r) \<and>
   \<not> (\<exists>r. midi_sender_send_single mem_ok (\<lambda>_. 5) (sent_payload_header release_64 True) True False (Some note_cut) 0 net_start = Inr r)"
proof -
  have wf: "command_wf release_64" "command_wf note_cut"
    by (simp_all add: command_wf_def midi_bytes_def release_64_def note_cut_def)
  have "command_complete release_64" using wf(1) by (simp add: command_complete_def release_64_def)
  moreover have "snd (midi_command_map note_cut) = MIDI_NOTE_ON" by code_simp
  then have "\<not> command_complete note_cut" by (simp add: command_complete_def note_cut_def)
  ultimately show ?thesis
    using midi_sender_send_safe_iff [OF net_start_wf(1) wf(1), of "\<lambda>_. 5" "sent_payload_header release_64 True" True False 0]
      midi_sender_send_safe_iff [OF net_start_wf(1) wf(2), of "\<lambda>_. 5" "sent_payload_header release_64 True" True False 0] by (simp add: net_start_wf(3))
qed

end
