(* ===== verification/Sender_Steps.thy ===== *)
theory Sender_Steps
  imports Sender_Safety
begin

text \<open>
  The thread of the queue, step by step: it takes a command and gives up the reference to its context, then
  makes one turn of the loop over the connections after the other, then writes the command to the file for
  inbound MIDI. The locks of the code are held within these steps only, so a datagram may come in between
  any two of them. \<open>handler_steps\<close> shows that \<open>midi_sender_handler\<close> is these steps in a row.
\<close>

section \<open>Steps\<close>

text \<open>The locals of \<^verbatim>\<open>midi_sender_send_single\<close> within its loop.\<close>

record sending =
  sg_command :: midi_command
  sg_originator :: "32 word"
  sg_payload :: midi_payload
  sg_event :: "channel_event option"
  sg_index :: nat
  sg_left :: nat

definition sender_take ::
    "midi_payload_header \<Rightarrow> midi_command \<Rightarrow> nat option \<Rightarrow> sender_store \<Rightarrow> net \<Rightarrow> (sending \<times> sender_store \<times> net) result" where
  "sender_take junk c x S N =
     bindr (case x of None \<Rightarrow> Inr (0, S)
            | Some a \<Rightarrow>
                bindr (context_at S a) (\<lambda>data_context.
                bindr (data_context_release (Some a) S) (\<lambda>(_, S).
                Inr (case dx_data data_context of None \<Rightarrow> 0 | Some sender_context \<Rightarrow> sx_ssrc sender_context, S))))
       (\<lambda>(originator_ssrc, S).
     bindr (midi_command_to_payload mem_ok junk (Some c)) (\<lambda>p.
     bindr (deref p) (\<lambda>pl.
     bindr (command_event mem_ok (Some c)) (\<lambda>e.
     bindr (net_ctx_get_num_connections N) (\<lambda>(total_connections, N).
     Inr (\<lparr>sg_command = c, sg_originator = originator_ssrc, sg_payload = pl, sg_event = e, sg_index = 0,
            sg_left = total_connections\<rparr>, S, N))))))"

definition sender_turn :: "bool \<Rightarrow> 64 word \<Rightarrow> sending \<Rightarrow> net \<Rightarrow> (datagram list \<times> sending \<times> net) result" where
  "sender_turn journal_enabled now g N =
     (let next = g\<lparr>sg_index := sg_index g + 1, sg_left := sg_left g - 1\<rparr> in
      bindr (net_ctx_find_by_index (sg_index g) N) (\<lambda>current_ctx.
      case current_ctx of
        None \<Rightarrow> Inr ([], next, N)
      | Some a \<Rightarrow>
          bindr (ctx_at (nt_contexts N) a) (\<lambda>c.
          bindr (send_to_connection mem_ok now journal_enabled (sg_originator g) (sg_event g) (sg_payload g) c) (\<lambda>(d, pl, c).
          Inr (d, next\<lparr>sg_payload := pl\<rparr>, N\<lparr>nt_contexts := (nt_contexts N)(a \<mapsto> c)\<rparr>)))))"

definition sender_finish :: "bool \<Rightarrow> sending \<Rightarrow> bytes option result" where
  "sender_finish inbound_midi g = raw_command mem_ok inbound_midi (sg_command g)"

section \<open>The steps in a row\<close>

fun sender_turns ::
    "bool \<Rightarrow> (nat \<Rightarrow> 64 word) \<Rightarrow> nat \<Rightarrow> sending \<Rightarrow> net \<Rightarrow> (datagram list \<times> sending \<times> net) result" where
  "sender_turns journal_enabled now 0 g N = Inr ([], g, N)"
| "sender_turns journal_enabled now (Suc n) g N =
     bindr (sender_turn journal_enabled (now (sg_index g)) g N) (\<lambda>(d, g, N).
     bindr (sender_turns journal_enabled now n g N) (\<lambda>(ds, g, N). Inr (d @ ds, g, N)))"

lemma sender_turns_loop:
  "send_to_connections mem_ok now journal_enabled (sg_originator g) (sg_event g) (sg_index g) n (sg_payload g) N =
     bindr (sender_turns journal_enabled now n g N) (\<lambda>(ds, g, N). Inr (ds, sg_payload g, N))"
proof (induction n arbitrary: g N)
  case (Suc n)
  show ?case
  proof (cases "net_ctx_find_by_index (sg_index g) N")
    case (Inr p)
    show ?thesis
    proof (cases p)
      case None
      with Inr Suc.IH [of "g\<lparr>sg_index := sg_index g + 1, sg_left := sg_left g - 1\<rparr>" N] show ?thesis
        by (simp add: sender_turn_def Let_def bindr_assoc split_beta)
    next
      case (Some a)
      show ?thesis
      proof (cases "ctx_at (nt_contexts N) a")
        case ctx: (Inr c)
        show ?thesis
        proof (cases "send_to_connection mem_ok (now (sg_index g)) journal_enabled (sg_originator g) (sg_event g) (sg_payload g) c")
          case sent: (Inr t)
          obtain d pl c' where t: "t = (d, pl, c')" by (cases t)
          from Inr Some ctx sent
            Suc.IH [of "g\<lparr>sg_index := sg_index g + 1, sg_left := sg_left g - 1, sg_payload := pl\<rparr>" "N\<lparr>nt_contexts := (nt_contexts N)(a \<mapsto> c')\<rparr>"]
          show ?thesis by (simp add: t sender_turn_def Let_def bindr_assoc split_beta)
        qed (use Inr Some ctx in \<open>simp add: sender_turn_def Let_def\<close>)
      qed (use Inr Some in \<open>simp add: sender_turn_def Let_def\<close>)
    qed
  qed (simp add: sender_turn_def Let_def)
qed simp

lemma sender_turn_command: "sender_turn journal_enabled now g N = Inr (d, g', N') \<Longrightarrow>
    sg_command g' = sg_command g \<and> sg_index g' = sg_index g + 1 \<and> sg_left g' = sg_left g - 1"
  by (auto simp: sender_turn_def Let_def result_simps split: option.splits)

lemma sender_turns_command: "sender_turns journal_enabled now n g N = Inr (ds, g', N') \<Longrightarrow> sg_command g' = sg_command g"
proof (induction n arbitrary: g N ds)
  case (Suc n)
  then obtain d g1 N1 ds1 where "sender_turn journal_enabled (now (sg_index g)) g N = Inr (d, g1, N1)"
    "sender_turns journal_enabled now n g1 N1 = Inr (ds1, g', N')" by (auto simp: bindr_eq_Inr)
  with Suc.IH [of g1 N1 ds1] sender_turn_command show ?case by metis
qed simp

theorem handler_steps:
  assumes "command_wf c"
  shows "midi_sender_handler mem_ok now junk journal_enabled inbound_midi (Some c) x S N =
    bindr (sender_take junk c x S N) (\<lambda>(g, S, N).
    bindr (sender_turns journal_enabled now (sg_left g) g N) (\<lambda>(ds, g, N).
    bindr (sender_finish inbound_midi g) (\<lambda>raw. Inr (ds, raw, S, N))))"
proof -
  let ?origin = "case x of None \<Rightarrow> Inr (0, S)
    | Some a \<Rightarrow> bindr (context_at S a) (\<lambda>data_context. bindr (data_context_release (Some a) S) (\<lambda>(_, S).
        Inr (case dx_data data_context of None \<Rightarrow> 0 | Some sender_context \<Rightarrow> sx_ssrc sender_context, S)))"
  from command_to_payload_ok [OF assms, of junk] obtain pl where
    pl: "midi_command_to_payload mem_ok junk (Some c) = Inr (Some pl)" by blast
  let ?g = "\<lambda>ssrc e n. \<lparr>sg_command = c, sg_originator = ssrc, sg_payload = pl, sg_event = e, sg_index = 0, sg_left = n\<rparr>"
  have loop: "bindr (send_to_connections mem_ok now journal_enabled ssrc e 0 n pl N) (\<lambda>(ds, _, N).
      bindr (raw_command mem_ok inbound_midi c) (\<lambda>raw. Inr (ds, raw, N))) =
    bindr (sender_turns journal_enabled now n (?g ssrc e n) N) (\<lambda>(ds, g, N).
      bindr (sender_finish inbound_midi g) (\<lambda>raw. Inr (ds, raw, N)))" for ssrc e n N
    using sender_turns_loop [of now journal_enabled "?g ssrc e n" n N]
      sender_turns_command [of journal_enabled now n "?g ssrc e n" N]
    by (cases "sender_turns journal_enabled now n (?g ssrc e n) N") (auto simp: sender_finish_def)
  have single: "midi_sender_send_single mem_ok now junk journal_enabled inbound_midi (Some c) ssrc N =
      bindr (command_event mem_ok (Some c)) (\<lambda>e. bindr (net_ctx_get_num_connections N) (\<lambda>(n, N).
      bindr (sender_turns journal_enabled now n (?g ssrc e n) N) (\<lambda>(ds, g, N).
      bindr (sender_finish inbound_midi g) (\<lambda>raw. Inr (ds, raw, N)))))" for ssrc
    unfolding midi_sender_send_single_def pl using loop by simp
  have handler: "midi_sender_handler mem_ok now junk journal_enabled inbound_midi (Some c) x S N =
      bindr ?origin (\<lambda>(ssrc, S). bindr (midi_sender_send_single mem_ok now junk journal_enabled inbound_midi (Some c) ssrc N)
        (\<lambda>(ds, raw, N). Inr (ds, raw, S, N)))"
    by (simp add: midi_sender_handler_def)
  show ?thesis
  proof (cases ?origin)
    case (Inr t)
    then show ?thesis unfolding handler sender_take_def single pl by (cases t) (simp add: bindr_assoc split_def)
  qed (simp add: handler sender_take_def)
qed

section \<open>What the steps keep\<close>

definition sending_ok :: "sending \<Rightarrow> bool" where
  "sending_ok g \<longleftrightarrow> command_complete (sg_command g) \<and> payload_for (sg_command g) (sg_payload g) \<and>
     command_event mem_ok (Some (sg_command g)) = Inr (sg_event g)"

lemma sender_take_ok:
  assumes "net_wf N" "command_wf c" "context_at S a = Inr d" "data_context_release (Some a) S = Inr (p, S')"
  shows "if command_complete c
    then \<exists>g. sender_take junk c (Some a) S N = Inr (g, S', N) \<and> sending_ok g \<and> sg_command g = c \<and> sg_index g = 0 \<and>
      sg_left g = length (addresses N)
    else \<exists>f. sender_take junk c (Some a) S N = Inl f"
proof -
  from command_to_payload_ok [OF assms(2), of junk] obtain pl where
    pl: "midi_command_to_payload mem_ok junk (Some c) = Inr (Some pl)" "payload_for c pl" by blast
  show ?thesis
  proof (cases "command_complete c")
    case True
    with command_event_ok [OF True] pl assms show ?thesis
      by (auto simp: sender_take_def num_connections_ok sending_ok_def)
  next
    case False
    with command_event_incomplete [OF assms(2)] pl(1) assms(3,4) show ?thesis by (simp add: sender_take_def)
  qed
qed

lemma sender_turn_split:
  assumes "net_wf N" "sending_ok g"
  shows "(\<forall>d g' N'. sender_turn journal_enabled now g N = Inr (d, g', N') \<longrightarrow>
      net_wf N' \<and> addresses N' = addresses N \<and> sending_ok g' \<and> sg_event g' = sg_event g) \<and>
    ((journal_enabled \<longrightarrow> journalable (sg_command g)) \<longrightarrow> (\<exists>r. sender_turn journal_enabled now g N = Inr r))"
proof (cases "sg_index g < length (addresses N)")
  case False
  then show ?thesis using assms by (auto simp: sender_turn_def find_by_index_ok [OF assms(1)] sending_ok_def)
next
  case True
  let ?a = "addresses N ! sg_index g" and ?c = "sg_command g"
  have a: "?a \<in> set (addresses N)" using True by simp
  then have x: "ctx_wf (context_of N ?a)" "ctx_at (nt_contexts N) ?a = Inr (context_of N ?a)"
    using assms(1) net_wf_context [OF assms(1) a] by (simp_all add: net_wf_def ctx_at_def)
  from assms(2) have c: "command_complete ?c" "command_wf ?c" "payload_for ?c (sg_payload g)"
    "command_event mem_ok (Some ?c) = Inr (sg_event g)" by (simp_all add: sending_ok_def command_complete_def)
  have turn: "sender_turn journal_enabled now g N =
      bindr (send_to_connection mem_ok now journal_enabled (sg_originator g) (sg_event g) (sg_payload g) (context_of N ?a)) (\<lambda>(d, pl, x).
      Inr (d, g\<lparr>sg_index := sg_index g + 1, sg_left := sg_left g - 1, sg_payload := pl\<rparr>, N\<lparr>nt_contexts := (nt_contexts N)(?a \<mapsto> x)\<rparr>))"
    using True x(2) by (simp add: sender_turn_def Let_def find_by_index_ok [OF assms(1)])
  have kept: "net_wf (N\<lparr>nt_contexts := (nt_contexts N)(?a \<mapsto> y)\<rparr>) \<and>
      addresses (N\<lparr>nt_contexts := (nt_contexts N)(?a \<mapsto> y)\<rparr>) = addresses N \<and>
      sending_ok (g\<lparr>sg_index := i, sg_left := n, sg_payload := pl\<rparr>)" if "ctx_wf y" "payload_for ?c pl" for y pl i n
    using context_update(1,2) [OF assms(1) a that(1)] that(2) assms(2) by (simp add: sending_ok_def)
  show ?thesis
  proof (cases "journal_enabled \<longrightarrow> (\<forall>ev. sg_event g = Some ev \<longrightarrow> event_fits ev)")
    case True
    from send_turn_ok [OF x(1) c(2,3) True, of now "sg_originator g"] kept show ?thesis unfolding turn by auto
  next
    case False
    with command_event_ok [OF c(1)] c(4) have j: "journal_enabled" "\<not> journalable ?c" by auto
    with command_event_release [OF c(1)] c(4) obtain ev where ev: "sg_event g = Some ev" "release_8 ev" by auto
    from send_release_turn [OF x(1) c(2,3) ev(2) j(1), of "sg_originator g" now] kept j ev(1) show ?thesis
      unfolding turn by (auto split: if_splits)
  qed
qed

lemma sender_finish_ok: "sending_ok g \<Longrightarrow> \<exists>raw. sender_finish inbound_midi g = Inr raw"
  by (simp add: sending_ok_def command_complete_def sender_finish_def raw_command_ok)

end
