(* ===== verification/Server.thy ===== *)
theory Server
  imports Socket_Safety Sender_Steps
begin

text \<open>
  The running program: datagrams arrive at the three sockets, the commands in them are queued, and the
  thread of the queue sends them on. Two threads work on the same connections and the same contexts of
  the commands. The queue is the list that \<open>Data_Queue\<close> shows it to be.

  A step of the listener is the reading of one datagram as a whole; a step of the sender is taking a
  command, one turn of its loop over the connections, or the end of the loop (\<open>Sender_Steps\<close>). That is coarser than the
  locks of the code, which are taken and given up several times within a step: interleavings within a
  step are not modelled. Nor is one that no lock rules out: a turn of the sender looks up its connection in the
  table without the lock of the table (\<^verbatim>\<open>net_ctx_find_by_index\<close> calls \<^verbatim>\<open>data_table_item_get\<close>, whose comment asks for it)
  while the listener may be reallocating the table in \<^verbatim>\<open>net_ctx_register\<close>.
\<close>

unbundle bit_operations_syntax

section \<open>State and steps\<close>

text \<open>\<open>sv_sending\<close> is the command the sender is at, None between two commands.\<close>

record server =
  sv_world :: world
  sv_queue :: "(midi_command \<times> nat option) list"
  sv_sending :: "sending option"

text \<open>What an arrival brings: memory, a working resolver, addresses that are not in use, and a datagram of
  at least one octet.\<close>

definition arrival_ok :: "machine \<Rightarrow> env \<Rightarrow> received \<Rightarrow> world \<Rightarrow> bool" where
  "arrival_ok M E rc W \<longleftrightarrow> env_ok E \<and> cstring_ok (rc_ip_address rc) \<and> en_address E \<notin> set (addresses (wd_net W)) \<and>
     (mc_ptr_size M = 4 \<or> mc_ptr_size M = 8) \<and> wd_contexts W (mc_context M) = None \<and>
     (\<forall>b\<in>set (addresses (wd_net W)). CHR 0x00 \<notin> set (mc_show_ptr M b)) \<and> length (addresses (wd_net W)) < 2 ^ 64 \<and>
     rc_bytes rc \<noteq> [] \<and> length (rc_bytes rc) \<le> NET_APPLEMIDI_UDPSIZE"

text \<open>The requests on the local socket are sent alone in their datagram.\<close>

definition request_alone :: "bytes \<Rightarrow> bool" where
  "request_alone xs \<longleftrightarrow> (take 4 xs \<in> {text_bytes ''STAT'', text_bytes ''QUIT'', text_bytes ''LIST''} \<longrightarrow> length xs = 4)"

text \<open>A step is labelled with what starts it. Whether journals are kept and the file for inbound MIDI is open is
  settled at the start of the program.\<close>

datatype action = Arrive machine env int received | Take midi_payload_header | Turn "64 word" | Finish

inductive serve :: "bool \<Rightarrow> bool \<Rightarrow> action \<Rightarrow> server \<Rightarrow> server \<Rightarrow> bool" for journal_enabled inbound_midi where
  arrive: "arrives_at (wd_sockets W) fd i a \<Longrightarrow> i < 3 \<Longrightarrow> arrival_ok M E rc W \<Longrightarrow> (i = 2 \<longrightarrow> request_alone (rc_bytes rc)) \<Longrightarrow>
    net_socket_read M E fd (Some rc) W = Inr (ret, es, W') \<Longrightarrow>
    serve journal_enabled inbound_midi (Arrive M E fd rc)
      \<lparr>sv_world = W, sv_queue = q, sv_sending = p\<rparr> \<lparr>sv_world = W', sv_queue = q @ queued_of es, sv_sending = p\<rparr>"
| take: "sender_take junk c x (wd_contexts W) (wd_net W) = Inr (g, S, N) \<Longrightarrow> mc_data_len c < 2 ^ 16 - 1 \<Longrightarrow>
    serve journal_enabled inbound_midi (Take junk)
      \<lparr>sv_world = W, sv_queue = (c, x) # q, sv_sending = None\<rparr>
      \<lparr>sv_world = W\<lparr>wd_net := N, wd_contexts := S\<rparr>, sv_queue = q, sv_sending = Some g\<rparr>"
| turn: "sender_turn journal_enabled now g (wd_net W) = Inr (d, g', N) \<Longrightarrow> 0 < sg_left g \<Longrightarrow>
    serve journal_enabled inbound_midi (Turn now)
      \<lparr>sv_world = W, sv_queue = q, sv_sending = Some g\<rparr> \<lparr>sv_world = W\<lparr>wd_net := N\<rparr>, sv_queue = q, sv_sending = Some g'\<rparr>"
| finish: "sender_finish inbound_midi g = Inr raw \<Longrightarrow> sg_left g = 0 \<Longrightarrow>
    serve journal_enabled inbound_midi Finish
      \<lparr>sv_world = W, sv_queue = q, sv_sending = Some g\<rparr> \<lparr>sv_world = W, sv_queue = q, sv_sending = None\<rparr>"

inductive_cases serveE: "serve journal_enabled inbound_midi l s s'"

definition step :: "bool \<Rightarrow> bool \<Rightarrow> server \<Rightarrow> server \<Rightarrow> bool" where
  "step journal_enabled inbound_midi s s' \<longleftrightarrow> (\<exists>l. serve journal_enabled inbound_midi l s s')"

abbreviation serves :: "bool \<Rightarrow> bool \<Rightarrow> server \<Rightarrow> server \<Rightarrow> bool" where
  "serves journal_enabled inbound_midi \<equiv> (step journal_enabled inbound_midi)\<^sup>*\<^sup>*"

section \<open>References to contexts\<close>

definition references :: "(midi_command \<times> nat option) list \<Rightarrow> nat \<Rightarrow> nat" where
  "references q a = length (filter (\<lambda>x. snd x = Some a) q)"

lemma references_simps [simp]:
  "references [] a = 0" "references (q @ q') a = references q a + references q' a"
  "references (x # q) a = (if snd x = Some a then Suc (references q a) else references q a)"
  "references (map (\<lambda>c. (c, Some b)) cs) a = (if a = b then length cs else 0)"
  by (auto simp: references_def filter_map comp_def)

text \<open>A context is there exactly while commands in the queue refer to it, and counts them.\<close>

definition queue_held :: "(midi_command \<times> nat option) list \<Rightarrow> sender_store \<Rightarrow> bool" where
  "queue_held q S \<longleftrightarrow> (\<forall>a. if references q a = 0 then S a = None else \<exists>d. held_by S a (references q a) d)"

lemma queue_held_taken:
  assumes q: "queue_held q S" and S: "S a = None" and t: "taken a es S S'"
  shows "queue_held (q @ queued_of es) S'"
proof -
  from t obtain cs d where cs: "queued_of es = map (\<lambda>c. (c, Some a)) cs" "\<forall>b. b \<noteq> a \<longrightarrow> S' b = S b"
    "if length cs = 0 then S' a = None else held_by S' a (length cs) (Some d)"
    by (auto simp: taken_def contexts_after_def)
  have none: "references q a = 0"
  proof (rule ccontr)
    assume "references q a \<noteq> 0"
    with q [unfolded queue_held_def, rule_format, of a] S show False by (auto simp: held_by_def)
  qed
  show ?thesis unfolding queue_held_def
  proof
    fix b
    show "if references (q @ queued_of es) b = 0 then S' b = None else \<exists>d. held_by S' b (references (q @ queued_of es) b) d"
    proof (cases "b = a")
      case True
      with cs(3) none show ?thesis by (auto simp: cs(1) split: if_splits)
    next
      case False
      with q [unfolded queue_held_def, rule_format, of b] cs(2) show ?thesis by (auto simp: cs(1) held_by_def live_def)
    qed
  qed
qed

lemma queue_held_release:
  assumes q: "queue_held ((c, Some a) # q) S"
  shows "\<exists>d S' p. context_at S a = Inr d \<and> data_context_release (Some a) S = Inr (p, S') \<and> queue_held q S'"
proof -
  from q [unfolded queue_held_def, rule_format, of a] obtain d where d: "held_by S a (Suc (references q a)) d" by auto
  from release_held [OF d] obtain S' p where
    S': "data_context_release (Some a) S = Inr (p, S')" "\<forall>b. b \<noteq> a \<longrightarrow> S' b = S b"
      "if references q a = 0 then S' a = None else held_by S' a (references q a) d" by blast
  from d obtain x where x: "context_at S a = Inr x" by (auto simp: held_by_def context_at_def)
  have "queue_held q S'" unfolding queue_held_def
  proof
    fix b
    show "if references q b = 0 then S' b = None else \<exists>d. held_by S' b (references q b) d"
    proof (cases "b = a")
      case True
      with S'(3) show ?thesis by auto
    next
      case False
      with q [unfolded queue_held_def, rule_format, of b] S'(2) show ?thesis by (auto simp: held_by_def live_def)
    qed
  qed
  with x S'(1) show ?thesis by blast
qed

section \<open>Well-formed states\<close>

definition server_wf :: "server \<Rightarrow> bool" where
  "server_wf s \<longleftrightarrow> sockets_wf (wd_sockets (sv_world s)) \<and> net_wf (wd_net (sv_world s)) \<and>
     (\<forall>(c, x)\<in>set (sv_queue s). command_marked c \<and> x \<noteq> None) \<and> queue_held (sv_queue s) (wd_contexts (sv_world s)) \<and>
     (\<forall>g. sv_sending s = Some g \<longrightarrow> sending_ok g)"

lemma command_marked_wf:
  assumes "command_marked c" "mc_data_len c < 2 ^ 16 - 1"
  shows "command_wf c"
proof -
  have "bit (mc_status c) 7"
  proof (rule ccontr)
    assume "\<not> bit (mc_status c) 7"
    then have "take_bit 7 (mc_status c) = mc_status c"
      by (intro bit_word_eqI) (auto simp: bit_take_bit_iff less_Suc_eq_le le_less eval_nat_numeral)
    then have "unat (mc_status c) < 2 ^ 7" by (metis unsigned_take_bit_eq take_bit_nat_less_exp)
    with assms(1) show False by (simp add: command_marked_def word_le_nat_alt)
  qed
  with assms show ?thesis by (auto simp: command_marked_def command_wf_def midi_bytes_def split: option.splits)
qed

text \<open>Taking a command, with its context held.\<close>

lemma take_held:
  assumes "net_wf N" "command_marked c" "mc_data_len c < 2 ^ 16 - 1" "queue_held ((c, Some a) # q) S"
  shows "\<exists>S'. queue_held q S' \<and> (if command_complete c
      then \<exists>g. sender_take junk c (Some a) S N = Inr (g, S', N) \<and> sending_ok g \<and> sg_command g = c \<and> sg_index g = 0 \<and>
        sg_left g = length (addresses N)
      else \<exists>f. sender_take junk c (Some a) S N = Inl f)"
proof -
  from queue_held_release [OF assms(4)] obtain d S' p where
    r: "context_at S a = Inr d" "data_context_release (Some a) S = Inr (p, S')" "queue_held q S'" by blast
  with sender_take_ok [OF assms(1) command_marked_wf [OF assms(2,3)] r(1,2), of junk] show ?thesis by blast
qed

lemma read_done_wf: "read_done a sd W W' \<Longrightarrow> sockets_wf (wd_sockets W')"
  by (simp add: read_done_def)

lemma serve_wf:
  assumes "serve journal_enabled inbound_midi l s s'" "server_wf s"
  shows "server_wf s'"
  using assms
proof (induction rule: serve.induct)
  case (arrive W fd i a M E rc ret es W' q p)
  then have wf: "net_wf (wd_net W)" "queue_held q (wd_contexts W)" "\<forall>(c, x)\<in>set q. command_marked c \<and> x \<noteq> None"
    by (simp_all add: server_wf_def)
  from arrive.hyps(3) have E: "env_ok E" "cstring_ok (rc_ip_address rc)" "en_address E \<notin> set (addresses (wd_net W))"
    "mc_ptr_size M = 4 \<or> mc_ptr_size M = 8" "wd_contexts W (mc_context M) = None"
    "\<forall>b\<in>set (addresses (wd_net W)). CHR 0x00 \<notin> set (mc_show_ptr M b)" "length (addresses (wd_net W)) < 2 ^ 64"
    "rc_bytes rc \<noteq> []" "length (rc_bytes rc) \<le> NET_APPLEMIDI_UDPSIZE" by (simp_all add: arrival_ok_def)
  have "sockets_wf (wd_sockets W') \<and> net_wf (wd_net W') \<and> taken (mc_context M) es (wd_contexts W) (wd_contexts W')"
  proof (cases "i = 2")
    case True
    have A: "en_alloc E = mem_ok" using E(1) by (simp add: env_ok_def)
    from arrive.hyps(1,4) True have "arrives_at (wd_sockets W) fd 2 a" "request_alone (rc_bytes rc)" by simp_all
    from local_read_either [OF this(1) wf(1) A E(6,7) refl E(8,9) this(2) [unfolded request_alone_def] E(5) arrive.hyps(5)] wf(1)
    show ?thesis by (auto dest: read_done_wf)
  next
    case False
    with arrive.hyps(2) have "i < 2" by simp
    from peer_read [OF arrive.hyps(1) this wf(1) E(1-5) refl E(8,9)] arrive.hyps(5) show ?thesis
      by (auto simp: well_read_def responded_def dest: read_done_wf split: if_splits)
  qed
  then have t: "sockets_wf (wd_sockets W')" "net_wf (wd_net W')" "taken (mc_context M) es (wd_contexts W) (wd_contexts W')" by blast+
  from t(3) have "\<forall>(c, x)\<in>set (queued_of es). command_marked c \<and> x \<noteq> None" by (auto simp: taken_def)
  with t wf(3) queue_held_taken [OF wf(2) E(5) t(3)] arrive.prems show ?case by (auto simp: server_wf_def)
next
  case (take junk c x W g S N q)
  then obtain a where x: "x = Some a" and wf: "net_wf (wd_net W)" "sockets_wf (wd_sockets W)" "command_marked c"
      "queue_held ((c, Some a) # q) (wd_contexts W)" "\<forall>(c, x)\<in>set q. command_marked c \<and> x \<noteq> None"
    by (auto simp: server_wf_def)
  from take_held [OF wf(1,3) take.hyps(2) wf(4), of junk] obtain S' where
    "queue_held q S'" "S = S'" "N = wd_net W" "sending_ok g" using take.hyps(1) unfolding x by (auto split: if_splits)
  with wf show ?case by (auto simp: server_wf_def)
next
  case (turn now g W d g' N q)
  then have "net_wf (wd_net W)" "sending_ok g" by (simp_all add: server_wf_def)
  from sender_turn_split [OF this, of journal_enabled now] turn show ?case by (auto simp: server_wf_def)
next
  case (finish g raw W q)
  then show ?case by (simp add: server_wf_def)
qed

lemma serves_wf: "serves journal_enabled inbound_midi s s' \<Longrightarrow> server_wf s \<Longrightarrow> server_wf s'"
  by (induction rule: rtranclp_induct) (auto simp: step_def intro: serve_wf)

text \<open>A datagram that can be read is read.\<close>

lemma arrival_read:
  assumes wf: "server_wf s" and at: "arrives_at (wd_sockets (sv_world s)) fd i a" "i < 3" and ok: "arrival_ok M E rc (sv_world s)"
    and rd: "if i = 2 then request_alone (rc_bytes rc) \<and>
        (rc_bytes rc = text_bytes ''LIST'' \<longrightarrow> list_fits (mc_stays M) (mc_show_ptr M) (wd_net (sv_world s)))
      else datagram_readable M (wd_net (sv_world s)) (rc_bytes rc)"
  shows "\<exists>ret es W'. net_socket_read M E fd (Some rc) (sv_world s) = Inr (ret, es, W')"
proof -
  let ?W = "sv_world s"
  have N: "net_wf (wd_net ?W)" using wf by (simp add: server_wf_def)
  from ok have E: "env_ok E" "cstring_ok (rc_ip_address rc)" "en_address E \<notin> set (addresses (wd_net ?W))"
    "mc_ptr_size M = 4 \<or> mc_ptr_size M = 8" "wd_contexts ?W (mc_context M) = None"
    "\<forall>b\<in>set (addresses (wd_net ?W)). CHR 0x00 \<notin> set (mc_show_ptr M b)" "length (addresses (wd_net ?W)) < 2 ^ 64"
    "rc_bytes rc \<noteq> []" "length (rc_bytes rc) \<le> NET_APPLEMIDI_UDPSIZE" by (simp_all add: arrival_ok_def)
  show ?thesis
  proof (cases "i = 2")
    case True
    have A: "en_alloc E = mem_ok" using E(1) by (simp add: env_ok_def)
    from at(1) rd True have l: "arrives_at (wd_sockets ?W) fd 2 a" "request_alone (rc_bytes rc)"
      "rc_bytes rc = text_bytes ''LIST'' \<longrightarrow> list_fits (mc_stays M) (mc_show_ptr M) (wd_net ?W)" by simp_all
    have "rc_bytes rc = text_bytes ''LIST'' \<longrightarrow>
        net_ctx_connections_to_string mem_ok (mc_stays M) (mc_junk M) (mc_show_ptr M) (wd_net ?W) \<noteq> Inl UseAfterFree"
      using connections_string_ok [OF N E(6,7) l(3) [THEN mp], of "mc_junk M"] by auto
    from local_read_safe [OF l(1) N A E(6,7) refl E(8,9) l(2) [unfolded request_alone_def] E(5) this] show ?thesis by blast
  next
    case False
    with at(2) have "i < 2" by simp
    from peer_read [OF at(1) this N E(1-5) refl E(8,9)] rd False show ?thesis by auto
  qed
qed

section \<open>From one side to the other\<close>

lemma channel_message_complete:
  assumes "channel_message (mc_status c, d)" "mc_data c = Some d" "mc_data_len c = length d"
  shows "command_complete c" "length (midi_bytes c) \<le> 3" "mc_data_len c < 2 ^ 16 - 1"
proof -
  let ?n = "unat (mc_status c) div 16"
  have st: "0x80 \<le> mc_status c" "mc_status c < 0xF0" and len: "length d = midi_data_bytes (mc_status c)"
    using assms(1) by (simp_all add: channel_message_def)
  have two: "length d \<in> {1, 2}" using len data_bytes_high [OF st] by simp
  then show "length (midi_bytes c) \<le> 3" "mc_data_len c < 2 ^ 16 - 1" using assms(2,3) by (auto simp: midi_bytes_def)
  have "unat (mc_status c) < 256" using unsigned_less [of "mc_status c", where 'a = nat] by simp
  then have hi: "unat (drop_bit 4 (mc_status c)) = ?n"
    by (simp add: unsigned_drop_bit_eq drop_bit_eq_div [where 'a = nat] take_bit_nat_eq_self)
  have wf: "command_wf c"
    by (rule command_marked_wf) (use st two assms(2,3) in \<open>auto simp: command_marked_def\<close>)
  have "snd (midi_command_map c) \<notin> {MIDI_NOTE_OFF, MIDI_NOTE_ON, MIDI_CONTROL_CHANGE}" if one: "length d = 1"
  proof -
    from one len have "midi_data_bytes (mc_status c) = 1" by simp
    with st have "?n = 12 \<or> ?n = 13"
      by (auto simp: midi_data_bytes_def word_le_nat_alt word_less_nat_alt split: if_splits)
    then have "drop_bit 4 (mc_status c) = 12 \<or> drop_bit 4 (mc_status c) = 13" using hi by (simp add: word_unat_eq_iff)
    moreover have "\<not> 0xF0 \<le> mc_status c" using st(2) by simp
    ultimately show ?thesis by (elim disjE) (simp_all add: midi_command_map_def midi_message_map_def mmsg_def high_nibble)
  qed
  with wf assms(3) show "command_complete c" by (auto simp: command_complete_def)
qed

text \<open>A packet with a short command, as it is taken apart.\<close>

lemma sent_header_bytes: "rtp_header_bytes (sent_rtp_header now x) ! 0 = 0x80"
proof -
  have "rtp_header_word (sent_rtp_header now x) = 0x8061" by (simp add: rtp_header_word_def sent_rtp_header_def)
  moreover have "be_bytes 2 (0x8061 :: 16 word) = [0x80, 0x61]" by code_simp
  ultimately show ?thesis by (simp add: rtp_header_bytes_def)
qed

lemma sent_packet_parsed:
  assumes "length (midi_bytes c) \<le> 15"
  shows "rp_header (rtp_parse (sent_packet now c x)) = sent_rtp_header now x"
    "\<exists>h. rtp_section (sent_packet now c x) = Some \<lparr>pl_header = Some h, pl_buffer = Some (midi_bytes c)\<rparr> \<and> ph_Z h = 0"
    "12 \<le> length (sent_packet now c x)" "sent_packet now c x ! 0 = 0x80"
proof -
  let ?h = "sent_payload_header c (journal_bytes (nc_journal x) \<noteq> [])"
  let ?s = "payload_header_bytes ?h @ midi_bytes c @ journal_bytes (nc_journal x)"
  have p: "sent_packet now c x = rtp_header_bytes (sent_rtp_header now x) @ ?s" by (simp add: sent_packet_def)
  show "rp_header (rtp_parse (sent_packet now c x)) = sent_rtp_header now x" unfolding p rtp_parse_bytes by simp
  show "12 \<le> length (sent_packet now c x)" unfolding p by simp
  show "sent_packet now c x ! 0 = 0x80" using sent_header_bytes unfolding p by (simp add: nth_append)
  have "unat (of_nat (length (midi_bytes c)) :: 16 word) = length (midi_bytes c)"
    by (rule unat_of_nat_less) (use assms in simp)
  then have len: "length (midi_bytes c) = unat (ph_len ?h)" by (simp add: sent_payload_header_def)
  have ne: "?s \<noteq> []" by (simp add: midi_bytes_def)
  have "rtp_section (sent_packet now c x) = payload_parse ?s"
    unfolding rtp_section_def p rtp_parse_bytes using ne by (simp only: rtp_packet.select_convs if_False option.case)
  also have "\<dots> = Some \<lparr>pl_header = Some \<lparr>ph_B = 0, ph_J = one_if (ph_J ?h \<noteq> 0), ph_Z = one_if (ph_Z ?h \<noteq> 0),
      ph_P = one_if (ph_P ?h \<noteq> 0), ph_len = ph_len ?h\<rparr>, pl_buffer = Some (midi_bytes c)\<rparr>"
    by (rule payload_parse_short [OF len assms]) (simp add: sent_payload_header_def)
  finally show "\<exists>h. rtp_section (sent_packet now c x) = Some \<lparr>pl_header = Some h, pl_buffer = Some (midi_bytes c)\<rparr> \<and> ph_Z h = 0"
    by (simp add: sent_payload_header_def one_if_def)
qed

lemma parse_first_message:
  assumes "pa_status p = MIDI_STATE_INIT" "\<not> pa_timed p" "pa_hold p = []" "channel_message (st, d)"
  shows "fst (midi_parse mode (st # d) p) = [cmd 0 st (Some d)]"
  using parse_message_at [OF _ _ assms(4), of "parse_start p" mode] assms(1-3) unfolding midi_parse_start
  by (simp add: parse_start_def)

lemma peer_kept:
  assumes "addresses N' = addresses N" "\<forall>a\<in>set (addresses N). turn_done journal_enabled originator e (context_of N a) (context_of N' a)"
  shows "peer N' ssrc = peer N ssrc"
  unfolding peer_def assms(1)
proof (rule find_cong [OF refl])
  fix a assume "a \<in> set (addresses N)"
  with assms(2) have "turn_done journal_enabled originator e (context_of N a) (context_of N' a)" by blast
  then show "used_with_ssrc N' ssrc a = used_with_ssrc N ssrc a"
    by (auto simp: used_with_ssrc_def turn_done_def connection_after_def split: if_splits)
qed

section \<open>Properties\<close>

text \<open>The program with its sockets open, no connections and nothing in the queue.\<close>

definition start_server :: "sockets \<Rightarrow> server" where
  "start_server K = \<lparr>sv_world = \<lparr>wd_sockets = K, wd_net = net_start, wd_contexts = Map.empty\<rparr>, sv_queue = [], sv_sending = None\<rparr>"

lemma start_server_wf: "listening E fds K \<Longrightarrow> server_wf (start_server K)"
  by (simp add: start_server_def server_wf_def listening_def net_start_wf queue_held_def)

text \<open>C1: Whatever arrives and however the arrivals are interleaved with the turns of the sender, the program that
  survives it has well-formed sockets and connections, each with an idle parser that has room for a
  datagram. A context exists exactly as long as commands in the queue refer to it, its count of
  references is the number of these commands, and it is not locked: none is leaked and none used
  after it was freed. Every command in the queue has a status byte and the data it says it has, and the one
  on its way all that its status calls for. Arrivals are datagrams of any octets up to the size of the buffer,
  except that a request on the local socket is alone in its datagram; there is memory for them, and a command that
  is taken has less than 65535 data octets. A step of the listener is a whole datagram and one of the sender the
  taking of a command, the turn for one connection, or the end of the loop; what may happen within a step, where
  the code takes its locks more than once or, to look a connection up, not at all, is left out.\<close>

theorem server_invariant:
  assumes "listening E fds K" "serves journal_enabled inbound_midi (start_server K) s"
  shows "sockets_wf (wd_sockets (sv_world s)) \<and> net_wf (wd_net (sv_world s)) \<and>
    (\<forall>a. wd_contexts (sv_world s) a = None \<longleftrightarrow> references (sv_queue s) a = 0) \<and>
    (\<forall>a d. wd_contexts (sv_world s) a = Some d \<longrightarrow> unat (dx_reference d) = references (sv_queue s) a \<and> \<not> dx_held d) \<and>
    (\<forall>(c, x)\<in>set (sv_queue s). x \<noteq> None \<and> 0x80 \<le> mc_status c \<and> length (midi_bytes c) = mc_data_len c + 1) \<and>
    (\<forall>g. sv_sending s = Some g \<longrightarrow> command_complete (sg_command g) \<and> payload_for (sg_command g) (sg_payload g))"
proof -
  from serves_wf [OF assms(2) start_server_wf [OF assms(1)]] have wf: "server_wf s" .
  then have q: "\<And>a. if references (sv_queue s) a = 0 then wd_contexts (sv_world s) a = None
      else \<exists>d. held_by (wd_contexts (sv_world s)) a (references (sv_queue s) a) d"
    by (simp add: server_wf_def queue_held_def)
  have "wd_contexts (sv_world s) a = None \<longleftrightarrow> references (sv_queue s) a = 0" for a
    using q [of a] by (auto simp: held_by_def split: if_splits)
  moreover have "unat (dx_reference d) = references (sv_queue s) a \<and> \<not> dx_held d" if "wd_contexts (sv_world s) a = Some d" for a d
    using q [of a] that by (auto simp: held_by_def live_def split: if_splits)
  moreover have "length (midi_bytes c) = mc_data_len c + 1" if "command_marked c" for c
    using that by (simp add: command_marked_def midi_bytes_def split: option.splits)
  moreover have "command_complete (sg_command g) \<and> payload_for (sg_command g) (sg_payload g)" if "sv_sending s = Some g" for g
    using wf that by (simp add: server_wf_def sending_ok_def)
  ultimately show ?thesis using wf by (fastforce simp: server_wf_def command_marked_def)
qed

definition invitation_packet :: bytes where
  "invitation_packet = [0xff, 0xff, 0x49, 0x4e, 0, 0, 0, 2, 0x12, 0x34, 0x56, 0x78, 0, 0, 0, 77]"

lemma invitation_served:
  "\<exists>K s. listening env_listen [4, 5, 6] K \<and> step True False (start_server K) s"
proof -
  from sockets_example obtain K where K: "listening env_listen [4, 5, 6] K" by blast
  have at: "arrives_at K 4 0 3" using listening_arrives [OF K, of 0] by (simp add: env_listen_def env_example_def)
  let ?W = "\<lparr>wd_sockets = K, wd_net = net_start, wd_contexts = Map.empty\<rparr>"
  let ?rc = "\<lparr>rc_bytes = invitation_packet, rc_ip_address = None, rc_port = 9\<rparr>"
  have ok: "arrival_ok machine_example env_example ?rc ?W"
    by (simp add: arrival_ok_def env_example_ok cstring_ok_def net_start_wf machine_example_def invitation_packet_def NET_APPLEMIDI_UDPSIZE_def)
  have "datagram_readable machine_example net_start invitation_packet"
    by (simp add: datagram_readable_def session_readable_def be_word_def inv_command_def NET_APPLEMIDI_CMD_INV_def invitation_packet_def)
  with peer_read [where W = ?W and rc = ?rc and i = 0 and fd = 4 and a = 3 and E = env_example and M = machine_example] at ok
  obtain ret es W' where "net_socket_read machine_example env_example 4 (Some ?rc) ?W = Inr (ret, es, W')"
    by (auto simp: arrival_ok_def net_start_wf)
  from serve.arrive [where W = ?W and i = 0 and a = 3, OF _ _ ok _ this, of True False "[]" None] at
  have "step True False (start_server K) \<lparr>sv_world = W', sv_queue = queued_of es, sv_sending = None\<rparr>"
    by (auto simp: step_def start_server_def)
  with K show ?thesis by blast
qed

theorem server_invariant_witness:
  "\<exists>K s. step True False (start_server K) s \<and> sockets_wf (wd_sockets (sv_world s)) \<and> net_wf (wd_net (sv_world s))"
proof -
  from invitation_served obtain K s where "listening env_listen [4, 5, 6] K" "step True False (start_server K) s" by blast
  with server_invariant [OF this(1) r_into_rtranclp [where r = "step True False", OF this(2)]] show ?thesis by blast
qed

text \<open>C12: The program does not get stuck on what it survives, whether it keeps journals or not. In every state that it
  reaches, also while a command is on its way: a datagram from a peer that can be read, and any on the local socket,
  is read, and what is queued is what reading it queues (a list of connections needs a block that holds
  it or is extended where it lies). When the sender is free, a command at the head of the queue that has
  the data its status calls for is taken. With a command on its way, which with journals must be no release of a note whose number
  is a multiple of 8, the turn for the next connection can be made and leaves one less to make; when none is left
  the sender becomes free.\<close>

theorem server_progress:
  assumes "listening E fds K" "serves journal_enabled inbound_midi (start_server K) s"
  shows "(\<forall>fd i a M E rc. arrives_at (wd_sockets (sv_world s)) fd i a \<and> i < 3 \<and> arrival_ok M E rc (sv_world s) \<and>
      (if i = 2 then request_alone (rc_bytes rc) \<and>
         (rc_bytes rc = text_bytes ''LIST'' \<longrightarrow> list_fits (mc_stays M) (mc_show_ptr M) (wd_net (sv_world s)))
       else datagram_readable M (wd_net (sv_world s)) (rc_bytes rc)) \<longrightarrow>
      (\<exists>ret es W'. net_socket_read M E fd (Some rc) (sv_world s) = Inr (ret, es, W') \<and>
        serve journal_enabled inbound_midi (Arrive M E fd rc) s
          (s\<lparr>sv_world := W', sv_queue := sv_queue s @ queued_of es\<rparr>))) \<and>
    (\<forall>junk c x q. sv_sending s = None \<and> sv_queue s = (c, x) # q \<and> command_complete c \<longrightarrow>
      (\<exists>g s'. serve journal_enabled inbound_midi (Take junk) s s' \<and> sv_queue s' = q \<and> sv_sending s' = Some g \<and>
        sg_command g = c \<and> sg_index g = 0 \<and> sg_left g = length (addresses (wd_net (sv_world s))))) \<and>
    (\<forall>now g. sv_sending s = Some g \<and> 0 < sg_left g \<and> (journal_enabled \<longrightarrow> journalable (sg_command g)) \<longrightarrow>
      (\<exists>g' s'. serve journal_enabled inbound_midi (Turn now) s s' \<and> sv_queue s' = sv_queue s \<and> sv_sending s' = Some g' \<and>
        sg_command g' = sg_command g \<and> sg_index g' = sg_index g + 1 \<and> sg_left g = sg_left g' + 1)) \<and>
    (\<forall>g. sv_sending s = Some g \<and> sg_left g = 0 \<longrightarrow>
      serve journal_enabled inbound_midi Finish s (s\<lparr>sv_sending := None\<rparr>))"
proof (intro conjI allI impI; elim conjE)
  let ?W = "sv_world s"
  from serves_wf [OF assms(2) start_server_wf [OF assms(1)]] have wf: "server_wf s" .
  then have N: "net_wf (wd_net ?W)" by (simp add: server_wf_def)
  have s: "s = \<lparr>sv_world = ?W, sv_queue = sv_queue s, sv_sending = sv_sending s\<rparr>" by simp
  {
    fix fd i a M E rc
    assume at: "arrives_at (wd_sockets ?W) fd i a" "i < 3" and ok: "arrival_ok M E rc ?W"
      and rd: "if i = 2 then request_alone (rc_bytes rc) \<and>
          (rc_bytes rc = text_bytes ''LIST'' \<longrightarrow> list_fits (mc_stays M) (mc_show_ptr M) (wd_net ?W))
        else datagram_readable M (wd_net ?W) (rc_bytes rc)"
    from arrival_read [OF wf at ok rd] obtain ret es W' where r: "net_socket_read M E fd (Some rc) ?W = Inr (ret, es, W')" by blast
    have "i = 2 \<longrightarrow> request_alone (rc_bytes rc)" using rd by auto
    from serve.arrive [OF at ok this r, of journal_enabled inbound_midi "sv_queue s" "sv_sending s"] s r
    show "\<exists>ret es W'. net_socket_read M E fd (Some rc) ?W = Inr (ret, es, W') \<and>
        serve journal_enabled inbound_midi (Arrive M E fd rc) s (s\<lparr>sv_world := W', sv_queue := sv_queue s @ queued_of es\<rparr>)"
      by (cases s) auto
  next
    fix junk c x q assume q: "sv_sending s = None" "sv_queue s = (c, x) # q" and c: "command_complete c"
    from wf q obtain a where a: "x = Some a" "command_marked c" "queue_held ((c, Some a) # q) (wd_contexts ?W)"
      by (auto simp: server_wf_def)
    have len: "mc_data_len c < 2 ^ 16 - 1" using c by (simp add: command_complete_def command_wf_def)
    from take_held [OF N a(2) len a(3), of junk] c obtain g S' where
      g: "sender_take junk c (Some a) (wd_contexts ?W) (wd_net ?W) = Inr (g, S', wd_net ?W)" "sg_command g = c" "sg_index g = 0"
        "sg_left g = length (addresses (wd_net ?W))" by (auto simp del: split_paired_Ex)
    let ?s' = "\<lparr>sv_world = ?W\<lparr>wd_net := wd_net ?W, wd_contexts := S'\<rparr>, sv_queue = q, sv_sending = Some g\<rparr>"
    have "serve journal_enabled inbound_midi (Take junk) s ?s'"
      using serve.take [OF g(1) len, of journal_enabled inbound_midi q] q a(1) by (cases s) simp
    with g(2-4) show "\<exists>g s'. serve journal_enabled inbound_midi (Take junk) s s' \<and> sv_queue s' = q \<and> sv_sending s' = Some g \<and>
        sg_command g = c \<and> sg_index g = 0 \<and> sg_left g = length (addresses (wd_net ?W))"
      by (intro exI [of _ g] exI [of _ ?s']) simp
  next
    fix now g assume g: "sv_sending s = Some g" "0 < sg_left g" "journal_enabled \<longrightarrow> journalable (sg_command g)"
    with wf have "sending_ok g" by (simp add: server_wf_def)
    from sender_turn_split [OF N this, of journal_enabled now] g(3) obtain d g' N' where
      t: "sender_turn journal_enabled now g (wd_net ?W) = Inr (d, g', N')" by auto
    let ?s' = "\<lparr>sv_world = ?W\<lparr>wd_net := N'\<rparr>, sv_queue = sv_queue s, sv_sending = Some g'\<rparr>"
    have "serve journal_enabled inbound_midi (Turn now) s ?s'"
      using serve.turn [OF t g(2), of inbound_midi "sv_queue s"] g(1) by (cases s) simp
    with g(2) sender_turn_command [OF t] show "\<exists>g' s'. serve journal_enabled inbound_midi (Turn now) s s' \<and> sv_queue s' = sv_queue s \<and> sv_sending s' = Some g' \<and>
        sg_command g' = sg_command g \<and> sg_index g' = sg_index g + 1 \<and> sg_left g = sg_left g' + 1"
      by (intro exI [of _ g'] exI [of _ ?s']) simp
  next
    fix g assume g: "sv_sending s = Some g" "sg_left g = 0"
    with wf have "sending_ok g" by (simp add: server_wf_def)
    from sender_finish_ok [OF this, of inbound_midi] obtain raw where "sender_finish inbound_midi g = Inr raw" by blast
    from serve.finish [OF this g(2), of journal_enabled ?W "sv_queue s"] s g(1)
    show "serve journal_enabled inbound_midi Finish s (s\<lparr>sv_sending := None\<rparr>)" by (cases s) auto
  }
qed

theorem server_progress_witness:
  "\<exists>K es W'. serve True False (Arrive machine_example env_example 6 \<lparr>rc_bytes = text_bytes ''QUIT'', rc_ip_address = None, rc_port = 9\<rparr>)
    (start_server K) ((start_server K)\<lparr>sv_world := W', sv_queue := queued_of es\<rparr>)"
proof -
  from sockets_example obtain K where K: "listening env_listen [4, 5, 6] K" by blast
  have at: "arrives_at K 6 2 5" using listening_arrives [OF K, of 2] by (simp add: env_listen_def env_example_def)
  let ?rc = "\<lparr>rc_bytes = text_bytes ''QUIT'', rc_ip_address = None, rc_port = 9\<rparr>"
  have w: "sv_world (start_server K) = \<lparr>wd_sockets = K, wd_net = net_start, wd_contexts = Map.empty\<rparr>" "sv_queue (start_server K) = []"
    by (simp_all add: start_server_def)
  have "arrival_ok machine_example env_example ?rc (sv_world (start_server K))" unfolding w
    by (simp add: arrival_ok_def env_example_ok cstring_ok_def net_start_wf machine_example_def text_bytes_def NET_APPLEMIDI_UDPSIZE_def)
  moreover have "request_alone (rc_bytes ?rc)" using words_4 by (simp add: request_alone_def)
  moreover have "rc_bytes ?rc \<noteq> text_bytes ''LIST''" using words_4 by simp
  moreover have "arrives_at (wd_sockets (sv_world (start_server K))) 6 2 5" using at by (simp add: w)
  ultimately show ?thesis
    using server_progress [OF K rtranclp.rtrancl_refl, of True False, THEN conjunct1, rule_format, of 6 2 5 machine_example env_example ?rc] w(2)
    by auto
qed

text \<open>The receiver's part: a packet sent by a connection of another program arrives.\<close>

lemma sent_packet_taken:
  assumes "arrives_at (wd_sockets W) fd 1 at" "net_wf (wd_net W)" "env_ok E" "cstring_ok (rc_ip_address rc)"
      "en_address E \<notin> set (addresses (wd_net W))" "mc_ptr_size M = 4 \<or> mc_ptr_size M = 8" "wd_contexts W (mc_context M) = None"
    and rc: "rc_bytes rc = sent_packet now c x" "length (sent_packet now c x) \<le> NET_APPLEMIDI_UDPSIZE"
    and p: "peer (wd_net W) (nc_send_ssrc x) = Some b"
      "ms_status (peer_parser (wd_net W) b) = MIDI_STATE_INIT" "dbuffer_view (ms_hold (peer_parser (wd_net W) b)) = []"
    and m: "channel_message (mc_status c, d)" "mc_data c = Some d" "mc_data_len c = length d"
  shows "\<exists>r W'. net_socket_read M E fd (Some rc) W =
      Inr (0, [Reply (wire r), Queued (c\<lparr>mc_delta := 0\<rparr>) (Some (mc_context M))], W') \<and>
    arrives r (feedback_command (nc_send_ssrc x) (ucast (nc_seq x + 1))) \<and>
    held_by (wd_contexts W') (mc_context M) 1 (Some \<lparr>sx_ssrc = nc_send_ssrc x, sx_alsa_card_hash = 0\<rparr>)"
proof -
  let ?p = "sent_packet now c x"
  have "length (midi_bytes c) \<le> 15" using channel_message_complete(2) [OF m] by simp
  note sp = sent_packet_parsed [OF this, of now x]
  from sp(2) obtain h where sec: "rtp_section ?p = Some \<lparr>pl_header = Some h, pl_buffer = Some (midi_bytes c)\<rparr>" "ph_Z h = 0" by blast
  let ?pl = "\<lparr>pl_header = Some h, pl_buffer = Some (midi_bytes c)\<rparr>"
  have A: "en_alloc E = mem_ok" using assms(3) by (simp add: env_ok_def)
  have cmds: "rtp_commands ?p ?pl (peer_parser (wd_net W) b) = [c\<lparr>mc_delta := 0\<rparr>]"
    using parse_first_message [OF _ _ _ m(1), of "parser_of False (peer_parser (wd_net W) b)" MIDI_PARSE_MODE_RTP] p(2,3) m(2,3) sec(2)
    by (cases c) (simp add: rtp_commands_def midi_bytes_def cmd_def)
  have v: "rh_v (rp_header (rtp_parse ?p)) = RTP_VERSION" "peer (wd_net W) (rh_ssrc (rp_header (rtp_parse ?p))) = Some b"
    using p(1) unfolding sp(1) by (simp_all add: sent_rtp_header_def RTP_VERSION_def)
  have nc: "\<not> (?p ! 0 = 0xff \<and> ?p ! 1 = 0xff)" using sp(4) by simp
  from rtp_socket_read [OF assms(1,2) A rc(1) sp(3) rc(2) nc refl, of M] v sec(1) obtain es W' where
    t: "net_socket_read M E fd (Some rc) W = Inr (0, es, W')"
      "rtp_taken M ?p ?pl b (wd_net W) (wd_contexts W) es (wd_net W') (wd_contexts W')" by blast
  from t(2) obtain x' where "arrives x' (feedback_command (nc_send_ssrc x) (ucast (nc_seq x + 1)))"
    "es = [Reply (wire x'), Queued (c\<lparr>mc_delta := 0\<rparr>) (Some (mc_context M))]"
    "held_by (wd_contexts W') (mc_context M) 1 (Some \<lparr>sx_ssrc = nc_send_ssrc x, sx_alsa_card_hash = 0\<rparr>)"
    unfolding rtp_taken_def Let_def sp(1) cmds by (auto simp: sent_rtp_header_def queued_def contexts_after_def)
  with t(1) show ?thesis by blast
qed

text \<open>C2: A channel message on its way from one program to another. The message has the data its status
  calls for and, with journals kept, is no release of a note whose number is a multiple of 8 (on which the
  sender faults). The sender hands the network a packet for
  every connection but the one the message came from; when the packet of a connection arrives at a program that
  knows this SSRC and whose parser for it is between two commands and holds nothing back (what a command
  cut off can leave behind, \<open>command_cut_off\<close> shows), exactly this message is queued there, marked
  with where it came from, and a feedback command goes back. The feedback names the SSRC of the sender
  itself: unless the sender happens to have a peer of this SSRC it finds no connection by it, and no
  journal is ever cleared.\<close>

theorem command_arrives:
  assumes N: "net_wf N" "i < length (addresses N)" "x = context_of N (addresses N ! i)" "nc_ssrc x \<noteq> originator" "nc_data_address_len x \<noteq> 0"
    and c: "channel_message (mc_status c, d)" "mc_data c = Some d" "mc_data_len c = length d" "journal_enabled \<longrightarrow> journalable c"
    and W: "arrives_at (wd_sockets W) fd 1 at" "net_wf (wd_net W)" "env_ok E" "cstring_ok (rc_ip_address rc)"
      "en_address E \<notin> set (addresses (wd_net W))" "mc_ptr_size M = 4 \<or> mc_ptr_size M = 8" "wd_contexts W (mc_context M) = None"
    and rc: "rc_bytes rc = sent_packet (now i) c x" "length (sent_packet (now i) c x) \<le> NET_APPLEMIDI_UDPSIZE"
    and p: "peer (wd_net W) (nc_send_ssrc x) = Some b"
      "ms_status (peer_parser (wd_net W) b) = MIDI_STATE_INIT" "dbuffer_view (ms_hold (peer_parser (wd_net W) b)) = []"
  shows "\<exists>ds raw N' r W' f. midi_sender_send_single mem_ok now junk journal_enabled inbound_midi (Some c) originator N = Inr (ds, raw, N') \<and>
    \<lparr>dg_control = False, dg_address = take (nc_data_address_len x) (nc_data_address x), dg_bytes = rc_bytes rc\<rparr> \<in> set ds \<and>
    net_socket_read M E fd (Some rc) W = Inr (0, [Reply (wire r), Queued (c\<lparr>mc_delta := 0\<rparr>) (Some (mc_context M))], W') \<and>
    held_by (wd_contexts W') (mc_context M) 1 (Some \<lparr>sx_ssrc = nc_send_ssrc x, sx_alsa_card_hash = 0\<rparr>) \<and>
    arrives r \<lparr>ac_signature = 0xffff, ac_command = NET_APPLEMIDI_CMD_FEEDBACK, ac_data = FeedbackData f\<rparr> \<and>
    fb_ssrc f = nc_send_ssrc x \<and> rtp_seq_1 f = ucast (nc_seq (context_of N' (addresses N ! i))) \<and>
    (peer N (nc_send_ssrc x) = None \<longrightarrow> applemidi_feedback_responder (Some f) N' = Inr N')"
proof -
  note complete = channel_message_complete [OF c(1-3)]
  from send_single_ok [OF N(1) complete(1) c(4), of now junk inbound_midi originator] obtain N' e where
    s: "midi_sender_send_single mem_ok now junk journal_enabled inbound_midi (Some c) originator N =
        Inr (concat (map (sent_by_turn now originator c N) [0..<length (addresses N)]),
           if inbound_midi then Some (midi_bytes c) else None, N')" "net_wf N'" "addresses N' = addresses N"
      "\<forall>a\<in>set (addresses N). turn_done journal_enabled originator e (context_of N a) (context_of N' a)" by blast
  have "sent_by_turn now originator c N i =
      [\<lparr>dg_control = False, dg_address = take (nc_data_address_len x) (nc_data_address x), dg_bytes = rc_bytes rc\<rparr>]"
    using N(3-5) rc(1) by (simp add: sent_by_turn_def datagrams_to_def Let_def)
  with N(2) have ds: "\<lparr>dg_control = False, dg_address = take (nc_data_address_len x) (nc_data_address x), dg_bytes = rc_bytes rc\<rparr> \<in>
      set (concat (map (sent_by_turn now originator c N) [0..<length (addresses N)]))" by force
  from sent_packet_taken [OF W rc p c(1-3)] obtain r W' where
    r: "net_socket_read M E fd (Some rc) W = Inr (0, [Reply (wire r), Queued (c\<lparr>mc_delta := 0\<rparr>) (Some (mc_context M))], W')"
      "arrives r (feedback_command (nc_send_ssrc x) (ucast (nc_seq x + 1)))"
      "held_by (wd_contexts W') (mc_context M) 1 (Some \<lparr>sx_ssrc = nc_send_ssrc x, sx_alsa_card_hash = 0\<rparr>)" by blast
  let ?f = "\<lparr>fb_ssrc = nc_send_ssrc x, fb_apple_seq = push_bit 16 (ucast (ucast (nc_seq x + 1) :: 16 word))\<rparr>"
  have "addresses N ! i \<in> set (addresses N)" using N(2) by simp
  with s(4) have "turn_done journal_enabled originator e x (context_of N' (addresses N ! i))" unfolding N(3) by blast
  then have "nc_seq (context_of N' (addresses N ! i)) = nc_seq x + 1"
    using N(4) by (auto simp: turn_done_def connection_after_def)
  then have seq: "rtp_seq_1 ?f = ucast (nc_seq (context_of N' (addresses N ! i)))" by (simp add: rtp_seq_1_create)
  have "applemidi_feedback_responder (Some ?f) N' = Inr N'" if "peer N (nc_send_ssrc x) = None"
    using that peer_kept [OF s(3,4)] find_by_ssrc_ok [OF s(2)] by (simp add: applemidi_feedback_responder_def)
  with s(1) ds r seq show ?thesis unfolding feedback_command_def
    by (intro exI [of _ "concat (map (sent_by_turn now originator c N) [0..<length (addresses N)])"]
        exI [of _ "if inbound_midi then Some (midi_bytes c) else None"] exI [of _ N'] exI [of _ r] exI [of _ W'] exI [of _ ?f]) simp
qed

text \<open>Two programs: one with a connection to a peer under the SSRC 5, to which it presents itself as 77, and one that
  knows the SSRC 77.\<close>

lemma two_programs:
  "\<exists>N N'. net_wf N \<and> addresses N = [3] \<and> nc_ssrc (context_of N 3) = 5 \<and> nc_send_ssrc (context_of N 3) = 77 \<and>
     nc_data_address_len (context_of N 3) \<noteq> 0 \<and> nc_journal (context_of N 3) = None \<and>
     net_wf N' \<and> peer N' 77 = Some 3 \<and> peer_parser N' 3 = midi_new 10240"
proof -
  from net_one_peer obtain N0 where N0: "net_wf N0" "addresses N0 = [3]"
    "ctx_set_to env_example 5 6 (Some [49, 0]) 5004 None (context_of N0 3)" by blast
  let ?c = "(context_of N0 3)\<lparr>nc_journal := None\<rparr>"
  have "ctx_wf (context_of N0 3)" using N0(1,2) by (simp add: net_wf_def)
  then have "ctx_wf ?c" by (simp add: ctx_wf_def)
  note up = context_update [OF N0(1) _ this, of 3]
  let ?N = "N0\<lparr>nt_contexts := (nt_contexts N0)(3 \<mapsto> ?c)\<rparr>"
  have x: "nc_ssrc ?c = 5" "nc_send_ssrc ?c = 77"
    "take (nc_data_address_len ?c) (nc_data_address ?c) = replicate 16 1"
    using N0(3) by (simp_all add: ctx_set_to_def env_example_def sock_address_def)
  then have "nc_data_address_len ?c \<noteq> 0" by (intro notI) simp
  then have N: "net_wf ?N" "addresses ?N = [3]" "nc_ssrc (context_of ?N 3) = 5" "nc_send_ssrc (context_of ?N 3) = 77"
    "nc_data_address_len (context_of ?N 3) \<noteq> 0" "nc_journal (context_of ?N 3) = None"
    using up N0(2) x by simp_all
  let ?c' = "(context_of net_joined 3)\<lparr>nc_midi_state := Some (midi_new 10240)\<rparr>"
  have a: "3 \<in> set (addresses net_joined)" "used_with_ssrc net_joined 77 3" using peer_Some [OF net_joined_wf(3)] by simp_all
  have ready: "midi_ready 10240 (midi_new 10240)" by (rule midi_new_ready(1)) simp
  have "ctx_wf (context_of net_joined 3)" using net_joined_wf(1) a by (simp add: net_wf_def)
  then have "ctx_wf ?c'" using ready by (auto simp: ctx_wf_def parser_empty_ready)
  note up' = context_update [OF net_joined_wf(1) a(1) this]
  let ?N' = "net_joined\<lparr>nt_contexts := (nt_contexts net_joined)(3 \<mapsto> ?c')\<rparr>"
  have "used_with_ssrc ?N' 77 b = used_with_ssrc net_joined 77 b" for b using up'(3) by (simp add: used_with_ssrc_def)
  then have "used_with_ssrc ?N' 77 = used_with_ssrc net_joined 77" by (rule ext)
  then have "peer ?N' 77 = Some 3" using net_joined_wf(3) up'(2) by (simp add: peer_def)
  moreover have "peer_parser ?N' 3 = midi_new 10240" using up'(3) by (simp add: peer_parser_def)
  ultimately show ?thesis using N up'(1) by (intro exI [of _ ?N] exI [of _ ?N']) simp
qed

lemma midi_new_idle: "ms_status (midi_new 10240) = MIDI_STATE_INIT" "dbuffer_view (ms_hold (midi_new 10240)) = []"
proof -
  have p: "parser_of False (midi_new 10240) = \<lparr>pa_status = MIDI_STATE_INIT, pa_running = 0, pa_hold = [], pa_delta = 0,
      pa_partial = 0, pa_timed = False\<rparr>" by (rule midi_new_ready(2)) simp
  show "ms_status (midi_new 10240) = MIDI_STATE_INIT" "dbuffer_view (ms_hold (midi_new 10240)) = []"
    using arg_cong [OF p, of pa_status] arg_cong [OF p, of pa_hold] by simp_all
qed

theorem command_arrives_witness:
  "\<exists>N W d ds raw N' r W' rc e. midi_sender_send_single mem_ok (\<lambda>_. 5) (sent_payload_header note_example True) True False (Some note_example) 0 N =
      Inr (ds, raw, N') \<and> d \<in> set ds \<and> rc_bytes rc = dg_bytes d \<and>
    net_socket_read machine_example (env_example\<lparr>en_address := e\<rparr>) 5 (Some rc) W = Inr (0, [Reply (wire r), Queued (note_example\<lparr>mc_delta := 0\<rparr>) (Some 50)], W')"
proof -
  from two_programs obtain N N2 where N: "net_wf N" "addresses N = [3]" "nc_ssrc (context_of N 3) = 5" "nc_send_ssrc (context_of N 3) = 77"
     "nc_data_address_len (context_of N 3) \<noteq> 0" "nc_journal (context_of N 3) = None"
    and N2: "net_wf N2" "peer N2 77 = Some 3" "peer_parser N2 3 = midi_new 10240" by blast
  from world_example obtain K where K: "arrives_at K 5 1 4" by blast
  let ?x = "context_of N 3" and ?c = note_example
  let ?W = "\<lparr>wd_sockets = K, wd_net = N2, wd_contexts = Map.empty\<rparr>"
  let ?rc = "\<lparr>rc_bytes = sent_packet 5 ?c ?x, rc_ip_address = None, rc_port = 9\<rparr>"
  obtain e where e: "e \<notin> set (addresses N2)" using ex_new_if_finite [of "set (addresses N2)"] by auto
  have c: "channel_message (mc_status ?c, [60, 100])" "mc_data ?c = Some [60, 100]" "mc_data_len ?c = length [60, 100 :: byte]"
    "True \<longrightarrow> journalable ?c"
    by (simp_all add: note_example_def channel_message_def midi_data_bytes_def journalable_def)
  have len: "length (sent_packet 5 ?c ?x) \<le> NET_APPLEMIDI_UDPSIZE"
    using N(6) by (simp add: sent_packet_def journal_bytes_def sent_payload_header_def payload_header_bytes_def midi_bytes_def note_example_def
      NET_APPLEMIDI_UDPSIZE_def)
  have W: "arrives_at (wd_sockets ?W) 5 1 4" "net_wf (wd_net ?W)" "env_ok (env_example\<lparr>en_address := e\<rparr>)"
    "cstring_ok (rc_ip_address ?rc)" "en_address (env_example\<lparr>en_address := e\<rparr>) \<notin> set (addresses (wd_net ?W))"
    "mc_ptr_size machine_example = 4 \<or> mc_ptr_size machine_example = 8" "wd_contexts ?W (mc_context machine_example) = None"
    using K N2(1) e env_example_ok by (simp_all add: cstring_ok_def machine_example_def)
  have rcb: "rc_bytes ?rc = sent_packet 5 ?c ?x" by simp
  have i: "0 < length (addresses N)" "?x = context_of N (addresses N ! 0)" "nc_ssrc ?x \<noteq> 0" using N(2,3) by simp_all
  have p: "peer (wd_net ?W) (nc_send_ssrc ?x) = Some 3" "ms_status (peer_parser (wd_net ?W) 3) = MIDI_STATE_INIT"
    "dbuffer_view (ms_hold (peer_parser (wd_net ?W) 3)) = []"
    using N(4) N2(2,3) midi_new_idle by simp_all
  from command_arrives [where i = 0 and now = "\<lambda>_. 5" and rc = ?rc and W = ?W and M = machine_example,
      OF N(1) i N(5) c W rcb len p, of "sent_payload_header note_example True" False] obtain ds raw N' r W' where
    s: "midi_sender_send_single mem_ok (\<lambda>_. 5) (sent_payload_header note_example True) True False (Some ?c) 0 N = Inr (ds, raw, N')"
      "net_socket_read machine_example (env_example\<lparr>en_address := e\<rparr>) 5 (Some ?rc) ?W =
        Inr (0, [Reply (wire r), Queued (?c\<lparr>mc_delta := 0\<rparr>) (Some 50)], W')"
      "\<lparr>dg_control = False, dg_address = take (nc_data_address_len ?x) (nc_data_address ?x), dg_bytes = rc_bytes ?rc\<rparr> \<in> set ds"
    by (auto simp: machine_example_def)
  from s show ?thesis
    by - (rule exI [of _ N], rule exI [of _ ?W], rule exI [of _ "\<lparr>dg_control = False, dg_address = take (nc_data_address_len ?x) (nc_data_address ?x),
      dg_bytes = rc_bytes ?rc\<rparr>"], rule exI [of _ ds], rule exI [of _ raw], rule exI [of _ N'], rule exI [of _ r], rule exI [of _ W'],
      rule exI [of _ ?rc], rule exI [of _ e], simp)
qed

section \<open>A command cut off\<close>

text \<open>A packet of a header and a command section without journal.\<close>

definition section_packet :: "rtp_packet_header \<Rightarrow> bytes \<Rightarrow> bytes" where
  "section_packet h xs = rtp_header_bytes h @ of_nat (length xs) # xs"

lemma section_packet_parsed:
  assumes "length xs < 16"
  shows "rp_header (rtp_parse (section_packet h xs)) = h"
    "rtp_section (section_packet h xs) = Some (payload_of (of_nat (length xs)) (length xs) xs)"
    "ph_Z (the (pl_header (payload_of (of_nat (length xs)) (length xs) xs))) = 0"
proof -
  let ?b = "of_nat (length xs) :: byte"
  from assms have t: "?b = take_bit 4 ?b" by (simp add: take_bit_of_nat take_bit_nat_eq_self)
  then have n: "\<not> bit ?b 7" "\<not> bit ?b 5" by (metis bit_take_bit_iff less_irrefl numeral_less_iff semiring_norm(75-81))+
  have "?b AND 0x0f = ?b" using t by (simp add: take_bit_eq_mask mask_numeral)
  then have "unat (?b AND 0x0f) = length xs" using assms by (simp add: unat_of_nat_less)
  then show "rtp_section (section_packet h xs) = Some (payload_of ?b (length xs) xs)"
    using n by (simp add: rtp_section_def section_packet_def rtp_parse_bytes payload_take_def)
  show "rp_header (rtp_parse (section_packet h xs)) = h" by (simp add: section_packet_def rtp_parse_bytes)
  show "ph_Z (the (pl_header (payload_of ?b (length xs) xs))) = 0" using n(2) by (simp add: payload_of_def one_if_def)
qed

lemma section_packet_read:
  assumes "arrives_at (wd_sockets W) fd 1 at" "net_wf (wd_net W)" "en_alloc E = mem_ok" "rc_bytes rc = section_packet h xs"
    and "length xs < 16" "rh_v h = RTP_VERSION" "peer (wd_net W) (rh_ssrc h) = Some b" "rtp_header_bytes h ! 0 \<noteq> 0xff"
  shows "\<exists>es W'. net_socket_read M E fd (Some rc) W = Inr (0, es, W') \<and> arrives_at (wd_sockets W') fd 1 at \<and>
    rtp_taken M (section_packet h xs) (payload_of (of_nat (length xs)) (length xs) xs) b (wd_net W) (wd_contexts W) es (wd_net W') (wd_contexts W')"
proof -
  note p = section_packet_parsed(1,2) [OF assms(5), of h]
  have len: "12 \<le> length (section_packet h xs)" "length (section_packet h xs) \<le> NET_APPLEMIDI_UDPSIZE"
    using assms(5) by (simp_all add: section_packet_def NET_APPLEMIDI_UDPSIZE_def)
  have nc: "\<not> (section_packet h xs ! 0 = 0xff \<and> section_packet h xs ! 1 = 0xff)"
    using assms(8) by (simp add: section_packet_def nth_append)
  from rtp_socket_read [OF assms(1-4) len nc refl, of M] assms(6,7) p show ?thesis
    by (auto dest: read_done_arrives [OF assms(1)])
qed

lemma parse_cut:
  assumes "pa_status p = MIDI_STATE_INIT" "\<not> pa_timed p" "pa_hold p = []" "0x80 \<le> st" "st < 0xF0"
  shows "midi_parse MIDI_PARSE_MODE_RTP [st] p = ([], p\<lparr>pa_delta := 0, pa_hold := [st], pa_running := st,
    pa_status := (if midi_data_bytes st = 1 then MIDI_STATE_WAIT_BYTE_1 else MIDI_STATE_WAIT_BYTE_2)\<rparr>)"
proof -
  have nst: "\<not> 0xF8 \<le> st" "\<not> st < 0x80" "st \<noteq> 0xF0" "st \<noteq> 0xF7"
    using assms(4,5) by (auto simp: not_le not_less intro: order.strict_trans)
  from data_bytes_high [OF assms(4,5)] nst assms show ?thesis by (auto simp: parse_defs)
qed

lemma parse_end_of_exclusive:
  assumes "pa_status p = MIDI_STATE_INIT" "\<not> pa_timed p" "pa_hold p = [st]" "pa_partial p = 0"
  shows "fst (midi_parse MIDI_PARSE_MODE_RTP [0xF7] p) = [cmd 0 st (Some [0xF7])]"
  using assms by (simp add: parse_defs midi_data_bytes_def)

text \<open>C13: What a packet cut off within a command can do. From a known peer come two packets that the program
  takes in: the first ends after the status octet of a note or controller message, the second has the
  end of a system exclusive message. The octet held from the first packet is sent with the second as
  a message with one data octet where two are called for; the sender reads the second behind the end
  of the memory.\<close>

theorem command_cut_off:
  assumes W: "arrives_at (wd_sockets W) fd 1 at" "net_wf (wd_net W)" "en_alloc E1 = mem_ok" "en_alloc E2 = mem_ok"
    and rc: "rc_bytes rc1 = section_packet h1 [st]" "rc_bytes rc2 = section_packet h2 [0xF7]"
    and h: "rh_v h1 = RTP_VERSION" "rh_v h2 = RTP_VERSION" "peer (wd_net W) (rh_ssrc h1) = Some b" "rh_ssrc h2 = rh_ssrc h1"
      "rtp_header_bytes h1 ! 0 \<noteq> 0xff" "rtp_header_bytes h2 ! 0 \<noteq> 0xff"
    and p: "ms_status (peer_parser (wd_net W) b) = MIDI_STATE_INIT" "dbuffer_view (ms_hold (peer_parser (wd_net W) b)) = []"
      "ms_partial_sysex (peer_parser (wd_net W) b) = 0"
    and st: "drop_bit 4 st \<in> {8, 9, 11}" and ctx: "mc_context M1 \<noteq> mc_context M2" "wd_contexts W (mc_context M2) = None"
  shows "\<exists>es1 W1 es2 W2 c. net_socket_read M1 E1 fd (Some rc1) W = Inr (0, es1, W1) \<and> queued_of es1 = [] \<and>
    net_socket_read M2 E2 fd (Some rc2) W1 = Inr (0, es2, W2) \<and> queued_of es2 = [(c, Some (mc_context M2))] \<and>
    c = \<lparr>mc_delta = 0, mc_status = st, mc_data_len = 1, mc_data = Some [0xF7]\<rparr> \<and>
    midi_sender_handler mem_ok now junk journal_enabled inbound_midi (Some c) (Some (mc_context M2)) (wd_contexts W2) (wd_net W2) =
      Inl OutOfBounds"
proof -
  let ?c = "\<lparr>mc_delta = 0, mc_status = st, mc_data_len = 1, mc_data = Some [0xF7]\<rparr>"
  have "unat st < 256" using unsigned_less [of st, where 'a = nat] by simp
  then have "unat (drop_bit 4 st) = unat st div 16"
    by (simp add: unsigned_drop_bit_eq drop_bit_eq_div [where 'a = nat] take_bit_nat_eq_self)
  with st have "unat st div 16 \<in> {8, 9, 11}" by auto
  then have range: "0x80 \<le> st" "st < 0xF0" by (auto simp: word_le_nat_alt word_less_nat_alt)
  have "snd (midi_command_map ?c) \<in> {MIDI_NOTE_OFF, MIDI_NOTE_ON, MIDI_CONTROL_CHANGE}"
    using st range(2) by (elim insertE emptyE)
      (simp_all add: midi_command_map_def midi_message_map_def mmsg_def high_nibble not_le [symmetric])
  moreover have cwf: "command_wf ?c" by (rule command_marked_wf) (simp_all add: command_marked_def range)
  ultimately have incomplete: "\<not> command_complete ?c" by (simp add: command_complete_def)
  let ?p0 = "peer_parser (wd_net W) b"
  have one: "length [x] < 16" for x :: byte by simp
  from section_packet_read [OF W(1-3) rc(1) one h(1,3,5), of M1] obtain es1 W1 where
    r1: "net_socket_read M1 E1 fd (Some rc1) W = Inr (0, es1, W1)" "arrives_at (wd_sockets W1) fd 1 at"
      "rtp_taken M1 (section_packet h1 [st]) (payload_of (of_nat (length [st])) (length [st]) [st]) b (wd_net W) (wd_contexts W)
        es1 (wd_net W1) (wd_contexts W1)" by blast
  note s1 = section_packet_parsed(1) [OF one, of h1 st] and s2 = section_packet_parsed(1) [OF one, of h2 "0xF7"]
    and z = section_packet_parsed(3) [OF one]
  have buf: "the (pl_buffer (payload_of k n [x])) = [x]" for k n x by (simp add: payload_of_def)
  have p0: "pa_status (parser_of z ?p0) = MIDI_STATE_INIT" "pa_hold (parser_of z ?p0) = []" for z using p(1,2) by simp_all
  have nt: "\<not> pa_timed (parser_of False ?p0)" by simp
  note cut = parse_cut [OF p0(1) nt p0(2) range]
  have c1: "rtp_commands (section_packet h1 [st]) (payload_of (of_nat (length [st])) (length [st]) [st]) ?p0 = []"
    unfolding rtp_commands_def buf z using cut by simp
  have a1: "pa_status (rtp_parser_after xs (payload_of (of_nat (length [st])) (length [st]) [st]) ?p0) = MIDI_STATE_INIT"
    "pa_hold (rtp_parser_after xs (payload_of (of_nat (length [st])) (length [st]) [st]) ?p0) = [st]"
    "pa_partial (rtp_parser_after xs (payload_of (of_nat (length [st])) (length [st]) [st]) ?p0) = 0" for xs
    unfolding rtp_parser_after_def buf z using cut p(3) by (simp_all add: parse_end_def)
  from r1(3) obtain r cst' gd where
    t1: "es1 = Reply (wire r) # queued (mc_context M1) []" "net_wf (wd_net W1)" "addresses (wd_net W1) = addresses (wd_net W)"
      "context_of (wd_net W1) = (context_of (wd_net W))(b := (context_of (wd_net W) b)\<lparr>nc_midi_state := Some cst'\<rparr>)"
      "parser_of gd cst' = rtp_parser_after (section_packet h1 [st]) (payload_of (of_nat (length [st])) (length [st]) [st]) ?p0"
      "contexts_after (mc_context M1) \<lparr>sx_ssrc = rh_ssrc h1, sx_alsa_card_hash = 0\<rparr> 0 (wd_contexts W) (wd_contexts W1)"
    unfolding rtp_taken_def Let_def c1 s1 by auto
  have pp: "peer_parser (wd_net W1) b = cst'" using t1(4) by (simp add: peer_parser_def)
  have "used_with_ssrc (wd_net W1) ssrc = used_with_ssrc (wd_net W) ssrc" for ssrc
    using t1(4) by (auto simp: used_with_ssrc_def fun_eq_iff)
  then have peer1: "peer (wd_net W1) (rh_ssrc h2) = Some b" using h(3,4) t1(3) by (simp add: peer_def)
  from section_packet_read [OF r1(2) t1(2) W(4) rc(2) one h(2) peer1 h(6), of M2] obtain es2 W2 where
    r2: "net_socket_read M2 E2 fd (Some rc2) W1 = Inr (0, es2, W2)"
      "rtp_taken M2 (section_packet h2 [0xF7]) (payload_of (of_nat (length [0xF7 :: byte])) (length [0xF7 :: byte]) [0xF7]) b
        (wd_net W1) (wd_contexts W1) es2 (wd_net W2) (wd_contexts W2)" by blast
  have cst: "ms_status cst' = MIDI_STATE_INIT" "dbuffer_view (ms_hold cst') = [st]" "ms_partial_sysex cst' = 0"
    using arg_cong [OF t1(5), of pa_status] arg_cong [OF t1(5), of pa_hold] arg_cong [OF t1(5), of pa_partial] a1 by simp_all
  have "fst (midi_parse MIDI_PARSE_MODE_RTP [0xF7] (parser_of False cst')) = [cmd 0 st (Some [0xF7])]"
    by (rule parse_end_of_exclusive) (simp_all add: cst)
  then have c2: "rtp_commands (section_packet h2 [0xF7]) (payload_of (of_nat (length [0xF7 :: byte])) (length [0xF7 :: byte]) [0xF7]) cst' = [?c]"
    unfolding rtp_commands_def buf z by (simp add: cmd_def)
  from r2(2) obtain r' where
    t2: "es2 = Reply (wire r') # queued (mc_context M2) [?c]" "net_wf (wd_net W2)"
      "contexts_after (mc_context M2) \<lparr>sx_ssrc = rh_ssrc h2, sx_alsa_card_hash = 0\<rparr> 1 (wd_contexts W1) (wd_contexts W2)"
    unfolding rtp_taken_def Let_def pp c2 s2 by auto
  from t2(3) have "held_by (wd_contexts W2) (mc_context M2) (Suc 0) (Some \<lparr>sx_ssrc = rh_ssrc h2, sx_alsa_card_hash = 0\<rparr>)"
    by (simp add: contexts_after_def)
  from release_held [OF this] this obtain S' p' d where
    h2: "data_context_release (Some (mc_context M2)) (wd_contexts W2) = Inr (p', S')" "context_at (wd_contexts W2) (mc_context M2) = Inr d"
    by (auto simp: held_by_def context_at_def)
  obtain pl where pl: "midi_command_to_payload mem_ok junk (Some ?c) = Inr (Some pl)" using command_to_payload_ok [OF cwf] by blast
  have "midi_sender_handler mem_ok now junk journal_enabled inbound_midi (Some ?c) (Some (mc_context M2)) (wd_contexts W2) (wd_net W2) = Inl OutOfBounds"
    using h2 pl command_event_incomplete [OF cwf incomplete] by (simp add: midi_sender_handler_def midi_sender_send_single_def)
  with r1(1) r2(1) t1(1) t2(1) show ?thesis by (intro exI [of _ es1] exI [of _ W1] exI [of _ es2] exI [of _ W2] exI [of _ ?c]) simp
qed

theorem command_cut_off_witness:
  "\<exists>W es1 W1 es2 W2 c. net_socket_read machine_example env_example 5
      (Some \<lparr>rc_bytes = section_packet (rp_header (rtp_parse note_packet)) [0x90], rc_ip_address = None, rc_port = 9\<rparr>) W = Inr (0, es1, W1) \<and>
    net_socket_read (machine_example\<lparr>mc_context := 51\<rparr>) env_example 5
      (Some \<lparr>rc_bytes = section_packet (rp_header (rtp_parse note_packet)) [0xF7], rc_ip_address = None, rc_port = 9\<rparr>) W1 = Inr (0, es2, W2) \<and>
    queued_of es2 = [(c, Some 51)] \<and>
    midi_sender_handler mem_ok (\<lambda>_. 5) \<lparr>ph_B = 0, ph_J = 0, ph_Z = 0, ph_P = 0, ph_len = 0\<rparr> False False (Some c) (Some 51) (wd_contexts W2) (wd_net W2) = Inl OutOfBounds"
proof -
  from world_example obtain K where K: "arrives_at K 5 1 4" by blast
  from idle_peer obtain N where N: "net_wf N" "peer N 5 = Some 3" "peer_parser N 3 = midi_new 10240" by blast
  let ?W = "\<lparr>wd_sockets = K, wd_net = N, wd_contexts = Map.empty\<rparr>" and ?h = "rp_header (rtp_parse note_packet)"
  have W: "arrives_at (wd_sockets ?W) 5 1 4" "net_wf (wd_net ?W)" using K N by simp_all
  have new: "parser_of False (midi_new 10240) = \<lparr>pa_status = MIDI_STATE_INIT, pa_running = 0, pa_hold = [], pa_delta = 0,
      pa_partial = 0, pa_timed = False\<rparr>" by (rule midi_new_ready(2)) simp
  have p: "ms_status (peer_parser (wd_net ?W) 3) = MIDI_STATE_INIT" "dbuffer_view (ms_hold (peer_parser (wd_net ?W) 3)) = []"
    "ms_partial_sysex (peer_parser (wd_net ?W) 3) = 0"
    using N(3) midi_new_idle arg_cong [OF new, of pa_partial] by simp_all
  have b: "rtp_header_bytes ?h ! 0 \<noteq> 0xff" by code_simp
  have v: "rh_v ?h = RTP_VERSION" "peer (wd_net ?W) (rh_ssrc ?h) = Some 3" using note_packet_parsed N(2) by simp_all
  have st: "drop_bit 4 (0x90 :: byte) \<in> {8, 9, 11}" by simp
  have ctx: "mc_context machine_example \<noteq> mc_context (machine_example\<lparr>mc_context := 51\<rparr>)"
    "wd_contexts ?W (mc_context (machine_example\<lparr>mc_context := 51\<rparr>)) = None" by (simp_all add: machine_example_def)
  have rc: "rc_bytes \<lparr>rc_bytes = x, rc_ip_address = None, rc_port = 9\<rparr> = x" for x by simp
  from command_cut_off [OF W env_alloc env_alloc rc rc v(1) v(1) v(2) refl b b p st ctx, of "\<lambda>_. 5" "\<lparr>ph_B = 0, ph_J = 0, ph_Z = 0, ph_P = 0, ph_len = 0\<rparr>" False False] show ?thesis
    by (auto intro!: exI [of _ ?W])
qed

end
