(* ===== verification/Alsa.thy ===== *)
theory Alsa
  imports Socket_Safety Sender_Safety
begin

text \<open>
  The sound devices (\<^verbatim>\<open>raveloxmidi_alsa.c\<close>, the build with ALSA): tables of input and output handles,
  the descriptors of the inputs that the listener thread polls, reading from a device, which goes the
  way of a datagram on the local socket, and writing a command to all outputs but the one it came
  from. The ALSA library is an argument. What is done to the devices is a list of effects.
\<close>

unbundle bit_operations_syntax

section \<open>State\<close>

text \<open>A handle is a number. \<open>rm_open\<close> says for the input (true) or the output of a named device what
  opening it returns, and the handle; \<open>rm_card\<close> and \<open>rm_device\<close> number the card and the device of a
  handle; \<open>rm_fds\<close> has the number of descriptors of a handle and the ones that are filled in;
  \<open>rm_write\<close> is what a write returns.\<close>

record rawmidi =
  rm_open :: "bool \<Rightarrow> string \<Rightarrow> int \<times> nat"
  rm_card :: "nat \<Rightarrow> int"
  rm_device :: "nat \<Rightarrow> int"
  rm_fds :: "nat \<Rightarrow> int \<times> int list"
  rm_write :: "nat \<Rightarrow> bytes \<Rightarrow> int"

record pollfd =
  pf_fd :: int
  pf_events :: "16 word"
  pf_revents :: "16 word"

text \<open>\<open>al_sockets\<close> has the type and the handle of the items of \<^verbatim>\<open>net_socket.c\<close>: the items of the type
  of a device and their handles, which may be NULL.\<close>

record alsa =
  al_outputs :: "nat data_table option"
  al_inputs :: "nat data_table option"
  al_num_poll_descriptors :: nat
  al_poll_descriptors :: "pollfd list option"
  al_poll_held :: bool
  al_sockets :: "nat \<Rightarrow> nat option option"

datatype device_effect = Buffer_size nat nat | Drained nat | Closed nat | Written nat bytes

definition RAVELOXMIDI_ALSA_DEFAULT_BUFFER :: int where "RAVELOXMIDI_ALSA_DEFAULT_BUFFER = 4096"
definition RAVELOXMIDI_ALSA_MAX_BUFFER :: int where "RAVELOXMIDI_ALSA_MAX_BUFFER = 1048576"

definition POLLIN :: "16 word" where "POLLIN = 1"
definition POLLERR :: "16 word" where "POLLERR = 8"
definition POLLHUP :: "16 word" where "POLLHUP = 16"
definition POLLNVAL :: "16 word" where "POLLNVAL = 32"

definition ENODEV :: int where "ENODEV = 19"

definition poll_descriptors_lock :: "alsa \<Rightarrow> alsa result" where
  "poll_descriptors_lock L = bindr (mutex_lock (al_poll_held L)) (\<lambda>h. Inr (L\<lparr>al_poll_held := h\<rparr>))"

definition poll_descriptors_unlock :: "alsa \<Rightarrow> alsa result" where
  "poll_descriptors_unlock L = bindr (mutex_unlock (al_poll_held L)) (\<lambda>h. Inr (L\<lparr>al_poll_held := h\<rparr>))"

section \<open>Devices\<close>

definition raveloxmidi_alsa_card_number :: "rawmidi \<Rightarrow> nat option \<Rightarrow> int" where
  "raveloxmidi_alsa_card_number R rawmidi = (case rawmidi of None \<Rightarrow> -1 | Some h \<Rightarrow> rm_card R h)"

definition raveloxmidi_alsa_device_number :: "rawmidi \<Rightarrow> nat option \<Rightarrow> int" where
  "raveloxmidi_alsa_device_number R rawmidi = (case rawmidi of None \<Rightarrow> -1 | Some h \<Rightarrow> rm_device R h)"

text \<open>\<^verbatim>\<open>strncasecmp( s, t, n ) == 0\<close> for a text \<open>t\<close> of \<open>n\<close> characters.\<close>

definition starts_with :: "string \<Rightarrow> string \<Rightarrow> bool" where
  "starts_with s t = (fold_case (take (length t) s) = fold_case t)"

definition raveloxmidi_alsa_device_hash :: "rawmidi \<Rightarrow> kv_table option \<Rightarrow> nat option \<Rightarrow> int result" where
  "raveloxmidi_alsa_device_hash R items handle =
     (if handle = None then Inr (-1)
      else
        let card_number = raveloxmidi_alsa_card_number R handle;
            device_number = raveloxmidi_alsa_device_number R handle in
        if card_number < 0 \<or> device_number < 0 then Inr (-1)
        else
          bindr (config_string_get items (Some ''alsa.writeback.level'')) (\<lambda>wb_level_string.
          let (card_multiplier, device_multiplier) =
            (case wb_level_string of None \<Rightarrow> (4096, 1)
             | Some s \<Rightarrow>
                 let m = (if starts_with s ''card'' then (1, 0) else (0, 0)) in
                 if starts_with s ''device'' then (4096, 1) else m) in
          Inr (card_number * card_multiplier + device_number * device_multiplier)))"

text \<open>The argument is the address of a pointer; that draining or closing fails is only logged.\<close>

definition raveloxmidi_alsa_handle_destroy :: "nat option option \<Rightarrow> device_effect list" where
  "raveloxmidi_alsa_handle_destroy data =
     (case data of None \<Rightarrow> [] | Some None \<Rightarrow> [] | Some (Some h) \<Rightarrow> [Drained h, Closed h])"

definition raveloxmidi_alsa_add_output ::
    "alloc \<Rightarrow> rawmidi \<Rightarrow> string option \<Rightarrow> alsa \<Rightarrow> (device_effect list \<times> alsa) result" where
  "raveloxmidi_alsa_add_output A R device_name L =
     (case device_name of None \<Rightarrow> Inr ([], L)
      | Some n \<Rightarrow>
          let (ret, output_handle) = rm_open R False n in
          if ret \<noteq> 0 then Inr ([], L)
          else
            bindr (data_table_add_item A (al_outputs L) (Some output_handle)) (\<lambda>(added, t).
            Inr (if added = 0 then raveloxmidi_alsa_handle_destroy (Some (Some output_handle)) else [],
                 L\<lparr>al_outputs := t\<rparr>)))"

section \<open>The descriptors to poll\<close>

text \<open>The packet of a socket has room for the buffer of a device in this build.\<close>

definition alsa_create_item :: "env \<Rightarrow> (nat \<Rightarrow> byte) \<Rightarrow> (raveloxmidi_socket option \<times> int option) result" where
  "alsa_create_item E junk =
     bindr (config_int_get (en_config E) (Some ''alsa.input_buffer_size'')) (\<lambda>alsa_buffer_size.
     let packet_size = max NET_APPLEMIDI_UDPSIZE (nat (alsa_buffer_size mod 2 ^ 64)) in
     bindr (net_socket_create_item E junk) (\<lambda>(new_socket, closed).
     Inr (map_option (\<lambda>s. s\<lparr>so_packet := Some (map junk [0..<(packet_size + 1) mod 2 ^ 64]),
       so_packet_size := packet_size\<rparr>) new_socket, closed)))"

definition alsa_socket_add :: "env \<Rightarrow> (nat \<Rightarrow> byte) \<Rightarrow> int \<Rightarrow> sockets \<Rightarrow> (nat option \<times> sockets) result" where
  "alsa_socket_add E junk new_socket_fd K =
     (if new_socket_fd < 0 then Inr (None, K)
      else
        bindr (alsa_create_item E junk) (\<lambda>(new_socket_item, _).
        case new_socket_item of None \<Rightarrow> Inr (None, K)
        | Some s \<Rightarrow>
            bindr (data_table_add_item (en_alloc E) (sk_sockets K) (Some (en_address E))) (\<lambda>(_, t).
            Inr (Some (en_address E),
              K\<lparr>sk_sockets := t, sk_store := (sk_store K)(en_address E \<mapsto> s\<lparr>so_fd := new_socket_fd\<rparr>)\<rparr>))))"

definition raveloxmidi_alsa_add_poll_fd ::
    "rawmidi \<Rightarrow> env \<Rightarrow> (nat \<Rightarrow> byte) \<Rightarrow> nat option \<Rightarrow> int \<Rightarrow> alsa \<times> sockets \<Rightarrow> (alsa \<times> sockets) result" where
  "raveloxmidi_alsa_add_poll_fd R E junk handle fd LK =
     (case LK of (L, K) \<Rightarrow>
      if fd < 0 then Inr (L, K)
      else
        bindr (poll_descriptors_lock L) (\<lambda>L.
        bindr (if \<not> en_alloc E (Site ''raveloxmidi_alsa_add_poll_fd:new_fds'') then Inr (L, K)
               else
                 let n = al_num_poll_descriptors L;
                     fds = (case al_poll_descriptors L of None \<Rightarrow> [] | Some fds \<Rightarrow> take n fds) in
                 let L = L\<lparr>al_poll_descriptors := Some (fds @ [\<lparr>pf_fd = fd,
                              pf_events = POLLIN OR POLLERR OR POLLNVAL OR POLLHUP, pf_revents = 0\<rparr>]),
                           al_num_poll_descriptors := n + 1\<rparr> in
                 bindr (alsa_socket_add E junk fd K) (\<lambda>(socket, K).
                 case socket of None \<Rightarrow> Inr (L, K)
                 | Some a \<Rightarrow>
                     bindr (raveloxmidi_alsa_device_hash R (en_config E) handle) (\<lambda>hash.
                     bindr (socket_at K a) (\<lambda>s.
                     Inr (L\<lparr>al_sockets := (al_sockets L)(a \<mapsto> handle)\<rparr>,
                          K\<lparr>sk_store := (sk_store K)(a \<mapsto> s\<lparr>so_device_hash := (if handle = None then -1 else hash)\<rparr>)\<rparr>)))))
          (\<lambda>(L, K). bindr (poll_descriptors_unlock L) (\<lambda>L. Inr (L, K)))))"

text \<open>The descriptors of a handle, one after the other; each item has the next address.\<close>

fun add_poll_fds ::
    "rawmidi \<Rightarrow> env \<Rightarrow> (nat \<Rightarrow> byte) \<Rightarrow> nat option \<Rightarrow> int list \<Rightarrow> alsa \<times> sockets \<Rightarrow> (alsa \<times> sockets) result" where
  "add_poll_fds R E junk handle [] LK = Inr LK"
| "add_poll_fds R E junk handle (fd # fds) LK =
     bindr (raveloxmidi_alsa_add_poll_fd R E junk handle fd LK)
       (add_poll_fds R (E\<lparr>en_address := en_address E + 1\<rparr>) junk handle fds)"

definition raveloxmidi_alsa_set_poll_fds ::
    "rawmidi \<Rightarrow> env \<Rightarrow> (nat \<Rightarrow> byte) \<Rightarrow> nat option \<Rightarrow> alsa \<times> sockets \<Rightarrow> (alsa \<times> sockets) result" where
  "raveloxmidi_alsa_set_poll_fds R E junk handle LK =
     (case handle of None \<Rightarrow> Inr LK
      | Some h \<Rightarrow>
          let (num_current_fds, fds) = rm_fds R h in
          if num_current_fds \<le> 0 then Inr LK
          else if \<not> en_alloc E (Site ''raveloxmidi_alsa_set_poll_fds:current_fds'') then Inr LK
          else if int (length fds) = num_current_fds then add_poll_fds R E junk handle fds LK
          else Inr LK)"

text \<open>The table without a descriptor: a new one of the size of the old, whose rest is zero.\<close>

definition raveloxmidi_alsa_disable_poll_fd :: "alloc \<Rightarrow> int \<Rightarrow> alsa \<Rightarrow> alsa result" where
  "raveloxmidi_alsa_disable_poll_fd A fd L =
     (if fd < 0 then Inr L
      else
        bindr (poll_descriptors_lock L) (\<lambda>L.
        bindr (if \<not> A (Site ''raveloxmidi_alsa_disable_poll_fd:new_fds'') then Inr L
               else
                 let n = al_num_poll_descriptors L in
                 bindr (if n = 0 then Inr [] else bindr (deref (al_poll_descriptors L)) (\<lambda>fds. mem_read fds 0 n)) (\<lambda>fds.
                 let new_fds = filter (\<lambda>p. pf_fd p \<noteq> fd) fds in
                 Inr (L\<lparr>al_poll_descriptors := Some (new_fds @
                          replicate (n - length new_fds) \<lparr>pf_fd = 0, pf_events = 0, pf_revents = 0\<rparr>),
                        al_num_poll_descriptors := length new_fds\<rparr>)))
          poll_descriptors_unlock))"

definition raveloxmidi_alsa_add_input ::
    "rawmidi \<Rightarrow> env \<Rightarrow> (nat \<Rightarrow> byte) \<Rightarrow> string option \<Rightarrow> int \<Rightarrow> alsa \<times> sockets \<Rightarrow>
     (device_effect list \<times> alsa \<times> sockets) result" where
  "raveloxmidi_alsa_add_input R E junk device_name buffer_size LK =
     (case LK of (L, K) \<Rightarrow> case device_name of None \<Rightarrow> Inr ([], L, K)
      | Some n \<Rightarrow>
          let (ret, input_handle) = rm_open R True n in
          if ret \<noteq> 0 then Inr ([], L, K)
          else
            let es = (if buffer_size > RAVELOXMIDI_ALSA_DEFAULT_BUFFER \<and> buffer_size \<le> RAVELOXMIDI_ALSA_MAX_BUFFER
                      then [Buffer_size input_handle (nat buffer_size)] else []) in
            bindr (data_table_add_item (en_alloc E) (al_inputs L) (Some input_handle)) (\<lambda>(added, t).
            if added = 0 then
              Inr (es @ raveloxmidi_alsa_handle_destroy (Some (Some input_handle)), L\<lparr>al_inputs := t\<rparr>, K)
            else
              bindr (raveloxmidi_alsa_set_poll_fds R E junk (Some input_handle) (L\<lparr>al_inputs := t\<rparr>, K))
                (\<lambda>(L, K). Inr (es, L, K))))"


section \<open>Starting and stopping\<close>

text \<open>The loop over the numbered items of the configuration, as far as they are set; an item past the
  last index of the iterator would be read for ever, so \<open>fuel\<close> bounds the turns. \<open>f i name\<close> adds the
  device that is the \<open>i\<close>-th.\<close>

fun config_devices ::
    "alloc \<Rightarrow> kv_table option \<Rightarrow> (nat \<Rightarrow> string option \<Rightarrow> 's \<Rightarrow> ('e list \<times> 's) result) \<Rightarrow> nat \<Rightarrow> nat \<Rightarrow>
     config_iter option \<Rightarrow> 's \<Rightarrow> ('e list \<times> 's) option result" where
  "config_devices A items f 0 i iter L = Inr None"
| "config_devices A items f (Suc fuel) i iter L =
     bindr (config_iter_is_set (\<lambda>s. A (Iter i s)) items iter) (\<lambda>set.
     if \<not> set then Inr (Some ([], L))
     else
       bindr (config_iter_string_get (\<lambda>s. A (Iter i s)) items iter) (\<lambda>full_name.
       bindr (if full_name = None then Inr ([], L) else f (Suc i) full_name L) (\<lambda>(es, L).
       bindr (config_devices A items f fuel (Suc i) (config_iter_next iter) L) (\<lambda>r.
       Inr (case r of None \<Rightarrow> None | Some (es', L) \<Rightarrow> Some (es @ es', L))))))"

text \<open>The item of the literal name, then the numbered ones.\<close>

definition add_devices ::
    "alloc \<Rightarrow> kv_table option \<Rightarrow> (nat \<Rightarrow> string option \<Rightarrow> 's \<Rightarrow> ('e list \<times> 's) result) \<Rightarrow> nat \<Rightarrow> string option \<Rightarrow>
     's \<Rightarrow> ('e list \<times> 's) option result" where
  "add_devices A items f fuel name L =
     (case name of None \<Rightarrow> Inr (Some ([], L))
      | Some _ \<Rightarrow>
          bindr (config_is_set items name) (\<lambda>set.
          bindr (if set then bindr (config_string_get items name) (\<lambda>n. f 0 n L) else Inr ([], L)) (\<lambda>(es, L).
          bindr (config_devices A items f fuel 0 (config_iter_create A name) L) (\<lambda>r.
          Inr (case r of None \<Rightarrow> None | Some (es', L) \<Rightarrow> Some (es @ es', L))))))"

text \<open>\<open>E i\<close> is the environment of the \<open>i\<close>-th input; that of the whole is \<open>E 0\<close>.\<close>

definition raveloxmidi_alsa_init ::
    "nat \<Rightarrow> rawmidi \<Rightarrow> (nat \<Rightarrow> env) \<Rightarrow> (nat \<Rightarrow> byte) \<Rightarrow> string option \<Rightarrow> string option \<Rightarrow> int \<Rightarrow> alsa \<times> sockets \<Rightarrow>
     (device_effect list \<times> alsa \<times> sockets) option result" where
  "raveloxmidi_alsa_init fuel R E junk input_name output_name buffer_size LK =
     (let A = en_alloc (E 0); items = en_config (E 0); (L, K) = LK;
          L = L\<lparr>al_outputs := data_table_create (\<lambda>s. A (Iter 0 s)) (Some ''ALSA outputs'') True\<rparr> in
      if al_outputs L = None then Inr (Some ([], L, K))
      else
        let L = L\<lparr>al_inputs := data_table_create (\<lambda>s. A (Iter 1 s)) (Some ''ALSA inputs'') True\<rparr> in
        if al_inputs L = None then Inr (Some ([], L, K))
        else
          bindr (add_devices A items (\<lambda>i n. raveloxmidi_alsa_add_input R (E i) junk n buffer_size) fuel input_name
                   (L\<lparr>al_poll_held := False\<rparr>, K)) (\<lambda>r.
          case r of None \<Rightarrow> Inr None
          | Some (es, L, K) \<Rightarrow>
              bindr (add_devices A items (\<lambda>i n. raveloxmidi_alsa_add_output (\<lambda>s. A (Iter i s)) R n) fuel output_name L) (\<lambda>r.
              Inr (case r of None \<Rightarrow> None | Some (es', L) \<Rightarrow> Some (es @ es', L, K)))))"

text \<open>The handles of a table are destroyed one after the other, under its lock.\<close>

fun destroy_handles :: "nat data_table option \<Rightarrow> nat \<Rightarrow> nat \<Rightarrow> device_effect list result" where
  "destroy_handles table i 0 = Inr []"
| "destroy_handles table i (Suc left) =
     bindr (data_table_item_get table i) (\<lambda>h.
     bindr (destroy_handles table (Suc i) left) (\<lambda>es. Inr (raveloxmidi_alsa_handle_destroy (Some h) @ es)))"

definition destroy_device_table :: "nat data_table option \<Rightarrow> (device_effect list \<times> nat data_table option) result" where
  "destroy_device_table table =
     (case table of None \<Rightarrow> Inr ([], None)
      | Some t \<Rightarrow>
          bindr (data_table_lock (Some t)) (\<lambda>p.
          bindr (destroy_handles p 0 (dt_count t)) (\<lambda>es.
          bindr (data_table_unlock p) (\<lambda>_. Inr (es, None)))))"

definition raveloxmidi_alsa_teardown :: "alsa \<Rightarrow> (device_effect list \<times> alsa) result" where
  "raveloxmidi_alsa_teardown L =
     bindr (destroy_device_table (al_inputs L)) (\<lambda>(es, inputs).
     bindr (destroy_device_table (al_outputs L)) (\<lambda>(es', outputs).
     bindr (poll_descriptors_lock (L\<lparr>al_inputs := inputs, al_outputs := outputs\<rparr>)) (\<lambda>L.
     bindr (poll_descriptors_unlock (L\<lparr>al_poll_descriptors := None\<rparr>)) (\<lambda>L. Inr (es @ es', L)))))"

section \<open>Writing\<close>

text \<open>Whether there is a device in use; counting takes and gives back the lock of the table.\<close>

definition device_available :: "nat data_table option \<Rightarrow> (bool \<times> nat data_table option) result" where
  "device_available table =
     bindr (data_table_unused_count table) (\<lambda>(unused, t).
     bindr (data_table_item_count t) (\<lambda>(count, t). Inr (count > unused, t)))"

definition raveloxmidi_alsa_out_available :: "alsa \<Rightarrow> (bool \<times> alsa) result" where
  "raveloxmidi_alsa_out_available L =
     bindr (device_available (al_outputs L)) (\<lambda>(b, t). Inr (b, L\<lparr>al_outputs := t\<rparr>))"

definition raveloxmidi_alsa_in_available :: "alsa \<Rightarrow> (bool \<times> alsa) result" where
  "raveloxmidi_alsa_in_available L =
     bindr (device_available (al_inputs L)) (\<lambda>(b, t). Inr (b, L\<lparr>al_inputs := t\<rparr>))"

text \<open>The loop over the outputs: the result of the last write, as an \<^verbatim>\<open>int\<close>, and the writes.\<close>

fun write_outputs ::
    "rawmidi \<Rightarrow> kv_table option \<Rightarrow> bytes \<Rightarrow> int \<Rightarrow> nat data_table option \<Rightarrow> nat \<Rightarrow> nat \<Rightarrow> 32 word \<Rightarrow>
     (32 word \<times> device_effect list) result" where
  "write_outputs R items buffer originator_device_hash outputs i 0 bytes_written = Inr (bytes_written, [])"
| "write_outputs R items buffer originator_device_hash outputs i (Suc left) bytes_written =
     bindr (data_table_item_is_unused outputs i) (\<lambda>unused.
     bindr (if unused = 0 then data_table_item_get outputs i else Inr None) (\<lambda>handle.
     bindr (case handle of None \<Rightarrow> Inr (bytes_written, [])
            | Some h \<Rightarrow>
                bindr (raveloxmidi_alsa_device_hash R items (Some h)) (\<lambda>device_hash.
                bindr (config_string_get items (Some ''alsa.writeback'')) (\<lambda>v.
                let writeback = is_yes v in
                if originator_device_hash \<noteq> device_hash \<or> writeback \<or> device_hash < 0
                then Inr (word_of_int (rm_write R h buffer), [Written h buffer])
                else Inr (bytes_written, [])))) (\<lambda>(bytes_written, es).
     bindr (write_outputs R items buffer originator_device_hash outputs (Suc i) left bytes_written)
       (\<lambda>(bytes_written, es'). Inr (bytes_written, es @ es')))))"

definition raveloxmidi_alsa_write ::
    "rawmidi \<Rightarrow> kv_table option \<Rightarrow> bytes \<Rightarrow> int \<Rightarrow> alsa \<Rightarrow> (32 word \<times> device_effect list \<times> alsa) result" where
  "raveloxmidi_alsa_write R items buffer originator_device_hash L =
     bindr (data_table_item_count (al_outputs L)) (\<lambda>(num_outputs, t).
     bindr (write_outputs R items buffer originator_device_hash t 0 num_outputs 0) (\<lambda>(bytes_written, es).
     Inr (bytes_written, es, L\<lparr>al_outputs := t\<rparr>)))"

section \<open>Sending\<close>

text \<open>The octets of a command.\<close>

definition raw_buffer :: "midi_command \<Rightarrow> bytes result" where
  "raw_buffer c =
     (let m = replicate (2 + mc_data_len c) 0 in
      bindr (mem_write m 0 [mc_status c]) (\<lambda>m.
      bindr (if mc_data_len c > 0
             then bindr (deref (mc_data c)) (\<lambda>d. bindr (mem_read d 0 (mc_data_len c)) (mem_write m 1))
             else Inr m) (\<lambda>m. mem_read m 0 (1 + mc_data_len c))))"

text \<open>The end of \<^verbatim>\<open>midi_sender_send_single\<close>: the command goes to the file for inbound MIDI and to the
  devices.\<close>

definition write_command ::
    "alloc \<Rightarrow> rawmidi \<Rightarrow> kv_table option \<Rightarrow> bool \<Rightarrow> midi_command \<Rightarrow> int \<Rightarrow> alsa \<Rightarrow>
     (bytes option \<times> device_effect list \<times> alsa) result" where
  "write_command A R items inbound_midi c alsa_originator_card L =
     bindr (raveloxmidi_alsa_out_available L) (\<lambda>(available, L).
     if \<not> inbound_midi \<and> \<not> available then Inr (None, [], L)
     else if \<not> A (Site ''midi_sender_send_single:raw_buffer'') then Inr (None, [], L)
     else
       bindr (raw_buffer c) (\<lambda>xs.
       bindr (raveloxmidi_alsa_write R items xs alsa_originator_card L) (\<lambda>(_, es, L).
       Inr (if inbound_midi then Some xs else None, es, L))))"

text \<open>Sending a command in this build: to the connections as in the other, then to the file and the
  devices, unless there was no memory for the payload.\<close>

definition alsa_send_single ::
    "alloc \<Rightarrow> (nat \<Rightarrow> 64 word) \<Rightarrow> midi_payload_header \<Rightarrow> bool \<Rightarrow> rawmidi \<Rightarrow> kv_table option \<Rightarrow> bool \<Rightarrow>
     midi_command option \<Rightarrow> 32 word \<Rightarrow> int \<Rightarrow> alsa \<times> net \<Rightarrow>
     (datagram list \<times> bytes option \<times> device_effect list \<times> alsa \<times> net) result" where
  "alsa_send_single A now junk journal_enabled R items inbound_midi command originator_ssrc alsa_originator_card LN =
     (case LN of (L, N) \<Rightarrow>
      bindr (midi_command_to_payload A junk command) (\<lambda>single_midi_payload.
      bindr (midi_sender_send_single A now junk journal_enabled False command originator_ssrc N) (\<lambda>(ds, _, N).
      if single_midi_payload = None then Inr (ds, None, [], L, N)
      else
        bindr (deref command) (\<lambda>c.
        bindr (write_command A R items inbound_midi c alsa_originator_card L) (\<lambda>(raw, es, L).
        Inr (ds, raw, es, L, N))))))"

definition alsa_sender_handler ::
    "alloc \<Rightarrow> (nat \<Rightarrow> 64 word) \<Rightarrow> midi_payload_header \<Rightarrow> bool \<Rightarrow> rawmidi \<Rightarrow> kv_table option \<Rightarrow> bool \<Rightarrow>
     midi_command option \<Rightarrow> nat option \<Rightarrow> sender_store \<Rightarrow> alsa \<times> net \<Rightarrow>
     (datagram list \<times> bytes option \<times> device_effect list \<times> sender_store \<times> alsa \<times> net) result" where
  "alsa_sender_handler A now junk journal_enabled R items inbound_midi data context S LN =
     (case data of None \<Rightarrow> Inr ([], None, [], S, LN)
      | Some command \<Rightarrow>
          bindr (case context of None \<Rightarrow> Inr ((0, 0), S)
                 | Some a \<Rightarrow>
                     bindr (context_at S a) (\<lambda>data_context.
                     bindr (data_context_release (Some a) S) (\<lambda>(_, S).
                     Inr (case dx_data data_context of None \<Rightarrow> (0, 0)
                          | Some sender_context \<Rightarrow> (sx_ssrc sender_context, sx_alsa_card_hash sender_context), S))))
            (\<lambda>((originator_ssrc, alsa_originator_card), S).
          bindr (alsa_send_single A now junk journal_enabled R items inbound_midi (Some command)
                   originator_ssrc alsa_originator_card LN)
            (\<lambda>(ds, raw, es, LN). Inr (ds, raw, es, S, LN))))"


section \<open>Reading\<close>

text \<open>What a device answers to a read: what \<^verbatim>\<open>snd_rawmidi_read\<close> returns, \<^verbatim>\<open>errno\<close> after it, and the octets.\<close>

record device_read =
  dr_ret :: int
  dr_errno :: int
  dr_bytes :: bytes

text \<open>The buffer is of \<open>buffer_size\<close> octets at least; the octets that are read into it.\<close>

definition raveloxmidi_alsa_read ::
    "alloc \<Rightarrow> int \<Rightarrow> nat option \<Rightarrow> bytes option \<Rightarrow> nat \<Rightarrow> device_read \<Rightarrow> alsa \<Rightarrow> (int \<times> bytes option \<times> alsa) result" where
  "raveloxmidi_alsa_read A fd handle buffer buffer_size answer L =
     (case buffer of None \<Rightarrow> Inr (-1, None, L)
      | Some m \<Rightarrow>
          if buffer_size = 0 \<or> handle = None then Inr (-1, Some m, L)
          else if dr_ret answer < 0 then
            if dr_errno answer = ENODEV then
              bindr (raveloxmidi_alsa_disable_poll_fd A fd L) (\<lambda>L. Inr (dr_ret answer, Some m, L))
            else Inr (dr_ret answer, Some m, L)
          else
            let xs = take buffer_size (dr_bytes answer) in
            bindr (mem_write m 0 xs) (\<lambda>m. Inr (int (length xs), Some m, L)))"

text \<open>\<open>net_socket_read\<close> of a descriptor in this build. A socket that is no device is read as in the
  other build. The descriptor of a device is not that of one of the three ports, whose tests are made
  first.\<close>

definition alsa_socket_read ::
    "machine \<Rightarrow> env \<Rightarrow> int \<Rightarrow> received option \<Rightarrow> device_read \<Rightarrow> alsa \<times> world \<Rightarrow>
     (int \<times> socket_effect list \<times> alsa \<times> world) result" where
  "alsa_socket_read M E fd received answer LW =
     (case LW of (L, W) \<Rightarrow>
      bindr (net_socket_get_data_socket (wd_sockets W)) (\<lambda>(data_fd, K).
      bindr (net_socket_get_control_socket K) (\<lambda>(control_fd, K).
      bindr (net_socket_get_local_socket K) (\<lambda>(local_fd, K).
      bindr (net_socket_find_by_fd fd K) (\<lambda>(found_socket, K).
      let W = W\<lparr>wd_sockets := K\<rparr> in
      case found_socket of None \<Rightarrow> Inr (0, [], L, W)
      | Some a \<Rightarrow>
      (case al_sockets L a of
         None \<Rightarrow> bindr (net_socket_read M E fd received W) (\<lambda>(ret, es, W). Inr (ret, es, L, W))
       | Some handle \<Rightarrow>
          bindr (socket_at K a) (\<lambda>s.
          bindr (net_socket_lock (Some s)) (\<lambda>p.
          bindr (deref p) (\<lambda>s.
          bindr (deref (so_packet s)) (\<lambda>packet.
          bindr (mem_write packet 0 (replicate (so_packet_size s + 1) 0)) (\<lambda>packet.
          bindr (raveloxmidi_alsa_read (en_alloc E) fd handle (Some packet) (so_packet_size s) answer L)
            (\<lambda>(recv_len, packet, L).
          let s = s\<lparr>so_packet := packet\<rparr> in
          bindr (if recv_len \<le> 0 then Inr (0, [], s, W)
                 else
                   bindr (midi_state_write (so_state s) packet (nat recv_len)) (\<lambda>(_, st).
                   bindr (if fd \<in> {control_fd, data_fd, local_fd} then
                            read_dispatch M E \<lparr>rc_bytes = [], rc_ip_address = None, rc_port = 0\<rparr>
                              (fd = control_fd \<or> fd = data_fd) (fd = local_fd) (so_device_hash s) st
                              (socket_set a (s\<lparr>so_state := st\<rparr>) W)
                          else
                            bindr (send_commands M (en_alloc E) \<lparr>sx_ssrc = 0, sx_alsa_card_hash = so_device_hash s\<rparr>
                                     MIDI_PARSE_MODE_SIMPLE False st (wd_contexts W)) (\<lambda>(es, st, S).
                            Inr (0, es, st, socket_set a (s\<lparr>so_state := st\<rparr>) W\<lparr>wd_contexts := S\<rparr>)))
                     (\<lambda>(ret, es, st, W). Inr (ret, es, s\<lparr>so_state := st\<rparr>, W)))) (\<lambda>(ret, es, s, W).
          bindr (net_socket_unlock (Some s)) (\<lambda>p.
          bindr (deref p) (\<lambda>s. Inr (ret, es, L, socket_set a s W))))))))))))))))"

section \<open>The listener\<close>

text \<open>\<open>answer\<close> has what \<^verbatim>\<open>poll\<close> puts into \<^verbatim>\<open>revents\<close> for each descriptor, or None when it fails. The
  result is 2 when the first descriptor with something to read is that of the shutdown pipe, 1 when
  it is another, 0 otherwise.\<close>

fun first_ready :: "int \<Rightarrow> pollfd list \<Rightarrow> int" where
  "first_ready shutdown_fd [] = 0"
| "first_ready shutdown_fd (p # ps) =
     (if pf_revents p AND POLLIN \<noteq> 0 then (if pf_fd p = shutdown_fd then 2 else 1) else first_ready shutdown_fd ps)"

definition raveloxmidi_alsa_poll :: "(int \<Rightarrow> 16 word) option \<Rightarrow> int \<Rightarrow> alsa \<Rightarrow> (int \<times> alsa) result" where
  "raveloxmidi_alsa_poll answer shutdown_fd L =
     (case al_poll_descriptors L of None \<Rightarrow> Inr (0, L)
      | Some _ \<Rightarrow>
          bindr (raveloxmidi_alsa_in_available L) (\<lambda>(available, L).
          if \<not> available then Inr (0, L)
          else
            let n = al_num_poll_descriptors L in
            bindr (poll_descriptors_lock L) (\<lambda>L.
            bindr (deref (al_poll_descriptors L)) (\<lambda>fds.
            bindr (mem_read fds 0 n) (\<lambda>ps.
            let ps = map (\<lambda>p. p\<lparr>pf_revents := (case answer of None \<Rightarrow> 0 | Some f \<Rightarrow> f (pf_fd p))\<rparr>) ps;
                err = length (filter (\<lambda>p. pf_revents p \<noteq> 0) ps);
                L = L\<lparr>al_poll_descriptors := Some (ps @ drop n fds)\<rparr> in
            bindr (poll_descriptors_unlock L) (\<lambda>L.
            if err = 0 then Inr (0, L)
            else
              bindr (poll_descriptors_lock L) (\<lambda>L.
              bindr (poll_descriptors_unlock L) (\<lambda>L. Inr (first_ready shutdown_fd ps, L)))))))))"

text \<open>The reads of a turn, from descriptor \<open>i\<close> on, with the lock held; \<open>E i\<close>, \<open>M i\<close> and \<open>answers\<close> are
  those of the \<open>i\<close>-th descriptor.\<close>

function listener_reads ::
    "(nat \<Rightarrow> machine) \<Rightarrow> (nat \<Rightarrow> env) \<Rightarrow> (int \<Rightarrow> received option \<times> device_read) \<Rightarrow> nat \<Rightarrow> nat \<Rightarrow> alsa \<times> world \<Rightarrow>
     (socket_effect list \<times> alsa \<times> world) result" where
  "listener_reads M E answers i 0 LW = Inr ([], LW)"
| "listener_reads M E answers i (Suc left) (L, W) =
     (if i \<ge> al_num_poll_descriptors L then Inr ([], L, W)
      else
        bindr (deref (al_poll_descriptors L)) (\<lambda>fds.
        bindr (mem_get fds i) (\<lambda>p.
        bindr (if pf_revents p AND POLLIN = 0 then Inr ([], L, W)
               else case answers (pf_fd p) of (rc, answer) \<Rightarrow>
                 bindr (alsa_socket_read (M i) (E i) (pf_fd p) rc answer (L, W)) (\<lambda>(_, es, LW). Inr (es, LW)))
          (\<lambda>(es, LW).
        bindr (listener_reads M E answers (Suc i) left LW) (\<lambda>(es', LW). Inr (es @ es', LW))))))"
  by pat_completeness auto
termination by (relation "measure (\<lambda>(M, E, answers, i, left, LW). left)") auto

text \<open>One turn of the thread: the effects, whether it goes on, and the state.\<close>

definition listener_turn ::
    "(nat \<Rightarrow> machine) \<Rightarrow> (nat \<Rightarrow> env) \<Rightarrow> (int \<Rightarrow> 16 word) option \<Rightarrow> (int \<Rightarrow> received option \<times> device_read) \<Rightarrow>
     alsa \<times> world \<Rightarrow> (socket_effect list \<times> bool \<times> alsa \<times> world) result" where
  "listener_turn M E poll answers LW =
     (case LW of (L, W) \<Rightarrow>
      bindr (raveloxmidi_alsa_poll poll (net_socket_get_shutdown_fd (wd_sockets W)) L) (\<lambda>(poll_result, L).
      bindr (poll_descriptors_lock L) (\<lambda>L.
      bindr (poll_descriptors_unlock L) (\<lambda>L.
      bindr (if poll_result \<noteq> 1 then Inr ([], L, W)
             else
               bindr (poll_descriptors_lock L) (\<lambda>L.
               bindr (listener_reads M E answers 0 (al_num_poll_descriptors L) (L, W)) (\<lambda>(es, L, W).
               bindr (poll_descriptors_unlock L) (\<lambda>L. Inr (es, L, W))))) (\<lambda>(es, L, W).
      bindr (net_socket_get_shutdown_status (wd_sockets W)) (\<lambda>(status, K).
      Inr (es, status = 0, L, W\<lparr>wd_sockets := K\<rparr>)))))))"

text \<open>What the thread does before its first turn: the shutdown pipe is polled too, as a device
  without a handle.\<close>

definition listener_start :: "rawmidi \<Rightarrow> env \<Rightarrow> (nat \<Rightarrow> byte) \<Rightarrow> alsa \<times> sockets \<Rightarrow> (alsa \<times> sockets) result" where
  "listener_start R E junk LK =
     raveloxmidi_alsa_add_poll_fd R E junk None (net_socket_get_shutdown_fd (snd LK)) LK"

text \<open>Whether the thread is started, and whether its end is waited for.\<close>

definition raveloxmidi_alsa_loop :: "alsa \<Rightarrow> (bool \<times> alsa) result" where
  "raveloxmidi_alsa_loop L = raveloxmidi_alsa_in_available L"

definition raveloxmidi_wait_for_alsa :: "alsa \<Rightarrow> (bool \<times> alsa) result" where
  "raveloxmidi_wait_for_alsa L = raveloxmidi_alsa_in_available L"

section \<open>Outputs\<close>

text \<open>The number that tells the devices apart: by default the card alone.\<close>

definition device_hash :: "rawmidi \<Rightarrow> kv_table option \<Rightarrow> nat \<Rightarrow> int" where
  "device_hash R items h =
     (if rm_card R h < 0 \<or> rm_device R h < 0 then -1
      else case config_value items ''alsa.writeback.level'' of
        None \<Rightarrow> 4096 * rm_card R h + rm_device R h
      | Some s \<Rightarrow> if starts_with s ''device'' then 4096 * rm_card R h + rm_device R h
                  else if starts_with s ''card'' then rm_card R h else 0)"

lemma device_hash_ok:
  assumes "config_ok items"
  shows "raveloxmidi_alsa_device_hash R items (Some h) = Inr (device_hash R items h)"
  using config_string_value [OF assms]
  by (auto simp: raveloxmidi_alsa_device_hash_def device_hash_def raveloxmidi_alsa_card_number_def
      raveloxmidi_alsa_device_number_def split: option.splits)

definition writes_to :: "rawmidi \<Rightarrow> kv_table option \<Rightarrow> int \<Rightarrow> nat \<Rightarrow> bool" where
  "writes_to R items originator h \<longleftrightarrow>
     device_hash R items h \<noteq> originator \<or> is_yes (config_value items ''alsa.writeback'') \<or> device_hash R items h < 0"

definition written :: "rawmidi \<Rightarrow> kv_table option \<Rightarrow> int \<Rightarrow> bytes \<Rightarrow> nat list \<Rightarrow> device_effect list" where
  "written R items originator xs hs = map (\<lambda>h. Written h xs) (filter (writes_to R items originator) hs)"

lemma written_Cons:
  "written R items originator xs (h # hs) =
     (if writes_to R items originator h then [Written h xs] else []) @ written R items originator xs hs"
  by (simp add: written_def)

lemma table_item_used:
  assumes "table_ok t"
  shows "data_table_item_is_unused (Some t) i = Inr 0"
proof (cases "dt_items t")
  case (Some items)
  with assms have "length items = dt_count t" "\<forall>item\<in>set items. slot_ok item" by (simp_all add: table_ok_def)
  with Some show ?thesis
    using nth_mem [of i items] by (fastforce simp: data_table_item_is_unused_def data_table_slot_def slot_ok_def)
qed (simp add: data_table_item_is_unused_def data_table_slot_def)

lemma count_unused_none: "\<forall>item\<in>set items. slot_ok item \<Longrightarrow> i + n = length items \<Longrightarrow> count_unused items i n = Inr 0"
proof (induction items i n rule: count_unused.induct)
  case (2 items i left)
  then have "slot_ok (items ! i)" by simp
  then obtain d where "items ! i = Some \<lparr>di_used = 1, di_data = Some d\<rparr>" by (auto simp: slot_ok_def)
  with 2 show ?case by simp
qed simp

lemma table_unused:
  assumes "table_wf t"
  shows "data_table_unused_count (Some t) = Inr (0, Some t)"
proof -
  have "(case dt_items t of None \<Rightarrow> Inr 0 | Some items \<Rightarrow> if dt_count t = 0 then Inr 0 else count_unused items 0 (dt_count t)) = (Inr 0 :: nat result)"
    using assms by (auto simp: table_wf_def table_ok_def split: option.splits intro!: count_unused_none)
  then show ?thesis
    using assms by (simp add: data_table_unused_count_def data_table_lock_def data_table_unlock_def table_wf_def)
qed

lemma device_available_ok:
  "table_wf t \<Longrightarrow> device_available (Some t) = Inr (table_list t \<noteq> [], Some t)"
  by (simp add: device_available_def table_unused table_count)

lemma write_outputs_ok:
  assumes t: "table_ok t" and items: "config_ok items" and n: "i + n = length (table_list t)"
  shows "\<exists>w'. write_outputs R items xs originator (Some t) i n w =
    Inr (w', written R items originator xs (drop i (table_list t)))"
  using n
proof (induction n arbitrary: i w)
  case 0
  then show ?case by (simp add: written_def)
next
  case (Suc n)
  then have i: "i < length (table_list t)" by simp
  then have d: "drop i (table_list t) = table_list t ! i # drop (Suc i) (table_list t)" by (simp add: Cons_nth_drop_Suc)
  let ?h = "table_list t ! i"
  have step: "\<exists>w1. (bindr (raveloxmidi_alsa_device_hash R items (Some ?h)) (\<lambda>device_hash.
      bindr (config_string_get items (Some ''alsa.writeback'')) (\<lambda>v.
      let writeback = is_yes v in
      if originator \<noteq> device_hash \<or> writeback \<or> device_hash < 0
      then Inr (word_of_int (rm_write R ?h xs), [Written ?h xs]) else Inr (w, [])))) =
      (Inr (w1, if writes_to R items originator ?h then [Written ?h xs] else []) :: (32 word \<times> device_effect list) result)"
    by (auto simp: device_hash_ok [OF items] config_string_value [OF items] Let_def writes_to_def)
  then obtain w1 where w1: "(bindr (raveloxmidi_alsa_device_hash R items (Some ?h)) (\<lambda>device_hash.
      bindr (config_string_get items (Some ''alsa.writeback'')) (\<lambda>v.
      let writeback = is_yes v in
      if originator \<noteq> device_hash \<or> writeback \<or> device_hash < 0
      then Inr (word_of_int (rm_write R ?h xs), [Written ?h xs]) else Inr (w, [])))) =
      (Inr (w1, if writes_to R items originator ?h then [Written ?h xs] else []) :: (32 word \<times> device_effect list) result)"
    by blast
  from Suc.IH [of "Suc i" w1] Suc.prems obtain w2 where
    "write_outputs R items xs originator (Some t) (Suc i) n w1 = Inr (w2, written R items originator xs (drop (Suc i) (table_list t)))"
    by auto
  with i w1 show ?case
    unfolding d by (simp add: table_item_used [OF t] table_slot [OF t] written_Cons)
qed

lemma alsa_write_ok:
  assumes "al_outputs L = Some t" "table_wf t" "config_ok items"
  shows "\<exists>w. raveloxmidi_alsa_write R items xs originator L = Inr (w, written R items originator xs (table_list t), L)"
proof -
  from assms(2) have "table_ok t" by (simp add: table_wf_def)
  from write_outputs_ok [OF this assms(3), of 0 "length (table_list t)" R xs originator 0] obtain w where
    "write_outputs R items xs originator (Some t) 0 (length (table_list t)) 0 = Inr (w, written R items originator xs (table_list t))"
    by auto
  with assms(1) show ?thesis
    by (cases L) (simp add: raveloxmidi_alsa_write_def table_count [OF assms(2)])
qed

lemma raw_buffer_ok: "command_wf c \<Longrightarrow> raw_buffer c = Inr (midi_bytes c)"
  using command_data [of c] by (cases "mc_data c") (auto simp: raw_buffer_def midi_bytes_def Let_def numeral_2_eq_2)

lemma write_command_ok:
  assumes "al_outputs L = Some t" "table_wf t" "config_ok items" "command_wf c"
  shows "write_command mem_ok R items inbound_midi c originator L =
    Inr (if inbound_midi then Some (midi_bytes c) else None, written R items originator (midi_bytes c) (table_list t), L)"
proof -
  from alsa_write_ok [OF assms(1-3), of R "midi_bytes c" originator] obtain w where
    "raveloxmidi_alsa_write R items (midi_bytes c) originator L = Inr (w, written R items originator (midi_bytes c) (table_list t), L)"
    by blast
  then show ?thesis
    using assms(1) by (cases L) (auto simp: write_command_def raveloxmidi_alsa_out_available_def
        device_available_ok [OF assms(2)] raw_buffer_ok [OF assms(4)] written_def)
qed

lemma alsa_send_ok:
  assumes "net_wf N" "command_complete c" "journal_enabled \<longrightarrow> journalable c"
    and "al_outputs L = Some t" "table_wf t" "config_ok items"
  shows "\<exists>N' e. alsa_send_single mem_ok now junk journal_enabled R items inbound_midi (Some c) originator hash (L, N) =
      Inr (concat (map (sent_by_turn now originator c N) [0..<length (addresses N)]),
           if inbound_midi then Some (midi_bytes c) else None, written R items hash (midi_bytes c) (table_list t), L, N') \<and>
    net_wf N' \<and> addresses N' = addresses N \<and> command_event mem_ok (Some c) = Inr e \<and>
    (\<forall>a\<in>set (addresses N). turn_done journal_enabled originator e (context_of N a) (context_of N' a))"
proof -
  from assms(2) have wf: "command_wf c" by (simp add: command_complete_def)
  from command_to_payload_ok [OF wf, of junk] obtain pl where "midi_command_to_payload mem_ok junk (Some c) = Inr (Some pl)" by blast
  with send_single_ok [OF assms(1-3), of now junk False originator] write_command_ok [OF assms(4-6) wf] show ?thesis
    by (auto simp: alsa_send_single_def)
qed

section \<open>Properties of sending\<close>

text \<open>With sound devices a command is sent to the connections as without, the file for inbound MIDI
  gets it, and so does every output, in the order of the table, but those whose number is that of
  where the command came from, unless writing back is configured or the device has no number.\<close>

theorem alsa_fan_out:
  assumes "net_wf N" "command_complete c" "journal_enabled \<longrightarrow> journalable c"
    and "al_outputs L = Some t" "table_wf t" "config_ok items"
  shows "\<exists>N'. alsa_send_single mem_ok now junk journal_enabled R items inbound_midi (Some c) originator hash (L, N) =
      Inr (concat (map (sent_by_turn now originator c N) [0..<length (addresses N)]),
           if inbound_midi then Some (midi_bytes c) else None,
           map (\<lambda>h. Written h (midi_bytes c)) (filter (\<lambda>h. device_hash R items h \<noteq> hash \<or>
             is_yes (config_value items ''alsa.writeback'') \<or> device_hash R items h < 0) (table_list t)), L, N') \<and>
    net_wf N' \<and> addresses N' = addresses N"
proof -
  have eq: "written R items hash (midi_bytes c) (table_list t) = map (\<lambda>h. Written h (midi_bytes c)) (filter (\<lambda>h.
      device_hash R items h \<noteq> hash \<or> is_yes (config_value items ''alsa.writeback'') \<or> device_hash R items h < 0) (table_list t))"
    by (simp add: written_def writes_to_def [abs_def])
  from alsa_send_ok [OF assms, of now junk R inbound_midi originator hash, unfolded eq] show ?thesis
    by (elim exE conjE, intro exI conjI)
qed

lemma held_handler:
  assumes S: "held_by S a (Suc n) (Some \<lparr>sx_ssrc = ssrc, sx_alsa_card_hash = hash\<rparr>)"
    and N: "net_wf N" "command_complete c" "journal_enabled \<longrightarrow> journalable c"
    and L: "al_outputs L = Some t" "table_wf t" "config_ok items"
  shows "\<exists>S' N'. alsa_sender_handler mem_ok now junk journal_enabled R items inbound_midi (Some c) (Some a) S (L, N) =
      Inr (concat (map (sent_by_turn now ssrc c N) [0..<length (addresses N)]),
           if inbound_midi then Some (midi_bytes c) else None, written R items hash (midi_bytes c) (table_list t), S', L, N') \<and>
    net_wf N' \<and> addresses N' = addresses N"
proof -
  from release_held [OF S] obtain S' p where r: "data_context_release (Some a) S = Inr (p, S')" by blast
  from S obtain d where d: "S a = Some d" "dx_data d = Some \<lparr>sx_ssrc = ssrc, sx_alsa_card_hash = hash\<rparr>"
    by (auto simp: held_by_def live_def)
  from alsa_send_ok [OF N L, of now junk R inbound_midi ssrc hash] obtain N' where
    "alsa_send_single mem_ok now junk journal_enabled R items inbound_midi (Some c) ssrc hash (L, N) =
      Inr (concat (map (sent_by_turn now ssrc c N) [0..<length (addresses N)]),
           if inbound_midi then Some (midi_bytes c) else None, written R items hash (midi_bytes c) (table_list t), L, N')"
    "net_wf N'" "addresses N' = addresses N" by blast
  with r d show ?thesis by (auto simp: alsa_sender_handler_def context_at_def)
qed

text \<open>With the default configuration, a command whose number is 0 is for all but the first card.\<close>

lemma written_card_0:
  assumes "config_value items ''alsa.writeback.level'' = Some ''card''" "\<not> is_yes (config_value items ''alsa.writeback'')"
  shows "writes_to R items 0 h \<longleftrightarrow> rm_card R h \<noteq> 0 \<or> rm_device R h < 0"
proof -
  have "starts_with ''card'' ''card''" "\<not> starts_with ''card'' ''device''" by code_simp+
  with assms show ?thesis by (auto simp: writes_to_def device_hash_def)
qed

text \<open>MIDI from the network never reaches the first sound card: what arrives from a peer is queued
  with the number 0 as that of the card it came from, which in the default configuration is the
  number of the first card, so that the command is written to the devices of the other cards only.\<close>
theorem network_midi_skips_card_0:
  assumes W: "arrives_at (wd_sockets W) fd 1 at" "net_wf (wd_net W)" "en_alloc E = mem_ok"
    and xs: "rc_bytes rc = xs" "12 \<le> length xs" "length xs \<le> NET_APPLEMIDI_UDPSIZE" "\<not> (xs ! 0 = 0xff \<and> xs ! 1 = 0xff)"
    and h: "rh_v (rp_header (rtp_parse xs)) = RTP_VERSION" "peer (wd_net W) (rh_ssrc (rp_header (rtp_parse xs))) = Some b"
      "rtp_section xs = Some pl"
    and c: "c \<in> set (rtp_commands xs pl (peer_parser (wd_net W) b))" "command_complete c" "journal_enabled \<longrightarrow> journalable c"
    and L: "al_outputs L = Some t" "table_wf t" "config_ok items"
    and default: "config_value items ''alsa.writeback.level'' = Some ''card''" "\<not> is_yes (config_value items ''alsa.writeback'')"
  shows "\<exists>es W' ds raw S N'. net_socket_read M E fd (Some rc) W = Inr (0, es, W') \<and> Queued c (Some (mc_context M)) \<in> set es \<and>
    alsa_sender_handler mem_ok now junk journal_enabled R items inbound_midi (Some c) (Some (mc_context M)) (wd_contexts W')
      (L, wd_net W') =
      Inr (ds, raw, map (\<lambda>h. Written h (midi_bytes c)) (filter (\<lambda>h. rm_card R h \<noteq> 0 \<or> rm_device R h < 0) (table_list t)), S, L, N')"
proof -
  let ?cs = "rtp_commands xs pl (peer_parser (wd_net W) b)" and ?ssrc = "rh_ssrc (rp_header (rtp_parse xs))"
  from rtp_socket_read [OF W xs refl, of M] h obtain es W' where
    r: "net_socket_read M E fd (Some rc) W = Inr (0, es, W')"
      "rtp_taken M xs pl b (wd_net W) (wd_contexts W) es (wd_net W') (wd_contexts W')" by blast
  then have es: "\<exists>r. es = Reply r # queued (mc_context M) ?cs" and N': "net_wf (wd_net W')"
    and S: "contexts_after (mc_context M) \<lparr>sx_ssrc = ?ssrc, sx_alsa_card_hash = 0\<rparr> (length ?cs) (wd_contexts W) (wd_contexts W')"
    by (auto simp: rtp_taken_def Let_def)
  from c(1) obtain n where n: "length ?cs = Suc n" by (cases ?cs) auto
  from S n have held: "held_by (wd_contexts W') (mc_context M) (Suc n) (Some \<lparr>sx_ssrc = ?ssrc, sx_alsa_card_hash = 0\<rparr>)"
    by (simp add: contexts_after_def)
  have q: "Queued c (Some (mc_context M)) \<in> set es" using es c(1) by (auto simp: queued_def)
  have eq: "written R items 0 (midi_bytes c) (table_list t) =
      map (\<lambda>h. Written h (midi_bytes c)) (filter (\<lambda>h. rm_card R h \<noteq> 0 \<or> rm_device R h < 0) (table_list t))"
    by (simp add: written_def written_card_0 [OF default, abs_def])
  from held_handler [OF held N' c(2,3) L, of now junk R inbound_midi, unfolded eq] r(1) q show ?thesis
    by (elim exE conjE, intro exI conjI)
qed

section \<open>An example\<close>

definition config_alsa :: "kv_table option" where
  "config_alsa = Some \<lparr>kt_name = None, kt_count = 3, kt_items = Some
     [\<lparr>ki_key = Some ''alsa.input_buffer_size'', ki_value = Some ''4096''\<rparr>,
      \<lparr>ki_key = Some ''alsa.writeback'', ki_value = Some ''no''\<rparr>,
      \<lparr>ki_key = Some ''alsa.writeback.level'', ki_value = Some ''card''\<rparr>], kt_held = False\<rparr>"

lemma config_alsa_values:
  "config_ok config_alsa" "config_int_get config_alsa (Some ''alsa.input_buffer_size'') = Inr 4096"
  "config_value config_alsa ''alsa.writeback.level'' = Some ''card''" "\<not> is_yes (config_value config_alsa ''alsa.writeback'')"
proof -
  show "config_int_get config_alsa (Some ''alsa.input_buffer_size'') = Inr 4096"
    "config_value config_alsa ''alsa.writeback.level'' = Some ''card''" "\<not> is_yes (config_value config_alsa ''alsa.writeback'')"
    by code_simp+
  have "distinct (map (\<lambda>item. fold_case (the (ki_key item))) (the (kt_items (the config_alsa))))" by code_simp
  then show "config_ok config_alsa" by (simp add: config_ok_def config_alsa_def kv_wf_def)
qed

text \<open>The handle is the number of the card; the tables have one input and two outputs.\<close>

definition rawmidi_example :: rawmidi where
  "rawmidi_example = \<lparr>rm_open = (\<lambda>_ n. (0, if n = ''hw:0'' then 0 else 1)), rm_card = int, rm_device = (\<lambda>_. 0),
     rm_fds = (\<lambda>_. (1, [7])), rm_write = (\<lambda>_ xs. int (length xs))\<rparr>"

definition device_table :: "nat list \<Rightarrow> nat data_table" where
  "device_table hs = \<lparr>dt_name = None, dt_items = Some (map (\<lambda>h. Some \<lparr>di_used = 1, di_data = Some h\<rparr>) hs),
     dt_count = length hs, dt_held = False, dt_item_destructor = True\<rparr>"

definition alsa_example :: alsa where
  "alsa_example = \<lparr>al_outputs = Some (device_table [0, 1]), al_inputs = Some (device_table [0]), al_num_poll_descriptors = 0,
     al_poll_descriptors = None, al_poll_held = False, al_sockets = Map.empty\<rparr>"

lemma device_table_ok: "table_wf (device_table hs)" "table_list (device_table hs) = hs"
  by (auto simp: device_table_def table_wf_def table_ok_def table_list_def slot_ok_def comp_def)

definition note_played :: midi_command where
  "note_played = \<lparr>mc_delta = 0, mc_status = 0x90, mc_data_len = 2, mc_data = Some [60, 100]\<rparr>"

lemma note_played_ok: "command_complete note_played"
proof -
  have "command_wf note_played" by (simp add: command_wf_def midi_bytes_def note_played_def)
  moreover have "snd (midi_command_map note_played) = MIDI_NOTE_ON" by code_simp
  ultimately show ?thesis by (simp add: command_complete_def note_played_def)
qed

theorem alsa_fan_out_witness:
  "\<exists>N'. alsa_send_single mem_ok (\<lambda>_. 5) (sent_payload_header note_played True) False rawmidi_example config_alsa True
      (Some note_played) 0 0 (alsa_example, net_start) = Inr ([], Some [0x90, 60, 100], [Written 1 [0x90, 60, 100]], alsa_example, N')"
proof -
  have t: "al_outputs alsa_example = Some (device_table [0, 1])" by (simp add: alsa_example_def)
  have "device_hash rawmidi_example config_alsa 0 = 0" "device_hash rawmidi_example config_alsa 1 = 1" by code_simp+
  with alsa_fan_out [OF net_start_wf(1) note_played_ok _ t device_table_ok(1) config_alsa_values(1), of False "\<lambda>_. 5"
      "sent_payload_header note_played True" rawmidi_example True 0 0] config_alsa_values(4)
  show ?thesis by (simp add: device_table_ok(2) net_start_wf(3) note_played_def midi_bytes_def) (elim exE conjE, erule exI)
qed

theorem network_midi_skips_card_0_witness:
  "\<exists>W es W' ds raw S N'. net_socket_read machine_example env_example 5 (Some \<lparr>rc_bytes = note_packet, rc_ip_address = None, rc_port = 9\<rparr>) W =
      Inr (0, es, W') \<and> Queued note_played (Some 50) \<in> set es \<and>
    alsa_sender_handler mem_ok (\<lambda>_. 5) (sent_payload_header note_played True) False rawmidi_example config_alsa False (Some note_played)
      (Some 50) (wd_contexts W') (alsa_example, wd_net W') = Inr (ds, raw, [Written 1 [0x90, 60, 100]], S, alsa_example, N')"
proof -
  from world_example obtain K where K: "arrives_at K 5 1 4" by blast
  from idle_peer obtain N where N: "net_wf N" "peer N 5 = Some 3" "peer_parser N 3 = midi_new 10240" by blast
  let ?W = "\<lparr>wd_sockets = K, wd_net = N, wd_contexts = Map.empty\<rparr>"
  let ?rc = "\<lparr>rc_bytes = note_packet, rc_ip_address = None, rc_port = 9\<rparr>"
  have W: "arrives_at (wd_sockets ?W) 5 1 4" "net_wf (wd_net ?W)" using K N by simp_all
  have p: "rc_bytes ?rc = note_packet" "12 \<le> length note_packet" "length note_packet \<le> NET_APPLEMIDI_UDPSIZE"
    "\<not> (note_packet ! 0 = 0xff \<and> note_packet ! 1 = 0xff)"
    by (simp_all add: note_packet_def NET_APPLEMIDI_UDPSIZE_def)
  have peer: "peer (wd_net ?W) (rh_ssrc (rp_header (rtp_parse note_packet))) = Some 3" using N by (simp add: note_packet_parsed)
  have c: "note_played \<in> set (rtp_commands note_packet (payload_of 3 3 [0x90, 60, 100]) (peer_parser (wd_net ?W) 3))"
    using N(3) note_packet_commands by (simp add: note_played_def)
  have t: "al_outputs alsa_example = Some (device_table [0, 1])" by (simp add: alsa_example_def)
  have f: "filter (\<lambda>h. rm_card rawmidi_example h \<noteq> 0 \<or> rm_device rawmidi_example h < 0) [0, 1 :: nat] = [1]"
    "mc_context machine_example = 50" "midi_bytes note_played = [0x90, 60, 100]"
    by (simp_all add: rawmidi_example_def machine_example_def note_played_def midi_bytes_def)
  from network_midi_skips_card_0 [OF W env_alloc p note_packet_parsed(1) peer note_packet_parsed(4) c note_played_ok _ t device_table_ok(1)
      config_alsa_values(1,3,4), of False machine_example "\<lambda>_. 5" "sent_payload_header note_played True" rawmidi_example False]
  show ?thesis unfolding device_table_ok(2) f by (intro exI [of _ ?W]) simp
qed

end
