(* ===== verification/Alsa_Read.thy ===== *)
theory Alsa_Read
  imports Alsa
begin

text \<open>
  What reading a sound device does (\<^verbatim>\<open>net_socket_read\<close> and \<^verbatim>\<open>raveloxmidi_alsa_read\<close> of the build with
  ALSA, defined in \<open>Alsa\<close>): the octets go through the parser of the device's socket, the commands are
  queued under the number of the device; and what the listener thread, which reads with the lock of
  the polled descriptors held, survives.
\<close>

unbundle bit_operations_syntax

section \<open>One read\<close>

text \<open>A device with the handle \<open>h\<close>, which the shutdown pipe does not have, behind the descriptor \<open>fd\<close>, whose socket is at \<open>a\<close>.\<close>

definition device_at :: "alsa \<Rightarrow> sockets \<Rightarrow> int \<Rightarrow> nat \<Rightarrow> nat option \<Rightarrow> bool" where
  "device_at L K fd a h \<longleftrightarrow> sockets_wf K \<and> 0 \<le> fd \<and> fd \<notin> {fd_at K 0, fd_at K 1, fd_at K 2} \<and>
     List.find (\<lambda>a. so_fd (socket_of K a) = fd) (socket_addresses K) = Some a \<and> al_sockets L a = Some h \<and>
     so_packet_size (socket_of K a) < 2 ^ 32 - 1"

definition device_parser :: "sockets \<Rightarrow> nat \<Rightarrow> midi_state" where
  "device_parser K a = the (so_state (socket_of K a))"

text \<open>The octets of a read that the ring has room for: all or none.\<close>

definition device_octets :: "sockets \<Rightarrow> nat \<Rightarrow> device_read \<Rightarrow> bytes" where
  "device_octets K a answer =
     (let xs = take (so_packet_size (socket_of K a)) (dr_bytes answer) in
      if dr_ret answer < 0 \<or> ring_capacity (ms_ring (device_parser K a)) < length xs then [] else xs)"

definition device_commands :: "sockets \<Rightarrow> nat \<Rightarrow> device_read \<Rightarrow> midi_command list" where
  "device_commands K a answer =
     fst (midi_parse MIDI_PARSE_MODE_SIMPLE (device_octets K a answer) (parser_of False (device_parser K a)))"

lemma midi_state_write_full:
  assumes "parser_wf st" "unread st = []" "0 < n" "ring_capacity (ms_ring st) < n"
  shows "midi_state_write (Some st) (Some buf) n = Inr (1, Some st)"
proof -
  from parser_ring [OF assms(1)] have r: "ring_wf (ms_ring st)" "ms_ring st \<noteq> None" "\<not> ms_held st" by simp_all
  have "ring_buffer_write (ms_ring st) (Some buf) n = Inr (0, ms_ring st)"
    by (rule ring_buffer_write_full [OF r(1) assms(3)]) (use assms(2,4) in \<open>simp add: unread_def\<close>)
  with r assms(3) show ?thesis by (cases st) (simp add: midi_state_write_def midi_state_lock_def midi_state_unlock_def)
qed

text \<open>Writing what was read to the parser of the socket.\<close>

lemma device_write:
  assumes st: "parser_wf st" "unread st = []" and xs: "xs \<noteq> []"
    and m: "length xs \<le> length m" "take (length xs) m = xs"
  shows "\<exists>st'. midi_state_write (Some st) (Some m) (length xs) = Inr (1, Some st') \<and> parser_wf st' \<and>
    unread st' = (if ring_capacity (ms_ring st) < length xs then [] else xs) \<and>
    ring_capacity (ms_ring st') = ring_capacity (ms_ring st) \<and> (\<forall>z. parser_of z st' = parser_of z st)"
proof (cases "ring_capacity (ms_ring st) < length xs")
  case True
  with midi_state_write_full [OF st, of "length xs" m] st xs show ?thesis by simp
next
  case False
  then have "length (unread st) + length xs \<le> ring_capacity (ms_ring st)" "0 < length xs" using st(2) xs by simp_all
  from midi_state_write_prefix [OF st(1) this(2) m(1) this(1)] st(2) m(2) False show ?thesis by auto
qed

lemma socket_set_contexts: "(socket_set a s W)\<lparr>wd_contexts := S\<rparr> = socket_set a s (W\<lparr>wd_contexts := S\<rparr>)"
  by (simp add: socket_set_def)

text \<open>The socket of a device.\<close>

lemma device_socket:
  assumes "device_at L K fd a h"
  shows "sockets_wf K" "a \<in> set (socket_addresses K)" "so_fd (socket_of K a) = fd" "\<not> so_held (socket_of K a)"
    "\<exists>m n. so_packet (socket_of K a) = Some m \<and> length m = so_packet_size (socket_of K a) + 1 \<and>
       so_state (socket_of K a) = Some (device_parser K a) \<and> NET_APPLEMIDI_UDPSIZE \<le> n \<and> midi_ready n (device_parser K a)"
    "NET_APPLEMIDI_UDPSIZE \<le> so_packet_size (socket_of K a)"
proof -
  show "sockets_wf K" "a \<in> set (socket_addresses K)" "so_fd (socket_of K a) = fd"
    using assms by (auto simp: device_at_def find_Some_iff)
  then have "socket_ok (socket_of K a)" "\<not> so_held (socket_of K a)" by (auto simp: sockets_wf_def)
  then show "\<not> so_held (socket_of K a)" "NET_APPLEMIDI_UDPSIZE \<le> so_packet_size (socket_of K a)"
    "\<exists>m n. so_packet (socket_of K a) = Some m \<and> length m = so_packet_size (socket_of K a) + 1 \<and>
       so_state (socket_of K a) = Some (device_parser K a) \<and> NET_APPLEMIDI_UDPSIZE \<le> n \<and> midi_ready n (device_parser K a)"
    by (auto simp: socket_ok_def device_parser_def)
qed

lemma device_read_unroll:
  assumes d: "device_at L (wd_sockets W) fd a h"
  defines "s \<equiv> (socket_of (wd_sockets W) a)\<lparr>so_held := True\<rparr>"
    and "m \<equiv> replicate (so_packet_size (socket_of (wd_sockets W) a) + 1) (0 :: byte)"
  shows "alsa_socket_read M E fd received answer (L, W) =
    bindr (raveloxmidi_alsa_read (en_alloc E) fd h (Some m) (so_packet_size s) answer L) (\<lambda>(recv_len, packet, L).
    bindr (if recv_len \<le> 0 then Inr (0, [], s\<lparr>so_packet := packet\<rparr>, W)
           else
             bindr (midi_state_write (so_state s) packet (nat recv_len)) (\<lambda>(_, st).
             bindr (send_commands M (en_alloc E) \<lparr>sx_ssrc = 0, sx_alsa_card_hash = so_device_hash s\<rparr>
                      MIDI_PARSE_MODE_SIMPLE False st (wd_contexts W)) (\<lambda>(es, st', S).
             Inr (0, es, s\<lparr>so_packet := packet, so_state := st'\<rparr>, W\<lparr>wd_contexts := S\<rparr>)))) (\<lambda>(ret, es, s, W).
    Inr (ret, es, L, socket_set a (s\<lparr>so_held := False\<rparr>) W)))"
proof -
  note ds = device_socket [OF d]
  from d have at: "List.find (\<lambda>a. so_fd (socket_of (wd_sockets W) a) = fd) (socket_addresses (wd_sockets W)) = Some a"
    and fd: "fd \<noteq> fd_at (wd_sockets W) 0" "fd \<noteq> fd_at (wd_sockets W) 1" "fd \<noteq> fd_at (wd_sockets W) 2"
    and al: "al_sockets L a = Some h" by (auto simp: device_at_def)
  from ds(5) obtain m0 where m0: "so_packet (socket_of (wd_sockets W) a) = Some m0"
    "length m0 = so_packet_size (socket_of (wd_sockets W) a) + 1" by blast
  have w1: "mem_write m0 0 (replicate (Suc (so_packet_size (socket_of (wd_sockets W) a))) 0) = Inr m"
    using m0(2) by (simp add: m_def del: replicate_Suc)
  have lk: "net_socket_lock (Some (socket_of (wd_sockets W) a)) = Inr (Some s)"
    unfolding s_def by (rule socket_lock_ok [OF ds(4)])
  have pk: "so_packet s = Some m0" "so_packet_size s = so_packet_size (socket_of (wd_sockets W) a)"
    "so_device_hash s = so_device_hash (socket_of (wd_sockets W) a)" "so_state s = so_state (socket_of (wd_sockets W) a)" "so_held s"
    using m0(1) by (simp_all add: s_def)
  have W: "W\<lparr>wd_sockets := wd_sockets W\<rparr> = W" by simp
  show ?thesis
    unfolding alsa_socket_read_def
    using fd
    by (simp add: net_socket_get_data_socket_def net_socket_get_control_socket_def net_socket_get_local_socket_def
        socket_fd_at_ok [OF ds(1)] find_by_fd_ok [OF ds(1)] at al sockets_wf_at [OF ds(1,2)] lk w1 pk bindr_assoc Let_def
        split_beta net_socket_unlock_def bindr_if del: replicate_Suc)
      (rule bindr_cong [OF refl], clarsimp simp: pk bindr_assoc split_beta socket_set_contexts split del: if_split split: if_split)
qed

definition gone :: "device_read \<Rightarrow> bool" where
  "gone answer \<longleftrightarrow> dr_ret answer < 0 \<and> dr_errno answer = ENODEV"

text \<open>What a read leaves: the sockets with the parser of \<open>a\<close> changed, and the commands queued under a
  context of their own.\<close>

definition device_done ::
    "machine \<Rightarrow> nat \<Rightarrow> device_read \<Rightarrow> world \<Rightarrow> socket_effect list \<Rightarrow> world \<Rightarrow> bool" where
  "device_done M a answer W es W' \<longleftrightarrow>
     (let cs = device_commands (wd_sockets W) a answer in
      read_done a (sk_shutdown (wd_sockets W)) W W' \<and> wd_net W' = wd_net W \<and> es = queued (mc_context M) cs \<and>
      so_packet_size (socket_of (wd_sockets W') a) = so_packet_size (socket_of (wd_sockets W) a) \<and>
      sk_shutdown_fd (wd_sockets W') = sk_shutdown_fd (wd_sockets W) \<and>
      contexts_after (mc_context M) \<lparr>sx_ssrc = 0, sx_alsa_card_hash = so_device_hash (socket_of (wd_sockets W) a)\<rparr> (length cs)
        (wd_contexts W) (wd_contexts W'))"

lemma device_done_set:
  assumes d: "device_at L (wd_sockets W) fd a h"
    and s: "socket_ok s" "\<not> so_held s" "so_fd s = fd" "so_packet_size s = so_packet_size (socket_of (wd_sockets W) a)"
    and cs: "device_commands (wd_sockets W) a answer = cs" "es = queued (mc_context M) cs"
      "contexts_after (mc_context M) \<lparr>sx_ssrc = 0, sx_alsa_card_hash = so_device_hash (socket_of (wd_sockets W) a)\<rparr> (length cs)
        (wd_contexts W) S"
  shows "device_done M a answer W es (socket_set a s (W\<lparr>wd_contexts := S\<rparr>))"
proof -
  note ds = device_socket [OF d]
  have "read_done a (sk_shutdown (wd_sockets W)) W (socket_set a s W)"
    by (rule read_done_set(1) [OF ds(1,2) s(1,2)]) (simp add: s(3) ds(3))
  then have "read_done a (sk_shutdown (wd_sockets W)) W (socket_set a s (W\<lparr>wd_contexts := S\<rparr>))"
    by (rule read_done_sockets) (simp add: socket_set_def)
  moreover have "sk_shutdown_fd (wd_sockets (socket_set a s (W\<lparr>wd_contexts := S\<rparr>))) = sk_shutdown_fd (wd_sockets W)"
    by (simp add: socket_set_def)
  ultimately show ?thesis using s(4) cs by (simp add: device_done_def Let_def)
qed

lemma alsa_read_octets:
  assumes "0 \<le> dr_ret answer" "length m = n + 1" "0 < n"
  shows "raveloxmidi_alsa_read A fd (Some h) (Some m) n answer L =
    Inr (int (length (take n (dr_bytes answer))), Some (take n (dr_bytes answer) @ drop (length (take n (dr_bytes answer))) m), L)"
  using assms by (simp add: raveloxmidi_alsa_read_def)

lemma device_read_data:
  assumes d: "device_at L (wd_sockets W) fd a (Some h)" and A: "en_alloc E = mem_ok" and r: "0 \<le> dr_ret answer"
    and S: "wd_contexts W (mc_context M) = None"
  shows "\<exists>es W'. alsa_socket_read M E fd received answer (L, W) = Inr (0, es, L, W') \<and> device_done M a answer W es W'"
proof -
  note ds = device_socket [OF d]
  let ?s0 = "socket_of (wd_sockets W) a" and ?st0 = "device_parser (wd_sockets W) a"
  let ?n = "so_packet_size ?s0"
  define xs where "xs = take ?n (dr_bytes answer)"
  define m where "m = xs @ drop (length xs) (replicate (?n + 1) (0 :: byte))"
  from ds(5) obtain k where k: "so_state ?s0 = Some ?st0" "NET_APPLEMIDI_UDPSIZE \<le> k" "midi_ready k ?st0" by blast
  then have st0: "parser_wf ?st0" "unread ?st0 = []" "ring_capacity (ms_ring ?st0) = k" by (simp_all add: ready_unread)
  have n: "0 < ?n" using ds(6) by (simp add: NET_APPLEMIDI_UDPSIZE_def)
  have len: "length m = ?n + 1" "length xs \<le> length m" "take (length xs) m = xs"
    by (simp_all add: m_def) (simp add: xs_def)
  have rd: "raveloxmidi_alsa_read (en_alloc E) fd (Some h) (Some (replicate (?n + 1) 0)) (so_packet_size (?s0\<lparr>so_held := True\<rparr>)) answer L =
    Inr (int (length xs), Some m, L)"
    using alsa_read_octets [OF r _ n, of "replicate (?n + 1) 0" "en_alloc E" fd h L]
    by (simp add: xs_def m_def del: replicate_Suc)
  show ?thesis
  proof (cases "xs = []")
    case True
    let ?s = "?s0\<lparr>so_packet := Some m, so_held := False\<rparr>"
    have "socket_ok ?s" using ds(6) k len(1) by (auto simp: socket_ok_def)
    moreover have "device_octets (wd_sockets W) a answer = []" using True by (simp add: device_octets_def Let_def xs_def)
    then have c: "device_commands (wd_sockets W) a answer = []" by (simp add: device_commands_def)
    ultimately have "device_done M a answer W [] (socket_set a ?s (W\<lparr>wd_contexts := wd_contexts W\<rparr>))"
      by (intro device_done_set [OF d _ _ _ _ c]) (use ds(3) S in \<open>simp_all add: queued_def contexts_after_def\<close>)
    moreover have "alsa_socket_read M E fd received answer (L, W) = Inr (0, [], L, socket_set a ?s W)"
      unfolding device_read_unroll [OF d] rd using True by simp
    ultimately show ?thesis by auto
  next
    case False
    from device_write [OF st0(1,2) False len(2,3)] obtain st where
      st: "midi_state_write (Some ?st0) (Some m) (length xs) = Inr (1, Some st)" "parser_wf st"
        "unread st = (if k < length xs then [] else xs)" "ring_capacity (ms_ring st) = k" "\<forall>z. parser_of z st = parser_of z ?st0"
      using st0(3) by auto
    have oct: "device_octets (wd_sockets W) a answer = unread st"
      using r st(3) st0(3) by (simp add: device_octets_def Let_def xs_def)
    have "length (unread st) \<le> ?n" using st(3) by (simp add: xs_def)
    then have "length (unread st) < 2 ^ 32 - 1" using d by (auto simp: device_at_def)
    from send_commands_ok [OF st(2) this, of M "\<lparr>sx_ssrc = 0, sx_alsa_card_hash = so_device_hash ?s0\<rparr>" MIDI_PARSE_MODE_SIMPLE False "wd_contexts W"]
    obtain st' S' where
      s: "send_commands M mem_ok \<lparr>sx_ssrc = 0, sx_alsa_card_hash = so_device_hash ?s0\<rparr> MIDI_PARSE_MODE_SIMPLE False (Some st) (wd_contexts W) =
        Inr (queued (mc_context M) (device_commands (wd_sockets W) a answer), Some st', S')" "midi_ready k st'"
        "contexts_after (mc_context M) \<lparr>sx_ssrc = 0, sx_alsa_card_hash = so_device_hash ?s0\<rparr>
          (length (device_commands (wd_sockets W) a answer)) (wd_contexts W) S'"
      unfolding st(4) device_commands_def oct using st(5) by auto
    let ?s = "?s0\<lparr>so_packet := Some m, so_state := Some st', so_held := False\<rparr>"
    have "socket_ok ?s" using ds(6) k(2) s(2) len(1) by (auto simp: socket_ok_def)
    then have "device_done M a answer W (queued (mc_context M) (device_commands (wd_sockets W) a answer)) (socket_set a ?s (W\<lparr>wd_contexts := S'\<rparr>))"
      by (intro device_done_set [OF d _ _ _ _ refl refl s(3)]) (use ds(3) in simp_all)
    moreover have "alsa_socket_read M E fd received answer (L, W) =
        Inr (0, queued (mc_context M) (device_commands (wd_sockets W) a answer), L, socket_set a ?s (W\<lparr>wd_contexts := S'\<rparr>))"
      unfolding device_read_unroll [OF d] rd using False k(1) st(1) s(1) A by simp
    ultimately show ?thesis by blast
  qed
qed

lemma device_read_failed:
  assumes d: "device_at L (wd_sockets W) fd a (Some h)" and r: "dr_ret answer < 0" and S: "wd_contexts W (mc_context M) = None"
  shows "\<exists>W'. alsa_socket_read M E fd received answer (L, W) =
      (if gone answer then bindr (raveloxmidi_alsa_disable_poll_fd (en_alloc E) fd L) (\<lambda>L'. Inr (0, [], L', W'))
       else Inr (0, [], L, W')) \<and> device_done M a answer W [] W'"
proof -
  note ds = device_socket [OF d]
  let ?s0 = "socket_of (wd_sockets W) a"
  let ?n = "so_packet_size ?s0"
  let ?s = "?s0\<lparr>so_packet := Some (replicate (?n + 1) 0), so_held := False\<rparr>"
  have n: "0 < ?n" using ds(6) by (simp add: NET_APPLEMIDI_UDPSIZE_def)
  have "socket_ok ?s" using ds(5,6) by (auto simp: socket_ok_def)
  moreover have c: "device_commands (wd_sockets W) a answer = []"
    using r by (simp add: device_commands_def device_octets_def Let_def)
  ultimately have "device_done M a answer W [] (socket_set a ?s (W\<lparr>wd_contexts := wd_contexts W\<rparr>))"
    by (intro device_done_set [OF d _ _ _ _ c]) (use ds(3) S in \<open>simp_all add: queued_def contexts_after_def\<close>)
  moreover have "alsa_socket_read M E fd received answer (L, W) =
      (if gone answer then bindr (raveloxmidi_alsa_disable_poll_fd (en_alloc E) fd L) (\<lambda>L'. Inr (0, [], L', socket_set a ?s W))
       else Inr (0, [], L, socket_set a ?s W))"
    unfolding device_read_unroll [OF d] using r n
    by (simp add: raveloxmidi_alsa_read_def gone_def bindr_assoc del: replicate_Suc)
  ultimately show ?thesis by auto
qed

lemma device_read_pipe:
  assumes d: "device_at L (wd_sockets W) fd a None"
  shows "\<exists>W'. alsa_socket_read M E fd received answer (L, W) = Inr (0, [], L, W') \<and>
    read_done a (sk_shutdown (wd_sockets W)) W W' \<and> wd_net W' = wd_net W \<and> wd_contexts W' = wd_contexts W \<and>
    sk_shutdown_fd (wd_sockets W') = sk_shutdown_fd (wd_sockets W) \<and>
    so_packet_size (socket_of (wd_sockets W') a) = so_packet_size (socket_of (wd_sockets W) a)"
proof -
  note ds = device_socket [OF d]
  let ?s0 = "socket_of (wd_sockets W) a"
  let ?n = "so_packet_size ?s0"
  let ?s = "?s0\<lparr>so_packet := Some (replicate (?n + 1) 0), so_held := False\<rparr>"
  have "socket_ok ?s" using ds(5,6) by (auto simp: socket_ok_def)
  then have "read_done a (sk_shutdown (wd_sockets W)) W (socket_set a ?s W)"
    by (intro read_done_set(1) [OF ds(1,2)]) simp_all
  moreover have "alsa_socket_read M E fd received answer (L, W) = Inr (0, [], L, socket_set a ?s W)"
    unfolding device_read_unroll [OF d] by (simp add: raveloxmidi_alsa_read_def del: replicate_Suc)
  moreover have "sk_shutdown_fd (wd_sockets (socket_set a ?s W)) = sk_shutdown_fd (wd_sockets W)" by (simp add: socket_set_def)
  ultimately show ?thesis by (intro exI [of _ "socket_set a ?s W"]) simp
qed

section \<open>The listener\<close>

text \<open>The descriptors that are polled, each a device or the shutdown pipe.\<close>

definition polled :: "alsa \<Rightarrow> pollfd list" where
  "polled L = (case al_poll_descriptors L of None \<Rightarrow> [] | Some fds \<Rightarrow> take (al_num_poll_descriptors L) fds)"

definition socket_for :: "sockets \<Rightarrow> int \<Rightarrow> nat" where
  "socket_for K fd = the (List.find (\<lambda>a. so_fd (socket_of K a) = fd) (socket_addresses K))"

definition handle_of :: "alsa \<Rightarrow> sockets \<Rightarrow> int \<Rightarrow> nat option" where
  "handle_of L K fd = the (al_sockets L (socket_for K fd))"

definition alsa_wf :: "alsa \<Rightarrow> sockets \<Rightarrow> bool" where
  "alsa_wf L K \<longleftrightarrow> \<not> al_poll_held L \<and> (\<exists>t. al_inputs L = Some t \<and> table_wf t) \<and> (\<exists>t. al_outputs L = Some t \<and> table_wf t) \<and>
     (case al_poll_descriptors L of None \<Rightarrow> al_num_poll_descriptors L = 0 | Some fds \<Rightarrow> al_num_poll_descriptors L \<le> length fds) \<and>
     distinct (map pf_fd (polled L)) \<and> sockets_wf K \<and>
     (\<forall>p\<in>set (polled L). device_at L K (pf_fd p) (socket_for K (pf_fd p)) (handle_of L K (pf_fd p)))"

lemma device_at_for: "device_at L K fd a h \<Longrightarrow> a = socket_for K fd \<and> h = handle_of L K fd"
  by (auto simp: device_at_def socket_for_def handle_of_def)

lemma device_at_same:
  assumes "device_at L K fd a h" "sockets_wf K'" "socket_addresses K' = socket_addresses K"
    and "\<forall>b. so_fd (socket_of K' b) = so_fd (socket_of K b)" "socket_of K' a = socket_of K a"
  shows "device_at L K' fd a h"
proof -
  have "fd_at K' i = fd_at K i" for i using assms(3,4) by (simp add: fd_at_def)
  with assms show ?thesis by (simp add: device_at_def)
qed

text \<open>What reading the descriptor \<open>fd\<close> in turn \<open>i\<close> queues, in a world whose sockets are \<open>K\<close>.\<close>

definition turn_effects :: "alsa \<Rightarrow> sockets \<Rightarrow> (nat \<Rightarrow> machine) \<Rightarrow> (int \<Rightarrow> received option \<times> device_read) \<Rightarrow> nat \<Rightarrow> int \<Rightarrow> socket_effect list" where
  "turn_effects L K M answers i fd =
     (if handle_of L K fd = None then []
      else queued (mc_context (M i)) (device_commands K (socket_for K fd) (snd (answers fd))))"

definition unplugged :: "alsa \<Rightarrow> sockets \<Rightarrow> (int \<Rightarrow> received option \<times> device_read) \<Rightarrow> int \<Rightarrow> bool" where
  "unplugged L K answers fd \<longleftrightarrow> handle_of L K fd \<noteq> None \<and> gone (snd (answers fd))"

text \<open>The worlds a turn passes through: the sockets not read yet and the contexts not used yet are as
  they were.\<close>

definition turn_world :: "(nat \<Rightarrow> machine) \<Rightarrow> nat list \<Rightarrow> nat \<Rightarrow> world \<Rightarrow> world \<Rightarrow> bool" where
  "turn_world M as i W W' \<longleftrightarrow> sockets_wf (wd_sockets W') \<and> wd_net W' = wd_net W \<and>
     socket_addresses (wd_sockets W') = socket_addresses (wd_sockets W) \<and>
     (\<forall>b. so_fd (socket_of (wd_sockets W') b) = so_fd (socket_of (wd_sockets W) b)) \<and>
     sk_shutdown (wd_sockets W') = sk_shutdown (wd_sockets W) \<and> sk_shutdown_fd (wd_sockets W') = sk_shutdown_fd (wd_sockets W) \<and>
     (\<forall>j. i \<le> j \<longrightarrow> j < length as \<longrightarrow> socket_of (wd_sockets W') (as ! j) = socket_of (wd_sockets W) (as ! j)) \<and>
     (\<forall>b. so_packet_size (socket_of (wd_sockets W') b) = so_packet_size (socket_of (wd_sockets W) b)) \<and>
     (\<forall>j\<ge>i. wd_contexts W' (mc_context (M j)) = None)"

lemma device_done_turn:
  assumes W: "turn_world M as i W0 W" and i: "i < length as" "distinct as" and M: "inj (\<lambda>i. mc_context (M i))"
    and r: "read_done (as ! i) (sk_shutdown (wd_sockets W)) W W'" "wd_net W' = wd_net W"
      "sk_shutdown_fd (wd_sockets W') = sk_shutdown_fd (wd_sockets W)"
      "so_packet_size (socket_of (wd_sockets W') (as ! i)) = so_packet_size (socket_of (wd_sockets W) (as ! i))"
      "\<forall>b. b \<noteq> mc_context (M i) \<longrightarrow> wd_contexts W' b = wd_contexts W b"
  shows "turn_world M as (Suc i) W0 W'"
proof -
  have "as ! j \<noteq> as ! i" if "Suc i \<le> j" "j < length as" for j
    using that i nth_eq_iff_index_eq [OF i(2), of j i] by simp
  moreover have "mc_context (M j) \<noteq> mc_context (M i)" if "Suc i \<le> j" for j
    using injD [OF M, of j i] that by auto
  moreover have "so_packet_size (socket_of (wd_sockets W') b) = so_packet_size (socket_of (wd_sockets W) b)" for b
    using r(1,4) by (cases "b = as ! i") (simp_all add: read_done_def)
  ultimately show ?thesis using W r i unfolding turn_world_def read_done_def by auto
qed

lemma listener_step:
  assumes d: "device_at L (wd_sockets W0) fd (as ! i) h" and W: "turn_world M as i W0 W" and i: "i < length as" "distinct as"
    and M: "inj (\<lambda>i. mc_context (M i))" and A: "en_alloc (E i) = mem_ok" and L: "al_poll_held L"
  shows "if unplugged L (wd_sockets W0) answers fd
    then alsa_socket_read (M i) (E i) fd rc (snd (answers fd)) (L, W) = Inl Deadlock
    else \<exists>W'. alsa_socket_read (M i) (E i) fd rc (snd (answers fd)) (L, W) =
        Inr (0, turn_effects L (wd_sockets W0) M answers i fd, L, W') \<and> turn_world M as (Suc i) W0 W'"
proof -
  let ?a = "as ! i" and ?answer = "snd (answers fd)"
  from device_at_for [OF d] have ah: "?a = socket_for (wd_sockets W0) fd" "h = handle_of L (wd_sockets W0) fd" by simp_all
  from W i(1) have w: "sockets_wf (wd_sockets W)" "socket_addresses (wd_sockets W) = socket_addresses (wd_sockets W0)"
    "\<forall>b. so_fd (socket_of (wd_sockets W) b) = so_fd (socket_of (wd_sockets W0) b)"
    "socket_of (wd_sockets W) ?a = socket_of (wd_sockets W0) ?a" "wd_contexts W (mc_context (M i)) = None"
    by (simp_all add: turn_world_def)
  note dW = device_at_same [OF d w(1-4)]
  have fd: "0 \<le> fd" using d by (simp add: device_at_def)
  note turn = device_done_turn [OF W i M]
  have cmds: "device_commands (wd_sockets W) ?a ?answer = device_commands (wd_sockets W0) ?a ?answer"
    using w(4) by (simp add: device_commands_def device_octets_def device_parser_def)
  show ?thesis
  proof (cases h)
    case None
    from device_read_pipe [of L W fd ?a "M i" "E i" rc ?answer] dW None obtain W' where
      "alsa_socket_read (M i) (E i) fd rc ?answer (L, W) = Inr (0, [], L, W')"
      "read_done ?a (sk_shutdown (wd_sockets W)) W W'" "wd_net W' = wd_net W" "wd_contexts W' = wd_contexts W"
      "sk_shutdown_fd (wd_sockets W') = sk_shutdown_fd (wd_sockets W)"
      "so_packet_size (socket_of (wd_sockets W') ?a) = so_packet_size (socket_of (wd_sockets W) ?a)" by auto
    with turn [of W'] None ah show ?thesis by (auto simp: unplugged_def turn_effects_def)
  next
    case (Some hd)
    have done_turn: "turn_world M as (Suc i) W0 W'" if "device_done (M i) ?a ?answer W es W'" for es W'
      by (rule turn) (use that in \<open>auto simp: device_done_def Let_def contexts_after_def\<close>)
    have eff: "es = turn_effects L (wd_sockets W0) M answers i fd" if "device_done (M i) ?a ?answer W es W'" for es W'
      using that Some ah cmds by (auto simp: device_done_def Let_def turn_effects_def)
    show ?thesis
    proof (cases "dr_ret ?answer < 0")
      case True
      from device_read_failed [of L W fd ?a hd ?answer "M i" "E i" rc] dW Some True w(5) obtain W' where
        r: "alsa_socket_read (M i) (E i) fd rc ?answer (L, W) =
          (if gone ?answer then bindr (raveloxmidi_alsa_disable_poll_fd (en_alloc (E i)) fd L) (\<lambda>L'. Inr (0, [], L', W'))
           else Inr (0, [], L, W'))" "device_done (M i) ?a ?answer W [] W'" by auto
      have "raveloxmidi_alsa_disable_poll_fd (en_alloc (E i)) fd L = Inl Deadlock"
        using fd L by (simp add: raveloxmidi_alsa_disable_poll_fd_def poll_descriptors_lock_def)
      with r done_turn [OF r(2)] eff [OF r(2)] Some ah show ?thesis by (auto simp: unplugged_def)
    next
      case False
      from device_read_data [of L W fd ?a hd "E i" ?answer "M i" rc] dW Some False A w(5) obtain es W' where
        "alsa_socket_read (M i) (E i) fd rc ?answer (L, W) = Inr (0, es, L, W')" "device_done (M i) ?a ?answer W es W'" by auto
      with done_turn eff False show ?thesis by (auto simp: unplugged_def gone_def)
    qed
  qed
qed

definition readable_fd :: "pollfd \<Rightarrow> bool" where
  "readable_fd p \<longleftrightarrow> pf_revents p AND POLLIN \<noteq> 0"

lemma listener_reads_ok:
  assumes L: "al_poll_held L" "al_poll_descriptors L = Some fds" "al_num_poll_descriptors L \<le> length fds"
      "length as = al_num_poll_descriptors L" "distinct as"
    and d: "\<forall>k<length as. device_at L (wd_sockets W0) (pf_fd (fds ! k)) (as ! k) (hs k)"
    and M: "inj (\<lambda>i. mc_context (M i))" and A: "\<forall>i. en_alloc (E i) = mem_ok"
    and W: "turn_world M as i W0 W" "i + left = length as"
  shows "if \<exists>k\<in>{i..<length as}. readable_fd (fds ! k) \<and> unplugged L (wd_sockets W0) answers (pf_fd (fds ! k))
    then listener_reads M E answers i left (L, W) = Inl Deadlock
    else \<exists>W'. listener_reads M E answers i left (L, W) =
        Inr (concat (map (\<lambda>k. if readable_fd (fds ! k) then turn_effects L (wd_sockets W0) M answers k (pf_fd (fds ! k)) else [])
              [i..<length as]), L, W') \<and> turn_world M as (length as) W0 W'"
  using W
proof (induction left arbitrary: i W)
  case 0
  then show ?case by simp
next
  case (Suc left)
  then have i: "i < length as" by simp
  with L have fd: "mem_get fds i = Inr (fds ! i)" "\<not> al_num_poll_descriptors L \<le> i" by simp_all
  have "{i..<length as} = insert i {Suc i..<length as}" using i by auto
  then have split: "(\<exists>k\<in>{i..<length as}. P k) \<longleftrightarrow> P i \<or> (\<exists>k\<in>{Suc i..<length as}. P k)" for P by simp
  have upt: "[i..<length as] = i # [Suc i..<length as]" using i by (rule upt_conv_Cons)
  let ?p = "fds ! i" and ?K = "wd_sockets W0"
  let ?bad = "\<lambda>k. readable_fd (fds ! k) \<and> unplugged L ?K answers (pf_fd (fds ! k))"
  have IH: "turn_world M as (Suc i) W0 W' \<Longrightarrow>
    if \<exists>k\<in>{Suc i..<length as}. ?bad k then listener_reads M E answers (Suc i) left (L, W') = Inl Deadlock
    else \<exists>W''. listener_reads M E answers (Suc i) left (L, W') =
        Inr (concat (map (\<lambda>k. if readable_fd (fds ! k) then turn_effects L ?K M answers k (pf_fd (fds ! k)) else [])
              [Suc i..<length as]), L, W'') \<and> turn_world M as (length as) W0 W''" for W'
    using Suc.IH [of "Suc i" W'] Suc.prems(2) by simp
  have step: "listener_reads M E answers i (Suc left) (L, W) =
      bindr (if \<not> readable_fd ?p then Inr ([], L, W)
             else bindr (alsa_socket_read (M i) (E i) (pf_fd ?p) (fst (answers (pf_fd ?p))) (snd (answers (pf_fd ?p))) (L, W))
               (\<lambda>(_, es, LW). Inr (es, LW)))
        (\<lambda>(es, LW). bindr (listener_reads M E answers (Suc i) left LW) (\<lambda>(es', LW). Inr (es @ es', LW)))"
    using fd L(2) by (simp add: readable_fd_def split_beta)
  show ?case
  proof (cases "readable_fd ?p")
    case False
    have "turn_world M as (Suc i) W0 W" using Suc.prems(1) by (simp add: turn_world_def)
    from IH [OF this] False show ?thesis unfolding step split upt by (auto split: if_splits)
  next
    case True
    from d i have "device_at L ?K (pf_fd ?p) (as ! i) (hs i)" by blast
    note r = listener_step [OF this Suc.prems(1) i L(5) M _ L(1), of E answers "fst (answers (pf_fd ?p))"]
    show ?thesis
    proof (cases "unplugged L ?K answers (pf_fd ?p)")
      case bad: True
      with r A True show ?thesis unfolding step split upt by simp
    next
      case False
      with r A obtain W' where W': "alsa_socket_read (M i) (E i) (pf_fd ?p) (fst (answers (pf_fd ?p))) (snd (answers (pf_fd ?p))) (L, W) =
          Inr (0, turn_effects L ?K M answers i (pf_fd ?p), L, W')" "turn_world M as (Suc i) W0 W'" by auto
      from IH [OF W'(2)] W'(1) True False show ?thesis unfolding step split upt by (auto split: if_splits)
    qed
  qed
qed

lemma first_ready_eq:
  "first_ready sd ps = (case filter readable_fd ps of [] \<Rightarrow> 0 | p # _ \<Rightarrow> if pf_fd p = sd then 2 else 1)"
  by (induction ps) (auto simp: readable_fd_def)

definition answered :: "(int \<Rightarrow> 16 word) \<Rightarrow> pollfd \<Rightarrow> pollfd" where
  "answered f p = p\<lparr>pf_revents := f (pf_fd p)\<rparr>"

lemma answered_simps [simp]: "pf_fd (answered f p) = pf_fd p" "pf_revents (answered f p) = f (pf_fd p)"
  "readable_fd (answered f p) \<longleftrightarrow> f (pf_fd p) AND POLLIN \<noteq> 0"
  by (simp_all add: answered_def readable_fd_def)

lemma alsa_poll_ok:
  assumes L: "\<not> al_poll_held L" "al_inputs L = Some t" "table_wf t" "table_list t \<noteq> []"
    and fds: "al_poll_descriptors L = Some fds" "al_num_poll_descriptors L \<le> length fds"
  shows "raveloxmidi_alsa_poll (Some f) sd L =
    Inr (first_ready sd (map (answered f) (polled L)),
         L\<lparr>al_poll_descriptors := Some (map (answered f) (polled L) @ drop (al_num_poll_descriptors L) fds)\<rparr>)"
proof -
  have ps: "mem_read fds 0 (al_num_poll_descriptors L) = Inr (polled L)" using fds by (simp add: polled_def)
  have zero: "first_ready sd ps = 0" if "filter (\<lambda>p. pf_revents p \<noteq> 0) ps = []" for ps
    using that by (induction ps) (auto split: if_splits)
  have none: "length (filter (\<lambda>p. pf_revents p \<noteq> 0) ps) = 0 \<longleftrightarrow> filter (\<lambda>p. pf_revents p \<noteq> 0) ps = []" for ps by simp
  have inp: "raveloxmidi_alsa_in_available L = Inr (True, L)"
    using L by (cases L) (simp add: raveloxmidi_alsa_in_available_def device_available_ok)
  have "al_poll_held L = False" using L(1) by simp
  then show ?thesis
    unfolding raveloxmidi_alsa_poll_def fds(1) option.case inp bindr.simps prod.case
    using fds ps zero [of "map (answered f) (polled L)"]
    by (cases L) (auto simp: poll_descriptors_lock_def poll_descriptors_unlock_def Let_def answered_def [abs_def] none)
qed

lemma alsa_wf_same:
  assumes "alsa_wf L K" "al_poll_held L' = False" "al_inputs L' = al_inputs L" "al_outputs L' = al_outputs L"
    "al_sockets L' = al_sockets L" "al_num_poll_descriptors L' = al_num_poll_descriptors L"
    "al_poll_descriptors L' = Some (map (answered f) (polled L) @ rest)" "al_num_poll_descriptors L = length (polled L)"
    and K: "sockets_wf K'" "socket_addresses K' = socket_addresses K" "\<forall>b. so_fd (socket_of K' b) = so_fd (socket_of K b)"
      "\<forall>b. so_packet_size (socket_of K' b) = so_packet_size (socket_of K b)"
  shows "alsa_wf L' K'"
proof -
  have p: "polled L' = map (answered f) (polled L)" using assms(6-8) by (simp add: polled_def)
  have s: "socket_for K' fd = socket_for K fd" "handle_of L' K' fd = handle_of L K fd" for fd
    using K(2,3) assms(5) by (simp_all add: socket_for_def handle_of_def)
  have f: "fd_at K' i = fd_at K i" for i using K(2,3) by (simp add: fd_at_def)
  have "device_at L' K' fd a h" if "device_at L K fd a h" for fd a h
    using that K f assms(5) by (simp add: device_at_def)
  with assms(1-8) K(1) p s show ?thesis by (auto simp: alsa_wf_def comp_def)
qed

lemma ex_nth: "(\<exists>k\<in>{0..<length xs}. Q (xs ! k)) \<longleftrightarrow> (\<exists>p\<in>set xs. Q p)"
  unfolding Bex_def in_set_conv_nth by auto

text \<open>The effects of a turn in which the descriptors with an answer are read.\<close>

definition turn_queued :: "alsa \<Rightarrow> sockets \<Rightarrow> (nat \<Rightarrow> machine) \<Rightarrow> (int \<Rightarrow> 16 word) \<Rightarrow>
    (int \<Rightarrow> received option \<times> device_read) \<Rightarrow> socket_effect list" where
  "turn_queued L K M f answers =
     concat (map (\<lambda>k. if f (pf_fd (polled L ! k)) AND POLLIN \<noteq> 0
                      then turn_effects L K M answers k (pf_fd (polled L ! k)) else []) [0..<length (polled L)])"

lemma shutdown_status_ok:
  "sockets_wf K \<Longrightarrow> net_socket_get_shutdown_status K = Inr (sk_shutdown K, K)"
  by (cases K) (simp add: sockets_wf_def net_socket_get_shutdown_status_def)

lemma listener_turn_ok:
  fixes f :: "int \<Rightarrow> 16 word"
  assumes wf: "alsa_wf L (wd_sockets W)" and some: "al_poll_descriptors L \<noteq> None" "\<exists>t. al_inputs L = Some t \<and> table_list t \<noteq> []"
    and M: "inj (\<lambda>i. mc_context (M i))" "\<forall>i. wd_contexts W (mc_context (M i)) = None" and A: "\<forall>i. en_alloc (E i) = mem_ok"
  defines "ready \<equiv> filter (\<lambda>p. f (pf_fd p) AND POLLIN \<noteq> 0) (polled L)"
    and "sd \<equiv> fst (sk_shutdown_fd (wd_sockets W))"
  shows "if ready \<noteq> [] \<and> pf_fd (hd ready) \<noteq> sd \<and> (\<exists>p\<in>set ready. unplugged L (wd_sockets W) answers (pf_fd p))
    then listener_turn M E (Some f) answers (L, W) = Inl Deadlock
    else \<exists>L' W'. listener_turn M E (Some f) answers (L, W) =
        Inr (if ready \<noteq> [] \<and> pf_fd (hd ready) \<noteq> sd then turn_queued L (wd_sockets W) M f answers else [],
             sk_shutdown (wd_sockets W) = 0, L', W') \<and>
      alsa_wf L' (wd_sockets W') \<and> map pf_fd (polled L') = map pf_fd (polled L) \<and> wd_net W' = wd_net W"
proof -
  let ?K = "wd_sockets W"
  from some(1) obtain fds where fds: "al_poll_descriptors L = Some fds" by auto
  from some(2) wf obtain t where t: "al_inputs L = Some t" "table_list t \<noteq> []" "table_wf t" by (auto simp: alsa_wf_def)
  from wf fds have n: "al_num_poll_descriptors L \<le> length fds" "\<not> al_poll_held L" and K: "sockets_wf ?K"
    and d: "distinct (map pf_fd (polled L))"
    and dev: "\<forall>p\<in>set (polled L). device_at L ?K (pf_fd p) (socket_for ?K (pf_fd p)) (handle_of L ?K (pf_fd p))"
    by (simp_all add: alsa_wf_def)
  let ?n = "al_num_poll_descriptors L"
  have len: "length (polled L) = ?n" using fds n by (simp add: polled_def)
  let ?ps = "map (answered f) (polled L)"
  let ?fds = "?ps @ drop ?n fds"
  define L1 where "L1 = L\<lparr>al_poll_descriptors := Some ?fds\<rparr>"
  define L2 where "L2 = L1\<lparr>al_poll_held := True\<rparr>"
  define as where "as = map (\<lambda>p. socket_for ?K (pf_fd p)) (polled L)"
  have L1: "L1\<lparr>al_poll_held := False\<rparr> = L1" "al_poll_held L1 = False" "L2\<lparr>al_poll_held := False\<rparr> = L1"
    using n(2) by (cases L, simp add: L1_def L2_def)+
  have poll: "raveloxmidi_alsa_poll (Some f) sd L = Inr (first_ready sd ?ps, L1)"
    unfolding L1_def by (rule alsa_poll_ok [OF n(2) t(1,3,2) fds n(1)])
  have rd: "filter readable_fd ?ps = map (answered f) ready" by (simp add: filter_map comp_def ready_def)
  have r1: "first_ready sd ?ps = 1 \<longleftrightarrow> ready \<noteq> [] \<and> pf_fd (hd ready) \<noteq> sd"
    unfolding first_ready_eq rd by (cases ready) auto
  have wf': "alsa_wf L1 (wd_sockets W') \<and> map pf_fd (polled L1) = map pf_fd (polled L)"
    if "sockets_wf (wd_sockets W')" "socket_addresses (wd_sockets W') = socket_addresses ?K"
      "\<forall>b. so_fd (socket_of (wd_sockets W') b) = so_fd (socket_of ?K b)"
      "\<forall>b. so_packet_size (socket_of (wd_sockets W') b) = so_packet_size (socket_of ?K b)" for W'
  proof
    show "alsa_wf L1 (wd_sockets W')"
      by (rule alsa_wf_same [OF wf _ _ _ _ _ _ _ that, where f = f and rest = "drop ?n fds"]) (simp_all add: L1 L1_def len n(2))
    show "map pf_fd (polled L1) = map pf_fd (polled L)" using len by (simp add: L1_def polled_def [of "L\<lparr>al_poll_descriptors := x\<rparr>" for x] comp_def)
  qed
  have start: "listener_turn M E (Some f) answers (L, W) =
      bindr (if first_ready sd ?ps \<noteq> 1 then Inr ([], L1, W)
             else bindr (listener_reads M E answers 0 ?n (L2, W)) (\<lambda>(es, L, W).
               bindr (poll_descriptors_unlock L) (\<lambda>L. Inr (es, L, W)))) (\<lambda>(es, L, W).
      bindr (net_socket_get_shutdown_status (wd_sockets W)) (\<lambda>(status, K). Inr (es, status = 0, L, W\<lparr>wd_sockets := K\<rparr>)))"
    using L1 by (simp add: listener_turn_def net_socket_get_shutdown_fd_def poll [unfolded sd_def] sd_def poll_descriptors_lock_def
        poll_descriptors_unlock_def L2_def) (use n(2) in \<open>cases L; simp add: L1_def\<close>)
  show ?thesis
  proof (cases "ready \<noteq> [] \<and> pf_fd (hd ready) \<noteq> sd")
    case False
    then have "first_ready sd ?ps \<noteq> 1" using r1 by simp
    then have "listener_turn M E (Some f) answers (L, W) = Inr ([], sk_shutdown ?K = 0, L1, W)"
      unfolding start by (simp add: shutdown_status_ok [OF K])
    with wf' [of W] K False show ?thesis by auto
  next
    case True
    have L2: "al_poll_held L2" "al_poll_descriptors L2 = Some ?fds" "al_num_poll_descriptors L2 \<le> length ?fds"
      "length as = al_num_poll_descriptors L2" "al_num_poll_descriptors L2 = ?n" "al_sockets L2 = al_sockets L"
      using len n(1) by (simp_all add: L2_def L1_def as_def)
    have fdk: "pf_fd (?fds ! k) = pf_fd (polled L ! k)" "readable_fd (?fds ! k) \<longleftrightarrow> f (pf_fd (polled L ! k)) AND POLLIN \<noteq> 0"
      if "k < length as" for k using that len L2(4,5) by (simp_all add: nth_append)
    have h2: "handle_of L2 ?K = handle_of L ?K" by (simp add: handle_of_def fun_eq_iff L2(6))
    have dev2: "\<forall>k<length as. device_at L2 ?K (pf_fd (?fds ! k)) (as ! k) (handle_of L ?K (pf_fd (polled L ! k)))"
    proof (intro allI impI)
      fix k assume k: "k < length as"
      then have "polled L ! k \<in> set (polled L)" by (simp add: as_def)
      with dev have "device_at L ?K (pf_fd (polled L ! k)) (socket_for ?K (pf_fd (polled L ! k))) (handle_of L ?K (pf_fd (polled L ! k)))" by blast
      with k fdk(1) [OF k] show "device_at L2 ?K (pf_fd (?fds ! k)) (as ! k) (handle_of L ?K (pf_fd (polled L ! k)))"
        by (simp add: device_at_def L2(6) as_def)
    qed
    have das: "distinct as"
    proof -
      have "inj_on (\<lambda>p. socket_for ?K (pf_fd p)) (set (polled L))"
      proof (rule inj_onI)
        fix p q assume "p \<in> set (polled L)" "q \<in> set (polled L)" "socket_for ?K (pf_fd p) = socket_for ?K (pf_fd q)"
        with dev device_socket(3) have "pf_fd p = pf_fd q" by metis
        with d \<open>p \<in> set (polled L)\<close> \<open>q \<in> set (polled L)\<close> show "p = q" by (auto simp: distinct_map inj_on_def)
      qed
      moreover have "distinct (polled L)" using d by (simp add: distinct_map)
      ultimately show ?thesis by (simp add: as_def distinct_map)
    qed
    have tw: "turn_world M as 0 W W" using K M(2) by (simp add: turn_world_def)
    note reads = listener_reads_ok [OF L2(1-4) das dev2 M(1) A tw, of "length as"]
    have ex: "(\<exists>k\<in>{0..<length as}. readable_fd (?fds ! k) \<and> unplugged L2 ?K answers (pf_fd (?fds ! k))) \<longleftrightarrow>
        (\<exists>p\<in>set ready. unplugged L ?K answers (pf_fd p))"
    proof -
      have "(\<exists>k\<in>{0..<length as}. readable_fd (?fds ! k) \<and> unplugged L2 ?K answers (pf_fd (?fds ! k))) \<longleftrightarrow>
          (\<exists>k\<in>{0..<length (polled L)}. f (pf_fd (polled L ! k)) AND POLLIN \<noteq> 0 \<and> unplugged L ?K answers (pf_fd (polled L ! k)))"
        by (rule bex_cong) (use fdk len L2(4,5) in \<open>simp_all add: unplugged_def h2\<close>)
      then show ?thesis
        unfolding ex_nth [where Q = "\<lambda>p. f (pf_fd p) AND POLLIN \<noteq> 0 \<and> unplugged L ?K answers (pf_fd p)"] by (auto simp: ready_def)
    qed
    have q: "concat (map (\<lambda>k. if readable_fd (?fds ! k) then turn_effects L2 ?K M answers k (pf_fd (?fds ! k)) else []) [0..<length as]) =
        turn_queued L ?K M f answers"
      unfolding turn_queued_def
      by (rule arg_cong [where f = concat], rule map_cong) (use fdk len L2(4,5) in \<open>simp_all add: turn_effects_def h2\<close>)
    have n': "length as = ?n" using L2(4,5) by simp
    note r = reads [of answers, unfolded ex q, unfolded n']
    from True r1 have one: "first_ready sd ?ps = 1" by simp
    show ?thesis
    proof (cases "\<exists>p\<in>set ready. unplugged L ?K answers (pf_fd p)")
      case bad: True
      with r have "listener_reads M E answers 0 ?n (L2, W) = Inl Deadlock" by simp
      with one True bad show ?thesis unfolding start by simp
    next
      case False
      with r obtain W' where
        W': "listener_reads M E answers 0 ?n (L2, W) = Inr (turn_queued L ?K M f answers, L2, W')" "turn_world M as ?n W W'"
        by auto
      then have w: "sockets_wf (wd_sockets W')" "socket_addresses (wd_sockets W') = socket_addresses ?K"
        "\<forall>b. so_fd (socket_of (wd_sockets W') b) = so_fd (socket_of ?K b)"
        "\<forall>b. so_packet_size (socket_of (wd_sockets W') b) = so_packet_size (socket_of ?K b)"
        "sk_shutdown (wd_sockets W') = sk_shutdown ?K" "wd_net W' = wd_net W" by (simp_all add: turn_world_def)
      have "listener_turn M E (Some f) answers (L, W) = Inr (turn_queued L ?K M f answers, sk_shutdown ?K = 0, L1, W')"
        unfolding start using one W'(1) L2(1) L1(3) w(5)
        by (simp add: poll_descriptors_unlock_def shutdown_status_ok [OF w(1)])
      with wf' [OF w(1-4)] w(6) True False show ?thesis by auto
    qed
  qed
qed

section \<open>The table of descriptors\<close>

lemma alsa_create_item_ok:
  assumes E: "env_ok E" and size: "config_int_get (en_config E) (Some ''alsa.input_buffer_size'') = Inr v" "0 \<le> v" "v < 2 ^ 32 - 1"
  shows "\<exists>s. alsa_create_item E junk = Inr (Some s, None) \<and> fresh_socket E 0 s \<and> so_packet_size s < 2 ^ 32 - 1"
proof -
  from create_item_ok [OF E, of junk] obtain s where s: "net_socket_create_item E junk = Inr (Some s, None)" "fresh_socket E 0 s"
    by blast
  let ?n = "max NET_APPLEMIDI_UDPSIZE (nat (v mod 2 ^ 64))"
  have "v mod 2 ^ 64 = v" using size(2,3) by simp
  then have n: "?n < 2 ^ 32 - 1" using size(2,3) by (simp add: NET_APPLEMIDI_UDPSIZE_def)
  then have len: "(?n + 1) mod 2 ^ 64 = ?n + 1" by simp
  let ?s = "s\<lparr>so_packet := Some (map junk [0..<?n + 1]), so_packet_size := ?n\<rparr>"
  have "alsa_create_item E junk = Inr (Some ?s, None)"
    using size(1) s(1) len by (simp add: alsa_create_item_def Let_def)
  moreover have "fresh_socket E 0 ?s" using s(2) by (auto simp: fresh_socket_def socket_ok_def)
  ultimately show ?thesis using n by auto
qed

lemma alsa_socket_add_ok:
  assumes K: "sockets_wf K" and E: "env_ok E" and a: "en_address E \<notin> set (socket_addresses K)" and fd: "0 \<le> fd"
    and size: "config_int_get (en_config E) (Some ''alsa.input_buffer_size'') = Inr v" "0 \<le> v" "v < 2 ^ 32 - 1"
  shows "\<exists>K' s. alsa_socket_add E junk fd K = Inr (Some (en_address E), K') \<and> sockets_wf K' \<and>
    socket_addresses K' = socket_addresses K @ [en_address E] \<and> fresh_socket E fd s \<and> so_packet_size s < 2 ^ 32 - 1 \<and>
    sk_store K' = (sk_store K)(en_address E \<mapsto> s) \<and> sk_shutdown_fd K' = sk_shutdown_fd K"
proof -
  let ?a = "en_address E"
  from alsa_create_item_ok [OF E size, of junk] obtain s0 where
    s0: "alsa_create_item E junk = Inr (Some s0, None)" "fresh_socket E 0 s0" "so_packet_size s0 < 2 ^ 32 - 1" by blast
  let ?s = "s0\<lparr>so_fd := fd\<rparr>"
  from s0(2) have s: "fresh_socket E fd ?s" by (auto simp: fresh_socket_def socket_ok_def)
  from K obtain t where t: "sk_sockets K = Some t" "table_wf t" by (auto simp: sockets_wf_def)
  from table_add [OF t(2), of ?a] obtain t' where
    t': "data_table_add_item mem_ok (Some t) (Some ?a) = Inr (1, Some t')" "table_wf t'" "table_list t' = table_list t @ [?a]" by blast
  let ?K = "K\<lparr>sk_sockets := Some t', sk_store := (sk_store K)(?a \<mapsto> ?s)\<rparr>"
  have ad: "socket_addresses ?K = socket_addresses K @ [?a]" using t t'(3) by (simp add: socket_addresses_def)
  have of: "socket_of ?K = (socket_of K)(?a := ?s)" by (simp add: socket_of_def fun_eq_iff)
  have dom: "dom (sk_store ?K) = insert ?a (set (socket_addresses K))" using K by (simp add: sockets_wf_def)
  have "sockets_wf ?K" unfolding sockets_wf_def ad dom of
    using K s a t'(2) by (auto simp: sockets_wf_def fresh_socket_def)
  moreover have "alsa_socket_add E junk fd K = Inr (Some ?a, ?K)"
    using s0(1) t(1) t'(1) fd E by (simp add: alsa_socket_add_def env_ok_def)
  ultimately show ?thesis using ad s s0(3) by (intro exI [of _ ?K] exI [of _ ?s]) simp
qed

text \<open>A descriptor that no socket has is added.\<close>

lemma alsa_add_poll_fd_ok:
  assumes wf: "alsa_wf L K" and E: "env_ok E" "en_address E \<notin> set (socket_addresses K)"
    and fd: "0 \<le> fd" "\<forall>a\<in>set (socket_addresses K). so_fd (socket_of K a) \<noteq> fd" "3 \<le> length (socket_addresses K)"
    and size: "config_int_get (en_config E) (Some ''alsa.input_buffer_size'') = Inr v" "0 \<le> v" "v < 2 ^ 32 - 1"
  shows "\<exists>L' K'. raveloxmidi_alsa_add_poll_fd R E junk h fd (L, K) = Inr (L', K') \<and> alsa_wf L' K' \<and>
    map pf_fd (polled L') = map pf_fd (polled L) @ [fd] \<and> device_at L' K' fd (en_address E) h \<and>
    so_device_hash (socket_of K' (en_address E)) = (case h of None \<Rightarrow> -1 | Some d \<Rightarrow> device_hash R (en_config E) d) \<and>
    (\<exists>st. so_state (socket_of K' (en_address E)) = Some st \<and> parser_of False st =
        \<lparr>pa_status = MIDI_STATE_INIT, pa_running = 0, pa_hold = [], pa_delta = en_junk E, pa_partial = 0, pa_timed = False\<rparr>) \<and>
    socket_addresses K' = socket_addresses K @ [en_address E] \<and> (\<forall>a\<in>set (socket_addresses K). socket_of K' a = socket_of K a) \<and>
    al_inputs L' = al_inputs L \<and> al_outputs L' = al_outputs L \<and> al_poll_descriptors L' \<noteq> None \<and>
    sk_shutdown_fd K' = sk_shutdown_fd K"
proof -
  let ?a = "en_address E" and ?n = "al_num_poll_descriptors L"
  from wf have K: "sockets_wf K" and nh: "\<not> al_poll_held L" and d: "distinct (map pf_fd (polled L))"
    and dev: "\<forall>p\<in>set (polled L). device_at L K (pf_fd p) (socket_for K (pf_fd p)) (handle_of L K (pf_fd p))"
    and bound: "case al_poll_descriptors L of None \<Rightarrow> ?n = 0 | Some fds \<Rightarrow> ?n \<le> length fds"
    and tabs: "\<exists>t. al_inputs L = Some t \<and> table_wf t" "\<exists>t. al_outputs L = Some t \<and> table_wf t"
    by (auto simp: alsa_wf_def)
  from E(1) have A: "en_alloc E = mem_ok" "config_ok (en_config E)" by (simp_all add: env_ok_def)
  from alsa_socket_add_ok [OF K E fd(1) size, of junk] obtain K1 s where
    K1: "alsa_socket_add E junk fd K = Inr (Some ?a, K1)" "sockets_wf K1" "socket_addresses K1 = socket_addresses K @ [?a]"
      "fresh_socket E fd s" "so_packet_size s < 2 ^ 32 - 1" "sk_store K1 = (sk_store K)(?a \<mapsto> s)"
      "sk_shutdown_fd K1 = sk_shutdown_fd K" by blast
  have s: "socket_at K1 ?a = Inr s" using K1(6) by (simp add: socket_at_def)
  let ?hash = "case h of None \<Rightarrow> -1 | Some d \<Rightarrow> device_hash R (en_config E) d"
  have hash: "\<exists>x. raveloxmidi_alsa_device_hash R (en_config E) h = Inr x \<and> (if h = None then -1 else x) = ?hash"
    using device_hash_ok [OF A(2), of R] by (cases h) (auto simp: raveloxmidi_alsa_device_hash_def)
  let ?s = "s\<lparr>so_device_hash := ?hash\<rparr>"
  let ?new = "\<lparr>pf_fd = fd, pf_events = POLLIN OR POLLERR OR POLLNVAL OR POLLHUP, pf_revents = 0\<rparr>"
  let ?L = "L\<lparr>al_poll_descriptors := Some (polled L @ [?new]), al_num_poll_descriptors := ?n + 1,
              al_sockets := (al_sockets L)(?a \<mapsto> h)\<rparr>"
  let ?K = "K1\<lparr>sk_store := (sk_store K1)(?a \<mapsto> ?s)\<rparr>"
  have len: "length (polled L) = ?n" using bound by (auto simp: polled_def split: option.splits)
  have p: "polled ?L = polled L @ [?new]" by (subst polled_def) (simp add: len)
  have eqs: "socket_addresses ?K = socket_addresses K @ [?a]" "socket_of ?K = (socket_of K)(?a := ?s)"
    using K1(3,6) by (simp_all add: socket_addresses_def socket_of_def fun_eq_iff)
  have wfK: "sockets_wf ?K"
  proof -
    have dom: "dom (sk_store ?K) = insert ?a (set (socket_addresses K))" using K K1(6) by (auto simp: sockets_wf_def)
    have same: "sk_sockets ?K = sk_sockets K1" "sk_shutdown_held ?K = sk_shutdown_held K1" "sk_poll_fds_held ?K = sk_poll_fds_held K1"
      by simp_all
    have new: "\<not> so_held ?s" "socket_ok ?s" using K1(4) by (auto simp: fresh_socket_def socket_ok_def)
    show ?thesis unfolding sockets_wf_def dom same eqs
      using K K1(2) new E(2) by (auto simp: sockets_wf_def)
  qed
  have run: "raveloxmidi_alsa_add_poll_fd R E junk h fd (L, K) = Inr (?L, ?K)"
  proof -
    from hash obtain x where x: "raveloxmidi_alsa_device_hash R (en_config E) h = Inr x" "(if h = None then -1 else x) = ?hash" by blast
    show ?thesis
      using fd(1) nh A(1) K1(1) s x
      by (cases L) (simp add: raveloxmidi_alsa_add_poll_fd_def poll_descriptors_lock_def poll_descriptors_unlock_def Let_def
        polled_def split: option.split)
  qed
  have find: "List.find (\<lambda>a. so_fd (socket_of ?K a) = x) (socket_addresses ?K) =
      (case List.find (\<lambda>a. so_fd (socket_of K a) = x) (socket_addresses K) of Some b \<Rightarrow> Some b | None \<Rightarrow> if x = fd then Some ?a else None)" for x
  proof -
    have app: "List.find P (xs @ ys) = (case List.find P xs of Some b \<Rightarrow> Some b | None \<Rightarrow> List.find P ys)" for P :: "nat \<Rightarrow> bool" and xs ys
      by (induction xs) auto
    have "List.find (\<lambda>a. so_fd (socket_of ?K a) = x) (socket_addresses K) = List.find (\<lambda>a. so_fd (socket_of K a) = x) (socket_addresses K)"
      by (rule find_cong [OF refl]) (use eqs(2) E(2) in auto)
    then show ?thesis using K1(4) unfolding eqs(1) app by (simp add: eqs(2) fresh_socket_def split: option.split)
  qed
  have none: "List.find (\<lambda>a. so_fd (socket_of K a) = fd) (socket_addresses K) = None" using fd(2) by (simp add: find_None_iff)
  have fds: "fd_at ?K i = fd_at K i" "fd_at K i \<noteq> fd" if "i < 3" for i
  proof -
    from that fd(3) have i: "i < length (socket_addresses K)" by simp
    then have "socket_addresses K ! i \<in> set (socket_addresses K)" by simp
    with E(2) have "socket_addresses K ! i \<noteq> ?a" by metis
    with fd(2) i show "fd_at ?K i = fd_at K i" "fd_at K i \<noteq> fd"
      by (auto simp: fd_at_def eqs nth_append)
  qed
  have new: "device_at ?L ?K fd ?a h"
    using wfK fd(1) find [of fd] none fds [of 0] fds [of 1] fds [of 2] K1(5) eqs(2) by (simp add: device_at_def)
  have old: "device_at ?L ?K x b k" if "device_at L K x b k" for x b k
  proof -
    from device_socket(2) [OF that] E(2) have "b \<noteq> ?a" by auto
    with that find [of x] fds wfK eqs(2) show ?thesis by (simp add: device_at_def)
  qed
  have "alsa_wf ?L ?K"
  proof -
    have "device_at ?L ?K (pf_fd q) (socket_for ?K (pf_fd q)) (handle_of ?L ?K (pf_fd q))" if "q \<in> set (polled ?L)" for q
    proof -
      from that dev new old have "\<exists>b k. device_at ?L ?K (pf_fd q) b k" unfolding p by fastforce
      with device_at_for show ?thesis by metis
    qed
    moreover have "fd \<notin> set (map pf_fd (polled L))"
    proof
      assume "fd \<in> set (map pf_fd (polled L))"
      then obtain q where "q \<in> set (polled L)" "pf_fd q = fd" by auto
      with dev device_socket(2,3) fd(2) show False by metis
    qed
    ultimately show ?thesis using nh tabs d wfK len unfolding alsa_wf_def p by simp
  qed
  with run new p eqs K1(4,7) E(2) show ?thesis by (intro exI [of _ ?L] exI [of _ ?K]) (auto simp: fresh_socket_def)
qed

lemma alsa_disable_ok:
  assumes wf: "alsa_wf L K" and fd: "0 \<le> fd"
  shows "\<exists>L'. raveloxmidi_alsa_disable_poll_fd mem_ok fd L = Inr L' \<and> alsa_wf L' K \<and>
    map pf_fd (polled L') = filter (\<lambda>x. x \<noteq> fd) (map pf_fd (polled L))"
proof -
  let ?n = "al_num_poll_descriptors L"
  let ?new = "filter (\<lambda>p. pf_fd p \<noteq> fd) (polled L)"
  from wf have nh: "\<not> al_poll_held L" and d: "distinct (map pf_fd (polled L))"
    and bound: "case al_poll_descriptors L of None \<Rightarrow> ?n = 0 | Some fds \<Rightarrow> ?n \<le> length fds"
    by (auto simp: alsa_wf_def)
  let ?L = "L\<lparr>al_poll_descriptors := Some (?new @ replicate (?n - length ?new) \<lparr>pf_fd = 0, pf_events = 0, pf_revents = 0\<rparr>),
              al_num_poll_descriptors := length ?new\<rparr>"
  have p: "polled ?L = ?new" by (subst polled_def) simp
  have "raveloxmidi_alsa_disable_poll_fd mem_ok fd L = Inr (?L\<lparr>al_poll_held := False\<rparr>)"
    using fd nh bound by (cases "al_poll_descriptors L")
      (simp_all add: raveloxmidi_alsa_disable_poll_fd_def poll_descriptors_lock_def poll_descriptors_unlock_def Let_def polled_def)
  moreover have "?L\<lparr>al_poll_held := False\<rparr> = ?L" using nh by (cases L) simp
  moreover have "map pf_fd ?new = filter (\<lambda>x. x \<noteq> fd) (map pf_fd (polled L))" by (simp add: filter_map comp_def)
  moreover from this d have "distinct (map pf_fd ?new)" by (metis distinct_filter)
  then have "alsa_wf ?L K" using wf unfolding alsa_wf_def p by (auto simp: device_at_def handle_of_def)
  ultimately show ?thesis using p by auto
qed

section \<open>Properties\<close>

text \<open>The table of polled descriptors. Adding the descriptor of a device puts it at the end and makes a
  socket for it that carries the number of the device and a parser of its own; taking one out
  leaves the others in their order. Either keeps the state well formed: every polled descriptor has
  its socket, and the lock is free.\<close>
theorem alsa_poll_table:
  assumes wf: "alsa_wf L K" and fd: "0 \<le> fd"
    and E: "env_ok E" "en_address E \<notin> set (socket_addresses K)"
    and size: "config_int_get (en_config E) (Some ''alsa.input_buffer_size'') = Inr v" "0 \<le> v" "v < 2 ^ 32 - 1"
    and ports: "3 \<le> length (socket_addresses K)"
  shows "((\<forall>a\<in>set (socket_addresses K). so_fd (socket_of K a) \<noteq> fd) \<longrightarrow>
      (\<exists>L' K'. raveloxmidi_alsa_add_poll_fd R E junk (Some h) fd (L, K) = Inr (L', K') \<and> alsa_wf L' K' \<and>
        map pf_fd (polled L') = map pf_fd (polled L) @ [fd] \<and> device_at L' K' fd (en_address E) (Some h) \<and>
        so_device_hash (socket_of K' (en_address E)) = device_hash R (en_config E) h)) \<and>
    (\<exists>L'. raveloxmidi_alsa_disable_poll_fd mem_ok fd L = Inr L' \<and> alsa_wf L' K \<and>
      map pf_fd (polled L') = filter (\<lambda>x. x \<noteq> fd) (map pf_fd (polled L)))"
proof (intro conjI impI)
  assume "\<forall>a\<in>set (socket_addresses K). so_fd (socket_of K a) \<noteq> fd"
  from alsa_add_poll_fd_ok [OF wf E fd this ports size, of R junk "Some h"]
  show "\<exists>L' K'. raveloxmidi_alsa_add_poll_fd R E junk (Some h) fd (L, K) = Inr (L', K') \<and> alsa_wf L' K' \<and>
      map pf_fd (polled L') = map pf_fd (polled L) @ [fd] \<and> device_at L' K' fd (en_address E) (Some h) \<and>
      so_device_hash (socket_of K' (en_address E)) = device_hash R (en_config E) h"
    by (elim exE conjE, intro exI conjI) (assumption | simp)+
qed (rule alsa_disable_ok [OF wf fd])

text \<open>C4: A turn of the listener thread. When the first descriptor with an answer is not the shutdown pipe,
  all that have one are read and what they play is queued, each under a context of its own, and the
  state stays well formed. But when one of these devices is gone the thread does not return: it
  holds the lock of the table while it reads, and the read takes the device out of the table, for
  which it locks it again.\<close>

theorem alsa_listener_turn:
  fixes f :: "int \<Rightarrow> 16 word"
  assumes wf: "alsa_wf L (wd_sockets W)" and some: "al_poll_descriptors L \<noteq> None" "\<exists>t. al_inputs L = Some t \<and> table_list t \<noteq> []"
    and M: "inj (\<lambda>i. mc_context (M i))" "\<forall>i. wd_contexts W (mc_context (M i)) = None" and A: "\<forall>i. en_alloc (E i) = mem_ok"
  defines "ready \<equiv> filter (\<lambda>p. f (pf_fd p) AND POLLIN \<noteq> 0) (polled L)"
    and "sd \<equiv> fst (sk_shutdown_fd (wd_sockets W))"
  shows "if ready \<noteq> [] \<and> pf_fd (hd ready) \<noteq> sd \<and> (\<exists>p\<in>set ready. unplugged L (wd_sockets W) answers (pf_fd p))
    then listener_turn M E (Some f) answers (L, W) = Inl Deadlock
    else \<exists>L' W'. listener_turn M E (Some f) answers (L, W) =
        Inr (if ready \<noteq> [] \<and> pf_fd (hd ready) \<noteq> sd then turn_queued L (wd_sockets W) M f answers else [],
             sk_shutdown (wd_sockets W) = 0, L', W') \<and>
      alsa_wf L' (wd_sockets W') \<and> map pf_fd (polled L') = map pf_fd (polled L) \<and> wd_net W' = wd_net W"
  unfolding ready_def sd_def by (rule listener_turn_ok [OF wf some M A])

text \<open>C3: What is played on a device is queued; the sender sends each of these commands that has the data
  its status calls for (with journals kept, all but the releases of notes whose number is a multiple of 8,
  on which it faults) to every connection, and writes it to every output whose number differs from that of
  the device it came from. The number of an output is by default that of its card, so all outputs of the same card are
  left out; with \<^verbatim>\<open>alsa.writeback\<close> set, or a negative number, none is.\<close>

theorem device_plays_to_others:
  assumes d: "device_at L (wd_sockets W) fd a (Some h)" and A: "en_alloc E = mem_ok" and r: "0 \<le> dr_ret answer"
    and S: "wd_contexts W (mc_context M) = None" and hash: "so_device_hash (socket_of (wd_sockets W) a) = device_hash R items h"
    and c: "c \<in> set (device_commands (wd_sockets W) a answer)" "command_complete c" "journal_enabled \<longrightarrow> journalable c"
    and L: "al_outputs L = Some t" "table_wf t" "config_ok items" and N: "net_wf (wd_net W)"
  shows "\<exists>es W' S' N'. alsa_socket_read M E fd received answer (L, W) = Inr (0, es, L, W') \<and>
    Queued c (Some (mc_context M)) \<in> set es \<and>
    alsa_sender_handler mem_ok now junk journal_enabled R items inbound_midi (Some c) (Some (mc_context M)) (wd_contexts W') (L, wd_net W') =
      Inr (concat (map (sent_by_turn now 0 c (wd_net W)) [0..<length (addresses (wd_net W))]),
           if inbound_midi then Some (midi_bytes c) else None,
           map (\<lambda>k. Written k (midi_bytes c)) (filter (\<lambda>k. device_hash R items k \<noteq> device_hash R items h \<or>
             is_yes (config_value items ''alsa.writeback'') \<or> device_hash R items k < 0) (table_list t)), S', L, N')"
proof -
  let ?cs = "device_commands (wd_sockets W) a answer"
  from device_read_data [OF d A r S, of received] obtain es W' where
    W': "alsa_socket_read M E fd received answer (L, W) = Inr (0, es, L, W')" "device_done M a answer W es W'" by blast
  then have es: "es = queued (mc_context M) ?cs" and N': "wd_net W' = wd_net W"
    and ctx: "contexts_after (mc_context M) \<lparr>sx_ssrc = 0, sx_alsa_card_hash = device_hash R items h\<rparr> (length ?cs) (wd_contexts W) (wd_contexts W')"
    by (simp_all add: device_done_def Let_def hash)
  from c(1) obtain n where "length ?cs = Suc n" by (cases ?cs) auto
  with ctx have held: "held_by (wd_contexts W') (mc_context M) (Suc n) (Some \<lparr>sx_ssrc = 0, sx_alsa_card_hash = device_hash R items h\<rparr>)"
    by (simp add: contexts_after_def)
  have q: "Queued c (Some (mc_context M)) \<in> set es" using es c(1) by (auto simp: queued_def)
  have eq: "written R items (device_hash R items h) (midi_bytes c) (table_list t) = map (\<lambda>k. Written k (midi_bytes c))
      (filter (\<lambda>k. device_hash R items k \<noteq> device_hash R items h \<or> is_yes (config_value items ''alsa.writeback'') \<or>
        device_hash R items k < 0) (table_list t))"
    by (simp add: written_def writes_to_def [abs_def])
  note sent = held_handler [OF held N c(2,3) L, of now junk R inbound_midi, unfolded eq]
  show ?thesis
    by (rule exI [of _ es], rule exI [of _ W'], unfold N', insert sent W'(1) q, elim exE conjE, intro exI conjI)
qed

section \<open>An example\<close>

definition env_alsa :: env where
  "env_alsa = env_example\<lparr>en_config := config_alsa, en_address := 100\<rparr>"

lemma env_alsa_ok: "env_ok env_alsa" "en_config env_alsa = config_alsa" "en_address env_alsa = 100" "en_junk env_alsa = 0"
  using env_example_ok config_alsa_values(1) by (simp_all add: env_ok_def env_alsa_def) (simp add: env_example_def)

text \<open>The sockets of the program and one device, the input of the first card, with descriptor 7.\<close>

lemma sockets_for_devices:
  "\<exists>K. alsa_wf alsa_example K \<and> en_address env_alsa \<notin> set (socket_addresses K) \<and> 3 \<le> length (socket_addresses K) \<and>
    (\<forall>a\<in>set (socket_addresses K). so_fd (socket_of K a) \<noteq> 7) \<and> sk_shutdown_fd K = (8, 9)"
proof -
  from sockets_example obtain K0 where K0: "listening env_listen [4, 5, 6] K0" "sockets_wf K0" by blast
  let ?K = "K0\<lparr>sk_shutdown_fd := (8, 9)\<rparr>"
  have same: "socket_addresses ?K = socket_addresses K0" "socket_of ?K = socket_of K0"
    by (simp_all add: socket_addresses_def socket_of_def fun_eq_iff)
  have wf: "sockets_wf ?K" using K0(2) same by (simp add: sockets_wf_def)
  have a: "en_address env_listen = 3" by (simp add: env_listen_def env_example_def)
  from K0(1) have ad: "socket_addresses K0 = [3, 4, 5]" and f: "\<forall>i<3. fresh_socket env_listen ([4, 5, 6] ! i) (socket_of K0 (3 + i))"
    by (simp_all add: listening_def a upt_rec)
  have "so_fd (socket_of K0 b) \<noteq> 7" if b: "b \<in> {3, 4, 5}" for b
  proof -
    from b obtain i where i: "i < 3" "b = 3 + i" by (auto intro: that [of 0] that [of 1] that [of 2])
    with f have "so_fd (socket_of K0 b) = [4, 5, 6] ! i" by (simp add: fresh_socket_def)
    with i(1) show ?thesis by (auto simp: less_Suc_eq numeral_3_eq_3)
  qed
  moreover have "alsa_wf alsa_example ?K"
    using wf device_table_ok(1) by (simp add: alsa_wf_def alsa_example_def polled_def)
  ultimately show ?thesis using same ad by (intro exI [of _ ?K]) (simp add: env_alsa_ok(3))
qed

lemma device_example:
  "\<exists>L K st. alsa_wf L K \<and> map pf_fd (polled L) = [7] \<and> device_at L K 7 100 (Some 0) \<and>
    so_device_hash (socket_of K 100) = 0 \<and> so_state (socket_of K 100) = Some st \<and>
    parser_of False st = \<lparr>pa_status = MIDI_STATE_INIT, pa_running = 0, pa_hold = [], pa_delta = 0, pa_partial = 0, pa_timed = False\<rparr> \<and>
    al_inputs L = Some (device_table [0]) \<and> al_outputs L = Some (device_table [0, 1]) \<and> al_poll_descriptors L \<noteq> None \<and>
    sk_shutdown_fd K = (8, 9)"
proof -
  from sockets_for_devices obtain K where K: "alsa_wf alsa_example K" "en_address env_alsa \<notin> set (socket_addresses K)"
    "3 \<le> length (socket_addresses K)" "\<forall>a\<in>set (socket_addresses K). so_fd (socket_of K a) \<noteq> 7" "sk_shutdown_fd K = (8, 9)" by blast
  have h: "device_hash rawmidi_example config_alsa 0 = 0" by code_simp
  have p: "polled alsa_example = []" "al_inputs alsa_example = Some (device_table [0])" "al_outputs alsa_example = Some (device_table [0, 1])"
    by (simp_all add: polled_def alsa_example_def)
  have size: "config_int_get (en_config env_alsa) (Some ''alsa.input_buffer_size'') = Inr 4096"
    by (simp add: env_alsa_ok(2) config_alsa_values(2))
  from alsa_add_poll_fd_ok [OF K(1) env_alsa_ok(1) K(2) _ K(4,3) size, of rawmidi_example "\<lambda>_. 0" "Some 0"] obtain L' K' st where
    "alsa_wf L' K'" "map pf_fd (polled L') = [7]" "device_at L' K' 7 100 (Some 0)" "so_device_hash (socket_of K' 100) = 0"
    "so_state (socket_of K' 100) = Some st"
    "parser_of False st = \<lparr>pa_status = MIDI_STATE_INIT, pa_running = 0, pa_hold = [], pa_delta = 0, pa_partial = 0, pa_timed = False\<rparr>"
    "al_inputs L' = Some (device_table [0])" "al_outputs L' = Some (device_table [0, 1])" "al_poll_descriptors L' \<noteq> None"
    "sk_shutdown_fd K' = (8, 9)"
    unfolding env_alsa_ok(2-4) p K(5) option.case h by auto
  then show ?thesis by (intro exI conjI)
qed

theorem alsa_poll_table_witness:
  "\<exists>K L' K'. raveloxmidi_alsa_add_poll_fd rawmidi_example env_alsa (\<lambda>_. 0) (Some 0) 7 (alsa_example, K) = Inr (L', K') \<and>
    map pf_fd (polled L') = [7] \<and> device_at L' K' 7 100 (Some 0) \<and>
    (\<exists>L''. raveloxmidi_alsa_disable_poll_fd mem_ok 7 alsa_example = Inr L'' \<and> polled L'' = [])"
proof -
  from sockets_for_devices obtain K where K: "alsa_wf alsa_example K" "en_address env_alsa \<notin> set (socket_addresses K)"
    "3 \<le> length (socket_addresses K)" "\<forall>a\<in>set (socket_addresses K). so_fd (socket_of K a) \<noteq> 7" by blast
  have p: "polled alsa_example = []" by (simp add: polled_def alsa_example_def)
  have "config_int_get (en_config env_alsa) (Some ''alsa.input_buffer_size'') = Inr 4096"
    by (simp add: env_alsa_ok(2) config_alsa_values(2))
  from alsa_poll_table [OF K(1) _ env_alsa_ok(1) K(2) this _ _ K(3), of 7 rawmidi_example "\<lambda>_. 0" 0] K(4)
  obtain L' K' L'' where
    "raveloxmidi_alsa_add_poll_fd rawmidi_example env_alsa (\<lambda>_. 0) (Some 0) 7 (alsa_example, K) = Inr (L', K')"
    "map pf_fd (polled L') = [7]" "device_at L' K' 7 100 (Some 0)"
    "raveloxmidi_alsa_disable_poll_fd mem_ok 7 alsa_example = Inr L''" "polled L'' = []"
    unfolding p env_alsa_ok(2,3) by auto
  then show ?thesis by (intro exI conjI)
qed

definition note_read :: device_read where
  "note_read = \<lparr>dr_ret = 3, dr_errno = 0, dr_bytes = [0x90, 60, 100]\<rparr>"

definition device_gone :: device_read where
  "device_gone = \<lparr>dr_ret = -19, dr_errno = ENODEV, dr_bytes = []\<rparr>"

lemma note_read_commands:
  assumes d: "device_at L K 7 100 (Some 0)" and st: "so_state (socket_of K 100) = Some st"
    "parser_of False st = \<lparr>pa_status = MIDI_STATE_INIT, pa_running = 0, pa_hold = [], pa_delta = 0, pa_partial = 0, pa_timed = False\<rparr>"
  shows "device_commands K 100 note_read = [note_played]"
proof -
  note ds = device_socket [OF d]
  from ds(5) st(1) obtain n where n: "NET_APPLEMIDI_UDPSIZE \<le> n" "midi_ready n (device_parser K 100)" by auto
  then have "3 \<le> ring_capacity (ms_ring (device_parser K 100))" by (simp add: ready_unread NET_APPLEMIDI_UDPSIZE_def)
  moreover have "3 \<le> so_packet_size (socket_of K 100)" using ds(6) by (simp add: NET_APPLEMIDI_UDPSIZE_def)
  ultimately have "device_octets K 100 note_read = [0x90, 60, 100]" by (simp add: device_octets_def note_read_def Let_def)
  moreover have "device_parser K 100 = st" using st(1) by (simp add: device_parser_def)
  moreover have "fst (midi_parse MIDI_PARSE_MODE_SIMPLE [0x90, 60, 100]
      \<lparr>pa_status = MIDI_STATE_INIT, pa_running = 0, pa_hold = [], pa_delta = 0, pa_partial = 0, pa_timed = False\<rparr>) = [note_played]"
    by code_simp
  ultimately show ?thesis using st(2) by (simp add: device_commands_def)
qed

theorem alsa_listener_turn_witness:
  "\<exists>L W. listener_turn (\<lambda>i. machine_example\<lparr>mc_context := i\<rparr>) (\<lambda>_. env_alsa) (Some (\<lambda>_. POLLIN)) (\<lambda>_. (None, device_gone)) (L, W) =
      Inl Deadlock \<and>
    (\<exists>L' W'. listener_turn (\<lambda>i. machine_example\<lparr>mc_context := i\<rparr>) (\<lambda>_. env_alsa) (Some (\<lambda>_. POLLIN)) (\<lambda>_. (None, note_read)) (L, W) =
      Inr ([Queued note_played (Some 0)], True, L', W'))"
proof -
  from device_example obtain L K0 st where L: "alsa_wf L K0" "map pf_fd (polled L) = [7]" "device_at L K0 7 100 (Some 0)"
    "so_state (socket_of K0 100) = Some st" "parser_of False st = \<lparr>pa_status = MIDI_STATE_INIT, pa_running = 0, pa_hold = [],
       pa_delta = 0, pa_partial = 0, pa_timed = False\<rparr>"
    "al_inputs L = Some (device_table [0])" "al_poll_descriptors L \<noteq> None" "sk_shutdown_fd K0 = (8, 9)"
    by (elim exE conjE) (rule that)
  let ?K = "K0\<lparr>sk_shutdown := 0\<rparr>"
  let ?W = "\<lparr>wd_sockets = ?K, wd_net = net_start, wd_contexts = Map.empty\<rparr>" and ?M = "\<lambda>i. machine_example\<lparr>mc_context := i\<rparr>"
  have same: "socket_addresses ?K = socket_addresses K0" "socket_of ?K = socket_of K0" "sockets_wf ?K = sockets_wf K0" "fd_at ?K = fd_at K0"
    by (simp_all add: socket_addresses_def socket_of_def fun_eq_iff sockets_wf_def fd_at_def)
  have "device_at L ?K = device_at L K0" "socket_for ?K = socket_for K0" "handle_of L ?K = handle_of L K0"
    by (simp_all add: device_at_def [abs_def] socket_for_def [abs_def] handle_of_def [abs_def] same)
  then have wf: "alsa_wf L (wd_sockets ?W)" and h: "handle_of L ?K 7 = Some 0" "socket_for ?K 7 = 100"
    using L(1) device_at_for [OF L(3)] same(3) by (simp_all add: alsa_wf_def)
  have cmds: "device_commands ?K 100 note_read = [note_played]"
    using note_read_commands [OF L(3-5)] by (simp add: device_commands_def device_octets_def device_parser_def same)
  from L(2) obtain p where p: "polled L = [p]" "pf_fd p = 7" by auto
  have some: "\<exists>t. al_inputs L = Some t \<and> table_list t \<noteq> []" using L(6) device_table_ok(2) by auto
  have M: "inj (\<lambda>i. mc_context (?M i))" "\<forall>i. wd_contexts ?W (mc_context (?M i)) = None" by (simp_all add: inj_def)
  have A: "\<forall>i :: nat. en_alloc env_alsa = mem_ok" using env_alsa_ok(1) by (simp add: env_ok_def)
  have gone: "gone device_gone" "\<not> gone note_read" by (simp_all add: gone_def device_gone_def note_read_def)
  have pin: "POLLIN AND POLLIN \<noteq> 0" by (simp add: POLLIN_def)
  note turn = alsa_listener_turn [OF wf L(7) some M A, of "\<lambda>_. POLLIN"]
  from turn [of "\<lambda>_. (None, device_gone)"] have
    "listener_turn ?M (\<lambda>_. env_alsa) (Some (\<lambda>_. POLLIN)) (\<lambda>_. (None, device_gone)) (L, ?W) = Inl Deadlock"
    using p pin gone h L(8) by (simp add: unplugged_def)
  moreover from turn [of "\<lambda>_. (None, note_read)"] have
    "\<exists>L' W'. listener_turn ?M (\<lambda>_. env_alsa) (Some (\<lambda>_. POLLIN)) (\<lambda>_. (None, note_read)) (L, ?W) =
      Inr ([Queued note_played (Some 0)], True, L', W')"
    using p pin gone h L(8) cmds by (auto simp: unplugged_def turn_queued_def turn_effects_def queued_def)
  ultimately show ?thesis by - (rule exI [of _ L], rule exI [of _ ?W], rule conjI)
qed

theorem device_plays_to_others_witness:
  "\<exists>L W es W' S' N'. alsa_socket_read machine_example env_alsa 7 None note_read (L, W) = Inr (0, es, L, W') \<and>
    Queued note_played (Some 50) \<in> set es \<and>
    alsa_sender_handler mem_ok (\<lambda>_. 5) (sent_payload_header note_played True) False rawmidi_example config_alsa False
      (Some note_played) (Some 50) (wd_contexts W') (L, wd_net W') = Inr ([], None, [Written 1 [0x90, 60, 100]], S', L, N')"
proof -
  from device_example obtain L K st where L: "device_at L K 7 100 (Some 0)" "so_device_hash (socket_of K 100) = 0"
    "so_state (socket_of K 100) = Some st" "parser_of False st = \<lparr>pa_status = MIDI_STATE_INIT, pa_running = 0, pa_hold = [],
       pa_delta = 0, pa_partial = 0, pa_timed = False\<rparr>" "al_outputs L = Some (device_table [0, 1])"
    by (elim exE conjE) (rule that)
  let ?W = "\<lparr>wd_sockets = K, wd_net = net_start, wd_contexts = Map.empty\<rparr>"
  have d: "device_at L (wd_sockets ?W) 7 100 (Some 0)" and N: "net_wf (wd_net ?W)" "wd_contexts ?W (mc_context machine_example) = None"
    using L(1) net_start_wf(1) by simp_all
  have A: "en_alloc env_alsa = mem_ok" using env_alsa_ok(1) by (simp add: env_ok_def)
  have h: "device_hash rawmidi_example config_alsa 0 = 0" "device_hash rawmidi_example config_alsa 1 = 1" by code_simp+
  have hash: "so_device_hash (socket_of (wd_sockets ?W) 100) = device_hash rawmidi_example config_alsa 0" using L(2) h by simp
  have c: "note_played \<in> set (device_commands (wd_sockets ?W) 100 note_read)" using note_read_commands [OF L(1,3,4)] by simp
  have r: "0 \<le> dr_ret note_read" by (simp add: note_read_def)
  have f: "filter (\<lambda>k. device_hash rawmidi_example config_alsa k \<noteq> device_hash rawmidi_example config_alsa 0 \<or>
      is_yes (config_value config_alsa ''alsa.writeback'') \<or> device_hash rawmidi_example config_alsa k < 0) [0, 1 :: nat] = [1]"
    using h config_alsa_values(4) by simp
  have m: "mc_context machine_example = 50" "midi_bytes note_played = [0x90, 60, 100]" "addresses (wd_net ?W) = []"
    by (simp_all add: machine_example_def note_played_def midi_bytes_def net_start_wf(3))
  from device_plays_to_others [OF d A r N(2) hash c note_played_ok _ L(5) device_table_ok(1) config_alsa_values(1) N(1), of False None
      "\<lambda>_. 5" "sent_payload_header note_played True" False]
  obtain es W' S' N' where x: "alsa_socket_read machine_example env_alsa 7 None note_read (L, ?W) = Inr (0, es, L, W')"
    "Queued note_played (Some 50) \<in> set es"
    "alsa_sender_handler mem_ok (\<lambda>_. 5) (sent_payload_header note_played True) False rawmidi_example config_alsa False
      (Some note_played) (Some 50) (wd_contexts W') (L, wd_net W') = Inr ([], None, [Written 1 [0x90, 60, 100]], S', L, N')"
    unfolding device_table_ok(2) f m by auto
  then show ?thesis by (intro exI conjI)
qed

end
