(* ===== verification/Logging.thy ===== *)
theory Logging
  imports Config
begin

text \<open>
  Logging (\<^verbatim>\<open>logging.c\<close>): names and numbers of the levels, the file that messages go to, which a
  signal makes the next message open again, and the messages themselves. Expanding a format is the
  library's: a message is its text. Files are numbers, and which are open is part of the state, so that
  closing one twice is a fault; what is written is a list.
\<close>

section \<open>State\<close>

datatype stream = Stderr | File nat

record logging =
  lg_enabled :: bool
  lg_threshold :: int
  lg_hex_dump :: bool
  lg_file_name :: "string option"
  lg_fp :: "stream option"
  lg_prefix_disabled :: bool
  lg_reopen_requested :: bool
  lg_held :: bool
  lg_open :: "nat list"
  lg_out :: "(stream \<times> string) list"

text \<open>What the system answers: the number of a file it opens, the time in seconds and microseconds, the
  number of the thread, whether a message could be written and flushed.\<close>

record log_env =
  le_fopen :: "string \<Rightarrow> nat option"
  le_time :: "nat \<times> nat"
  le_tid :: nat
  le_write :: bool

definition LOGGING_DEBUG :: int where "LOGGING_DEBUG = 0"
definition LOGGING_INFO :: int where "LOGGING_INFO = 1"
definition LOGGING_NORMAL :: int where "LOGGING_NORMAL = 2"
definition LOGGING_WARN :: int where "LOGGING_WARN = 3"
definition LOGGING_ERROR :: int where "LOGGING_ERROR = 4"

definition loglevel_map :: "(string \<times> int) list" where
  "loglevel_map = [(''DEBUG'', 0), (''INFO'', 1), (''NORMAL'', 2), (''WARNING'', 3), (''ERROR'', 4)]"

text \<open>The variables before \<^verbatim>\<open>main\<close>.\<close>

definition logging_start :: logging where
  "logging_start = \<lparr>lg_enabled = False, lg_threshold = 3, lg_hex_dump = False, lg_file_name = None, lg_fp = None,
     lg_prefix_disabled = False, lg_reopen_requested = False, lg_held = False, lg_open = [], lg_out = []\<rparr>"

section \<open>Operations\<close>

definition logging_lock :: "logging \<Rightarrow> logging result" where
  "logging_lock L = bindr (mutex_lock (lg_held L)) (\<lambda>h. Inr (L\<lparr>lg_held := h\<rparr>))"

definition logging_unlock :: "logging \<Rightarrow> logging result" where
  "logging_unlock L = bindr (mutex_unlock (lg_held L)) (\<lambda>h. Inr (L\<lparr>lg_held := h\<rparr>))"

text \<open>The maps end at a NULL name, the end of the list.\<close>

fun find_level :: "(string \<times> int) list \<Rightarrow> string \<Rightarrow> int" where
  "find_level [] name = -1"
| "find_level ((n, v) # ms) name = (if strcasecmp_equal name n then v else find_level ms name)"

definition logging_name_to_value :: "(string \<times> int) list option \<Rightarrow> string option \<Rightarrow> int" where
  "logging_name_to_value table name =
     (case table of None \<Rightarrow> -1 | Some ms \<Rightarrow> (case name of None \<Rightarrow> -1 | Some n \<Rightarrow> find_level ms n))"

fun find_name :: "(string \<times> int) list \<Rightarrow> int \<Rightarrow> string option" where
  "find_name [] value = None"
| "find_name ((n, v) # ms) value = (if v = value then Some n else find_name ms value)"

definition logging_value_to_name :: "(string \<times> int) list option \<Rightarrow> int \<Rightarrow> string option" where
  "logging_value_to_name table value =
     (case table of None \<Rightarrow> None | Some ms \<Rightarrow> if value < 0 then None else find_name ms value)"

definition logging_prefix_disable :: "logging \<Rightarrow> logging result" where
  "logging_prefix_disable L = bindr (logging_lock L) (\<lambda>L. logging_unlock (L\<lparr>lg_prefix_disabled := True\<rparr>))"

definition logging_prefix_enable :: "logging \<Rightarrow> logging result" where
  "logging_prefix_enable L = bindr (logging_lock L) (\<lambda>L. logging_unlock (L\<lparr>lg_prefix_disabled := False\<rparr>))"

text \<open>The signal handler for SIGHUP.\<close>

definition logging_sighup_handler :: "logging \<Rightarrow> logging" where
  "logging_sighup_handler L = L\<lparr>lg_reopen_requested := True\<rparr>"

definition fclose :: "stream option \<Rightarrow> logging \<Rightarrow> logging result" where
  "fclose fp L =
     (case fp of None \<Rightarrow> Inl NullDeref
      | Some Stderr \<Rightarrow> Inr L
      | Some (File f) \<Rightarrow> if f \<in> set (lg_open L) then Inr (L\<lparr>lg_open := remove1 f (lg_open L)\<rparr>) else Inl UseAfterFree)"

text \<open>\<^verbatim>\<open>logging_fp = fopen( .. ); if( ! logging_fp ) logging_fp = stderr\<close>\<close>

definition open_log :: "log_env \<Rightarrow> string \<Rightarrow> logging \<Rightarrow> logging" where
  "open_log E name L =
     (case le_fopen E name of None \<Rightarrow> L\<lparr>lg_fp := Some Stderr\<rparr>
      | Some f \<Rightarrow> L\<lparr>lg_fp := Some (File f), lg_open := f # lg_open L\<rparr>)"

definition log_prefix :: "log_env \<Rightarrow> int \<Rightarrow> string result" where
  "log_prefix E level =
     bindr (deref (logging_value_to_name (Some loglevel_map) level)) (\<lambda>name.
     Inr (''['' @ decimal (fst (le_time E)) @ ''.'' @ decimal (snd (le_time E)) @ '']'' @ [CHR 0x09] @
          ''[tid='' @ decimal (le_tid E) @ '']'' @ [CHR 0x09] @ name @ '': ''))"

text \<open>Opening the file again, if the signal came.\<close>

definition reopen_log :: "log_env \<Rightarrow> logging \<Rightarrow> logging result" where
  "reopen_log E L =
     (if lg_reopen_requested L \<and> lg_file_name L \<noteq> None then
        let L = L\<lparr>lg_reopen_requested := False\<rparr> in
        bindr (if lg_fp L \<noteq> Some Stderr then fclose (lg_fp L) L else Inr L) (\<lambda>L.
        Inr (open_log E (the (lg_file_name L)) L))
      else Inr L)"

definition logging_printf :: "log_env \<Rightarrow> int \<Rightarrow> string \<Rightarrow> logging \<Rightarrow> logging result" where
  "logging_printf E level text L =
     (if \<not> lg_enabled L then Inr L
      else
        bindr (logging_lock L) (\<lambda>L.
        if level < lg_threshold L then logging_unlock L
        else
          bindr (reopen_log E L) (\<lambda>L.
          let current_logging_fp = (case lg_fp L of Some fp \<Rightarrow> fp | None \<Rightarrow> Stderr) in
          bindr (if lg_prefix_disabled L then Inr L
                 else bindr (log_prefix E level) (\<lambda>p. Inr (L\<lparr>lg_out := lg_out L @ [(current_logging_fp, p)]\<rparr>))) (\<lambda>L.
          logging_unlock (L\<lparr>lg_out := lg_out L @ [(current_logging_fp, text)] @
            (if le_write E then [] else [(Stderr, text)])\<rparr>)))))"

text \<open>The file that is configured, where it may be written.\<close>

definition init_file :: "alloc \<Rightarrow> log_env \<Rightarrow> kv_table option \<Rightarrow> logging \<Rightarrow> logging result" where
  "init_file A E items L =
     bindr (config_string_get items (Some ''readonly'')) (\<lambda>readonly.
     if \<not> is_no readonly then Inr L
     else
       bindr (config_string_get items (Some ''logging.log_file'')) (\<lambda>name.
       case name of None \<Rightarrow> Inr L
       | Some n \<Rightarrow>
           if A (Site ''logging_init:logging_file_name'') then
             bindr (if lg_fp L \<noteq> None \<and> lg_fp L \<noteq> Some Stderr then fclose (lg_fp L) L else Inr L) (\<lambda>L.
             Inr (open_log E n (L\<lparr>lg_file_name := Some n\<rparr>)))
           else Inr (L\<lparr>lg_file_name := None, lg_fp := (if lg_fp L = None then Some Stderr else lg_fp L)\<rparr>)))"

definition logging_init :: "alloc \<Rightarrow> log_env \<Rightarrow> kv_table option \<Rightarrow> logging \<Rightarrow> logging result" where
  "logging_init A E items L =
     bindr (logging_lock (L\<lparr>lg_held := False\<rparr>)) (\<lambda>L.
     bindr (config_string_get items (Some ''logging.enabled'')) (\<lambda>enabled.
     bindr (if \<not> is_yes enabled then Inr L
            else
              bindr (config_string_get items (Some ''logging.log_level'')) (\<lambda>log_level.
              bindr (init_file A E items
                       (L\<lparr>lg_threshold := logging_name_to_value (Some loglevel_map) log_level\<rparr>)) (\<lambda>L.
              let L = (if lg_fp L = None then L\<lparr>lg_file_name := None, lg_fp := Some Stderr\<rparr> else L) in
              Inr (L\<lparr>lg_enabled := True\<rparr>)))) (\<lambda>L.
     bindr (config_string_get items (Some ''logging.hex_dump'')) (\<lambda>hex_dump.
     logging_unlock (if is_yes hex_dump then L\<lparr>lg_hex_dump := True\<rparr> else L)))))"

definition logging_teardown :: "logging \<Rightarrow> logging result" where
  "logging_teardown L =
     bindr (logging_lock L) (\<lambda>L.
     bindr (if lg_fp L \<noteq> None \<and> lg_fp L \<noteq> Some Stderr then fclose (lg_fp L) L else Inr L) (\<lambda>L.
     logging_unlock (L\<lparr>lg_fp := None, lg_file_name := None, lg_enabled := False\<rparr>)))"

definition logging_get_threshold :: "logging \<Rightarrow> (int \<times> logging) result" where
  "logging_get_threshold L =
     bindr (logging_lock L) (\<lambda>L. bindr (logging_unlock L) (\<lambda>L. Inr (lg_threshold L, L)))"

text \<open>The macros for what is only done at the level of debugging.\<close>

definition LOGGING_DEBUG_ENABLED :: "logging \<Rightarrow> bool" where
  "LOGGING_DEBUG_ENABLED L \<longleftrightarrow> lg_enabled L \<and> lg_threshold L = LOGGING_DEBUG"

definition LOGGING_HEX_DUMP_ENABLED :: "logging \<Rightarrow> bool" where
  "LOGGING_HEX_DUMP_ENABLED L \<longleftrightarrow> LOGGING_DEBUG_ENABLED L \<and> lg_hex_dump L"

section \<open>Messages\<close>

definition log_wf :: "logging \<Rightarrow> bool" where
  "log_wf L \<longleftrightarrow> \<not> lg_held L \<and> lg_open L = (case lg_fp L of Some (File f) \<Rightarrow> [f] | _ \<Rightarrow> []) \<and>
     (lg_enabled L \<longrightarrow> lg_fp L \<noteq> None) \<and> (lg_file_name L \<noteq> None \<longrightarrow> lg_fp L \<noteq> None)"

lemma fclose_ok:
  assumes "log_wf L" "lg_fp L \<noteq> None"
  shows "(if lg_fp L \<noteq> Some Stderr then fclose (lg_fp L) L else Inr L) = Inr (L\<lparr>lg_open := []\<rparr>)"
  using assms by (cases L) (auto simp: log_wf_def fclose_def split: option.splits stream.splits)

lemma fclose_closed:
  assumes "log_wf L"
  shows "(if lg_fp L \<noteq> None \<and> lg_fp L \<noteq> Some Stderr then fclose (lg_fp L) L else Inr L) = Inr (L\<lparr>lg_open := []\<rparr>)"
  using assms by (cases L) (auto simp: log_wf_def fclose_def split: option.splits stream.splits)

definition level_name :: "int \<Rightarrow> string" where
  "level_name level = the (find_name loglevel_map level)"

definition prefix_text :: "log_env \<Rightarrow> int \<Rightarrow> string" where
  "prefix_text E level = ''['' @ decimal (fst (le_time E)) @ ''.'' @ decimal (snd (le_time E)) @ '']'' @ [CHR 0x09] @
     ''[tid='' @ decimal (le_tid E) @ '']'' @ [CHR 0x09] @ level_name level @ '': ''"

lemma log_prefix_ok:
  assumes "0 \<le> level" "level \<le> 4"
  shows "log_prefix E level = Inr (prefix_text E level)"
proof -
  from assms have "level \<in> {0, 1, 2, 3, 4}" by auto
  then have "logging_value_to_name (Some loglevel_map) level = Some (level_name level)"
    by (auto simp: logging_value_to_name_def level_name_def loglevel_map_def)
  then show ?thesis by (simp add: log_prefix_def prefix_text_def)
qed

text \<open>The state in which a message is written: the file may have been opened again.\<close>

definition reopened :: "log_env \<Rightarrow> logging \<Rightarrow> logging" where
  "reopened E L =
     (if lg_reopen_requested L \<and> lg_file_name L \<noteq> None
      then open_log E (the (lg_file_name L)) (L\<lparr>lg_reopen_requested := False, lg_open := []\<rparr>) else L)"

lemma reopened_wf:
  assumes "log_wf L" "lg_enabled L"
  shows "log_wf (reopened E L)" "\<exists>fp. lg_fp (reopened E L) = Some fp"
    "lg_enabled (reopened E L)" "lg_threshold (reopened E L) = lg_threshold L" "lg_out (reopened E L) = lg_out L"
    "lg_prefix_disabled (reopened E L) = lg_prefix_disabled L" "lg_file_name (reopened E L) = lg_file_name L"
  using assms by (auto simp: reopened_def open_log_def log_wf_def split: option.splits)

definition message :: "log_env \<Rightarrow> int \<Rightarrow> string \<Rightarrow> bool \<Rightarrow> stream \<Rightarrow> (stream \<times> string) list" where
  "message E level text disabled fp =
     (if disabled then [] else [(fp, prefix_text E level)]) @ [(fp, text)] @ (if le_write E then [] else [(Stderr, text)])"

definition after_message :: "log_env \<Rightarrow> int \<Rightarrow> string \<Rightarrow> logging \<Rightarrow> logging" where
  "after_message E level text L =
     (if \<not> lg_enabled L \<or> level < lg_threshold L then L
      else (reopened E L)\<lparr>lg_out := lg_out L @ message E level text (lg_prefix_disabled L) (the (lg_fp (reopened E L)))\<rparr>)"

lemma logging_printf_ok:
  assumes wf: "log_wf L" and level: "0 \<le> level" "level \<le> 4"
  shows "logging_printf E level text L = Inr (after_message E level text L)" "log_wf (after_message E level text L)"
proof -
  show "log_wf (after_message E level text L)"
    using reopened_wf [OF wf, of E] wf by (auto simp: after_message_def log_wf_def split: option.splits stream.splits)
  show "logging_printf E level text L = Inr (after_message E level text L)"
  proof (cases "lg_enabled L \<and> lg_threshold L \<le> level")
    case False
    then show ?thesis using wf
      by (cases L) (auto simp: logging_printf_def after_message_def logging_lock_def logging_unlock_def log_wf_def)
  next
    case True
    let ?H = "L\<lparr>lg_held := True\<rparr>"
    from wf have h: "lg_held L = False" by (simp add: log_wf_def)
    have lk: "logging_lock L = Inr ?H" by (simp add: logging_lock_def h)
    have re: "reopen_log E ?H = Inr ((reopened E L)\<lparr>lg_held := True\<rparr>)"
    proof (cases "lg_reopen_requested L \<and> lg_file_name L \<noteq> None")
      case r: True
      with wf have "lg_fp L \<noteq> None" by (simp add: log_wf_def)
      then have "(if lg_fp L \<noteq> Some Stderr then fclose (lg_fp L) (?H\<lparr>lg_reopen_requested := False\<rparr>) else Inr (?H\<lparr>lg_reopen_requested := False\<rparr>)) =
          Inr (?H\<lparr>lg_reopen_requested := False, lg_open := []\<rparr>)"
        using wf by (cases L) (auto simp: log_wf_def fclose_def split: option.splits stream.splits)
      with r show ?thesis by (cases L) (auto simp: reopen_log_def reopened_def open_log_def Let_def split: option.splits)
    qed (auto simp: reopen_log_def reopened_def)
    from reopened_wf [OF wf, of E] True obtain fp where fp: "lg_fp (reopened E L) = Some fp" "lg_out (reopened E L) = lg_out L"
      "lg_prefix_disabled (reopened E L) = lg_prefix_disabled L" "lg_held (reopened E L) = False" by (auto simp: log_wf_def)
    obtain en th hd nm f pd rq hl op ou where r: "reopened E L = \<lparr>lg_enabled = en, lg_threshold = th, lg_hex_dump = hd, lg_file_name = nm,
      lg_fp = f, lg_prefix_disabled = pd, lg_reopen_requested = rq, lg_held = hl, lg_open = op, lg_out = ou\<rparr>" by (cases "reopened E L")
    from True have en: "lg_enabled L" "\<not> level < lg_threshold ?H" by simp_all
    show ?thesis
      unfolding logging_printf_def lk bindr.simps
      using en fp by (simp add: re Let_def log_prefix_ok [OF level] after_message_def message_def r logging_unlock_def)
  qed
qed

text \<open>A handler of a signal that writes a message while the interrupted thread is writing one waits for it for ever.\<close>

lemma logging_printf_reentrant: "lg_enabled L \<Longrightarrow> lg_held L \<Longrightarrow> logging_printf E level text L = Inl Deadlock"
  by (simp add: logging_printf_def logging_lock_def)

section \<open>Runs\<close>

text \<open>What happens to the log of a process: messages, and the signal that asks for the file to be opened again.\<close>

datatype log_event = Message log_env int string | Hangup

fun log_step :: "log_event \<Rightarrow> logging \<Rightarrow> logging result" where
  "log_step (Message E level text) L = logging_printf E level text L"
| "log_step Hangup L = Inr (logging_sighup_handler L)"

fun log_run :: "log_event list \<Rightarrow> logging \<Rightarrow> logging result" where
  "log_run [] L = Inr L"
| "log_run (e # es) L = bindr (log_step e L) (log_run es)"

fun log_event_ok :: "log_event \<Rightarrow> bool" where
  "log_event_ok (Message E level text) \<longleftrightarrow> 0 \<le> level \<and> level \<le> 4"
| "log_event_ok Hangup \<longleftrightarrow> True"

definition log_file :: "log_env \<Rightarrow> string \<Rightarrow> stream" where
  "log_file E name = (case le_fopen E name of None \<Rightarrow> Stderr | Some f \<Rightarrow> File f)"

text \<open>What is to be written, without the state: \<open>name\<close> is the configured file, \<open>s\<close> the current one, and \<open>asked\<close>
  says that the signal came since the last message.\<close>

fun log_reference :: "string option \<Rightarrow> int \<Rightarrow> stream \<Rightarrow> bool \<Rightarrow> log_event list \<Rightarrow> (stream \<times> string) list" where
  "log_reference name threshold s asked [] = []"
| "log_reference name threshold s asked (Hangup # es) = log_reference name threshold s True es"
| "log_reference name threshold s asked (Message E level text # es) =
     (if level < threshold then log_reference name threshold s asked es
      else
        let s' = (if asked then case name of None \<Rightarrow> s | Some n \<Rightarrow> log_file E n else s) in
        [(s', prefix_text E level), (s', text)] @ (if le_write E then [] else [(Stderr, text)]) @
          log_reference name threshold s' (asked \<and> name = None) es)"

lemma reopened_fp:
  assumes "lg_fp L = Some s"
  shows "lg_fp (reopened E L) =
      Some (if lg_reopen_requested L then case lg_file_name L of None \<Rightarrow> s | Some n \<Rightarrow> log_file E n else s)"
    "lg_reopen_requested (reopened E L) \<longleftrightarrow> lg_reopen_requested L \<and> lg_file_name L = None"
  using assms by (auto simp: reopened_def open_log_def log_file_def split: option.splits)

lemma log_run_ok:
  assumes "log_wf L" "lg_enabled L" "\<not> lg_prefix_disabled L" "lg_fp L = Some s" "\<forall>e \<in> set es. log_event_ok e"
  shows "\<exists>L'. log_run es L = Inr L' \<and> log_wf L' \<and>
    lg_out L' = lg_out L @ log_reference (lg_file_name L) (lg_threshold L) s (lg_reopen_requested L) es"
  using assms
proof (induction es arbitrary: L s)
  case (Cons e es)
  show ?case
  proof (cases e)
    case Hangup
    from Cons.prems have "log_wf (logging_sighup_handler L)"
      by (simp add: log_wf_def logging_sighup_handler_def)
    from Cons.IH [OF this, of s] Cons.prems show ?thesis
      by (simp add: Hangup logging_sighup_handler_def)
  next
    case (Message E level t)
    let ?L = "after_message E level t L"
    from Cons.prems Message have level: "0 \<le> level" "level \<le> 4" by simp_all
    note ok = logging_printf_ok [OF Cons.prems(1) level, of E t]
    show ?thesis
    proof (cases "level < lg_threshold L")
      case True
      then have same: "?L = L" by (simp add: after_message_def)
      from Cons.IH [OF Cons.prems(1,2,3,4)] Cons.prems(5) True show ?thesis
        by (simp add: Message ok(1) same)
    next
      case False
      note re = reopened_wf [OF Cons.prems(1,2), of E] reopened_fp [OF Cons.prems(4), of E]
      let ?s = "if lg_reopen_requested L then case lg_file_name L of None \<Rightarrow> s | Some n \<Rightarrow> log_file E n else s"
      have fields: "lg_enabled ?L" "\<not> lg_prefix_disabled ?L" "lg_fp ?L = Some ?s" "lg_file_name ?L = lg_file_name L"
        "lg_threshold ?L = lg_threshold L" "lg_reopen_requested ?L \<longleftrightarrow> lg_reopen_requested L \<and> lg_file_name L = None"
        "lg_out ?L = lg_out L @ message E level t False ?s"
        using False Cons.prems(2,3) re by (simp_all add: after_message_def)
      from Cons.IH [OF ok(2) fields(1,2,3)] Cons.prems(5) obtain L' where
        L': "log_run es ?L = Inr L'" "log_wf L'"
        "lg_out L' = lg_out ?L @ log_reference (lg_file_name ?L) (lg_threshold ?L) ?s (lg_reopen_requested ?L) es" by auto
      then show ?thesis using False
        by (auto simp: Message ok(1) fields message_def Let_def)
    qed
  qed
qed simp

text \<open>The file messages go to at first.\<close>

definition first_file :: "log_env \<Rightarrow> kv_table option \<Rightarrow> string option" where
  "first_file E items = (if is_no (config_value items ''readonly'') then config_value items ''logging.log_file'' else None)"

lemma bindr_weak: "m = m' \<Longrightarrow> bindr m f = bindr m' f"
  by simp

lemma init_file_ok:
  assumes items: "config_ok items" and "lg_fp L = None" "lg_file_name L = None"
  shows "init_file mem_ok E items L =
    Inr (case first_file E items of None \<Rightarrow> L | Some n \<Rightarrow> open_log E n (L\<lparr>lg_file_name := Some n\<rparr>))"
  using assms(2,3)
  by (cases "config_value items ''logging.log_file''")
    (simp_all add: init_file_def config_string_value [OF items] first_file_def)

definition log_started :: "log_env \<Rightarrow> kv_table option \<Rightarrow> logging" where
  "log_started E items =
     (case first_file E items of None \<Rightarrow> logging_start\<lparr>lg_fp := Some Stderr\<rparr>
      | Some n \<Rightarrow> open_log E n (logging_start\<lparr>lg_file_name := Some n\<rparr>))
     \<lparr>lg_enabled := True, lg_threshold := logging_name_to_value (Some loglevel_map) (config_value items ''logging.log_level''),
      lg_hex_dump := is_yes (config_value items ''logging.hex_dump'')\<rparr>"

lemma open_log_update:
  "open_log E n (L\<lparr>lg_held := h, lg_threshold := t, lg_file_name := name\<rparr>) =
    (open_log E n (L\<lparr>lg_file_name := name\<rparr>))\<lparr>lg_held := h, lg_threshold := t\<rparr>"
  by (cases L; cases "le_fopen E n") (simp_all add: open_log_def)

lemma open_log_fields:
  "lg_fp (open_log E n L) \<noteq> None" "lg_held (open_log E n L) = lg_held L" "lg_hex_dump (open_log E n L) = lg_hex_dump L"
  by (simp_all add: open_log_def split: option.splits)

lemma logging_init_ok:
  assumes items: "config_ok items" and enabled: "is_yes (config_value items ''logging.enabled'')"
  shows "logging_init mem_ok E items logging_start = Inr (log_started E items)"
proof -
  obtain th where th: "logging_name_to_value (Some loglevel_map) (config_value items ''logging.log_level'') = th" by simp
  obtain hex where hex: "is_yes (config_value items ''logging.hex_dump'') = hex" by simp
  let ?H = "logging_start\<lparr>lg_held := True, lg_threshold := th\<rparr>"
  let ?G = "case first_file E items of None \<Rightarrow> ?H | Some n \<Rightarrow> open_log E n (?H\<lparr>lg_file_name := Some n\<rparr>)"
  have held: "lg_held ?G" "lg_hex_dump ?G = False"
    by (simp_all add: logging_start_def open_log_fields split: option.splits)
  have lk: "logging_lock (logging_start\<lparr>lg_held := False\<rparr>) = Inr (logging_start\<lparr>lg_held := True\<rparr>)"
    by (simp add: logging_lock_def logging_start_def)
  have f: "init_file mem_ok E items ?H = Inr ?G" by (rule init_file_ok [OF items]) (simp_all add: logging_start_def)
  have en: "(\<not> is_yes (config_value items ''logging.enabled'')) = False" using enabled by simp
  obtain F where F: "?G = F" by simp
  have "logging_init mem_ok E items logging_start =
      logging_unlock ((if lg_fp F = None then F\<lparr>lg_file_name := None, lg_fp := Some Stderr\<rparr> else F)
        \<lparr>lg_enabled := True, lg_hex_dump := hex\<rparr>)"
    unfolding logging_init_def lk bindr.simps config_string_value [OF items] th f F Let_def if_False en hex
    using held [unfolded F] by (cases F; cases hex) simp_all
  also have "\<dots> = Inr (log_started E items)"
  proof (cases "first_file E items")
    case None
    with F have "F = ?H" by simp
    with None show ?thesis by (simp add: log_started_def logging_start_def logging_unlock_def th hex)
  next
    case (Some n)
    with F have opened: "F = open_log E n (?H\<lparr>lg_file_name := Some n\<rparr>)" by simp
    have started: "log_started E items = (open_log E n (logging_start\<lparr>lg_file_name := Some n\<rparr>))
        \<lparr>lg_enabled := True, lg_threshold := th, lg_hex_dump := hex\<rparr>"
      by (simp add: log_started_def Some th hex)
    obtain L where L: "open_log E n (logging_start\<lparr>lg_file_name := Some n\<rparr>) = L" by simp
    have "lg_fp L \<noteq> None" "\<not> lg_held L" "\<not> lg_hex_dump L" unfolding L [symmetric] by (rule open_log_fields) (simp_all add: open_log_fields logging_start_def)
    then show ?thesis unfolding opened started open_log_update L
      by (cases L) (simp add: logging_unlock_def)
  qed
  finally show ?thesis .
qed

lemma log_started_ok:
  "log_wf (log_started E items)" "lg_enabled (log_started E items)" "\<not> lg_prefix_disabled (log_started E items)"
  "lg_fp (log_started E items) = Some (case first_file E items of None \<Rightarrow> Stderr | Some n \<Rightarrow> log_file E n)"
  "lg_file_name (log_started E items) = first_file E items"
  "lg_threshold (log_started E items) = logging_name_to_value (Some loglevel_map) (config_value items ''logging.log_level'')"
  "\<not> lg_reopen_requested (log_started E items)" "lg_out (log_started E items) = []"
proof -
  obtain th where th: "logging_name_to_value (Some loglevel_map) (config_value items ''logging.log_level'') = th" by simp
  show "log_wf (log_started E items)" "lg_enabled (log_started E items)" "\<not> lg_prefix_disabled (log_started E items)"
    "lg_fp (log_started E items) = Some (case first_file E items of None \<Rightarrow> Stderr | Some n \<Rightarrow> log_file E n)"
    "lg_file_name (log_started E items) = first_file E items"
    "lg_threshold (log_started E items) = logging_name_to_value (Some loglevel_map) (config_value items ''logging.log_level'')"
    "\<not> lg_reopen_requested (log_started E items)" "lg_out (log_started E items) = []"
    unfolding th
    by (cases "first_file E items"; cases "le_fopen E (the (first_file E items))";
      simp add: log_started_def logging_start_def open_log_def log_file_def log_wf_def th)+
qed

lemma logging_teardown_ok:
  assumes "log_wf L"
  shows "logging_teardown L = Inr (L\<lparr>lg_open := [], lg_fp := None, lg_file_name := None, lg_enabled := False\<rparr>)"
proof -
  from assms have h: "lg_held L = False" by (simp add: log_wf_def)
  have lk: "logging_lock L = Inr (L\<lparr>lg_held := True\<rparr>)" by (simp add: logging_lock_def h)
  have fc: "(if lg_fp (L\<lparr>lg_held := True\<rparr>) \<noteq> None \<and> lg_fp (L\<lparr>lg_held := True\<rparr>) \<noteq> Some Stderr
      then fclose (lg_fp (L\<lparr>lg_held := True\<rparr>)) (L\<lparr>lg_held := True\<rparr>) else Inr (L\<lparr>lg_held := True\<rparr>)) =
      Inr (L\<lparr>lg_held := True, lg_open := []\<rparr>)"
  proof (cases "lg_fp L")
    case None
    with assms show ?thesis by (cases L) (simp add: log_wf_def)
  next
    case (Some fp)
    with assms show ?thesis by (cases L; cases fp) (simp_all add: log_wf_def fclose_def)
  qed
  show ?thesis unfolding logging_teardown_def lk bindr.simps fc
    using h by (cases L) (simp add: logging_unlock_def)
qed

section \<open>Properties\<close>

text \<open>C7: With logging enabled, whatever messages and hangup signals come, in whatever order and whether or not a
  file can be opened or written, no call faults: no file is closed twice, no lock is left held, and what has been
  written is exactly what the reference writes, each message of the threshold's level or above once and in its
  order, with its time, thread and level before it, to the file opened after the last signal (or the standard error
  where there is none). Never more than one file is open, and after the end none.\<close>

theorem logging_complete:
  assumes "config_ok items" "is_yes (config_value items ''logging.enabled'')" "\<forall>e \<in> set es. log_event_ok e"
  shows "\<exists>L L' L''. logging_init mem_ok E items logging_start = Inr L \<and> log_run es L = Inr L' \<and>
    lg_out L' = log_reference (first_file E items)
      (logging_name_to_value (Some loglevel_map) (config_value items ''logging.log_level''))
      (case first_file E items of None \<Rightarrow> Stderr | Some n \<Rightarrow> log_file E n) False es \<and>
    length (lg_open L') \<le> 1 \<and> logging_teardown L' = Inr L'' \<and> lg_open L'' = [] \<and> lg_out L'' = lg_out L'"
proof -
  let ?L = "log_started E items"
  note L = logging_init_ok [OF assms(1,2), of E]
  from log_run_ok [OF log_started_ok(1-4) [of E items] assms(3)] obtain L' where L': "log_run es ?L = Inr L'" "log_wf L'"
    "lg_out L' = log_reference (first_file E items)
      (logging_name_to_value (Some loglevel_map) (config_value items ''logging.log_level''))
      (case first_file E items of None \<Rightarrow> Stderr | Some n \<Rightarrow> log_file E n) False es"
    using log_started_ok(5-8) [of E items] by auto
  from L'(2) have one: "length (lg_open L') \<le> 1" by (auto simp: log_wf_def split: option.splits stream.splits)
  from logging_teardown_ok [OF L'(2)] obtain L'' where "logging_teardown L' = Inr L''" "lg_open L'' = []" "lg_out L'' = lg_out L'"
    by simp
  with L L'(1,3) one show ?thesis by (intro exI conjI)
qed

definition config_log :: "kv_table option" where
  "config_log = Some \<lparr>kt_name = None, kt_count = 4, kt_items = Some
     [\<lparr>ki_key = Some ''logging.enabled'', ki_value = Some ''yes''\<rparr>,
      \<lparr>ki_key = Some ''logging.log_level'', ki_value = Some ''normal''\<rparr>,
      \<lparr>ki_key = Some ''readonly'', ki_value = Some ''no''\<rparr>,
      \<lparr>ki_key = Some ''logging.log_file'', ki_value = Some ''log''\<rparr>], kt_held = False\<rparr>"

text \<open>The name the configuration gives can be opened again at the second message.\<close>

definition log_env_example :: "nat \<Rightarrow> log_env" where
  "log_env_example t = \<lparr>le_fopen = (\<lambda>n. if n = ''log'' then Some (3 + t) else None), le_time = (t, 0), le_tid = 7, le_write = True\<rparr>"

lemma logging_complete_witness:
  "\<exists>L L' L''. logging_init mem_ok (log_env_example 0) config_log logging_start = Inr L \<and>
    log_run [Message (log_env_example 1) 2 ''a'', Message (log_env_example 2) 0 ''b'', Hangup, Message (log_env_example 2) 4 ''c''] L = Inr L' \<and>
    lg_out L' = [(File 3, prefix_text (log_env_example 1) 2), (File 3, ''a''),
      (File 5, prefix_text (log_env_example 2) 4), (File 5, ''c'')] \<and>
    length (lg_open L') \<le> 1 \<and> logging_teardown L' = Inr L'' \<and> lg_open L'' = [] \<and> lg_out L'' = lg_out L'"
proof -
  have v: "config_value config_log ''logging.enabled'' = Some ''yes''" "config_value config_log ''logging.log_level'' = Some ''normal''"
    "config_value config_log ''readonly'' = Some ''no''" "config_value config_log ''logging.log_file'' = Some ''log''"
    by code_simp+
  have "distinct (map (\<lambda>item. fold_case (the (ki_key item))) (the (kt_items (the config_log))))" by code_simp
  then have ok: "config_ok config_log" by (simp add: config_ok_def config_log_def kv_wf_def)
  have y: "is_yes (Some ''yes'')" "is_no (Some ''no'')" by code_simp+
  have n: "logging_name_to_value (Some loglevel_map) (Some ''normal'') = 2" by code_simp
  have f: "first_file (log_env_example 0) config_log = Some ''log''" by (simp add: first_file_def v y)
  have opened: "log_file (log_env_example t) ''log'' = File (3 + t)" for t by (simp add: log_file_def log_env_example_def)
  have w: "le_write (log_env_example t)" for t by (simp add: log_env_example_def)
  from logging_complete [of config_log "[Message (log_env_example 1) 2 ''a'', Message (log_env_example 2) 0 ''b'', Hangup,
      Message (log_env_example 2) 4 ''c'']" "log_env_example 0"]
  show ?thesis by (simp add: v ok y n f opened w Let_def del: log_run.simps)
qed

end
