(* ===== verification/Utils.thy ===== *)
theory Utils
  imports Logging
begin

text \<open>
  The helpers of \<^verbatim>\<open>utils.c\<close> that the other theories do not hold: the hexadecimal dump of a packet, the test
  of a file before it is written to as the process's own, random numbers and the time, with the lock they share.
\<close>

section \<open>State\<close>

text \<open>The lock and the seed of the random numbers; \<^verbatim>\<open>rand_r\<close> is the library's.\<close>

record utils =
  ut_held :: bool
  ut_seed :: nat

definition utils_lock :: "utils \<Rightarrow> utils result" where
  "utils_lock U = bindr (mutex_lock (ut_held U)) (\<lambda>h. Inr (U\<lparr>ut_held := h\<rparr>))"

definition utils_unlock :: "utils \<Rightarrow> utils result" where
  "utils_unlock U = bindr (mutex_unlock (ut_held U)) (\<lambda>h. Inr (U\<lparr>ut_held := h\<rparr>))"

definition utils_init :: "nat \<Rightarrow> utils \<Rightarrow> utils" where
  "utils_init time U = U\<lparr>ut_held := False, ut_seed := time\<rparr>"

definition random_number :: "(nat \<Rightarrow> int \<times> nat) \<Rightarrow> utils \<Rightarrow> (int \<times> utils) result" where
  "random_number rand_r U =
     bindr (utils_lock U) (\<lambda>U.
     let (ret, seed) = rand_r (ut_seed U) in
     bindr (utils_unlock (U\<lparr>ut_seed := seed\<rparr>)) (\<lambda>U. Inr (ret, U)))"

definition time_in_microseconds :: "int \<times> int \<Rightarrow> int" where
  "time_in_microseconds now = (fst now * 1000000 + snd now) div 100"

section \<open>Dumps\<close>

text \<open>\<^verbatim>\<open>%02x\<close>, and \<^verbatim>\<open>isprint\<close> in the C locale.\<close>

definition hex_digit :: "nat \<Rightarrow> char" where
  "hex_digit n = ''0123456789abcdef'' ! n"

definition hex_byte :: "byte \<Rightarrow> string" where
  "hex_byte c = [hex_digit (unat c div 16), hex_digit (unat c mod 16)]"

definition isprint :: "byte \<Rightarrow> bool" where
  "isprint c \<longleftrightarrow> 32 \<le> c \<and> c < 127"

definition dump_byte :: "byte \<Rightarrow> string" where
  "dump_byte c = hex_byte c @ '' '' @ [if isprint c then char_of (unat c) else CHR ''.''] @ [CHR 0x09]"

function hex_dump_loop :: "log_env \<Rightarrow> bytes \<Rightarrow> nat \<Rightarrow> nat \<Rightarrow> logging \<Rightarrow> logging result" where
  "hex_dump_loop E buffer i len L =
     (if i < len then
        bindr (if i mod 8 = 0 then logging_printf E LOGGING_DEBUG [CHR 0x0A] L else Inr L) (\<lambda>L.
        bindr (mem_get buffer i) (\<lambda>c.
        bindr (logging_printf E LOGGING_DEBUG (dump_byte c) L) (\<lambda>L.
        hex_dump_loop E buffer (Suc i) len L)))
      else Inr L)"
  by pat_completeness auto

termination
  by (relation "measure (\<lambda>(E, buffer, i, len, L). len - i)") auto

declare hex_dump_loop.simps [simp del]

text \<open>\<open>p\<close> is the text of \<^verbatim>\<open>%p\<close>. The macros \<^verbatim>\<open>DEBUG_ONLY\<close> and \<^verbatim>\<open>HEX_DUMP_ENABLED\<close> return.\<close>

definition hex_dump :: "log_env \<Rightarrow> string \<Rightarrow> bytes option \<Rightarrow> nat \<Rightarrow> utils \<times> logging \<Rightarrow> (utils \<times> logging) result" where
  "hex_dump E p buffer len UL =
     (let (U, L) = UL in
      if \<not> LOGGING_DEBUG_ENABLED L then Inr (U, L)
      else if \<not> LOGGING_HEX_DUMP_ENABLED L then Inr (U, L)
      else
        bindr (utils_lock U) (\<lambda>U.
        bindr (logging_prefix_disable L) (\<lambda>L.
        bindr (logging_printf E LOGGING_DEBUG (''hex_dump('' @ p @ '' , '' @ decimal len @ '')'' @ [CHR 0x0A]) L) (\<lambda>L.
        case buffer of None \<Rightarrow> bindr (utils_unlock U) (\<lambda>U. Inr (U, L))
        | Some b \<Rightarrow>
            if len = 0 then bindr (utils_unlock U) (\<lambda>U. Inr (U, L))
            else
              bindr (hex_dump_loop E b 0 len L) (\<lambda>L.
              bindr (logging_printf E LOGGING_DEBUG [CHR 0x0A] L) (\<lambda>L.
              bindr (logging_printf E LOGGING_DEBUG (''-- end hex_dump'' @ [CHR 0x0A]) L) (\<lambda>L.
              bindr (logging_prefix_enable L) (\<lambda>L.
              bindr (utils_unlock U) (\<lambda>U. Inr (U, L))))))))))"

section \<open>Files\<close>

text \<open>What \<^verbatim>\<open>stat\<close> answers: an error number or the mode.\<close>

datatype stat_answer = Stat_Error int | Stat_Mode "32 word"

definition ENOENT :: int where "ENOENT = 2"

definition S_ISREG :: "32 word \<Rightarrow> bool" where
  "S_ISREG mode \<longleftrightarrow> and mode 0xF000 = 0x8000"

text \<open>The message gives \<^verbatim>\<open>errno\<close> to \<^verbatim>\<open>%s\<close>: where it is written, the number is taken for an address.\<close>

definition check_file_security :: "(string \<Rightarrow> stat_answer) \<Rightarrow> string option \<Rightarrow> logging \<Rightarrow> (bool \<times> logging) result" where
  "check_file_security stat filepath L =
     (case filepath of None \<Rightarrow> Inr (False, L)
      | Some path \<Rightarrow>
          (case stat path of
             Stat_Error errno \<Rightarrow>
               if errno = ENOENT then Inr (True, L)
               else if lg_enabled L \<and> lg_threshold L \<le> LOGGING_ERROR then Inl OutOfBounds
               else Inr (False, L)
           | Stat_Mode mode \<Rightarrow>
               if \<not> S_ISREG mode \<or> and mode (or 0x40 (or 8 1)) \<noteq> 0 then Inr (False, L)
               else Inr (True, L)))"

section \<open>Lemmas\<close>

lemma prefix_switch_ok:
  assumes "log_wf L"
  shows "logging_prefix_disable L = Inr (L\<lparr>lg_prefix_disabled := True\<rparr>)"
    "logging_prefix_enable L = Inr (L\<lparr>lg_prefix_disabled := False\<rparr>)"
  using assms
  by (cases L, simp add: log_wf_def logging_prefix_disable_def logging_prefix_enable_def logging_lock_def logging_unlock_def)+

text \<open>The state while a dump is written, and the texts written so far.\<close>

definition dumping :: "logging \<Rightarrow> bool" where
  "dumping L \<longleftrightarrow> log_wf L \<and> lg_enabled L \<and> lg_threshold L = LOGGING_DEBUG \<and> lg_prefix_disabled L"

definition log_texts :: "logging \<Rightarrow> string list" where
  "log_texts L = map snd (lg_out L)"

lemma dump_message:
  assumes "dumping L" "le_write E"
  shows "\<exists>L'. logging_printf E LOGGING_DEBUG t L = Inr L' \<and> dumping L' \<and> log_texts L' = log_texts L @ [t]"
proof -
  from assms(1) have wf: "log_wf L" and en: "lg_enabled L" "lg_threshold L = 0" "lg_prefix_disabled L"
    by (simp_all add: dumping_def LOGGING_DEBUG_def)
  note ok = logging_printf_ok [OF wf, of 0 E t]
  have "dumping (after_message E 0 t L)" "log_texts (after_message E 0 t L) = log_texts L @ [t]"
    using ok(2) reopened_wf [OF wf en(1), of E] en assms(2)
    by (simp_all add: dumping_def LOGGING_DEBUG_def after_message_def message_def log_texts_def)
  with ok(1) show ?thesis by (simp add: LOGGING_DEBUG_def)
qed

definition dump_lines :: "bytes \<Rightarrow> nat \<Rightarrow> string list" where
  "dump_lines b i = (if i mod 8 = 0 then [[CHR 0x0A]] else []) @ [dump_byte (b ! i)]"

lemma hex_dump_loop_ok:
  assumes "dumping L" "le_write E" "len \<le> length b"
  shows "\<exists>L'. hex_dump_loop E b i len L = Inr L' \<and> dumping L' \<and>
    log_texts L' = log_texts L @ concat (map (dump_lines b) [i..<len])"
  using assms
proof (induction E b i len L rule: hex_dump_loop.induct)
  case (1 E buffer i len L)
  show ?case
  proof (cases "i < len")
    case False
    with "1.prems"(1) show ?thesis by (simp add: hex_dump_loop.simps)
  next
    case True
    from dump_message [OF "1.prems"(1,2)] "1.prems"(1) obtain L1 where
      L1: "(if i mod 8 = 0 then logging_printf E LOGGING_DEBUG [CHR 0x0A] L else Inr L) = Inr L1" "dumping L1"
      "log_texts L1 = log_texts L @ (if i mod 8 = 0 then [[CHR 0x0A]] else [])"
      by (cases "i mod 8 = 0") fastforce+
    from True "1.prems"(3) have rd: "mem_get buffer i = Inr (buffer ! i)" by (simp add: mem_get_def)
    from dump_message [OF L1(2) "1.prems"(2), of "dump_byte (buffer ! i)"] obtain L2 where
      L2: "logging_printf E LOGGING_DEBUG (dump_byte (buffer ! i)) L1 = Inr L2" "dumping L2"
      "log_texts L2 = log_texts L1 @ [dump_byte (buffer ! i)]" by (elim exE conjE)
    have "\<exists>L'. hex_dump_loop E buffer (Suc i) len L2 = Inr L' \<and> dumping L' \<and>
        log_texts L' = log_texts L2 @ concat (map (dump_lines buffer) [Suc i..<len])"
      by (rule "1.IH" [OF True L1(1) rd L2(1) L2(2) "1.prems"(2,3)])
    then show ?thesis using True
      by (subst hex_dump_loop.simps) (simp add: L1 rd L2 dump_lines_def upt_conv_Cons)
  qed
qed

text \<open>What a dump writes.\<close>

definition dump_text :: "string \<Rightarrow> bytes option \<Rightarrow> nat \<Rightarrow> string list" where
  "dump_text p buffer len =
     (''hex_dump('' @ p @ '' , '' @ decimal len @ '')'' @ [CHR 0x0A]) #
     (case buffer of None \<Rightarrow> []
      | Some b \<Rightarrow> if len = 0 then []
                 else concat (map (dump_lines b) [0..<len]) @ [[CHR 0x0A], ''-- end hex_dump'' @ [CHR 0x0A]])"

section \<open>Properties\<close>

text \<open>C40: With dumps enabled, the dump of a buffer of at least the given length reads no further than that length
  and writes its head, each byte in its order with a new line before every eighth, and its end; no lock stays held.
  The prefix of the messages is on again afterwards exactly when there were bytes to write: after the dump of an empty
  buffer or of none, every later message is written without its time, thread and level.\<close>

theorem hex_dump_complete:
  assumes "log_wf L" "LOGGING_HEX_DUMP_ENABLED L" "le_write E" "\<not> ut_held U"
    and "case buffer of None \<Rightarrow> True | Some b \<Rightarrow> len \<le> length b"
  shows "\<exists>L'. hex_dump E p buffer len (U, L) = Inr (U, L') \<and> log_wf L' \<and> log_texts L' = log_texts L @ dump_text p buffer len \<and>
    (lg_prefix_disabled L' \<longleftrightarrow> buffer = None \<or> len = 0)"
proof -
  from assms(2) have en: "lg_enabled L" "lg_threshold L = LOGGING_DEBUG" "LOGGING_DEBUG_ENABLED L"
    by (simp_all add: LOGGING_HEX_DUMP_ENABLED_def LOGGING_DEBUG_ENABLED_def)
  let ?L = "L\<lparr>lg_prefix_disabled := True\<rparr>" and ?h = "''hex_dump('' @ p @ '' , '' @ decimal len @ '')'' @ [CHR 0x0A]"
  from assms(4) have lk: "utils_lock U = Inr (U\<lparr>ut_held := True\<rparr>)" "utils_unlock (U\<lparr>ut_held := True\<rparr>) = Inr U"
    by (cases U, simp add: utils_lock_def utils_unlock_def)+
  have "dumping ?L" "log_texts ?L = log_texts L" using assms(1) en by (simp_all add: dumping_def log_wf_def log_texts_def)
  with dump_message [OF _ assms(3), of ?L ?h] obtain L1 where
    L1: "logging_printf E LOGGING_DEBUG ?h ?L = Inr L1" "dumping L1" "log_texts L1 = log_texts L @ [?h]" by auto
  show ?thesis
  proof (cases "buffer = None \<or> len = 0")
    case True
    with L1 show ?thesis
      by (auto simp: hex_dump_def en assms(2) lk prefix_switch_ok [OF assms(1)] dump_text_def dumping_def split: option.splits)
  next
    case False
    then obtain b where b: "buffer = Some b" "len \<noteq> 0" by auto
    with assms(5) have "len \<le> length b" by simp
    from hex_dump_loop_ok [OF L1(2) assms(3) this, of 0] obtain L2 where
      L2: "hex_dump_loop E b 0 len L1 = Inr L2" "dumping L2"
      "log_texts L2 = log_texts L1 @ concat (map (dump_lines b) [0..<len])" by (elim exE conjE)
    from dump_message [OF L2(2) assms(3), of "[CHR 0x0A]"] obtain L3 where
      L3: "logging_printf E LOGGING_DEBUG [CHR 0x0A] L2 = Inr L3" "dumping L3" "log_texts L3 = log_texts L2 @ [[CHR 0x0A]]"
      by (elim exE conjE)
    from dump_message [OF L3(2) assms(3), of "''-- end hex_dump'' @ [CHR 0x0A]"] obtain L4 where
      L4: "logging_printf E LOGGING_DEBUG (''-- end hex_dump'' @ [CHR 0x0A]) L3 = Inr L4" "dumping L4"
      "log_texts L4 = log_texts L3 @ [''-- end hex_dump'' @ [CHR 0x0A]]" by (elim exE conjE)
    from L4(2) have wf: "log_wf L4" by (simp add: dumping_def)
    then have "log_wf (L4\<lparr>lg_prefix_disabled := False\<rparr>)" by (simp add: log_wf_def)
    moreover have "hex_dump E p buffer len (U, L) = Inr (U, L4\<lparr>lg_prefix_disabled := False\<rparr>)"
      using b L1(1) L2(1) L3(1) L4(1)
      by (simp add: hex_dump_def en assms(2) lk prefix_switch_ok [OF assms(1)] prefix_switch_ok [OF wf])
    moreover have "log_texts (L4\<lparr>lg_prefix_disabled := False\<rparr>) = log_texts L @ dump_text p buffer len"
      using b L1(3) L2(3) L3(3) L4(3) by (simp add: log_texts_def dump_text_def)
    ultimately show ?thesis using b by simp
  qed
qed

definition log_example :: logging where
  "log_example = logging_start\<lparr>lg_enabled := True, lg_threshold := 0, lg_hex_dump := True, lg_fp := Some Stderr\<rparr>"

lemma hex_dump_complete_witness:
  "\<exists>L'. hex_dump (log_env_example 1) ''0x1'' (Some [0x41, 0x0A]) 2 (\<lparr>ut_held = False, ut_seed = 1\<rparr>, log_example) =
      Inr (\<lparr>ut_held = False, ut_seed = 1\<rparr>, L') \<and> log_wf L' \<and>
    log_texts L' = [''hex_dump(0x1 , 2)'' @ [CHR 0x0A], [CHR 0x0A], ''41 A'' @ [CHR 0x09], ''0a .'' @ [CHR 0x09],
      [CHR 0x0A], ''-- end hex_dump'' @ [CHR 0x0A]] \<and> \<not> lg_prefix_disabled L'"
proof -
  have ok: "log_wf log_example" "LOGGING_HEX_DUMP_ENABLED log_example" "le_write (log_env_example 1)"
    by (simp_all add: log_wf_def log_example_def logging_start_def LOGGING_HEX_DUMP_ENABLED_def LOGGING_DEBUG_ENABLED_def
        LOGGING_DEBUG_def log_env_example_def)
  have t: "log_texts log_example @ dump_text ''0x1'' (Some [0x41, 0x0A]) 2 =
      [''hex_dump(0x1 , 2)'' @ [CHR 0x0A], [CHR 0x0A], ''41 A'' @ [CHR 0x09], ''0a .'' @ [CHR 0x09],
      [CHR 0x0A], ''-- end hex_dump'' @ [CHR 0x0A]]" by code_simp
  from hex_dump_complete [OF ok, where U = "\<lparr>ut_held = False, ut_seed = 1\<rparr>" and buffer = "Some [0x41, 0x0A]" and len = 2 and p = "''0x1''"]
  show ?thesis unfolding t by simp
qed

text \<open>The dump of nothing leaves the prefix off.\<close>

lemma hex_dump_empty:
  "\<exists>L'. hex_dump (log_env_example 1) ''(nil)'' None 0 (\<lparr>ut_held = False, ut_seed = 1\<rparr>, log_example) =
      Inr (\<lparr>ut_held = False, ut_seed = 1\<rparr>, L') \<and> lg_prefix_disabled L'"
  by (rule exI [of _ "log_example\<lparr>lg_prefix_disabled := True, lg_out := [(Stderr, ''hex_dump((nil) , 0)'' @ [CHR 0x0A])]\<rparr>"]) code_simp

text \<open>A file that cannot be looked at faults where errors are written.\<close>

lemma check_file_security_error:
  "stat path = Stat_Error errno \<Longrightarrow> errno \<noteq> ENOENT \<Longrightarrow> lg_enabled L \<Longrightarrow> lg_threshold L \<le> LOGGING_ERROR \<Longrightarrow>
    check_file_security stat (Some path) L = Inl OutOfBounds"
  by (simp add: check_file_security_def)

lemma check_file_security_regular:
  assumes "stat path = Stat_Mode mode"
  shows "check_file_security stat (Some path) L = Inr (S_ISREG mode \<and> and mode 0x49 = 0, L)"
  using assms by (auto simp: check_file_security_def)

end
