(* ===== verification/Command_Line.thy ===== *)
theory Command_Line
  imports Config
begin

text \<open>
  The start of the configuration (\<^verbatim>\<open>config_init\<close> in \<^verbatim>\<open>raveloxmidi_config.c\<close>): defaults, then the options of
  the command line, then the file. \<^verbatim>\<open>getopt_long\<close> is the library's: its successive answers, an option's letter and
  \<^verbatim>\<open>optarg\<close>, are a list. Reading a file is a function from names to contents.
\<close>

section \<open>Options\<close>

text \<open>A function that may end the process.\<close>

datatype 'a outcome = Exits int | Returns 'a

definition CONFIG_DUMP :: int where "CONFIG_DUMP = 1"
definition CONFIG_DUMP_EXIT :: int where "CONFIG_DUMP_EXIT = 2"

definition config_option ::
    "char \<Rightarrow> string option \<Rightarrow> int \<times> kv_table option \<Rightarrow> (int \<times> kv_table option) outcome result" where
  "config_option c optarg s =
     (let (dump_config, items) = s;
          add = (\<lambda>key value items. config_add_item mem_ok items (Some key) value);
          return = (\<lambda>items. Inr (Returns (dump_config, items))) in
      if c = CHR ''?'' then Inr (Exits 0)
      else if c = CHR ''c'' then bindr (add ''config.file'' optarg items) return
      else if c = CHR ''i'' then
        bindr (add ''logging.enabled'' (Some ''yes'') items) (\<lambda>items.
        bindr (add ''logging.log_level'' (Some ''info'') items) return)
      else if c = CHR ''d'' then
        bindr (add ''logging.enabled'' (Some ''yes'') items) (\<lambda>items.
        bindr (add ''logging.log_level'' (Some ''debug'') items) (\<lambda>items.
        Inr (Returns (CONFIG_DUMP, items))))
      else if c = CHR ''h'' then Inr (Exits 0)
      else if c = CHR ''v'' then Inr (Exits 0)
      else if c = CHR ''N'' then bindr (add ''run_as_daemon'' (Some ''no'') items) return
      else if c = CHR ''P'' then bindr (add ''daemon.pid_file'' optarg items) return
      else if c = CHR ''R'' then bindr (add ''readonly'' (Some ''yes'') items) return
      else if c = CHR ''C'' then Inr (Returns (CONFIG_DUMP_EXIT, items))
      else return items)"

fun config_options ::
    "(char \<times> string option) list \<Rightarrow> int \<times> kv_table option \<Rightarrow> (int \<times> kv_table option) outcome result" where
  "config_options [] s = Inr (Returns s)"
| "config_options ((c, optarg) # cs) s =
     bindr (config_option c optarg s) (\<lambda>r. case r of Exits n \<Rightarrow> Inr (Exits n) | Returns s \<Rightarrow> config_options cs s)"

definition config_init ::
    "alloc \<Rightarrow> string option \<Rightarrow> bool \<Rightarrow> (string \<Rightarrow> string option) \<Rightarrow> (char \<times> string option) list \<Rightarrow>
     (int \<times> kv_table option) outcome result" where
  "config_init A junk have_alsa read_file options =
     (case kv_table_create A junk (Some ''config_items'') of None \<Rightarrow> Inr (Exits 1)
      | Some t \<Rightarrow>
          bindr (config_set_defaults have_alsa t) (\<lambda>t.
          bindr (config_options options (0, Some t)) (\<lambda>r.
          case r of Exits n \<Rightarrow> Inr (Exits n)
          | Returns (dump_config, items) \<Rightarrow>
              bindr (config_string_get items (Some ''config.file'')) (\<lambda>filename.
              bindr (config_load_file items filename (case filename of None \<Rightarrow> None | Some f \<Rightarrow> read_file f)) (\<lambda>items.
              Inr (Returns (dump_config, items)))))))"

section \<open>Items\<close>

lemma last_value_append: "last_value (xs @ ys) k d = last_value ys k (last_value xs k d)"
  by (induction xs k d rule: last_value.induct) simp_all

text \<open>A table that holds what a list of items says.\<close>

definition holds :: "(string \<times> string option) list \<Rightarrow> kv_table option \<Rightarrow> bool" where
  "holds kvs items \<longleftrightarrow> items \<noteq> None \<and> config_ok items \<and> (\<forall>k. config_value items k = last_value kvs k None)"

lemma config_add_holds:
  assumes "holds kvs items" "key \<noteq> []"
  shows "\<exists>items'. config_add_item mem_ok items (Some key) v = Inr items' \<and> holds (kvs @ [(key, v)]) items'"
proof -
  from assms(1) obtain t where t: "items = Some t" "kv_wf t" "\<And>k. kv_map t k = last_value kvs k None"
    by (auto simp: holds_def config_ok_def config_value_def)
  from kv_add_item_map [OF t(2) assms(2), of v] obtain t' where
    t': "kv_add_item mem_ok (Some t) (Some key) v = Inr (Some t')" "kv_wf t'"
    "\<And>k. kv_map t' k = (if fold_case k = fold_case key then v else kv_map t k)" by auto
  then show ?thesis
    by (intro exI [of _ "Some t'"]) (simp add: config_add_item_def holds_def config_ok_def config_value_def t last_value_append)
qed

lemma config_add_empty: "config_add_item mem_ok (Some t) (Some []) value = Inr (Some t)"
  by (simp add: config_add_item_def kv_add_item_def)

text \<open>What an option and a line of the file add.\<close>

definition option_items :: "char \<times> string option \<Rightarrow> (string \<times> string option) list" where
  "option_items ca =
     (let (c, optarg) = ca in
      if c = CHR ''c'' then [(''config.file'', optarg)]
      else if c = CHR ''i'' then [(''logging.enabled'', Some ''yes''), (''logging.log_level'', Some ''info'')]
      else if c = CHR ''d'' then [(''logging.enabled'', Some ''yes''), (''logging.log_level'', Some ''debug'')]
      else if c = CHR ''N'' then [(''run_as_daemon'', Some ''no'')]
      else if c = CHR ''P'' then [(''daemon.pid_file'', optarg)]
      else if c = CHR ''R'' then [(''readonly'', Some ''yes'')] else [])"

fun options_dump :: "(char \<times> string option) list \<Rightarrow> int \<Rightarrow> int" where
  "options_dump [] dump = dump"
| "options_dump ((c, optarg) # cs) dump =
     options_dump cs (if c = CHR ''d'' then CONFIG_DUMP else if c = CHR ''C'' then CONFIG_DUMP_EXIT else dump)"

definition option_runs :: "char \<times> string option \<Rightarrow> bool" where
  "option_runs ca \<longleftrightarrow> fst ca \<notin> {CHR ''?'', CHR ''h'', CHR ''v''}"

lemma config_option_holds:
  assumes "holds kvs items" "option_runs (c, optarg)"
  shows "\<exists>items'. config_option c optarg (dump, items) =
      Inr (Returns (options_dump [(c, optarg)] dump, items')) \<and> holds (kvs @ option_items (c, optarg)) items'"
proof -
  note add = config_add_holds [OF assms(1)]
  have two: "\<exists>i1 i2. config_add_item mem_ok items (Some ''logging.enabled'') (Some ''yes'') = Inr i1 \<and>
      config_add_item mem_ok i1 (Some ''logging.log_level'') level = Inr i2 \<and>
      holds (kvs @ [(''logging.enabled'', Some ''yes''), (''logging.log_level'', level)]) i2" for level
  proof -
    from add [of "''logging.enabled''" "Some ''yes''"] obtain i1 where
      i1: "config_add_item mem_ok items (Some ''logging.enabled'') (Some ''yes'') = Inr i1"
      "holds (kvs @ [(''logging.enabled'', Some ''yes'')]) i1" by auto
    from config_add_holds [OF i1(2), of "''logging.log_level''" level] i1(1) show ?thesis by fastforce
  qed
  consider "c = CHR ''c''" | "c = CHR ''i''" | "c = CHR ''d''" | "c = CHR ''N''" | "c = CHR ''P''" | "c = CHR ''R''"
    | "c = CHR ''C''" | "c \<notin> {CHR ''c'', CHR ''i'', CHR ''d'', CHR ''N'', CHR ''P'', CHR ''R'', CHR ''C''}" by auto
  then show ?thesis
  proof cases
    case 1
    with add [of "''config.file''" optarg] show ?thesis by (auto simp: config_option_def option_items_def)
  next
    case 2
    with two [of "Some ''info''"] show ?thesis by (auto simp: config_option_def option_items_def)
  next
    case 3
    with two [of "Some ''debug''"] show ?thesis by (auto simp: config_option_def option_items_def)
  next
    case 4
    with add [of "''run_as_daemon''" "Some ''no''"] show ?thesis by (auto simp: config_option_def option_items_def)
  next
    case 5
    with add [of "''daemon.pid_file''" optarg] show ?thesis by (auto simp: config_option_def option_items_def)
  next
    case 6
    with add [of "''readonly''" "Some ''yes''"] show ?thesis by (auto simp: config_option_def option_items_def)
  next
    case 7
    with assms(1) show ?thesis by (simp add: config_option_def option_items_def)
  next
    case 8
    with assms show ?thesis by (simp add: config_option_def option_items_def option_runs_def)
  qed
qed

lemma config_options_holds:
  assumes "holds kvs items" "\<forall>ca \<in> set options. option_runs ca"
  shows "\<exists>items'. config_options options (dump, items) = Inr (Returns (options_dump options dump, items')) \<and>
    holds (kvs @ concat (map option_items options)) items'"
  using assms
proof (induction options arbitrary: kvs items dump)
  case (Cons ca options)
  obtain c optarg where ca: "ca = (c, optarg)" by fastforce
  from Cons.prems have "option_runs (c, optarg)" by (simp add: ca)
  from config_option_holds [OF Cons.prems(1) this, of dump] obtain items1 where
    i: "config_option c optarg (dump, items) = Inr (Returns (options_dump [(c, optarg)] dump, items1))"
    "holds (kvs @ option_items (c, optarg)) items1" by (elim exE conjE)
  from Cons.IH [OF i(2), of "options_dump [(c, optarg)] dump"] Cons.prems(2) show ?case by (simp add: ca i(1))
qed simp

definition line_text :: "string \<Rightarrow> string" where
  "line_text line = strip_end (cstr (line @ [CHR 0x00]))"

definition line_items :: "string \<Rightarrow> (string \<times> string option) list" where
  "line_items line =
     (case line_parts (line_text line) of None \<Rightarrow> [] | Some (k, v) \<Rightarrow> if k = [] then [] else [(k, Some v)])"

lemma config_load_lines_holds:
  assumes "holds kvs items" "\<forall>line \<in> set lines. line_text line \<noteq> []"
  shows "\<exists>items'. config_load_lines items lines = Inr items' \<and> holds (kvs @ concat (map line_items lines)) items'"
  using assms
proof (induction lines arbitrary: kvs items)
  case (Cons line lines)
  from Cons.prems(2) have p: "config_parse_line line = Inr (line_parts (line_text line))"
    using config_parse_line_parts [of line "line_text line"] by (simp add: line_text_def)
  show ?case
  proof (cases "line_parts (line_text line)")
    case None
    with Cons.IH [OF Cons.prems(1)] Cons.prems(2) p show ?thesis by (simp add: line_items_def)
  next
    case (Some kv)
    obtain k v where kv: "kv = (k, v)" by fastforce
    show ?thesis
    proof (cases "k = []")
      case True
      from Cons.prems(1) obtain t where "items = Some t" by (auto simp: holds_def)
      with True Some kv Cons.IH [OF Cons.prems(1)] Cons.prems(2) p show ?thesis
        by (simp add: line_items_def config_add_empty)
    next
      case False
      from config_add_holds [OF Cons.prems(1) this, of "Some v"] obtain items1 where
        i: "config_add_item mem_ok items (Some k) (Some v) = Inr items1" "holds (kvs @ [(k, Some v)]) items1" by (elim exE conjE)
      from Cons.IH [OF i(2)] Cons.prems(2) False Some kv p i(1) show ?thesis by (simp add: line_items_def)
    qed
  qed
qed simp

lemma config_defaults_keys: "\<forall>(k, v)\<in>set (config_default_items have_alsa). k \<noteq> []"
  by (cases have_alsa) (simp_all add: config_default_items_def)

lemma config_set_defaults_holds:
  assumes "kv_table_create mem_ok junk name = Some t"
  shows "\<exists>t'. config_set_defaults have_alsa t = Inr t' \<and> holds (config_default_items have_alsa) (Some t')"
proof -
  have "kv_wf t" "kv_map t k = None" for k
    using assms by (auto simp: kv_table_create_def kv_wf_def kv_map_def kv_list_def)
  with kv.add_all_get [of t "config_default_items have_alsa"] config_defaults_keys [of have_alsa] obtain t' where
    t': "add_all kv_put (config_default_items have_alsa) t = Inr t'" "kv_wf t'"
    "\<forall>k. kv_get_value (Some t') (Some k) = Inr (last_value (config_default_items have_alsa) k None)" by auto
  then have "kv_map t' k = last_value (config_default_items have_alsa) k None" for k
    using kv_get_value_map [OF t'(2), of k] by simp
  with t'(1,2) show ?thesis by (auto simp: config_set_defaults_def holds_def config_ok_def config_value_def)
qed

definition file_items :: "(string \<Rightarrow> string option) \<Rightarrow> string option \<Rightarrow> (string \<times> string option) list" where
  "file_items read_file filename =
     (case filename of None \<Rightarrow> []
      | Some f \<Rightarrow> (case read_file f of None \<Rightarrow> [] | Some s \<Rightarrow> concat (map line_items (fgets_lines MAX_CONFIG_LINE s))))"

lemma config_init_values:
  assumes "\<forall>ca \<in> set options. option_runs ca"
    and "\<forall>f s. read_file f = Some s \<longrightarrow> (\<forall>line \<in> set (fgets_lines MAX_CONFIG_LINE s). line_text line \<noteq> [])"
    and "given = config_default_items have_alsa @ concat (map option_items options)"
  shows "\<exists>items. config_init mem_ok junk have_alsa read_file options = Inr (Returns (options_dump options 0, items)) \<and>
    config_ok items \<and>
    (\<forall>k. config_value items k = last_value (given @ file_items read_file (last_value given ''config.file'' None)) k None)"
proof -
  obtain t where t: "kv_table_create mem_ok junk (Some ''config_items'') = Some t" by (simp add: kv_table_create_def)
  from config_set_defaults_holds [OF t, of have_alsa] obtain t1 where
    t1: "config_set_defaults have_alsa t = Inr t1" "holds (config_default_items have_alsa) (Some t1)" by (elim exE conjE)
  from config_options_holds [OF t1(2) assms(1), of 0] obtain items where
    i: "config_options options (0, Some t1) = Inr (Returns (options_dump options 0, items))" "holds given items"
    unfolding assms(3) by (elim exE conjE)
  let ?f = "last_value given ''config.file'' None"
  from i(2) have f: "config_string_get items (Some ''config.file'') = Inr ?f"
    by (simp add: holds_def config_string_value)
  have "\<exists>items'. config_load_file items ?f (case ?f of None \<Rightarrow> None | Some f \<Rightarrow> read_file f) = Inr items' \<and>
      holds (given @ file_items read_file ?f) items'"
  proof (cases ?f)
    case None
    with i(2) show ?thesis by (simp add: config_load_file_def file_items_def)
  next
    case (Some f)
    show ?thesis
    proof (cases "read_file f")
      case None
      with Some i(2) show ?thesis by (simp add: config_load_file_def file_items_def)
    next
      case s: (Some s)
      with assms(2) have "\<forall>line \<in> set (fgets_lines MAX_CONFIG_LINE s). line_text line \<noteq> []" by blast
      from config_load_lines_holds [OF i(2) this] Some s show ?thesis by (simp add: config_load_file_def file_items_def)
    qed
  qed
  then obtain items' where "config_load_file items ?f (case ?f of None \<Rightarrow> None | Some f \<Rightarrow> read_file f) = Inr items'"
    "holds (given @ file_items read_file ?f) items'" by (elim exE conjE)
  then show ?thesis
    by (intro exI [of _ items']) (simp add: config_init_def t t1(1) i(1) f holds_def)
qed

section \<open>Properties\<close>

text \<open>C17: Whatever options of the command line are given, as long as none ends the process, and for any file without
  a blank line, the configuration starts without a fault and the value of every key is the one of the last of these
  that sets it, case ignored: the defaults, the options in their order, and the lines of the file that the options name,
  in theirs. So a line of the file undoes an option of the command line.\<close>

theorem config_init_precedence:
  assumes "\<forall>ca \<in> set options. option_runs ca"
    and "\<forall>f s. read_file f = Some s \<longrightarrow> (\<forall>line \<in> set (fgets_lines MAX_CONFIG_LINE s). line_text line \<noteq> [])"
    and "given = config_default_items have_alsa @ concat (map option_items options)"
  shows "\<exists>items. config_init mem_ok junk have_alsa read_file options = Inr (Returns (options_dump options 0, items)) \<and>
    config_ok items \<and>
    (\<forall>k. config_value items k = last_value (given @ file_items read_file (last_value given ''config.file'' None)) k None)"
  by (rule config_init_values [OF assms])

text \<open>The option that keeps the process in the foreground, and a file that says otherwise.\<close>

lemma config_init_precedence_witness:
  "\<exists>items. config_init mem_ok None False (\<lambda>f. if f = ''f'' then Some (''run_as_daemon = yes'' @ [CHR 0x0A]) else None)
      [(CHR ''c'', Some ''f''), (CHR ''N'', None)] = Inr (Returns (0, items)) \<and>
    config_value items ''run_as_daemon'' = Some ''yes''"
proof -
  let ?r = "\<lambda>f. if f = ''f'' then Some (''run_as_daemon = yes'' @ [CHR 0x0A]) else None"
  let ?o = "[(CHR ''c'', Some ''f''), (CHR ''N'', None)]"
  let ?g = "config_default_items False @ concat (map option_items ?o)"
  have l: "fgets_lines MAX_CONFIG_LINE (''run_as_daemon = yes'' @ [CHR 0x0A]) = [''run_as_daemon = yes'' @ [CHR 0x0A]]" by code_simp
  have n: "line_text (''run_as_daemon = yes'' @ [CHR 0x0A]) \<noteq> []" by code_simp
  have "\<forall>f s. ?r f = Some s \<longrightarrow> (\<forall>line \<in> set (fgets_lines MAX_CONFIG_LINE s). line_text line \<noteq> [])"
    using l n by (auto split: if_splits)
  moreover have "\<forall>ca \<in> set ?o. option_runs ca" by code_simp
  moreover have "last_value (?g @ file_items ?r (last_value ?g ''config.file'' None)) ''run_as_daemon'' None = Some ''yes''" by code_simp
  moreover have "options_dump ?o 0 = 0" by code_simp
  ultimately show ?thesis using config_init_precedence [of ?o ?r ?g False None] by auto
qed

end
