(* ===== verification/Main_Program.thy ===== *)
theory Main_Program
  imports Command_Line Utils "HOL-Library.Sublist"
begin

text \<open>
  The daemon (\<^verbatim>\<open>daemon.c\<close>) and the main program (\<^verbatim>\<open>raveloxmidi.c\<close>): what a process does when it goes to the
  background, and the order in which the parts are started and stopped. Configuration and logging are the functions of
  their theories; the other parts are the names of their calls, with what they answer as an argument.
\<close>

section \<open>The daemon\<close>

text \<open>The answers of the system to one process: the two forks (negative for an error, 0 in the child, in the parent
  the number of the child), \<^verbatim>\<open>setsid\<close>, \<^verbatim>\<open>stat\<close>, whether the pid file can be written and removed.\<close>

record process =
  pr_fork1 :: int
  pr_setsid :: int
  pr_fork2 :: int
  pr_stat :: "string \<Rightarrow> stat_answer"
  pr_fopen :: bool

text \<open>The numbers written to the pid file are a list.\<close>

definition daemon_write_pid :: "kv_table option \<Rightarrow> process \<Rightarrow> string option \<Rightarrow> int list result" where
  "daemon_write_pid items R pid_file =
     bindr (config_string_get items (Some ''readonly'')) (\<lambda>readonly.
     if is_no readonly then
       bindr (deref pid_file) (\<lambda>_. Inr (if pr_fopen R then [pr_fork2 R] else []))
     else Inr [])"

definition daemon_start :: "kv_table option \<Rightarrow> process \<Rightarrow> logging \<Rightarrow> (int list \<times> logging outcome) result" where
  "daemon_start items R L =
     bindr (config_string_get items (Some ''daemon.pid_file'')) (\<lambda>pid_file.
     bindr (config_string_get items (Some ''security.check'')) (\<lambda>security.
     bindr (if is_yes security then check_file_security (pr_stat R) pid_file L else Inr (True, L)) (\<lambda>(secure, L).
     if \<not> secure then Inr ([], Exits 1)
     else if pr_fork1 R < 0 then Inr ([], Returns L)
     else if pr_fork1 R \<noteq> 0 then Inr ([], Exits 0)
     else if pr_setsid R < 0 then Inr ([], Exits 1)
     else if pr_fork2 R < 0 then Inr ([], Exits 1)
     else if pr_fork2 R \<noteq> 0 then bindr (daemon_write_pid items R pid_file) (\<lambda>w. Inr (w, Exits 0))
     else Inr ([], Returns L))))"

text \<open>The names of the files that are removed.\<close>

definition daemon_teardown :: "kv_table option \<Rightarrow> process \<Rightarrow> string list result" where
  "daemon_teardown items R =
     bindr (config_string_get items (Some ''daemon.pid_file'')) (\<lambda>pid_file_name.
     case pid_file_name of None \<Rightarrow> Inr []
     | Some n \<Rightarrow> (case pr_stat R n of Stat_Error e \<Rightarrow> Inr [] | Stat_Mode m \<Rightarrow> Inr [n]))"

section \<open>The main program\<close>

datatype call =
    Pthread_Tracking_Init | Mem_Tracking_Init | Utils_Init | Logging_Init | Config_Dump | Daemon_Start
  | Socket_Init | Alsa_Init | Ctx_Init | Publisher_Start | Loop_Init | Sender_Init | Sender_Start | Set_Signals
  | Discover_Init | Remote_Init | Discover_Teardown | Alsa_Loop | Fd_Loop | Wait_For_Alsa | Alsa_Teardown
  | Loop_Teardown | Publisher_Stop | Sender_Stop | Sender_Teardown | Remote_Teardown | Daemon_Teardown
  | Socket_Teardown | Ctx_Teardown | Config_Teardown | Logging_Teardown | Utils_Teardown | Mem_Tracking_Teardown
  | Pthread_Tracking_Teardown







section \<open>Processes\<close>

definition daemon_path_ok :: "kv_table option \<Rightarrow> (string \<Rightarrow> stat_answer) \<Rightarrow> bool" where
  "daemon_path_ok items stat \<longleftrightarrow>
     (\<exists>path. config_value items ''daemon.pid_file'' = Some path \<and>
       (is_yes (config_value items ''security.check'') \<longrightarrow>
         stat path = Stat_Error ENOENT \<or> (\<exists>mode. stat path = Stat_Mode mode \<and> S_ISREG mode \<and> and mode 0x49 = 0)))"

lemma daemon_start_secure:
  assumes "config_ok items" "daemon_path_ok items (pr_stat R)"
  obtains path where "config_value items ''daemon.pid_file'' = Some path"
    "\<And>L. (if is_yes (config_value items ''security.check'') then check_file_security (pr_stat R) (Some path) L else Inr (True, L)) =
      Inr (True, L)"
  using assms(2) by (auto simp: daemon_path_ok_def check_file_security_regular) (auto simp: check_file_security_def)

lemma daemon_start_eq:
  assumes "config_ok items" "daemon_path_ok items (pr_stat R)"
  shows "daemon_start items R L =
    (if pr_fork1 R < 0 then Inr ([], Returns L)
     else if pr_fork1 R \<noteq> 0 then Inr ([], Exits 0)
     else if pr_setsid R < 0 \<or> pr_fork2 R < 0 then Inr ([], Exits 1)
     else if pr_fork2 R \<noteq> 0 then
       Inr (if is_no (config_value items ''readonly'') \<and> pr_fopen R then [pr_fork2 R] else [], Exits 0)
     else Inr ([], Returns L))"
proof -
  from daemon_start_secure [OF assms] obtain path where p: "config_value items ''daemon.pid_file'' = Some path"
    "\<And>L. (if is_yes (config_value items ''security.check'') then check_file_security (pr_stat R) (Some path) L else Inr (True, L)) =
      Inr (True, L)" by blast
  show ?thesis
    unfolding daemon_start_def config_string_value [OF assms(1)] bindr.simps p
    by (simp add: daemon_write_pid_def config_string_value [OF assms(1)])
qed

section \<open>Starts and stops\<close>

text \<open>What each call that takes something is undone by, and the calls of a run that nothing undoes.\<close>

definition undone_by :: "(call \<times> call) list" where
  "undone_by =
     [(Pthread_Tracking_Init, Pthread_Tracking_Teardown), (Mem_Tracking_Init, Mem_Tracking_Teardown),
      (Utils_Init, Utils_Teardown), (Logging_Init, Logging_Teardown), (Daemon_Start, Daemon_Teardown),
      (Socket_Init, Socket_Teardown), (Alsa_Init, Alsa_Teardown), (Ctx_Init, Ctx_Teardown), (Publisher_Start, Publisher_Stop),
      (Loop_Init, Loop_Teardown), (Sender_Init, Sender_Teardown), (Sender_Start, Sender_Stop),
      (Discover_Init, Discover_Teardown), (Remote_Init, Remote_Teardown), (Alsa_Loop, Wait_For_Alsa)]"


text \<open>The one order in which every run makes its calls.\<close>

definition program_order :: "call list" where
  "program_order =
     [Pthread_Tracking_Init, Mem_Tracking_Init, Utils_Init, Logging_Init] @ [Config_Dump] @ [Daemon_Start] @ [Socket_Init] @
     [Alsa_Init] @ [Ctx_Init, Publisher_Start] @ [Loop_Init, Sender_Init, Sender_Start, Set_Signals] @
     [Discover_Init, Remote_Init, Discover_Teardown] @ [Alsa_Loop] @ [Fd_Loop] @ [Wait_For_Alsa, Alsa_Teardown] @
     [Loop_Teardown, Publisher_Stop, Sender_Stop, Sender_Teardown, Remote_Teardown] @ [Daemon_Teardown] @
     [Socket_Teardown, Ctx_Teardown, Config_Teardown, Logging_Teardown, Utils_Teardown, Mem_Tracking_Teardown,
      Pthread_Tracking_Teardown]"


fun before :: "'a \<Rightarrow> 'a \<Rightarrow> 'a list \<Rightarrow> bool" where
  "before x y [] \<longleftrightarrow> False"
| "before x y (z # zs) \<longleftrightarrow> (if z = x then y \<in> set zs else before x y zs)"

lemma program_order_ok:
  "distinct program_order" "\<forall>(i, t) \<in> set undone_by. before i t program_order"
  by code_simp+








section \<open>Runs\<close>












section \<open>Properties\<close>

text \<open>Of the processes that going to the background makes, the first and the second end and the third goes on;
  the pid file, where one may be written, is written once, by the second, with the number of the third.\<close>
theorem daemon_processes:
  assumes "config_ok items" "daemon_path_ok items stat" "pid1 > 0" "pid2 > 0" "sid \<ge> 0"
  shows "daemon_start items \<lparr>pr_fork1 = pid1, pr_setsid = sid, pr_fork2 = x, pr_stat = stat, pr_fopen = writable\<rparr> L = Inr ([], Exits 0) \<and>
    daemon_start items \<lparr>pr_fork1 = 0, pr_setsid = sid, pr_fork2 = pid2, pr_stat = stat, pr_fopen = writable\<rparr> L = Inr (if is_no (config_value items ''readonly'') \<and> writable then [pid2] else [], Exits 0) \<and>
    daemon_start items \<lparr>pr_fork1 = 0, pr_setsid = sid, pr_fork2 = 0, pr_stat = stat, pr_fopen = writable\<rparr> L = Inr ([], Returns L)"
  using assms by (simp add: daemon_start_eq)


definition daemon_file :: "string \<Rightarrow> string option" where
  "daemon_file f = (if f = ''f'' then Some (''network.bind_address = ::'' @ [CHR 0x0A] @ ''run_as_daemon = yes'' @ [CHR 0x0A]) else None)"


lemma daemon_file_ok:
  "\<forall>f s. daemon_file f = Some s \<longrightarrow> (\<forall>line \<in> set (fgets_lines MAX_CONFIG_LINE s). line_text line \<noteq> [])"
  "\<forall>ca \<in> set [(CHR ''c'', Some ''f'')]. option_runs ca"
proof -
  let ?s = "''network.bind_address = ::'' @ [CHR 0x0A] @ ''run_as_daemon = yes'' @ [CHR 0x0A]"
  have "\<forall>line \<in> set (fgets_lines MAX_CONFIG_LINE ?s). line_text line \<noteq> []" by code_simp
  then show "\<forall>f s. daemon_file f = Some s \<longrightarrow> (\<forall>line \<in> set (fgets_lines MAX_CONFIG_LINE s). line_text line \<noteq> [])"
    by (auto simp: daemon_file_def split: if_splits)
  show "\<forall>ca \<in> set [(CHR ''c'', Some ''f'')]. option_runs ca" by code_simp
qed

lemma daemon_file_values:
  obtains items where "config_init mem_ok None False daemon_file [(CHR ''c'', Some ''f'')] = Inr (Returns (0, items))"
    "config_ok items" "config_value items ''run_as_daemon'' = Some ''yes''" "config_value items ''daemon.pid_file'' = Some ''raveloxmidi.pid''"
    "config_value items ''network.bind_address'' = Some ''::''" "config_value items ''readonly'' = Some ''no''"
proof -
  let ?o = "[(CHR ''c'', Some ''f'')]"
  let ?g = "config_default_items False @ concat (map option_items ?o)"
  let ?all = "?g @ file_items daemon_file (last_value ?g ''config.file'' None)"
  have d: "options_dump ?o 0 = 0" by code_simp
  from config_init_values [OF daemon_file_ok(2,1) refl, of None False] obtain items where
    i: "config_init mem_ok None False daemon_file ?o = Inr (Returns (0, items))" "config_ok items"
    "\<And>k. config_value items k = last_value ?all k None" by (auto simp: d)
  have "last_value ?all ''run_as_daemon'' None = Some ''yes''" by code_simp
  moreover have "last_value ?all ''daemon.pid_file'' None = Some ''raveloxmidi.pid''" by code_simp
  moreover have "last_value ?all ''network.bind_address'' None = Some ''::''" by code_simp
  moreover have "last_value ?all ''readonly'' None = Some ''no''" by code_simp
  ultimately show thesis using that [OF i(1,2)] by (simp only: i(3))
qed


lemma daemon_processes_witness:
  "\<exists>items. config_init mem_ok None False daemon_file [(CHR ''c'', Some ''f'')] = Inr (Returns (0, items)) \<and>
    daemon_start items \<lparr>pr_fork1 = 0, pr_setsid = 9, pr_fork2 = 10, pr_stat = (\<lambda>f. Stat_Error ENOENT), pr_fopen = True\<rparr> log_example =
      Inr ([10], Exits 0)"
proof -
  obtain items where i: "config_init mem_ok None False daemon_file [(CHR ''c'', Some ''f'')] = Inr (Returns (0, items))"
    "config_ok items" "config_value items ''daemon.pid_file'' = Some ''raveloxmidi.pid''" "config_value items ''readonly'' = Some ''no''"
    by (rule daemon_file_values)
  then have "daemon_path_ok items (\<lambda>f. Stat_Error ENOENT)" by (simp add: daemon_path_ok_def)
  moreover have "is_no (Some ''no'')" by code_simp
  ultimately show ?thesis using daemon_processes [OF i(2), of "\<lambda>f. Stat_Error ENOENT" 9 10 9 0 True log_example] i by auto
qed

text \<open>The pid file is removed at the end whoever wrote it, also where the configuration forbids to write.\<close>

lemma daemon_teardown_readonly:
  assumes "config_ok items" "config_value items ''daemon.pid_file'' = Some path" "pr_stat R path = Stat_Mode mode"
  shows "daemon_teardown items R = Inr [path]"
  using assms by (simp add: daemon_teardown_def config_string_value)

end
