(* ===== verification/Dns_Publisher.thy ===== *)
theory Dns_Publisher
  imports Prelude
begin

text \<open>
  Publishing the service (\<^verbatim>\<open>dns_service_publisher.c\<close>). The Avahi library is a parameter: whether it makes
  its objects, what it answers to a name, the name it offers instead of one that is taken, and the states it reports,
  which are the events the callbacks answer. Of its objects the state has which are alive, and for the entry group what
  was added to it: a group is empty until something is added, and again after a reset or a collision.
\<close>

section \<open>State\<close>

datatype avahi_object = Poll | Client | Group

datatype avahi_protocol = PROTO_UNSPEC | PROTO_INET | PROTO_INET6

record published =
  pe_protocol :: avahi_protocol
  pe_name :: string
  pe_service :: string
  pe_port :: int

text \<open>The static variables, then the library's state.\<close>

record publisher =
  pb_group :: bool
  pb_threaded_poll :: bool
  pb_client :: bool
  pb_name :: "string option"
  pb_service :: "string option"
  pb_port :: int
  pb_ipv4 :: bool
  pb_ipv6 :: bool
  pb_live :: "avahi_object list"
  pb_entries :: "published list"
  pb_committed :: bool
  pb_started :: bool
  pb_quit :: bool

definition publisher_start :: publisher where
  "publisher_start = \<lparr>pb_group = False, pb_threaded_poll = False, pb_client = False, pb_name = None, pb_service = None,
     pb_port = 0, pb_ipv4 = False, pb_ipv6 = False, pb_live = [], pb_entries = [], pb_committed = False,
     pb_started = False, pb_quit = False\<rparr>"

record dns_service_desc =
  sd_name :: "string option"
  sd_service :: "string option"
  sd_port :: int
  sd_publish_ipv4 :: bool
  sd_publish_ipv6 :: bool

datatype add_answer = Added | Collides | Refused

text \<open>The answers of the library while a callback runs.\<close>

record avahi =
  av_group_new :: bool
  av_add :: "string \<Rightarrow> add_answer"
  av_commit :: bool
  av_alternative :: "string \<Rightarrow> string"

datatype group_state = Group_Established | Group_Collision | Group_Failure | Group_Uncommited | Group_Registering

datatype client_state = S_Running | Client_Failure | S_Collision | S_Registering | Client_Connecting

section \<open>Callbacks\<close>

definition quit :: "publisher \<Rightarrow> publisher" where
  "quit P = P\<lparr>pb_quit := True\<rparr>"

definition reset_group :: "publisher \<Rightarrow> publisher" where
  "reset_group P = P\<lparr>pb_entries := [], pb_committed := False\<rparr>"

definition service_protocol :: "bool \<Rightarrow> bool \<Rightarrow> avahi_protocol" where
  "service_protocol use_ipv4 use_ipv6 =
     (if use_ipv4 \<and> use_ipv6 then PROTO_UNSPEC else if use_ipv4 then PROTO_INET else PROTO_INET6)"

text \<open>As long as every name collides the function calls itself: then there is no result.\<close>

partial_function (option) create_services :: "avahi \<Rightarrow> publisher \<Rightarrow> publisher result option" where
  "create_services V P =
     (if \<not> pb_group P \<and> \<not> av_group_new V then Some (Inr (quit P))
      else
        let P = (if pb_group P then P else P\<lparr>pb_group := True, pb_live := Group # pb_live P\<rparr>) in
        if pb_entries P \<noteq> [] then Some (Inr P)
        else
          case pb_name P of None \<Rightarrow> Some (Inl NullDeref)
          | Some name \<Rightarrow>
              (case pb_service P of None \<Rightarrow> Some (Inl NullDeref)
               | Some service \<Rightarrow>
                   (case av_add V name of
                      Collides \<Rightarrow> create_services V (reset_group (P\<lparr>pb_name := Some (av_alternative V name)\<rparr>))
                    | Refused \<Rightarrow> Some (Inr (quit P))
                    | Added \<Rightarrow>
                        let P = P\<lparr>pb_entries := [\<lparr>pe_protocol = service_protocol (pb_ipv4 P) (pb_ipv6 P), pe_name = name,
                                   pe_service = service, pe_port = pb_port P\<rparr>]\<rparr> in
                        Some (Inr (if av_commit V then P\<lparr>pb_committed := True\<rparr> else quit P)))))"

declare create_services.simps [code]

text \<open>The library empties the group before it reports a collision.\<close>

definition entry_group_callback :: "avahi \<Rightarrow> group_state \<Rightarrow> publisher \<Rightarrow> publisher result option" where
  "entry_group_callback V state P =
     (let P = P\<lparr>pb_group := True\<rparr> in
      case state of
        Group_Established \<Rightarrow> Some (Inr P)
      | Group_Collision \<Rightarrow>
          (case pb_name P of None \<Rightarrow> Some (Inl NullDeref)
           | Some name \<Rightarrow> create_services V ((reset_group P)\<lparr>pb_name := Some (av_alternative V name)\<rparr>))
      | Group_Failure \<Rightarrow> Some (Inr (quit P))
      | Group_Uncommited \<Rightarrow> Some (Inr P)
      | Group_Registering \<Rightarrow> Some (Inr P))"

definition publish_callback :: "avahi \<Rightarrow> client_state \<Rightarrow> publisher \<Rightarrow> publisher result option" where
  "publish_callback V state P =
     (case state of
        S_Running \<Rightarrow> create_services V P
      | Client_Failure \<Rightarrow> Some (Inr (quit P))
      | S_Collision \<Rightarrow> Some (Inr (if pb_group P then reset_group P else P))
      | S_Registering \<Rightarrow> Some (Inr (if pb_group P then reset_group P else P))
      | Client_Connecting \<Rightarrow> Some (Inr P))"

datatype publish_event = Client_State client_state | Group_State group_state

text \<open>A group reports its state only while it lives.\<close>

definition publish_step :: "avahi \<times> publish_event \<Rightarrow> publisher \<Rightarrow> publisher result option" where
  "publish_step Ve P =
     (case snd Ve of Client_State s \<Rightarrow> publish_callback (fst Ve) s P
      | Group_State s \<Rightarrow> if Group \<in> set (pb_live P) then entry_group_callback (fst Ve) s P else Some (Inr P))"

fun publish_run :: "(avahi \<times> publish_event) list \<Rightarrow> publisher \<Rightarrow> publisher result option" where
  "publish_run [] P = Some (Inr P)"
| "publish_run (e # es) P =
     (case publish_step e P of None \<Rightarrow> None
      | Some (Inl f) \<Rightarrow> Some (Inl f)
      | Some (Inr P) \<Rightarrow> publish_run es P)"

section \<open>Start and stop\<close>

definition avahi_free :: "avahi_object \<Rightarrow> publisher \<Rightarrow> publisher result" where
  "avahi_free x P =
     (if x \<in> set (pb_live P) then Inr (P\<lparr>pb_live := remove1 x (pb_live P)\<rparr>) else Inl UseAfterFree)"

definition dns_service_publisher_cleanup :: "publisher \<Rightarrow> publisher result" where
  "dns_service_publisher_cleanup P =
     bindr (if pb_group P then bindr (avahi_free Group P) (\<lambda>P. Inr (P\<lparr>pb_group := False, pb_entries := [], pb_committed := False\<rparr>))
            else Inr P) (\<lambda>P.
     bindr (if pb_client P then bindr (avahi_free Client P) (\<lambda>P. Inr (P\<lparr>pb_client := False\<rparr>)) else Inr P) (\<lambda>P.
     bindr (if pb_threaded_poll P then bindr (avahi_free Poll P) (\<lambda>P. Inr (P\<lparr>pb_threaded_poll := False, pb_started := False\<rparr>))
            else Inr P) (\<lambda>P.
     Inr (P\<lparr>pb_name := None, pb_service := None\<rparr>))))"

text \<open>\<open>first\<close> are the states the library reports while it makes the client, which it makes when \<open>client\<close> says so.\<close>

definition dns_service_publisher_start ::
    "bool \<Rightarrow> bool \<Rightarrow> (avahi \<times> client_state) list \<Rightarrow> dns_service_desc option \<Rightarrow> publisher \<Rightarrow> (int \<times> publisher) result option" where
  "dns_service_publisher_start poll client first service_desc P =
     (case service_desc of None \<Rightarrow> Some (Inr (1, P))
      | Some d \<Rightarrow>
          if \<not> poll then Some (Inr (1, P\<lparr>pb_threaded_poll := False\<rparr>))
          else
            let P = P\<lparr>pb_threaded_poll := True, pb_live := Poll # pb_live P, pb_started := False, pb_quit := False,
                      pb_name := sd_name d, pb_service := sd_service d, pb_port := sd_port d,
                      pb_ipv4 := sd_publish_ipv4 d, pb_ipv6 := sd_publish_ipv6 d\<rparr> in
            if \<not> client then Some (Inr (1, P\<lparr>pb_client := False\<rparr>))
            else
              (case publish_run (map (\<lambda>(V, s). (V, Client_State s)) first) (P\<lparr>pb_live := Client # pb_live P\<rparr>) of
                 None \<Rightarrow> None
               | Some (Inl f) \<Rightarrow> Some (Inl f)
               | Some (Inr P) \<Rightarrow> Some (Inr (0, P\<lparr>pb_client := True, pb_started := True\<rparr>))))"

definition dns_service_publisher_stop :: "publisher \<Rightarrow> publisher result" where
  "dns_service_publisher_stop P =
     (let P = (if pb_threaded_poll P then P\<lparr>pb_started := False\<rparr> else P) in dns_service_publisher_cleanup P)"

section \<open>Names\<close>

text \<open>The \<open>n\<close>-th alternative to a name, and the first one that does not collide.\<close>

definition nth_name :: "avahi \<Rightarrow> nat \<Rightarrow> string \<Rightarrow> string" where
  "nth_name V n name = (av_alternative V ^^ n) name"

definition first_free :: "avahi \<Rightarrow> string \<Rightarrow> nat \<Rightarrow> bool" where
  "first_free V name n \<longleftrightarrow> av_add V (nth_name V n name) \<noteq> Collides \<and> (\<forall>m<n. av_add V (nth_name V m name) = Collides)"

lemma nth_name_simps [simp]: "nth_name V 0 name = name" "nth_name V n (av_alternative V name) = nth_name V (Suc n) name"
  by (simp_all add: nth_name_def funpow_swap1)

lemma first_free_Suc:
  "first_free V name (Suc n) \<longleftrightarrow> av_add V name = Collides \<and> first_free V (av_alternative V name) n"
  by (auto simp: first_free_def less_Suc_eq_0_disj)

lemma first_free_exists:
  assumes "av_add V (nth_name V n name) \<noteq> Collides"
  shows "\<exists>n. first_free V name n"
proof -
  from exists_least_iff [THEN iffD1, OF exI, of "\<lambda>n. av_add V (nth_name V n name) \<noteq> Collides", OF assms]
  show ?thesis by (auto simp: first_free_def)
qed

text \<open>The group is there and empty, ready for the name.\<close>

definition with_group :: "publisher \<Rightarrow> publisher" where
  "with_group P = (if pb_group P then P else P\<lparr>pb_group := True, pb_live := Group # pb_live P\<rparr>)"

definition settled :: "avahi \<Rightarrow> string \<Rightarrow> string \<Rightarrow> publisher \<Rightarrow> publisher" where
  "settled V name service P =
     (let Q = (with_group P)\<lparr>pb_name := Some name\<rparr>;
          e = \<lparr>pe_protocol = service_protocol (pb_ipv4 P) (pb_ipv6 P), pe_name = name, pe_service = service, pe_port = pb_port P\<rparr> in
      if av_add V name = Refused then quit Q
      else if av_commit V then Q\<lparr>pb_entries := [e], pb_committed := True\<rparr> else quit (Q\<lparr>pb_entries := [e]\<rparr>))"

definition empty_group :: "avahi \<Rightarrow> publisher \<Rightarrow> bool" where
  "empty_group V P \<longleftrightarrow> pb_entries P = [] \<and> \<not> pb_committed P \<and> (pb_group P \<or> av_group_new V)"

lemma create_services_step:
  assumes "empty_group V P" "pb_name P = Some name" "pb_service P = Some service"
  shows "create_services V P =
    (if av_add V name = Collides then create_services V ((with_group P)\<lparr>pb_name := Some (av_alternative V name)\<rparr>)
     else Some (Inr (settled V name service P)))"
proof -
  obtain W where W: "with_group P = W" by simp
  from assms have w: "pb_entries W = []" "\<not> pb_committed W" "pb_name W = Some name" "pb_service W = Some service"
    "pb_port W = pb_port P" "pb_ipv4 W = pb_ipv4 P" "pb_ipv6 W = pb_ipv6 P"
    by (auto simp: W [symmetric] with_group_def empty_group_def)
  then have same: "reset_group (W\<lparr>pb_name := n\<rparr>) = W\<lparr>pb_name := n\<rparr>" "W\<lparr>pb_name := Some name\<rparr> = W" for n
    by (cases W; simp add: reset_group_def)+
  have "(\<not> pb_group P \<and> \<not> av_group_new V) = False" using assms(1) by (simp add: empty_group_def)
  then show ?thesis
    by (subst create_services.simps, simp only: if_False)
      (simp add: with_group_def [symmetric] settled_def Let_def W w same split: add_answer.split)
qed

lemma create_services_settled:
  assumes "empty_group V P" "pb_name P = Some name" "pb_service P = Some service" "first_free V name n"
  shows "create_services V P = Some (Inr (settled V (nth_name V n name) service P))"
  using assms
proof (induction n arbitrary: P name)
  case 0
  then show ?case by (simp add: create_services_step first_free_def)
next
  case (Suc n)
  let ?P = "(with_group P)\<lparr>pb_name := Some (av_alternative V name)\<rparr>"
  from Suc.prems(4) have f: "av_add V name = Collides" "first_free V (av_alternative V name) n"
    by (simp_all add: first_free_Suc)
  have "empty_group V ?P" "pb_service ?P = Some service"
    using Suc.prems by (simp_all add: empty_group_def with_group_def)
  moreover have "settled V m service ?P = settled V m service P" for m
    by (cases P) (simp add: settled_def with_group_def Let_def)
  ultimately show ?case using Suc.IH [OF _ _ _ f(2), of ?P] f(1) Suc.prems by (simp add: create_services_step)
qed

definition frees :: "avahi \<times> publisher \<Rightarrow> bool" where
  "frees = (\<lambda>(V, P). \<forall>name service. empty_group V P \<longrightarrow> pb_name P = Some name \<longrightarrow> pb_service P = Some service \<longrightarrow>
     (\<exists>n. av_add V (nth_name V n name) \<noteq> Collides))"

lemma create_services_frees: "create_services V P = Some r \<Longrightarrow> frees (V, P)"
proof (erule create_services.raw_induct [of "\<lambda>VP r. frees VP", rotated])
  fix create V P r
  assume IH: "\<And>V P r. create V P = Some (r :: publisher result) \<Longrightarrow> frees (V, P)"
    and body: "(if \<not> pb_group P \<and> \<not> av_group_new V then Some (Inr (quit P))
      else
        let P = (if pb_group P then P else P\<lparr>pb_group := True, pb_live := Group # pb_live P\<rparr>) in
        if pb_entries P \<noteq> [] then Some (Inr P)
        else
          case pb_name P of None \<Rightarrow> Some (Inl NullDeref)
          | Some name \<Rightarrow>
              (case pb_service P of None \<Rightarrow> Some (Inl NullDeref)
               | Some service \<Rightarrow>
                   (case av_add V name of
                      Added \<Rightarrow>
                        let P = P\<lparr>pb_entries := [\<lparr>pe_protocol = service_protocol (pb_ipv4 P) (pb_ipv6 P), pe_name = name,
                                   pe_service = service, pe_port = pb_port P\<rparr>]\<rparr> in
                        Some (Inr (if av_commit V then P\<lparr>pb_committed := True\<rparr> else quit P))
                    | Collides \<Rightarrow> create V (reset_group (P\<lparr>pb_name := Some (av_alternative V name)\<rparr>))
                    | Refused \<Rightarrow> Some (Inr (quit P))))) = Some r"
  show "frees (V, P)"
    unfolding frees_def prod.case
  proof (intro allI impI)
    fix name service
    assume P: "empty_group V P" "pb_name P = Some name" "pb_service P = Some service"
    show "\<exists>n. av_add V (nth_name V n name) \<noteq> Collides"
    proof (cases "av_add V name = Collides")
      case False
      then show ?thesis by (intro exI [of _ 0]) simp
    next
      case True
      let ?P = "reset_group ((with_group P)\<lparr>pb_name := Some (av_alternative V name)\<rparr>)"
      have "pb_entries (with_group P) = []" "pb_name (with_group P) = Some name" "pb_service (with_group P) = Some service"
        using P by (simp_all add: empty_group_def with_group_def)
      moreover have "(\<not> pb_group P \<and> \<not> av_group_new V) = False" using P(1) by (simp add: empty_group_def)
      note body [unfolded this if_False with_group_def [symmetric]]
      ultimately have "create V ?P = Some r" using True by simp
      then have "frees (V, ?P)" by (rule IH)
      moreover have "empty_group V ?P" "pb_service ?P = Some service" "pb_name ?P = Some (av_alternative V name)"
        using P by (simp_all add: empty_group_def with_group_def reset_group_def)
      ultimately have "\<exists>n. av_add V (nth_name V n (av_alternative V name)) \<noteq> Collides" by (simp add: frees_def)
      then show ?thesis by auto
    qed
  qed
qed

section \<open>The invariant\<close>

definition service_entry :: "dns_service_desc \<Rightarrow> string \<Rightarrow> published" where
  "service_entry d name = \<lparr>pe_protocol = service_protocol (sd_publish_ipv4 d) (sd_publish_ipv6 d), pe_name = name,
     pe_service = the (sd_service d), pe_port = sd_port d\<rparr>"

text \<open>While the publisher runs: what is alive is what the pointers say, and in the group is nothing or the service that
  was asked for under the current name.\<close>

definition publisher_inv :: "bool \<Rightarrow> dns_service_desc \<Rightarrow> publisher \<Rightarrow> bool" where
  "publisher_inv c d P \<longleftrightarrow> distinct (pb_live P) \<and> (pb_group P \<longleftrightarrow> Group \<in> set (pb_live P)) \<and>
     Poll \<in> set (pb_live P) \<and> Client \<in> set (pb_live P) \<and> pb_threaded_poll P \<and> pb_client P = c \<and>
     pb_service P = sd_service d \<and> pb_port P = sd_port d \<and> pb_ipv4 P = sd_publish_ipv4 d \<and> pb_ipv6 P = sd_publish_ipv6 d \<and>
     pb_name P \<noteq> None \<and> (pb_entries P = [] \<or> pb_entries P = [service_entry d (the (pb_name P))]) \<and>
     (pb_committed P \<longrightarrow> pb_entries P \<noteq> []) \<and> (pb_entries P \<noteq> [] \<longrightarrow> pb_group P)"

lemma publisher_inv_simps [simp]:
  "publisher_inv c d (quit P) = publisher_inv c d P"
  "publisher_inv c d P \<Longrightarrow> publisher_inv c d (reset_group P)"
  "publisher_inv c d P \<Longrightarrow> publisher_inv c d ((reset_group P)\<lparr>pb_name := Some n\<rparr>)"
  by (simp_all add: publisher_inv_def quit_def reset_group_def)

lemma with_group_inv: "publisher_inv c d P \<Longrightarrow> publisher_inv c d (with_group P)"
  by (auto simp: publisher_inv_def with_group_def)

lemma settled_inv:
  assumes "publisher_inv c d P" "pb_entries P = []" "sd_service d = Some service"
  shows "publisher_inv c d (settled V name service P)"
proof -
  have "publisher_inv c d ((with_group P)\<lparr>pb_name := Some name\<rparr>)" "pb_entries (with_group P) = []" "\<not> pb_committed (with_group P)"
    using with_group_inv [OF assms(1)] assms(1,2) by (auto simp: publisher_inv_def with_group_def)
  then show ?thesis using assms
    by (simp add: settled_def Let_def) (simp add: publisher_inv_def service_entry_def with_group_def)
qed

lemma create_services_inv:
  assumes "create_services V P = Some r" "publisher_inv c d P" "sd_service d = Some service"
  shows "\<exists>P'. r = Inr P' \<and> publisher_inv c d P'"
proof -
  consider "\<not> pb_group P" "\<not> av_group_new V" | "pb_group P \<or> av_group_new V" "pb_entries P \<noteq> []" | "empty_group V P"
    using assms(2) by (auto simp: empty_group_def publisher_inv_def)
  then show ?thesis
  proof cases
    case 1
    with assms(1,2) show ?thesis by (subst (asm) create_services.simps) auto
  next
    case 2
    have cond: "(\<not> pb_group P \<and> \<not> av_group_new V) = False" using 2(1) by simp
    have "pb_entries (with_group P) \<noteq> []" using 2(2) by (simp add: with_group_def)
    with assms(1) have "r = Inr (with_group P)"
      by (subst (asm) create_services.simps) (simp only: cond if_False with_group_def [symmetric], simp)
    then show ?thesis using with_group_inv [OF assms(2)] by simp
  next
    case 3
    from assms(2,3) obtain name where n: "pb_name P = Some name" "pb_service P = Some service"
      by (auto simp: publisher_inv_def)
    from create_services_frees [OF assms(1)] 3 n obtain n where "av_add V (nth_name V n name) \<noteq> Collides"
      by (auto simp: frees_def)
    then obtain n where "first_free V name n" using first_free_exists by blast
    from create_services_settled [OF 3 n this] assms(1) have "r = Inr (settled V (nth_name V n name) service P)" by simp
    moreover have "publisher_inv c d (settled V (nth_name V n name) service P)"
      by (rule settled_inv [OF assms(2) _ assms(3)]) (use 3 in \<open>simp add: empty_group_def\<close>)
    ultimately show ?thesis by simp
  qed
qed

lemma publish_step_inv:
  assumes "publish_step Ve P = Some r" "publisher_inv c d P" "sd_service d = Some service"
  shows "\<exists>P'. r = Inr P' \<and> publisher_inv c d P'"
proof -
  obtain V e where Ve: "Ve = (V, e)" by fastforce
  show ?thesis
  proof (cases e)
    case (Client_State s)
    show ?thesis
    proof (cases "s = S_Running")
      case True
      with assms(1) have "create_services V P = Some r" by (simp add: Ve Client_State publish_step_def publish_callback_def)
      then show ?thesis by (rule create_services_inv [OF _ assms(2,3)])
    next
      case False
      with assms(1,2) show ?thesis
        by (cases s) (auto simp: Ve Client_State publish_step_def publish_callback_def)
    qed
  next
    case (Group_State s)
    show ?thesis
    proof (cases "Group \<in> set (pb_live P)")
      case False
      with assms(1,2) show ?thesis by (auto simp: Ve Group_State publish_step_def)
    next
      case True
      then have same: "P\<lparr>pb_group := True\<rparr> = P" using assms(2) by (cases P) (simp add: publisher_inv_def)
      show ?thesis
      proof (cases "s = Group_Collision")
        case False
        with True assms(1,2) show ?thesis
          by (cases s) (auto simp: Ve Group_State publish_step_def entry_group_callback_def same)
      next
        case col: True
        from assms(2) obtain name where n: "pb_name P = Some name" by (auto simp: publisher_inv_def)
        with True col assms(1) have "create_services V ((reset_group P)\<lparr>pb_name := Some (av_alternative V name)\<rparr>) = Some r"
          by (simp add: Ve Group_State publish_step_def entry_group_callback_def same)
        then show ?thesis by (rule create_services_inv [OF _ _ assms(3)]) (use assms(2) in simp)
      qed
    qed
  qed
qed

lemma publish_run_inv:
  assumes "publish_run es P = Some r" "publisher_inv c d P" "sd_service d = Some service"
  shows "\<exists>P'. r = Inr P' \<and> publisher_inv c d P'"
  using assms
proof (induction es arbitrary: P)
  case (Cons e es)
  then obtain s where s: "publish_step e P = Some s" by (cases "publish_step e P") auto
  from publish_step_inv [OF s Cons.prems(2,3)] obtain P1 where P1: "s = Inr P1" "publisher_inv c d P1" by blast
  with s Cons.prems(1) have "publish_run es P1 = Some r" by simp
  from Cons.IH [OF this P1(2) Cons.prems(3)] show ?case .
qed auto

lemma publish_run_client:
  assumes "publish_run (map (\<lambda>(V, s). (V, Client_State s)) first) P = Some (Inr P')" "publisher_inv c d P" "sd_service d = Some service"
  shows "publisher_inv c d P'"
  using publish_run_inv [OF assms] by simp

lemma avahi_free_ok: "x \<in> set (pb_live P) \<Longrightarrow> avahi_free x P = Inr (P\<lparr>pb_live := remove1 x (pb_live P)\<rparr>)"
  by (simp add: avahi_free_def)

lemma publisher_stop_ok:
  assumes "publisher_inv True d P"
  shows "\<exists>Q. dns_service_publisher_stop P = Inr Q \<and> pb_live Q = [] \<and> \<not> pb_group Q \<and> \<not> pb_client Q \<and> \<not> pb_threaded_poll Q \<and>
    pb_name Q = None \<and> pb_service Q = None \<and> pb_entries Q = [] \<and> \<not> pb_started Q"
proof -
  from assms have live: "pb_client P" "distinct (pb_live P)" "Client \<in> set (pb_live P)" "Poll \<in> set (pb_live P)"
      "pb_group P \<longleftrightarrow> Group \<in> set (pb_live P)" "pb_threaded_poll P" and e: "\<not> pb_group P \<Longrightarrow> pb_entries P = []"
    by (auto simp: publisher_inv_def)
  have none: "remove1 Poll (remove1 Client (remove1 Group (pb_live P))) = []"
  proof -
    have "x \<notin> set (remove1 Poll (remove1 Client (remove1 Group (pb_live P))))" for x
      using live(2) by (cases x) simp_all
    then show ?thesis by (metis list.set_intros(1) neq_Nil_conv)
  qed
  show ?thesis
  proof (cases "pb_group P")
    case True
    with live none show ?thesis
      by (simp add: dns_service_publisher_stop_def dns_service_publisher_cleanup_def avahi_free_ok Let_def)
  next
    case False
    then have "remove1 Group (pb_live P) = pb_live P" using live(5) by (simp add: remove1_idem)
    with False live none e show ?thesis
      by (simp add: dns_service_publisher_stop_def dns_service_publisher_cleanup_def avahi_free_ok Let_def)
  qed
qed

section \<open>Properties\<close>

text \<open>C16: The choice of a name returns exactly when one of the alternatives, in the order the library offers them,
  does not collide, and then the service is registered under the first of these.\<close>

theorem publisher_names:
  assumes "empty_group V P" "pb_name P = Some name" "pb_service P = Some service"
  shows "(create_services V P = None \<longleftrightarrow> (\<forall>n. av_add V ((av_alternative V ^^ n) name) = Collides)) \<and>
    (\<forall>n. av_add V ((av_alternative V ^^ n) name) = Added \<and> (\<forall>m<n. av_add V ((av_alternative V ^^ m) name) = Collides) \<and>
      av_commit V \<longrightarrow>
      (\<exists>P'. create_services V P = Some (Inr P') \<and> pb_committed P' \<and> pb_name P' = Some ((av_alternative V ^^ n) name) \<and>
        pb_entries P' = [\<lparr>pe_protocol = service_protocol (pb_ipv4 P) (pb_ipv6 P), pe_name = (av_alternative V ^^ n) name,
          pe_service = service, pe_port = pb_port P\<rparr>]))"
proof (intro conjI allI impI)
  show "create_services V P = None \<longleftrightarrow> (\<forall>n. av_add V ((av_alternative V ^^ n) name) = Collides)"
  proof
    assume "create_services V P = None"
    then have "\<not> first_free V name n" for n using create_services_settled [OF assms, of n] by auto
    then show "\<forall>n. av_add V ((av_alternative V ^^ n) name) = Collides"
      using first_free_exists [of V _ name] by (auto simp: nth_name_def)
  next
    assume "\<forall>n. av_add V ((av_alternative V ^^ n) name) = Collides"
    then show "create_services V P = None"
      using create_services_frees [of V P] assms by (cases "create_services V P") (auto simp: frees_def nth_name_def)
  qed
next
  fix n
  assume n: "av_add V ((av_alternative V ^^ n) name) = Added \<and> (\<forall>m<n. av_add V ((av_alternative V ^^ m) name) = Collides) \<and>
      av_commit V"
  then have "first_free V name n" by (simp add: first_free_def nth_name_def)
  from create_services_settled [OF assms this] n
  show "\<exists>P'. create_services V P = Some (Inr P') \<and> pb_committed P' \<and> pb_name P' = Some ((av_alternative V ^^ n) name) \<and>
        pb_entries P' = [\<lparr>pe_protocol = service_protocol (pb_ipv4 P) (pb_ipv6 P), pe_name = (av_alternative V ^^ n) name,
          pe_service = service, pe_port = pb_port P\<rparr>]"
    by (auto simp: settled_def nth_name_def Let_def)
qed

definition avahi_example :: avahi where
  "avahi_example = \<lparr>av_group_new = True, av_add = (\<lambda>n. if length n < 3 then Collides else Added), av_commit = True,
     av_alternative = (\<lambda>n. n @ ''2'')\<rparr>"

definition midi_service :: dns_service_desc where
  "midi_service = \<lparr>sd_name = Some ''m'', sd_service = Some ''_apple-midi._udp'', sd_port = 5004, sd_publish_ipv4 = True,
     sd_publish_ipv6 = False\<rparr>"

lemma publisher_names_witness:
  "\<exists>P'. create_services avahi_example (publisher_start\<lparr>pb_name := Some ''m'', pb_service := Some ''s''\<rparr>) = Some (Inr P') \<and>
    pb_committed P' \<and> pb_name P' = Some ''m22''"
proof -
  have "empty_group avahi_example (publisher_start\<lparr>pb_name := Some ''m'', pb_service := Some ''s''\<rparr>)"
    by (simp add: empty_group_def publisher_start_def avahi_example_def)
  from publisher_names [OF this, of "''m''" "''s''", THEN conjunct2, THEN spec, of 2]
  show ?thesis by (auto simp: avahi_example_def numeral_2_eq_2 less_Suc_eq)
qed

text \<open>C6: After a start that succeeds, whatever states the client and the group report, in whatever order, whatever
  names collide and whichever calls of the library fail, no callback faults; each time the group holds nothing or exactly
  the service that was asked for under the current name; and stopping then frees everything the library made, once.\<close>

theorem publisher_lifecycle:
  assumes "dns_service_publisher_start True True first (Some d) publisher_start = Some r"
    and "sd_name d \<noteq> None" "sd_service d = Some service"
  shows "\<exists>P. r = Inr (0, P) \<and> (\<forall>es s. publish_run es P = Some s \<longrightarrow>
    (\<exists>P' Q. s = Inr P' \<and> (pb_entries P' = [] \<or> pb_entries P' = [service_entry d (the (pb_name P'))]) \<and>
       dns_service_publisher_stop P' = Inr Q \<and> pb_live Q = [] \<and> \<not> pb_group Q \<and> \<not> pb_client Q \<and> \<not> pb_threaded_poll Q))"
proof -
  let ?P = "publisher_start\<lparr>pb_threaded_poll := True, pb_live := [Client, Poll], pb_name := sd_name d, pb_service := sd_service d,
    pb_port := sd_port d, pb_ipv4 := sd_publish_ipv4 d, pb_ipv6 := sd_publish_ipv6 d\<rparr>"
  let ?run = "publish_run (map (\<lambda>(V, s). (V, Client_State s)) first) ?P"
  have run: "dns_service_publisher_start True True first (Some d) publisher_start =
      (case ?run of None \<Rightarrow> None | Some (Inl f) \<Rightarrow> Some (Inl f)
       | Some (Inr P) \<Rightarrow> Some (Inr (0, P\<lparr>pb_client := True, pb_started := True\<rparr>)))"
    by (simp add: dns_service_publisher_start_def publisher_start_def Let_def)
  have "publisher_inv False d ?P" using assms(2) by (simp add: publisher_inv_def publisher_start_def)
  moreover from run assms(1) obtain s where s: "?run = Some s" by (cases ?run) auto
  ultimately obtain P where P: "s = Inr P" "publisher_inv False d P" using publish_run_inv [OF _ _ assms(3)] by blast
  let ?Q = "P\<lparr>pb_client := True, pb_started := True\<rparr>"
  from run s P(1) assms(1) have r: "r = Inr (0, ?Q)" by simp
  have inv: "publisher_inv True d ?Q" using P(2) by (auto simp: publisher_inv_def)
  show ?thesis
  proof (rule exI [of _ ?Q], intro conjI allI impI)
    show "r = Inr (0, ?Q)" by (fact r)
  next
    fix es s assume "publish_run es ?Q = Some s"
    from publish_run_inv [OF this inv assms(3)] obtain P' where P': "s = Inr P'" "publisher_inv True d P'" by blast
    from publisher_stop_ok [OF P'(2)] P' show "\<exists>P' Q. s = Inr P' \<and>
        (pb_entries P' = [] \<or> pb_entries P' = [service_entry d (the (pb_name P'))]) \<and>
        dns_service_publisher_stop P' = Inr Q \<and> pb_live Q = [] \<and> \<not> pb_group Q \<and> \<not> pb_client Q \<and> \<not> pb_threaded_poll Q"
      by (auto simp: publisher_inv_def)
  qed
qed

text \<open>A name that collides at the start and again on the network.\<close>

lemma publisher_lifecycle_witness:
  "\<exists>P' Q. publish_run [(avahi_example, Group_State Group_Established), (avahi_example, Group_State Group_Collision)]
      (publisher_start\<lparr>pb_threaded_poll := True, pb_live := [Group, Client, Poll], pb_group := True, pb_client := True, pb_name := Some ''m22'',
       pb_service := Some ''_apple-midi._udp'', pb_port := 5004, pb_ipv4 := True, pb_started := True, pb_committed := True,
       pb_entries := [service_entry midi_service ''m22'']\<rparr>) = Some (Inr P') \<and>
    pb_entries P' = [service_entry midi_service ''m222''] \<and> dns_service_publisher_stop P' = Inr Q \<and> pb_live Q = []"
proof -
  let ?P = "publisher_start\<lparr>pb_threaded_poll := True, pb_live := [Group, Client, Poll], pb_group := True, pb_client := True,
    pb_name := Some ''m22'', pb_service := Some ''_apple-midi._udp'', pb_port := 5004, pb_ipv4 := True, pb_started := True,
    pb_committed := True, pb_entries := [service_entry midi_service ''m22'']\<rparr>"
  have start: "dns_service_publisher_start True True [(avahi_example, S_Running)] (Some midi_service) publisher_start = Some (Inr (0, ?P))"
    by code_simp
  have run: "\<exists>P'. publish_run [(avahi_example, Group_State Group_Established), (avahi_example, Group_State Group_Collision)] ?P =
      Some (Inr P') \<and> pb_entries P' = [service_entry midi_service ''m222'']"
    by (rule exI [of _ "?P\<lparr>pb_name := Some ''m222'', pb_entries := [service_entry midi_service ''m222'']\<rparr>"]) code_simp
  then obtain P' where P': "publish_run [(avahi_example, Group_State Group_Established), (avahi_example, Group_State Group_Collision)] ?P =
      Some (Inr P')" "pb_entries P' = [service_entry midi_service ''m222'']" by blast
  from publisher_lifecycle [OF start, of "''_apple-midi._udp''"] P' show ?thesis
    by (fastforce simp: midi_service_def)
qed

text \<open>Where the client cannot be made the function returns with the poll object alive.\<close>

lemma publisher_start_fails:
  "\<exists>P. dns_service_publisher_start True False first (Some d) publisher_start = Some (Inr (1, P)) \<and> pb_live P = [Poll]"
  by (simp add: dns_service_publisher_start_def publisher_start_def)

end
