(* ===== verification/Dns_Discover.thy ===== *)
theory Dns_Discover
  imports Remote_Connection Dns_Publisher
begin

text \<open>
  Browsing for services (\<^verbatim>\<open>dns_service_discover.c\<close>): the callbacks of the Avahi library, which come in any order until
  the time-out, and the function that makes its objects and frees them. An object has a number, so that a
  pointer left over from an earlier search is told from a new one; a resolver is freed by its own callback, or with the
  client.
\<close>

section \<open>State\<close>

text \<open>The list of services and the two static pointers, then what is alive.\<close>

record discover =
  dd_dns :: dns
  dd_threaded_poll :: "nat option"
  dd_client :: "nat option"
  dd_live :: "nat list"
  dd_resolvers :: nat
  dd_quit :: bool

datatype browser_event =
    Browser_Failure
  | Browser_New bool
  | Browser_Remove
  | Browser_All_For_Now
  | Browser_Cache_Exhausted

datatype resolver_event = Resolver_Failure | Resolver_Found string string int

datatype discover_event = Browse browser_event | Resolve resolver_event | Client_State client_state

section \<open>Callbacks\<close>

definition resolve_callback :: "resolver_event \<Rightarrow> discover \<Rightarrow> discover result" where
  "resolve_callback event D =
     bindr (case event of Resolver_Failure \<Rightarrow> Inr D
            | Resolver_Found name a port \<Rightarrow>
                bindr (dns_discover_add mem_ok (Some name) (Some a) port (dd_dns D)) (\<lambda>d. Inr (D\<lparr>dd_dns := d\<rparr>))) (\<lambda>D.
     Inr (D\<lparr>dd_resolvers := dd_resolvers D - 1\<rparr>))"

text \<open>The flag of \<open>Browser_New\<close> says whether the resolver can be made.\<close>

definition browse_callback :: "browser_event \<Rightarrow> discover \<Rightarrow> discover" where
  "browse_callback event D =
     (case event of
        Browser_Failure \<Rightarrow> D\<lparr>dd_quit := True\<rparr>
      | Browser_New made \<Rightarrow> if made then D\<lparr>dd_resolvers := dd_resolvers D + 1\<rparr> else D
      | Browser_Remove \<Rightarrow> D
      | Browser_All_For_Now \<Rightarrow> D
      | Browser_Cache_Exhausted \<Rightarrow> D)"

definition discover_callback :: "client_state \<Rightarrow> discover \<Rightarrow> discover" where
  "discover_callback state D = (if state = Client_Failure then D\<lparr>dd_quit := True\<rparr> else D)"

text \<open>A resolver answers once, and only one that was made; after a quit the thread calls nothing.\<close>

fun discover_events :: "discover_event list \<Rightarrow> discover \<Rightarrow> discover result" where
  "discover_events [] D = Inr D"
| "discover_events (e # es) D =
     (if dd_quit D then Inr D
      else
        bindr (case e of
                 Browse b \<Rightarrow> Inr (browse_callback b D)
               | Resolve r \<Rightarrow> if 0 < dd_resolvers D then resolve_callback r D else Inr D
               | Client_State s \<Rightarrow> Inr (discover_callback s D))
          (discover_events es))"

section \<open>The search\<close>

definition discover_free :: "nat \<Rightarrow> discover \<Rightarrow> discover result" where
  "discover_free p D =
     (if p \<in> set (dd_live D) then Inr (D\<lparr>dd_live := remove1 p (dd_live D)\<rparr>) else Inl UseAfterFree)"

text \<open>From the label \<^verbatim>\<open>fail\<close> on: the poll object is stopped and freed last.\<close>

definition discover_fail :: "nat option \<Rightarrow> discover \<Rightarrow> (nat \<times> discover) result" where
  "discover_fail sb D =
     bindr (case sb of None \<Rightarrow> Inr D | Some p \<Rightarrow> discover_free p D) (\<lambda>D.
     bindr (case dd_threaded_poll D of None \<Rightarrow> Inr D
            | Some p \<Rightarrow> if p \<in> set (dd_live D) then Inr D else Inl UseAfterFree) (\<lambda>D.
     bindr (case dd_client D of None \<Rightarrow> Inr D
            | Some p \<Rightarrow> bindr (discover_free p D) (\<lambda>D. Inr (D\<lparr>dd_resolvers := 0\<rparr>))) (\<lambda>D.
     bindr (case dd_threaded_poll D of None \<Rightarrow> Inr D | Some p \<Rightarrow> discover_free p D) (\<lambda>D.
     Inr (dn_num_services (dd_dns D), D)))))"

text \<open>\<open>poll\<close>, \<open>client\<close> and \<open>browser\<close> are the addresses of the objects where the library makes them, with the protocol
  that is asked for as an argument of the last; \<open>events\<close> is what happens until the time-out.\<close>

definition dns_discover_search ::
    "nat option \<Rightarrow> nat option \<Rightarrow> (avahi_protocol \<Rightarrow> nat option) \<Rightarrow> discover_event list \<Rightarrow> bool \<Rightarrow> bool \<Rightarrow> discover \<Rightarrow>
     (nat \<times> discover) result" where
  "dns_discover_search poll client browser events use_ipv4 use_ipv6 D =
     (let D = D\<lparr>dd_threaded_poll := poll, dd_quit := False, dd_resolvers := 0\<rparr> in
      case poll of None \<Rightarrow> discover_fail None D
      | Some p \<Rightarrow>
          let D = D\<lparr>dd_live := p # dd_live D, dd_client := client\<rparr> in
          (case client of None \<Rightarrow> discover_fail None D
           | Some c \<Rightarrow>
               let D = D\<lparr>dd_live := c # dd_live D\<rparr> in
               (case browser (service_protocol use_ipv4 use_ipv6) of None \<Rightarrow> discover_fail None D
                | Some b \<Rightarrow> bindr (discover_events events (D\<lparr>dd_live := b # dd_live D\<rparr>)) (discover_fail (Some b)))))"

section \<open>What is found\<close>

definition dns_wf :: "dns \<Rightarrow> bool" where
  "dns_wf d \<longleftrightarrow>
     (case dn_services d of None \<Rightarrow> dn_num_services d = 0
      | Some l \<Rightarrow> length l = dn_num_services d \<and> (\<forall>s \<in> set l. ds_name s \<noteq> None) \<and> distinct (map ds_name l))"

definition dns_list :: "dns \<Rightarrow> dns_service list" where
  "dns_list d = (case dn_services d of None \<Rightarrow> [] | Some l \<Rightarrow> l)"

text \<open>A service is kept under the address that was resolved first.\<close>

definition keep_service :: "string \<times> string \<times> int \<Rightarrow> dns_service list \<Rightarrow> dns_service list" where
  "keep_service s l =
     (let (name, a, port) = s in
      if Some name \<in> ds_name ` set l then l else l @ [\<lparr>ds_name = Some name, ds_ip_address = Some a, ds_port = port\<rparr>])"

fun found :: "nat \<Rightarrow> discover_event list \<Rightarrow> (string \<times> string \<times> int) list" where
  "found n [] = []"
| "found n (Browse b # es) = (case b of Browser_Failure \<Rightarrow> [] | Browser_New made \<Rightarrow> found (if made then n + 1 else n) es | _ \<Rightarrow> found n es)"
| "found n (Resolve r # es) =
     (if n = 0 then found n es
      else (case r of Resolver_Failure \<Rightarrow> [] | Resolver_Found name a port \<Rightarrow> [(name, a, port)]) @ found (n - 1) es)"
| "found n (Client_State s # es) = (if s = Client_Failure then [] else found n es)"

section \<open>Lemmas\<close>

lemma by_name_from_ok:
  assumes "i + left = length l" "\<forall>s \<in> set l. ds_name s \<noteq> None"
  shows "by_name_from name l i left = Inr (List.find (\<lambda>s. ds_name s = Some name) (drop i l))"
  using assms(1)
proof (induction left arbitrary: i)
  case (Suc left)
  then have i: "i < length l" by simp
  then have "drop i l = l ! i # drop (Suc i) l" by (simp add: Cons_nth_drop_Suc)
  moreover obtain n where "ds_name (l ! i) = Some n" using assms(2) i nth_mem by fastforce
  ultimately show ?case using Suc i by (simp add: strcmp_name_def)
qed simp

lemma dns_by_name_ok:
  assumes "dns_wf d"
  shows "dns_discover_by_name name d = Inr (List.find (\<lambda>s. ds_name s = Some name) (dns_list d))"
proof (cases "dn_services d")
  case None
  with assms show ?thesis by (simp add: dns_discover_by_name_def dns_wf_def dns_list_def)
next
  case (Some l)
  with assms have l: "length l = dn_num_services d" "\<forall>s \<in> set l. ds_name s \<noteq> None" by (simp_all add: dns_wf_def)
  with by_name_from_ok [of 0 "dn_num_services d" l name] Some show ?thesis
    by (cases "dn_num_services d = 0") (simp_all add: dns_discover_by_name_def dns_list_def)
qed

lemma dns_add_ok:
  assumes "dns_wf d"
  shows "\<exists>d'. dns_discover_add mem_ok (Some name) (Some a) port d = Inr d' \<and> dns_wf d' \<and>
    dns_list d' = keep_service (name, a, port) (dns_list d)"
proof (cases "Some name \<in> ds_name ` set (dns_list d)")
  case True
  then have "List.find (\<lambda>s. ds_name s = Some name) (dns_list d) \<noteq> None" by (auto simp: find_None_iff)
  with True assms show ?thesis by (simp add: dns_discover_add_def dns_by_name_ok keep_service_def)
next
  case False
  have f: "List.find (\<lambda>s. ds_name s = Some name) (dns_list d) = None"
  proof -
    have "ds_name s \<noteq> Some name" if "s \<in> set (dns_list d)" for s using False that by (metis image_eqI)
    then show ?thesis by (auto simp: find_None_iff)
  qed
  let ?l = "take (dn_num_services d) (dns_list d)"
  have l: "?l = dns_list d" "length (dns_list d) = dn_num_services d" "\<forall>s \<in> set (dns_list d). ds_name s \<noteq> None"
    "distinct (map ds_name (dns_list d))"
    using assms by (auto simp: dns_wf_def dns_list_def split: option.splits)
  let ?d = "d\<lparr>dn_services := Some (dns_list d @ [\<lparr>ds_name = Some name, ds_ip_address = Some a, ds_port = port\<rparr>]),
      dn_num_services := dn_num_services d + 1\<rparr>"
  have "dns_discover_add mem_ok (Some name) (Some a) port d = Inr ?d"
    using l(1) by (simp add: dns_discover_add_def dns_by_name_ok [OF assms] f dns_list_def [symmetric])
  moreover have "dns_wf ?d" using l False by (simp add: dns_wf_def)
  ultimately show ?thesis using False by (simp add: keep_service_def dns_list_def)
qed

definition same_objects :: "discover \<Rightarrow> discover \<Rightarrow> bool" where
  "same_objects D D' \<longleftrightarrow> dd_live D' = dd_live D \<and> dd_threaded_poll D' = dd_threaded_poll D \<and> dd_client D' = dd_client D"

lemma discover_events_ok:
  assumes "dns_wf (dd_dns D)" "\<not> dd_quit D"
  shows "\<exists>D'. discover_events es D = Inr D' \<and> dns_wf (dd_dns D') \<and> same_objects D D' \<and>
    dns_list (dd_dns D') = fold keep_service (found (dd_resolvers D) es) (dns_list (dd_dns D))"
  using assms
proof (induction es arbitrary: D)
  case Nil
  then show ?case by (simp add: same_objects_def)
next
  case (Cons e es)
  have quit: "discover_events es (D\<lparr>dd_quit := True\<rparr>) = Inr (D\<lparr>dd_quit := True\<rparr>)" by (cases es) simp_all
  show ?case
  proof (cases e)
    case (Browse b)
    have step: "discover_events (e # es) D = discover_events es (browse_callback b D)" using Cons.prems(2) by (simp add: Browse)
    show ?thesis
    proof (cases "b = Browser_Failure")
      case True
      with quit Cons.prems(1) show ?thesis unfolding step by (simp add: Browse browse_callback_def same_objects_def)
    next
      case False
      then have "\<not> dd_quit (browse_callback b D)" "dd_dns (browse_callback b D) = dd_dns D" "same_objects D (browse_callback b D)"
        "found (dd_resolvers (browse_callback b D)) es = found (dd_resolvers D) (e # es)"
        using Cons.prems(2) by (auto simp: Browse browse_callback_def same_objects_def split: browser_event.splits)
      with Cons.IH [of "browse_callback b D"] Cons.prems(1) show ?thesis unfolding step by (auto simp: same_objects_def)
    qed
  next
    case (Client_State s)
    with Cons.prems Cons.IH [OF Cons.prems] quit show ?thesis by (simp add: discover_callback_def same_objects_def)
  next
    case (Resolve r)
    show ?thesis
    proof (cases "dd_resolvers D = 0")
      case True
      with Resolve Cons.prems(2) Cons.IH [OF Cons.prems] show ?thesis by simp
    next
      case pos: False
      show ?thesis
      proof (cases r)
        case Resolver_Failure
        with pos Resolve Cons.prems Cons.IH [of "D\<lparr>dd_resolvers := dd_resolvers D - 1\<rparr>"] show ?thesis
          by (simp add: resolve_callback_def same_objects_def)
      next
        case (Resolver_Found name a port)
        from dns_add_ok [OF Cons.prems(1), of name a port] obtain d where
          d: "dns_discover_add mem_ok (Some name) (Some a) port (dd_dns D) = Inr d" "dns_wf d"
          "dns_list d = keep_service (name, a, port) (dns_list (dd_dns D))" by (elim exE conjE)
        with pos Resolve Resolver_Found Cons.prems Cons.IH [of "D\<lparr>dd_dns := d, dd_resolvers := dd_resolvers D - 1\<rparr>"]
        show ?thesis by (simp add: resolve_callback_def same_objects_def)
      qed
    qed
  qed
qed

section \<open>Properties\<close>

text \<open>C23: A search that is the first of the process, or whose poll object can be made, has no fault whichever of the
  three objects cannot be made and whatever is reported until the time-out; each object that was made is freed once;
  and the services known afterwards are those known before with each resolved one whose name was not known yet, at
  the address that was resolved first.\<close>

theorem discover_finds:
  assumes "dns_wf (dd_dns D)" "dd_live D = []" "dd_client D = None \<or> poll \<noteq> None"
    and "b = browser (service_protocol four six)"
    and "\<And>p c b'. poll = Some p \<Longrightarrow> client = Some c \<Longrightarrow> b = Some b' \<Longrightarrow> distinct [p, c, b']"
    and "\<And>p c. poll = Some p \<Longrightarrow> client = Some c \<Longrightarrow> p \<noteq> c"
  shows "\<exists>D'. dns_discover_search poll client browser events four six D = Inr (length (dns_list (dd_dns D')), D') \<and>
    dns_wf (dd_dns D') \<and> dd_live D' = [] \<and>
    dns_list (dd_dns D') =
      fold keep_service (if poll \<noteq> None \<and> client \<noteq> None \<and> b \<noteq> None then found 0 events else []) (dns_list (dd_dns D))"
proof -
  have n: "dn_num_services d = length (dns_list d)" if "dns_wf d" for d
    using that by (auto simp: dns_wf_def dns_list_def split: option.splits)
  show ?thesis
  proof (cases poll)
    case None
    with assms(1-3) n show ?thesis by (simp add: dns_discover_search_def discover_fail_def)
  next
    case p: (Some p)
    show ?thesis
    proof (cases client)
      case None
      with p assms(1-3) n show ?thesis by (simp add: dns_discover_search_def discover_fail_def discover_free_def Let_def)
    next
      case c: (Some c)
      from assms(6) [OF p c] have pc: "p \<noteq> c" .
      show ?thesis
      proof (cases b)
        case None
        with p c pc assms(1-4) n show ?thesis
          by (simp add: dns_discover_search_def discover_fail_def discover_free_def Let_def)
      next
        case b: (Some b')
        from assms(5) [OF p c b] have d: "p \<noteq> c" "p \<noteq> b'" "c \<noteq> b'" by auto
        let ?D = "D\<lparr>dd_threaded_poll := poll, dd_quit := False, dd_resolvers := 0, dd_client := client, dd_live := [b', c, p]\<rparr>"
        have "dns_wf (dd_dns ?D)" "\<not> dd_quit ?D" using assms(1) by simp_all
        from discover_events_ok [OF this, of events] obtain D' where
          D': "discover_events events ?D = Inr D'" "dns_wf (dd_dns D')" "same_objects ?D D'"
          "dns_list (dd_dns D') = fold keep_service (found 0 events) (dns_list (dd_dns D))" by auto
        have "dns_discover_search poll client browser events four six D = discover_fail (Some b') D'"
          using p c b assms(2,4) D'(1) by (simp add: dns_discover_search_def Let_def)
        also have "\<dots> = Inr (length (dns_list (dd_dns D')), D'\<lparr>dd_live := [], dd_resolvers := 0\<rparr>)"
          using D'(3) d p c n [OF D'(2)] by (simp add: same_objects_def discover_fail_def discover_free_def)
        finally show ?thesis using p c b D'(2,4) by (intro exI [of _ "D'\<lparr>dd_live := [], dd_resolvers := 0\<rparr>"]) simp
      qed
    qed
  qed
qed

definition discover_start :: discover where
  "discover_start = \<lparr>dd_dns = \<lparr>dn_services = None, dn_num_services = 0\<rparr>, dd_threaded_poll = None, dd_client = None,
     dd_live = [], dd_resolvers = 0, dd_quit = False\<rparr>"

lemma discover_finds_witness:
  "\<exists>D'. dns_discover_search (Some 1) (Some 2) (\<lambda>p. if p = PROTO_INET then Some 3 else None)
      [Browse (Browser_New True), Browse (Browser_New True), Resolve (Resolver_Found ''m'' ''::1'' 5004),
       Browse Browser_All_For_Now, Resolve (Resolver_Found ''m'' ''10.0.0.1'' 5004), Resolve (Resolver_Found ''x'' ''::2'' 1)]
      True False discover_start = Inr (1, D') \<and> dd_live D' = [] \<and>
    dns_list (dd_dns D') = [\<lparr>ds_name = Some ''m'', ds_ip_address = Some ''::1'', ds_port = 5004\<rparr>]"
proof -
  let ?br = "\<lambda>p. if p = PROTO_INET then Some 3 else None :: nat option"
  let ?es = "[Browse (Browser_New True), Browse (Browser_New True), Resolve (Resolver_Found ''m'' ''::1'' 5004),
       Browse Browser_All_For_Now, Resolve (Resolver_Found ''m'' ''10.0.0.1'' 5004), Resolve (Resolver_Found ''x'' ''::2'' 1)]"
  have s: "dns_wf (dd_dns discover_start)" "dd_live discover_start = []" "dd_client discover_start = None"
    "dns_list (dd_dns discover_start) = []"
    by (simp_all add: discover_start_def dns_wf_def dns_list_def)
  have f: "fold keep_service (found 0 ?es) [] = [\<lparr>ds_name = Some ''m'', ds_ip_address = Some ''::1'', ds_port = 5004\<rparr>]" by code_simp
  have b: "Some 3 = ?br (service_protocol True False)" by (simp add: service_protocol_def)
  from discover_finds [where D = discover_start and browser = ?br and b = "Some 3" and four = True and six = False and
      poll = "Some 1" and client = "Some 2" and events = ?es, OF s(1,2) disjI1 [OF s(3)] b] obtain D' where
    "dns_discover_search (Some 1) (Some 2) ?br ?es True False discover_start = Inr (length (dns_list (dd_dns D')), D')"
    "dd_live D' = []" "dns_list (dd_dns D') = fold keep_service (found 0 ?es) []" unfolding s(4) by auto
  then show ?thesis unfolding f by auto
qed

text \<open>A later search whose poll object cannot be made frees the client of the earlier one again.\<close>

lemma discover_again_fault:
  assumes "dd_live D = []" "dd_client D = Some c"
  shows "dns_discover_search None client browser events four six D = Inl UseAfterFree"
  using assms by (simp add: dns_discover_search_def discover_fail_def discover_free_def Let_def)

end
