(* ===== verification/Remote_Session.thy ===== *)
theory Remote_Session
  imports Remote_Connection
begin

text \<open>
  The thread that keeps a session this side began in step (\<^verbatim>\<open>remote_connect_sync_thread\<close>), and the end of the session,
  which waits for the thread. A thread is whether it was made: joining one that never was has no defined result.
\<close>

section \<open>The thread\<close>

text \<open>Each element of the list is one return of \<^verbatim>\<open>select\<close>: the environment at that time, and whether the program was
  told to stop. The flag of the result says that the thread has ended.\<close>

fun sync_loop :: "string option \<Rightarrow> bool \<Rightarrow> (env \<times> bool) list \<Rightarrow> net \<Rightarrow> (effect list \<times> bool \<times> net) result" where
  "sync_loop remote_service_name use_control [] N =
     bindr (net_ctx_find_by_name (map_option string_bytes remote_service_name) N) (\<lambda>(ctx, N). Inr ([], ctx = None, N))"
| "sync_loop remote_service_name use_control ((E, shutdown) # wakes) N =
     bindr (net_ctx_find_by_name (map_option string_bytes remote_service_name) N) (\<lambda>(ctx, N).
     case ctx of None \<Rightarrow> Inr ([], True, N)
     | Some a \<Rightarrow>
         if shutdown then Inr ([], True, N)
         else
           bindr (ctx_at (nt_contexts N) a) (\<lambda>c.
           bindr (net_response_sync E (nc_send_ssrc c) (nc_start c)) (\<lambda>response.
           bindr (send_response response a use_control N) (\<lambda>(es, N).
           bindr (sync_loop remote_service_name use_control wakes N) (\<lambda>(es', ended, N).
           Inr (es @ es', ended, N))))))"

definition remote_connect_sync_thread ::
    "kv_table option \<Rightarrow> (env \<times> bool) list \<Rightarrow> net \<Rightarrow> (effect list \<times> bool \<times> net) result" where
  "remote_connect_sync_thread items wakes N =
     bindr (config_string_get items (Some ''remote.connect'')) (\<lambda>remote_service_name.
     bindr (use_control_for_ck items) (\<lambda>use_control.
     sync_loop remote_service_name use_control wakes N))"

section \<open>The end\<close>

definition remote_connect_wait_for_thread :: "bool \<Rightarrow> unit result" where
  "remote_connect_wait_for_thread sync_thread = (if sync_thread then Inr () else Inl UseAfterFree)"

text \<open>\<open>remote_connect_teardown\<close> with the wait that comes first where a session is configured.\<close>

definition remote_connect_end :: "env \<Rightarrow> bool \<Rightarrow> net \<Rightarrow> (effect list \<times> net) result" where
  "remote_connect_end E sync_thread N =
     bindr (config_string_get (en_config E) (Some ''remote.connect'')) (\<lambda>remote_service_name.
     bindr (if remote_service_name = None then Inr () else remote_connect_wait_for_thread sync_thread) (\<lambda>_.
     remote_connect_teardown E N))"

section \<open>Properties\<close>

definition ck_address :: "bool \<Rightarrow> net_ctx \<Rightarrow> bytes" where
  "ck_address use_control c =
     (if use_control then take (nc_control_address_len c) (nc_control_address c) else take (nc_data_address_len c) (nc_data_address c))"

text \<open>One request of the thread.\<close>

definition ck_sent :: "bool \<Rightarrow> net_ctx \<Rightarrow> env \<Rightarrow> effect \<Rightarrow> bool" where
  "ck_sent use_control c E e \<longleftrightarrow>
     (\<exists>r sync. e = Sent \<lparr>dg_control = use_control, dg_address = ck_address use_control c, dg_bytes = wire r\<rparr> \<and>
       arrives r (sync_packet sync) \<and> sy_ssrc sync = nc_send_ssrc c \<and> sy_count sync = 0 \<and>
       sy_timestamp1 sync = en_now E - nc_start c)"

lemma sync_loop_sends:
  assumes "net_wf N" "a \<in> set (addresses N)" "ck_address use_control (context_of N a) \<noteq> []"
    and "net_ctx_find_by_name (map_option string_bytes name) N = Inr (Some a, N)" "\<forall>E \<in> set Es. env_ok E"
  shows "\<exists>es. sync_loop name use_control (map (\<lambda>E. (E, False)) Es @ [(E', True)]) N = Inr (es, True, N) \<and>
    list_all2 (ck_sent use_control (context_of N a)) Es es"
  using assms(5)
proof (induction Es)
  case Nil
  then show ?case by (simp add: assms(4))
next
  case (Cons E Es)
  then have E: "env_ok E" by simp
  from assms(1,2) have c: "ctx_at (nt_contexts N) a = Inr (context_of N a)"
    using net_wf_context by (auto simp: net_wf_def ctx_at_def)
  from net_response_sync_ok [of E "nc_send_ssrc (context_of N a)" "nc_start (context_of N a)"] E obtain r m where
    r: "net_response_sync E (nc_send_ssrc (context_of N a)) (nc_start (context_of N a)) = Inr (Some r)"
    "nr_buffer r = Some m" "nr_len r \<le> length m" "nr_len r \<noteq> 0"
    "arrives r (sync_packet \<lparr>sy_ssrc = nc_send_ssrc (context_of N a), sy_count = 0, sy_padding = [0, 0, 0],
       sy_timestamp1 = en_now E - nc_start (context_of N a),
       sy_timestamp2 = scast (en_random E 0), sy_timestamp3 = scast (en_random E 1)\<rparr>)"
    by (auto simp: env_ok_def)
  from send_response_ok [OF assms(1,2) r(2-4) refl, of use_control] assms(3)
  have s: "send_response (Some r) a use_control N =
      Inr ([Sent \<lparr>dg_control = use_control, dg_address = ck_address use_control (context_of N a), dg_bytes = wire r\<rparr>], N)"
    by (simp add: ck_address_def)
  from Cons obtain es where es: "sync_loop name use_control (map (\<lambda>E. (E, False)) Es @ [(E', True)]) N = Inr (es, True, N)"
    "list_all2 (ck_sent use_control (context_of N a)) Es es" by auto
  have "ck_sent use_control (context_of N a) E
      (Sent \<lparr>dg_control = use_control, dg_address = ck_address use_control (context_of N a), dg_bytes = wire r\<rparr>)"
    unfolding ck_sent_def by (rule exI [of _ r], rule exI, rule conjI [OF refl], rule conjI [OF r(5)]) simp
  with es show ?case by (simp add: assms(4) c r(1) s)
qed

text \<open>C22: Once the session stands, the thread sends one request for each return of the wait, to the port the
  configuration asks for, each with this side's number and the time since the session's start, and it ends at the first
  return after the program was told to stop, having changed nothing else.\<close>

theorem sync_thread_paces:
  assumes "net_wf N" "a \<in> set (addresses N)" "ck_address use_control (context_of N a) \<noteq> []" "config_ok items"
    and "net_ctx_find_by_name (map_option string_bytes (config_value items ''remote.connect'')) N = Inr (Some a, N)"
    and "use_control_for_ck items = Inr use_control" "\<forall>E \<in> set Es. env_ok E"
  shows "\<exists>es. remote_connect_sync_thread items (map (\<lambda>E. (E, False)) Es @ [(E', True)]) N = Inr (es, True, N) \<and>
    list_all2 (ck_sent use_control (context_of N a)) Es es"
  using sync_loop_sends [OF assms(1-3,5,7), of E'] by (simp add: remote_connect_sync_thread_def config_string_value [OF assms(4)] assms(6))

definition config_session :: "kv_table option" where
  "config_session = Some \<lparr>kt_name = None, kt_count = 1,
     kt_items = Some [\<lparr>ki_key = Some ''remote.connect'', ki_value = Some ''a''\<rparr>], kt_held = False\<rparr>"

lemma sync_thread_paces_witness:
  "\<exists>N e1 e2. net_ctx_register env_example 5 6 (Some [49, 0]) 5004 (Some [97, 0]) net_start = Inr (Some 3, N) \<and>
    remote_connect_sync_thread config_session [(env_example\<lparr>en_now := 1500\<rparr>, False), (env_example\<lparr>en_now := 2500\<rparr>, False),
      (env_example, True)] N = Inr ([e1, e2], True, N) \<and>
    ck_sent True (context_of N 3) (env_example\<lparr>en_now := 1500\<rparr>) e1 \<and> ck_sent True (context_of N 3) (env_example\<lparr>en_now := 2500\<rparr>) e2"
proof -
  have "reused net_start = None" "peer net_start 5 = None" by (simp_all add: reused_def peer_def net_start_wf(3))
  with net_ctx_register_ok [OF net_start_wf(1) env_example_ok, of "Some [49, 0]" "Some [97, 0]" 5 6 5004] obtain N where
    N: "net_ctx_register env_example 5 6 (Some [49, 0]) 5004 (Some [97, 0]) net_start = Inr (Some 3, N)" "net_wf N"
      "addresses N = [3]" "ctx_set_to env_example 5 6 (Some [49, 0]) 5004 (Some [97, 0]) (context_of N 3)"
    by (auto simp: cstring_ok_def net_start_wf(3) env_example_def)
  have c: "config_value config_session ''remote.connect'' = Some ''a''" "string_bytes ''a'' = [97, 0]"
    "use_control_for_ck config_session = Inr True" by code_simp+
  have ok: "config_ok config_session" by (simp add: config_ok_def config_session_def kv_wf_def)
  have a: "3 \<in> set (addresses N)" by (simp add: N(3))
  have sock: "ck_address True (context_of N 3) \<noteq> []"
    using N(4) by (simp add: ck_address_def ctx_set_to_def sock_address_def env_example_def)
  have "net_ctx_find_by_name (Some [97, 0]) N = Inr (Some 3, N)"
    using N(4) by (subst net_ctx_find_by_name_first [OF N(2)])
      (simp_all add: N(3) ctx_set_to_def c_string_def)
  then have f: "net_ctx_find_by_name (map_option string_bytes (config_value config_session ''remote.connect'')) N = Inr (Some 3, N)"
    by (simp add: c)
  have es: "\<forall>E \<in> set [env_example\<lparr>en_now := 1500\<rparr>, env_example\<lparr>en_now := 2500\<rparr>]. env_ok E"
    using env_example_ok by (simp add: env_ok_def)
  from sync_thread_paces [OF N(2) a sock ok f c(3) es, of env_example] obtain es where
    "remote_connect_sync_thread config_session [(env_example\<lparr>en_now := 1500\<rparr>, False), (env_example\<lparr>en_now := 2500\<rparr>, False),
      (env_example, True)] N = Inr (es, True, N)"
    "list_all2 (ck_sent True (context_of N 3)) [env_example\<lparr>en_now := 1500\<rparr>, env_example\<lparr>en_now := 2500\<rparr>] es" by auto
  with N(1) show ?thesis by (auto simp: list_all2_Cons1)
qed

text \<open>Where a session is configured whose peer never accepted, the end joins a thread that was never made.\<close>

lemma remote_connect_end_unaccepted:
  assumes "config_ok (en_config E)" "config_value (en_config E) ''remote.connect'' = Some name"
  shows "remote_connect_end E False N = Inl UseAfterFree"
  using assms by (simp add: remote_connect_end_def config_string_value remote_connect_wait_for_thread_def)

lemma remote_connect_end_joined:
  assumes "config_ok (en_config E)"
  shows "remote_connect_end E True N = remote_connect_teardown E N"
  using assms by (simp add: remote_connect_end_def config_string_value remote_connect_wait_for_thread_def)

end
