(* ===== verification/Spec2Isabelle.thy ===== *)
theory Spec2Isabelle
  imports Journal_Pack Journal_Events Midi_Stream Midi_Events Net_Bytes
    Midi_Payload Rtp_Packet Net_Applemidi Config Data_Context Data_Queue Data_Table Server Alsa_Read
    Logging Utils Command_Line Main_Program Dns_Publisher Dns_Discover Remote_Session
begin

text \<open>
  raveloxmidi (\<^verbatim>\<open>src/raveloxmidi\<close>, C) is a proxy between local MIDI and remote RTP-MIDI peers. Local programs send
  MIDI octets to a socket on the host, sound devices are read through ALSA, remote peers open sessions with the
  AppleMIDI commands (invitation, acceptance, clock synchronisation, feedback, end) on a control and a data port and
  send RTP packets whose payload is a section of MIDI commands with a recovery journal. Every command that arrives
  from anywhere is parsed, put in one queue, and sent by the thread of the queue to every other connection, device
  and file. The library models these parts one theory each, up to the interleaving of the threads.

  \<^bold>\<open>Conventions\<close> (\<open>Prelude\<close>). A pointer that may be NULL is an option, an allocation the list of its bytes, a struct
  a record, a w-bit integer a word; a struct that the code shares by address lives in a store from addresses. A C
  function is a function of the states it reads to the states it changes; what is undefined or ends the process (NULL,
  reading outside an allocation, use after a free, too wide a shift, a mutex locked twice or unlocked when free) is a
  fault, the left of a sum, so that a theorem that says \<open>= Inr ..\<close> says that none happens. Every allocation can be told
  to fail by a function of its site, \<open>mem_ok\<close> being the one where none does; definitions have the branches for
  failure, properties that need memory say so. Whether the string buffer is extended where it lies when it grows is an
  argument too (\<open>mc_stays\<close>), since the code reads the old block afterwards. What the kernel and the libraries answer is an argument.

  \<^bold>\<open>Parts, theories and sources\<close> (files of \<^verbatim>\<open>src\<close>; the functions keep their names).
  \<^item> Storage: \<open>Ring_Buffer\<close> (\<^verbatim>\<open>ring_buffer.c\<close>), \<open>Byte_Buffers\<close> (\<^verbatim>\<open>dbuffer.c\<close>, \<^verbatim>\<open>dstring.c\<close>), \<open>Kv_Table\<close> (\<^verbatim>\<open>kv_table.c\<close>),
    \<open>Data_Table\<close> (\<^verbatim>\<open>data_table.c\<close>), \<open>Data_Context\<close> (\<^verbatim>\<open>data_context.c\<close>, reference counts), \<open>Data_Queue\<close> (\<^verbatim>\<open>data_queue.c\<close>,
    producers and the queue thread as a step relation).
  \<^item> Wire formats: \<open>Net_Bytes\<close> and \<open>Utils\<close> (\<^verbatim>\<open>utils.c\<close>), \<open>Rtp_Packet\<close> (\<^verbatim>\<open>rtp_packet.c\<close>), \<open>Midi_Payload\<close>
    (\<^verbatim>\<open>midi_payload.c\<close>), \<open>Net_Applemidi\<close> (\<^verbatim>\<open>net_applemidi.c\<close>).
  \<^item> MIDI: \<open>Midi_Command\<close> (\<^verbatim>\<open>midi_command.c\<close>), \<open>Midi_State\<close> and \<open>Midi_Stream\<close> (\<^verbatim>\<open>midi_state.c\<close>, the parser and
    what it does with whole streams), \<open>Midi_Events\<close> (\<^verbatim>\<open>midi_note.c\<close>, \<^verbatim>\<open>midi_control.c\<close>, \<^verbatim>\<open>midi_program.c\<close>).
  \<^item> Recovery journal: \<open>Chapter_P\<close>, \<open>Chapter_C\<close>, \<open>Chapter_N\<close> (the files of these names), \<open>Midi_Journal\<close>, \<open>Journal_Events\<close>,
    \<open>Journal_Pack\<close> (\<^verbatim>\<open>midi_journal.c\<close>).
  \<^item> Sessions: \<open>Net_Connection\<close> and \<open>Connection_List\<close> (\<^verbatim>\<open>net_connection.c\<close>), \<open>Responders\<close> (\<^verbatim>\<open>net_response.c\<close>,
    \<^verbatim>\<open>applemidi_inv.c\<close>, \<^verbatim>\<open>_ok\<close>, \<^verbatim>\<open>_sync\<close>, \<^verbatim>\<open>_by\<close>, \<^verbatim>\<open>_feedback\<close>), \<open>Remote_Connection\<close> and \<open>Remote_Session\<close>
    (\<^verbatim>\<open>remote_connection.c\<close>), \<open>Dns_Discover\<close> (\<^verbatim>\<open>dns_service_discover.c\<close>), \<open>Dns_Publisher\<close> (\<^verbatim>\<open>dns_service_publisher.c\<close>).
  \<^item> Ways in and out: \<open>Net_Socket\<close>, \<open>Socket_Read\<close>, \<open>Socket_Safety\<close> (\<^verbatim>\<open>net_socket.c\<close>), \<open>Midi_Sender\<close>, \<open>Sender_Safety\<close>,
    \<open>Sender_Steps\<close> (\<^verbatim>\<open>midi_sender.c\<close>; the last takes its thread apart into steps), \<open>Alsa\<close>, \<open>Alsa_Read\<close> (\<^verbatim>\<open>raveloxmidi_alsa.c\<close>, and what the build with ALSA adds to the other two).
  \<^item> The process: \<open>Config\<close> and \<open>Command_Line\<close> (\<^verbatim>\<open>raveloxmidi_config.c\<close>), \<open>Logging\<close> (\<^verbatim>\<open>logging.c\<close>), \<open>Main_Program\<close>
    (\<^verbatim>\<open>daemon.c\<close>, \<^verbatim>\<open>raveloxmidi.c\<close>), and \<open>Server\<close>, the program as a whole: datagrams, interleaved with the steps in
    which the sender takes a queued command, makes its turn for each connection, and ends.

  \<^bold>\<open>How they interact.\<close> \<open>read_dispatch\<close> in \<open>Net_Socket\<close> takes a datagram apart: a session command goes through
  \<open>Net_Applemidi\<close> to its responder, which works on the connections; RTP goes through \<open>Rtp_Packet\<close> and \<open>Midi_Payload\<close> to
  the parser of the peer's context; local octets go to the parser of their socket. Each parser is a \<open>Ring_Buffer\<close> and a
  buffer of \<open>Byte_Buffers\<close> under the machine of \<open>Midi_State\<close>. Commands are queued with a reference to a \<open>Data_Context\<close>
  that names their origin; \<open>Midi_Sender\<close> gives the reference back, builds a packet for each connection but the origin,
  with the journal of that connection, and records the command there; feedback from the peer clears the journal.
  The connections and the devices are in a \<open>Data_Table\<close>, the configuration in a \<open>Kv_Table\<close>.

  \<^bold>\<open>Contracts.\<close> A locale states what a part promises to those that use it, and is interpreted on the model of the part:
  \<open>byte_fifo\<close> (ring), \<open>append_buffer\<close> (both growing buffers), \<open>wire_format\<close> (three widths), \<open>string_store\<close> (table of keys),
  \<open>data_list\<close> (table of pointers), \<open>registry\<close> (connections under session commands).

  \<^bold>\<open>What is shown.\<close>
  \<^item> State: each component has a well-formedness predicate that its operations preserve on every branch; \<open>Server\<close>
    collects them and shows them of every state that any interleaving of these steps reaches, which also
    gives that no context is used after it was freed, and that the steps can go on. \<open>Data_Queue\<close> shows of its
    own, finer steps that no wake-up is lost.
  \<^item> Function: what the parser sends for a stream however it is cut; what a datagram of each kind does; the handshakes
    of both sides; what is sent to which connection, with which header and sequence number; that a command sent by
    one such program is queued by another; what a sound device's octets lead to; what the log holds.
  \<^item> Safety as equivalences: exactly which datagrams, which commands and which turns of the ALSA listener the program
    survives. The other side of each equivalence is a defect of the code, and examples show them happening.
  \<^item> Refinement: the ring is a bounded queue, the table of keys a map without case, the registry a partial map from
    SSRCs, the log what a writer without files and locks would write.
  \<^item> Round trips of every packet format, with the cases in which the code loses information.
  \<^item> Order and end: the parser's loop, the choice of a published name (which returns exactly when a name is free),
    the order of starts and stops in every process, with what it leaves running when the publisher cannot be started, the
    freeing of everything the Avahi library made.

  \<^bold>\<open>Bounds and fuel.\<close> Loops are structural recursion on what is left, or functions with a measure. The loop of
  \<open>midi_state_send\<close> consumes an octet or ends at each turn, so it is a function with the octets in the ring as its measure. \<open>create_services\<close> may run for ever and
  is a partial function into options. Runs of threads are lists of steps, of any length. Sizes of objects are
  naturals, differences of sizes wrap at 64 bits where the code subtracts them.

  \<^bold>\<open>Not modelled.\<close> What a third party implements (the kernel's sockets and signals, pthreads, \<^verbatim>\<open>getopt\<close>, \<^verbatim>\<open>getaddrinfo\<close>,
  \<^verbatim>\<open>printf\<close>, ALSA, Avahi) is an argument or an event. Functions that only print for debugging (\<^verbatim>\<open>.._dump\<close>, \<^verbatim>\<open>config_usage\<close>),
  the messages that every function logs, and the tracing of allocations and locks to a file in \<^verbatim>\<open>utils.c\<close> are left out: they
  change no state that the program reads. A step of \<open>Server\<close> is a whole datagram, or a
  taking, a turn or an end of the sender; the locks of the code are finer than that, and interleavings within a step are not
  modelled. So a data race is not seen, and there is one: the sender looks a connection up without the lock of
  the table, which the listener may be reallocating (\<^verbatim>\<open>midi_sender.c:188\<close>, \<^verbatim>\<open>data_table.c:266\<close>). The host is little-endian in the packet formats; \<open>Net_Bytes\<close> shows for the cursors that this makes no
  difference. The programs under \<^verbatim>\<open>python\<close> and the build files are not part of the development.
\<close>

end
